(* ===== verification/Helion_Prelude.thy ===== *)
theory Helion_Prelude
  imports Main "HOL-Library.AList" "HOL-Library.Word" "HOL-Library.Char_ord"
    "HOL-Library.List_Lexorder"
begin

text \<open>
  Shared vocabulary of the development: the Go data the components have in common (time values,
  durations, string-keyed maps, the string functions of package \<open>strings\<close>), the fact collections
  the component proofs draw on, and generic lemmas on lists, maps and work lists.

  Conventions. A \<open>time.Time\<close> is the number of nanoseconds since Go's zero time, so that
  \<open>time.Time{}\<close> is 0 and \<open>Before\<close> is \<open><\<close>; every operation receives the clock reading it takes as
  an argument. A small \<open>map[string]string\<close> (environment, labels, selector, tags) is an association
  list: its order is the iteration order of one \<open>range\<close> loop, and since theorems hold for every
  list they hold for every order. A store indexed by an ID is a partial map; where the code ranges
  over it, the order is an argument \<open>ord\<close> that enumerates its keys (\<open>enumerates\<close>). A Go error is
  a value of a datatype of the component, carried by \<open>Inl\<close> or \<open>Some\<close>.
\<close>

section \<open>Fact collections\<close>

named_theorems op_defs \<open>defining equations of the operations of a component\<close>
named_theorems frame_simps \<open>fields and entries an operation leaves alone\<close>

section \<open>Go time\<close>

type_synonym time = int
type_synonym duration = int

definition time_zero :: time where
  "time_zero = 0"

definition IsZero :: "time \<Rightarrow> bool" where
  "IsZero t \<longleftrightarrow> t = time_zero"

text \<open>\<open>Time.Sub\<close> saturates at the limits of a 64-bit duration.\<close>

definition time_sub :: "time \<Rightarrow> time \<Rightarrow> duration" where
  "time_sub a b = max (- (2 ^ 63)) (min (2 ^ 63 - 1) (a - b))"

abbreviation millisecond :: duration where
  "millisecond \<equiv> 1000000"

abbreviation second :: duration where
  "second \<equiv> 1000000000"

abbreviation minute :: duration where
  "minute \<equiv> 60000000000"

text \<open>A quotient by a positive constant drops the fraction, for a negative dividend too.\<close>

definition trunc_div :: "int \<Rightarrow> int \<Rightarrow> int" where
  "trunc_div n unit = (if n < 0 then - (- n div unit) else n div unit)"

lemma time_sub_less_iff:
  "- (2 ^ 63) < d \<Longrightarrow> d \<le> 2 ^ 63 - 1 \<Longrightarrow> time_sub a b < d \<longleftrightarrow> a - b < d"
  by (auto simp: time_sub_def)

section \<open>String-keyed maps\<close>

type_synonym strmap = "(string \<times> string) list"

definition enumerates :: "'k list \<Rightarrow> ('k \<rightharpoonup> 'v) \<Rightarrow> bool" where
  "enumerates ks m \<longleftrightarrow> distinct ks \<and> set ks = dom m"

lemma enumerates_empty [simp]: "enumerates ks Map.empty \<longleftrightarrow> ks = []"
  by (auto simp: enumerates_def)

lemma enumerates_dom: "enumerates ks m \<Longrightarrow> k \<in> set ks \<longleftrightarrow> k \<in> dom m"
  by (simp add: enumerates_def)

text \<open>The values of a map in the order a \<open>range\<close> loop visits them.\<close>

definition range_values :: "'k list \<Rightarrow> ('k \<rightharpoonup> 'v) \<Rightarrow> 'v list" where
  "range_values ks m = map (\<lambda>k. the (m k)) ks"

lemma set_range_values: "enumerates ks m \<Longrightarrow> set (range_values ks m) = ran m"
  by (force simp: enumerates_def range_values_def ran_def dom_def image_iff)

lemma ran_upd_subset: "ran (m(k \<mapsto> v)) \<subseteq> insert v (ran m)"
  by (auto simp: ran_def split: if_splits)

section \<open>Go strings\<close>

text \<open>
  \<open>strings.HasPrefix\<close>, \<open>HasSuffix\<close>, \<open>Contains\<close>, \<open>IndexByte\<close> and \<open>LastIndexByte\<close>; an index that
  does not exist is -1.
\<close>

fun HasPrefix :: "string \<Rightarrow> string \<Rightarrow> bool" where
  "HasPrefix s [] = True"
| "HasPrefix [] (p # ps) = False"
| "HasPrefix (c # s) (p # ps) = (c = p \<and> HasPrefix s ps)"

definition HasSuffix :: "string \<Rightarrow> string \<Rightarrow> bool" where
  "HasSuffix s p = HasPrefix (rev s) (rev p)"

fun IndexByte :: "string \<Rightarrow> char \<Rightarrow> int" where
  "IndexByte [] c = -1"
| "IndexByte (x # xs) c =
     (if x = c then 0 else let i = IndexByte xs c in if i < 0 then -1 else i + 1)"

definition LastIndexByte :: "string \<Rightarrow> char \<Rightarrow> int" where
  "LastIndexByte s c = (let i = IndexByte (rev s) c in if i < 0 then -1 else int (length s) - 1 - i)"

lemma HasPrefix_iff: "HasPrefix s p \<longleftrightarrow> (\<exists>r. s = p @ r)"
  by (induction s p rule: HasPrefix.induct) auto

lemma HasSuffix_iff: "HasSuffix s p \<longleftrightarrow> (\<exists>r. s = r @ p)"
proof -
  have "(\<exists>r. rev s = rev p @ r) \<longleftrightarrow> (\<exists>r. s = r @ p)"
    by (metis rev_append rev_rev_ident)
  then show ?thesis by (simp add: HasSuffix_def HasPrefix_iff)
qed

lemma IndexByte_ge: "-1 \<le> IndexByte s c"
  by (induction s) (auto simp: Let_def)

lemma IndexByte_neg_iff: "IndexByte s c < 0 \<longleftrightarrow> c \<notin> set s"
  by (induction s) (auto simp: Let_def)

lemma IndexByte_append_notin: "c \<notin> set u \<Longrightarrow> IndexByte (u @ c # v) c = int (length u)"
  by (induction u) (auto simp: Let_def)

lemma IndexByte_split:
  "0 \<le> IndexByte s c \<Longrightarrow>
   s = take (nat (IndexByte s c)) s @ c # drop (nat (IndexByte s c) + 1) s
   \<and> c \<notin> set (take (nat (IndexByte s c)) s) \<and> nat (IndexByte s c) < length s"
proof (induction s)
  case Nil
  then show ?case by simp
next
  case (Cons x xs)
  show ?case
  proof (cases "x = c")
    case False
    with Cons.prems have ge: "0 \<le> IndexByte xs c" by (auto simp: Let_def split: if_splits)
    then have "nat (IndexByte (x # xs) c) = Suc (nat (IndexByte xs c))"
      using False by (simp add: Let_def)
    with Cons.IH [OF ge] False show ?thesis by auto
  qed simp
qed

lemma LastIndexByte_append_notin:
  "c \<notin> set v \<Longrightarrow> LastIndexByte (u @ c # v) c = int (length u)"
  using IndexByte_append_notin [of c "rev v" "rev u"]
  by (simp add: LastIndexByte_def Let_def)

lemma LastIndexByte_neg_iff: "LastIndexByte s c < 0 \<longleftrightarrow> c \<notin> set s"
proof (cases "c \<in> set s")
  case True
  then have ge: "0 \<le> IndexByte (rev s) c"
    using IndexByte_neg_iff [of "rev s" c] by (simp add: not_less)
  then have "IndexByte (rev s) c < int (length s)"
    using IndexByte_split [OF ge] by (simp add: nat_less_iff)
  with ge True show ?thesis by (simp add: LastIndexByte_def Let_def)
next
  case False
  then have "IndexByte (rev s) c < 0" using IndexByte_neg_iff [of "rev s" c] by simp
  with False show ?thesis by (simp add: LastIndexByte_def Let_def)
qed

lemma LastIndexByte_eqD:
  assumes "LastIndexByte s c = int n"
  shows "s = take n s @ c # drop (Suc n) s" and "c \<notin> set (drop (Suc n) s)" and "n < length s"
proof -
  have "c \<in> set s" using assms LastIndexByte_neg_iff [of s c] by auto
  then obtain u v where s: "s = u @ c # v" and v: "c \<notin> set v"
    using split_list_last by metis
  then have "n = length u" using assms LastIndexByte_append_notin [OF v, of u] by simp
  with s v show "s = take n s @ c # drop (Suc n) s" and "c \<notin> set (drop (Suc n) s)"
    and "n < length s" by auto
qed

section \<open>Work lists\<close>

text \<open>
  The set reached from the elements of a work list by a successor function, as the code's
  breadth- and depth-first searches compute it.
\<close>

lemma trancl_closed_set:
  assumes sub: "\<And>x y. (x, y) \<in> r \<Longrightarrow> x \<in> A \<or> x = a \<Longrightarrow> y \<in> A" and "(a, b) \<in> r\<^sup>+"
  shows "b \<in> A"
  using assms(2) by (induction rule: trancl_induct) (auto intro: sub)

lemma finite_ranked_min:
  assumes "finite A" and "A \<noteq> {}"
  obtains a where "a \<in> A" and "\<And>b. b \<in> A \<Longrightarrow> (f a :: nat) \<le> f b"
proof -
  define a where "a = arg_min_on f A"
  have "a \<in> A" using assms by (simp add: a_def arg_min_if_finite(1))
  moreover have "f a \<le> f b" if "b \<in> A" for b
    using arg_min_least [OF assms that, of f] by (simp add: a_def)
  ultimately show thesis by (rule that)
qed

section \<open>Lists\<close>

lemma map_filter_the:
  "set ks \<subseteq> dom m \<Longrightarrow> x \<in> set (map (\<lambda>k. the (m k)) ks) \<Longrightarrow> \<exists>k \<in> set ks. m k = Some x"
  by force

lemma find_SomeD: "List.find P xs = Some x \<Longrightarrow> x \<in> set xs \<and> P x"
  by (auto simp: find_Some_iff)

lemma find_None_iff_all: "List.find P xs = None \<longleftrightarrow> (\<forall>x \<in> set xs. \<not> P x)"
  by (auto simp: find_None_iff)

end
