(* ===== verification/Principals.thy ===== *)
theory Principals
  imports Helion_Prelude
begin

text \<open>
  The identity model of \<open>internal/principal/principal.go\<close>: the \<open>Principal\<close> record, its
  constructors, the ID grammar \<open>kind:suffix\<close> with its parser, the owner IDs synthesised for
  legacy records and the admin test. \<open>Kind\<close> is a string type in the source; the model has a
  constructor per declared constant and \<open>KindOther\<close> for any other string.

  The lemmas show that IDs of different kinds never collide, that parsing inverts construction,
  and that no constructor produces the legacy sentinel.
\<close>

section \<open>Kinds and the principal record\<close>

datatype kind = KindUser | KindOperator | KindNode | KindService | KindJob | KindAnonymous
  | KindOther string

fun kind_string :: "kind \<Rightarrow> string" where
  "kind_string KindUser = ''user''"
| "kind_string KindOperator = ''operator''"
| "kind_string KindNode = ''node''"
| "kind_string KindService = ''service''"
| "kind_string KindJob = ''job''"
| "kind_string KindAnonymous = ''anonymous''"
| "kind_string (KindOther s) = s"

text \<open>The table \<open>prefix\<close>: a kind outside it reads as the empty string.\<close>

fun prefix_of :: "kind \<Rightarrow> string option" where
  "prefix_of KindUser = Some ''user:''"
| "prefix_of KindOperator = Some ''operator:''"
| "prefix_of KindNode = Some ''node:''"
| "prefix_of KindService = Some ''service:''"
| "prefix_of KindJob = Some ''job:''"
| "prefix_of _ = None"

definition prefix_str :: "kind \<Rightarrow> string" where
  "prefix_str k = (case prefix_of k of None \<Rightarrow> [] | Some p \<Rightarrow> p)"

text \<open>Conversion of a string to \<open>Kind\<close>.\<close>

definition kind_of_string :: "string \<Rightarrow> kind" where
  "kind_of_string s =
     (if s = ''user'' then KindUser else if s = ''operator'' then KindOperator
      else if s = ''node'' then KindNode else if s = ''service'' then KindService
      else if s = ''job'' then KindJob else if s = ''anonymous'' then KindAnonymous
      else KindOther s)"

record principal =
  p_ID :: string
  p_Kind :: kind
  p_DisplayName :: string
  p_Role :: string
  p_Groups :: "string list"

section \<open>Constructors\<close>

definition User :: "string \<Rightarrow> string \<Rightarrow> principal" where
  "User subject role = \<lparr>p_ID = prefix_str KindUser @ subject, p_Kind = KindUser,
     p_DisplayName = subject, p_Role = role, p_Groups = []\<rparr>"

definition Operator :: "string \<Rightarrow> string \<Rightarrow> principal" where
  "Operator cn role = \<lparr>p_ID = prefix_str KindOperator @ cn, p_Kind = KindOperator,
     p_DisplayName = cn, p_Role = role, p_Groups = []\<rparr>"

definition NodeP :: "string \<Rightarrow> principal" where
  "NodeP nodeID = \<lparr>p_ID = prefix_str KindNode @ nodeID, p_Kind = KindNode,
     p_DisplayName = nodeID, p_Role = [], p_Groups = []\<rparr>"

definition Service :: "string \<Rightarrow> principal" where
  "Service name = \<lparr>p_ID = prefix_str KindService @ name, p_Kind = KindService,
     p_DisplayName = name, p_Role = [], p_Groups = []\<rparr>"

definition JobP :: "string \<Rightarrow> principal" where
  "JobP subject = \<lparr>p_ID = prefix_str KindJob @ subject, p_Kind = KindJob,
     p_DisplayName = subject, p_Role = ''job'', p_Groups = []\<rparr>"

definition Anonymous :: principal where
  "Anonymous = \<lparr>p_ID = ''anonymous'', p_Kind = KindAnonymous,
     p_DisplayName = ''anonymous'', p_Role = [], p_Groups = []\<rparr>"

lemmas constructor_defs = User_def Operator_def NodeP_def Service_def JobP_def Anonymous_def

text \<open>The principals the exported constructors can build.\<close>

inductive constructed :: "principal \<Rightarrow> bool" where
  c_user: "constructed (User s r)"
| c_operator: "constructed (Operator s r)"
| c_node: "constructed (NodeP s)"
| c_service: "constructed (Service s)"
| c_job: "constructed (JobP s)"
| c_anonymous: "constructed Anonymous"

section \<open>Context plumbing\<close>

text \<open>A context carries an optional principal pointer; \<open>None\<close> is a missing or nil value.\<close>

type_synonym ctx = "principal option"

definition NewContext :: "ctx \<Rightarrow> principal option \<Rightarrow> ctx" where
  "NewContext parent p = (case p of None \<Rightarrow> Some Anonymous | Some q \<Rightarrow> Some q)"

definition FromContext :: "ctx \<Rightarrow> principal" where
  "FromContext c = (case c of None \<Rightarrow> Anonymous | Some p \<Rightarrow> p)"

section \<open>ID parsing\<close>

datatype id_error = NotPrefixed | UnknownKind kind

definition ParseID :: "string \<Rightarrow> id_error + (kind \<times> string)" where
  "ParseID i =
     (if i = ''anonymous'' then Inr (KindAnonymous, [])
      else let colon = IndexByte i (CHR '':'') in
        if colon \<le> 0 then Inl NotPrefixed
        else let k = kind_of_string (take (nat colon) i) in
          if prefix_of k = None then Inl (UnknownKind k)
          else Inr (k, drop (nat colon + 1) i))"

fun stringsIndexByte :: "string \<Rightarrow> char \<Rightarrow> nat \<Rightarrow> int" where
  "stringsIndexByte [] c i = -1"
| "stringsIndexByte (x # xs) c i = (if x = c then int i else stringsIndexByte xs c (Suc i))"

definition SubjectFromID :: "string \<Rightarrow> string" where
  "SubjectFromID i =
     (if i = [] \<or> i = ''anonymous'' then []
      else let colon = stringsIndexByte i (CHR '':'') 0 in
        if 0 < colon then drop (nat colon + 1) i else i)"

definition LegacyOwnerID :: string where
  "LegacyOwnerID = ''legacy:''"

definition OwnerFromLegacy :: "string \<Rightarrow> string" where
  "OwnerFromLegacy legacySubject =
     (if legacySubject = [] then LegacyOwnerID else prefix_str KindUser @ legacySubject)"

definition IsAdmin :: "principal option \<Rightarrow> bool" where
  "IsAdmin p = (case p of None \<Rightarrow> False | Some q \<Rightarrow>
     (case p_Kind q of KindUser \<Rightarrow> p_Role q = ''admin'' | KindOperator \<Rightarrow> p_Role q = ''admin''
      | _ \<Rightarrow> False))"

section \<open>Lemmas\<close>

lemma stringsIndexByte_eq:
  "stringsIndexByte s c i = (if IndexByte s c < 0 then -1 else int i + IndexByte s c)"
  using IndexByte_ge [of s c] by (induction s arbitrary: i) (auto simp: Let_def IndexByte_ge)

lemma prefix_of_shape:
  "prefix_of k = Some p \<Longrightarrow>
   \<exists>q. p = q @ '':'' \<and> q \<noteq> [] \<and> CHR '':'' \<notin> set q \<and> kind_of_string q = k \<and> q = kind_string k"
  by (cases k) (auto simp: kind_of_string_def)

lemma ParseID_prefixed:
  assumes "prefix_of k = Some p"
  shows "ParseID (p @ s) = Inr (k, s)"
proof -
  obtain q where q: "p = q @ '':''" "q \<noteq> []" "CHR '':'' \<notin> set q" "kind_of_string q = k"
    using prefix_of_shape [OF assms] by blast
  have "p @ s \<noteq> ''anonymous''"
  proof
    assume "p @ s = ''anonymous''"
    then have "CHR '':'' \<in> set ''anonymous''"
      using q(1) by (metis append.assoc append_Cons in_set_conv_decomp)
    then show False by simp
  qed
  moreover have "IndexByte (p @ s) (CHR '':'') = int (length q)"
    using IndexByte_append_notin [OF q(3), of s] q(1) by simp
  ultimately show ?thesis
    using q assms by (auto simp: ParseID_def Let_def)
qed

lemma SubjectFromID_prefixed:
  assumes "prefix_of k = Some p"
  shows "SubjectFromID (p @ s) = s"
proof -
  obtain q where q: "p = q @ '':''" "q \<noteq> []" "CHR '':'' \<notin> set q"
    using prefix_of_shape [OF assms] by blast
  have "p @ s \<noteq> ''anonymous''"
    using ParseID_prefixed [OF assms, of s] assms by (auto simp: ParseID_def)
  moreover have "IndexByte (p @ s) (CHR '':'') = int (length q)"
    using IndexByte_append_notin [OF q(3), of s] q(1) by simp
  ultimately show ?thesis
    using q by (auto simp: SubjectFromID_def stringsIndexByte_eq Let_def)
qed

lemma constructed_parse:
  "constructed p \<Longrightarrow>
   ParseID (p_ID p) = Inr (p_Kind p, if p_Kind p = KindAnonymous then [] else p_DisplayName p)"
proof (induction rule: constructed.induct)
  case c_anonymous
  then show ?case by (simp add: ParseID_def Anonymous_def)
qed (auto simp: constructor_defs prefix_str_def intro!: ParseID_prefixed simp del: append.simps)

lemma constructed_anonymous_name:
  "constructed p \<Longrightarrow> p_Kind p = KindAnonymous \<Longrightarrow> p = Anonymous"
  by (auto elim!: constructed.cases simp: constructor_defs)

lemma LegacyOwnerID_malformed: "ParseID LegacyOwnerID = Inl (UnknownKind (KindOther ''legacy''))"
  by (simp add: ParseID_def LegacyOwnerID_def kind_of_string_def Let_def)

lemma IsAdmin_iff:
  "IsAdmin p \<longleftrightarrow> (\<exists>q. p = Some q \<and> p_Kind q \<in> {KindUser, KindOperator} \<and> p_Role q = ''admin'')"
  by (auto simp: IsAdmin_def split: option.splits kind.splits)

lemma IsAdmin_None [simp]: "\<not> IsAdmin None"
  by (simp add: IsAdmin_def)

section \<open>Properties\<close>

text \<open>Identities of different kinds never collide: two constructed principals with the same ID
  have the same kind and the same name, parsing the ID recovers the kind, and no constructed
  principal carries the legacy owner sentinel.\<close>

theorem principal_ids_disjoint:
  assumes "constructed p" and "constructed q" and "p_ID p = p_ID q"
  shows "p_Kind p = p_Kind q \<and> p_DisplayName p = p_DisplayName q \<and> p_ID p \<noteq> LegacyOwnerID"
proof -
  note pp = constructed_parse [OF assms(1)] and pq = constructed_parse [OF assms(2)]
  have kd: "p_Kind p = p_Kind q" using pp pq assms(3) by simp
  moreover have "p_DisplayName p = p_DisplayName q"
    using pp pq assms(3) kd constructed_anonymous_name [OF assms(1)]
      constructed_anonymous_name [OF assms(2)] by (cases "p_Kind p = KindAnonymous") auto
  moreover have "p_ID p \<noteq> LegacyOwnerID" using pp LegacyOwnerID_malformed by auto
  ultimately show ?thesis by simp
qed

theorem principal_ids_disjoint_witness:
  "p_Kind (User ''alice'' ''user'') = p_Kind (User ''alice'' ''admin'') \<and>
   p_DisplayName (User ''alice'' ''user'') = p_DisplayName (User ''alice'' ''admin'') \<and>
   p_ID (User ''alice'' ''user'') \<noteq> LegacyOwnerID"
  by (rule principal_ids_disjoint [OF c_user c_user]) (simp add: User_def)

text \<open>The subject round trip used for back-compatibility: stripping the kind prefix of any
  constructed non-anonymous ID gives the name it was built from, and backfilling a legacy record
  from a non-empty subject gives the ID of the user with that subject, never the sentinel.\<close>

theorem subject_round_trip:
  "SubjectFromID (p_ID (User s r)) = s \<and> SubjectFromID (p_ID (Operator s r)) = s \<and>
   SubjectFromID (p_ID (NodeP s)) = s \<and> SubjectFromID (p_ID (Service s)) = s \<and>
   SubjectFromID (p_ID (JobP s)) = s \<and> SubjectFromID (p_ID Anonymous) = [] \<and>
   OwnerFromLegacy s = (if s = [] then LegacyOwnerID else p_ID (User s r))"
proof -
  have "SubjectFromID (prefix_str k @ s) = s" if "prefix_of k \<noteq> None" for k
    using that SubjectFromID_prefixed [of k _ s] by (auto simp: prefix_str_def)
  then have "SubjectFromID (prefix_str KindUser @ s) = s" "SubjectFromID (prefix_str KindOperator @ s) = s"
    "SubjectFromID (prefix_str KindNode @ s) = s" "SubjectFromID (prefix_str KindService @ s) = s"
    "SubjectFromID (prefix_str KindJob @ s) = s"
    by simp_all
  then show ?thesis
    by (simp add: constructor_defs OwnerFromLegacy_def) (simp add: SubjectFromID_def)
qed

end
