(* ===== verification/Authz.thy ===== *)
theory Authz
  imports Principals
begin

text \<open>
  The authorization engine of \<open>internal/authz\<close>: actions, resources and their constructors, the
  deny error, the per-kind allow lists of \<open>rules.go\<close>, the share grants of \<open>share.go\<close> with their
  validator, and the evaluator \<open>Allow\<close> with its rules in the order of the source. A nil pointer
  is \<open>None\<close>; \<open>Allow\<close> returns \<open>None\<close> for permitted and \<open>Some\<close> of the deny error otherwise, whose
  free-form \<open>Reason\<close> text is left out.

  The lemmas characterise the permitted requests rule by rule; the properties state that the
  evaluator fails closed, that shares widen access only to their grantee and actions, that legacy
  resources stay admin-only whatever their shares, and what a validated share can grant.
\<close>

section \<open>Actions, resources, shares\<close>

datatype action = ActionRead | ActionList | ActionWrite | ActionCancel | ActionDelete
  | ActionReveal | ActionAdmin | ActionOther string

datatype resource_kind = ResourceKindJob | ResourceKindWorkflow | ResourceKindDataset
  | ResourceKindModel | ResourceKindService | ResourceKindSystem | ResourceKindOther string

record share =
  sh_Grantee :: string
  sh_Actions :: "action list"
  sh_GrantedBy :: string
  sh_GrantedAt :: time

record resource =
  r_Kind :: resource_kind
  r_ID :: string
  r_OwnerPrincipal :: string
  r_WorkflowID :: string
  r_Shares :: "share list"

definition SystemResource :: resource where
  "SystemResource = \<lparr>r_Kind = ResourceKindSystem, r_ID = [], r_OwnerPrincipal = [],
     r_WorkflowID = [], r_Shares = []\<rparr>"

text \<open>The variadic \<open>shares\<close> argument: only its first element is read.\<close>

definition first_shares :: "share list list \<Rightarrow> share list" where
  "first_shares ss = (case ss of [] \<Rightarrow> [] | s # _ \<Rightarrow> s)"

definition JobResource :: "string \<Rightarrow> string \<Rightarrow> string \<Rightarrow> share list list \<Rightarrow> resource" where
  "JobResource i owner workflowID ss = \<lparr>r_Kind = ResourceKindJob, r_ID = i,
     r_OwnerPrincipal = owner, r_WorkflowID = workflowID, r_Shares = first_shares ss\<rparr>"

definition WorkflowResource :: "string \<Rightarrow> string \<Rightarrow> share list list \<Rightarrow> resource" where
  "WorkflowResource i owner ss = \<lparr>r_Kind = ResourceKindWorkflow, r_ID = i,
     r_OwnerPrincipal = owner, r_WorkflowID = [], r_Shares = first_shares ss\<rparr>"

definition DatasetResource :: "string \<Rightarrow> string \<Rightarrow> share list list \<Rightarrow> resource" where
  "DatasetResource i owner ss = \<lparr>r_Kind = ResourceKindDataset, r_ID = i,
     r_OwnerPrincipal = owner, r_WorkflowID = [], r_Shares = first_shares ss\<rparr>"

definition ModelResource :: "string \<Rightarrow> string \<Rightarrow> share list list \<Rightarrow> resource" where
  "ModelResource i owner ss = \<lparr>r_Kind = ResourceKindModel, r_ID = i,
     r_OwnerPrincipal = owner, r_WorkflowID = [], r_Shares = first_shares ss\<rparr>"

definition ServiceResource :: "string \<Rightarrow> string \<Rightarrow> share list list \<Rightarrow> resource" where
  "ServiceResource i owner ss = \<lparr>r_Kind = ResourceKindService, r_ID = i,
     r_OwnerPrincipal = owner, r_WorkflowID = [], r_Shares = first_shares ss\<rparr>"

section \<open>Deny errors\<close>

datatype deny_code = DenyCodeNilPrincipal | DenyCodeAnonymous | DenyCodeUnknownKind
  | DenyCodeNotOwner | DenyCodeLegacyOwner | DenyCodeNodeNotAllowed | DenyCodeServiceNotAllowed
  | DenyCodeJobScopeMismatch | DenyCodeAdminRequired | DenyCodeNilResource | DenyCodeSystemNonAdmin

record deny_error =
  d_Code :: deny_code
  d_Action :: action
  d_Kind :: string
  d_ResourceKind :: resource_kind

definition denyf :: "deny_code \<Rightarrow> action \<Rightarrow> principal option \<Rightarrow> resource option \<Rightarrow> deny_error option" where
  "denyf code a p res = Some \<lparr>d_Code = code, d_Action = a,
     d_Kind = (case p of None \<Rightarrow> [] | Some q \<Rightarrow> kind_string (p_Kind q)),
     d_ResourceKind = (case res of None \<Rightarrow> ResourceKindOther [] | Some r \<Rightarrow> r_Kind r)\<rparr>"

section \<open>Allow lists\<close>

text \<open>The node table is empty; an absent entry reads as \<open>false\<close>.\<close>

definition nodeActionsByResource :: "(resource_kind \<times> action list) list" where
  "nodeActionsByResource = []"

definition table_allows :: "(resource_kind \<times> action list) list \<Rightarrow> action \<Rightarrow> resource_kind \<Rightarrow> bool" where
  "table_allows t a k = (case map_of t k of None \<Rightarrow> False | Some as \<Rightarrow> a \<in> set as)"

definition nodeAllowed :: "action \<Rightarrow> resource_kind \<Rightarrow> bool" where
  "nodeAllowed a k = table_allows nodeActionsByResource a k"

definition serviceActions :: "(string \<times> (resource_kind \<times> action list) list) list" where
  "serviceActions =
    [(''dispatcher'', [(ResourceKindJob, [ActionRead, ActionList, ActionCancel])]),
     (''workflow_runner'',
        [(ResourceKindJob, [ActionRead, ActionWrite, ActionList]),
         (ResourceKindWorkflow, [ActionRead, ActionList, ActionCancel])]),
     (''retry_loop'', [(ResourceKindJob, [ActionRead, ActionList, ActionWrite, ActionCancel])]),
     (''log_ingester'', [(ResourceKindJob, [ActionRead])]),
     (''retention'', []),
     (''log_reconciler'', [(ResourceKindJob, [ActionRead])]),
     (''coordinator'', [])]"

definition serviceAllowed :: "string \<Rightarrow> action \<Rightarrow> resource_kind \<Rightarrow> bool" where
  "serviceAllowed name a k =
     (case map_of serviceActions name of None \<Rightarrow> False | Some t \<Rightarrow> table_allows t a k)"

section \<open>Shares\<close>

definition matchesGrantee :: "principal option \<Rightarrow> string \<Rightarrow> bool" where
  "matchesGrantee p grantee = (case p of None \<Rightarrow> False | Some q \<Rightarrow>
     if grantee = [] then False
     else if p_ID q = grantee then True
     else if HasPrefix grantee ''group:'' then drop 6 grantee \<in> set (p_Groups q)
     else False)"

definition containsAction :: "action list \<Rightarrow> action \<Rightarrow> bool" where
  "containsAction as a = list_ex (\<lambda>x. x = a) as"

definition knownAction :: "action \<Rightarrow> bool" where
  "knownAction a = (case a of ActionOther _ \<Rightarrow> False | _ \<Rightarrow> True)"

datatype share_error = EmptyGrantee | AnonymousGrantee | MalformedGrantee | UnknownGranteeKind string
  | NoActions | UnknownShareAction action | AdminNotShareable

fun check_actions :: "action list \<Rightarrow> share_error option" where
  "check_actions [] = None"
| "check_actions (a # as) =
     (if \<not> knownAction a then Some (UnknownShareAction a)
      else if a = ActionAdmin then Some AdminNotShareable
      else check_actions as)"

definition ValidateShare :: "share \<Rightarrow> share_error option" where
  "ValidateShare s =
     (if sh_Grantee s = [] then Some EmptyGrantee
      else if sh_Grantee s = ''anonymous'' then Some AnonymousGrantee
      else let colon = IndexByte (sh_Grantee s) (CHR '':'') in
        if colon \<le> 0 \<or> colon = int (length (sh_Grantee s)) - 1 then Some MalformedGrantee
        else let kd = take (nat colon) (sh_Grantee s) in
          if kd \<notin> {''user'', ''operator'', ''group'', ''service'', ''job''}
          then Some (UnknownGranteeKind kd)
          else if sh_Actions s = [] then Some NoActions
          else check_actions (sh_Actions s))"

section \<open>The evaluator\<close>

fun sharesPermit :: "principal \<Rightarrow> action \<Rightarrow> share list \<Rightarrow> bool" where
  "sharesPermit p a [] = False"
| "sharesPermit p a (sh # shs) =
     (if matchesGrantee (Some p) (sh_Grantee sh) \<and> containsAction (sh_Actions sh) a then True
      else sharesPermit p a shs)"

definition Allow :: "principal option \<Rightarrow> action \<Rightarrow> resource option \<Rightarrow> deny_error option" where
  "Allow pp a rr =
     (case pp of None \<Rightarrow> denyf DenyCodeNilPrincipal a None rr
      | Some p \<Rightarrow>
     (case rr of None \<Rightarrow> denyf DenyCodeNilResource a pp None
      | Some r \<Rightarrow>
        if IsAdmin pp then None
        else if p_Kind p = KindAnonymous then denyf DenyCodeAnonymous a pp rr
        else if r_Kind r = ResourceKindSystem then denyf DenyCodeAdminRequired a pp rr
        else if r_OwnerPrincipal r = LegacyOwnerID then denyf DenyCodeLegacyOwner a pp rr
        else (case p_Kind p of
            KindNode \<Rightarrow> if nodeAllowed a (r_Kind r) then None
              else denyf DenyCodeNodeNotAllowed a pp rr
          | KindService \<Rightarrow> if serviceAllowed (p_DisplayName p) a (r_Kind r) then None
              else denyf DenyCodeServiceNotAllowed a pp rr
          | KindJob \<Rightarrow>
              if r_Kind r \<noteq> ResourceKindJob then denyf DenyCodeJobScopeMismatch a pp rr
              else if r_WorkflowID r = [] \<or> r_WorkflowID r \<noteq> p_DisplayName p
                then denyf DenyCodeJobScopeMismatch a pp rr
              else if a \<noteq> ActionRead \<and> a \<noteq> ActionList then denyf DenyCodeJobScopeMismatch a pp rr
              else None
          | KindUser \<Rightarrow>
              if r_OwnerPrincipal r = [] then denyf DenyCodeNotOwner a pp rr
              else if p_ID p = r_OwnerPrincipal r then None
              else if sharesPermit p a (r_Shares r) then None
              else denyf DenyCodeNotOwner a pp rr
          | KindOperator \<Rightarrow>
              if r_OwnerPrincipal r = [] then denyf DenyCodeNotOwner a pp rr
              else if p_ID p = r_OwnerPrincipal r then None
              else if sharesPermit p a (r_Shares r) then None
              else denyf DenyCodeNotOwner a pp rr
          | _ \<Rightarrow> denyf DenyCodeUnknownKind a pp rr)))"

section \<open>Lemmas\<close>

lemma denyf_not_None [simp]: "denyf c a p r \<noteq> None"
  by (simp add: denyf_def)

lemma nodeAllowed_False [simp]: "\<not> nodeAllowed a k"
  by (simp add: nodeAllowed_def nodeActionsByResource_def table_allows_def)

lemma sharesPermit_iff:
  "sharesPermit p a shs \<longleftrightarrow>
   (\<exists>sh \<in> set shs. matchesGrantee (Some p) (sh_Grantee sh) \<and> a \<in> set (sh_Actions sh))"
  by (induction shs) (auto simp: containsAction_def list_ex_iff)

lemma check_actions_None_iff:
  "check_actions as = None \<longleftrightarrow> (\<forall>a \<in> set as. knownAction a \<and> a \<noteq> ActionAdmin)"
  by (induction as) auto

lemma ValidateShare_actions:
  "ValidateShare s = None \<Longrightarrow> sh_Actions s \<noteq> [] \<and> check_actions (sh_Actions s) = None"
  by (auto simp: ValidateShare_def Let_def split: if_splits)

lemma serviceAllowed_cases:
  "serviceAllowed n a k \<Longrightarrow>
   (k = ResourceKindJob \<and> a \<in> {ActionRead, ActionList, ActionWrite, ActionCancel}) \<or>
   (k = ResourceKindWorkflow \<and> n = ''workflow_runner'' \<and> a \<in> {ActionRead, ActionList, ActionCancel})"
  by (auto simp: serviceAllowed_def serviceActions_def table_allows_def
      split: if_splits option.splits)

text \<open>What a permitted request of a non-admin principal must satisfy, by kind.\<close>

definition grounds :: "principal \<Rightarrow> action \<Rightarrow> resource \<Rightarrow> bool" where
  "grounds p a r \<longleftrightarrow>
     (p_Kind p = KindService \<and> serviceAllowed (p_DisplayName p) a (r_Kind r)) \<or>
     (p_Kind p = KindJob \<and> r_Kind r = ResourceKindJob \<and> r_WorkflowID r \<noteq> [] \<and>
        r_WorkflowID r = p_DisplayName p \<and> a \<in> {ActionRead, ActionList}) \<or>
     (p_Kind p \<in> {KindUser, KindOperator} \<and> r_OwnerPrincipal r \<noteq> [] \<and>
        (p_ID p = r_OwnerPrincipal r \<or>
         (\<exists>sh \<in> set (r_Shares r). matchesGrantee (Some p) (sh_Grantee sh) \<and> a \<in> set (sh_Actions sh))))"

lemma Allow_iff:
  "Allow (Some p) a (Some r) = None \<longleftrightarrow>
   IsAdmin (Some p) \<or>
   (r_Kind r \<noteq> ResourceKindSystem \<and> r_OwnerPrincipal r \<noteq> LegacyOwnerID \<and> grounds p a r)"
  by (cases "p_Kind p") (auto simp: Allow_def grounds_def sharesPermit_iff denyf_def)

lemma Allow_nil [simp]:
  "Allow None a rr \<noteq> None" "Allow (Some p) a None \<noteq> None"
  by (simp_all add: Allow_def)

lemma Allow_SomeE:
  assumes "Allow pp a rr = None"
  obtains p r where "pp = Some p" and "rr = Some r"
  using assms by (cases pp; cases rr) auto

section \<open>Properties\<close>


text \<open>A node certificate, an anonymous caller or a principal of an unknown kind is denied every
  action on every resource, whoever owns the resource and whatever its shares and the principal's
  role say.\<close>

theorem Allow_denies_machine_kinds:
  assumes "p_Kind p = KindNode \<or> p_Kind p = KindAnonymous \<or> p_Kind p = KindOther s"
  shows "\<exists>e. Allow (Some p) a rr = Some e"
proof -
  have "\<not> grounds p a r" for r using assms by (auto simp: grounds_def)
  moreover have "\<not> IsAdmin (Some p)" using assms by (auto simp: IsAdmin_iff)
  ultimately have "Allow (Some p) a rr \<noteq> None"
    by (cases rr) (simp_all only: Allow_iff Allow_nil, simp_all)
  then show ?thesis by (rule not_None_eq [THEN iffD1])
qed

theorem Allow_denies_machine_kinds_witness:
  "\<exists>e. Allow (Some (NodeP ''gpu-01'')) ActionRead
     (Some (JobResource ''j1'' ''node:gpu-01'' [] [])) = Some e"
  by (rule Allow_denies_machine_kinds) (simp add: NodeP_def)

text \<open>Adding one share to a resource widens access to exactly the grantee and the listed actions:
  a request is permitted afterwards if and only if it was permitted before, or it comes from a user
  or operator the grantee names (directly or through a group), asks for a listed action, and the
  resource has a real owner. No other principal, action or resource kind gains anything.\<close>

theorem share_widens_exactly:
  "Allow (Some p) a (Some (r\<lparr>r_Shares := sh # r_Shares r\<rparr>)) = None \<longleftrightarrow>
   Allow (Some p) a (Some r) = None \<or>
   (p_Kind p \<in> {KindUser, KindOperator} \<and> r_Kind r \<noteq> ResourceKindSystem \<and>
    r_OwnerPrincipal r \<noteq> [] \<and> r_OwnerPrincipal r \<noteq> LegacyOwnerID \<and>
    matchesGrantee (Some p) (sh_Grantee sh) \<and> a \<in> set (sh_Actions sh))"
  by (auto simp: Allow_iff grounds_def)

text \<open>A share list whose entries all pass the validator never delegates administration: a caller
  that is neither an admin nor the owner is denied \<open>ActionAdmin\<close>.\<close>

theorem validated_shares_never_admin:
  assumes "\<forall>sh \<in> set (r_Shares r). ValidateShare sh = None"
    and "\<not> IsAdmin (Some p)" and "p_ID p \<noteq> r_OwnerPrincipal r"
  shows "\<exists>e. Allow (Some p) ActionAdmin (Some r) = Some e"
proof -
  have "ActionAdmin \<notin> set (sh_Actions sh)" if "sh \<in> set (r_Shares r)" for sh
    using assms(1) that ValidateShare_actions [of sh] by (auto simp: check_actions_None_iff)
  moreover have "\<not> serviceAllowed n ActionAdmin k" for n k
    using serviceAllowed_cases [of n ActionAdmin k] by auto
  ultimately have "\<not> grounds p ActionAdmin r" using assms(3) by (auto simp: grounds_def)
  with assms(2) have "Allow (Some p) ActionAdmin (Some r) \<noteq> None" by (simp only: Allow_iff) simp
  then show ?thesis by (rule not_None_eq [THEN iffD1])
qed

theorem validated_shares_never_admin_witness:
  "\<exists>e. Allow (Some (User ''bob'' ''user'')) ActionAdmin
     (Some (JobResource ''j1'' ''user:alice'' []
        [[\<lparr>sh_Grantee = ''user:bob'', sh_Actions = [ActionRead], sh_GrantedBy = ''user:alice'',
           sh_GrantedAt = 0\<rparr>]])) = Some e"
  by (rule validated_shares_never_admin)
    (simp_all add: JobResource_def first_shares_def ValidateShare_def knownAction_def User_def
      prefix_str_def IsAdmin_def Let_def)

text \<open>A resource owned by the legacy sentinel is admin-only whatever its share list says: the
  sentinel is tested before the shares, so a share on such a resource has no effect.\<close>

theorem legacy_shares_inert:
  assumes "r_OwnerPrincipal r = LegacyOwnerID"
  shows "Allow (Some p) a (Some (r\<lparr>r_Shares := shs\<rparr>)) = None \<longleftrightarrow> IsAdmin (Some p)"
  using assms by (simp add: Allow_iff)

theorem legacy_shares_inert_witness:
  "Allow (Some (User ''bob'' ''user'')) ActionRead
     (Some (JobResource ''j1'' LegacyOwnerID [] []
        \<lparr>r_Shares := [\<lparr>sh_Grantee = ''user:bob'', sh_Actions = [ActionRead],
            sh_GrantedBy = ''user:root'', sh_GrantedAt = 0\<rparr>]\<rparr>)) = None
   \<longleftrightarrow> IsAdmin (Some (User ''bob'' ''user''))"
  by (rule legacy_shares_inert) (simp add: JobResource_def)

end
