(* ===== verification/Job_Types.thy ===== *)
theory Job_Types
  imports Authz
begin

text \<open>
  The coordinator's persisted records of \<open>internal/proto/coordinatorpb/types.go\<close>: job, workflow,
  node, retry policy, artifact bindings and outputs, service endpoint, with the enumerations and
  their \<open>IsTerminal\<close> and \<open>String\<close> methods. Field names carry a prefix per record. Unsigned
  32-bit fields on which the code computes are 32-bit words; sizes and quotas that are only
  carried are natural numbers; \<open>ExitCode\<close> and \<open>TimeoutSeconds\<close> are integers.
\<close>

section \<open>Job status\<close>

datatype job_status = JobStatusUnknown | JobStatusPending | JobStatusDispatching | JobStatusRunning
  | JobStatusCompleted | JobStatusFailed | JobStatusTimeout | JobStatusLost | JobStatusRetrying
  | JobStatusScheduled | JobStatusCancelled | JobStatusSkipped

fun JobStatus_String :: "job_status \<Rightarrow> string" where
  "JobStatus_String JobStatusPending = ''pending''"
| "JobStatus_String JobStatusDispatching = ''dispatching''"
| "JobStatus_String JobStatusRunning = ''running''"
| "JobStatus_String JobStatusCompleted = ''completed''"
| "JobStatus_String JobStatusFailed = ''failed''"
| "JobStatus_String JobStatusTimeout = ''timeout''"
| "JobStatus_String JobStatusLost = ''lost''"
| "JobStatus_String JobStatusRetrying = ''retrying''"
| "JobStatus_String JobStatusScheduled = ''scheduled''"
| "JobStatus_String JobStatusCancelled = ''cancelled''"
| "JobStatus_String JobStatusSkipped = ''skipped''"
| "JobStatus_String JobStatusUnknown = ''unknown''"

fun IsTerminal :: "job_status \<Rightarrow> bool" where
  "IsTerminal JobStatusCompleted = True"
| "IsTerminal JobStatusFailed = True"
| "IsTerminal JobStatusTimeout = True"
| "IsTerminal JobStatusLost = True"
| "IsTerminal JobStatusCancelled = True"
| "IsTerminal JobStatusSkipped = True"
| "IsTerminal _ = False"

section \<open>Node\<close>

record node =
  n_NodeID :: string
  n_Address :: string
  n_Healthy :: bool
  n_LastSeen :: time
  n_RunningJobs :: "32 word"
  n_RegisteredAt :: time
  n_CpuMillicores :: "32 word"
  n_TotalMemBytes :: "64 word"
  n_MaxSlots :: "32 word"
  n_TotalGpus :: "32 word"
  n_Labels :: strmap

section \<open>Job\<close>

record resource_request =
  rr_CpuMillicores :: "32 word"
  rr_MemoryBytes :: "64 word"
  rr_Slots :: "32 word"
  rr_GPUs :: "32 word"

definition DefaultResourceRequest :: resource_request where
  "DefaultResourceRequest = \<lparr>rr_CpuMillicores = 100, rr_MemoryBytes = push_bit 20 64,
     rr_Slots = 1, rr_GPUs = 0\<rparr>"

record resource_limits =
  rl_MemoryBytes :: nat
  rl_CPUQuotaUS :: nat
  rl_CPUPeriodUS :: nat

record artifact_output =
  o_Name :: string
  o_URI :: string
  o_Size :: int
  o_SHA256 :: string
  o_LocalPath :: string

record artifact_binding =
  b_Name :: string
  b_URI :: string
  b_From :: string
  b_LocalPath :: string
  b_SHA256 :: string

datatype backoff_strategy = BackoffNone | BackoffLinear | BackoffExponential | BackoffOther int

record retry_policy =
  rp_MaxAttempts :: "32 word"
  rp_Backoff :: backoff_strategy
  rp_InitialDelayMs :: "32 word"
  rp_MaxDelayMs :: "32 word"
  rp_Jitter :: bool

record service_spec =
  ss_Port :: "32 word"
  ss_HealthPath :: string
  ss_HealthInitialMS :: "32 word"

record service_endpoint =
  se_JobID :: string
  se_NodeID :: string
  se_NodeAddress :: string
  se_Port :: "32 word"
  se_HealthPath :: string
  se_Ready :: bool
  se_UpdatedAt :: time
  se_OwnerPrincipal :: string

record encrypted_env_value =
  ev_Ciphertext :: string
  ev_Nonce :: string
  ev_WrappedDEK :: string
  ev_WrappedDEKNonce :: string
  ev_KEKVersion :: "32 word"

record job =
  j_ID :: string
  j_NodeID :: string
  j_Command :: string
  j_Args :: "string list"
  j_Env :: strmap
  j_TimeoutSeconds :: int
  j_Limits :: resource_limits
  j_Status :: job_status
  j_CreatedAt :: time
  j_DispatchedAt :: time
  j_FinishedAt :: time
  j_ExitCode :: int
  j_Error :: string
  j_SubmittedBy :: string
  j_OwnerPrincipal :: string
  j_Shares :: "share list"
  j_Runtime :: string
  j_WorkflowID :: string
  j_Priority :: "32 word"
  j_Resources :: resource_request
  j_RetryPolicy :: "retry_policy option"
  j_Attempt :: "32 word"
  j_RetryAfter :: time
  j_WorkingDir :: string
  j_Inputs :: "artifact_binding list"
  j_Outputs :: "artifact_binding list"
  j_NodeSelector :: strmap
  j_ResolvedOutputs :: "artifact_output list"
  j_Service :: "service_spec option"
  j_SecretKeys :: "string list"
  j_EncryptedEnv :: "(string \<times> encrypted_env_value) list"

text \<open>The zero value \<open>cpb.Job{}\<close> that struct literals start from.\<close>

definition zero_resources :: resource_request where
  "zero_resources = \<lparr>rr_CpuMillicores = 0, rr_MemoryBytes = 0, rr_Slots = 0, rr_GPUs = 0\<rparr>"

definition zero_job :: job where
  "zero_job = \<lparr>j_ID = [], j_NodeID = [], j_Command = [], j_Args = [], j_Env = [],
     j_TimeoutSeconds = 0, j_Limits = \<lparr>rl_MemoryBytes = 0, rl_CPUQuotaUS = 0, rl_CPUPeriodUS = 0\<rparr>,
     j_Status = JobStatusUnknown, j_CreatedAt = time_zero, j_DispatchedAt = time_zero,
     j_FinishedAt = time_zero, j_ExitCode = 0, j_Error = [], j_SubmittedBy = [],
     j_OwnerPrincipal = [], j_Shares = [], j_Runtime = [], j_WorkflowID = [], j_Priority = 0,
     j_Resources = zero_resources, j_RetryPolicy = None, j_Attempt = 0, j_RetryAfter = time_zero,
     j_WorkingDir = [], j_Inputs = [], j_Outputs = [], j_NodeSelector = [], j_ResolvedOutputs = [],
     j_Service = None, j_SecretKeys = [], j_EncryptedEnv = []\<rparr>"

section \<open>Workflow\<close>

datatype workflow_status = WorkflowStatusPending | WorkflowStatusRunning | WorkflowStatusCompleted
  | WorkflowStatusFailed | WorkflowStatusCancelled

fun WorkflowIsTerminal :: "workflow_status \<Rightarrow> bool" where
  "WorkflowIsTerminal WorkflowStatusCompleted = True"
| "WorkflowIsTerminal WorkflowStatusFailed = True"
| "WorkflowIsTerminal WorkflowStatusCancelled = True"
| "WorkflowIsTerminal _ = False"

text \<open>\<open>DependencyCondition\<close> is an integer type; a value that is none of the constants reaches the
  default branch of the code's switches.\<close>

datatype dependency_condition = DependencyOnSuccess | DependencyOnFailure | DependencyOnComplete
  | DependencyOther int

record workflow_job =
  wj_Name :: string
  wj_Command :: string
  wj_Args :: "string list"
  wj_Env :: strmap
  wj_TimeoutSeconds :: int
  wj_Runtime :: string
  wj_DependsOn :: "string list"
  wj_Condition :: dependency_condition
  wj_Priority :: "32 word"
  wj_JobID :: string
  wj_WorkingDir :: string
  wj_Inputs :: "artifact_binding list"
  wj_Outputs :: "artifact_binding list"
  wj_NodeSelector :: strmap
  wj_SecretKeys :: "string list"
  wj_EncryptedEnv :: "(string \<times> encrypted_env_value) list"

record workflow =
  w_ID :: string
  w_Name :: string
  w_Priority :: "32 word"
  w_Jobs :: "workflow_job list"
  w_Status :: workflow_status
  w_CreatedAt :: time
  w_StartedAt :: time
  w_FinishedAt :: time
  w_Error :: string
  w_OwnerPrincipal :: string
  w_Shares :: "share list"
  w_Tags :: strmap

definition zero_workflow_job :: workflow_job where
  "zero_workflow_job = \<lparr>wj_Name = [], wj_Command = [], wj_Args = [], wj_Env = [],
     wj_TimeoutSeconds = 0, wj_Runtime = [], wj_DependsOn = [], wj_Condition = DependencyOnSuccess,
     wj_Priority = 0, wj_JobID = [], wj_WorkingDir = [], wj_Inputs = [], wj_Outputs = [],
     wj_NodeSelector = [], wj_SecretKeys = [], wj_EncryptedEnv = []\<rparr>"

definition zero_workflow :: workflow where
  "zero_workflow = \<lparr>w_ID = [], w_Name = [], w_Priority = 0, w_Jobs = [],
     w_Status = WorkflowStatusPending, w_CreatedAt = time_zero, w_StartedAt = time_zero,
     w_FinishedAt = time_zero, w_Error = [], w_OwnerPrincipal = [], w_Shares = [], w_Tags = []\<rparr>"

lemma IsTerminal_iff:
  "IsTerminal s \<longleftrightarrow> s \<in> {JobStatusCompleted, JobStatusFailed, JobStatusTimeout, JobStatusLost,
     JobStatusCancelled, JobStatusSkipped}"
  by (cases s) auto

lemma zero_job_simps [simp]:
  "j_ID zero_job = []" "j_Status zero_job = JobStatusUnknown" "j_Inputs zero_job = []"
  "j_WorkflowID zero_job = []" "j_RetryPolicy zero_job = None" "j_Attempt zero_job = 0"
  by (simp_all add: zero_job_def)

end
