(* ===== verification/Retry_Policy.thy ===== *)
theory Retry_Policy
  imports Job_Types
begin

text \<open>
  The retry policy of \<open>internal/cluster/retry.go\<close>: whether a job is retried, and after which delay.
  Durations are 64-bit words, so the wrap-around of the multiplication and of the shift is part of
  the model. The lemmas bound the delay for every policy and attempt, give its exact value where
  nothing overflows, and show where the exponential backoff overflows.
\<close>

section \<open>Definitions\<close>

definition ShouldRetry :: "job \<Rightarrow> bool" where
  "ShouldRetry j = (case j_RetryPolicy j of None \<Rightarrow> False | Some p \<Rightarrow> j_Attempt j < rp_MaxAttempts p)"

text \<open>
  Durations are 64-bit and wrap; a shift by 64 or more gives 0. \<open>rnd n\<close> is the value
  \<open>rand.Int63n(n)\<close> returns, which panics for a non-positive argument: the result \<open>None\<close>.
\<close>

definition retry_base :: "retry_policy \<Rightarrow> 64 word" where
  "retry_base p = ucast (if rp_InitialDelayMs p = 0 then 1000 else rp_InitialDelayMs p) * 1000000"

definition retry_cap :: "retry_policy \<Rightarrow> 64 word" where
  "retry_cap p = ucast (if rp_MaxDelayMs p = 0 then 60000 else rp_MaxDelayMs p) * 1000000"

definition capped_delay :: "retry_policy \<Rightarrow> 32 word \<Rightarrow> 64 word" where
  "capped_delay p attempt =
     (let delay = (case rp_Backoff p of
                BackoffLinear \<Rightarrow> retry_base p * ucast attempt
              | BackoffExponential \<Rightarrow> retry_base p * push_bit (unat (attempt - 1)) 1
              | _ \<Rightarrow> retry_base p)
      in if sint (retry_cap p) < sint delay then retry_cap p else delay)"

definition NextRetryDelay :: "(int \<Rightarrow> int) \<Rightarrow> retry_policy option \<Rightarrow> 32 word \<Rightarrow> 64 word option" where
  "NextRetryDelay rnd po attempt =
     (case po of None \<Rightarrow> Some 0
      | Some p \<Rightarrow>
        let delay = capped_delay p attempt in
        if rp_Jitter p \<and> 0 < sint delay then
          (let n = sint delay div 4 in
           if n \<le> 0 then None else Some (delay + word_of_int (rnd n)))
        else Some delay)"

definition DefaultRetryPolicy :: retry_policy where
  "DefaultRetryPolicy = \<lparr>rp_MaxAttempts = 1, rp_Backoff = BackoffExponential,
     rp_InitialDelayMs = 1000, rp_MaxDelayMs = 60000, rp_Jitter = True\<rparr>"

text \<open>The backoff the policy describes, over the integers.\<close>

definition ideal_delay :: "retry_policy \<Rightarrow> 32 word \<Rightarrow> int" where
  "ideal_delay p attempt =
     (let base = (if rp_InitialDelayMs p = 0 then 1000 else uint (rp_InitialDelayMs p)) * 1000000 in
      case rp_Backoff p of
        BackoffLinear \<Rightarrow> base * uint attempt
      | BackoffExponential \<Rightarrow> base * 2 ^ (unat attempt - 1)
      | _ \<Rightarrow> base)"

definition slow_policy :: retry_policy where
  "slow_policy = \<lparr>rp_MaxAttempts = 100, rp_Backoff = BackoffExponential,
     rp_InitialDelayMs = 1000, rp_MaxDelayMs = 60000, rp_Jitter = False\<rparr>"

section \<open>Properties\<close>

lemma sint_word_of_int_64:
  "- (2 ^ 63) \<le> x \<Longrightarrow> x < 2 ^ 63 \<Longrightarrow> sint (word_of_int x :: 64 word) = x"
  by (simp add: int_word_sint)

lemma sint_mult_64: "64 dvd sint (64 * z :: 64 word)"
proof -
  have "sint (64 * z) = sint (word_of_int (64 * uint z) :: 64 word)" by simp
  also have "\<dots> = (64 * uint z + 2 ^ 63) mod 2 ^ 64 - 2 ^ 63"
    by (simp only: int_word_sint) simp
  also have "64 dvd \<dots>"
    by (intro dvd_diff dvd_mod dvd_add) simp_all
  finally show ?thesis .
qed

lemma uint_retry_base:
  "uint (retry_base p) = (if rp_InitialDelayMs p = 0 then 1000 else uint (rp_InitialDelayMs p)) * 1000000"
  "sint (retry_cap p) = (if rp_MaxDelayMs p = 0 then 60000 else uint (rp_MaxDelayMs p)) * 1000000"
proof -
  have lift: "ucast w * 1000000 = (word_of_int (uint w * 1000000) :: 64 word)" for w :: "32 word"
    by (simp flip: word_of_int_uint)
  have bound: "0 \<le> uint w \<and> uint w < 2 ^ 32" for w :: "32 word"
    using uint_lt2p [of w] by simp
  have "uint (ucast w * 1000000 :: 64 word) = uint w * 1000000" for w :: "32 word"
    using bound [of w] by (simp only: lift uint_word_of_int) auto
  moreover have "sint (ucast w * 1000000 :: 64 word) = uint w * 1000000" for w :: "32 word"
  proof -
    have "- (2 ^ 63) \<le> uint w * 1000000" by (rule order_trans [of _ 0]) simp_all
    moreover have "uint w * 1000000 < 2 ^ 63" using bound [of w] by simp
    ultimately show ?thesis unfolding lift by (rule sint_word_of_int_64)
  qed
  ultimately show "uint (retry_base p) = (if rp_InitialDelayMs p = 0 then 1000 else uint (rp_InitialDelayMs p)) * 1000000"
    and "sint (retry_cap p) = (if rp_MaxDelayMs p = 0 then 60000 else uint (rp_MaxDelayMs p)) * 1000000"
    by (simp_all add: retry_base_def retry_cap_def)
qed

lemma retry_base_64: "\<exists>z. retry_base p = 64 * z" "\<exists>z. retry_cap p = 64 * z"
proof -
  have "ucast w * 1000000 = 64 * (ucast w * 15625 :: 64 word)" for w :: "32 word" by simp
  then show "\<exists>z. retry_base p = 64 * z" "\<exists>z. retry_cap p = 64 * z"
    unfolding retry_base_def retry_cap_def by blast+
qed

lemma capped_delay_64: "64 dvd sint (capped_delay p a)"
proof -
  obtain b c where bc: "retry_base p = 64 * b" "retry_cap p = 64 * c" using retry_base_64 by blast
  have "\<exists>z. capped_delay p a = 64 * z"
    unfolding capped_delay_def Let_def bc
    by (cases "rp_Backoff p") (auto simp: mult.assoc)
  then show ?thesis using sint_mult_64 by auto
qed

lemma capped_delay_le: "sint (capped_delay p a) \<le> sint (retry_cap p)"
  by (simp add: capped_delay_def Let_def)

lemma NextRetryDelay_jitter:
  assumes "0 < sint (capped_delay p a)"
  shows "0 < sint (capped_delay p a) div 4"
  using assms capped_delay_64 [of p a] by presburger

lemma NextRetryDelay_total: "\<exists>d. NextRetryDelay rnd po a = Some d"
proof (cases po)
  case (Some p)
  then show ?thesis using NextRetryDelay_jitter [of p a] by (auto simp: NextRetryDelay_def Let_def)
qed (simp add: NextRetryDelay_def)


text \<open>C24. The retry delay is always computed (the jitter's random draw is never asked for an empty range,
  so it cannot panic), and whatever the policy, the attempt number and the draw, it is at most the
  cap and a quarter.\<close>

theorem retry_delay_bound:
  assumes "\<forall>n > 0. 0 \<le> rnd n \<and> rnd n < n"
  shows "\<exists>d. NextRetryDelay rnd (Some p) a = Some d \<and>
    4 * sint d \<le> 5 * ((if rp_MaxDelayMs p = 0 then 60000 else uint (rp_MaxDelayMs p)) * 1000000)"
proof -
  let ?c = "capped_delay p a" and ?m = "if rp_MaxDelayMs p = 0 then 60000 else uint (rp_MaxDelayMs p)"
  have le: "sint ?c \<le> ?m * 1000000" using capped_delay_le [of p a] by (simp add: uint_retry_base)
  have m: "0 \<le> ?m" "?m < 2 ^ 32" using uint_lt2p [of "rp_MaxDelayMs p"] by auto
  show ?thesis
  proof (cases "rp_Jitter p \<and> 0 < sint ?c")
    case True
    let ?r = "rnd (sint ?c div 4)"
    have pos: "0 < sint ?c div 4" using True NextRetryDelay_jitter by blast
    with assms have r: "0 \<le> ?r" "?r < sint ?c div 4" by blast+
    have "sint (?c + word_of_int ?r) = sint (word_of_int (sint ?c + ?r) :: 64 word)" by simp
    also have "\<dots> = sint ?c + ?r"
      by (rule sint_word_of_int_64) (use le m r True in auto)
    finally have "4 * sint (?c + word_of_int ?r) \<le> 5 * (?m * 1000000)" using r le by linarith
    then show ?thesis using True pos by (simp add: NextRetryDelay_def Let_def)
  next
    case False
    then have "NextRetryDelay rnd (Some p) a = Some ?c" by (auto simp: NextRetryDelay_def Let_def)
    moreover have "4 * sint ?c \<le> 5 * (?m * 1000000)" using le m by linarith
    ultimately show ?thesis by blast
  qed
qed

theorem retry_delay_bound_witness:
  "\<exists>d. NextRetryDelay (\<lambda>n. n - 1) (Some DefaultRetryPolicy) 3 = Some d \<and> 4 * sint d \<le> 300000000000"
  using retry_delay_bound [of "\<lambda>n. n - 1" DefaultRetryPolicy 3] by (simp add: DefaultRetryPolicy_def)

lemma retry_base_of_int:
  "retry_base p = word_of_int ((if rp_InitialDelayMs p = 0 then 1000 else uint (rp_InitialDelayMs p)) * 1000000)"
  by (metis uint_retry_base(1) word_of_int_uint)

lemma raw_delay_of_int:
  assumes "1 \<le> a"
  shows "(case rp_Backoff p of
                BackoffLinear \<Rightarrow> retry_base p * ucast a
              | BackoffExponential \<Rightarrow> retry_base p * push_bit (unat (a - 1)) 1
              | _ \<Rightarrow> retry_base p) = word_of_int (ideal_delay p a)"
proof -
  have "unat (a - 1) = unat a - 1" using assms by (simp add: unat_sub)
  moreover have "(ucast a :: 64 word) = word_of_int (uint a)" by simp
  ultimately show ?thesis
    by (simp add: ideal_delay_def Let_def retry_base_of_int push_bit_eq_mult split: backoff_strategy.splits)
qed

text \<open>Without jitter and as long as the mathematical backoff fits a duration, the computed delay
  is that backoff cut at the cap: the initial delay, times the attempt (linear), times two to the
  power of the attempt less one (exponential).\<close>

theorem retry_delay_exact:
  assumes "\<not> rp_Jitter p" and "1 \<le> a" and "ideal_delay p a < 2 ^ 63"
  shows "\<exists>d. NextRetryDelay rnd (Some p) a = Some d \<and>
    sint d = min (ideal_delay p a) ((if rp_MaxDelayMs p = 0 then 60000 else uint (rp_MaxDelayMs p)) * 1000000)"
proof -
  have ge: "0 \<le> ideal_delay p a"
    by (auto simp: ideal_delay_def Let_def split: backoff_strategy.splits)
  then have "sint (word_of_int (ideal_delay p a) :: 64 word) = ideal_delay p a"
    using assms(3) by (intro sint_word_of_int_64) auto
  then have "sint (capped_delay p a) = min (ideal_delay p a) (sint (retry_cap p))"
    by (simp add: capped_delay_def raw_delay_of_int [OF assms(2)] Let_def min_def)
  then show ?thesis using assms(1) by (simp add: NextRetryDelay_def Let_def uint_retry_base)
qed

theorem retry_delay_exact_witness:
  "\<exists>d. NextRetryDelay id (Some slow_policy) 4 = Some d \<and> sint d = 8000000000"
  using retry_delay_exact [of slow_policy 4 id] by (simp add: slow_policy_def ideal_delay_def)

lemma shift_vanishes: "58 \<le> n \<Longrightarrow> 64 * z * push_bit n (1 :: 64 word) = 0"
proof -
  assume "58 \<le> n"
  then obtain k where "n = 58 + k" by (metis le_add_diff_inverse)
  then have "64 * z * push_bit n (1 :: 64 word) = (2 ^ 6 * 2 ^ 58) * (2 ^ k * z)"
    by (simp add: push_bit_eq_mult power_add ac_simps)
  also have "(2 ^ 6 * 2 ^ 58 :: 64 word) = 0" by simp
  finally show ?thesis by simp
qed

text \<open>Exponential backoff collapses on late attempts: from the 59th attempt on, the shifted factor
  times the base is a multiple of two to the 64, the product wraps to zero, and the job is retried
  at once instead of after the cap.\<close>

theorem exponential_backoff_vanishes:
  assumes "rp_Backoff p = BackoffExponential" and "59 \<le> a"
  shows "NextRetryDelay rnd (Some p) a = Some 0"
proof -
  obtain b where b: "retry_base p = 64 * b" using retry_base_64 by blast
  have "unat (a - 1) = unat a - 1" using assms(2) by (subst unat_sub) (auto simp: word_le_nat_alt)
  then have n: "58 \<le> unat (a - 1)" using assms(2) by (simp add: word_le_nat_alt)
  have "0 \<le> sint (retry_cap p)" by (simp add: uint_retry_base)
  then have "capped_delay p a = 0"
    using assms(1) shift_vanishes [OF n, of b] by (simp add: capped_delay_def b Let_def)
  then show ?thesis by (simp add: NextRetryDelay_def)
qed

theorem exponential_backoff_vanishes_witness:
  "NextRetryDelay id (Some slow_policy) 60 = Some 0"
  using exponential_backoff_vanishes [of slow_policy 60 id] by (simp add: slow_policy_def)

end
