(* ===== verification/Job_Persistence.thy ===== *)
theory Job_Persistence
  imports Job_Types
begin

text \<open>
  The persistence boundary of the job store: the interface \<open>JobPersister\<close> of \<open>job.go\<close> as a locale,
  its two implementations \<open>MemJobPersister\<close> (\<open>mem_job_persister.go\<close>) and the job methods of
  \<open>BadgerJSONPersister\<close> (\<open>persistence_jobs.go\<close>), and the envelope encryption of secret
  environment values between memory and disk (\<open>persistence_encrypt.go\<close>).

  Outside the repository: the key ring's AES-GCM primitives are the functions \<open>kr_Encrypt\<close> and
  \<open>kr_Decrypt\<close> of the record \<open>keyring\<close>; BadgerDB is the map of committed records together with a
  script \<open>bd_faults\<close> saying which of the coming read-write transactions fail, each transaction
  committing fully or not at all. JSON marshalling of these records does not fail and is left out.

  The lemmas show that the on-disk form of a job holds no secret in plaintext, that loading
  inverts saving, and that both persisters satisfy the interface.
\<close>

section \<open>Secrets at rest\<close>

record keyring =
  kr_Encrypt :: "string \<Rightarrow> encrypted_env_value option"
  kr_Decrypt :: "encrypted_env_value \<Rightarrow> string option"

datatype persist_error = EncryptFailed string | DecryptFailed string | BothForms string | NoKeyring
  | TransactionFailed

fun encrypt_all :: "strmap \<Rightarrow> keyring \<Rightarrow> string list \<Rightarrow> (string \<times> encrypted_env_value) list
    \<Rightarrow> persist_error + (string \<times> encrypted_env_value) list" where
  "encrypt_all env ring [] acc = Inr acc"
| "encrypt_all env ring (k # ks) acc =
     (case map_of env k of
        None \<Rightarrow> encrypt_all env ring ks acc
      | Some v \<Rightarrow> (case kr_Encrypt ring v of
            None \<Rightarrow> Inl (EncryptFailed k)
          | Some blob \<Rightarrow> encrypt_all env ring ks (AList.update k blob acc)))"

definition strip_keys :: "string list \<Rightarrow> strmap \<Rightarrow> strmap" where
  "strip_keys ks env = filter (\<lambda>(k, v). k \<notin> set ks) env"

text \<open>Returns the envelopes (\<open>None\<close> for Go's nil map) and the reduced environment.\<close>

definition encryptSecretsInPlace :: "strmap \<Rightarrow> string list \<Rightarrow> keyring option
    \<Rightarrow> persist_error + ((string \<times> encrypted_env_value) list option \<times> strmap)" where
  "encryptSecretsInPlace env secretKeys ringo =
     (case ringo of None \<Rightarrow> Inr (None, env)
      | Some ring \<Rightarrow>
        if secretKeys = [] \<or> env = [] then Inr (None, env)
        else (case encrypt_all env ring secretKeys [] of
            Inl e \<Rightarrow> Inl e
          | Inr enc \<Rightarrow>
              let env' = strip_keys (map fst enc) env in
              if enc = [] then Inr (None, env') else Inr (Some enc, env')))"

fun decrypt_all :: "strmap \<Rightarrow> keyring \<Rightarrow> (string \<times> encrypted_env_value) list
    \<Rightarrow> persist_error + strmap" where
  "decrypt_all env ring [] = Inr []"
| "decrypt_all env ring ((k, blob) # es) =
     (if map_of env k \<noteq> None then Inl (BothForms k)
      else case kr_Decrypt ring blob of
          None \<Rightarrow> Inl (DecryptFailed k)
        | Some pt \<Rightarrow> (case decrypt_all env ring es of
              Inl e \<Rightarrow> Inl e
            | Inr pts \<Rightarrow> Inr ((k, pt) # pts)))"

definition decryptSecretsInto :: "strmap \<Rightarrow> (string \<times> encrypted_env_value) list \<Rightarrow> keyring option
    \<Rightarrow> persist_error + strmap" where
  "decryptSecretsInto env enc ringo =
     (if enc = [] then Inr env
      else case ringo of None \<Rightarrow> Inl NoKeyring
        | Some ring \<Rightarrow> (case decrypt_all env ring enc of
              Inl e \<Rightarrow> Inl e
            | Inr pts \<Rightarrow> Inr (env @ pts)))"

definition jobOnDiskCopy :: "job \<Rightarrow> keyring option \<Rightarrow> persist_error + job" where
  "jobOnDiskCopy j ringo =
     (if ringo = None \<or> j_SecretKeys j = [] \<or> j_Env j = [] then Inr j
      else case encryptSecretsInPlace (j_Env j) (j_SecretKeys j) ringo of
          Inl e \<Rightarrow> Inl e
        | Inr (None, env') \<Rightarrow> Inr j
        | Inr (Some enc, env') \<Rightarrow> Inr (j\<lparr>j_Env := env', j_EncryptedEnv := enc\<rparr>))"

definition jobInMemoryForm :: "job \<Rightarrow> keyring option \<Rightarrow> persist_error + job" where
  "jobInMemoryForm j ringo =
     (if j_EncryptedEnv j = [] then Inr j
      else case decryptSecretsInto (j_Env j) (j_EncryptedEnv j) ringo of
          Inl e \<Rightarrow> Inl e
        | Inr env' \<Rightarrow> Inr (j\<lparr>j_Env := env', j_EncryptedEnv := []\<rparr>))"

section \<open>The persister interface\<close>

text \<open>Everything of a record but the environment, which the persister may seal.\<close>

definition core :: "job \<Rightarrow> job" where
  "core j = j\<lparr>j_Env := [], j_EncryptedEnv := []\<rparr>"

type_synonym 'p saver = "'p \<Rightarrow> job \<Rightarrow> persist_error option \<times> 'p"

locale job_persister =
  fixes save :: "'p saver"
    and disk :: "'p \<Rightarrow> (string \<rightharpoonup> job)"
  assumes save_ok: "save p j = (None, p') \<Longrightarrow> disk p' = (disk p)(j_ID j \<mapsto> core j)"
    and save_err: "save p j = (Some e, p') \<Longrightarrow> disk p' = disk p"
begin

lemma save_cases:
  assumes "save p j = (r, p')"
  obtains (ok) "r = None" "disk p' = (disk p)(j_ID j \<mapsto> core j)"
    | (err) e where "r = Some e" "disk p' = disk p"
  using assms save_ok save_err by (cases r) blast+

end

text \<open>
  Loading returns one record per key: the one on disk, up to the environment and to the owner,
  which is backfilled where a record written before ownership has none.
\<close>

definition durable :: "job \<Rightarrow> job" where
  "durable j = (core j)\<lparr>j_OwnerPrincipal := []\<rparr>"

definition loaded_from :: "job \<Rightarrow> job \<Rightarrow> bool" where
  "loaded_from j d \<longleftrightarrow> durable j = durable d \<and>
     (j_OwnerPrincipal d \<noteq> [] \<longrightarrow> j_OwnerPrincipal j = j_OwnerPrincipal d)"

locale job_loader = job_persister save disk
  for save :: "'p saver" and disk :: "'p \<Rightarrow> (string \<rightharpoonup> job)" +
  fixes load :: "string list \<Rightarrow> 'p \<Rightarrow> persist_error + job list"
  assumes load_ok: "enumerates ord (disk p) \<Longrightarrow> load ord p = Inr js \<Longrightarrow>
    list_all2 loaded_from js (range_values ord (disk p))"

section \<open>In-memory persister\<close>

record mem_persister =
  mp_Jobs :: "string \<rightharpoonup> job"

definition mem_SaveJob :: "mem_persister saver" where
  "mem_SaveJob m j = (None, m\<lparr>mp_Jobs := (mp_Jobs m)(j_ID j \<mapsto> j)\<rparr>)"

definition mem_LoadAllJobs :: "string list \<Rightarrow> mem_persister \<Rightarrow> persist_error + job list" where
  "mem_LoadAllJobs ord m = Inr (range_values ord (mp_Jobs m))"

definition mem_disk :: "mem_persister \<Rightarrow> (string \<rightharpoonup> job)" where
  "mem_disk m = map_option core \<circ> mp_Jobs m"

lemma core_simps [simp]:
  "j_ID (core j) = j_ID j" "j_Status (core j) = j_Status j" "j_Attempt (core j) = j_Attempt j"
  "j_Shares (core j) = j_Shares j" "j_Inputs (core j) = j_Inputs j"
  "j_OwnerPrincipal (core j) = j_OwnerPrincipal j" "j_NodeID (core j) = j_NodeID j"
  "j_RetryPolicy (core j) = j_RetryPolicy j"
  by (simp_all add: core_def)

lemma range_values_disk:
  "enumerates ord m \<Longrightarrow> range_values ord (map_option core \<circ> m) = map core (range_values ord m)"
  by (auto simp: range_values_def enumerates_def)

lemma dom_disk: "dom (map_option f \<circ> m) = dom m"
  by auto

lemma core_core [simp]: "core (core j) = core j"
  by (simp add: core_def)

lemma loaded_from_core: "core j = core d \<Longrightarrow> loaded_from j (core d)"
  by (metis core_core core_simps(6) durable_def loaded_from_def)

interpretation mem: job_loader mem_SaveJob mem_disk mem_LoadAllJobs
proof
  fix ord m js
  assume "enumerates ord (mem_disk m)" and "mem_LoadAllJobs ord m = Inr js"
  then show "list_all2 loaded_from js (range_values ord (mem_disk m))"
    by (auto simp: mem_disk_def mem_LoadAllJobs_def range_values_disk enumerates_def dom_disk
        list_all2_map2 intro!: list_all2_refl loaded_from_core)
qed (auto simp: mem_SaveJob_def mem_disk_def fun_eq_iff)

section \<open>BadgerDB persister\<close>

record badger =
  bd_jobs :: "string \<rightharpoonup> job"
  bd_keyring :: "keyring option"
  bd_faults :: "bool list"

definition bd_SaveJob :: "badger saver" where
  "bd_SaveJob b j =
     (case jobOnDiskCopy j (bd_keyring b) of
        Inl e \<Rightarrow> (Some e, b)
      | Inr onDisk \<Rightarrow>
         (let b' = b\<lparr>bd_faults := tl (bd_faults b)\<rparr> in
          if bd_faults b \<noteq> [] \<and> hd (bd_faults b) then (Some TransactionFailed, b')
          else (None, b'\<lparr>bd_jobs := (bd_jobs b)(j_ID j \<mapsto> onDisk)\<rparr>)))"

definition backfill_owner :: "job \<Rightarrow> job" where
  "backfill_owner j = (if j_OwnerPrincipal j = []
     then j\<lparr>j_OwnerPrincipal := OwnerFromLegacy (j_SubmittedBy j)\<rparr> else j)"

fun load_jobs :: "keyring option \<Rightarrow> job list \<Rightarrow> persist_error + job list" where
  "load_jobs ring [] = Inr []"
| "load_jobs ring (j # js) =
     (case jobInMemoryForm (backfill_owner j) ring of
        Inl e \<Rightarrow> Inl e
      | Inr j' \<Rightarrow> (case load_jobs ring js of Inl e \<Rightarrow> Inl e | Inr js' \<Rightarrow> Inr (j' # js')))"

definition bd_LoadAllJobs :: "string list \<Rightarrow> badger \<Rightarrow> persist_error + job list" where
  "bd_LoadAllJobs ord b = load_jobs (bd_keyring b) (range_values ord (bd_jobs b))"

definition bd_disk :: "badger \<Rightarrow> (string \<rightharpoonup> job)" where
  "bd_disk b = map_option core \<circ> bd_jobs b"

lemma core_jobOnDiskCopy: "jobOnDiskCopy j ring = Inr d \<Longrightarrow> core d = core j"
  by (auto simp: jobOnDiskCopy_def core_def split: if_splits sum.splits prod.splits option.splits)

lemma core_jobInMemoryForm: "jobInMemoryForm j ring = Inr m \<Longrightarrow> core m = core j"
  by (auto simp: jobInMemoryForm_def core_def split: if_splits sum.splits)

lemma loaded_from_backfill:
  "jobInMemoryForm (backfill_owner d) ring = Inr j \<Longrightarrow> loaded_from j (core d)"
proof -
  assume "jobInMemoryForm (backfill_owner d) ring = Inr j"
  then have "core j = core (backfill_owner d)" by (rule core_jobInMemoryForm)
  moreover from this have "j_OwnerPrincipal j = j_OwnerPrincipal (backfill_owner d)"
    by (metis core_simps(6))
  ultimately show "loaded_from j (core d)"
    by (simp add: loaded_from_def durable_def backfill_owner_def core_def)
qed

lemma load_jobs_loaded:
  "load_jobs ring ds = Inr js \<Longrightarrow> list_all2 (\<lambda>j d. loaded_from j (core d)) js ds"
  by (induction ds arbitrary: js) (auto split: sum.splits intro: loaded_from_backfill)

interpretation bd: job_loader bd_SaveJob bd_disk bd_LoadAllJobs
proof
  fix ord b js
  assume "enumerates ord (bd_disk b)" and "bd_LoadAllJobs ord b = Inr js"
  then show "list_all2 loaded_from js (range_values ord (bd_disk b))"
    by (auto simp: bd_disk_def bd_LoadAllJobs_def range_values_disk enumerates_def dom_disk
        list_all2_map2 dest!: load_jobs_loaded)
qed (auto simp: bd_SaveJob_def bd_disk_def fun_eq_iff Let_def dest: core_jobOnDiskCopy
      split: sum.splits if_splits)

section \<open>Lemmas on the envelope\<close>

lemma encrypt_all_spec:
  "encrypt_all env ring ks acc = Inr enc \<Longrightarrow> distinct (map fst acc) \<Longrightarrow>
   (\<forall>(k, b) \<in> set acc. \<exists>v. map_of env k = Some v \<and> kr_Encrypt ring v = Some b) \<Longrightarrow>
   distinct (map fst enc) \<and> set (map fst enc) = set (map fst acc) \<union> {k \<in> set ks. map_of env k \<noteq> None} \<and>
   (\<forall>(k, b) \<in> set enc. \<exists>v. map_of env k = Some v \<and> kr_Encrypt ring v = Some b)"
proof (induction ks arbitrary: acc)
  case Nil
  then show ?case by simp
next
  case (Cons k ks)
  show ?case
  proof (cases "map_of env k")
    case None
    with Cons show ?thesis by auto
  next
    case (Some v)
    with Cons.prems(1) obtain blob where b: "kr_Encrypt ring v = Some blob"
      and rec: "encrypt_all env ring ks (AList.update k blob acc) = Inr enc"
      by (auto split: option.splits)
    have inv: "\<forall>(k, b) \<in> set (AList.update k blob acc).
        \<exists>v. map_of env k = Some v \<and> kr_Encrypt ring v = Some b"
    proof (clarify)
      fix k' b'
      assume mem: "(k', b') \<in> set (AList.update k blob acc)"
      have "distinct (map fst (AList.update k blob acc))"
        using Cons.prems(2) by (rule distinct_update)
      with mem have "map_of (AList.update k blob acc) k' = Some b'" by simp
      then have "(k' = k \<and> b' = blob) \<or> (k', b') \<in> set acc"
        by (auto simp: update_conv' split: if_splits dest: map_of_SomeD)
      then show "\<exists>v. map_of env k' = Some v \<and> kr_Encrypt ring v = Some b'"
        using Cons.prems(3) Some b by auto
    qed
    from Cons.IH [OF rec distinct_update [OF Cons.prems(2)] inv] Some show ?thesis
      by (auto simp: dom_update image_iff)
  qed
qed

lemma decrypt_all_inverts:
  assumes "\<And>v b. kr_Encrypt ring v = Some b \<Longrightarrow> kr_Decrypt ring' b = Some v"
    and "\<forall>(k, b) \<in> set enc. map_of env' k = None \<and> (\<exists>v. map_of env k = Some v \<and> kr_Encrypt ring v = Some b)"
  shows "decrypt_all env' ring' enc = Inr (map (\<lambda>(k, b). (k, the (map_of env k))) enc)"
  using assms(2)
proof (induction enc)
  case Nil
  then show ?case by simp
next
  case (Cons e enc)
  obtain k b where e: "e = (k, b)" by fastforce
  from Cons.prems e obtain v where "map_of env' k = None" "map_of env k = Some v"
    "kr_Decrypt ring' b = Some v" using assms(1) by auto
  with Cons e show ?case by simp
qed

lemma map_of_strip_keys: "map_of (strip_keys ks env) k = (if k \<in> set ks then None else map_of env k)"
  by (induction env) (auto simp: strip_keys_def)

lemma map_of_restore:
  "map_of (map (\<lambda>(k, b). (k, f k)) enc) k = (if k \<in> set (map fst enc) then Some (f k) else None)"
  by (induction enc) auto

text \<open>The two outcomes of preparing a record for disk.\<close>

lemma jobOnDiskCopy_cases:
  assumes "jobOnDiskCopy j ringo = Inr d"
  obtains (plain) "d = j" "ringo = None \<or> (\<forall>k \<in> set (j_SecretKeys j). map_of (j_Env j) k = None)"
    | (sealed) ring enc where "ringo = Some ring"
      "d = j\<lparr>j_Env := strip_keys (map fst enc) (j_Env j), j_EncryptedEnv := enc\<rparr>" "enc \<noteq> []"
      "set (map fst enc) = {k \<in> set (j_SecretKeys j). map_of (j_Env j) k \<noteq> None}"
      "\<forall>(k, b) \<in> set enc. \<exists>v. map_of (j_Env j) k = Some v \<and> kr_Encrypt ring v = Some b"
proof (cases "ringo = None \<or> j_SecretKeys j = [] \<or> j_Env j = []")
  case True
  with assms show ?thesis by (intro plain) (auto simp: jobOnDiskCopy_def)
next
  case False
  then obtain ring where ring: "ringo = Some ring" by auto
  with False assms obtain enc where enc: "encrypt_all (j_Env j) ring (j_SecretKeys j) [] = Inr enc"
    by (auto simp: jobOnDiskCopy_def encryptSecretsInPlace_def split: sum.splits)
  note spec = encrypt_all_spec [OF enc]
  show ?thesis
  proof (cases "enc = []")
    case True
    with False ring enc assms spec show ?thesis
      by (intro plain) (auto simp: jobOnDiskCopy_def encryptSecretsInPlace_def)
  next
    case False': False
    with False ring enc assms
    have "d = j\<lparr>j_Env := strip_keys (map fst enc) (j_Env j), j_EncryptedEnv := enc\<rparr>"
      by (auto simp: jobOnDiskCopy_def encryptSecretsInPlace_def Let_def)
    with ring False' spec show ?thesis by (intro sealed) auto
  qed
qed

text \<open>Loading inverts saving, also under another ring that opens what the first one sealed.\<close>

lemma unseal_sealed:
  assumes law: "\<And>v b. kr_Encrypt ring v = Some b \<Longrightarrow> kr_Decrypt ring' b = Some v"
    and d: "jobOnDiskCopy j (Some ring) = Inr d" and none: "j_EncryptedEnv j = []"
  shows "\<exists>j'. jobInMemoryForm d (Some ring') = Inr j' \<and> map_of (j_Env j') = map_of (j_Env j) \<and>
    j_EncryptedEnv j' = [] \<and> core j' = core j"
  using d
proof (cases rule: jobOnDiskCopy_cases)
  case plain
  with none show ?thesis by (auto simp: jobInMemoryForm_def)
next
  case (sealed ring0 enc)
  let ?env = "strip_keys (map fst enc) (j_Env j)"
  have "\<forall>(k, b) \<in> set enc. map_of ?env k = None \<and>
      (\<exists>v. map_of (j_Env j) k = Some v \<and> kr_Encrypt ring v = Some b)"
    using sealed(1,5) by (force simp: map_of_strip_keys)
  from decrypt_all_inverts [OF law this]
  have dec: "decrypt_all ?env ring' enc = Inr (map (\<lambda>(k, b). (k, the (map_of (j_Env j) k))) enc)" .
  have "map_of (?env @ map (\<lambda>(k, b). (k, the (map_of (j_Env j) k))) enc) = map_of (j_Env j)"
    using sealed(4) by (auto simp: fun_eq_iff map_add_def map_of_strip_keys map_of_restore
        split: option.splits)
  with dec sealed(2,3) show ?thesis
    by (auto simp: jobInMemoryForm_def decryptSecretsInto_def core_def)
qed

section \<open>Properties\<close>

text \<open>With a key ring configured, the record handed to BadgerDB has no plaintext value for any
  declared secret key: each such key that was set is sealed under \<open>EncryptedEnv\<close> and removed from
  \<open>Env\<close>, every other environment entry is unchanged, and the rest of the record is untouched.\<close>

theorem secrets_sealed_on_disk:
  assumes "jobOnDiskCopy j (Some ring) = Inr d" and "j_EncryptedEnv j = []"
  shows "(\<forall>k \<in> set (j_SecretKeys j). map_of (j_Env d) k = None) \<and>
    (\<forall>k. k \<notin> set (j_SecretKeys j) \<longrightarrow> map_of (j_Env d) k = map_of (j_Env j) k) \<and>
    set (map fst (j_EncryptedEnv d)) = {k \<in> set (j_SecretKeys j). map_of (j_Env j) k \<noteq> None} \<and>
    core d = core j"
  using assms(1)
proof (cases rule: jobOnDiskCopy_cases)
  case plain
  with assms(2) show ?thesis by auto
next
  case (sealed ring' enc)
  have "k \<in> fst ` set enc \<longleftrightarrow> k \<in> set (j_SecretKeys j) \<and> map_of (j_Env j) k \<noteq> None" for k
    using sealed(4) by auto
  with sealed(2,4) show ?thesis
    using core_jobOnDiskCopy [OF assms(1)] by (auto simp: map_of_strip_keys)
qed

definition demo_ring :: keyring where
  "demo_ring = \<lparr>kr_Encrypt = (\<lambda>v. Some \<lparr>ev_Ciphertext = rev v, ev_Nonce = [], ev_WrappedDEK = [],
      ev_WrappedDEKNonce = [], ev_KEKVersion = 1\<rparr>), kr_Decrypt = (\<lambda>b. Some (rev (ev_Ciphertext b)))\<rparr>"

definition demo_secret_job :: job where
  "demo_secret_job = zero_job\<lparr>j_ID := ''j1'', j_Env := [(''TOKEN'', ''hunter2''), (''MODE'', ''fast'')],
     j_SecretKeys := [''TOKEN'']\<rparr>"

lemma demo_on_disk:
  "jobOnDiskCopy demo_secret_job (Some demo_ring) =
   Inr (demo_secret_job\<lparr>j_Env := [(''MODE'', ''fast'')],
     j_EncryptedEnv := [(''TOKEN'', \<lparr>ev_Ciphertext = ''2retnuh'', ev_Nonce = [],
        ev_WrappedDEK = [], ev_WrappedDEKNonce = [], ev_KEKVersion = 1\<rparr>)]\<rparr>)"
  by (simp add: jobOnDiskCopy_def encryptSecretsInPlace_def demo_secret_job_def demo_ring_def
      strip_keys_def Let_def)

lemma demo_fields: "j_EncryptedEnv demo_secret_job = []" "''TOKEN'' \<in> set (j_SecretKeys demo_secret_job)"
  by (simp_all add: demo_secret_job_def zero_job_def)

lemma demo_ring_law: "kr_Encrypt demo_ring v = Some b \<Longrightarrow> kr_Decrypt demo_ring b = Some v"
  by (auto simp: demo_ring_def)

theorem secrets_sealed_on_disk_witness:
  "\<exists>d. jobOnDiskCopy demo_secret_job (Some demo_ring) = Inr d \<and> map_of (j_Env d) ''TOKEN'' = None"
  using secrets_sealed_on_disk [OF demo_on_disk demo_fields(1)] demo_on_disk demo_fields(2) by blast

text \<open>Loading inverts saving: when decryption inverts encryption, the record that was prepared
  for disk comes back with every environment entry it had in memory, secrets included, and no
  leftover envelope; nothing else of the record changes.\<close>

theorem secrets_round_trip:
  assumes law: "\<And>v b. kr_Encrypt ring v = Some b \<Longrightarrow> kr_Decrypt ring b = Some v"
    and d: "jobOnDiskCopy j (Some ring) = Inr d" and none: "j_EncryptedEnv j = []"
  shows "\<exists>j'. jobInMemoryForm d (Some ring) = Inr j' \<and> map_of (j_Env j') = map_of (j_Env j) \<and>
    j_EncryptedEnv j' = [] \<and> core j' = core j"
  by (rule unseal_sealed [OF law d none])

theorem secrets_round_trip_witness:
  "\<exists>d j'. jobOnDiskCopy demo_secret_job (Some demo_ring) = Inr d \<and>
     jobInMemoryForm d (Some demo_ring) = Inr j' \<and>
     map_of (j_Env j') = map_of (j_Env demo_secret_job)"
  using secrets_round_trip [OF demo_ring_law demo_on_disk demo_fields(1)] demo_on_disk by blast

end
