(* ===== verification/Job_Store.thy ===== *)
theory Job_Store
  imports Job_Persistence Retry_Policy "HOL-Library.Multiset" "HOL-Library.Product_Lexorder"
begin

text \<open>
  The job state machine of \<open>internal/cluster/job*.go\<close>, \<open>shares.go\<close> and \<open>priority.go\<close>:
  the transition table and every operation of \<open>JobStore\<close>. The store is the
  in-memory index, the persister it writes through, the published events and the queued audit
  records. Each operation takes the persister's \<open>SaveJob\<close> as its first argument and the clock
  reading as its second, and returns its error with the new store. All of them but \<open>CancelJob\<close> run
  under the store's lock from the first read to the last write, so a concurrent history is a
  sequence of these operations; a failed save takes the rollback branch of the code, which restores exactly
  the fields the code restores.

  Lemmas about the operations are proved once against the persister interface (locale
  \<open>job_persister\<close>) and interpreted on the in-memory and the BadgerDB persister. The step relation
  \<open>js_step\<close> collects the operations; its invariants are proved by rule induction.
\<close>

section \<open>Transition table\<close>

definition allowedTransitions :: "job_status \<Rightarrow> job_status list" where
  "allowedTransitions s = (case s of
       JobStatusPending \<Rightarrow> [JobStatusScheduled, JobStatusDispatching, JobStatusCancelled,
                            JobStatusSkipped, JobStatusFailed]
     | JobStatusScheduled \<Rightarrow> [JobStatusDispatching, JobStatusCancelled, JobStatusPending]
     | JobStatusDispatching \<Rightarrow> [JobStatusRunning, JobStatusFailed]
     | JobStatusRunning \<Rightarrow> [JobStatusCompleted, JobStatusFailed, JobStatusTimeout,
                            JobStatusCancelled]
     | JobStatusFailed \<Rightarrow> [JobStatusRetrying]
     | JobStatusTimeout \<Rightarrow> [JobStatusRetrying]
     | JobStatusRetrying \<Rightarrow> [JobStatusPending]
     | _ \<Rightarrow> [])"

definition isAllowed :: "job_status \<Rightarrow> job_status \<Rightarrow> bool" where
  "isAllowed from to = list_ex (\<lambda>a. a = to) (allowedTransitions from)"

definition isRetryable :: "job_status \<Rightarrow> bool" where
  "isRetryable s \<longleftrightarrow> s = JobStatusFailed \<or> s = JobStatusTimeout"

record transition_options =
  t_NodeID :: string
  t_ExitCode :: int
  t_ErrMsg :: string
  t_Runtime :: string
  t_ResolvedOutputs :: "artifact_output list"

definition no_opts :: transition_options where
  "no_opts = \<lparr>t_NodeID = [], t_ExitCode = 0, t_ErrMsg = [], t_Runtime = [], t_ResolvedOutputs = []\<rparr>"

section \<open>The store\<close>

datatype job_event =
    EvJobSubmitted string string "32 word"
  | EvJobTransition string job_status job_status string
  | EvJobCompleted string string duration
  | EvJobCompletedWithOutputs string string duration "(string \<times> string \<times> string) list"
  | EvJobFailed string string int "32 word"
  | EvJobUnschedulable string strmap string
  | EvMLResolveFailed string string string string string
  | EvArtifactDownloaded string string
  | EvArtifactUploaded string string int

datatype audit_record =
    AuditSubmitted string string
  | AuditTransition string job_status job_status string string
  | AuditLost string job_status string
  | AuditRetry string "32 word" "32 word" "64 word" job_status

record 'p job_store =
  js_jobs :: "string \<rightharpoonup> job"
  js_persister :: 'p
  js_events :: "job_event list"
  js_audit :: "audit_record list"

datatype job_error = ErrJobNotFound | ErrJobExists | ErrInvalidTransition | ErrJobAlreadyTerminal
  | ErrPersist persist_error

definition NewJobStore :: "'p \<Rightarrow> 'p job_store" where
  "NewJobStore p = \<lparr>js_jobs = Map.empty, js_persister = p, js_events = [], js_audit = []\<rparr>"

definition publishEvent :: "job_event \<Rightarrow> 'p job_store \<Rightarrow> 'p job_store" where
  "publishEvent e st = st\<lparr>js_events := js_events st @ [e]\<rparr>"

definition appendAuditAsync :: "audit_record \<Rightarrow> 'p job_store \<Rightarrow> 'p job_store" where
  "appendAuditAsync a st = st\<lparr>js_audit := js_audit st @ [a]\<rparr>"

abbreviation put_job :: "'p job_store \<Rightarrow> string \<Rightarrow> job \<Rightarrow> 'p \<Rightarrow> 'p job_store" where
  "put_job st i j p \<equiv> st\<lparr>js_jobs := (js_jobs st)(i \<mapsto> j), js_persister := p\<rparr>"

section \<open>Operations\<close>

definition Submit :: "'p saver \<Rightarrow> time \<Rightarrow> job \<Rightarrow> 'p job_store \<Rightarrow> job_error option \<times> 'p job_store" where
  "Submit save now j st =
     (let j = j\<lparr>j_Status := JobStatusPending, j_CreatedAt := now,
                j_Attempt := (if j_Attempt j = 0 then 1 else j_Attempt j),
                j_Priority := (if j_Priority j = 0 then 50 else j_Priority j)\<rparr> in
      if js_jobs st (j_ID j) \<noteq> None then (Some ErrJobExists, st)
      else (case save (js_persister st) j of
          (Some e, p) \<Rightarrow> (Some (ErrPersist e),
             st\<lparr>js_jobs := (js_jobs st)(j_ID j := None), js_persister := p\<rparr>)
        | (None, p) \<Rightarrow> (None,
             publishEvent (EvJobSubmitted (j_ID j) (j_Command j) (j_Priority j))
              (appendAuditAsync (AuditSubmitted (j_ID j) (j_Command j)) (put_job st (j_ID j) j p)))))"

text \<open>The mutation switch of \<open>Transition\<close>.\<close>

definition apply_transition :: "time \<Rightarrow> job_status \<Rightarrow> transition_options \<Rightarrow> job \<Rightarrow> job" where
  "apply_transition now to opts j =
     (let j = j\<lparr>j_Status := to\<rparr> in
      if to = JobStatusDispatching then
        j\<lparr>j_DispatchedAt := now,
          j_NodeID := (if t_NodeID opts \<noteq> [] then t_NodeID opts else j_NodeID j)\<rparr>
      else if to = JobStatusScheduled then
        j\<lparr>j_NodeID := (if t_NodeID opts \<noteq> [] then t_NodeID opts else j_NodeID j)\<rparr>
      else if to \<in> {JobStatusCompleted, JobStatusFailed, JobStatusTimeout} then
        j\<lparr>j_FinishedAt := now, j_ExitCode := t_ExitCode opts,
          j_Error := (if t_ErrMsg opts \<noteq> [] then t_ErrMsg opts else j_Error j),
          j_Runtime := (if t_Runtime opts \<noteq> [] then t_Runtime opts else j_Runtime j),
          j_ResolvedOutputs := (if to = JobStatusCompleted \<and> t_ResolvedOutputs opts \<noteq> []
             then t_ResolvedOutputs opts else j_ResolvedOutputs j)\<rparr>
      else if to \<in> {JobStatusCancelled, JobStatusSkipped} then
        j\<lparr>j_FinishedAt := now, j_Error := (if t_ErrMsg opts \<noteq> [] then t_ErrMsg opts else j_Error j)\<rparr>
      else j)"

text \<open>The events published after a persisted transition.\<close>

definition transition_events :: "string \<Rightarrow> job_status \<Rightarrow> job_status \<Rightarrow> job \<Rightarrow> job_event list" where
  "transition_events jobID from to snap =
     EvJobTransition jobID from to (j_NodeID snap) #
     (if to = JobStatusCompleted then
        (let dur = trunc_div (time_sub (j_FinishedAt snap) (j_CreatedAt snap)) millisecond in
         if j_ResolvedOutputs snap \<noteq> [] then
           [EvJobCompletedWithOutputs jobID (j_NodeID snap) dur
              (map (\<lambda>a. (o_Name a, o_URI a, o_SHA256 a)) (j_ResolvedOutputs snap))]
         else [EvJobCompleted jobID (j_NodeID snap) dur])
      else if to = JobStatusFailed then
        [EvJobFailed jobID (j_Error snap) (j_ExitCode snap) (j_Attempt snap)]
      else [])"

definition Transition :: "'p saver \<Rightarrow> time \<Rightarrow> string \<Rightarrow> job_status \<Rightarrow> transition_options
    \<Rightarrow> 'p job_store \<Rightarrow> job_error option \<times> 'p job_store" where
  "Transition save now jobID to opts st =
     (case js_jobs st jobID of None \<Rightarrow> (Some ErrJobNotFound, st)
      | Some j \<Rightarrow>
        let from = j_Status j in
        if IsTerminal from then (Some ErrJobAlreadyTerminal, st)
        else if \<not> isAllowed from to then (Some ErrInvalidTransition, st)
        else let j' = apply_transition now to opts j in
          (case save (js_persister st) j' of
             (Some e, p) \<Rightarrow> (Some (ErrPersist e), put_job st jobID (j'\<lparr>j_Status := from\<rparr>) p)
           | (None, p) \<Rightarrow> (None,
               fold publishEvent (transition_events jobID from to j')
                (appendAuditAsync (AuditTransition jobID from to (t_NodeID opts) (j_Error j'))
                  (put_job st jobID j' p)))))"

definition MarkLost :: "'p saver \<Rightarrow> time \<Rightarrow> string \<Rightarrow> string \<Rightarrow> 'p job_store
    \<Rightarrow> job_error option \<times> 'p job_store" where
  "MarkLost save now jobID reason st =
     (case js_jobs st jobID of None \<Rightarrow> (Some ErrJobNotFound, st)
      | Some j \<Rightarrow>
        if IsTerminal (j_Status j) then (None, st)
        else let j' = j\<lparr>j_Status := JobStatusLost, j_FinishedAt := now, j_Error := reason\<rparr> in
          (case save (js_persister st) j' of
             (Some e, p) \<Rightarrow> (Some (ErrPersist e), put_job st jobID (j'\<lparr>j_Status := j_Status j\<rparr>) p)
           | (None, p) \<Rightarrow> (None,
               appendAuditAsync (AuditLost jobID (j_Status j) reason) (put_job st jobID j' p))))"

definition resetToPending :: "'p saver \<Rightarrow> string \<Rightarrow> 'p job_store \<Rightarrow> job_error option \<times> 'p job_store" where
  "resetToPending save jobID st =
     (case js_jobs st jobID of None \<Rightarrow> (Some ErrJobNotFound, st)
      | Some j \<Rightarrow>
        if j_Status j = JobStatusPending then (None, st)
        else if IsTerminal (j_Status j) then (None, st)
        else let j' = j\<lparr>j_Status := JobStatusPending\<rparr> in
          (case save (js_persister st) j' of
             (Some e, p) \<Rightarrow> (Some (ErrPersist e), put_job st jobID (j'\<lparr>j_Status := JobStatusDispatching\<rparr>) p)
           | (None, p) \<Rightarrow> (None, put_job st jobID j' p)))"

text \<open>
  \<open>CancelJob\<close> inspects the job under the lock, releases the lock, and then runs \<open>MarkLost\<close> or
  \<open>Transition\<close>, which take it again. \<open>cancel_plan\<close> is the first critical section;
  \<open>interf\<close> is what other callers do to the store between the two.
\<close>

definition cancel_plan :: "string \<Rightarrow> 'p job_store \<Rightarrow> job_error + bool" where
  "cancel_plan jobID st =
     (case js_jobs st jobID of None \<Rightarrow> Inl ErrJobNotFound
      | Some j \<Rightarrow>
        if IsTerminal (j_Status j) then Inl ErrJobAlreadyTerminal
        else Inr (isAllowed (j_Status j) JobStatusCancelled))"

definition CancelJob :: "'p saver \<Rightarrow> time \<Rightarrow> ('p job_store \<Rightarrow> 'p job_store) \<Rightarrow> string \<Rightarrow> string
    \<Rightarrow> 'p job_store \<Rightarrow> job_error option \<times> 'p job_store" where
  "CancelJob save now interf jobID reason st =
     (case cancel_plan jobID st of
        Inl e \<Rightarrow> (Some e, st)
      | Inr direct \<Rightarrow>
          if \<not> direct then MarkLost save now jobID (''cancelled: '' @ reason) (interf st)
          else Transition save now jobID JobStatusCancelled (no_opts\<lparr>t_ErrMsg := reason\<rparr>) (interf st))"

text \<open>
  The first component is the returned bool; \<open>None\<close> stands for a panic of the backoff computation,
  which \<open>NextRetryDelay_total\<close> excludes.
\<close>

definition RetryIfEligible :: "'p saver \<Rightarrow> time \<Rightarrow> (int \<Rightarrow> int) \<Rightarrow> string \<Rightarrow> 'p job_store
    \<Rightarrow> bool option \<times> 'p job_store" where
  "RetryIfEligible save now rnd jobID st =
     (case js_jobs st jobID of None \<Rightarrow> (Some False, st)
      | Some j \<Rightarrow>
        if \<not> isRetryable (j_Status j) \<or> \<not> ShouldRetry j then (Some False, st)
        else let j1 = j\<lparr>j_Status := JobStatusRetrying\<rparr> in
          (case save (js_persister st) j1 of
             (Some e, p) \<Rightarrow> (Some False, put_job st jobID j p)
           | (None, p) \<Rightarrow>
              let a = j_Attempt j + 1 in
              (case NextRetryDelay rnd (j_RetryPolicy j) a of
                 None \<Rightarrow> (None, put_job st jobID (j1\<lparr>j_Attempt := a\<rparr>) p)
               | Some delay \<Rightarrow>
                  let j2 = j1\<lparr>j_Attempt := a, j_RetryAfter := now + sint delay,
                              j_Status := JobStatusPending, j_NodeID := [],
                              j_DispatchedAt := time_zero, j_FinishedAt := time_zero, j_Error := []\<rparr> in
                  (case save p j2 of
                     (Some e, p') \<Rightarrow> (Some False, put_job st jobID (j2\<lparr>j_Status := JobStatusRetrying\<rparr>) p')
                   | (None, p') \<Rightarrow> (Some True,
                       appendAuditAsync (AuditRetry jobID a
                           (case j_RetryPolicy j of None \<Rightarrow> 0 | Some rp \<Rightarrow> rp_MaxAttempts rp)
                           delay (j_Status j))
                         (put_job st jobID j2 p'))))))"

definition UpdateResolvedInputs :: "'p saver \<Rightarrow> string \<Rightarrow> artifact_binding list \<Rightarrow> 'p job_store
    \<Rightarrow> job_error option \<times> 'p job_store" where
  "UpdateResolvedInputs save jobID inputs st =
     (case js_jobs st jobID of None \<Rightarrow> (Some ErrJobNotFound, st)
      | Some j \<Rightarrow> (case save (js_persister st) (j\<lparr>j_Inputs := inputs\<rparr>) of
            (Some e, p) \<Rightarrow> (Some (ErrPersist e), put_job st jobID j p)
          | (None, p) \<Rightarrow> (None, put_job st jobID (j\<lparr>j_Inputs := inputs\<rparr>) p)))"

definition UpdateShares :: "'p saver \<Rightarrow> string \<Rightarrow> share list \<Rightarrow> 'p job_store
    \<Rightarrow> job_error option \<times> 'p job_store" where
  "UpdateShares save jobID shares st =
     (case js_jobs st jobID of None \<Rightarrow> (Some ErrJobNotFound, st)
      | Some j \<Rightarrow>
        let j' = j\<lparr>j_Shares := shares\<rparr> in
        (case save (js_persister st) j' of
            (Some e, p) \<Rightarrow> (Some (ErrPersist e), put_job st jobID j' p)
          | (None, p) \<Rightarrow> (None, put_job st jobID j' p)))"

section \<open>Reads\<close>

definition Get :: "string \<Rightarrow> 'p job_store \<Rightarrow> job_error + job" where
  "Get jobID st = (case js_jobs st jobID of None \<Rightarrow> Inl ErrJobNotFound | Some j \<Rightarrow> Inr j)"

definition ListJobs :: "string list \<Rightarrow> 'p job_store \<Rightarrow> job list" where
  "ListJobs ord st = range_values ord (js_jobs st)"

definition NonTerminal :: "string list \<Rightarrow> 'p job_store \<Rightarrow> job list" where
  "NonTerminal ord st = filter (\<lambda>j. \<not> IsTerminal (j_Status j)) (range_values ord (js_jobs st))"

text \<open>\<open>load\<close> is the persister's \<open>LoadAllJobs\<close>.\<close>

definition Restore :: "('p \<Rightarrow> persist_error + job list) \<Rightarrow> 'p job_store \<Rightarrow> job_error option \<times> 'p job_store" where
  "Restore load st = (case load (js_persister st) of
      Inl e \<Rightarrow> (Some (ErrPersist e), st)
    | Inr js \<Rightarrow> (None, st\<lparr>js_jobs := fold (\<lambda>j m. m(j_ID j \<mapsto> j)) js (js_jobs st)\<rparr>))"

definition parse_status :: "string \<Rightarrow> job_status option" where
  "parse_status s = map_of
     [(''PENDING'', JobStatusPending), (''DISPATCHING'', JobStatusDispatching),
      (''RUNNING'', JobStatusRunning), (''COMPLETED'', JobStatusCompleted),
      (''FAILED'', JobStatusFailed), (''TIMEOUT'', JobStatusTimeout), (''LOST'', JobStatusLost),
      (''RETRYING'', JobStatusRetrying), (''SCHEDULED'', JobStatusScheduled),
      (''CANCELLED'', JobStatusCancelled), (''SKIPPED'', JobStatusSkipped)] s"

definition GetJobsByStatus :: "string list \<Rightarrow> string \<Rightarrow> 'p job_store \<Rightarrow> string + job list" where
  "GetJobsByStatus ord status st = (case parse_status status of
      None \<Rightarrow> Inl status
    | Some target \<Rightarrow> Inr (filter (\<lambda>j. j_Status j = target) (range_values ord (js_jobs st))))"

definition CountByStatus :: "string list \<Rightarrow> string \<Rightarrow> 'p job_store \<Rightarrow> string + nat" where
  "CountByStatus ord status st = (case GetJobsByStatus ord status st of
      Inl e \<Rightarrow> Inl e | Inr js \<Rightarrow> Inr (length js))"

definition CountTotal :: "'p job_store \<Rightarrow> nat" where
  "CountTotal st = card (dom (js_jobs st))"

section \<open>Priority order\<close>

text \<open>
  The minutes since creation, truncated, are converted to an unsigned 32-bit boost, and the addition
  wraps. The conversion is the reduction modulo 2 to the 32; Go leaves it to the implementation for
  a negative age or one of 2 to the 32 minutes and more, which no theorem relies on.
\<close>

definition EffectivePriority :: "time \<Rightarrow> job \<Rightarrow> 32 word" where
  "EffectivePriority now j =
     (let base = (if j_Priority j = 0 then 50 else j_Priority j);
          age = time_sub now (j_CreatedAt j);
          boost = (word_of_int (trunc_div age minute) :: 32 word);
          eff = base + boost
      in if 100 < eff then 100 else eff)"

definition prio_less :: "time \<Rightarrow> job \<Rightarrow> job \<Rightarrow> bool" where
  "prio_less now a b =
     (let pi = EffectivePriority now a; pj = EffectivePriority now b in
      if pi \<noteq> pj then pj < pi else j_CreatedAt a < j_CreatedAt b)"

text \<open>\<open>sort.Slice\<close> with this order, stable on the visiting order \<open>ord\<close>; since \<open>ord\<close> is arbitrary,
  every order an unstable sort can produce for ties is covered.\<close>

definition prio_key :: "time \<Rightarrow> job \<Rightarrow> int \<times> int" where
  "prio_key now j = (- uint (EffectivePriority now j), j_CreatedAt j)"

fun insert_by :: "('a \<Rightarrow> 'a \<Rightarrow> bool) \<Rightarrow> 'a \<Rightarrow> 'a list \<Rightarrow> 'a list" where
  "insert_by lt x [] = [x]"
| "insert_by lt x (y # ys) = (if lt y x then y # insert_by lt x ys else x # y # ys)"

definition sort_Slice :: "('a \<Rightarrow> 'a \<Rightarrow> bool) \<Rightarrow> 'a list \<Rightarrow> 'a list" where
  "sort_Slice lt xs = foldr (insert_by lt) xs []"

definition PendingByPriority :: "time \<Rightarrow> string list \<Rightarrow> 'p job_store \<Rightarrow> job list" where
  "PendingByPriority now ord st =
     sort_Slice (prio_less now)
       (filter (\<lambda>j. j_Status j = JobStatusPending) (range_values ord (js_jobs st)))"

lemmas [op_defs] = Submit_def Transition_def MarkLost_def resetToPending_def CancelJob_def
  RetryIfEligible_def UpdateResolvedInputs_def UpdateShares_def

section \<open>Steps and reachable states\<close>

text \<open>
  One step is one critical section of an operation, with any arguments and any outcome of the
  persister, or a restart of the coordinator on the same disk. A submitted job is fresh from the
  API: no attempt counted, no sealed environment, an owner. \<open>CancelJob\<close> is a \<open>mark_lost\<close> or a
  \<open>transition\<close> step. \<open>load\<close> is the persister's \<open>LoadAllJobs\<close>.
\<close>

definition fresh_job :: "job \<Rightarrow> bool" where
  "fresh_job j \<longleftrightarrow> j_Attempt j = 0 \<and> j_EncryptedEnv j = [] \<and> j_OwnerPrincipal j \<noteq> []"

inductive js_step :: "'p saver \<Rightarrow> (string list \<Rightarrow> 'p \<Rightarrow> persist_error + job list) \<Rightarrow>
    ('p \<Rightarrow> (string \<rightharpoonup> job)) \<Rightarrow> 'p job_store \<Rightarrow> 'p job_store \<Rightarrow> bool"
  for save load disk where
  submit: "fresh_job j \<Longrightarrow> Submit save now j st = (r, st') \<Longrightarrow> js_step save load disk st st'"
| transition: "Transition save now i to opts st = (r, st') \<Longrightarrow> js_step save load disk st st'"
| mark_lost: "MarkLost save now i reason st = (r, st') \<Longrightarrow> js_step save load disk st st'"
| reset: "resetToPending save i st = (r, st') \<Longrightarrow> js_step save load disk st st'"
| retry: "RetryIfEligible save now rnd i st = (b, st') \<Longrightarrow> js_step save load disk st st'"
| inputs: "UpdateResolvedInputs save i ins st = (r, st') \<Longrightarrow> js_step save load disk st st'"
| shares: "UpdateShares save i shs st = (r, st') \<Longrightarrow> js_step save load disk st st'"
| restart: "enumerates ord (disk (js_persister st)) \<Longrightarrow>
    Restore (load ord) (NewJobStore (js_persister st)) = (None, st') \<Longrightarrow> js_step save load disk st st'"

inductive js_reachable :: "'p saver \<Rightarrow> (string list \<Rightarrow> 'p \<Rightarrow> persist_error + job list) \<Rightarrow>
    ('p \<Rightarrow> (string \<rightharpoonup> job)) \<Rightarrow> 'p job_store \<Rightarrow> bool"
  for save load disk where
  start: "disk p = Map.empty \<Longrightarrow> js_reachable save load disk (NewJobStore p)"
| step: "js_reachable save load disk st \<Longrightarrow> js_step save load disk st st' \<Longrightarrow>
    js_reachable save load disk st'"

section \<open>Frame lemmas\<close>

lemma fold_publishEvent [simp]:
  "js_jobs (fold publishEvent es st) = js_jobs st"
  "js_persister (fold publishEvent es st) = js_persister st"
  "js_audit (fold publishEvent es st) = js_audit st"
  by (induction es arbitrary: st) (simp_all add: publishEvent_def)

lemma publish_append_simps [simp]:
  "js_jobs (publishEvent e st) = js_jobs st" "js_persister (publishEvent e st) = js_persister st"
  "js_jobs (appendAuditAsync a st) = js_jobs st" "js_persister (appendAuditAsync a st) = js_persister st"
  by (simp_all add: publishEvent_def appendAuditAsync_def)

lemma fold_publishEvent_events: "js_events (fold publishEvent es st) = js_events st @ es"
  by (induction es arbitrary: st) (simp_all add: publishEvent_def)

lemma apply_transition_simps [simp]:
  "j_ID (apply_transition now to opts j) = j_ID j"
  "j_Status (apply_transition now to opts j) = to"
  "j_Attempt (apply_transition now to opts j) = j_Attempt j"
  "j_RetryPolicy (apply_transition now to opts j) = j_RetryPolicy j"
  "j_OwnerPrincipal (apply_transition now to opts j) = j_OwnerPrincipal j"
  "j_Shares (apply_transition now to opts j) = j_Shares j"
  by (simp_all add: apply_transition_def Let_def)

lemma isAllowed_iff: "isAllowed from to \<longleftrightarrow> to \<in> set (allowedTransitions from)"
  by (auto simp: isAllowed_def list_ex_iff)

section \<open>Memory and disk\<close>

definition status_agrees :: "job_status \<Rightarrow> job_status \<Rightarrow> bool" where
  "status_agrees m d \<longleftrightarrow> m = d \<or>
     m = JobStatusDispatching \<and> d \<in> {JobStatusUnknown, JobStatusScheduled, JobStatusRunning, JobStatusRetrying}"

definition attempt_ok :: "job \<Rightarrow> bool" where
  "attempt_ok j \<longleftrightarrow> 1 \<le> j_Attempt j \<and>
     j_Attempt j \<le> (case j_RetryPolicy j of None \<Rightarrow> 1 | Some p \<Rightarrow> max 1 (rp_MaxAttempts p))"

definition same_job :: "job \<Rightarrow> job \<Rightarrow> bool" where
  "same_job j d \<longleftrightarrow> j_ID j = j_ID d \<and> j_OwnerPrincipal j = j_OwnerPrincipal d \<and>
     j_RetryPolicy j = j_RetryPolicy d"

fun agree :: "string \<Rightarrow> job option \<Rightarrow> job option \<Rightarrow> bool" where
  "agree i None None = True"
| "agree i (Some j) (Some d) \<longleftrightarrow> j_ID j = i \<and> j_OwnerPrincipal j \<noteq> [] \<and> same_job j d \<and>
     status_agrees (j_Status j) (j_Status d) \<and> attempt_ok j \<and> attempt_ok d"
| "agree i _ _ = False"

definition coherent :: "(string \<rightharpoonup> job) \<Rightarrow> (string \<rightharpoonup> job) \<Rightarrow> bool" where
  "coherent m d \<longleftrightarrow> (\<forall>i. agree i (m i) (d i))"

lemma agree_SomeE:
  assumes "agree i (Some j) x"
  obtains d where "x = Some d" "agree i (Some j) (Some d)"
  using assms by (cases x) auto

lemma coherent_upd:
  "coherent m d \<Longrightarrow> agree i x y \<Longrightarrow> (\<forall>k. k \<noteq> i \<longrightarrow> m' k = m k \<and> d' k = d k) \<Longrightarrow>
   m' i = x \<Longrightarrow> d' i = y \<Longrightarrow> coherent m' d'"
  unfolding coherent_def by metis

lemma attempt_ok_cong:
  "j_Attempt j' = j_Attempt j \<Longrightarrow> j_RetryPolicy j' = j_RetryPolicy j \<Longrightarrow> attempt_ok j' = attempt_ok j"
  by (simp add: attempt_ok_def)

lemma attempt_ok_incr:
  assumes "attempt_ok j" and "ShouldRetry j"
    and "j_Attempt j' = j_Attempt j + 1" and "j_RetryPolicy j' = j_RetryPolicy j"
  shows "attempt_ok j'"
proof -
  from assms(2) obtain p where p: "j_RetryPolicy j = Some p" "j_Attempt j < rp_MaxAttempts p"
    by (auto simp: ShouldRetry_def split: option.splits)
  have "1 \<le> j_Attempt j + 1 \<and> j_Attempt j + 1 \<le> rp_MaxAttempts p"
    using assms(1) p(2) by (intro inc_i) (simp_all add: attempt_ok_def)
  then show ?thesis using p assms(3,4) by (auto simp: attempt_ok_def max_def)
qed

text \<open>
  Every operation saves a successor of a job and keeps either that successor (the save succeeded) or
  a record the code rebuilt (it failed). Proved once against the persister interface.
\<close>

context job_persister
begin

lemma write_coherent:
  assumes coh: "coherent (js_jobs st) (disk (js_persister st))" and j: "js_jobs st i = Some j"
    and sv: "save (js_persister st) j' = (r, p')"
    and same: "same_job j' j" "same_job m j" "attempt_ok j'" "attempt_ok m"
    and ok: "r = None \<Longrightarrow> j_Status m = j_Status j'"
    and err: "\<And>e d. r = Some e \<Longrightarrow> status_agrees (j_Status j) d \<Longrightarrow> status_agrees (j_Status m) d"
  shows "coherent ((js_jobs st)(i \<mapsto> m)) (disk p')"
proof -
  have "agree i (Some j) (disk (js_persister st) i)" using coh j by (metis coherent_def)
  then obtain d where d: "disk (js_persister st) i = Some d" "agree i (Some j) (Some d)"
    by (rule agree_SomeE)
  have id: "j_ID j' = i" using d(2) same(1) by (simp add: same_job_def)
  show ?thesis using sv
  proof (cases rule: save_cases)
    case ok': ok
    have "agree i (Some m) (disk p' i)"
      using d(2) same ok ok' id by (auto simp: same_job_def status_agrees_def attempt_ok_def)
    then show ?thesis using coh by (rule_tac coherent_upd) (auto simp: ok' id)
  next
    case err': (err e)
    have "agree i (Some m) (disk p' i)"
      using d same err err' id by (auto simp: same_job_def)
    then show ?thesis using coh by (rule_tac coherent_upd) (auto simp: err')
  qed
qed

abbreviation coh :: "'p job_store \<Rightarrow> bool" where
  "coh st \<equiv> coherent (js_jobs st) (disk (js_persister st))"

lemma coherent_attempt: "coherent m d \<Longrightarrow> m i = Some j \<Longrightarrow> attempt_ok j \<and> j_ID j = i"
  unfolding coherent_def by (metis agree.simps(2) agree_SomeE)

lemma coherent_Submit:
  assumes "coh st" and "Submit save now j st = (r, st')" and "fresh_job j"
  shows "coh st'"
proof (cases "js_jobs st (j_ID j)")
  case None
  let ?j = "j\<lparr>j_Status := JobStatusPending, j_CreatedAt := now,
    j_Attempt := (if j_Attempt j = 0 then 1 else j_Attempt j),
    j_Priority := (if j_Priority j = 0 then 50 else j_Priority j)\<rparr>"
  obtain r' p' where sv: "save (js_persister st) ?j = (r', p')" by fastforce
  then show ?thesis
  proof (cases rule: save_cases)
    case ok
    have "agree (j_ID j) (Some ?j) (Some (core ?j))"
      using assms(3) by (auto simp: fresh_job_def same_job_def status_agrees_def attempt_ok_def
          split: option.splits)
    then have "coherent ((js_jobs st)(j_ID j \<mapsto> ?j)) (disk p')"
      using assms(1) by (rule_tac coherent_upd) (auto simp: ok)
    then show ?thesis using assms(2) None sv ok(1) by (auto simp: Submit_def Let_def)
  next
    case (err e)
    have "(js_jobs st)(j_ID j := None) = js_jobs st" using None by (simp add: fun_upd_idem)
    then show ?thesis using assms(1,2) None sv err by (auto simp: Submit_def Let_def)
  qed
qed (use assms in \<open>auto simp: Submit_def Let_def\<close>)

lemma coherent_Transition:
  assumes "coh st" and "Transition save now i to opts st = (r, st')"
  shows "coh st'"
proof (cases "js_jobs st i")
  case (Some j)
  note ok = coherent_attempt [OF assms(1) Some]
  let ?j = "apply_transition now to opts j"
  obtain r' p' where sv: "save (js_persister st) ?j = (r', p')" by fastforce
  have "coherent ((js_jobs st)(i \<mapsto> (if r' = None then ?j else ?j\<lparr>j_Status := j_Status j\<rparr>))) (disk p')"
    by (rule write_coherent [OF assms(1) Some sv])
      (use ok in \<open>auto simp: same_job_def attempt_ok_def\<close>)
  then show ?thesis using assms sv Some
    by (cases r') (auto simp: Transition_def Let_def split: if_splits)
qed (use assms in \<open>auto simp: Transition_def\<close>)

lemma coherent_MarkLost:
  assumes "coh st" and "MarkLost save now i reason st = (r, st')"
  shows "coh st'"
proof (cases "js_jobs st i")
  case (Some j)
  note ok = coherent_attempt [OF assms(1) Some]
  let ?j = "j\<lparr>j_Status := JobStatusLost, j_FinishedAt := now, j_Error := reason\<rparr>"
  obtain r' p' where sv: "save (js_persister st) ?j = (r', p')" by fastforce
  have "coherent ((js_jobs st)(i \<mapsto> (if r' = None then ?j else ?j\<lparr>j_Status := j_Status j\<rparr>))) (disk p')"
    by (rule write_coherent [OF assms(1) Some sv])
      (use ok in \<open>auto simp: same_job_def attempt_ok_def\<close>)
  then show ?thesis using assms sv Some
    by (cases r') (auto simp: MarkLost_def Let_def split: if_splits)
qed (use assms in \<open>auto simp: MarkLost_def\<close>)

lemma coherent_resetToPending:
  assumes "coh st" and "resetToPending save i st = (r, st')"
  shows "coh st'"
proof (cases "js_jobs st i")
  case (Some j)
  note ok = coherent_attempt [OF assms(1) Some]
  let ?j = "j\<lparr>j_Status := JobStatusPending\<rparr>"
  obtain r' p' where sv: "save (js_persister st) ?j = (r', p')" by fastforce
  show ?thesis
  proof (cases "j_Status j = JobStatusPending \<or> IsTerminal (j_Status j)")
    case False
    then have "coherent ((js_jobs st)(i \<mapsto>
        (if r' = None then ?j else ?j\<lparr>j_Status := JobStatusDispatching\<rparr>))) (disk p')"
      by (intro write_coherent [OF assms(1) Some sv])
        (use ok in \<open>auto simp: same_job_def attempt_ok_def status_agrees_def IsTerminal_iff\<close>,
          cases "j_Status j", auto)
    then show ?thesis using assms sv Some False
      by (cases r') (auto simp: resetToPending_def Let_def)
  qed (use assms Some in \<open>auto simp: resetToPending_def split: if_splits\<close>)
qed (use assms in \<open>auto simp: resetToPending_def\<close>)

lemma coherent_updates:
  "coh st \<Longrightarrow> UpdateResolvedInputs save i ins st = (r, st') \<Longrightarrow> coh st'"
  "coh st \<Longrightarrow> UpdateShares save i shs st = (r, st') \<Longrightarrow> coh st'"
proof -
  assume c: "coh st"
  have put: "coherent ((js_jobs st)(i \<mapsto> m)) (disk p')"
    if "js_jobs st i = Some j" "save (js_persister st) j' = (r', p')" "same_job j' j" "same_job m j"
      "attempt_ok j' = attempt_ok j" "attempt_ok m = attempt_ok j"
      "j_Status j' = j_Status j" "j_Status m = j_Status j" for j j' m r' p'
    by (rule write_coherent [OF c that(1,2)])
      (use that coherent_attempt [OF c that(1)] in auto)
  note simps = Let_def same_job_def attempt_ok_def
  show "UpdateResolvedInputs save i ins st = (r, st') \<Longrightarrow> coh st'"
    using c by (auto simp: UpdateResolvedInputs_def simps split: option.splits prod.splits intro!: put)
  show "UpdateShares save i shs st = (r, st') \<Longrightarrow> coh st'"
    using c by (auto simp: UpdateShares_def simps split: option.splits prod.splits intro!: put)
qed

lemma coherent_RetryIfEligible:
  assumes "coh st" and "RetryIfEligible save now rnd i st = (b, st')"
  shows "coh st'"
proof (cases "\<exists>j. js_jobs st i = Some j \<and> isRetryable (j_Status j) \<and> ShouldRetry j")
  case False
  then have "st' = st" using assms(2) by (auto simp: RetryIfEligible_def split: option.splits if_splits)
  with assms(1) show ?thesis by simp
next
  case True
  then obtain j where j: "js_jobs st i = Some j" "isRetryable (j_Status j)" "ShouldRetry j" by blast
  note ok = coherent_attempt [OF assms(1) j(1)]
  let ?j1 = "j\<lparr>j_Status := JobStatusRetrying\<rparr>"
  obtain r1 p1 where sv1: "save (js_persister st) ?j1 = (r1, p1)" by fastforce
  have c1: "coherent ((js_jobs st)(i \<mapsto> m)) (disk p1)"
    if "same_job m j" "attempt_ok m" "j_Status m = (if r1 = None then JobStatusRetrying else j_Status j)" for m
    by (rule write_coherent [OF assms(1) j(1) sv1])
      (use ok that in \<open>auto simp: same_job_def attempt_ok_def\<close>)
  show ?thesis
  proof (cases r1)
    case (Some e)
    then have "st' = put_job st i j p1"
      using assms(2) j sv1 by (simp add: RetryIfEligible_def Let_def)
    with c1 [of j] ok Some show ?thesis by (simp add: same_job_def)
  next
    case None
    let ?st1 = "put_job st i ?j1 p1"
    have coh1: "coh ?st1" using c1 [of ?j1] ok None by (simp add: same_job_def attempt_ok_def)
    have inc: "attempt_ok (?j1\<lparr>j_Attempt := j_Attempt j + 1\<rparr>)"
      by (rule attempt_ok_incr [of j]) (use ok j in auto)
    show ?thesis
    proof (cases "NextRetryDelay rnd (j_RetryPolicy j) (j_Attempt j + 1)")
      case d: None
      have "st' = put_job st i (?j1\<lparr>j_Attempt := j_Attempt j + 1\<rparr>) p1"
        using assms(2) j sv1 None d by (simp add: RetryIfEligible_def Let_def)
      with c1 [OF _ inc] None show ?thesis by (simp add: same_job_def)
    next
      case d: (Some delay)
      let ?j2 = "?j1\<lparr>j_Attempt := j_Attempt j + 1, j_RetryAfter := now + sint delay,
        j_Status := JobStatusPending, j_NodeID := [], j_DispatchedAt := time_zero,
        j_FinishedAt := time_zero, j_Error := []\<rparr>"
      obtain r2 p2 where sv2: "save p1 ?j2 = (r2, p2)" by fastforce
      have "coherent ((js_jobs ?st1)(i \<mapsto> (if r2 = None then ?j2 else ?j2\<lparr>j_Status := JobStatusRetrying\<rparr>)))
          (disk p2)"
        by (rule write_coherent [OF coh1 _ _ , of i ?j1 ?j2 r2])
          (use inc sv2 in \<open>auto simp: same_job_def attempt_ok_def\<close>)
      then show ?thesis using assms(2) j sv1 None d sv2
        by (cases r2) (auto simp: RetryIfEligible_def Let_def)
    qed
  qed
qed

end

text \<open>A restart reads back what is on disk.\<close>

lemma fold_put_other: "i \<notin> j_ID ` set js \<Longrightarrow> fold (\<lambda>j m. m(j_ID j \<mapsto> j)) js m i = m i"
  by (induction js arbitrary: m) auto

lemma fold_put_in:
  "distinct (map j_ID js) \<Longrightarrow> j \<in> set js \<Longrightarrow> fold (\<lambda>j m. m(j_ID j \<mapsto> j)) js m (j_ID j) = Some j"
proof (induction js arbitrary: m)
  case (Cons a js)
  then show ?case
    by (cases "j = a") (simp_all del: fun_upd_apply add: fold_put_other fun_upd_same)
qed simp

lemma loaded_from_simps:
  assumes "loaded_from j d"
  shows "j_ID j = j_ID d" "j_Status j = j_Status d" "j_Attempt j = j_Attempt d"
    "j_RetryPolicy j = j_RetryPolicy d" "j_OwnerPrincipal d \<noteq> [] \<Longrightarrow> j_OwnerPrincipal j = j_OwnerPrincipal d"
proof -
  have e: "durable j = durable d" using assms by (simp add: loaded_from_def)
  show "j_ID j = j_ID d" "j_Status j = j_Status d" "j_Attempt j = j_Attempt d"
    "j_RetryPolicy j = j_RetryPolicy d"
    using arg_cong [OF e, of j_ID] arg_cong [OF e, of j_Status] arg_cong [OF e, of j_Attempt]
      arg_cong [OF e, of j_RetryPolicy] by (simp_all add: durable_def)
  show "j_OwnerPrincipal d \<noteq> [] \<Longrightarrow> j_OwnerPrincipal j = j_OwnerPrincipal d"
    using assms by (simp add: loaded_from_def)
qed

context job_loader
begin

lemma Restore_lookup:
  assumes enum: "enumerates ord (disk p)" and ids: "\<And>i d. disk p i = Some d \<Longrightarrow> j_ID d = i"
    and rst: "Restore (load ord) (NewJobStore p) = (None, st')"
  shows "rel_option loaded_from (js_jobs st' i) (disk p i)" and "js_persister st' = p"
proof -
  obtain js where js: "load ord p = Inr js" and st': "js_persister st' = p"
    "js_jobs st' = fold (\<lambda>j m. m(j_ID j \<mapsto> j)) js Map.empty"
    using rst by (auto simp: Restore_def NewJobStore_def split: sum.splits)
  then show "js_persister st' = p" by simp
  have dom: "set ord = dom (disk p)" and dist: "distinct ord" using enum by (auto simp: enumerates_def)
  have all2: "list_all2 (\<lambda>j i. loaded_from j (the (disk p i))) js ord"
    using load_ok [OF enum js] by (simp add: range_values_def list_all2_map2)
  have "list_all2 (\<lambda>j i. j_ID j = i) js ord"
    by (rule list.rel_mono_strong [OF all2])
      (use dom ids in \<open>auto simp: loaded_from_simps(1) dom_def\<close>)
  then have ord: "ord = map j_ID js" by (induction rule: list_all2_induct) auto
  show "rel_option loaded_from (js_jobs st' i) (disk p i)"
  proof (cases "i \<in> set ord")
    case True
    then obtain j where j: "j \<in> set js" "j_ID j = i" using ord by auto
    then have "loaded_from j (the (disk p i))"
      using all2 by (auto simp: ord list_all2_map2 list_all2_same)
    with j True dom show ?thesis
      using fold_put_in [of js j] dist by (auto simp: st' ord)
  next
    case False
    then have "disk p i = None" "i \<notin> j_ID ` set js" using dom ord by auto
    then show ?thesis by (simp add: st' fold_put_other)
  qed
qed

lemma coherent_restart:
  assumes coh: "coh st" and enum: "enumerates ord (disk (js_persister st))"
    and rst: "Restore (load ord) (NewJobStore (js_persister st)) = (None, st')"
  shows "coh st'"
proof -
  have disk: "j_ID d = i \<and> j_OwnerPrincipal d \<noteq> [] \<and> attempt_ok d"
    if "disk (js_persister st) i = Some d" for i d
    using coh [unfolded coherent_def, rule_format, of i] that
    by (cases "js_jobs st i") (auto simp: same_job_def)
  note look = Restore_lookup [OF enum _ rst]
  have "agree i (js_jobs st' i) (disk (js_persister st') i)" for i
    using look(1) [of i] look(2) disk
    by (cases "js_jobs st' i"; cases "disk (js_persister st) i")
      (auto simp: same_job_def status_agrees_def attempt_ok_def loaded_from_simps)
  then show ?thesis by (simp add: coherent_def)
qed

lemma coherent_step: "js_step save load disk st st' \<Longrightarrow> coh st \<Longrightarrow> coh st'"
  by (induction rule: js_step.induct)
    (auto intro: coherent_Submit coherent_Transition coherent_MarkLost coherent_resetToPending
      coherent_RetryIfEligible coherent_updates coherent_restart)

lemma coherent_reachable: "js_reachable save load disk st \<Longrightarrow> coh st"
proof (induction rule: js_reachable.induct)
  case (start p)
  then show ?case by (simp add: NewJobStore_def coherent_def)
qed (rule coherent_step)

end

section \<open>How a job can move\<close>

definition legal_move :: "job_status \<Rightarrow> job_status \<Rightarrow> bool" where
  "legal_move from to \<longleftrightarrow> from = to \<or>
     (if IsTerminal from then isRetryable from \<and> to \<in> {JobStatusRetrying, JobStatusPending}
      else isAllowed from to \<or> to \<in> {JobStatusLost, JobStatusPending, JobStatusDispatching}
        \<or> status_agrees from to)"

definition moves :: "job \<Rightarrow> job \<Rightarrow> bool" where
  "moves j j' \<longleftrightarrow> same_job j' j \<and> legal_move (j_Status j) (j_Status j') \<and>
     (IsTerminal (j_Status j) \<and> j_Status j' \<noteq> j_Status j \<longrightarrow> ShouldRetry j)"

lemma moves_keep: "same_job j' j \<Longrightarrow> j_Status j' = j_Status j \<Longrightarrow> moves j j'"
  by (simp add: moves_def legal_move_def)

lemma moves_refl [simp]: "moves j j"
  by (rule moves_keep) (simp_all add: same_job_def)

lemma isRetryable_terminal: "isRetryable s \<Longrightarrow> IsTerminal s"
  by (auto simp: isRetryable_def)

lemma Submit_moves:
  "Submit save now a st = (r, st') \<Longrightarrow> js_jobs st i = Some j \<Longrightarrow> js_jobs st' i = Some j"
  by (auto simp: Submit_def Let_def split: if_splits prod.splits option.splits)

definition kept :: "job \<Rightarrow> job option \<Rightarrow> bool" where
  "kept j x = (case x of None \<Rightarrow> False | Some j' \<Rightarrow> moves j j')"

lemma Transition_moves:
  "Transition save now k to opts st = (r, st') \<Longrightarrow> js_jobs st i = Some j \<Longrightarrow>
   kept j (js_jobs st' i)"
  by (auto simp: Transition_def Let_def kept_def moves_def same_job_def legal_move_def
      split: if_splits prod.splits option.splits)

lemma MarkLost_moves:
  "MarkLost save now k reason st = (r, st') \<Longrightarrow> js_jobs st i = Some j \<Longrightarrow>
   kept j (js_jobs st' i)"
  by (auto simp: MarkLost_def Let_def kept_def moves_def same_job_def legal_move_def
      split: if_splits prod.splits option.splits)

lemma resetToPending_moves:
  "resetToPending save k st = (r, st') \<Longrightarrow> js_jobs st i = Some j \<Longrightarrow>
   kept j (js_jobs st' i)"
  by (auto simp: resetToPending_def Let_def kept_def moves_def same_job_def legal_move_def
      split: if_splits prod.splits option.splits)

lemma RetryIfEligible_moves:
  "RetryIfEligible save now rnd k st = (b, st') \<Longrightarrow> js_jobs st i = Some j \<Longrightarrow>
   kept j (js_jobs st' i)"
  by (auto simp: RetryIfEligible_def Let_def kept_def moves_def same_job_def legal_move_def isRetryable_terminal
      split: if_splits prod.splits option.splits)

lemma updates_move:
  "UpdateResolvedInputs save k ins st = (r, st') \<Longrightarrow> js_jobs st i = Some j \<Longrightarrow>
   kept j (js_jobs st' i)"
  "UpdateShares save k shs st = (r, st') \<Longrightarrow> js_jobs st i = Some j \<Longrightarrow>
   kept j (js_jobs st' i)"
  by (auto simp: UpdateResolvedInputs_def UpdateShares_def Let_def kept_def moves_def same_job_def legal_move_def
      split: if_splits prod.splits option.splits)

context job_loader
begin

lemma restart_moves:
  assumes coh: "coh st" and enum: "enumerates ord (disk (js_persister st))"
    and rst: "Restore (load ord) (NewJobStore (js_persister st)) = (None, st')"
    and j: "js_jobs st i = Some j"
  shows "\<exists>j'. js_jobs st' i = Some j' \<and> moves j j'"
proof -
  have disk: "j_ID d = k" if "disk (js_persister st) k = Some d" for k d
    using coh [unfolded coherent_def, rule_format, of k] that
    by (cases "js_jobs st k") (auto simp: same_job_def)
  have "agree i (Some j) (disk (js_persister st) i)" using coh j by (metis coherent_def)
  then obtain d where d: "disk (js_persister st) i = Some d" "agree i (Some j) (Some d)"
    by (rule agree_SomeE)
  have "rel_option loaded_from (js_jobs st' i) (disk (js_persister st) i)"
    by (rule Restore_lookup(1) [OF enum disk rst])
  then obtain j' where j': "js_jobs st' i = Some j'" "loaded_from j' d"
    using d(1) by (cases "js_jobs st' i") auto
  have "moves j j'"
    using d(2) loaded_from_simps [OF j'(2)]
    by (auto simp: moves_def same_job_def legal_move_def status_agrees_def)
  with j' show ?thesis by blast
qed

lemma step_moves:
  assumes "js_step save load disk st st'" and "coh st" and "js_jobs st i = Some j"
  shows "\<exists>j'. js_jobs st' i = Some j' \<and> moves j j'"
proof -
  have "kept j (js_jobs st' i)"
    using assms
  proof (induction rule: js_step.induct)
    case (submit a now st r st')
    then have "js_jobs st' i = Some j" using Submit_moves by blast
    then show ?case by (simp add: kept_def)
  next
    case (restart ord st st')
    then obtain j' where "js_jobs st' i = Some j'" "moves j j'" using restart_moves by blast
    then show ?case by (simp add: kept_def)
  qed (auto intro: Transition_moves MarkLost_moves resetToPending_moves
      RetryIfEligible_moves updates_move)
  then show ?thesis by (auto simp: kept_def split: option.splits)
qed

lemma reach_moves:
  assumes "(js_step save load disk)\<^sup>*\<^sup>* st st'" and "coh st"
    and "js_jobs st i = Some j" and "P j"
    and inv: "\<And>j j'. P j \<Longrightarrow> moves j j' \<Longrightarrow> P j'"
  shows "\<exists>j'. js_jobs st' i = Some j' \<and> P j'"
proof -
  have "coh st' \<and> (\<exists>j'. js_jobs st' i = Some j' \<and> P j')"
    using assms(1)
  proof (induction rule: rtranclp_induct)
    case base
    then show ?case using assms(2-4) by blast
  next
    case (step y z)
    then obtain j' where j': "js_jobs y i = Some j'" "P j'" and c: "coh y" by blast
    from step_moves [OF step(2) c j'(1)] inv [OF j'(2)] show ?case
      using coherent_step [OF step(2) c] by blast
  qed
  then show ?thesis by blast
qed

end

section \<open>Concrete states\<close>

definition demo_job :: job where
  "demo_job = zero_job\<lparr>j_ID := ''j1'', j_Command := ''echo'', j_OwnerPrincipal := ''user:alice'',
     j_RetryPolicy := Some DefaultRetryPolicy\<rparr>"

definition demo_start :: "bool list \<Rightarrow> badger job_store" where
  "demo_start faults = NewJobStore \<lparr>bd_jobs = Map.empty, bd_keyring = None, bd_faults = faults\<rparr>"

definition demo_pending :: "bool list \<Rightarrow> badger job_store" where
  "demo_pending faults = snd (Submit bd_SaveJob 10 demo_job (demo_start (False # faults)))"

definition demo_pending_job :: job where
  "demo_pending_job = demo_job\<lparr>j_Status := JobStatusPending, j_CreatedAt := 10, j_Attempt := 1,
     j_Priority := 50\<rparr>"

abbreviation bd_step :: "badger job_store \<Rightarrow> badger job_store \<Rightarrow> bool" where
  "bd_step \<equiv> js_step bd_SaveJob bd_LoadAllJobs bd_disk"

abbreviation bd_reachable :: "badger job_store \<Rightarrow> bool" where
  "bd_reachable \<equiv> js_reachable bd_SaveJob bd_LoadAllJobs bd_disk"

lemma demo_pending_simps:
  "js_jobs (demo_pending fs) = [''j1'' \<mapsto> demo_pending_job]"
  "js_persister (demo_pending fs) =
     \<lparr>bd_jobs = [''j1'' \<mapsto> demo_pending_job], bd_keyring = None, bd_faults = fs\<rparr>"
  by (simp_all add: demo_pending_def demo_start_def Submit_def NewJobStore_def bd_SaveJob_def
      jobOnDiskCopy_def demo_job_def demo_pending_job_def zero_job_def Let_def)

lemma demo_pending_reachable: "bd_reachable (demo_pending fs)"
proof -
  have "bd_reachable (demo_start (False # fs))"
    unfolding demo_start_def by (rule js_reachable.start) (simp add: bd_disk_def)
  moreover have "bd_step (demo_start (False # fs)) (demo_pending fs)"
    unfolding demo_pending_def
    by (rule js_step.submit [where j = demo_job and now = 10, OF _ prod.collapse [symmetric]])
      (simp add: fresh_job_def demo_job_def zero_job_def)
  ultimately show ?thesis by (rule js_reachable.step)
qed

definition demo_cancelled :: "badger job_store" where
  "demo_cancelled = snd (Transition bd_SaveJob 20 ''j1'' JobStatusCancelled no_opts (demo_pending []))"

lemma demo_cancelled_step: "bd_step (demo_pending []) demo_cancelled"
  unfolding demo_cancelled_def by (rule js_step.transition [OF prod.collapse [symmetric]])

lemma demo_cancelled_jobs:
  "js_jobs demo_cancelled =
     [''j1'' \<mapsto> demo_pending_job\<lparr>j_Status := JobStatusCancelled, j_FinishedAt := 20\<rparr>]"
  by (simp add: demo_cancelled_def Transition_def demo_pending_simps demo_pending_job_def bd_SaveJob_def
      jobOnDiskCopy_def isAllowed_iff allowedTransitions_def apply_transition_def Let_def
      demo_job_def zero_job_def no_opts_def)

lemmas bd_coherent = bd.coherent_reachable

lemma moves_final:
  assumes "moves a b" and "IsTerminal (j_Status a)" and "\<not> isRetryable (j_Status a)"
  shows "j_Status b = j_Status a" and "j_OwnerPrincipal b = j_OwnerPrincipal a"
  using assms by (auto simp: moves_def same_job_def legal_move_def)

lemma transition_events_first:
  "\<exists>es. transition_events i from to snap = EvJobTransition i from to (j_NodeID snap) # es"
  by (simp add: transition_events_def)

section \<open>Properties\<close>

text \<open>C1. In every state the store can reach, whatever transactions failed and however often the
  coordinator restarted, memory and disk hold the same jobs under the same IDs with the same owner,
  and the same status; the only exception is a job that memory holds as dispatching while disk has
  it scheduled, running or retrying.\<close>

theorem memory_disk_coherent:
  assumes "js_reachable bd_SaveJob bd_LoadAllJobs bd_disk st"
  shows "dom (js_jobs st) = dom (bd_jobs (js_persister st)) \<and>
    (\<forall>i j. js_jobs st i = Some j \<longrightarrow> j_ID j = i \<and> (\<exists>d. bd_jobs (js_persister st) i = Some d \<and>
       j_ID d = i \<and> j_OwnerPrincipal j = j_OwnerPrincipal d \<and> status_agrees (j_Status j) (j_Status d) \<and>
       (IsTerminal (j_Status j) \<longleftrightarrow> IsTerminal (j_Status d))))"
proof -
  have ag: "agree i (js_jobs st i) (map_option core (bd_jobs (js_persister st) i))" for i
    using bd_coherent [OF assms] by (simp add: coherent_def bd_disk_def)
  have "js_jobs st i = None \<longleftrightarrow> bd_jobs (js_persister st) i = None" for i
    using ag [of i] by (cases "js_jobs st i"; cases "bd_jobs (js_persister st) i") auto
  then have "dom (js_jobs st) = dom (bd_jobs (js_persister st))" by (auto simp: dom_def)
  moreover have "j_ID j = i \<and> (\<exists>d. bd_jobs (js_persister st) i = Some d \<and>
       j_ID d = i \<and> j_OwnerPrincipal j = j_OwnerPrincipal d \<and> status_agrees (j_Status j) (j_Status d) \<and>
       (IsTerminal (j_Status j) \<longleftrightarrow> IsTerminal (j_Status d)))"
    if "js_jobs st i = Some j" for i j
    using ag [of i] that
    by (cases "bd_jobs (js_persister st) i") (auto simp: same_job_def status_agrees_def)
  ultimately show ?thesis by blast
qed

definition demo_failed_dispatch :: "badger job_store" where
  "demo_failed_dispatch = snd (Transition bd_SaveJob 20 ''j1'' JobStatusDispatching
     (no_opts\<lparr>t_NodeID := ''n1''\<rparr>) (demo_pending [True]))"

lemma demo_failed_dispatch_jobs:
  "js_jobs demo_failed_dispatch =
     [''j1'' \<mapsto> demo_pending_job\<lparr>j_DispatchedAt := 20, j_NodeID := ''n1''\<rparr>]"
  "bd_jobs (js_persister demo_failed_dispatch) = [''j1'' \<mapsto> demo_pending_job]"
  by (simp_all add: demo_failed_dispatch_def Transition_def demo_pending_simps demo_pending_job_def
      bd_SaveJob_def jobOnDiskCopy_def isAllowed_iff allowedTransitions_def apply_transition_def Let_def
      demo_job_def zero_job_def no_opts_def)

theorem memory_disk_coherent_witness:
  "dom (js_jobs demo_failed_dispatch) = dom (bd_jobs (js_persister demo_failed_dispatch)) \<and>
   js_jobs demo_failed_dispatch ''j1'' \<noteq> None"
proof -
  have "bd_step (demo_pending [True]) demo_failed_dispatch"
    unfolding demo_failed_dispatch_def by (rule js_step.transition [OF prod.collapse [symmetric]])
  with demo_pending_reachable have "bd_reachable demo_failed_dispatch" by (rule js_reachable.step)
  from memory_disk_coherent [OF this] show ?thesis by (simp add: demo_failed_dispatch_jobs)
qed

text \<open>C2. A job that is completed, cancelled, lost or skipped keeps that status and its owner for
  ever: no sequence of operations, failed saves and restarts changes them, and the job never
  disappears from the store.\<close>

theorem final_status_is_final:
  assumes "js_reachable bd_SaveJob bd_LoadAllJobs bd_disk st"
    and "(js_step bd_SaveJob bd_LoadAllJobs bd_disk)\<^sup>*\<^sup>* st st'" and "js_jobs st i = Some j"
    and "j_Status j \<in> {JobStatusCompleted, JobStatusCancelled, JobStatusLost, JobStatusSkipped}"
  shows "\<exists>j'. js_jobs st' i = Some j' \<and> j_Status j' = j_Status j \<and>
    j_OwnerPrincipal j' = j_OwnerPrincipal j"
proof -
  let ?P = "\<lambda>j'. j_Status j' = j_Status j \<and> j_OwnerPrincipal j' = j_OwnerPrincipal j"
  have t: "IsTerminal (j_Status j)" "\<not> isRetryable (j_Status j)"
    using assms(4) by (auto simp: isRetryable_def)
  have inv: "?P b" if "?P a" "moves a b" for a b
    using moves_final [OF that(2)] that(1) t by metis
  show ?thesis
    by (rule bd.reach_moves [where P = ?P, OF assms(2) bd_coherent [OF assms(1)] assms(3) _ inv]) simp_all
qed

theorem final_status_is_final_witness:
  "\<exists>j'. js_jobs (snd (RetryIfEligible bd_SaveJob 30 id ''j1'' demo_cancelled)) ''j1'' = Some j' \<and>
     j_Status j' = JobStatusCancelled"
proof -
  have r: "bd_reachable demo_cancelled"
    using demo_pending_reachable demo_cancelled_step by (rule js_reachable.step)
  have "bd_step demo_cancelled (snd (RetryIfEligible bd_SaveJob 30 id ''j1'' demo_cancelled))"
    by (rule js_step.retry [OF prod.collapse [symmetric]])
  from final_status_is_final [OF r r_into_rtranclp [where r = bd_step, OF this], of "''j1''"]
  show ?thesis by (auto simp: demo_cancelled_jobs)
qed

text \<open>C3. A step moves a job only along the life cycle: it becomes completed only from running, and
  timed out only from running; a terminal job changes status only when it failed or timed out and its
  policy still grants an attempt, and then only to retrying or pending.\<close>

theorem life_cycle_respected:
  assumes "js_reachable bd_SaveJob bd_LoadAllJobs bd_disk st"
    and "js_step bd_SaveJob bd_LoadAllJobs bd_disk st st'"
    and "js_jobs st i = Some j" and "js_jobs st' i = Some j'" and "j_Status j' \<noteq> j_Status j"
  shows "(j_Status j' \<in> {JobStatusCompleted, JobStatusTimeout} \<longrightarrow> j_Status j = JobStatusRunning) \<and>
    (IsTerminal (j_Status j) \<longrightarrow> j_Status j \<in> {JobStatusFailed, JobStatusTimeout} \<and> ShouldRetry j \<and>
       j_Status j' \<in> {JobStatusRetrying, JobStatusPending})"
proof -
  from bd.step_moves [OF assms(2) bd_coherent [OF assms(1)] assms(3)] assms(4)
  have "moves j j'" by simp
  then have lm: "legal_move (j_Status j) (j_Status j')"
    and sr: "IsTerminal (j_Status j) \<Longrightarrow> ShouldRetry j" using assms(5) by (auto simp: moves_def)
  have "j_Status j = JobStatusRunning" if "j_Status j' \<in> {JobStatusCompleted, JobStatusTimeout}"
    using lm assms(5) that by (cases "j_Status j")
      (auto simp: legal_move_def isAllowed_iff allowedTransitions_def status_agrees_def)
  moreover have "j_Status j \<in> {JobStatusFailed, JobStatusTimeout} \<and>
       j_Status j' \<in> {JobStatusRetrying, JobStatusPending}" if "IsTerminal (j_Status j)"
    using lm assms(5) that by (auto simp: legal_move_def isRetryable_def)
  ultimately show ?thesis using sr by blast
qed

theorem life_cycle_respected_witness:
  "\<exists>j. js_jobs demo_cancelled ''j1'' = Some j \<and> j_Status j \<noteq> JobStatusPending \<and>
     j_Status j \<notin> {JobStatusCompleted, JobStatusTimeout}"
  using life_cycle_respected [OF demo_pending_reachable demo_cancelled_step, of "''j1''"]
  by (simp add: demo_cancelled_jobs demo_pending_simps demo_pending_job_def)

text \<open>Retries are bounded: the attempt counter of a job is at least one and never exceeds the
  maximum of its policy (one, without a policy), so it cannot wrap around.\<close>

theorem attempts_bounded:
  assumes "js_reachable bd_SaveJob bd_LoadAllJobs bd_disk st" and "js_jobs st i = Some j"
  shows "1 \<le> j_Attempt j \<and>
    j_Attempt j \<le> (case j_RetryPolicy j of None \<Rightarrow> 1 | Some p \<Rightarrow> max 1 (rp_MaxAttempts p))"
  using bd.coherent_attempt [OF bd_coherent [OF assms(1)] assms(2)] by (simp add: attempt_ok_def)

theorem attempts_bounded_witness:
  "\<exists>j. js_jobs (demo_pending []) ''j1'' = Some j \<and> 1 \<le> j_Attempt j"
  using attempts_bounded [OF demo_pending_reachable, of "[]" "''j1''" demo_pending_job]
  by (simp add: demo_pending_simps)

text \<open>A transition that reports success found the job in a state the table allows to leave, put
  it into the requested state in memory and on disk, touched no other job, and published the
  transition as its first event. One that reports an error changed no status in memory, nothing on
  disk, and published and audited nothing.\<close>

theorem Transition_outcome:
  assumes "Transition bd_SaveJob now i to opts st = (r, st')"
  shows "(r = None \<longrightarrow> (\<exists>j j' es. js_jobs st i = Some j \<and> \<not> IsTerminal (j_Status j) \<and>
           to \<in> set (allowedTransitions (j_Status j)) \<and> js_jobs st' = (js_jobs st)(i \<mapsto> j') \<and>
           j_Status j' = to \<and> bd_disk (js_persister st') = (bd_disk (js_persister st))(j_ID j \<mapsto> core j') \<and>
           js_events st' = js_events st @ EvJobTransition i (j_Status j) to (j_NodeID j') # es)) \<and>
    (r \<noteq> None \<longrightarrow> js_events st' = js_events st \<and> js_audit st' = js_audit st \<and>
       bd_disk (js_persister st') = bd_disk (js_persister st) \<and>
       (\<forall>k. map_option j_Status (js_jobs st' k) = map_option j_Status (js_jobs st k)))"
proof (cases "\<exists>j. js_jobs st i = Some j \<and> \<not> IsTerminal (j_Status j) \<and> isAllowed (j_Status j) to")
  case False
  then have "r \<noteq> None" "st' = st" using assms by (auto simp: Transition_def Let_def split: option.splits if_splits)
  then show ?thesis by simp
next
  case True
  then obtain j where j: "js_jobs st i = Some j" "\<not> IsTerminal (j_Status j)" "isAllowed (j_Status j) to"
    by blast
  let ?j = "apply_transition now to opts j"
  obtain r' p' where sv: "bd_SaveJob (js_persister st) ?j = (r', p')" by fastforce
  then show ?thesis
  proof (cases rule: bd.save_cases)
    case ok
    then have r: "r = None" "js_jobs st' = (js_jobs st)(i \<mapsto> ?j)" "js_persister st' = p'"
      "js_events st' = js_events st @ transition_events i (j_Status j) to ?j"
      using assms j sv
      by (auto simp: Transition_def Let_def fold_publishEvent_events appendAuditAsync_def)
    obtain es where "transition_events i (j_Status j) to ?j =
        EvJobTransition i (j_Status j) to (j_NodeID ?j) # es"
      using transition_events_first by blast
    then have "js_jobs st i = Some j \<and> \<not> IsTerminal (j_Status j) \<and>
           to \<in> set (allowedTransitions (j_Status j)) \<and> js_jobs st' = (js_jobs st)(i \<mapsto> ?j) \<and>
           j_Status ?j = to \<and> bd_disk (js_persister st') = (bd_disk (js_persister st))(j_ID j \<mapsto> core ?j) \<and>
           js_events st' = js_events st @ EvJobTransition i (j_Status j) to (j_NodeID ?j) # es"
      using r ok j by (simp add: isAllowed_iff)
    with r(1) show ?thesis by blast
  next
    case (err e)
    then show ?thesis using assms j sv by (auto simp: Transition_def Let_def)
  qed
qed

theorem Transition_outcome_witness:
  "js_events demo_failed_dispatch = js_events (demo_pending [True]) \<and>
   bd_disk (js_persister demo_failed_dispatch) = bd_disk (js_persister (demo_pending [True]))"
  using Transition_outcome [of 20 "''j1''" JobStatusDispatching "no_opts\<lparr>t_NodeID := ''n1''\<rparr>" "demo_pending [True]"
      "Some (ErrPersist TransactionFailed)" demo_failed_dispatch]
  by (simp add: demo_failed_dispatch_def Transition_def demo_pending_simps demo_pending_job_def
      bd_SaveJob_def jobOnDiskCopy_def isAllowed_iff allowedTransitions_def Let_def)

text \<open>The rollback of a failed transition is partial: a dispatch whose save fails leaves the
  chosen node and the dispatch time on the job in memory, although disk still has neither and the
  job is pending.\<close>

theorem failed_dispatch_leaves_node:
  "\<exists>j d. js_jobs demo_failed_dispatch ''j1'' = Some j \<and> j_Status j = JobStatusPending \<and>
     bd_jobs (js_persister demo_failed_dispatch) ''j1'' = Some d \<and>
     j_NodeID j = ''n1'' \<and> j_DispatchedAt j = 20 \<and> j_NodeID d = [] \<and> IsZero (j_DispatchedAt d)"
  by (simp add: demo_failed_dispatch_jobs demo_pending_job_def demo_job_def zero_job_def IsZero_def)

text \<open>A cancellation that reports success leaves the job terminal, also when other callers change
  the store between the check and the write. With no such interference the job ends cancelled or
  lost, and the state machine never rejects the move.\<close>

theorem CancelJob_ends:
  assumes "CancelJob bd_SaveJob now interf i reason st = (r, st')"
  shows "(r = None \<longrightarrow> (\<exists>j'. js_jobs st' i = Some j' \<and> IsTerminal (j_Status j'))) \<and>
    (interf = id \<longrightarrow> r \<noteq> Some ErrInvalidTransition \<and>
       (r = None \<longrightarrow> (\<exists>j'. js_jobs st' i = Some j' \<and> j_Status j' \<in> {JobStatusCancelled, JobStatusLost})))"
proof (cases "cancel_plan i st")
  case (Inl e)
  then show ?thesis using assms
    by (auto simp: CancelJob_def cancel_plan_def split: option.splits if_splits)
next
  case (Inr direct)
  show ?thesis
  proof (cases direct)
    case True
    then have "Transition bd_SaveJob now i JobStatusCancelled (no_opts\<lparr>t_ErrMsg := reason\<rparr>) (interf st) = (r, st')"
      using assms Inr by (simp add: CancelJob_def)
    then show ?thesis using Inr True
      by (auto simp: Transition_def cancel_plan_def Let_def split: option.splits if_splits prod.splits)
  next
    case False
    then have "MarkLost bd_SaveJob now i (''cancelled: '' @ reason) (interf st) = (r, st')"
      using assms Inr by (simp add: CancelJob_def)
    then show ?thesis using Inr False
      by (auto simp: MarkLost_def cancel_plan_def Let_def split: option.splits if_splits prod.splits)
  qed
qed

theorem CancelJob_ends_witness:
  "\<exists>j'. js_jobs (snd (CancelJob bd_SaveJob 20 id ''j1'' ''stop'' (demo_pending []))) ''j1'' = Some j' \<and>
     j_Status j' \<in> {JobStatusCancelled, JobStatusLost}"
proof -
  have "fst (CancelJob bd_SaveJob 20 id ''j1'' ''stop'' (demo_pending [])) = None"
    by (simp add: CancelJob_def cancel_plan_def Transition_def demo_pending_simps demo_pending_job_def
        bd_SaveJob_def jobOnDiskCopy_def isAllowed_iff allowedTransitions_def Let_def)
  with CancelJob_ends [OF prod.collapse [symmetric], of 20 id "''j1''" "''stop''" "demo_pending []"]
  show ?thesis by simp
qed

lemma prio_less_key: "prio_less now a b \<longleftrightarrow> prio_key now a < prio_key now b"
  by (auto simp: prio_less_def prio_key_def Let_def word_less_def word_uint_eq_iff)

lemma mset_insert_by: "mset (insert_by lt x ys) = add_mset x (mset ys)"
  by (induction ys) auto

lemma mset_sort_Slice: "mset (sort_Slice lt xs) = mset xs"
  by (induction xs) (simp_all add: sort_Slice_def mset_insert_by)

lemma sorted_insert_by:
  assumes lt: "\<And>a b. lt a b \<longleftrightarrow> (f a :: 'k :: linorder) < f b" and "sorted (map f ys)"
  shows "sorted (map f (insert_by lt x ys))"
  using assms(2)
proof (induction ys)
  case (Cons y ys)
  have "set (insert_by lt x ys) = insert x (set ys)"
    by (metis mset_insert_by set_mset_add_mset_insert set_mset_mset)
  with Cons show ?case using lt [of y x] by (auto simp: not_less)
qed simp

lemma sorted_sort_Slice:
  assumes "\<And>a b. lt a b \<longleftrightarrow> (f a :: 'k :: linorder) < f b"
  shows "sorted (map f (sort_Slice lt xs))"
  by (induction xs) (simp_all add: sort_Slice_def sorted_insert_by [OF assms])

lemma EffectivePriority_le: "EffectivePriority now j \<le> 100"
  unfolding EffectivePriority_def Let_def by (auto simp only: not_less split: if_split)

text \<open>The dispatch queue holds exactly the pending jobs, each once, whatever order the map is
  visited in; a job never stands behind one of lower effective priority, nor, at equal effective
  priority, behind a younger one; effective priorities never exceed 100.\<close>

theorem pending_queue_order:
  assumes "enumerates ord (js_jobs st)"
  shows "mset (PendingByPriority now ord st) =
      image_mset (\<lambda>i. the (js_jobs st i)) (mset_set {i. \<exists>j. js_jobs st i = Some j \<and> j_Status j = JobStatusPending}) \<and>
    sorted_wrt (\<lambda>a b. EffectivePriority now b < EffectivePriority now a \<or>
      EffectivePriority now a = EffectivePriority now b \<and> j_CreatedAt a \<le> j_CreatedAt b)
      (PendingByPriority now ord st) \<and>
    (\<forall>j. EffectivePriority now j \<le> 100)"
proof -
  have "sorted (map (prio_key now) (PendingByPriority now ord st))"
    unfolding PendingByPriority_def by (rule sorted_sort_Slice) (rule prio_less_key)
  then have "sorted_wrt (\<lambda>a b. prio_key now a \<le> prio_key now b) (PendingByPriority now ord st)"
    by (simp add: sorted_map)
  then have ord: "sorted_wrt (\<lambda>a b. EffectivePriority now b < EffectivePriority now a \<or>
      EffectivePriority now a = EffectivePriority now b \<and> j_CreatedAt a \<le> j_CreatedAt b)
      (PendingByPriority now ord st)"
    by (rule sorted_wrt_mono_rel [rotated])
      (auto simp: prio_key_def word_less_def word_uint_eq_iff)
  have dom: "set ord = dom (js_jobs st)" "distinct ord" using assms by (auto simp: enumerates_def)
  then have "{i. \<exists>j. js_jobs st i = Some j \<and> j_Status j = JobStatusPending} =
      set (filter (\<lambda>i. j_Status (the (js_jobs st i)) = JobStatusPending) ord)" by force
  then have "mset_set {i. \<exists>j. js_jobs st i = Some j \<and> j_Status j = JobStatusPending} =
      mset (filter (\<lambda>i. j_Status (the (js_jobs st i)) = JobStatusPending) ord)"
    using mset_set_set [OF distinct_filter [OF dom(2)]] by simp
  then show ?thesis using ord EffectivePriority_le
    by (simp add: PendingByPriority_def mset_sort_Slice range_values_def filter_map o_def)
qed

theorem pending_queue_order_witness:
  "sorted_wrt (\<lambda>a b. EffectivePriority 100 b < EffectivePriority 100 a \<or>
      EffectivePriority 100 a = EffectivePriority 100 b \<and> j_CreatedAt a \<le> j_CreatedAt b)
    (PendingByPriority 100 [''j1''] (demo_pending [])) \<and> length (PendingByPriority 100 [''j1''] (demo_pending [])) = 1"
proof -
  have "enumerates [''j1''] (js_jobs (demo_pending []))" by (simp add: enumerates_def demo_pending_simps)
  from pending_queue_order [OF this, of 100] show ?thesis
    by (simp add: PendingByPriority_def sort_Slice_def range_values_def demo_pending_simps demo_pending_job_def)
qed

end
