(* ===== verification/Dag.thy ===== *)
theory Dag
  imports Job_Types "HOL-Library.Multiset"
begin

text \<open>
  The graph algorithms of \<open>internal/cluster/dag.go\<close> on the jobs of a workflow: Kahn's topological
  sort, the breadth-first descendants, the depth-first ancestors, the validation of a workflow's
  graph and of its artifact references. A map the code fills in a first loop (\<open>inDegree\<close>,
  \<open>downstream\<close>, \<open>byName\<close>) is the function the loop leaves behind; the map Kahn's loop then updates
  is an association list.

  The lemmas relate the loops to the dependency relation \<open>dep_rel\<close>: the sort succeeds exactly on
  acyclic graphs and lists every job after its dependencies; descendants and ancestors are the
  transitive closure; validation accepts exactly the well-formed graphs.
\<close>

section \<open>Definitions\<close>

datatype dag_error = ErrDAGCycle "string list" | ErrDAGUnknownDep string string
  | ErrDAGDuplicateName string | ErrDAGEmptyName | ErrDAGSelfDep string
  | ErrDAGUnknownFrom string string string | ErrDAGFromNotAncestor string string string
  | ErrDAGFromUnknownOutput string string string string
  | ErrDAGFromConditionUnreachable string string string
  | ErrDAGFromShape string string

definition names :: "workflow_job list \<Rightarrow> string list" where
  "names jobs = map wj_Name jobs"

definition byName :: "workflow_job list \<Rightarrow> string \<Rightarrow> workflow_job option" where
  "byName jobs n = List.find (\<lambda>j. wj_Name j = n) (rev jobs)"

definition downstream :: "workflow_job list \<Rightarrow> string \<Rightarrow> string list" where
  "downstream jobs d =
     concat (map (\<lambda>j. replicate (count_list (wj_DependsOn j) d) (wj_Name j)) jobs)"

subsection \<open>Topological sort\<close>

definition deg :: "(string \<times> int) list \<Rightarrow> string \<Rightarrow> int" where
  "deg m n = (case map_of m n of None \<Rightarrow> 0 | Some d \<Rightarrow> d)"

definition inDegree :: "workflow_job list \<Rightarrow> (string \<times> int) list" where
  "inDegree jobs = fold (\<lambda>j m. AList.update (wj_Name j) (deg m (wj_Name j) + int (length (wj_DependsOn j))) m)
     jobs []"

fun relax :: "string list \<Rightarrow> (string \<times> int) list \<Rightarrow> string list \<Rightarrow> (string \<times> int) list \<times> string list" where
  "relax [] m queue = (m, queue)"
| "relax (child # cs) m queue =
     (let m = AList.update child (deg m child - 1) m in
      relax cs m (if deg m child = 0 then queue @ [child] else queue))"

definition pending_degree :: "(string \<times> int) list \<Rightarrow> nat" where
  "pending_degree m = sum_list (map (\<lambda>(n, d). nat d) m)"

lemma pending_degree_update:
  "pending_degree (AList.update n d m) + nat (deg m n) = pending_degree m + nat d"
  by (induction m) (auto simp: pending_degree_def deg_def)

lemma relax_measure:
  "relax cs m queue = (m', queue') \<Longrightarrow>
   length queue' + pending_degree m' \<le> length queue + pending_degree m"
proof (induction cs m queue rule: relax.induct)
  case (2 child cs m queue)
  have "pending_degree (AList.update child (deg m child - 1) m) + nat (deg m child)
      = pending_degree m + nat (deg m child - 1)" by (rule pending_degree_update)
  with 2 show ?case
    by (cases "deg m child = 1") (fastforce simp: Let_def deg_def update_conv' split: if_splits)+
qed simp

function kahn :: "workflow_job list \<Rightarrow> (string \<times> int) list \<Rightarrow> string list \<Rightarrow> string list
    \<Rightarrow> (string \<times> int) list \<times> string list" where
  "kahn jobs m [] srt = (m, srt)"
| "kahn jobs m (name # queue) srt =
     (let (m', queue') = relax (downstream jobs name) m queue in kahn jobs m' queue' (srt @ [name]))"
  by pat_completeness auto
termination
  by (relation "measure (\<lambda>(jobs, m, queue, srt). length queue + pending_degree m)")
    (auto dest!: sym [THEN relax_measure])

definition TopologicalSort :: "workflow_job list \<Rightarrow> dag_error + string list" where
  "TopologicalSort jobs =
     (let m = inDegree jobs;
          queue = filter (\<lambda>n. deg m n = 0) (names jobs);
          (m', srt) = kahn jobs m queue []
      in if length srt \<noteq> length jobs
         then Inl (ErrDAGCycle (map fst (filter (\<lambda>(n, d). 0 < d) m')))
         else Inr srt)"

subsection \<open>Descendants, roots\<close>

fun visit :: "string list \<Rightarrow> string list \<Rightarrow> string list \<Rightarrow> string list \<times> string list" where
  "visit [] result queue = (result, queue)"
| "visit (c # cs) result queue =
     (if c \<notin> set result then visit cs (result @ [c]) (queue @ [c]) else visit cs result queue)"

lemma visit_measure:
  "visit cs result queue = (result', queue') \<Longrightarrow> set cs \<subseteq> A \<Longrightarrow> finite A \<Longrightarrow>
   length queue' + card (A - set result') \<le> length queue + card (A - set result)"
proof (induction cs result queue rule: visit.induct)
  case (2 c cs result queue)
  show ?case
  proof (cases "c \<in> set result")
    case False
    have "A - set (result @ [c]) = (A - set result) - {c}" by auto
    moreover have "0 < card (A - set result)" using False 2(4,5) by (auto simp: card_gt_0_iff)
    moreover have "c \<in> A - set result" using False 2(4) by auto
    ultimately have "Suc (card (A - set (result @ [c]))) = card (A - set result)"
      using 2(5) by (simp add: card_Diff_singleton)
    with False 2 show ?thesis by auto
  qed (use 2 in auto)
qed simp

lemma set_downstream: "set (downstream jobs d) = {n. \<exists>j \<in> set jobs. wj_Name j = n \<and> d \<in> set (wj_DependsOn j)}"
  by (auto simp: downstream_def set_replicate_conv_if count_list_0_iff split: if_splits)

text \<open>The visited set of the code holds exactly the names appended to the result.\<close>

function bfs :: "workflow_job list \<Rightarrow> string list \<Rightarrow> string list \<Rightarrow> string list" where
  "bfs jobs [] result = result"
| "bfs jobs (cur # queue) result =
     (let (result', queue') = visit (downstream jobs cur) result queue in bfs jobs queue' result')"
  by pat_completeness auto
termination
proof (relation "measure (\<lambda>(jobs, queue, result). length queue + card (set (names jobs) - set result))", goal_cases)
  case (2 jobs cur queue result x result' queue')
  have "set (downstream jobs cur) \<subseteq> set (names jobs)" by (auto simp: set_downstream names_def)
  from visit_measure [OF _ this, of result queue result' queue'] 2 show ?case by simp
qed simp

definition Descendants :: "workflow_job list \<Rightarrow> string \<Rightarrow> string list" where
  "Descendants jobs name = bfs jobs [name] []"

definition RootJobs :: "workflow_job list \<Rightarrow> string list" where
  "RootJobs jobs = map wj_Name (filter (\<lambda>j. wj_DependsOn j = []) jobs)"

subsection \<open>Validation\<close>

definition splitDotRef :: "string \<Rightarrow> string \<times> string" where
  "splitDotRef ref =
     (if ref = [] then ([], [])
      else let dot = LastIndexByte ref (CHR ''.'') in
        if dot \<le> 0 \<or> dot = int (length ref) - 1 then ([], [])
        else (take (nat dot) ref, drop (nat dot + 1) ref))"

lemma byName_in: "byName jobs n = Some j \<Longrightarrow> j \<in> set jobs \<and> wj_Name j = n"
  unfolding byName_def by (drule find_SomeD) simp

lemma byName_None: "byName jobs n = None \<longleftrightarrow> n \<notin> set (names jobs)"
  by (auto simp: byName_def find_None_iff_all names_def)

text \<open>The stack is a list whose head is the code's last element.\<close>

function dfs :: "workflow_job list \<Rightarrow> string list \<Rightarrow> string list \<Rightarrow> string list" where
  "dfs jobs [] seen = seen"
| "dfs jobs (n # stack) seen =
     (if n \<in> set seen then dfs jobs stack seen
      else dfs jobs ((case byName jobs n of None \<Rightarrow> [] | Some up \<Rightarrow> rev (wj_DependsOn up)) @ stack)
             (n # seen))"
  by pat_completeness auto
termination
proof (relation "measures [\<lambda>(jobs, stack, seen). card (set (names jobs) - set seen),
      \<lambda>(jobs, stack, seen). length stack]", goal_cases)
  case (3 jobs n stack seen)
  show ?case
  proof (cases "byName jobs n")
    case None
    then have "set (names jobs) - set (n # seen) = set (names jobs) - set seen"
      by (auto simp: byName_None)
    with None show ?thesis by simp
  next
    case (Some up)
    then have "n \<in> set (names jobs)" using byName_None [of jobs n] by auto
    with 3 have "card (set (names jobs) - set (n # seen)) < card (set (names jobs) - set seen)"
      by (intro psubset_card_mono) auto
    then show ?thesis by simp
  qed
qed auto

definition ancestorsOf :: "workflow_job list \<Rightarrow> string \<Rightarrow> string list" where
  "ancestorsOf jobs target =
     dfs jobs (case byName jobs target of None \<Rightarrow> [] | Some j \<Rightarrow> rev (wj_DependsOn j)) []"

fun check_names :: "workflow_job list \<Rightarrow> string list \<Rightarrow> dag_error option" where
  "check_names [] seen = None"
| "check_names (j # js) seen =
     (if wj_Name j = [] then Some ErrDAGEmptyName
      else if wj_Name j \<in> set seen then Some (ErrDAGDuplicateName (wj_Name j))
      else check_names js (wj_Name j # seen))"

fun check_deps :: "string \<Rightarrow> string list \<Rightarrow> string list \<Rightarrow> dag_error option" where
  "check_deps n known [] = None"
| "check_deps n known (d # ds) =
     (if d = n then Some (ErrDAGSelfDep n)
      else if d \<notin> set known then Some (ErrDAGUnknownDep n d)
      else check_deps n known ds)"

fun first_error :: "('a \<Rightarrow> 'e option) \<Rightarrow> 'a list \<Rightarrow> 'e option" where
  "first_error f [] = None"
| "first_error f (x # xs) = (case f x of Some e \<Rightarrow> Some e | None \<Rightarrow> first_error f xs)"

definition check_from :: "workflow_job list \<Rightarrow> workflow_job \<Rightarrow> artifact_binding \<Rightarrow> dag_error option" where
  "check_from jobs j inp =
     (if b_From inp = [] then None
      else if wj_Condition j \<noteq> DependencyOnSuccess
        then Some (ErrDAGFromConditionUnreachable (wj_Name j) (b_Name inp) (b_From inp))
      else let (upstream, outName) = splitDotRef (b_From inp) in
        if upstream = [] then Some (ErrDAGFromShape (wj_Name j) (b_Name inp))
        else case byName jobs upstream of
            None \<Rightarrow> Some (ErrDAGUnknownFrom (wj_Name j) (b_Name inp) upstream)
          | Some upJob \<Rightarrow>
              if upstream \<notin> set (ancestorsOf jobs (wj_Name j))
                then Some (ErrDAGFromNotAncestor (wj_Name j) (b_Name inp) upstream)
              else if \<not> list_ex (\<lambda>out. b_Name out = outName) (wj_Outputs upJob)
                then Some (ErrDAGFromUnknownOutput (wj_Name j) (b_Name inp) upstream outName)
              else None)"

definition validateFromReferences :: "workflow_job list \<Rightarrow> dag_error option" where
  "validateFromReferences jobs =
     first_error (\<lambda>j. first_error (check_from jobs j) (wj_Inputs j)) jobs"

definition ValidateDAG :: "workflow_job list \<Rightarrow> dag_error option" where
  "ValidateDAG jobs =
     (if jobs = [] then None
      else case check_names jobs [] of
          Some e \<Rightarrow> Some e
        | None \<Rightarrow> (case first_error (\<lambda>j. check_deps (wj_Name j) (names jobs) (wj_DependsOn j)) jobs of
              Some e \<Rightarrow> Some e
            | None \<Rightarrow> (case TopologicalSort jobs of
                  Inl e \<Rightarrow> Some e
                | Inr _ \<Rightarrow> validateFromReferences jobs)))"

section \<open>The dependency relation\<close>

definition dep_rel :: "workflow_job list \<Rightarrow> (string \<times> string) set" where
  "dep_rel jobs = {(d, n). \<exists>j \<in> set jobs. wj_Name j = n \<and> d \<in> set (wj_DependsOn j)}"

definition ndeps :: "workflow_job list \<Rightarrow> string \<Rightarrow> string list" where
  "ndeps jobs n = concat (map wj_DependsOn (filter (\<lambda>j. wj_Name j = n) jobs))"

lemma dep_rel_ndeps: "(d, n) \<in> dep_rel jobs \<longleftrightarrow> d \<in> set (ndeps jobs n)"
  by (auto simp: dep_rel_def ndeps_def)

lemma dep_rel_downstream: "(d, n) \<in> dep_rel jobs \<longleftrightarrow> n \<in> set (downstream jobs d)"
  by (auto simp: dep_rel_def set_downstream)

lemma finite_dep_rel: "finite (dep_rel jobs)"
proof -
  have "dep_rel jobs = (\<Union>j \<in> set jobs. (\<lambda>d. (d, wj_Name j)) ` set (wj_DependsOn j))"
    by (auto simp: dep_rel_def)
  then show ?thesis by simp
qed

section \<open>Kahn's algorithm\<close>

lemma deg_update: "deg (AList.update k d m) n = (if n = k then d else deg m n)"
  by (simp add: deg_def update_conv')

lemma deg_fold:
  "deg (fold (\<lambda>j m. AList.update (wj_Name j) (deg m (wj_Name j) + int (length (wj_DependsOn j))) m) jobs m) n
   = deg m n + int (length (ndeps jobs n))"
  by (induction jobs arbitrary: m) (simp_all add: deg_update ndeps_def)

lemma deg_inDegree: "deg (inDegree jobs) n = int (length (ndeps jobs n))"
  by (simp add: inDegree_def deg_fold) (simp add: deg_def)

lemma count_list_replicate: "count_list (replicate k a) n = (if a = n then k else 0)"
  by (induction k) auto

lemma count_downstream: "count_list (downstream jobs d) n = count_list (ndeps jobs n) d"
  by (induction jobs) (auto simp: downstream_def ndeps_def count_list_replicate)

lemma filter_notin_insert:
  "x \<notin> S \<Longrightarrow> length (filter (\<lambda>d. d \<notin> S) ds) =
     length (filter (\<lambda>d. d \<notin> insert x S) ds) + count_list ds x"
  by (induction ds) auto

lemma relax_spec:
  "relax cs m q = (m', q') \<Longrightarrow> (\<And>n. int (count_list cs n) \<le> deg m n) \<Longrightarrow>
   (\<forall>n. deg m' n = deg m n - int (count_list cs n)) \<and>
   (\<exists>new. q' = q @ new \<and> distinct new \<and> set new = {n \<in> set cs. deg m n = int (count_list cs n)})"
proof (induction cs m q rule: relax.induct)
  case (2 c cs m q)
  let ?m = "AList.update c (deg m c - 1) m"
  let ?q = "if deg ?m c = 0 then q @ [c] else q"
  have bound: "int (count_list cs n) \<le> deg ?m n" for n
    using 2(3) [of n] by (auto simp: deg_update split: if_splits)
  have rec: "relax cs ?m ?q = (m', q')" using 2(2) by (simp add: Let_def)
  from 2(1) [OF refl rec bound] obtain new
    where degs: "\<forall>n. deg m' n = deg ?m n - int (count_list cs n)"
      and q': "q' = ?q @ new" "distinct new" "set new = {n \<in> set cs. deg ?m n = int (count_list cs n)}"
    by blast
  let ?new = "(if deg m c = 1 then [c] else []) @ new"
  have zero: "count_list cs c = 0 \<longleftrightarrow> c \<notin> set cs" by (simp add: count_list_0_iff)
  have "q' = q @ ?new" using q'(1) by (simp add: deg_update)
  moreover have "distinct ?new"
    using q'(2,3) bound [of c] zero by (auto simp: deg_update)
  moreover have "n \<in> set ?new \<longleftrightarrow> n \<in> set (c # cs) \<and> deg m n = int (count_list (c # cs) n)" for n
  proof -
    have "n \<in> set new \<longleftrightarrow> n \<in> set cs \<and> deg ?m n = int (count_list cs n)" using q'(3) by blast
    moreover have "0 \<le> deg m c - 1" "c \<notin> set cs \<Longrightarrow> count_list cs c = 0"
      "count_list cs c = 0 \<Longrightarrow> c \<notin> set cs" using bound [of c] zero by (simp_all add: deg_update)
    ultimately show ?thesis using bound [of c]
      by (cases "n = c"; cases "deg m c = 1"; cases "c \<in> set cs") (auto simp: deg_update)
  qed
  then have "set ?new = {n \<in> set (c # cs). deg m n = int (count_list (c # cs) n)}" by blast
  ultimately have "\<exists>new'. q' = q @ new' \<and> distinct new' \<and>
      set new' = {n \<in> set (c # cs). deg m n = int (count_list (c # cs) n)}" by blast
  moreover have "\<forall>n. deg m' n = deg m n - int (count_list (c # cs) n)"
    using degs by (simp add: deg_update)
  ultimately show ?case by blast
qed simp

definition topo_ok :: "workflow_job list \<Rightarrow> string list \<Rightarrow> bool" where
  "topo_ok jobs srt \<longleftrightarrow> (\<forall>ys x zs. srt = ys @ x # zs \<longrightarrow> set (ndeps jobs x) \<subseteq> set ys)"

lemma topo_okD: "topo_ok jobs (ys @ x # zs) \<Longrightarrow> d \<in> set (ndeps jobs x) \<Longrightarrow> d \<in> set ys"
  by (auto simp: topo_ok_def)

lemma topo_ok_snoc:
  assumes "topo_ok jobs srt" and "set (ndeps jobs x) \<subseteq> set srt"
  shows "topo_ok jobs (srt @ [x])"
  unfolding topo_ok_def
proof (intro allI impI)
  fix ys y zs assume eq: "srt @ [x] = ys @ y # zs"
  show "set (ndeps jobs y) \<subseteq> set ys"
    using eq assms by (cases zs rule: rev_cases) (auto simp: topo_ok_def)
qed

definition kahn_inv :: "workflow_job list \<Rightarrow> (string \<times> int) list \<Rightarrow> string list \<Rightarrow> string list \<Rightarrow> bool" where
  "kahn_inv jobs m queue srt \<longleftrightarrow> distinct (srt @ queue) \<and> set srt \<subseteq> set (names jobs) \<and>
     (\<forall>n. deg m n = int (length (filter (\<lambda>d. d \<notin> set srt) (ndeps jobs n)))) \<and>
     set queue = {n \<in> set (names jobs). deg m n = 0} - set srt \<and>
     topo_ok jobs srt"

lemma ndeps_named: "d \<in> set (ndeps jobs n) \<Longrightarrow> n \<in> set (names jobs)"
  by (auto simp: ndeps_def names_def)

lemma kahn_inv_step:
  assumes inv: "kahn_inv jobs m (x # q) srt" and rl: "relax (downstream jobs x) m q = (m', q')"
  shows "kahn_inv jobs m' q' (srt @ [x])"
proof -
  have x: "x \<notin> set srt" "x \<in> set (names jobs)" "deg m x = 0"
    and dist: "distinct srt" "distinct q" "set srt \<inter> set q = {}" "x \<notin> set q"
    and q: "insert x (set q) = {n \<in> set (names jobs). deg m n = 0} - set srt"
    and degs: "\<And>n. deg m n = int (length (filter (\<lambda>d. d \<notin> set srt) (ndeps jobs n)))"
    using inv by (auto simp: kahn_inv_def)
  have degs': "deg m n = int (length (filter (\<lambda>d. d \<notin> insert x (set srt)) (ndeps jobs n)))
      + int (count_list (downstream jobs x) n)" for n
    using filter_notin_insert [OF x(1), of "ndeps jobs n"] by (simp add: degs count_downstream)
  then have "int (count_list (downstream jobs x) n) \<le> deg m n" for n by simp
  from relax_spec [OF rl this] obtain new
    where m': "\<And>n. deg m' n = deg m n - int (count_list (downstream jobs x) n)"
      and new: "q' = q @ new" "distinct new"
        "set new = {n \<in> set (downstream jobs x). deg m n = int (count_list (downstream jobs x) n)}"
    by blast
  have newdeg: "deg m' n = int (length (filter (\<lambda>d. d \<notin> set (srt @ [x])) (ndeps jobs n)))" for n
    using degs' [of n] m' [of n] by (simp add: insert_commute)
  have pos: "0 < deg m n" if "n \<in> set (downstream jobs x)" for n
    using degs' [of n] that count_list_0_iff [of "downstream jobs x" n] by simp
  have srt_deps: "deg m n = 0" if "n \<in> set srt" for n
  proof -
    from split_list [OF that] obtain ys zs where "srt = ys @ n # zs" by blast
    with inv have "set (ndeps jobs n) \<subseteq> set srt" by (auto simp: kahn_inv_def dest: topo_okD)
    then have "filter (\<lambda>d. d \<notin> set srt) (ndeps jobs n) = []" by (auto simp: filter_empty_conv)
    then show ?thesis by (simp add: degs)
  qed
  have "set new = {n \<in> set (names jobs). deg m' n = 0 \<and> deg m n \<noteq> 0}"
    using pos m' count_list_0_iff [of "downstream jobs x"]
    by (auto simp: new(3) set_downstream names_def)
  moreover have "deg m' n = 0" if "deg m n = 0" for n
    using degs' [of n] m' [of n] that by simp
  ultimately have "set q' = {n \<in> set (names jobs). deg m' n = 0} - set (srt @ [x])"
    using q x srt_deps dist(4) by (auto simp: new(1))
  moreover have "distinct ((srt @ [x]) @ q')"
    using dist x new srt_deps pos q by (auto simp: new(1,2)) force+
  moreover have "set (ndeps jobs x) \<subseteq> set srt"
    using x(3) by (auto simp: degs filter_empty_conv)
  then have "topo_ok jobs (srt @ [x])"
    using inv by (intro topo_ok_snoc) (simp_all add: kahn_inv_def)
  ultimately show ?thesis
    using newdeg x(2) inv by (auto simp: kahn_inv_def)
qed

lemma kahn_inv_run: "kahn_inv jobs m q srt \<Longrightarrow> kahn jobs m q srt = (m', srt') \<Longrightarrow> kahn_inv jobs m' [] srt'"
proof (induction jobs m q srt rule: kahn.induct)
  case (2 jobs m name queue srt)
  then show ?case by (auto split: prod.splits dest: kahn_inv_step)
qed auto

lemma kahn_inv_start:
  assumes "distinct (names jobs)"
  shows "kahn_inv jobs (inDegree jobs) (filter (\<lambda>n. deg (inDegree jobs) n = 0) (names jobs)) []"
  using assms by (auto simp: kahn_inv_def deg_inDegree topo_ok_def)

lemma kahn_finished:
  assumes "distinct (names jobs)"
    and "kahn jobs (inDegree jobs) (filter (\<lambda>n. deg (inDegree jobs) n = 0) (names jobs)) [] = (m, srt)"
  shows "kahn_inv jobs m [] srt"
  by (rule kahn_inv_run [OF kahn_inv_start [OF assms(1)] assms(2)])

text \<open>A set of unsorted jobs, each waiting for another one of them, contains a cycle.\<close>

lemma unsorted_cycle:
  assumes inv: "kahn_inv jobs m [] srt" and known: "\<forall>j \<in> set jobs. set (wj_DependsOn j) \<subseteq> set (names jobs)"
    and acyc: "acyclic (dep_rel jobs)"
  shows "set srt = set (names jobs)"
proof (rule ccontr)
  assume "set srt \<noteq> set (names jobs)"
  then have "set (names jobs) - set srt \<noteq> {}" using inv by (auto simp: kahn_inv_def)
  moreover have "wf (dep_rel jobs)" by (rule finite_acyclic_wf [OF finite_dep_rel acyc])
  ultimately obtain z where z: "z \<in> set (names jobs) - set srt"
    and min: "\<And>y. (y, z) \<in> dep_rel jobs \<Longrightarrow> y \<notin> set (names jobs) - set srt"
    using wfE_min' by metis
  have "deg m z \<noteq> 0" using inv z by (auto simp: kahn_inv_def)
  then obtain d where "d \<in> set (ndeps jobs z)" "d \<notin> set srt"
    using inv by (auto simp: kahn_inv_def filter_empty_conv)
  moreover from this(1) have "d \<in> set (names jobs)" using known by (auto simp: ndeps_def)
  ultimately show False using min by (auto simp: dep_rel_ndeps)
qed

lemma topo_acyclic:
  assumes inv: "kahn_inv jobs m [] srt" and all: "set srt = set (names jobs)"
  shows "acyclic (dep_rel jobs)"
proof -
  have before: "\<exists>ys zs. srt = ys @ b # zs \<and> a \<in> set ys" if "(a, b) \<in> (dep_rel jobs)\<^sup>+" for a b
    using that
  proof (induction rule: trancl_induct)
    case (base y)
    then have "y \<in> set srt" using all ndeps_named by (simp add: dep_rel_ndeps)
    then obtain ys zs where "srt = ys @ y # zs" by (meson split_list)
    with base inv show ?case by (auto simp: kahn_inv_def dep_rel_ndeps dest: topo_okD)
  next
    case (step y z)
    then obtain ys zs where y: "srt = ys @ y # zs" "a \<in> set ys" by blast
    from step(2) have "z \<in> set srt" using all ndeps_named by (simp add: dep_rel_ndeps)
    then obtain us vs where z: "srt = us @ z # vs" by (meson split_list)
    then have "y \<in> set us" using step(2) inv by (auto simp: kahn_inv_def dep_rel_ndeps dest: topo_okD)
    then obtain us1 us2 where "us = us1 @ y # us2" by (meson split_list)
    moreover have "distinct srt" using inv by (simp add: kahn_inv_def)
    ultimately have "us1 = ys" using y(1) z append_Cons_eq_iff [of y ys zs us1 "us2 @ z # vs"] by auto
    then show ?case using y(2) z \<open>us = us1 @ y # us2\<close>
      by (intro exI [of _ us] exI [of _ vs]) auto
  qed
  show ?thesis
  proof (rule acyclicI, rule allI, rule notI)
    fix a assume "(a, a) \<in> (dep_rel jobs)\<^sup>+"
    from before [OF this] inv show False by (auto simp: kahn_inv_def)
  qed
qed

lemma TopologicalSort_cases:
  assumes "distinct (names jobs)" and "\<forall>j \<in> set jobs. set (wj_DependsOn j) \<subseteq> set (names jobs)"
  obtains (sorted) srt where "TopologicalSort jobs = Inr srt" "acyclic (dep_rel jobs)"
      "distinct srt" "set srt = set (names jobs)" "topo_ok jobs srt"
    | (cycle) c where "TopologicalSort jobs = Inl (ErrDAGCycle c)" "\<not> acyclic (dep_rel jobs)"
proof -
  obtain m srt where run: "kahn jobs (inDegree jobs)
      (filter (\<lambda>n. deg (inDegree jobs) n = 0) (names jobs)) [] = (m, srt)" by fastforce
  note inv = kahn_finished [OF assms(1) run]
  have dist: "distinct srt" and sub: "set srt \<subseteq> set (names jobs)" and topo: "topo_ok jobs srt"
    using inv by (simp_all add: kahn_inv_def)
  have len: "length srt = length jobs \<longleftrightarrow> set srt = set (names jobs)"
    using dist sub assms(1)
    by (metis card_subset_eq distinct_card finite_set length_map names_def)
  show thesis
  proof (cases "set srt = set (names jobs)")
    case True
    then show thesis
      using sorted [of srt] run len dist topo topo_acyclic [OF inv] by (simp add: TopologicalSort_def)
  next
    case False
    then show thesis
      using cycle run len unsorted_cycle [OF inv assms(2)] by (auto simp: TopologicalSort_def)
  qed
qed

section \<open>Reachability\<close>

lemma visit_spec:
  "visit cs result queue = (result', queue') \<Longrightarrow> distinct result \<Longrightarrow>
   distinct result' \<and> set result' = set result \<union> set cs \<and> set queue' = set queue \<union> (set cs - set result)"
  by (induction cs result queue rule: visit.induct) (auto split: if_splits)

text \<open>Every name found is below the start; the names found and not queued any more have all their
  children found.\<close>

definition bfs_inv :: "workflow_job list \<Rightarrow> string \<Rightarrow> string list \<Rightarrow> string list \<Rightarrow> bool" where
  "bfs_inv jobs a queue result \<longleftrightarrow> distinct result \<and> set queue \<subseteq> insert a (set result) \<and>
     (\<forall>x \<in> set result. (a, x) \<in> (dep_rel jobs)\<^sup>+) \<and>
     (\<forall>x \<in> insert a (set result) - set queue. set (downstream jobs x) \<subseteq> set result)"

lemma bfs_inv_run: "bfs_inv jobs a queue result \<Longrightarrow> bfs_inv jobs a [] (bfs jobs queue result)"
proof (induction jobs queue result rule: bfs.induct)
  case (2 jobs cur queue result)
  obtain result' queue' where v: "visit (downstream jobs cur) result queue = (result', queue')" by fastforce
  have inv: "distinct result" "insert cur (set queue) \<subseteq> insert a (set result)"
    "\<forall>x \<in> set result. (a, x) \<in> (dep_rel jobs)\<^sup>+"
    "\<forall>x \<in> insert a (set result) - insert cur (set queue). set (downstream jobs x) \<subseteq> set result"
    using 2(2) by (auto simp: bfs_inv_def)
  note vs = visit_spec [OF v inv(1)]
  have "(a, x) \<in> (dep_rel jobs)\<^sup>+" if "x \<in> set (downstream jobs cur)" for x
  proof -
    have "(cur, x) \<in> dep_rel jobs" using that by (simp add: dep_rel_downstream)
    moreover have "cur = a \<or> (a, cur) \<in> (dep_rel jobs)\<^sup>+" using inv(2,3) by auto
    ultimately show ?thesis by (auto intro: trancl_into_trancl)
  qed
  then have "bfs_inv jobs a queue' result'" using vs inv unfolding bfs_inv_def by auto
  from 2(1) [OF v [symmetric] refl this] show ?case using v by simp
qed simp

lemma set_Descendants: "set (Descendants jobs a) = {n. (a, n) \<in> (dep_rel jobs)\<^sup>+}"
proof -
  have "bfs_inv jobs a [a] []" by (simp add: bfs_inv_def)
  from bfs_inv_run [OF this] have inv: "bfs_inv jobs a [] (Descendants jobs a)"
    by (simp add: Descendants_def)
  have "n \<in> set (Descendants jobs a)" if "(a, n) \<in> (dep_rel jobs)\<^sup>+" for n
    using inv by (intro trancl_closed_set [OF _ that, of "set (Descendants jobs a)"])
      (auto simp: bfs_inv_def dep_rel_downstream)
  with inv show ?thesis by (auto simp: bfs_inv_def)
qed

lemma distinct_Descendants: "distinct (Descendants jobs a)"
proof -
  have "bfs_inv jobs a [a] []" by (simp add: bfs_inv_def)
  from bfs_inv_run [OF this] show ?thesis by (simp add: Descendants_def bfs_inv_def)
qed

lemma byName_ndeps:
  assumes "distinct (names jobs)"
  shows "set (case byName jobs n of None \<Rightarrow> [] | Some j \<Rightarrow> rev (wj_DependsOn j)) = set (ndeps jobs n)"
proof (cases "byName jobs n")
  case None
  then have "n \<notin> set (names jobs)" by (simp add: byName_None)
  then have "d \<notin> set (ndeps jobs n)" for d using ndeps_named [of d jobs n] by blast
  then have "set (ndeps jobs n) = {}" by (auto simp: set_eq_iff simp del: set_empty)
  with None show ?thesis by simp
next
  case (Some j)
  have "j' = j" if "j' \<in> set jobs" "wj_Name j' = n" for j'
    using that byName_in [OF Some] assms by (auto simp: names_def distinct_map inj_on_def)
  with byName_in [OF Some] Some show ?thesis by (auto simp: ndeps_def)
qed

definition dfs_inv :: "workflow_job list \<Rightarrow> string \<Rightarrow> string list \<Rightarrow> string list \<Rightarrow> bool" where
  "dfs_inv jobs b stack seen \<longleftrightarrow> set (ndeps jobs b) \<subseteq> set stack \<union> set seen \<and>
     (\<forall>x \<in> set stack \<union> set seen. (x, b) \<in> (dep_rel jobs)\<^sup>+) \<and>
     (\<forall>x \<in> set seen. set (ndeps jobs x) \<subseteq> set stack \<union> set seen)"

lemma dfs_inv_run:
  "distinct (names jobs) \<Longrightarrow> dfs_inv jobs b stack seen \<Longrightarrow> dfs_inv jobs b [] (dfs jobs stack seen)"
proof (induction jobs stack seen rule: dfs.induct)
  case (2 jobs n stack seen)
  show ?case
  proof (cases "n \<in> set seen")
    case True
    with 2(4) have "dfs_inv jobs b stack seen" by (auto simp: dfs_inv_def)
    with 2(1,3) True show ?thesis by simp
  next
    case False
    let ?up = "case byName jobs n of None \<Rightarrow> [] | Some up \<Rightarrow> rev (wj_DependsOn up)"
    have "(x, b) \<in> (dep_rel jobs)\<^sup>+" if "x \<in> set (ndeps jobs n)" for x
      using that 2(4) by (auto simp: dfs_inv_def dep_rel_ndeps intro: trancl_into_trancl2)
    with 2(4) have "dfs_inv jobs b (?up @ stack) (n # seen)"
      by (auto simp: dfs_inv_def byName_ndeps [OF 2(3)])
    with 2(2,3) False show ?thesis by simp
  qed
qed simp

lemma set_ancestorsOf:
  assumes "distinct (names jobs)"
  shows "set (ancestorsOf jobs b) = {x. (x, b) \<in> (dep_rel jobs)\<^sup>+}"
proof -
  let ?up = "case byName jobs b of None \<Rightarrow> [] | Some up \<Rightarrow> rev (wj_DependsOn up)"
  have "dfs_inv jobs b ?up []"
    unfolding dfs_inv_def byName_ndeps [OF assms] by (auto simp: dep_rel_ndeps)
  from dfs_inv_run [OF assms this] have inv: "dfs_inv jobs b [] (ancestorsOf jobs b)"
    by (simp add: ancestorsOf_def)
  have "x \<in> set (ancestorsOf jobs b)" if "(b, x) \<in> ((dep_rel jobs)\<inverse>)\<^sup>+" for x
    using inv by (intro trancl_closed_set [OF _ that, of "set (ancestorsOf jobs b)"])
      (auto simp: dfs_inv_def dep_rel_ndeps)
  with inv show ?thesis by (auto simp: dfs_inv_def trancl_converse)
qed

section \<open>Properties\<close>

lemma first_error_None: "first_error f xs = None \<longleftrightarrow> (\<forall>x \<in> set xs. f x = None)"
  by (induction xs) (auto split: option.splits)

lemma check_names_None:
  "check_names jobs seen = None \<longleftrightarrow>
     [] \<notin> set (names jobs) \<and> distinct (names jobs) \<and> set (names jobs) \<inter> set seen = {}"
  by (induction jobs seen rule: check_names.induct) (auto simp: names_def)

lemma check_deps_None: "check_deps n known ds = None \<longleftrightarrow> n \<notin> set ds \<and> set ds \<subseteq> set known"
  by (induction n known ds rule: check_deps.induct) auto

text \<open>What a \<open>from\<close> reference of a job has to satisfy.\<close>

definition from_ok :: "workflow_job list \<Rightarrow> workflow_job \<Rightarrow> artifact_binding \<Rightarrow> bool" where
  "from_ok jobs j inp \<longleftrightarrow> b_From inp = [] \<or>
     wj_Condition j = DependencyOnSuccess \<and>
     (\<exists>up \<in> set jobs. \<exists>out \<in> set (wj_Outputs up). wj_Name up \<noteq> [] \<and>
        splitDotRef (b_From inp) = (wj_Name up, b_Name out) \<and> (wj_Name up, wj_Name j) \<in> (dep_rel jobs)\<^sup>+)"

lemma check_from_None:
  assumes "distinct (names jobs)"
  shows "check_from jobs j inp = None \<longleftrightarrow> from_ok jobs j inp"
proof -
  obtain upstream outName where sp: "splitDotRef (b_From inp) = (upstream, outName)" by fastforce
  have uniq: "byName jobs (wj_Name up) = Some up" if "up \<in> set jobs" for up
  proof -
    from that obtain u where u: "byName jobs (wj_Name up) = Some u"
      using byName_None [of jobs "wj_Name up"] by (auto simp: names_def)
    with that byName_in [OF u] assms show ?thesis by (auto simp: names_def distinct_map inj_on_def)
  qed
  show ?thesis
  proof (cases "byName jobs upstream")
    case None
    then have "upstream \<notin> wj_Name ` set jobs" by (simp add: byName_None names_def)
    with None sp show ?thesis by (auto simp: check_from_def from_ok_def)
  next
    case (Some up)
    note up = byName_in [OF Some]
    have "(\<exists>u \<in> set jobs. \<exists>out \<in> set (wj_Outputs u). wj_Name u \<noteq> [] \<and>
        (upstream, outName) = (wj_Name u, b_Name out) \<and> (wj_Name u, wj_Name j) \<in> (dep_rel jobs)\<^sup>+)
      \<longleftrightarrow> upstream \<noteq> [] \<and> (upstream, wj_Name j) \<in> (dep_rel jobs)\<^sup>+ \<and>
        (\<exists>out \<in> set (wj_Outputs up). b_Name out = outName)" (is "?l \<longleftrightarrow> ?r")
    proof
      assume ?l
      then obtain u out where u: "u \<in> set jobs" "out \<in> set (wj_Outputs u)" "wj_Name u \<noteq> []"
        "upstream = wj_Name u" "outName = b_Name out" "(wj_Name u, wj_Name j) \<in> (dep_rel jobs)\<^sup>+" by blast
      then have "u = up" using uniq [of u] Some by simp
      with u show ?r by auto
    qed (use up in blast)
    then show ?thesis using sp Some
      by (auto simp: check_from_def from_ok_def set_ancestorsOf [OF assms] list_ex_iff)
  qed
qed

text \<open>C6. For jobs with distinct names whose dependencies all exist, the topological sort succeeds
  exactly when the dependency graph has no cycle, and then returns every job once, each after all the
  jobs it depends on; otherwise it reports a cycle.\<close>

theorem TopologicalSort_correct:
  assumes "distinct (names jobs)" and "\<forall>j \<in> set jobs. set (wj_DependsOn j) \<subseteq> set (names jobs)"
  shows "(acyclic (dep_rel jobs) \<longrightarrow> (\<exists>srt. TopologicalSort jobs = Inr srt \<and> mset srt = mset (names jobs) \<and>
        (\<forall>j \<in> set jobs. \<exists>ys zs. srt = ys @ wj_Name j # zs \<and> set (wj_DependsOn j) \<subseteq> set ys))) \<and>
    (\<not> acyclic (dep_rel jobs) \<longrightarrow> (\<exists>c. TopologicalSort jobs = Inl (ErrDAGCycle c)))"
  using assms
proof (cases rule: TopologicalSort_cases)
  case (sorted srt)
  have "\<exists>ys zs. srt = ys @ wj_Name j # zs \<and> set (wj_DependsOn j) \<subseteq> set ys" if "j \<in> set jobs" for j
  proof -
    have "wj_Name j \<in> set srt" using that sorted(4) by (simp add: names_def)
    from split_list [OF this] obtain ys zs where s: "srt = ys @ wj_Name j # zs" by blast
    have "d \<in> set ys" if "d \<in> set (wj_DependsOn j)" for d
    proof -
      have "d \<in> set (ndeps jobs (wj_Name j))"
        using \<open>j \<in> set jobs\<close> that by (auto simp: ndeps_def)
      then show ?thesis using sorted(5) s topo_okD by blast
    qed
    with s show ?thesis by blast
  qed
  moreover have "mset srt = mset (names jobs)"
    using sorted(3,4) assms(1) by (simp add: set_eq_iff_mset_eq_distinct)
  ultimately show ?thesis using sorted(1,2) by blast
qed auto

definition diamond :: "workflow_job list" where
  "diamond = [zero_workflow_job\<lparr>wj_Name := ''d'', wj_DependsOn := [''b'', ''c'']\<rparr>,
     zero_workflow_job\<lparr>wj_Name := ''b'', wj_DependsOn := [''a'']\<rparr>,
     zero_workflow_job\<lparr>wj_Name := ''c'', wj_DependsOn := [''a'']\<rparr>,
     zero_workflow_job\<lparr>wj_Name := ''a''\<rparr>]"

lemma diamond_rel: "dep_rel diamond = {(''a'', ''b''), (''a'', ''c''), (''b'', ''d''), (''c'', ''d'')}"
  by (auto simp: dep_rel_def diamond_def zero_workflow_job_def)

lemma acyclic_diamond: "acyclic (dep_rel diamond)"
proof (rule acyclic_subset [of "measure (\<lambda>s. if s = ''a'' then 0 else if s = ''d'' then 2 else (1::nat))"])
  show "dep_rel diamond \<subseteq> measure (\<lambda>s. if s = ''a'' then 0 else if s = ''d'' then 2 else (1::nat))"
    by (simp add: diamond_rel)
qed (rule wf_acyclic, rule wf_measure)

theorem TopologicalSort_correct_witness:
  "\<exists>srt. TopologicalSort diamond = Inr srt \<and> mset srt = {#''d'', ''b'', ''c'', ''a''#}"
  using TopologicalSort_correct [of diamond] acyclic_diamond
  by (auto simp: names_def diamond_def zero_workflow_job_def)

text \<open>C5. A workflow is accepted exactly when its job names are non-empty and distinct, every
  dependency names another job, the dependencies have no cycle, and every artifact reference of a job
  runs under the on-success condition and names a declared output of a job that the referring job
  transitively depends on.\<close>

theorem ValidateDAG_iff:
  "ValidateDAG jobs = None \<longleftrightarrow>
     [] \<notin> set (names jobs) \<and> distinct (names jobs) \<and>
     (\<forall>j \<in> set jobs. set (wj_DependsOn j) \<subseteq> set (names jobs)) \<and> acyclic (dep_rel jobs) \<and>
     (\<forall>j \<in> set jobs. \<forall>inp \<in> set (wj_Inputs j). from_ok jobs j inp)"
proof (cases "[] \<notin> set (names jobs) \<and> distinct (names jobs) \<and>
    (\<forall>j \<in> set jobs. wj_Name j \<notin> set (wj_DependsOn j) \<and> set (wj_DependsOn j) \<subseteq> set (names jobs))")
  case True
  then have d: "distinct (names jobs)" "\<forall>j \<in> set jobs. set (wj_DependsOn j) \<subseteq> set (names jobs)" by blast+
  have pre: "check_names jobs [] = None"
    "first_error (\<lambda>j. check_deps (wj_Name j) (names jobs) (wj_DependsOn j)) jobs = None"
    using True by (simp_all add: check_names_None first_error_None check_deps_None)
  from d show ?thesis
  proof (cases rule: TopologicalSort_cases)
    case (sorted srt)
    have "validateFromReferences jobs = None \<longleftrightarrow>
        (\<forall>j \<in> set jobs. \<forall>inp \<in> set (wj_Inputs j). from_ok jobs j inp)"
      by (simp add: validateFromReferences_def first_error_None check_from_None [OF d(1)])
    moreover have "ValidateDAG jobs = (if jobs = [] then None else validateFromReferences jobs)"
      using pre sorted by (simp add: ValidateDAG_def)
    ultimately show ?thesis using True sorted(2) by auto
  next
    case (cycle c)
    moreover have "jobs \<noteq> []" using cycle(2) by (auto simp: dep_rel_def acyclic_def)
    ultimately show ?thesis using pre by (simp add: ValidateDAG_def)
  qed
next
  case False
  have "j \<in> set jobs \<Longrightarrow> wj_Name j \<in> set (wj_DependsOn j) \<Longrightarrow> \<not> acyclic (dep_rel jobs)" for j
    by (auto simp: acyclic_def dep_rel_def)
  with False show ?thesis
    by (cases "jobs = []") (auto simp: names_def ValidateDAG_def check_names_None first_error_None check_deps_None
        dest!: split: option.splits)
qed

lemma diamond_valid: "ValidateDAG diamond = None"
  by code_simp

theorem ValidateDAG_iff_witness: "distinct (names diamond) \<and> acyclic (dep_rel diamond)"
  using ValidateDAG_iff [of diamond] diamond_valid by simp

text \<open>The jobs reported downstream of a job are exactly those that transitively depend on it, each
  once.\<close>

theorem Descendants_correct:
  "set (Descendants jobs name) = {n. (name, n) \<in> (dep_rel jobs)\<^sup>+} \<and> distinct (Descendants jobs name)"
  by (simp add: set_Descendants distinct_Descendants)

text \<open>A reference written as an upstream name, a dot and an output name splits back into the two,
  for every non-empty upstream name (dots included) and every non-empty output name without a dot; and
  a reference that does not split yields no upstream.\<close>

theorem splitDotRef_inverts:
  assumes "upstream \<noteq> []" and "out \<noteq> []" and "CHR ''.'' \<notin> set out"
  shows "splitDotRef (upstream @ CHR ''.'' # out) = (upstream, out)"
  using LastIndexByte_append_notin [OF assms(3), of upstream] assms(1,2)
  by (simp add: splitDotRef_def)

theorem splitDotRef_inverts_witness:
  "splitDotRef ''train.v2.model'' = (''train.v2'', ''model'')"
  using splitDotRef_inverts [of "''train.v2''" "''model''"] by simp

end
