(* ===== verification/Workflow_Store.thy ===== *)
theory Workflow_Store
  imports Job_Store Dag
begin

text \<open>
  The workflow engine of \<open>internal/cluster/workflow*.go\<close> and the workflow half of
  \<open>persistence_workflows.go\<close>, \<open>persistence_encrypt.go\<close> and \<open>shares.go\<close>. The workflow store is the
  in-memory index, its persister and the events it published; operations that also drive jobs take
  and return the job store. A call that reads the clock several times is given one reading.

  The lemmas show what \<open>Start\<close> materialises, which jobs are eligible, how a failure cascades, when a
  workflow finishes, what \<open>Cancel\<close> leaves behind, and what the resolver of artifact references
  guarantees; and that a branch waiting for a failure that did not happen keeps its workflow running.
\<close>

section \<open>Persistence\<close>

fun seal_children :: "keyring \<Rightarrow> workflow_job list \<Rightarrow> persist_error + (bool \<times> workflow_job list)" where
  "seal_children ring [] = Inr (False, [])"
| "seal_children ring (c # cs) =
     (if wj_SecretKeys c = [] \<or> wj_Env c = [] then
        (case seal_children ring cs of Inl e \<Rightarrow> Inl e | Inr (b, cs') \<Rightarrow> Inr (b, c # cs'))
      else case encryptSecretsInPlace (wj_Env c) (wj_SecretKeys c) (Some ring) of
          Inl e \<Rightarrow> Inl e
        | Inr (None, env') \<Rightarrow>
            (case seal_children ring cs of Inl e \<Rightarrow> Inl e | Inr (b, cs') \<Rightarrow> Inr (b, c # cs'))
        | Inr (Some enc, env') \<Rightarrow>
            (case seal_children ring cs of Inl e \<Rightarrow> Inl e
             | Inr (b, cs') \<Rightarrow> Inr (True, c\<lparr>wj_Env := env', wj_EncryptedEnv := enc\<rparr> # cs')))"

definition workflowOnDiskCopy :: "workflow \<Rightarrow> keyring option \<Rightarrow> persist_error + workflow" where
  "workflowOnDiskCopy w ringo =
     (case ringo of None \<Rightarrow> Inr w
      | Some ring \<Rightarrow> (case seal_children ring (w_Jobs w) of
            Inl e \<Rightarrow> Inl e
          | Inr (anyEncrypted, newJobs) \<Rightarrow>
              if \<not> anyEncrypted then Inr w else Inr (w\<lparr>w_Jobs := newJobs\<rparr>)))"

fun unseal_children :: "keyring option \<Rightarrow> workflow_job list \<Rightarrow> persist_error + workflow_job list" where
  "unseal_children ring [] = Inr []"
| "unseal_children ring (c # cs) =
     (if wj_EncryptedEnv c = [] then
        (case unseal_children ring cs of Inl e \<Rightarrow> Inl e | Inr cs' \<Rightarrow> Inr (c # cs'))
      else case decryptSecretsInto (wj_Env c) (wj_EncryptedEnv c) ring of
          Inl e \<Rightarrow> Inl e
        | Inr env' \<Rightarrow> (case unseal_children ring cs of Inl e \<Rightarrow> Inl e
             | Inr cs' \<Rightarrow> Inr (c\<lparr>wj_Env := env', wj_EncryptedEnv := []\<rparr> # cs')))"

definition workflowInMemoryForm :: "workflow \<Rightarrow> keyring option \<Rightarrow> persist_error + workflow" where
  "workflowInMemoryForm w ring = (case unseal_children ring (w_Jobs w) of
      Inl e \<Rightarrow> Inl e | Inr js \<Rightarrow> Inr (w\<lparr>w_Jobs := js\<rparr>))"

type_synonym 'q wsaver = "'q \<Rightarrow> workflow \<Rightarrow> persist_error option \<times> 'q"

text \<open>The workflow records of BadgerDB, with the outcomes of the coming transactions.\<close>

record badger_wf =
  bw_workflows :: "string \<rightharpoonup> workflow"
  bw_keyring :: "keyring option"
  bw_faults :: "bool list"

definition bw_SaveWorkflow :: "badger_wf wsaver" where
  "bw_SaveWorkflow b w =
     (case workflowOnDiskCopy w (bw_keyring b) of
        Inl e \<Rightarrow> (Some e, b)
      | Inr onDisk \<Rightarrow>
         (let b' = b\<lparr>bw_faults := tl (bw_faults b)\<rparr> in
          if bw_faults b \<noteq> [] \<and> hd (bw_faults b) then (Some TransactionFailed, b')
          else (None, b'\<lparr>bw_workflows := (bw_workflows b)(w_ID w \<mapsto> onDisk)\<rparr>)))"

fun load_workflows :: "keyring option \<Rightarrow> workflow list \<Rightarrow> persist_error + workflow list" where
  "load_workflows ring [] = Inr []"
| "load_workflows ring (w # ws) =
     (let w = (if w_OwnerPrincipal w = [] then w\<lparr>w_OwnerPrincipal := OwnerFromLegacy []\<rparr> else w) in
      case workflowInMemoryForm w ring of
        Inl e \<Rightarrow> Inl e
      | Inr w' \<Rightarrow> (case load_workflows ring ws of Inl e \<Rightarrow> Inl e | Inr ws' \<Rightarrow> Inr (w' # ws')))"

definition bw_LoadAllWorkflows :: "string list \<Rightarrow> badger_wf \<Rightarrow> persist_error + workflow list" where
  "bw_LoadAllWorkflows ord b = load_workflows (bw_keyring b) (range_values ord (bw_workflows b))"

record mem_workflow_persister =
  mw_Workflows :: "string \<rightharpoonup> workflow"

definition mw_SaveWorkflow :: "mem_workflow_persister wsaver" where
  "mw_SaveWorkflow m w = (None, m\<lparr>mw_Workflows := (mw_Workflows m)(w_ID w \<mapsto> w)\<rparr>)"

definition mw_LoadAllWorkflows :: "string list \<Rightarrow> mem_workflow_persister \<Rightarrow> persist_error + workflow list" where
  "mw_LoadAllWorkflows ord m = Inr (range_values ord (mw_Workflows m))"

section \<open>The store\<close>

datatype workflow_event =
    EvWorkflowCompleted string string nat nat nat strmap time time
  | EvWorkflowFailed string string string nat nat nat strmap time time

record 'q workflow_store =
  ws_workflows :: "string \<rightharpoonup> workflow"
  ws_persister :: 'q
  ws_events :: "workflow_event list"

datatype workflow_error = ErrWorkflowNotFound | ErrWorkflowExists | ErrWorkflowAlreadyTerminal
  | ErrWorkflowEmpty | ErrWorkflowDAG dag_error | ErrWorkflowPersist persist_error
  | ErrCannotStart workflow_status | ErrCreateJob string job_error

definition NewWorkflowStore :: "'q \<Rightarrow> 'q workflow_store" where
  "NewWorkflowStore q = \<lparr>ws_workflows = Map.empty, ws_persister = q, ws_events = []\<rparr>"

abbreviation put_wf :: "'q workflow_store \<Rightarrow> string \<Rightarrow> workflow \<Rightarrow> 'q \<Rightarrow> 'q workflow_store" where
  "put_wf ws i w q \<equiv> ws\<lparr>ws_workflows := (ws_workflows ws)(i \<mapsto> w), ws_persister := q\<rparr>"

section \<open>Submit and start\<close>

definition WorkflowSubmit :: "'q wsaver \<Rightarrow> time \<Rightarrow> workflow \<Rightarrow> 'q workflow_store
    \<Rightarrow> workflow_error option \<times> 'q workflow_store" where
  "WorkflowSubmit wsave now w ws =
     (if w_Jobs w = [] then (Some ErrWorkflowEmpty, ws)
      else case ValidateDAG (w_Jobs w) of
          Some e \<Rightarrow> (Some (ErrWorkflowDAG e), ws)
        | None \<Rightarrow>
            let w = w\<lparr>w_Status := WorkflowStatusPending, w_CreatedAt := now\<rparr> in
            if ws_workflows ws (w_ID w) \<noteq> None then (Some ErrWorkflowExists, ws)
            else (case wsave (ws_persister ws) w of
                (Some e, q) \<Rightarrow> (Some (ErrWorkflowPersist e),
                   ws\<lparr>ws_workflows := (ws_workflows ws)(w_ID w := None), ws_persister := q\<rparr>)
              | (None, q) \<Rightarrow> (None, put_wf ws (w_ID w) w q)))"

definition wf_job_id :: "string \<Rightarrow> string \<Rightarrow> string" where
  "wf_job_id workflowID name = workflowID @ ''/'' @ name"

text \<open>The job \<open>Start\<close> builds for a workflow job.\<close>

definition materialise :: "workflow \<Rightarrow> string \<Rightarrow> workflow_job \<Rightarrow> job" where
  "materialise w workflowID wj = zero_job\<lparr>
     j_ID := wf_job_id workflowID (wj_Name wj), j_Command := wj_Command wj, j_Args := wj_Args wj,
     j_Env := wj_Env wj, j_TimeoutSeconds := wj_TimeoutSeconds wj,
     j_Priority := (if 0 < wj_Priority wj then wj_Priority wj else w_Priority w),
     j_WorkflowID := workflowID, j_WorkingDir := wj_WorkingDir wj, j_Inputs := wj_Inputs wj,
     j_Outputs := wj_Outputs wj, j_NodeSelector := wj_NodeSelector wj,
     j_SecretKeys := wj_SecretKeys wj, j_OwnerPrincipal := w_OwnerPrincipal w,
     j_SubmittedBy := SubjectFromID (w_OwnerPrincipal w)\<rparr>"

text \<open>
  The loop of \<open>Start\<close>: the jobs with the \<open>JobID\<close>s set so far, and the name and error of the job
  that could not be created.
\<close>

fun start_jobs :: "'p saver \<Rightarrow> time \<Rightarrow> workflow \<Rightarrow> string \<Rightarrow> workflow_job list \<Rightarrow> 'p job_store
    \<Rightarrow> (string \<times> job_error) option \<times> workflow_job list \<times> 'p job_store" where
  "start_jobs save now w workflowID [] js = (None, [], js)"
| "start_jobs save now w workflowID (wj # wjs) js =
     (let wj' = wj\<lparr>wj_JobID := wf_job_id workflowID (wj_Name wj)\<rparr> in
      case Submit save now (materialise w workflowID wj) js of
        (Some e, js') \<Rightarrow> (Some (wj_Name wj, e), wj' # wjs, js')
      | (None, js') \<Rightarrow>
          (case start_jobs save now w workflowID wjs js' of
             (r, wjs', js'') \<Rightarrow> (r, wj' # wjs', js'')))"

text \<open>\<open>render\<close> is the \<open>fmt.Sprintf\<close> of the failure message.\<close>

definition Start :: "'p saver \<Rightarrow> 'q wsaver \<Rightarrow> (string \<Rightarrow> job_error \<Rightarrow> string) \<Rightarrow> time \<Rightarrow> string
    \<Rightarrow> 'q workflow_store \<Rightarrow> 'p job_store
    \<Rightarrow> workflow_error option \<times> 'q workflow_store \<times> 'p job_store" where
  "Start save wsave render now workflowID ws js =
     (case ws_workflows ws workflowID of None \<Rightarrow> (Some ErrWorkflowNotFound, ws, js)
      | Some w \<Rightarrow>
        if w_Status w \<noteq> WorkflowStatusPending then (Some (ErrCannotStart (w_Status w)), ws, js)
        else (case start_jobs save now w workflowID (w_Jobs w) js of
            (Some (name, e), wjs, js') \<Rightarrow>
              (let w' = w\<lparr>w_Jobs := wjs, w_Status := WorkflowStatusFailed,
                          w_Error := render name e, w_FinishedAt := now\<rparr>;
                   (_, q) = wsave (ws_persister ws) w'
               in (Some (ErrCreateJob name e), put_wf ws workflowID w' q, js'))
          | (None, wjs, js') \<Rightarrow>
              (let w' = w\<lparr>w_Jobs := wjs, w_Status := WorkflowStatusRunning, w_StartedAt := now\<rparr> in
               case wsave (ws_persister ws) w' of
                 (Some e, q) \<Rightarrow> (Some (ErrWorkflowPersist e), put_wf ws workflowID w' q, js')
               | (None, q) \<Rightarrow> (None, put_wf ws workflowID w' q, js'))))"

section \<open>Dependency gate\<close>

definition isDependencySatisfied :: "job \<Rightarrow> dependency_condition \<Rightarrow> bool" where
  "isDependencySatisfied depJob condition = (case condition of
      DependencyOnSuccess \<Rightarrow> j_Status depJob = JobStatusCompleted
    | DependencyOnFailure \<Rightarrow> j_Status depJob = JobStatusFailed \<or> j_Status depJob = JobStatusTimeout
    | DependencyOnComplete \<Rightarrow> IsTerminal (j_Status depJob)
    | DependencyOther _ \<Rightarrow> j_Status depJob = JobStatusCompleted)"

definition dep_ready :: "workflow_job list \<Rightarrow> 'p job_store \<Rightarrow> dependency_condition \<Rightarrow> string \<Rightarrow> bool" where
  "dep_ready wjs js condition depName =
     (case byName wjs depName of None \<Rightarrow> False
      | Some depWJ \<Rightarrow>
          wj_JobID depWJ \<noteq> [] \<and>
          (case Get (wj_JobID depWJ) js of Inl _ \<Rightarrow> False
           | Inr depJob \<Rightarrow> isDependencySatisfied depJob condition))"

definition job_ready :: "workflow_job list \<Rightarrow> 'p job_store \<Rightarrow> workflow_job \<Rightarrow> bool" where
  "job_ready wjs js wj \<longleftrightarrow>
     wj_JobID wj \<noteq> [] \<and>
     (case Get (wj_JobID wj) js of Inl _ \<Rightarrow> False
      | Inr job \<Rightarrow> j_Status job = JobStatusPending) \<and>
     list_all (dep_ready wjs js (wj_Condition wj)) (wj_DependsOn wj)"

text \<open>\<open>ord\<close> is the order in which the name map is visited.\<close>

definition EligibleJobs :: "string list \<Rightarrow> string \<Rightarrow> 'q workflow_store \<Rightarrow> 'p job_store \<Rightarrow> string list" where
  "EligibleJobs ord workflowID ws js =
     (case ws_workflows ws workflowID of None \<Rightarrow> []
      | Some w \<Rightarrow>
        if w_Status w \<noteq> WorkflowStatusRunning then []
        else map wj_JobID (filter (job_ready (w_Jobs w) js) (range_values ord (byName (w_Jobs w)))))"

section \<open>Completion\<close>

definition failing :: "job_status \<Rightarrow> bool" where
  "failing s \<longleftrightarrow> s \<in> {JobStatusFailed, JobStatusTimeout, JobStatusLost}"

definition skip_one :: "'p saver \<Rightarrow> time \<Rightarrow> string \<Rightarrow> string \<Rightarrow> workflow_job \<Rightarrow> 'p job_store \<Rightarrow> 'p job_store" where
  "skip_one save now reason descName wj js =
     (if wj_Name wj = descName \<and> wj_JobID wj \<noteq> [] \<and> wj_Condition wj = DependencyOnSuccess
      then snd (Transition save now (wj_JobID wj) JobStatusSkipped (no_opts\<lparr>t_ErrMsg := reason\<rparr>) js)
      else js)"

definition cascade :: "'p saver \<Rightarrow> time \<Rightarrow> string \<Rightarrow> workflow_job list \<Rightarrow> string list \<Rightarrow> 'p job_store \<Rightarrow> 'p job_store" where
  "cascade save now reason wjs descs js =
     fold (\<lambda>descName js. fold (skip_one save now reason descName) wjs js) descs js"

record tally =
  ta_allTerminal :: bool
  ta_anyFailed :: bool
  ta_jobs :: nat
  ta_success :: nat
  ta_failed :: nat

fun tally_jobs :: "'p job_store \<Rightarrow> workflow_job list \<Rightarrow> tally \<Rightarrow> tally" where
  "tally_jobs js [] t = t"
| "tally_jobs js (wj # wjs) t =
     (let t = t\<lparr>ta_jobs := ta_jobs t + 1\<rparr> in
      if wj_JobID wj = [] then tally_jobs js wjs t
      else case Get (wj_JobID wj) js of
          Inl _ \<Rightarrow> tally_jobs js wjs (t\<lparr>ta_allTerminal := False\<rparr>)
        | Inr j \<Rightarrow>
            if \<not> IsTerminal (j_Status j) then t\<lparr>ta_allTerminal := False\<rparr>
            else if j_Status j = JobStatusCompleted
              then tally_jobs js wjs (t\<lparr>ta_success := ta_success t + 1\<rparr>)
            else if j_Status j \<in> {JobStatusFailed, JobStatusTimeout, JobStatusLost, JobStatusSkipped}
              then tally_jobs js wjs (t\<lparr>ta_anyFailed := True, ta_failed := ta_failed t + 1\<rparr>)
            else tally_jobs js wjs t)"

definition start_tally :: tally where
  "start_tally = \<lparr>ta_allTerminal = True, ta_anyFailed = False, ta_jobs = 0, ta_success = 0, ta_failed = 0\<rparr>"

definition owns_job :: "string \<Rightarrow> workflow \<Rightarrow> bool" where
  "owns_job jobID w \<longleftrightarrow> w_Status w = WorkflowStatusRunning \<and> list_ex (\<lambda>wj. wj_JobID wj = jobID) (w_Jobs w)"

definition failed_job_name :: "string \<Rightarrow> job_status \<Rightarrow> workflow_job list \<Rightarrow> 'p job_store \<Rightarrow> string" where
  "failed_job_name targetJobName jobStatus wjs js =
     (if failing jobStatus then targetJobName
      else case List.find (\<lambda>wj. wj_JobID wj \<noteq> [] \<and>
               (case Get (wj_JobID wj) js of Inl _ \<Rightarrow> False | Inr j \<Rightarrow> failing (j_Status j))) wjs of
          None \<Rightarrow> [] | Some wj \<Rightarrow> wj_Name wj)"

definition target_name :: "string \<Rightarrow> workflow_job list \<Rightarrow> string" where
  "target_name jobID wjs =
     (case List.find (\<lambda>wj. wj_JobID wj = jobID) wjs of None \<Rightarrow> [] | Some wj \<Rightarrow> wj_Name wj)"

text \<open>The first half of \<open>OnJobCompleted\<close>: the cascade. \<open>reason\<close> renders its message.\<close>

definition settle_failure :: "'p saver \<Rightarrow> (string \<Rightarrow> job_status \<Rightarrow> string) \<Rightarrow> time \<Rightarrow> string \<Rightarrow> job_status
    \<Rightarrow> workflow_job list \<Rightarrow> 'p job_store \<Rightarrow> 'p job_store" where
  "settle_failure save reason now jobID jobStatus wjs js =
     (let target = target_name jobID wjs in
      if failing jobStatus
      then cascade save now (reason target jobStatus) wjs (Descendants wjs target) js else js)"

text \<open>The second half: the workflow's own status and event, once all its jobs are terminal. The
  event is published when a bus is attached (\<open>bus\<close>).\<close>

definition finish_workflow :: "'q wsaver \<Rightarrow> bool \<Rightarrow> time \<Rightarrow> string \<Rightarrow> job_status \<Rightarrow> workflow
    \<Rightarrow> 'p job_store \<Rightarrow> 'q workflow_store \<Rightarrow> 'q workflow_store" where
  "finish_workflow wsave bus now jobID jobStatus w js ws =
     (let t = tally_jobs js (w_Jobs w) start_tally in
      if \<not> ta_allTerminal t then ws
      else let w' = w\<lparr>w_Status := (if ta_anyFailed t then WorkflowStatusFailed else WorkflowStatusCompleted),
                      w_FinishedAt := now\<rparr>;
               q = snd (wsave (ws_persister ws) w');
               ws' = put_wf ws (w_ID w) w' q;
               ev = (if ta_anyFailed t
                 then EvWorkflowFailed (w_ID w)
                        (failed_job_name (target_name jobID (w_Jobs w)) jobStatus (w_Jobs w) js)
                        (w_OwnerPrincipal w) (ta_jobs t) (ta_success t) (ta_failed t) (w_Tags w) (w_StartedAt w) now
                 else EvWorkflowCompleted (w_ID w) (w_OwnerPrincipal w)
                        (ta_jobs t) (ta_success t) (ta_failed t) (w_Tags w) (w_StartedAt w) now)
           in if bus then ws'\<lparr>ws_events := ws_events ws' @ [ev]\<rparr> else ws')"

text \<open>\<open>ord\<close> is the order in which the workflows are visited.\<close>

definition OnJobCompleted :: "'p saver \<Rightarrow> 'q wsaver \<Rightarrow> (string \<Rightarrow> job_status \<Rightarrow> string) \<Rightarrow> bool \<Rightarrow> time \<Rightarrow>
    string list \<Rightarrow> string \<Rightarrow> job_status \<Rightarrow> 'q workflow_store \<Rightarrow> 'p job_store
    \<Rightarrow> 'q workflow_store \<times> 'p job_store" where
  "OnJobCompleted save wsave reason bus now ord jobID jobStatus ws js =
     (case List.find (owns_job jobID) (range_values ord (ws_workflows ws)) of
        None \<Rightarrow> (ws, js)
      | Some w \<Rightarrow>
          let js' = settle_failure save reason now jobID jobStatus (w_Jobs w) js
          in (finish_workflow wsave bus now jobID jobStatus w js' ws, js'))"

section \<open>Cancellation, shares, reads\<close>

definition lose_job :: "'p saver \<Rightarrow> time \<Rightarrow> workflow_job \<Rightarrow> 'p job_store \<Rightarrow> 'p job_store" where
  "lose_job save now wj js =
     (if wj_JobID wj \<noteq> [] then snd (MarkLost save now (wj_JobID wj) ''workflow cancelled'' js) else js)"

definition Cancel :: "'p saver \<Rightarrow> 'q wsaver \<Rightarrow> time \<Rightarrow> string \<Rightarrow> 'q workflow_store \<Rightarrow> 'p job_store
    \<Rightarrow> workflow_error option \<times> 'q workflow_store \<times> 'p job_store" where
  "Cancel save wsave now workflowID ws js =
     (case ws_workflows ws workflowID of None \<Rightarrow> (Some ErrWorkflowNotFound, ws, js)
      | Some w \<Rightarrow>
        if WorkflowIsTerminal (w_Status w) then (Some ErrWorkflowAlreadyTerminal, ws, js)
        else let js' = fold (lose_job save now) (w_Jobs w) js;
                 w' = w\<lparr>w_Status := WorkflowStatusCancelled, w_FinishedAt := now\<rparr>
          in (case wsave (ws_persister ws) w' of
               (Some e, q) \<Rightarrow> (Some (ErrWorkflowPersist e), put_wf ws workflowID w' q, js')
             | (None, q) \<Rightarrow> (None, put_wf ws workflowID w' q, js')))"

definition WorkflowUpdateShares :: "'q wsaver \<Rightarrow> string \<Rightarrow> share list \<Rightarrow> 'q workflow_store
    \<Rightarrow> workflow_error option \<times> 'q workflow_store" where
  "WorkflowUpdateShares wsave workflowID shares ws =
     (case ws_workflows ws workflowID of None \<Rightarrow> (Some ErrWorkflowNotFound, ws)
      | Some w \<Rightarrow>
        let w' = w\<lparr>w_Shares := shares\<rparr> in
        (case wsave (ws_persister ws) w' of
            (Some e, q) \<Rightarrow> (Some (ErrWorkflowPersist e), put_wf ws workflowID w' q)
          | (None, q) \<Rightarrow> (None, put_wf ws workflowID w' q)))"

definition WorkflowGet :: "string \<Rightarrow> 'q workflow_store \<Rightarrow> workflow_error + workflow" where
  "WorkflowGet workflowID ws = (case ws_workflows ws workflowID of
      None \<Rightarrow> Inl ErrWorkflowNotFound | Some w \<Rightarrow> Inr w)"

definition WorkflowList :: "string list \<Rightarrow> 'q workflow_store \<Rightarrow> workflow list" where
  "WorkflowList ord ws = range_values ord (ws_workflows ws)"

definition RunningWorkflowIDs :: "string list \<Rightarrow> 'q workflow_store \<Rightarrow> string list" where
  "RunningWorkflowIDs ord ws =
     map w_ID (filter (\<lambda>w. w_Status w = WorkflowStatusRunning) (range_values ord (ws_workflows ws)))"

definition WorkflowRestore :: "('q \<Rightarrow> persist_error + workflow list) \<Rightarrow> 'q workflow_store
    \<Rightarrow> workflow_error option \<times> 'q workflow_store" where
  "WorkflowRestore load ws = (case load (ws_persister ws) of
      Inl e \<Rightarrow> (Some (ErrWorkflowPersist e), ws)
    | Inr wfs \<Rightarrow> (None, ws\<lparr>ws_workflows := fold (\<lambda>w m. m(w_ID w \<mapsto> w)) wfs (ws_workflows ws)\<rparr>))"

section \<open>Artifact references\<close>

datatype resolve_error = ErrResolveFromNotWorkflow | ErrResolveShape string
  | ErrResolveUpstreamMissing string | ErrResolveUpstreamNotCompleted string job_status
  | ErrResolveOutputMissing string string

definition hasAnyFromRef :: "artifact_binding list \<Rightarrow> bool" where
  "hasAnyFromRef bs = list_ex (\<lambda>b. b_From b \<noteq> []) bs"

definition findResolvedOutput :: "artifact_output list \<Rightarrow> string \<Rightarrow> artifact_output option" where
  "findResolvedOutput outs name = List.find (\<lambda>a. o_Name a = name) outs"

definition resolve_binding :: "'p job_store \<Rightarrow> string \<Rightarrow> artifact_binding \<Rightarrow> resolve_error + artifact_binding" where
  "resolve_binding js workflowID b =
     (if b_From b = [] then Inr b
      else let (upstreamName, outputName) = splitDotRef (b_From b) in
        if upstreamName = [] then Inl (ErrResolveShape (b_Name b))
        else let upstreamID = workflowID @ ''/'' @ upstreamName in
          (case Get upstreamID js of
             Inl _ \<Rightarrow> Inl (ErrResolveUpstreamMissing upstreamID)
           | Inr upstream \<Rightarrow>
               if j_Status upstream \<noteq> JobStatusCompleted
                 then Inl (ErrResolveUpstreamNotCompleted upstreamID (j_Status upstream))
               else (case findResolvedOutput (j_ResolvedOutputs upstream) outputName of
                   None \<Rightarrow> Inl (ErrResolveOutputMissing upstreamID outputName)
                 | Some found \<Rightarrow> Inr (b\<lparr>b_URI := o_URI found, b_SHA256 := o_SHA256 found\<rparr>))))"

fun resolve_all :: "'p job_store \<Rightarrow> string \<Rightarrow> artifact_binding list \<Rightarrow> resolve_error + artifact_binding list" where
  "resolve_all js workflowID [] = Inr []"
| "resolve_all js workflowID (b # bs) =
     (case resolve_binding js workflowID b of
        Inl e \<Rightarrow> Inl e
      | Inr b' \<Rightarrow> (case resolve_all js workflowID bs of Inl e \<Rightarrow> Inl e | Inr bs' \<Rightarrow> Inr (b' # bs')))"

definition ResolveJobInputs :: "job \<Rightarrow> 'p job_store \<Rightarrow> resolve_error + job" where
  "ResolveJobInputs job js =
     (if \<not> hasAnyFromRef (j_Inputs job) then Inr job
      else if j_WorkflowID job = [] then Inl ErrResolveFromNotWorkflow
      else (case resolve_all js (j_WorkflowID job) (j_Inputs job) of
          Inl e \<Rightarrow> Inl e | Inr ins \<Rightarrow> Inr (job\<lparr>j_Inputs := ins\<rparr>)))"

section \<open>Saves that do not fail\<close>

definition bd_healthy :: "badger \<Rightarrow> bool" where
  "bd_healthy b \<longleftrightarrow> bd_faults b = [] \<and>
     (\<forall>ring v. bd_keyring b = Some ring \<longrightarrow> kr_Encrypt ring v \<noteq> None)"

lemma encrypt_all_total:
  assumes "\<And>v. kr_Encrypt ring v \<noteq> None"
  shows "\<exists>enc. encrypt_all env ring ks acc = Inr enc"
proof (induction ks arbitrary: acc)
  case (Cons k ks)
  show ?case
  proof (cases "map_of env k")
    case (Some v)
    obtain blob where "kr_Encrypt ring v = Some blob" using assms by blast
    with Some Cons.IH [of "AList.update k blob acc"] show ?thesis by simp
  qed (simp add: Cons.IH)
qed simp

lemma healthy_save:
  assumes "bd_healthy b"
  shows "\<exists>b'. bd_SaveJob b j = (None, b') \<and> bd_healthy b'"
proof -
  have "\<exists>d. jobOnDiskCopy j (bd_keyring b) = Inr d"
  proof (cases "bd_keyring b")
    case None
    then show ?thesis by (simp add: jobOnDiskCopy_def)
  next
    case (Some ring)
    then have "\<And>v. kr_Encrypt ring v \<noteq> None" using assms by (simp add: bd_healthy_def)
    from encrypt_all_total [OF this, of "j_Env j" "j_SecretKeys j" "[]"]
    obtain enc where "encrypt_all (j_Env j) ring (j_SecretKeys j) [] = Inr enc" by blast
    with Some show ?thesis
      by (auto simp: jobOnDiskCopy_def encryptSecretsInPlace_def Let_def)
  qed
  with assms show ?thesis by (auto simp: bd_SaveJob_def bd_healthy_def Let_def)
qed

abbreviation healthy :: "badger job_store \<Rightarrow> bool" where
  "healthy js \<equiv> bd_healthy (js_persister js)"

lemma Transition_healthy:
  assumes "healthy js"
  shows "healthy (snd (Transition bd_SaveJob now i to opts js)) \<and>
    js_jobs (snd (Transition bd_SaveJob now i to opts js)) =
      (case js_jobs js i of
         None \<Rightarrow> js_jobs js
       | Some j \<Rightarrow> if \<not> IsTerminal (j_Status j) \<and> isAllowed (j_Status j) to
                  then (js_jobs js)(i \<mapsto> apply_transition now to opts j) else js_jobs js)"
proof (cases "js_jobs js i")
  case (Some j)
  obtain b' where "bd_SaveJob (js_persister js) (apply_transition now to opts j) = (None, b')" "bd_healthy b'"
    using healthy_save [OF assms] by blast
  with Some assms show ?thesis by (simp add: Transition_def Let_def)
qed (use assms in \<open>simp add: Transition_def\<close>)

lemma MarkLost_healthy:
  assumes "healthy js"
  shows "healthy (snd (MarkLost bd_SaveJob now i reason js)) \<and>
    js_jobs (snd (MarkLost bd_SaveJob now i reason js)) =
      (case js_jobs js i of
         None \<Rightarrow> js_jobs js
       | Some j \<Rightarrow> if IsTerminal (j_Status j) then js_jobs js
           else (js_jobs js)(i \<mapsto> j\<lparr>j_Status := JobStatusLost, j_FinishedAt := now, j_Error := reason\<rparr>))"
proof (cases "js_jobs js i")
  case (Some j)
  obtain b' where "bd_SaveJob (js_persister js) (j\<lparr>j_Status := JobStatusLost, j_FinishedAt := now,
      j_Error := reason\<rparr>) = (None, b')" "bd_healthy b'"
    using healthy_save [OF assms] by blast
  with Some assms show ?thesis by (simp add: MarkLost_def Let_def)
qed (use assms in \<open>simp add: MarkLost_def\<close>)

section \<open>Start\<close>

lemma Submit_ok:
  assumes "Submit save now j js = (None, js')"
  shows "js_jobs js (j_ID j) = None" "\<exists>j'. js_jobs js' = (js_jobs js)(j_ID j \<mapsto> j') \<and> j_Status j' = JobStatusPending \<and>
    j_WorkflowID j' = j_WorkflowID j \<and> j_OwnerPrincipal j' = j_OwnerPrincipal j \<and> j_Inputs j' = j_Inputs j \<and> j_Env j' = j_Env j"
  using assms by (auto simp: Submit_def Let_def split: if_splits prod.splits option.splits)

definition started :: "workflow \<Rightarrow> string \<Rightarrow> 'p job_store \<Rightarrow> workflow_job \<Rightarrow> bool" where
  "started w i js wj \<longleftrightarrow> (\<exists>j. js_jobs js (wf_job_id i (wj_Name wj)) = Some j \<and> j_Status j = JobStatusPending \<and>
     j_WorkflowID j = i \<and> j_OwnerPrincipal j = w_OwnerPrincipal w \<and> j_Inputs j = wj_Inputs wj \<and> j_Env j = wj_Env wj)"

lemma start_jobs_ok:
  "start_jobs save now w i wjs js = (None, wjs', js') \<Longrightarrow>
   wjs' = map (\<lambda>wj. wj\<lparr>wj_JobID := wf_job_id i (wj_Name wj)\<rparr>) wjs \<and>
   (\<forall>wj \<in> set wjs. started w i js' wj) \<and> (\<forall>k j. js_jobs js k = Some j \<longrightarrow> js_jobs js' k = Some j)"
proof (induction wjs arbitrary: js wjs')
  case (Cons wj wjs)
  from Cons.prems obtain js1 wjs1 where sub: "Submit save now (materialise w i wj) js = (None, js1)"
    and rec: "start_jobs save now w i wjs js1 = (None, wjs1, js')"
    and wjs': "wjs' = wj\<lparr>wj_JobID := wf_job_id i (wj_Name wj)\<rparr> # wjs1"
    by (auto simp: Let_def split: prod.splits option.splits)
  note IH = Cons.IH [OF rec]
  obtain j' where j': "js_jobs js1 = (js_jobs js)(wf_job_id i (wj_Name wj) \<mapsto> j')" "j_Status j' = JobStatusPending"
    "j_WorkflowID j' = i" "j_OwnerPrincipal j' = w_OwnerPrincipal w" "j_Inputs j' = wj_Inputs wj" "j_Env j' = wj_Env wj"
    using Submit_ok(2) [OF sub] by (auto simp: materialise_def)
  moreover have "js_jobs js (wf_job_id i (wj_Name wj)) = None"
    using Submit_ok(1) [OF sub] by (simp add: materialise_def)
  ultimately have old: "js_jobs js k = Some j \<Longrightarrow> js_jobs js1 k = Some j" for k j by auto
  have "js_jobs js1 (wf_job_id i (wj_Name wj)) = Some j'" using j'(1) by simp
  then have "js_jobs js' (wf_job_id i (wj_Name wj)) = Some j'" using IH by blast
  then have "started w i js' wj" unfolding started_def using j'(2-6) by blast
  with IH wjs' old show ?case by simp
qed simp

lemma Start_ok:
  assumes "Start save wsave render now i ws js = (None, ws', js')"
  obtains w w' where "ws_workflows ws i = Some w" "w_Status w = WorkflowStatusPending"
    "ws_workflows ws' i = Some w'" "w_Status w' = WorkflowStatusRunning"
    "w_Jobs w' = map (\<lambda>wj. wj\<lparr>wj_JobID := wf_job_id i (wj_Name wj)\<rparr>) (w_Jobs w)"
    "\<forall>wj \<in> set (w_Jobs w). started w i js' wj"
proof -
  from assms obtain w wjs where w: "ws_workflows ws i = Some w" "w_Status w = WorkflowStatusPending"
    and run: "start_jobs save now w i (w_Jobs w) js = (None, wjs, js')"
    and ws': "ws_workflows ws' i = Some (w\<lparr>w_Jobs := wjs, w_Status := WorkflowStatusRunning, w_StartedAt := now\<rparr>)"
    by (auto simp: Start_def Let_def split: option.splits if_splits prod.splits)
  show thesis
    by (rule that [OF w ws']) (use start_jobs_ok [OF run] in auto)
qed

lemma byName_map:
  assumes "\<And>wj. wj_Name (f wj) = wj_Name wj"
  shows "byName (map f wjs) n = map_option f (byName wjs n)"
proof -
  have "List.find (\<lambda>j. wj_Name j = n) (map f ys) = map_option f (List.find (\<lambda>j. wj_Name j = n) ys)" for ys
    by (induction ys) (auto simp: assms)
  then show ?thesis by (simp add: byName_def rev_map)
qed

lemma wf_job_id_inject [simp]: "wf_job_id i a = wf_job_id i b \<longleftrightarrow> a = b"
  by (simp add: wf_job_id_def)

lemma byName_self: "distinct (names wjs) \<Longrightarrow> wj \<in> set wjs \<Longrightarrow> byName wjs (wj_Name wj) = Some wj"
proof -
  assume d: "distinct (names wjs)" and wj: "wj \<in> set wjs"
  then obtain u where u: "byName wjs (wj_Name wj) = Some u"
    using byName_None [of wjs "wj_Name wj"] by (auto simp: names_def)
  with d wj byName_in [OF u] show ?thesis by (auto simp: names_def distinct_map inj_on_def)
qed

text \<open>Right after \<open>Start\<close> every job is pending, so no dependency is satisfied yet.\<close>

lemma started_dep_ready:
  assumes "\<forall>wj \<in> set wjs. started w i js wj"
  shows "\<not> dep_ready (map (\<lambda>wj. wj\<lparr>wj_JobID := wf_job_id i (wj_Name wj)\<rparr>) wjs) js c d"
proof (cases "byName wjs d")
  case (Some wj)
  with byName_in [OF Some] assms show ?thesis
    by (auto simp: dep_ready_def byName_map started_def Get_def isDependencySatisfied_def
        split: dependency_condition.splits)
qed (simp add: dep_ready_def byName_map)

lemma started_job_ready:
  assumes "\<forall>wj \<in> set wjs. started w i js wj" and "wj \<in> set wjs"
  shows "job_ready (map (\<lambda>wj. wj\<lparr>wj_JobID := wf_job_id i (wj_Name wj)\<rparr>) wjs) js
      (wj\<lparr>wj_JobID := wf_job_id i (wj_Name wj)\<rparr>) \<longleftrightarrow> wj_DependsOn wj = []"
  using assms started_dep_ready [OF assms(1)]
  by (cases "wj_DependsOn wj") (auto simp: job_ready_def started_def Get_def wf_job_id_def)

section \<open>Properties\<close>

text \<open>A workflow that starts successfully is running, each of its jobs exists under the ID
  workflow/name as a pending job with the workflow's owner and its declared inputs, and, for a
  validated graph, the jobs eligible for dispatch right after the start are exactly the roots of the
  graph.\<close>

theorem Start_makes_roots_eligible:
  assumes "Start save wsave render now i ws js = (None, ws', js')"
    and "ws_workflows ws i = Some w" and "ValidateDAG (w_Jobs w) = None"
    and "enumerates ord (byName (w_Jobs w))"
  shows "(\<forall>wj \<in> set (w_Jobs w). \<exists>j. js_jobs js' (wf_job_id i (wj_Name wj)) = Some j \<and>
      j_Status j = JobStatusPending \<and> j_WorkflowID j = i \<and> j_OwnerPrincipal j = w_OwnerPrincipal w \<and>
      j_Inputs j = wj_Inputs wj) \<and>
    set (EligibleJobs ord i ws' js') = wf_job_id i ` set (RootJobs (w_Jobs w))"
  using assms(1)
proof (cases rule: Start_ok)
  case (1 w0 w')
  let ?f = "\<lambda>wj. wj\<lparr>wj_JobID := wf_job_id i (wj_Name wj)\<rparr>"
  have w0: "w0 = w" using 1(1) assms(2) by simp
  note st = 1(6) [unfolded w0]
  have dist: "distinct (names (w_Jobs w))"
    using assms(3) by (auto simp: ValidateDAG_def check_names_None names_def split: if_splits option.splits)
  have nm: "\<And>wj. wj_Name (?f wj) = wj_Name wj" by simp
  have "range_values ord (byName (map ?f (w_Jobs w))) = map ?f (range_values ord (byName (w_Jobs w)))"
    using assms(4) by (auto simp: range_values_def enumerates_def byName_map [of ?f, OF nm])
  moreover have vals: "set (range_values ord (byName (w_Jobs w))) = set (w_Jobs w)"
  proof
    show "set (range_values ord (byName (w_Jobs w))) \<subseteq> set (w_Jobs w)"
      unfolding set_range_values [OF assms(4)] by (auto simp: ran_def dest: byName_in)
    show "set (w_Jobs w) \<subseteq> set (range_values ord (byName (w_Jobs w)))"
      unfolding set_range_values [OF assms(4)] by (auto intro: ranI dest: byName_self [OF dist])
  qed
  ultimately have "set (EligibleJobs ord i ws' js') = wj_JobID ` {x \<in> ?f ` set (w_Jobs w).
      job_ready (map ?f (w_Jobs w)) js' x}"
    using 1(3-5) by (simp add: EligibleJobs_def w0)
  also have "{x \<in> ?f ` set (w_Jobs w). job_ready (map ?f (w_Jobs w)) js' x} =
      ?f ` {wj \<in> set (w_Jobs w). wj_DependsOn wj = []}"
    using started_job_ready [OF st] by auto
  also have "wj_JobID ` \<dots> = wf_job_id i ` set (RootJobs (w_Jobs w))"
    by (auto simp: RootJobs_def image_image)
  finally show ?thesis using st by (fastforce simp: started_def)
qed


definition demo_workflow :: workflow where
  "demo_workflow = zero_workflow\<lparr>w_ID := ''wf'', w_Jobs := diamond, w_OwnerPrincipal := ''user:alice''\<rparr>"

definition demo_ws :: "badger_wf workflow_store" where
  "demo_ws = \<lparr>ws_workflows = [''wf'' \<mapsto> demo_workflow],
     ws_persister = \<lparr>bw_workflows = Map.empty, bw_keyring = None, bw_faults = []\<rparr>, ws_events = []\<rparr>"

definition demo_started :: "workflow_error option \<times> badger_wf workflow_store \<times> badger job_store" where
  "demo_started = Start bd_SaveJob bw_SaveWorkflow (\<lambda>n e. n) 10 ''wf'' demo_ws (demo_start [])"

lemma demo_started_ok: "fst demo_started = None"
  by (simp add: demo_started_def Start_def demo_ws_def demo_workflow_def diamond_def zero_workflow_def
      zero_workflow_job_def Submit_def materialise_def demo_start_def NewJobStore_def bd_SaveJob_def
      jobOnDiskCopy_def zero_job_def wf_job_id_def bw_SaveWorkflow_def workflowOnDiskCopy_def Let_def
      publishEvent_def appendAuditAsync_def)

theorem Start_makes_roots_eligible_witness:
  "set (EligibleJobs [''a'', ''b'', ''c'', ''d''] ''wf'' (fst (snd demo_started)) (snd (snd demo_started)))
     = {''wf/a''}"
proof -
  have run: "Start bd_SaveJob bw_SaveWorkflow (\<lambda>n e. n) 10 ''wf'' demo_ws (demo_start []) =
      (None, fst (snd demo_started), snd (snd demo_started))"
    using demo_started_ok by (metis demo_started_def prod.collapse)
  have en: "enumerates [''a'', ''b'', ''c'', ''d''] (byName diamond)"
    by (auto simp: enumerates_def byName_def diamond_def zero_workflow_job_def split: if_splits)
  have w: "ws_workflows demo_ws ''wf'' = Some demo_workflow" "w_Jobs demo_workflow = diamond"
    by (simp_all add: demo_ws_def demo_workflow_def)
  from Start_makes_roots_eligible [OF run w(1)] w(2) diamond_valid en show ?thesis
    by (simp add: RootJobs_def diamond_def zero_workflow_job_def wf_job_id_def)
qed

section \<open>Finishing\<close>

definition settled :: "'p job_store \<Rightarrow> workflow_job list \<Rightarrow> bool" where
  "settled js wjs \<longleftrightarrow> (\<forall>wj \<in> set wjs. wj_JobID wj \<noteq> [] \<longrightarrow>
     (\<exists>j. js_jobs js (wj_JobID wj) = Some j \<and> IsTerminal (j_Status j)))"

definition some_failed :: "'p job_store \<Rightarrow> workflow_job list \<Rightarrow> bool" where
  "some_failed js wjs \<longleftrightarrow> (\<exists>wj \<in> set wjs. wj_JobID wj \<noteq> [] \<and> (\<exists>j. js_jobs js (wj_JobID wj) = Some j \<and>
     j_Status j \<in> {JobStatusFailed, JobStatusTimeout, JobStatusLost, JobStatusSkipped}))"

lemma tally_not_terminal: "\<not> ta_allTerminal t \<Longrightarrow> \<not> ta_allTerminal (tally_jobs js wjs t)"
  by (induction js wjs t rule: tally_jobs.induct) (auto simp: Let_def Get_def split: option.splits)

lemma tally_terminal: "ta_allTerminal (tally_jobs js wjs t) \<longleftrightarrow> ta_allTerminal t \<and> settled js wjs"
proof (induction js wjs t rule: tally_jobs.induct)
  case (2 js wj wjs t)
  then show ?case
    by (cases "js_jobs js (wj_JobID wj)")
      (auto simp: Let_def Get_def settled_def dest: tally_not_terminal [rotated])
qed (simp add: settled_def)

lemma tally_failed:
  "settled js wjs \<Longrightarrow> ta_anyFailed (tally_jobs js wjs t) \<longleftrightarrow> ta_anyFailed t \<or> some_failed js wjs"
proof (induction js wjs t rule: tally_jobs.induct)
  case (2 js wj wjs t)
  then show ?case
    by (cases "js_jobs js (wj_JobID wj)")
      (auto simp: Let_def Get_def settled_def some_failed_def)
qed (simp add: some_failed_def)



definition open_js :: "job_status \<Rightarrow> job_status \<Rightarrow> badger job_store" where
  "open_js a b = (demo_start [])\<lparr>js_jobs :=
     [''wf/a'' \<mapsto> demo_job\<lparr>j_ID := ''wf/a'', j_Status := a\<rparr>, ''wf/b'' \<mapsto> demo_job\<lparr>j_ID := ''wf/b'', j_Status := b\<rparr>]\<rparr>"

definition two_jobs :: "dependency_condition \<Rightarrow> workflow_job list" where
  "two_jobs c = [zero_workflow_job\<lparr>wj_Name := ''a'', wj_JobID := ''wf/a''\<rparr>,
     zero_workflow_job\<lparr>wj_Name := ''b'', wj_JobID := ''wf/b'', wj_DependsOn := [''a''], wj_Condition := c\<rparr>]"

definition two_ws :: "dependency_condition \<Rightarrow> badger_wf workflow_store" where
  "two_ws c = demo_ws\<lparr>ws_workflows := [''wf'' \<mapsto> demo_workflow\<lparr>w_Jobs := two_jobs c, w_Status := WorkflowStatusRunning\<rparr>]\<rparr>"


section \<open>Cascade\<close>

definition skip1 :: "time \<Rightarrow> string \<Rightarrow> job \<Rightarrow> job" where
  "skip1 now reason j = (if j_Status j = JobStatusPending
     then apply_transition now JobStatusSkipped (no_opts\<lparr>t_ErrMsg := reason\<rparr>) j else j)"

lemma isAllowed_Skipped: "isAllowed s JobStatusSkipped \<longleftrightarrow> s = JobStatusPending"
  by (cases s) (simp_all add: isAllowed_iff allowedTransitions_def)

lemma skip1_idem [simp]: "skip1 now r (skip1 now r' j) = skip1 now r' j"
  by (simp add: skip1_def)

definition hits :: "string \<Rightarrow> string \<Rightarrow> workflow_job \<Rightarrow> bool" where
  "hits descName k wj \<longleftrightarrow> wj_Name wj = descName \<and> wj_JobID wj = k \<and> k \<noteq> [] \<and> wj_Condition wj = DependencyOnSuccess"

lemma skip_one_healthy:
  assumes "healthy js"
  shows "healthy (skip_one bd_SaveJob now r d wj js) \<and> js_jobs (skip_one bd_SaveJob now r d wj js) k =
    (if hits d k wj then map_option (skip1 now r) (js_jobs js k) else js_jobs js k)"
  using Transition_healthy [OF assms, of now "wj_JobID wj" JobStatusSkipped "no_opts\<lparr>t_ErrMsg := r\<rparr>"] assms
  by (cases "js_jobs js (wj_JobID wj)")
    (auto simp: skip_one_def hits_def skip1_def isAllowed_Skipped)

lemma skip_all_healthy:
  "healthy js \<Longrightarrow> healthy (fold (skip_one bd_SaveJob now r d) wjs js) \<and>
    js_jobs (fold (skip_one bd_SaveJob now r d) wjs js) k =
    (if \<exists>wj \<in> set wjs. hits d k wj then map_option (skip1 now r) (js_jobs js k) else js_jobs js k)"
proof (induction wjs arbitrary: js)
  case (Cons wj wjs)
  note one = skip_one_healthy [OF Cons.prems, of now r d wj]
  from Cons.IH [of "skip_one bd_SaveJob now r d wj js"] one show ?case
    by (auto simp: option.map_comp o_def)
qed simp

lemma cascade_healthy:
  "healthy js \<Longrightarrow> healthy (cascade bd_SaveJob now r wjs ds js) \<and>
    js_jobs (cascade bd_SaveJob now r wjs ds js) k =
    (if \<exists>d \<in> set ds. \<exists>wj \<in> set wjs. hits d k wj then map_option (skip1 now r) (js_jobs js k) else js_jobs js k)"
  unfolding cascade_def
proof (induction ds arbitrary: js)
  case (Cons d ds)
  note one = skip_all_healthy [OF Cons.prems, of now r d wjs]
  from Cons.IH [of "fold (skip_one bd_SaveJob now r d) wjs js"] one show ?case
    by (auto simp: option.map_comp o_def)
qed simp


lemma open_js_healthy: "bd_healthy (js_persister (open_js a b))"
  by (simp add: open_js_def demo_start_def NewJobStore_def bd_healthy_def)


definition recovery_jobs :: "workflow_job list" where
  "recovery_jobs = two_jobs DependencyOnFailure @
     [zero_workflow_job\<lparr>wj_Name := ''c'', wj_JobID := ''wf/c'', wj_DependsOn := [''b'']\<rparr>]"

definition recovery_js :: "badger job_store" where
  "recovery_js = (open_js JobStatusFailed JobStatusPending)\<lparr>js_jobs :=
     (js_jobs (open_js JobStatusFailed JobStatusPending))(''wf/c'' \<mapsto> demo_job\<lparr>j_ID := ''wf/c'', j_Status := JobStatusPending\<rparr>)\<rparr>"

lemma recovery_rel: "dep_rel recovery_jobs = {(''a'', ''b''), (''b'', ''c'')}"
  by (auto simp: dep_rel_def recovery_jobs_def two_jobs_def zero_workflow_job_def)

text \<open>The cascade also skips work behind a recovery step: when a fails, b runs on a's failure and c runs on
  b's success, the failure of a skips c at once, although b is eligible and may still succeed.\<close>

theorem cascade_skips_behind_recovery:
  "\<exists>jc. js_jobs (settle_failure bd_SaveJob (\<lambda>n s. n) 50 ''wf/a'' JobStatusFailed recovery_jobs recovery_js) ''wf/c'' = Some jc \<and>
     j_Status jc = JobStatusSkipped \<and>
     job_ready recovery_jobs
       (settle_failure bd_SaveJob (\<lambda>n s. n) 50 ''wf/a'' JobStatusFailed recovery_jobs recovery_js)
       (recovery_jobs ! 1)"
proof -
  let ?js = "settle_failure bd_SaveJob (\<lambda>n s. n) 50 ''wf/a'' JobStatusFailed recovery_jobs recovery_js"
  have h: "bd_healthy (js_persister recovery_js)" using open_js_healthy by (simp add: recovery_js_def)
  have t: "target_name ''wf/a'' recovery_jobs = ''a''" by (simp add: target_name_def recovery_jobs_def two_jobs_def)
  have "(''a'', ''c'') \<in> (dep_rel recovery_jobs)\<^sup>+"
    unfolding recovery_rel by (rule trancl_into_trancl [of _ "''b''"]) auto
  then have d: "''c'' \<in> set (Descendants recovery_jobs ''a'')" by (simp add: set_Descendants)
  have look: "js_jobs ?js k = (if \<exists>d \<in> set (Descendants recovery_jobs ''a''). \<exists>wj \<in> set recovery_jobs. hits d k wj
      then map_option (skip1 50 ''a'') (js_jobs recovery_js k) else js_jobs recovery_js k)" for k
    using cascade_healthy [OF h, of 50 "''a''" recovery_jobs "Descendants recovery_jobs ''a''" k]
    by (simp add: settle_failure_def failing_def t Let_def)
  have c: "\<exists>jc. js_jobs ?js ''wf/c'' = Some jc \<and> j_Status jc = JobStatusSkipped"
    using look [of "''wf/c''"] d
    by (auto simp: recovery_js_def skip1_def hits_def recovery_jobs_def zero_workflow_job_def)
  have "js_jobs ?js ''wf/a'' = js_jobs recovery_js ''wf/a''"
    using look [of "''wf/a''"]
    by (auto simp: hits_def recovery_js_def open_js_def skip1_def)
  moreover have "\<not> hits d ''wf/b'' wj" if "wj \<in> set recovery_jobs" for d wj
    using that by (auto simp: hits_def recovery_jobs_def two_jobs_def zero_workflow_job_def)
  then have "js_jobs ?js ''wf/b'' = js_jobs recovery_js ''wf/b''" using look [of "''wf/b''"] by auto
  ultimately have "job_ready recovery_jobs ?js (recovery_jobs ! 1)"
    by (simp add: job_ready_def recovery_jobs_def two_jobs_def Get_def recovery_js_def open_js_def
        dep_ready_def byName_def isDependencySatisfied_def)
  with c show ?thesis by blast
qed

text \<open>A job that runs on the failure of another never becomes ready once the other has completed,
  whatever happens to the job store afterwards; and as long as such a job is pending, no completion
  report finishes its workflow.\<close>

theorem on_failure_branch_stuck:
  assumes "js_reachable bd_SaveJob bd_LoadAllJobs bd_disk st"
    and "(js_step bd_SaveJob bd_LoadAllJobs bd_disk)\<^sup>*\<^sup>* st st'"
    and "wj \<in> set (w_Jobs w)" and "wj_Condition wj = DependencyOnFailure" and "d \<in> set (wj_DependsOn wj)"
    and "byName (w_Jobs w) d = Some dwj" and "js_jobs st (wj_JobID dwj) = Some dj"
    and "j_Status dj = JobStatusCompleted"
  shows "\<not> job_ready (w_Jobs w) st' wj \<and>
    (wj_JobID wj \<noteq> [] \<and> (\<exists>j. js_jobs st' (wj_JobID wj) = Some j \<and> j_Status j = JobStatusPending) \<longrightarrow>
      (\<forall>jobID status ws. finish_workflow bw_SaveWorkflow True now jobID status w st' ws = ws))"
proof -
  let ?P = "\<lambda>j'. j_Status j' = JobStatusCompleted"
  have inv: "?P b" if "?P a" "moves a b" for a b
    using moves_final [OF that(2)] that(1) by (simp add: isRetryable_def)
  have "\<exists>j'. js_jobs st' (wj_JobID dwj) = Some j' \<and> ?P j'"
    by (rule bd.reach_moves [where P = ?P, OF assms(2) bd.coherent_reachable [OF assms(1)] assms(7) _ inv])
      (use assms(8) in simp_all)
  then have "\<not> dep_ready (w_Jobs w) st' DependencyOnFailure d"
    using assms(6) by (auto simp: dep_ready_def Get_def isDependencySatisfied_def)
  then have "\<not> job_ready (w_Jobs w) st' wj"
    using assms(4,5) by (auto simp: job_ready_def list_all_iff)
  moreover have "\<not> settled st' (w_Jobs w)"
    if "wj_JobID wj \<noteq> [] \<and> (\<exists>j. js_jobs st' (wj_JobID wj) = Some j \<and> j_Status j = JobStatusPending)"
    using that assms(3) by (auto simp: settled_def)
  ultimately show ?thesis by (auto simp: finish_workflow_def tally_terminal Let_def)
qed


definition demo_run :: "job_status \<Rightarrow> badger job_store \<Rightarrow> badger job_store" where
  "demo_run to st = snd (Transition bd_SaveJob 20 ''j1'' to no_opts st)"

definition demo_completed :: "badger job_store" where
  "demo_completed = demo_run JobStatusCompleted (demo_run JobStatusRunning (demo_run JobStatusDispatching (demo_pending [])))"

lemma demo_run_reachable: "bd_reachable st \<Longrightarrow> bd_reachable (demo_run to st)"
  unfolding demo_run_def by (rule js_reachable.step) (auto intro: js_step.transition [OF prod.collapse [symmetric]])

lemma demo_run_healthy:
  "healthy st \<Longrightarrow> js_jobs st ''j1'' = Some j \<Longrightarrow> \<not> IsTerminal (j_Status j) \<Longrightarrow> isAllowed (j_Status j) to \<Longrightarrow>
   healthy (demo_run to st) \<and> js_jobs (demo_run to st) ''j1'' = Some (apply_transition 20 to no_opts j)"
  using Transition_healthy [of st 20 "''j1''" to no_opts] by (simp add: demo_run_def)

lemma demo_completed_job:
  "\<exists>j. js_jobs demo_completed ''j1'' = Some j \<and> j_Status j = JobStatusCompleted"
proof -
  have h: "healthy (demo_pending [])" by (simp add: demo_pending_simps bd_healthy_def)
  have j: "js_jobs (demo_pending []) ''j1'' = Some demo_pending_job" "j_Status demo_pending_job = JobStatusPending"
    by (simp_all add: demo_pending_simps demo_pending_job_def)
  note a = demo_run_healthy [OF h j(1), of JobStatusDispatching]
  note b = demo_run_healthy [OF conjunct1 [OF a] conjunct2 [OF a], of JobStatusRunning]
  note c = demo_run_healthy [OF conjunct1 [OF b] conjunct2 [OF b], of JobStatusCompleted]
  show ?thesis using c j(2) by (simp add: demo_completed_def isAllowed_iff allowedTransitions_def)
qed

definition fallback_wf :: workflow where
  "fallback_wf = demo_workflow\<lparr>w_Jobs :=
     [zero_workflow_job\<lparr>wj_Name := ''a'', wj_JobID := ''j1''\<rparr>,
      zero_workflow_job\<lparr>wj_Name := ''b'', wj_JobID := ''j2'', wj_DependsOn := [''a''], wj_Condition := DependencyOnFailure\<rparr>]\<rparr>"

theorem on_failure_branch_stuck_witness:
  "\<not> job_ready (w_Jobs fallback_wf) demo_completed (w_Jobs fallback_wf ! 1)"
proof -
  obtain j where j: "js_jobs demo_completed ''j1'' = Some j" "j_Status j = JobStatusCompleted"
    using demo_completed_job by blast
  have r: "bd_reachable demo_completed"
    unfolding demo_completed_def by (intro demo_run_reachable demo_pending_reachable)
  have w: "w_Jobs fallback_wf ! 1 \<in> set (w_Jobs fallback_wf)"
    "wj_Condition (w_Jobs fallback_wf ! 1) = DependencyOnFailure" "''a'' \<in> set (wj_DependsOn (w_Jobs fallback_wf ! 1))"
    "byName (w_Jobs fallback_wf) ''a'' = Some (w_Jobs fallback_wf ! 0)" "wj_JobID (w_Jobs fallback_wf ! 0) = ''j1''"
    by (simp_all add: fallback_wf_def byName_def)
  show ?thesis
    using on_failure_branch_stuck [OF r rtranclp.rtrancl_refl w(1-4), of j] j w(5) by simp
qed

section \<open>Cancellation\<close>

lemma lose_all_healthy:
  "healthy js \<Longrightarrow> healthy (fold (lose_job bd_SaveJob now) wjs js) \<and>
    js_jobs (fold (lose_job bd_SaveJob now) wjs js) k =
    (if k \<noteq> [] \<and> k \<in> wj_JobID ` set wjs
     then map_option (\<lambda>j. if IsTerminal (j_Status j) then j
            else j\<lparr>j_Status := JobStatusLost, j_FinishedAt := now, j_Error := ''workflow cancelled''\<rparr>) (js_jobs js k)
     else js_jobs js k)"
proof (induction wjs arbitrary: js)
  case (Cons wj wjs)
  let ?js = "lose_job bd_SaveJob now wj js"
  have one: "healthy ?js" "js_jobs ?js k = (if k \<noteq> [] \<and> k = wj_JobID wj
     then map_option (\<lambda>j. if IsTerminal (j_Status j) then j
            else j\<lparr>j_Status := JobStatusLost, j_FinishedAt := now, j_Error := ''workflow cancelled''\<rparr>) (js_jobs js k)
     else js_jobs js k)"
    using MarkLost_healthy [OF Cons.prems, of now "wj_JobID wj" "''workflow cancelled''"] Cons.prems
    by (cases "js_jobs js (wj_JobID wj)"; auto simp: lose_job_def)+
  from Cons.IH [OF one(1)] one(2) show ?case
    by (auto simp: option.map_comp o_def cong: if_cong) (cases "js_jobs js k"; auto)+
qed simp

text \<open>A workflow cancellation that reports success (and whose job saves succeed) leaves the workflow cancelled
  and every job of it terminal: jobs that had finished keep their record, the others are lost. Jobs
  outside the workflow are untouched.\<close>

theorem Cancel_settles_all:
  assumes "Cancel bd_SaveJob wsave now i ws js = (None, ws', js')"
    and "bd_healthy (js_persister js)" and "ws_workflows ws i = Some w"
  shows "(\<exists>w'. ws_workflows ws' i = Some w' \<and> w_Status w' = WorkflowStatusCancelled) \<and>
    (\<forall>k j. js_jobs js k = Some j \<longrightarrow> (\<exists>j'. js_jobs js' k = Some j' \<and>
       (if k \<noteq> [] \<and> k \<in> wj_JobID ` set (w_Jobs w)
        then IsTerminal (j_Status j') \<and> (IsTerminal (j_Status j) \<longrightarrow> j' = j) else j' = j)))"
proof -
  have js': "js' = fold (lose_job bd_SaveJob now) (w_Jobs w) js"
    and w': "\<exists>w'. ws_workflows ws' i = Some w' \<and> w_Status w' = WorkflowStatusCancelled"
    using assms(1,3) by (auto simp: Cancel_def Let_def split: if_splits prod.splits option.splits)
  show ?thesis using w' lose_all_healthy [OF assms(2), of now "w_Jobs w"] unfolding js' by auto
qed

theorem Cancel_settles_all_witness:
  "\<exists>j'. js_jobs (snd (snd (Cancel bd_SaveJob bw_SaveWorkflow 50 ''wf'' (two_ws DependencyOnSuccess)
       (open_js JobStatusRunning JobStatusPending)))) ''wf/a'' = Some j' \<and> IsTerminal (j_Status j')"
proof -
  let ?c = "Cancel bd_SaveJob bw_SaveWorkflow 50 ''wf'' (two_ws DependencyOnSuccess) (open_js JobStatusRunning JobStatusPending)"
  let ?w = "demo_workflow\<lparr>w_Jobs := two_jobs DependencyOnSuccess, w_Status := WorkflowStatusRunning\<rparr>"
  have w: "ws_workflows (two_ws DependencyOnSuccess) ''wf'' = Some ?w" by (simp add: two_ws_def)
  have "fst ?c = None"
    by (simp add: Cancel_def two_ws_def demo_ws_def bw_SaveWorkflow_def workflowOnDiskCopy_def Let_def)
  then have c: "?c = (None, fst (snd ?c), snd (snd ?c))" by (metis prod.collapse)
  have "js_jobs (open_js JobStatusRunning JobStatusPending) ''wf/a'' =
      Some (demo_job\<lparr>j_ID := ''wf/a'', j_Status := JobStatusRunning\<rparr>)" by (simp add: open_js_def)
  with Cancel_settles_all [OF c open_js_healthy w] show ?thesis
    by (fastforce simp: two_jobs_def)
qed

section \<open>Resolution of artifact references\<close>

definition resolves :: "'p job_store \<Rightarrow> string \<Rightarrow> artifact_binding \<Rightarrow> artifact_binding \<Rightarrow> bool" where
  "resolves js wid b b' \<longleftrightarrow> (if b_From b = [] then b' = b else
     \<exists>up out upstream found. splitDotRef (b_From b) = (up, out) \<and> up \<noteq> [] \<and>
       js_jobs js (wf_job_id wid up) = Some upstream \<and> j_Status upstream = JobStatusCompleted \<and>
       findResolvedOutput (j_ResolvedOutputs upstream) out = Some found \<and>
       b' = b\<lparr>b_URI := o_URI found, b_SHA256 := o_SHA256 found\<rparr>)"

lemma resolve_binding_iff: "resolve_binding js wid b = Inr b' \<longleftrightarrow> resolves js wid b b'"
  by (auto simp: resolve_binding_def resolves_def Get_def wf_job_id_def Let_def split: prod.splits option.splits)

lemma resolve_all_iff: "resolve_all js wid bs = Inr bs' \<longleftrightarrow> list_all2 (resolves js wid) bs bs'"
proof (induction bs arbitrary: bs')
  case (Cons b bs)
  have "resolve_all js wid (b # bs) = Inr bs' \<longleftrightarrow>
      (\<exists>b' bs''. bs' = b' # bs'' \<and> resolve_binding js wid b = Inr b' \<and> resolve_all js wid bs = Inr bs'')"
    by (auto split: sum.splits)
  then show ?case by (simp add: Cons.IH resolve_binding_iff list_all2_Cons1)
qed auto

text \<open>The dispatcher gets a job only with every artifact reference resolved: resolution succeeds exactly
  when each reference names a completed job of the same workflow that attested an output of that
  name, and then each such input carries that output's URI and digest while every other input and
  field of the job is unchanged.\<close>

theorem ResolveJobInputs_iff:
  "ResolveJobInputs job js = Inr job' \<longleftrightarrow>
     (\<exists>ins. list_all2 (resolves js (j_WorkflowID job)) (j_Inputs job) ins \<and> job' = job\<lparr>j_Inputs := ins\<rparr> \<and>
        \<not> (j_WorkflowID job = [] \<and> hasAnyFromRef (j_Inputs job)))"
proof (cases "hasAnyFromRef (j_Inputs job)")
  case False
  then have "\<forall>b \<in> set (j_Inputs job). b_From b = []" by (auto simp: hasAnyFromRef_def list_ex_iff)
  then have "list_all2 (resolves js (j_WorkflowID job)) (j_Inputs job) ins \<longleftrightarrow> ins = j_Inputs job" for ins
    by (auto simp: list_all2_conv_all_nth resolves_def intro: nth_equalityI)
  then show ?thesis using False by (auto simp: ResolveJobInputs_def)
next
  case True
  then show ?thesis
    by (auto simp: ResolveJobInputs_def resolve_all_iff [symmetric] split: sum.splits)
qed

end
