(* ===== verification/Scheduler.thy ===== *)
theory Scheduler
  imports Job_Types "HOL-Library.Multiset"
begin

text \<open>
  Node selection: \<open>internal/cluster/scheduler.go\<close> (the filters and \<open>PickForJob\<close>), \<open>policy.go\<close>
  (round robin, least loaded) and \<open>policy_resource.go\<close> (best fit). The \<open>Policy\<close> interface is the
  locale \<open>policy\<close>, \<open>NodeSource\<close> the locale \<open>node_source\<close>: what \<open>PickForJob\<close> guarantees is proved once
  from the contract written in \<open>scheduler.go\<close> and holds for every policy that is interpreted, here
  all three, and for every node source, which the node registry provides.

  A policy is a function from its state and the candidates to the choice and the new state; nodes
  are never nil. The round-robin counters are unbounded; the code's are 64-bit and would wrap after
  two to the 63 picks on one candidate set.
\<close>

section \<open>Policies\<close>

datatype sched_error = ErrNoHealthyNodes | ErrNoNodeMatchesSelector

type_synonym 's picker = "'s \<Rightarrow> node list \<Rightarrow> node option \<times> 's"

definition join_bar :: "string list \<Rightarrow> string" where
  "join_bar ids = (case ids of [] \<Rightarrow> [] | i # is \<Rightarrow> i @ concat (map (\<lambda>s. CHR ''|'' # s) is))"

definition candidateSetKey :: "node list \<Rightarrow> string" where
  "candidateSetKey nodes =
     (case nodes of [n] \<Rightarrow> n_NodeID n | _ \<Rightarrow> join_bar (sort (map n_NodeID nodes)))"

type_synonym rr_policy = "string \<rightharpoonup> nat"

definition counterFor :: "rr_policy \<Rightarrow> node list \<Rightarrow> nat" where
  "counterFor p nodes = (case p (candidateSetKey nodes) of None \<Rightarrow> 0 | Some c \<Rightarrow> c)"

definition RoundRobinPick :: "rr_policy picker" where
  "RoundRobinPick p nodes =
     (if nodes = [] then (None, p)
      else let c = counterFor p nodes in
        (Some (nodes ! (c mod length nodes)), p(candidateSetKey nodes \<mapsto> c + 1)))"

fun least_loaded :: "node \<Rightarrow> node list \<Rightarrow> node" where
  "least_loaded best [] = best"
| "least_loaded best (n # ns) =
     least_loaded (if sint (n_RunningJobs n) < sint (n_RunningJobs best) then n else best) ns"

definition LeastLoadedPick :: "unit picker" where
  "LeastLoadedPick u nodes = (case nodes of [] \<Rightarrow> (None, u) | n # ns \<Rightarrow> (Some (least_loaded n ns), u))"

definition remainingScore :: "node \<Rightarrow> 64 word" where
  "remainingScore n =
     (let slots = (if 0 < n_MaxSlots n \<and> n_RunningJobs n < n_MaxSlots n
                   then ucast (n_MaxSlots n - n_RunningJobs n) else 0 :: 64 word);
          usedCPU = scast (n_RunningJobs n) * (ucast (rr_CpuMillicores DefaultResourceRequest) :: 64 word);
          cpu = (if usedCPU < ucast (n_CpuMillicores n)
                 then (ucast (n_CpuMillicores n) - usedCPU) div 100 else 0)
      in slots + cpu)"

definition has_room :: "node \<Rightarrow> bool" where
  "has_room n \<longleftrightarrow> \<not> (n_CpuMillicores n = 0 \<and> n_MaxSlots n = 0) \<and>
     \<not> (0 < n_MaxSlots n \<and> n_MaxSlots n \<le> n_RunningJobs n)"

fun best_fit :: "node option \<Rightarrow> node list \<Rightarrow> node option" where
  "best_fit best [] = best"
| "best_fit best (n # ns) =
     best_fit
       (if \<not> has_room n then best
        else case best of
            None \<Rightarrow> Some n
          | Some b \<Rightarrow> if remainingScore n < remainingScore b then Some n else best) ns"

definition ResourceAwarePick :: "unit picker" where
  "ResourceAwarePick u nodes =
     (case nodes of [] \<Rightarrow> (None, u)
      | n # ns \<Rightarrow> (case best_fit None nodes of
            Some b \<Rightarrow> (Some b, u)
          | None \<Rightarrow> (Some (least_loaded n ns), u)))"

datatype policy_name = PolRoundRobin | PolLeastLoaded | PolResourceAware

definition PolicyFromEnv :: "string \<Rightarrow> policy_name" where
  "PolicyFromEnv v = (if v = ''least'' then PolLeastLoaded
     else if v = ''resource-aware'' then PolResourceAware else PolRoundRobin)"

section \<open>Filters and picks\<close>

definition nodeMatchesSelector :: "node \<Rightarrow> strmap \<Rightarrow> bool" where
  "nodeMatchesSelector n selector = list_all (\<lambda>(k, v). map_of (n_Labels n) k = Some v) selector"

definition filterBySelector :: "node list \<Rightarrow> strmap \<Rightarrow> node list" where
  "filterBySelector nodes selector = filter (\<lambda>n. nodeMatchesSelector n selector) nodes"

definition filterByGPU :: "node list \<Rightarrow> 32 word \<Rightarrow> node list" where
  "filterByGPU nodes gpusRequested = filter (\<lambda>n. gpusRequested \<le> n_TotalGpus n) nodes"

definition Pick :: "'s picker \<Rightarrow> node list \<Rightarrow> 's \<Rightarrow> (sched_error + node) \<times> 's" where
  "Pick pol nodes s =
     (if nodes = [] then (Inl ErrNoHealthyNodes, s)
      else case pol s nodes of
          (None, s') \<Rightarrow> (Inl ErrNoHealthyNodes, s')
        | (Some n, s') \<Rightarrow> (Inr n, s'))"

text \<open>\<open>nodes\<close> is what the source's \<open>HealthyNodes\<close> returned.\<close>

definition PickForJob :: "'s picker \<Rightarrow> node list \<Rightarrow> strmap \<Rightarrow> 32 word \<Rightarrow> 's \<Rightarrow> (sched_error + node) \<times> 's" where
  "PickForJob pol nodes selector gpusRequested s =
     (if nodes = [] then (Inl ErrNoHealthyNodes, s)
      else let candidates = (if selector \<noteq> [] then filterBySelector nodes selector else nodes);
               candidates = (if 0 < gpusRequested then filterByGPU candidates gpusRequested else candidates)
        in if candidates = [] then (Inl ErrNoNodeMatchesSelector, s)
           else case pol s candidates of
               (None, s') \<Rightarrow> (Inl ErrNoNodeMatchesSelector, s')
             | (Some n, s') \<Rightarrow> (Inr n, s'))"

definition PickForSelector :: "'s picker \<Rightarrow> node list \<Rightarrow> strmap \<Rightarrow> 's \<Rightarrow> (sched_error + node) \<times> 's" where
  "PickForSelector pol nodes selector s = PickForJob pol nodes selector 0 s"

section \<open>The policy contract\<close>

definition fits :: "strmap \<Rightarrow> 32 word \<Rightarrow> node \<Rightarrow> bool" where
  "fits selector gpus n \<longleftrightarrow> nodeMatchesSelector n selector \<and> gpus \<le> n_TotalGpus n"

locale policy =
  fixes pick :: "'s picker"
  assumes pick_one: "nodes \<noteq> [] \<Longrightarrow> \<exists>n \<in> set nodes. fst (pick s nodes) = Some n"
begin

lemma pick_cases:
  assumes "nodes \<noteq> []"
  obtains n s' where "pick s nodes = (Some n, s')" "n \<in> set nodes"
  using pick_one [OF assms, of s] by (metis prod.collapse)

lemma candidates_eq:
  "(if 0 < gpus then filterByGPU (if sel \<noteq> [] then filterBySelector nodes sel else nodes) gpus
    else if sel \<noteq> [] then filterBySelector nodes sel else nodes) = filter (fits sel gpus) nodes"
  by (auto simp: filterByGPU_def filterBySelector_def fits_def nodeMatchesSelector_def
      word_gt_0 intro!: filter_cong)

lemma PickForJob_cases:
  obtains (picked) n where "fst (PickForJob pick nodes sel gpus s) = Inr n" "n \<in> set nodes" "fits sel gpus n"
    | (empty) "fst (PickForJob pick nodes sel gpus s) = Inl ErrNoHealthyNodes" "nodes = []"
    | (mismatch) "fst (PickForJob pick nodes sel gpus s) = Inl ErrNoNodeMatchesSelector" "nodes \<noteq> []"
        "\<forall>n \<in> set nodes. \<not> fits sel gpus n"
proof (cases "filter (fits sel gpus) nodes = []")
  case True
  then show thesis
    using empty mismatch candidates_eq [of gpus sel nodes]
    by (cases "nodes = []") (auto simp: PickForJob_def Let_def filter_empty_conv)
next
  case False
  then obtain n s' where p: "pick s (filter (fits sel gpus) nodes) = (Some n, s')"
    "n \<in> set (filter (fits sel gpus) nodes)" by (rule pick_cases)
  then have "fst (PickForJob pick nodes sel gpus s) = Inr n"
    using False candidates_eq [of gpus sel nodes] by (auto simp: PickForJob_def Let_def)
  with p picked show thesis by auto
qed

lemma PickForJob_iff:
  "fst (PickForJob pick nodes sel gpus s) = Inr n \<Longrightarrow> n \<in> set nodes \<and> fits sel gpus n"
  by (cases rule: PickForJob_cases [of nodes sel gpus s]) auto

end

text \<open>A node source vouches for the nodes it calls healthy.\<close>

locale node_source =
  fixes HealthyNodes :: "'r \<Rightarrow> node list" and inv :: "'r \<Rightarrow> bool" and vouched :: "'r \<Rightarrow> node \<Rightarrow> bool"
  assumes healthy_vouched: "inv r \<Longrightarrow> n \<in> set (HealthyNodes r) \<Longrightarrow> vouched r n"

locale scheduler = policy pick + node_source HealthyNodes inv vouched
  for pick :: "'s picker" and HealthyNodes :: "'r \<Rightarrow> node list" and inv :: "'r \<Rightarrow> bool"
    and vouched :: "'r \<Rightarrow> node \<Rightarrow> bool"
begin

lemma picked_vouched:
  "inv r \<Longrightarrow> fst (PickForJob pick (HealthyNodes r) sel gpus s) = Inr n \<Longrightarrow>
   vouched r n \<and> fits sel gpus n"
  using PickForJob_iff healthy_vouched by blast

end

section \<open>The three policies\<close>

lemma least_loaded_spec:
  "least_loaded b ns \<in> set (b # ns) \<and>
   (\<forall>n \<in> set (b # ns). sint (n_RunningJobs (least_loaded b ns)) \<le> sint (n_RunningJobs n))"
proof (induction ns arbitrary: b)
  case (Cons n ns)
  let ?b = "if sint (n_RunningJobs n) < sint (n_RunningJobs b) then n else b"
  have le: "sint (n_RunningJobs ?b) \<le> sint (n_RunningJobs n)" "sint (n_RunningJobs ?b) \<le> sint (n_RunningJobs b)"
    and mem: "?b \<in> {b, n}" by auto
  from Cons.IH [of ?b] le mem show ?case by (simp only: least_loaded.simps) (auto simp del: least_loaded.simps)
qed simp

lemma best_fit_spec:
  "best_fit best ns = Some b \<Longrightarrow> (\<And>n. best = Some n \<Longrightarrow> has_room n) \<Longrightarrow>
   (b \<in> set ns \<or> best = Some b) \<and> has_room b \<and>
   (\<forall>n \<in> set ns \<union> set_option best. has_room n \<longrightarrow> remainingScore b \<le> remainingScore n)"
proof (induction best ns rule: best_fit.induct)
  case (2 best n ns)
  let ?best = "if \<not> has_room n then best else case best of None \<Rightarrow> Some n
      | Some b \<Rightarrow> if remainingScore n < remainingScore b then Some n else best"
  have room: "\<And>x. ?best = Some x \<Longrightarrow> has_room x" using 2(3) by (auto split: if_splits option.splits)
  have rec: "best_fit ?best ns = Some b" using 2(2) by simp
  from 2(1) [OF rec room] have IH: "b \<in> set ns \<or> ?best = Some b" "has_room b"
    "\<forall>x \<in> set ns \<union> set_option ?best. has_room x \<longrightarrow> remainingScore b \<le> remainingScore x" by auto
  have "remainingScore b \<le> remainingScore x" if "x \<in> insert n (set_option best)" "has_room x" for x
    using IH(3) that 2(3) by (auto split: if_splits option.splits intro: order.trans dest: order.strict_implies_order)
  with IH show ?case by (auto split: if_splits option.splits)
qed auto

lemma best_fit_None: "best_fit best ns = None \<longleftrightarrow> best = None \<and> (\<forall>n \<in> set ns. \<not> has_room n)"
  by (induction best ns rule: best_fit.induct) (auto split: option.splits)

interpretation rr: policy RoundRobinPick
  by unfold_locales (auto simp: RoundRobinPick_def Let_def)

interpretation ll: policy LeastLoadedPick
proof
  fix nodes :: "node list" and s :: unit
  assume "nodes \<noteq> []"
  then show "\<exists>n \<in> set nodes. fst (LeastLoadedPick s nodes) = Some n"
    using least_loaded_spec by (cases nodes) (auto simp: LeastLoadedPick_def)
qed

interpretation ra: policy ResourceAwarePick
proof
  fix nodes :: "node list" and s :: unit
  assume "nodes \<noteq> []"
  then obtain n ns where nodes: "nodes = n # ns" by (cases nodes) auto
  show "\<exists>n \<in> set nodes. fst (ResourceAwarePick s nodes) = Some n"
  proof (cases "best_fit None nodes")
    case None
    then show ?thesis using least_loaded_spec [of n ns] by (simp add: ResourceAwarePick_def nodes)
  next
    case (Some b)
    then have "b \<in> set nodes" using best_fit_spec [of None nodes b] by auto
    with Some show ?thesis by (auto simp: ResourceAwarePick_def nodes)
  qed
qed

section \<open>Properties\<close>

text \<open>The picks that a sequence of calls, one candidate list each, makes on the list \<open>nodes\<close>.\<close>

fun rr_picks :: "node list \<Rightarrow> rr_policy \<Rightarrow> node list list \<Rightarrow> node option list" where
  "rr_picks nodes p [] = []"
| "rr_picks nodes p (ns # calls) =
     (let (r, p') = RoundRobinPick p ns in
      (if ns = nodes then [r] else []) @ rr_picks nodes p' calls)"

lemma counterFor_pick:
  "ns \<noteq> [] \<Longrightarrow> counterFor (snd (RoundRobinPick p ns)) nodes =
   (if candidateSetKey ns = candidateSetKey nodes then counterFor p ns + 1 else counterFor p nodes)"
  by (simp add: RoundRobinPick_def counterFor_def Let_def)

lemma rr_picks_eq:
  assumes "\<forall>ns \<in> set calls. ns \<noteq> [] \<and> (ns = nodes \<or> candidateSetKey ns \<noteq> candidateSetKey nodes)"
  shows "rr_picks nodes p calls = map (\<lambda>i. Some (nodes ! ((counterFor p nodes + i) mod length nodes)))
    [0..<length (filter ((=) nodes) calls)]"
  using assms
proof (induction calls arbitrary: p)
  case (Cons ns calls)
  let ?p = "snd (RoundRobinPick p ns)"
  note IH = Cons.IH [of ?p] and cnt = counterFor_pick [of ns p nodes]
  show ?case
  proof (cases "ns = nodes")
    case True
    have "map f [0..<Suc k] = f 0 # map (\<lambda>i. f (Suc i)) [0..<k]" for f :: "nat \<Rightarrow> node option" and k
      by (simp add: upt_conv_Cons del: upt_Suc flip: map_Suc_upt)
    moreover have "rr_picks nodes p (ns # calls) = fst (RoundRobinPick p ns) # rr_picks nodes ?p calls"
      using True by (simp add: split_beta)
    moreover have "fst (RoundRobinPick p ns) = Some (nodes ! (counterFor p nodes mod length nodes))"
      using True Cons.prems by (auto simp: RoundRobinPick_def Let_def)
    moreover have "counterFor ?p nodes = Suc (counterFor p nodes)" using True cnt Cons.prems by simp
    ultimately show ?thesis using True IH Cons.prems by (simp del: upt_Suc rr_picks.simps)
  next
    case False
    with IH cnt Cons.prems show ?thesis by (auto simp: split_beta)
  qed
qed simp

lemma mset_rotate_list: "mset (rotate k xs) = mset xs"
proof (induction k)
  case (Suc k)
  have "mset (rotate1 ys) = mset ys" for ys :: "'a list" by (cases ys) simp_all
  with Suc show ?case by simp
qed simp


definition mk_node :: "string \<Rightarrow> node" where
  "mk_node i = \<lparr>n_NodeID = i, n_Address = i, n_Healthy = True, n_LastSeen = 1, n_RunningJobs = 0,
     n_RegisteredAt = 1, n_CpuMillicores = 0, n_TotalMemBytes = 0, n_MaxSlots = 0, n_TotalGpus = 0,
     n_Labels = []\<rparr>"

lemma two_node_key:
  "candidateSetKey [mk_node ''a'', mk_node ''b''] = ''a|b''"
  "candidateSetKey [mk_node ''b'', mk_node ''a''] = ''a|b''"
  by (simp_all add: candidateSetKey_def join_bar_def mk_node_def)


text \<open>Fairness needs a stable order of the candidates: the counter belongs to the set, the index to the list,
  so when the same two nodes arrive in alternating order one of them is chosen every time.\<close>

theorem round_robin_unfair_if_reordered:
  "\<exists>p. fst (RoundRobinPick Map.empty [mk_node ''a'', mk_node ''b'']) = Some (mk_node ''a'') \<and>
     p = snd (RoundRobinPick Map.empty [mk_node ''a'', mk_node ''b'']) \<and>
     fst (RoundRobinPick p [mk_node ''b'', mk_node ''a'']) = Some (mk_node ''a'')"
  by (simp add: RoundRobinPick_def counterFor_def two_node_key Let_def)

text \<open>The best-fit policy never overloads a node while another has room: if some candidate reports capacity
  and has a free slot, the chosen node does too, and has the least remaining capacity among those;
  otherwise it chooses a least loaded node.\<close>

theorem resource_aware_best_fit:
  assumes "nodes \<noteq> []"
  shows "\<exists>b \<in> set nodes. fst (ResourceAwarePick u nodes) = Some b \<and>
    (if \<exists>n \<in> set nodes. has_room n
     then has_room b \<and> (\<forall>n \<in> set nodes. has_room n \<longrightarrow> remainingScore b \<le> remainingScore n)
     else \<forall>n \<in> set nodes. sint (n_RunningJobs b) \<le> sint (n_RunningJobs n))"
proof -
  obtain m ms where nodes: "nodes = m # ms" using assms by (cases nodes) auto
  show ?thesis
  proof (cases "best_fit None nodes")
    case None
    then have "\<not> (\<exists>n \<in> set nodes. has_room n)" by (simp add: best_fit_None)
    with None show ?thesis
      using least_loaded_spec [of m ms] by (simp only: nodes) (simp add: ResourceAwarePick_def)
  next
    case (Some b)
    then have "b \<in> set nodes \<and> has_room b \<and> (\<forall>n \<in> set nodes. has_room n \<longrightarrow> remainingScore b \<le> remainingScore n)"
      using best_fit_spec [of None nodes b] by auto
    with Some show ?thesis by (auto simp: ResourceAwarePick_def nodes)
  qed
qed

theorem resource_aware_best_fit_witness:
  "\<exists>b. fst (ResourceAwarePick () [mk_node ''a'', (mk_node ''b'')\<lparr>n_MaxSlots := 4\<rparr>]) = Some b \<and> has_room b"
  using resource_aware_best_fit [of "[mk_node ''a'', (mk_node ''b'')\<lparr>n_MaxSlots := 4\<rparr>]" "()"]
  by (auto simp: has_room_def mk_node_def)

end
