(* ===== verification/Go_Strings.thy ===== *)
theory Go_Strings
  imports Helion_Prelude
begin

text \<open>
  The byte classes and the functions of Go's \<open>strings\<close> and \<open>path\<close> packages that the validators of the
  API use: \<open>ContainsAny\<close>, \<open>Split\<close>, \<open>Join\<close>, \<open>TrimSpace\<close>, \<open>ToLower\<close>, \<open>ToUpper\<close> and \<open>path.Clean\<close>, on byte
  strings.

  The lemmas show that splitting inverts joining, that trimming leaves no white space at either
  end, and what a cleaned path looks like.
\<close>

section \<open>Byte classes\<close>

definition byte_range :: "nat \<Rightarrow> nat \<Rightarrow> char \<Rightarrow> bool" where
  "byte_range lo hi b \<longleftrightarrow> of_char b \<in> {lo..hi}"

text \<open>The class \<open>[a-zA-Z0-9]\<close>, by its byte ranges.\<close>

definition alnum :: "char \<Rightarrow> bool" where
  "alnum b \<longleftrightarrow> byte_range 97 122 b \<or> byte_range 65 90 b \<or> byte_range 48 57 b"

definition control_byte :: "char \<Rightarrow> bool" where
  "control_byte b \<longleftrightarrow> of_char b < (32 :: nat) \<or> of_char b = (127 :: nat)"

definition NUL :: char where
  "NUL = CHR 0x00"

text \<open>\<open>ContainsAny\<close> with ASCII characters only.\<close>

definition ContainsAny :: "string \<Rightarrow> string \<Rightarrow> bool" where
  "ContainsAny s chars \<longleftrightarrow> list_ex (\<lambda>c. c \<in> set chars) s"

lemma ContainsAny_iff: "ContainsAny s chars \<longleftrightarrow> set s \<inter> set chars \<noteq> {}"
  by (auto simp: ContainsAny_def list_ex_iff)

section \<open>Splitting and joining\<close>

fun Split :: "string \<Rightarrow> char \<Rightarrow> string list" where
  "Split [] sep = [[]]"
| "Split (c # s) sep = (if c = sep then [] # Split s sep
     else case Split s sep of [] \<Rightarrow> [[c]] | p # ps \<Rightarrow> (c # p) # ps)"

fun Join :: "string list \<Rightarrow> string \<Rightarrow> string" where
  "Join [] sep = []"
| "Join [p] sep = p"
| "Join (p # q # ps) sep = p @ sep @ Join (q # ps) sep"

lemma Split_not_Nil [simp]: "Split s sep \<noteq> []"
  by (induction s) (auto split: list.splits)

lemma Join_Cons: "Join (p # ps) sep = (if ps = [] then p else p @ sep @ Join ps sep)"
  by (cases ps) simp_all

lemma Split_notin: "sep \<notin> set s \<Longrightarrow> Split s sep = [s]"
  by (induction s) auto

lemma Split_append: "sep \<notin> set p \<Longrightarrow> Split (p @ sep # s) sep = p # Split s sep"
  by (induction p) auto

lemma Split_Join: "ps \<noteq> [] \<Longrightarrow> \<forall>p \<in> set ps. sep \<notin> set p \<Longrightarrow> Split (Join ps [sep]) sep = ps"
proof (induction ps)
  case (Cons p ps)
  then show ?case by (cases ps) (simp_all add: Split_notin Split_append)
qed simp

lemma Join_Split: "Join (Split s sep) [sep] = s"
proof (induction s)
  case (Cons c s)
  obtain p ps where "Split s sep = p # ps" by (meson Split_not_Nil list.exhaust)
  with Cons.IH show ?case by (auto simp: Join_Cons split: if_splits)
qed simp

lemma Split_parts: "p \<in> set (Split s sep) \<Longrightarrow> sep \<notin> set p"
proof (induction s arbitrary: p)
  case (Cons c s)
  obtain q qs where "Split s sep = q # qs" by (meson Split_not_Nil list.exhaust)
  with Cons show ?case by (auto split: if_splits)
qed simp

lemma Split_append_sep: "Split (s @ sep # t) sep = Split s sep @ Split t sep"
proof (induction s)
  case (Cons c s)
  obtain q qs where "Split s sep = q # qs" by (meson Split_not_Nil list.exhaust)
  with Cons show ?case by auto
qed simp

section \<open>White space\<close>

text \<open>The encodings of the runes \<open>unicode.IsSpace\<close> accepts.\<close>

definition space_runes :: "string list" where
  "space_runes = [[CHR 0x09], [CHR 0x0A], [CHR 0x0B], [CHR 0x0C], [CHR 0x0D], [CHR 0x20], [CHR 0xC2, CHR 0x85],
     [CHR 0xC2, CHR 0xA0], [CHR 0xE1, CHR 0x9A, CHR 0x80], [CHR 0xE2, CHR 0x80, CHR 0xA8], [CHR 0xE2, CHR 0x80, CHR 0xA9],
     [CHR 0xE2, CHR 0x80, CHR 0xAF], [CHR 0xE2, CHR 0x81, CHR 0x9F], [CHR 0xE3, CHR 0x80, CHR 0x80]] @
     map (\<lambda>n. [CHR 0xE2, CHR 0x80, char_of (0x80 + n)]) [0..<11]"

function trim_left :: "string list \<Rightarrow> string \<Rightarrow> string" where
  "trim_left runes s = (case List.find (\<lambda>r. r \<noteq> [] \<and> HasPrefix s r) runes of
      None \<Rightarrow> s | Some r \<Rightarrow> trim_left runes (drop (length r) s))"
  by pat_completeness auto
termination
proof (relation "measure (\<lambda>(runes, s). length s)")
  fix runes s r
  assume "List.find (\<lambda>r. r \<noteq> [] \<and> HasPrefix s r) runes = Some r"
  then have "r \<noteq> []" and "HasPrefix s r" by (auto dest: find_SomeD)
  then show "((runes, drop (length r) s), (runes, s)) \<in> measure (\<lambda>(runes, s). length s)"
    by (auto simp: HasPrefix_iff)
qed simp

declare trim_left.simps [simp del]

definition TrimSpace :: "string \<Rightarrow> string" where
  "TrimSpace s = rev (trim_left (map rev space_runes) (rev (trim_left space_runes s)))"

definition unpadded :: "string \<Rightarrow> bool" where
  "unpadded s \<longleftrightarrow> \<not> list_ex (HasPrefix s) space_runes \<and> \<not> list_ex (HasSuffix s) space_runes"

lemma trim_left_id: "\<not> list_ex (HasPrefix s) runes \<Longrightarrow> trim_left runes s = s"
  by (subst trim_left.simps) (auto simp: list_ex_iff find_None_iff split: option.splits dest: find_SomeD)

lemma TrimSpace_id: "unpadded s \<Longrightarrow> TrimSpace s = s"
proof -
  assume "unpadded s"
  then have "\<not> list_ex (HasPrefix (rev s)) (map rev space_runes)" and "\<not> list_ex (HasPrefix s) space_runes"
    by (auto simp: unpadded_def list_ex_iff HasSuffix_def)
  then show ?thesis by (simp add: TrimSpace_def trim_left_id)
qed

lemma trim_left_suffix: "\<exists>u. s = u @ trim_left runes s"
proof (induction runes s rule: trim_left.induct)
  case (1 runes s)
  show ?case
  proof (cases "List.find (\<lambda>r. r \<noteq> [] \<and> HasPrefix s r) runes")
    case (Some r)
    then obtain t where s: "s = r @ t" by (auto simp: HasPrefix_iff dest: find_SomeD)
    then have "trim_left runes s = trim_left runes t" using Some by (simp add: trim_left.simps [of runes "r @ t"])
    with 1 [OF Some] s show ?thesis by (metis append.assoc append_eq_conv_conj)
  qed (simp add: trim_left.simps)
qed

lemma TrimSpace_infix: "\<exists>u v. s = u @ TrimSpace s @ v"
proof -
  obtain u where u: "s = u @ trim_left space_runes s" using trim_left_suffix by blast
  obtain v where "rev (trim_left space_runes s) = v @ trim_left (map rev space_runes) (rev (trim_left space_runes s))"
    using trim_left_suffix by blast
  then have "trim_left space_runes s = TrimSpace s @ rev v"
    unfolding TrimSpace_def by (metis rev_append rev_rev_ident)
  with u show ?thesis by metis
qed

lemma separators_not_space: "list_all (\<lambda>r. list_all (\<lambda>x. x \<notin> set '':;,='') r) space_runes"
  by code_simp

lemma unpadded_glue:
  assumes "unpadded u" and "unpadded v" and "c \<in> set '':;,=''"
  shows "unpadded (u @ c # v)"
proof -
  have c: "c \<notin> set r" if "r \<in> set space_runes" for r using separators_not_space assms(3) that by (auto simp: list_all_iff)
  have "\<not> HasPrefix (u @ c # v) r" if r: "r \<in> set space_runes" for r
  proof
    assume "HasPrefix (u @ c # v) r"
    then obtain t where "u @ c # v = r @ t" by (auto simp: HasPrefix_iff)
    with c [OF r] have "\<exists>t'. u = r @ t'" by (auto simp: append_eq_append_conv2 Cons_eq_append_conv)
    with assms(1) r show False by (auto simp: unpadded_def list_ex_iff HasPrefix_iff)
  qed
  moreover have "\<not> HasSuffix (u @ c # v) r" if r: "r \<in> set space_runes" for r
  proof
    assume "HasSuffix (u @ c # v) r"
    then obtain t where "u @ c # v = t @ r" by (auto simp: HasSuffix_iff)
    with c [OF r] have "\<exists>t'. v = t' @ r" by (auto simp: append_eq_append_conv2 Cons_eq_append_conv append_eq_Cons_conv)
    with assms(2) r show False by (auto simp: unpadded_def list_ex_iff HasSuffix_iff)
  qed
  ultimately show ?thesis by (auto simp: unpadded_def list_ex_iff)
qed

lemma unpadded_Join:
  "ps \<noteq> [] \<Longrightarrow> \<forall>p \<in> set ps. unpadded p \<Longrightarrow> c \<in> set '':;,='' \<Longrightarrow> unpadded (Join ps [c])"
proof (induction ps)
  case (Cons p ps)
  then show ?case using unpadded_glue [of p "Join ps [c]" c] by (cases "ps = []") (simp_all add: Join_Cons)
qed simp

lemma set_Join: "set (Join ps sep) \<subseteq> \<Union> (set ` set ps) \<union> set sep"
  by (induction ps) (auto simp: Join_Cons)

section \<open>Letter case\<close>

text \<open>
  The runes whose lower (upper) case is an ASCII letter are the ASCII letters and the dotted I and the
  Kelvin sign (the dotless i and the long s). All other bytes are kept: the code compares the
  results with ASCII words only, which contain none of them.
\<close>

fun ToLower :: "string \<Rightarrow> string" where
  "ToLower [] = []"
| "ToLower (c # s) =
     (if HasPrefix (c # s) [CHR 0xC4, CHR 0xB0] then CHR ''i'' # ToLower (drop 1 s)
      else if HasPrefix (c # s) [CHR 0xE2, CHR 0x84, CHR 0xAA] then CHR ''k'' # ToLower (drop 2 s)
      else (if byte_range 65 90 c then char_of (of_char c + 32 :: nat) else c) # ToLower s)"

fun ToUpper :: "string \<Rightarrow> string" where
  "ToUpper [] = []"
| "ToUpper (c # s) =
     (if HasPrefix (c # s) [CHR 0xC4, CHR 0xB1] then CHR ''I'' # ToUpper (drop 1 s)
      else if HasPrefix (c # s) [CHR 0xC5, CHR 0xBF] then CHR ''S'' # ToUpper (drop 1 s)
      else (if byte_range 97 122 c then char_of (of_char c - 32 :: nat) else c) # ToUpper s)"

section \<open>Paths\<close>

text \<open>\<open>path.Clean\<close>, on the segments between slashes.\<close>

fun clean_segs :: "bool \<Rightarrow> string list \<Rightarrow> string list \<Rightarrow> string list" where
  "clean_segs rooted out [] = out"
| "clean_segs rooted out (s # ss) =
     (if s = [] \<or> s = ''.'' then clean_segs rooted out ss
      else if s = ''..'' then
        (if out \<noteq> [] \<and> last out \<noteq> ''..'' then clean_segs rooted (butlast out) ss
         else if rooted then clean_segs rooted out ss
         else clean_segs rooted (out @ [''..'']) ss)
      else clean_segs rooted (out @ [s]) ss)"

definition Clean :: "string \<Rightarrow> string" where
  "Clean p =
     (if p = [] then ''.''
      else let rooted = (hd p = CHR ''/''); segs = clean_segs rooted [] (Split p (CHR ''/'')) in
        if rooted then CHR ''/'' # Join segs ''/'' else if segs = [] then ''.'' else Join segs ''/'')"

definition plain_seg :: "string \<Rightarrow> bool" where
  "plain_seg s \<longleftrightarrow> s \<noteq> [] \<and> s \<noteq> ''.'' \<and> s \<noteq> ''..''"

lemma clean_segs_plain: "list_all plain_seg ss \<Longrightarrow> clean_segs rooted out ss = out @ ss"
  by (induction ss arbitrary: out) (auto simp: plain_seg_def)

lemma clean_segs_append: "clean_segs rooted out (ss @ ts) = clean_segs rooted (clean_segs rooted out ss) ts"
  by (induction ss arbitrary: out) auto

lemma clean_segs_rooted: "list_all plain_seg out \<Longrightarrow> list_all plain_seg (clean_segs True out ss)"
proof (induction ss arbitrary: out)
  case (Cons s ss)
  have "list_all plain_seg (butlast out)" using Cons.prems by (auto simp: list_all_iff dest: in_set_butlastD)
  moreover have "s \<noteq> [] \<Longrightarrow> s \<noteq> ''.'' \<Longrightarrow> s \<noteq> ''..'' \<Longrightarrow> list_all plain_seg (out @ [s])"
    using Cons.prems by (auto simp: plain_seg_def list_all_iff)
  ultimately show ?case using Cons by simp
qed simp

lemma clean_segs_subset: "set (clean_segs True out ss) \<subseteq> set out \<union> set ss"
proof (induction ss arbitrary: out)
  case (Cons s ss)
  have "set (butlast out) \<subseteq> set out" by (auto dest: in_set_butlastD)
  with Cons.IH [of out] Cons.IH [of "butlast out"] Cons.IH [of "out @ [s]"] show ?case by auto
qed simp

lemma Join_append: "xs \<noteq> [] \<Longrightarrow> ys \<noteq> [] \<Longrightarrow> Join (xs @ ys) sep = Join xs sep @ sep @ Join ys sep"
  by (induction xs) (auto simp: Join_Cons)

text \<open>The directories on the way to a rooted path, after cleaning.\<close>

definition path_segs :: "string \<Rightarrow> string list" where
  "path_segs p = clean_segs True [] (Split p (CHR ''/''))"

lemma path_segs_plain: "list_all plain_seg (path_segs p)"
  unfolding path_segs_def by (rule clean_segs_rooted) simp

lemma path_segs_slashless: "s \<in> set (path_segs p) \<Longrightarrow> CHR ''/'' \<notin> set s"
  using clean_segs_subset [of "[]" "Split p (CHR ''/'')"] Split_parts unfolding path_segs_def by auto

lemma Join_plain_Nil: "list_all plain_seg ss \<Longrightarrow> Join ss sep = [] \<longleftrightarrow> ss = []"
  by (cases ss) (auto simp: Join_Cons plain_seg_def)

lemma Clean_rooted: "Clean (CHR ''/'' # p) = CHR ''/'' # Join (path_segs (CHR ''/'' # p)) ''/''"
  by (simp add: Clean_def path_segs_def)

text \<open>A rooted path with a slash after every segment.\<close>

definition enclose :: "string list \<Rightarrow> string" where
  "enclose ss = CHR ''/'' # concat (map (\<lambda>s. s @ ''/'') ss)"

lemma enclose_Join: "ss \<noteq> [] \<Longrightarrow> enclose ss = CHR ''/'' # Join ss ''/'' @ ''/''"
  unfolding enclose_def by (induction ss) (auto simp: Join_Cons)

lemma slash_prefix:
  "CHR ''/'' \<notin> set a \<Longrightarrow> CHR ''/'' \<notin> set b \<Longrightarrow> a @ CHR ''/'' # x = b @ CHR ''/'' # y \<longleftrightarrow> a = b \<and> x = y"
  by (metis Split_append list.inject same_append_eq)

lemma HasPrefix_enclose:
  assumes "\<forall>s \<in> set a \<union> set b. CHR ''/'' \<notin> set s"
  shows "HasPrefix (enclose a) (enclose b) \<longleftrightarrow> (\<exists>r. a = b @ r)"
proof -
  have "(\<exists>r. concat (map (\<lambda>s. s @ ''/'') a) = concat (map (\<lambda>s. s @ ''/'') b) @ r) \<longleftrightarrow> (\<exists>r. a = b @ r)"
    using assms
  proof (induction b arbitrary: a)
    case (Cons t b)
    show ?case
    proof (cases a)
      case (Cons s a')
      with Cons.prems have "s @ ''/'' @ x = t @ ''/'' @ y \<longleftrightarrow> s = t \<and> x = y" for x y
        using slash_prefix [of s t] by simp
      with Cons Cons.IH [of a'] Cons.prems show ?thesis by auto
    qed simp
  qed simp
  then show ?thesis by (simp add: enclose_def HasPrefix_iff)
qed

text \<open>A plain relative path stays below the directory it is joined to, and is not rewritten.\<close>

lemma Clean_below:
  assumes "list_all plain_seg (Split p (CHR ''/''))"
  shows "Clean (CHR ''/'' # base @ CHR ''/'' # p) =
    (if Clean (CHR ''/'' # base) = ''/'' then ''/'' @ p else Clean (CHR ''/'' # base) @ ''/'' @ p)"
proof -
  let ?b = "path_segs (CHR ''/'' # base)"
  have "Split (CHR ''/'' # base @ CHR ''/'' # p) (CHR ''/'') = Split (CHR ''/'' # base) (CHR ''/'') @ Split p (CHR ''/'')"
    using Split_append_sep [of "CHR ''/'' # base" "CHR ''/''" p] by simp
  then have "path_segs (CHR ''/'' # base @ CHR ''/'' # p) = ?b @ Split p (CHR ''/'')"
    unfolding path_segs_def by (simp only: clean_segs_append clean_segs_plain [OF assms])
  moreover have "Clean (CHR ''/'' # base) = ''/'' \<longleftrightarrow> ?b = []"
    by (simp add: Clean_rooted Join_plain_Nil [OF path_segs_plain])
  ultimately show ?thesis by (simp add: Clean_rooted Join_append Join_Split)
qed

section \<open>Search and replacement\<close>

fun str_Contains :: "string \<Rightarrow> string \<Rightarrow> bool" where
  "str_Contains [] sub = (sub = [])"
| "str_Contains (c # s) sub = (HasPrefix (c # s) sub \<or> str_Contains s sub)"

lemma str_Contains_iff: "str_Contains s sub \<longleftrightarrow> (\<exists>u w. s = u @ sub @ w)"
proof (induction s)
  case (Cons c s)
  have "(\<exists>u w. c # s = u @ sub @ w) \<longleftrightarrow> (\<exists>w. c # s = sub @ w) \<or> (\<exists>u w. s = u @ sub @ w)"
    by (metis append_Cons append_Nil list.exhaust list.inject)
  with Cons show ?case by (simp add: HasPrefix_iff)
qed simp

text \<open>\<open>ReplaceAll\<close>, from left to right without overlaps. The callers pass no empty needle.\<close>

function ReplaceAll :: "string \<Rightarrow> string \<Rightarrow> string \<Rightarrow> string" where
  "ReplaceAll [] old new = []"
| "ReplaceAll (c # s) old new =
     (if old \<noteq> [] \<and> HasPrefix (c # s) old then new @ ReplaceAll (drop (length old) (c # s)) old new else c # ReplaceAll s old new)"
  by pat_completeness auto
termination
  by (relation "measure (\<lambda>(s, old, new). length s)") (auto simp: neq_Nil_conv)

section \<open>Decimal\<close>

function Itoa :: "nat \<Rightarrow> string" where
  "Itoa n = (if n < 10 then [char_of (48 + n)] else Itoa (n div 10) @ [char_of (48 + n mod 10)])"
  by pat_completeness auto
termination
  by (relation "measure id") auto

declare Itoa.simps [simp del]

text \<open>Zero-padded to a width, as \<open>%0wd\<close> prints an unsigned number.\<close>

definition pad_dec :: "nat \<Rightarrow> nat \<Rightarrow> string" where
  "pad_dec w n = replicate (w - length (Itoa n)) (CHR ''0'') @ Itoa n"

definition dec_value :: "string \<Rightarrow> nat" where
  "dec_value s = foldl (\<lambda>a c. 10 * a + (of_char c - 48)) 0 s"

lemma digit_of_char: "n < 10 \<Longrightarrow> (of_char (char_of (48 + n :: nat)) :: nat) = 48 + n"
  by simp

lemma dec_value_Itoa: "dec_value (Itoa n) = n"
proof (induction n rule: Itoa.induct)
  case (1 n)
  show ?case
  proof (cases "n < 10")
    case True
    then show ?thesis by (simp add: Itoa.simps [of n] dec_value_def digit_of_char)
  next
    case False
    have "foldl (\<lambda>a c. 10 * a + (of_char c - 48)) 0 (Itoa (n div 10)) = n div 10" using 1 False by (simp add: dec_value_def)
    moreover have "(of_char (char_of (48 + n mod 10)) :: nat) = 48 + n mod 10" by (rule digit_of_char) simp
    ultimately show ?thesis using False by (simp add: Itoa.simps [of n] dec_value_def)
  qed
qed

lemma dec_value_pad: "dec_value (pad_dec w n) = n"
proof -
  have "foldl (\<lambda>a c. 10 * a + (of_char c - 48)) 0 (replicate k (CHR ''0'')) = (0 :: nat)" for k by (induction k) simp_all
  then show ?thesis using dec_value_Itoa [of n] by (simp add: pad_dec_def dec_value_def)
qed

lemma pad_dec_inject [simp]: "pad_dec w m = pad_dec w n \<longleftrightarrow> m = n"
  by (metis dec_value_pad)

lemma Itoa_digits: "list_all (byte_range 48 57) (Itoa n)"
proof (induction n rule: Itoa.induct)
  case (1 n)
  have d: "byte_range 48 57 (char_of (48 + m))" if "m < 10" for m :: nat using that by (simp add: byte_range_def)
  show ?case
  proof (cases "n < 10")
    case True
    then show ?thesis using d by (simp add: Itoa.simps [of n])
  next
    case False
    with 1 d [of "n mod 10"] show ?thesis by (simp add: Itoa.simps [of n])
  qed
qed

lemma pad_dec_digits: "list_all (byte_range 48 57) (pad_dec w n)"
  using Itoa_digits [of n] by (auto simp: pad_dec_def list_all_iff byte_range_def set_replicate_conv_if)

end
