(* ===== verification/Node_Registry.thy ===== *)
theory Node_Registry
  imports Scheduler Go_Strings
begin

text \<open>
  The node registry of \<open>internal/cluster/registry*.go\<close> with certificate pinning (\<open>certpin.go\<close>).
  The registry is its node entries, the revoked set, the certificate pinner's state, the streams it
  cancelled, and the records its background goroutines were given to save and to audit, in order.
  Entries are the atomically updated fields of \<open>nodeEntry\<close>; a heartbeat is one step.

  From outside the repository: the SHA-256 fingerprint of a certificate is a function argument \<open>fp\<close>.
  The ML-DSA verifier and the certificate issuer are the optional functions the code injects.
  \<open>CertPinner\<close> is the locale \<open>cert_pinner\<close>, interpreted on \<open>MemCertPinner\<close>.

  The lemmas show that every node the scheduler can pick is registered under a valid ID, not revoked,
  heard from within the staleness bound and carries sanitised labels; that a pin holds until it is
  revoked, for registrations that present a certificate; and that staleness and health are
  complements.
\<close>

section \<open>Node identity and labels\<close>

definition validateNodeID :: "string \<Rightarrow> bool" where
  "validateNodeID i = (case i of [] \<Rightarrow> False
     | c # cs \<Rightarrow> alnum c \<and> list_all (\<lambda>x. alnum x \<or> x = CHR ''-'') cs \<and> length cs \<le> 62)"

definition validLabelKey :: "string \<Rightarrow> bool" where
  "validLabelKey k \<longleftrightarrow> k \<noteq> [] \<and> length k \<le> 63 \<and> list_all (\<lambda>b. b \<noteq> CHR ''='' \<and> \<not> control_byte b) k"

definition validLabelValue :: "string \<Rightarrow> bool" where
  "validLabelValue v \<longleftrightarrow> length v \<le> 253 \<and> list_all (\<lambda>b. \<not> control_byte b) v"

definition truncateLabelMap :: "strmap \<Rightarrow> nat \<Rightarrow> strmap" where
  "truncateLabelMap src n = take n src"

definition sanitiseNodeLabels :: "strmap \<Rightarrow> strmap" where
  "sanitiseNodeLabels src =
     (let src = (if 32 < length src then truncateLabelMap src 32 else src)
      in filter (\<lambda>(k, v). validLabelKey k \<and> validLabelValue v) src)"

definition formatLabelsForAudit :: "strmap \<Rightarrow> string" where
  "formatLabelsForAudit labels =
     (if labels = [] then ''{}''
      else let kvs = map (\<lambda>k. k @ ''='' @ the (map_of labels k)) (sort (map fst labels))
        in ''{'' @ hd kvs @ concat (map (\<lambda>kv. CHR '','' # kv) (tl kvs)) @ ''}'')"

section \<open>Node entries\<close>

record node_entry =
  e_nodeID :: string
  e_registeredAt :: time
  e_labels :: strmap
  e_address :: string
  e_lastSeenNano :: int
  e_runningJobs :: "32 word"
  e_cpuMillicores :: "32 word"
  e_totalMemBytes :: "64 word"
  e_maxSlots :: "32 word"
  e_totalGpus :: "32 word"

text \<open>Unix time 0 as a Go time.\<close>

definition unix_epoch :: time where
  "unix_epoch = 62135596800 * second"

definition storeLastSeen :: "time \<Rightarrow> node_entry \<Rightarrow> node_entry" where
  "storeLastSeen t e = e\<lparr>e_lastSeenNano := t - unix_epoch\<rparr>"

definition loadLastSeen :: "node_entry \<Rightarrow> time" where
  "loadLastSeen e = (if e_lastSeenNano e = 0 then time_zero else e_lastSeenNano e + unix_epoch)"

definition storeCapacity :: "32 word \<Rightarrow> 64 word \<Rightarrow> 32 word \<Rightarrow> 32 word \<Rightarrow> node_entry \<Rightarrow> node_entry" where
  "storeCapacity cpu mem slots gpus e =
     e\<lparr>e_cpuMillicores := cpu, e_totalMemBytes := mem, e_maxSlots := slots, e_totalGpus := gpus\<rparr>"

definition isHealthy :: "time \<Rightarrow> duration \<Rightarrow> node_entry \<Rightarrow> bool" where
  "isHealthy now staleAfter e \<longleftrightarrow>
     \<not> IsZero (loadLastSeen e) \<and> time_sub now (loadLastSeen e) < staleAfter"

definition snapshot :: "time \<Rightarrow> duration \<Rightarrow> node_entry \<Rightarrow> node" where
  "snapshot now staleAfter e = \<lparr>n_NodeID = e_nodeID e, n_Address = e_address e,
     n_Healthy = isHealthy now staleAfter e, n_LastSeen = loadLastSeen e,
     n_RunningJobs = e_runningJobs e, n_RegisteredAt = e_registeredAt e,
     n_CpuMillicores = e_cpuMillicores e, n_TotalMemBytes = e_totalMemBytes e,
     n_MaxSlots = e_maxSlots e, n_TotalGpus = e_totalGpus e, n_Labels = e_labels e\<rparr>"

section \<open>Certificate pinning\<close>

text \<open>\<open>setp\<close> and \<open>delp\<close> report success as the first component.\<close>

record 'c pinner_ops =
  getp :: "'c \<Rightarrow> (string \<rightharpoonup> string)"
  setp :: "'c \<Rightarrow> string \<Rightarrow> string \<Rightarrow> bool \<times> 'c"
  delp :: "'c \<Rightarrow> string \<Rightarrow> bool \<times> 'c"

locale cert_pinner =
  fixes ops :: "'c pinner_ops"
  assumes set_ok: "setp ops c i f = (True, c') \<Longrightarrow> getp ops c' = (getp ops c)(i \<mapsto> f)"
    and set_err: "setp ops c i f = (False, c') \<Longrightarrow> getp ops c' = getp ops c"
    and del_ok: "delp ops c i = (True, c') \<Longrightarrow> getp ops c' = (getp ops c)(i := None)"
    and del_err: "delp ops c i = (False, c') \<Longrightarrow> getp ops c' = getp ops c"

record mem_cert_pinner =
  pins :: "string \<rightharpoonup> string"

definition NewConfiguredCertPinner :: "(string \<rightharpoonup> string) \<Rightarrow> mem_cert_pinner" where
  "NewConfiguredCertPinner m = \<lparr>pins = m\<rparr>"

definition mem_GetPin :: "mem_cert_pinner \<Rightarrow> (string \<rightharpoonup> string)" where
  "mem_GetPin m = pins m"

definition mem_SetPin :: "mem_cert_pinner \<Rightarrow> string \<Rightarrow> string \<Rightarrow> bool \<times> mem_cert_pinner" where
  "mem_SetPin m nodeID fingerprint = (True, m\<lparr>pins := (pins m)(nodeID \<mapsto> fingerprint)\<rparr>)"

definition mem_DeletePin :: "mem_cert_pinner \<Rightarrow> string \<Rightarrow> bool \<times> mem_cert_pinner" where
  "mem_DeletePin m nodeID = (True, m\<lparr>pins := (pins m)(nodeID := None)\<rparr>)"

definition mem_ops :: "mem_cert_pinner pinner_ops" where
  "mem_ops = \<lparr>getp = mem_GetPin, setp = mem_SetPin, delp = mem_DeletePin\<rparr>"

interpretation mcp: cert_pinner mem_ops
  by unfold_locales (auto simp: mem_ops_def mem_GetPin_def mem_SetPin_def mem_DeletePin_def)

section \<open>The registry\<close>

record register_request =
  rq_NodeId :: string
  rq_Address :: string
  rq_Certificate :: string
  rq_Labels :: strmap

record heartbeat_message =
  hb_NodeId :: string
  hb_RunningJobs :: "32 word"
  hb_CpuMillicores :: "32 word"
  hb_TotalMemoryBytes :: "64 word"
  hb_MaxSlots :: "32 word"
  hb_TotalGpus :: "32 word"

datatype registry_error = InvalidNodeID | NodeRevoked | MLDSAFailed | ErrCertFingerprintMismatch
  | ErrNodeNotRegistered

datatype registry_audit = AuditRegistered string string bool string | AuditStale string | AuditRevoked string string

record 'c registry =
  rg_nodes :: "string \<rightharpoonup> node_entry"
  rg_revoked :: "string set"
  rg_pinner :: "'c option"
  rg_staleAfter :: duration
  rg_saved :: "node list"
  rg_audit :: "registry_audit list"
  rg_cancelled :: "string list"

definition NewRegistry :: "'c option \<Rightarrow> duration \<Rightarrow> 'c registry" where
  "NewRegistry cp heartbeatInterval = \<lparr>rg_nodes = Map.empty, rg_revoked = {}, rg_pinner = cp,
     rg_staleAfter = 2 * heartbeatInterval, rg_saved = [], rg_audit = [], rg_cancelled = []\<rparr>"

definition IsRevoked :: "string \<Rightarrow> 'c registry \<Rightarrow> bool" where
  "IsRevoked nodeID r \<longleftrightarrow> nodeID \<in> rg_revoked r"

text \<open>The certificate checks of \<open>Register\<close>: the rejection, or the pinner's new state.\<close>

definition check_cert :: "'c pinner_ops \<Rightarrow> (string \<Rightarrow> string) \<Rightarrow> (string \<Rightarrow> bool) option \<Rightarrow>
    register_request \<Rightarrow> 'c registry \<Rightarrow> registry_error + 'c option" where
  "check_cert ops fp verifier req r =
     (if rq_Certificate req = [] then Inr (rg_pinner r)
      else if (case verifier of None \<Rightarrow> False | Some vf \<Rightarrow> \<not> vf (rq_Certificate req)) then Inl MLDSAFailed
      else case rg_pinner r of None \<Rightarrow> Inr None
        | Some c \<Rightarrow> (case getp ops c (rq_NodeId req) of
              None \<Rightarrow> Inr (Some (snd (setp ops c (rq_NodeId req) (fp (rq_Certificate req)))))
            | Some stored \<Rightarrow>
                if stored \<noteq> fp (rq_Certificate req) then Inl ErrCertFingerprintMismatch else Inr (Some c)))"

text \<open>Returns the error, or the signed certificate (empty when none was issued).\<close>

definition Register :: "'c pinner_ops \<Rightarrow> (string \<Rightarrow> string) \<Rightarrow> (string \<Rightarrow> bool) option \<Rightarrow>
    (string \<Rightarrow> string option) option \<Rightarrow> time \<Rightarrow> register_request \<Rightarrow> 'c registry \<Rightarrow>
    (registry_error + string) \<times> 'c registry" where
  "Register ops fp verifier issuer now req r =
     (if \<not> validateNodeID (rq_NodeId req) then (Inl InvalidNodeID, r)
      else if IsRevoked (rq_NodeId req) r then (Inl NodeRevoked, r)
      else case check_cert ops fp verifier req r of
          Inl e \<Rightarrow> (Inl e, r)
        | Inr cp \<Rightarrow>
           (let labels = sanitiseNodeLabels (rq_Labels req);
                old = rg_nodes r (rq_NodeId req);
                entry = (case old of
                    None \<Rightarrow> \<lparr>e_nodeID = rq_NodeId req, e_registeredAt = now, e_labels = labels,
                       e_address = rq_Address req, e_lastSeenNano = 0, e_runningJobs = 0, e_cpuMillicores = 0,
                       e_totalMemBytes = 0, e_maxSlots = 0, e_totalGpus = 0\<rparr>
                  | Some e \<Rightarrow> e\<lparr>e_address := rq_Address req, e_labels := labels\<rparr>);
                entry = storeLastSeen now entry;
                cert = (case issuer of None \<Rightarrow> [] | Some iss \<Rightarrow>
                    (case iss (rq_NodeId req) of None \<Rightarrow> [] | Some pem \<Rightarrow> pem))
            in (Inr cert,
                r\<lparr>rg_nodes := (rg_nodes r)(rq_NodeId req \<mapsto> entry), rg_pinner := cp,
                  rg_saved := rg_saved r @ [snapshot now (rg_staleAfter r) entry],
                  rg_audit := rg_audit r @ [AuditRegistered (rq_NodeId req) (rq_Address req) (old = None)
                     (formatLabelsForAudit labels)]\<rparr>)))"

definition HandleHeartbeat :: "time \<Rightarrow> heartbeat_message \<Rightarrow> 'c registry \<Rightarrow> registry_error option \<times> 'c registry" where
  "HandleHeartbeat now msg r =
     (case rg_nodes r (hb_NodeId msg) of None \<Rightarrow> (Some ErrNodeNotRegistered, r)
      | Some entry \<Rightarrow>
          let entry = (storeLastSeen now entry)\<lparr>e_runningJobs := hb_RunningJobs msg\<rparr>;
              entry = (if 0 < hb_CpuMillicores msg \<or> 0 < hb_TotalMemoryBytes msg \<or> 0 < hb_MaxSlots msg
                          \<or> 0 < hb_TotalGpus msg
                       then storeCapacity (hb_CpuMillicores msg) (hb_TotalMemoryBytes msg) (hb_MaxSlots msg)
                              (hb_TotalGpus msg) entry
                       else entry)
          in (None, r\<lparr>rg_nodes := (rg_nodes r)(hb_NodeId msg \<mapsto> entry),
                      rg_saved := rg_saved r @ [snapshot now (rg_staleAfter r) entry]\<rparr>))"

definition stale :: "time \<Rightarrow> duration \<Rightarrow> node_entry \<Rightarrow> bool" where
  "stale now staleAfter e \<longleftrightarrow> IsZero (loadLastSeen e) \<or> staleAfter \<le> time_sub now (loadLastSeen e)"

text \<open>\<open>ord\<close> is the order in which the node map is visited.\<close>

definition PruneStaleNodes :: "time \<Rightarrow> string list \<Rightarrow> 'c registry \<Rightarrow> string list \<times> 'c registry" where
  "PruneStaleNodes now ord r =
     (let st = filter (stale now (rg_staleAfter r)) (range_values ord (rg_nodes r)) in
      (map e_nodeID st,
       r\<lparr>rg_saved := rg_saved r @ map (snapshot now (rg_staleAfter r)) st,
         rg_audit := rg_audit r @ map (\<lambda>e. AuditStale (e_nodeID e)) st\<rparr>))"

definition RevokeNode :: "'c pinner_ops \<Rightarrow> bool \<Rightarrow> string \<Rightarrow> string \<Rightarrow> 'c registry \<Rightarrow> 'c registry" where
  "RevokeNode ops streams nodeID reason r =
     r\<lparr>rg_revoked := insert nodeID (rg_revoked r),
       rg_nodes := (rg_nodes r)(nodeID := None),
       rg_cancelled := (if streams then rg_cancelled r @ [nodeID] else rg_cancelled r),
       rg_pinner := (case rg_pinner r of None \<Rightarrow> None | Some c \<Rightarrow> Some (snd (delp ops c nodeID))),
       rg_audit := rg_audit r @ [AuditRevoked nodeID reason]\<rparr>"

definition Snapshot :: "time \<Rightarrow> string list \<Rightarrow> 'c registry \<Rightarrow> node list" where
  "Snapshot now ord r = map (snapshot now (rg_staleAfter r)) (range_values ord (rg_nodes r))"

definition HealthyNodes :: "time \<Rightarrow> string list \<Rightarrow> 'c registry \<Rightarrow> node list" where
  "HealthyNodes now ord r =
     map (snapshot now (rg_staleAfter r))
       (filter (isHealthy now (rg_staleAfter r)) (range_values ord (rg_nodes r)))"

definition Lookup :: "time \<Rightarrow> string \<Rightarrow> 'c registry \<Rightarrow> node option" where
  "Lookup now nodeID r = map_option (snapshot now (rg_staleAfter r)) (rg_nodes r nodeID)"

definition Len :: "'c registry \<Rightarrow> nat" where
  "Len r = card (dom (rg_nodes r))"

definition CountHealthy :: "time \<Rightarrow> string list \<Rightarrow> 'c registry \<Rightarrow> nat" where
  "CountHealthy now ord r = length (HealthyNodes now ord r)"

definition restored_entry :: "node \<Rightarrow> node_entry" where
  "restored_entry n = \<lparr>e_nodeID = n_NodeID n, e_registeredAt = n_RegisteredAt n, e_labels = [],
     e_address = n_Address n, e_lastSeenNano = 0, e_runningJobs = 0, e_cpuMillicores = 0,
     e_totalMemBytes = 0, e_maxSlots = 0, e_totalGpus = 0\<rparr>"

text \<open>\<open>loaded\<close> is what \<open>LoadAllNodes\<close> returned.\<close>

definition RegistryRestore :: "node list \<Rightarrow> 'c registry \<Rightarrow> 'c registry" where
  "RegistryRestore loaded r =
     r\<lparr>rg_nodes := fold (\<lambda>n m. m(n_NodeID n \<mapsto> restored_entry n)) loaded (rg_nodes r)\<rparr>"

section \<open>Steps\<close>

inductive rg_step :: "'c pinner_ops \<Rightarrow> (string \<Rightarrow> string) \<Rightarrow> 'c registry \<Rightarrow> 'c registry \<Rightarrow> bool"
  for ops fp where
  register: "Register ops fp verifier issuer now req r = (res, r') \<Longrightarrow> rg_step ops fp r r'"
| heartbeat: "HandleHeartbeat now msg r = (res, r') \<Longrightarrow> rg_step ops fp r r'"
| prune: "PruneStaleNodes now ord r = (ids, r') \<Longrightarrow> rg_step ops fp r r'"
| revoke: "rg_step ops fp r (RevokeNode ops streams nodeID reason r)"

text \<open>
  The coordinator starts from an empty registry, or from the records saved on disk, all of which an
  earlier registry wrote.
\<close>

inductive rg_reachable :: "'c pinner_ops \<Rightarrow> (string \<Rightarrow> string) \<Rightarrow> 'c registry \<Rightarrow> bool" for ops fp where
  start: "rg_reachable ops fp (NewRegistry cp interval)"
| restored: "\<forall>n \<in> set loaded. validateNodeID (n_NodeID n) \<Longrightarrow>
    rg_reachable ops fp (RegistryRestore loaded (NewRegistry cp interval))"
| step: "rg_reachable ops fp r \<Longrightarrow> rg_step ops fp r r' \<Longrightarrow> rg_reachable ops fp r'"

section \<open>Invariant\<close>

definition labels_ok :: "strmap \<Rightarrow> bool" where
  "labels_ok ls \<longleftrightarrow> length ls \<le> 32 \<and> (\<forall>(k, v) \<in> set ls. validLabelKey k \<and> validLabelValue v)"

definition rg_inv :: "'c registry \<Rightarrow> bool" where
  "rg_inv r \<longleftrightarrow> (\<forall>i e. rg_nodes r i = Some e \<longrightarrow>
     e_nodeID e = i \<and> validateNodeID i \<and> i \<notin> rg_revoked r \<and> labels_ok (e_labels e))"

lemma sanitise_ok: "labels_ok (sanitiseNodeLabels ls)"
proof -
  have "length (filter P xs) \<le> 32" if "length xs \<le> 32" for P and xs :: strmap
    using that length_filter_le [of P xs] by linarith
  then show ?thesis by (auto simp: labels_ok_def sanitiseNodeLabels_def truncateLabelMap_def Let_def)
qed

lemma storeLastSeen_simps [simp]:
  "e_nodeID (storeLastSeen t e) = e_nodeID e" "e_labels (storeLastSeen t e) = e_labels e"
  by (simp_all add: storeLastSeen_def)

lemma Register_cases:
  assumes "Register ops fp verifier issuer now req r = (res, r')"
  obtains (rejected) e where "res = Inl e" "r' = r"
    | (accepted) cert cp entry where "res = Inr cert" "check_cert ops fp verifier req r = Inr cp"
      "validateNodeID (rq_NodeId req)" "rq_NodeId req \<notin> rg_revoked r"
      "rg_nodes r' = (rg_nodes r)(rq_NodeId req \<mapsto> entry)" "rg_revoked r' = rg_revoked r" "rg_pinner r' = cp"
      "rg_staleAfter r' = rg_staleAfter r"
      "e_labels entry = sanitiseNodeLabels (rq_Labels req)"
      "e_nodeID entry = (case rg_nodes r (rq_NodeId req) of None \<Rightarrow> rq_NodeId req | Some e \<Rightarrow> e_nodeID e)"
proof (cases "\<not> validateNodeID (rq_NodeId req) \<or> IsRevoked (rq_NodeId req) r")
  case True
  then show thesis using assms rejected by (auto simp: Register_def split: if_splits)
next
  case False
  show thesis
  proof (cases "check_cert ops fp verifier req r")
    case (Inl e)
    then show thesis using assms False rejected by (auto simp: Register_def)
  next
    case (Inr cp)
    then show thesis using assms False accepted
      by (auto simp: Register_def Let_def IsRevoked_def split: option.splits)
  qed
qed

lemma HandleHeartbeat_cases:
  assumes "HandleHeartbeat now msg r = (res, r')"
  obtains (rejected) "res = Some ErrNodeNotRegistered" "r' = r"
    | (accepted) e entry where "rg_nodes r (hb_NodeId msg) = Some e"
      "rg_nodes r' = (rg_nodes r)(hb_NodeId msg \<mapsto> entry)" "rg_revoked r' = rg_revoked r"
      "rg_pinner r' = rg_pinner r" "e_nodeID entry = e_nodeID e" "e_labels entry = e_labels e"
  using assms by (auto simp: HandleHeartbeat_def Let_def storeCapacity_def split: option.splits if_splits)

lemma rg_inv_step: "rg_step ops fp r r' \<Longrightarrow> rg_inv r \<Longrightarrow> rg_inv r'"
proof (induction rule: rg_step.induct)
  case (register verifier issuer now req r res r')
  from register(1) show ?case
  proof (cases rule: Register_cases)
    case (accepted cert cp entry)
    then show ?thesis using register(2) sanitise_ok
      by (auto simp: rg_inv_def split: if_splits option.splits)
  qed (use register(2) in simp)
next
  case (heartbeat now msg r res r')
  from heartbeat(1) show ?case
  proof (cases rule: HandleHeartbeat_cases)
    case (accepted e entry)
    then show ?thesis using heartbeat(2) by (auto simp: rg_inv_def split: if_splits)
  qed (use heartbeat(2) in simp)
qed (auto simp: rg_inv_def PruneStaleNodes_def RevokeNode_def Let_def)

lemma fold_restore_inv:
  assumes "fold (\<lambda>n m. m(n_NodeID n \<mapsto> restored_entry n)) ns m i = Some e"
  shows "m i = Some e \<or> (\<exists>n \<in> set ns. n_NodeID n = i \<and> e = restored_entry n)"
  using assms
proof (induction ns arbitrary: m)
  case (Cons n ns)
  from Cons.IH [of "m(n_NodeID n \<mapsto> restored_entry n)"] Cons.prems show ?case
    by (auto split: if_splits)
qed simp

lemma restored_simps: "e_nodeID (restored_entry n) = n_NodeID n" "labels_ok (e_labels (restored_entry n))"
  by (simp_all add: restored_entry_def labels_ok_def)

lemma rg_inv_reachable: "rg_reachable ops fp r \<Longrightarrow> rg_inv r"
proof (induction rule: rg_reachable.induct)
  case (start cp interval)
  then show ?case by (simp add: rg_inv_def NewRegistry_def)
next
  case (restored loaded cp interval)
  then show ?case
    by (auto simp: rg_inv_def NewRegistry_def RegistryRestore_def restored_simps dest!: fold_restore_inv)
qed (rule rg_inv_step)

section \<open>The registry as node source\<close>

definition trusted :: "time \<Rightarrow> 'c registry \<Rightarrow> node \<Rightarrow> bool" where
  "trusted now r n \<longleftrightarrow> validateNodeID (n_NodeID n) \<and> n_NodeID n \<notin> rg_revoked r \<and> labels_ok (n_Labels n) \<and>
     (\<exists>e. rg_nodes r (n_NodeID n) = Some e \<and> isHealthy now (rg_staleAfter r) e \<and> n_Labels n = e_labels e)"

lemma HealthyNodes_trusted:
  assumes "rg_inv r" and "enumerates ord (rg_nodes r)" and "n \<in> set (HealthyNodes now ord r)"
  shows "trusted now r n"
proof -
  obtain e where e: "e \<in> set (range_values ord (rg_nodes r))" "isHealthy now (rg_staleAfter r) e"
    "n = snapshot now (rg_staleAfter r) e"
    using assms(3) by (auto simp: HealthyNodes_def)
  then obtain i where "rg_nodes r i = Some e"
    using set_range_values [OF assms(2)] by (auto simp: ran_def)
  with assms(1) e show ?thesis by (auto simp: trusted_def rg_inv_def snapshot_def)
qed

interpretation rg_source: node_source "\<lambda>(now, ord, r). HealthyNodes now ord r"
    "\<lambda>(now, ord, r). rg_inv r \<and> enumerates ord (rg_nodes r)" "\<lambda>(now, ord, r). trusted now r"
  by unfold_locales (auto intro: HealthyNodes_trusted)

interpretation rr_sched: scheduler RoundRobinPick "\<lambda>(now, ord, r). HealthyNodes now ord r"
    "\<lambda>(now, ord, r). rg_inv r \<and> enumerates ord (rg_nodes r)" "\<lambda>(now, ord, r). trusted now r"
  ..

interpretation ll_sched: scheduler LeastLoadedPick "\<lambda>(now, ord, r). HealthyNodes now ord r"
    "\<lambda>(now, ord, r). rg_inv r \<and> enumerates ord (rg_nodes r)" "\<lambda>(now, ord, r). trusted now r"
  ..

interpretation ra_sched: scheduler ResourceAwarePick "\<lambda>(now, ord, r). HealthyNodes now ord r"
    "\<lambda>(now, ord, r). rg_inv r \<and> enumerates ord (rg_nodes r)" "\<lambda>(now, ord, r). trusted now r"
  ..

section \<open>Pins and revocation\<close>

context cert_pinner
begin

definition pinned :: "'c registry \<Rightarrow> string \<Rightarrow> string \<Rightarrow> bool" where
  "pinned r i f \<longleftrightarrow> (\<exists>c. rg_pinner r = Some c \<and> getp ops c i = Some f)"

lemma getp_setp_other: "i \<noteq> k \<Longrightarrow> getp ops (snd (setp ops c k f)) i = getp ops c i"
proof -
  assume "i \<noteq> k"
  obtain b c' where "setp ops c k f = (b, c')" by fastforce
  with \<open>i \<noteq> k\<close> show ?thesis using set_ok set_err by (cases b) auto
qed

lemma getp_delp_other: "i \<noteq> k \<Longrightarrow> getp ops (snd (delp ops c k)) i = getp ops c i"
proof -
  assume "i \<noteq> k"
  obtain b c' where "delp ops c k = (b, c')" by fastforce
  with \<open>i \<noteq> k\<close> show ?thesis using del_ok del_err by (cases b) auto
qed

lemma check_cert_pinned:
  assumes "check_cert ops fp verifier req r = Inr cp" and "rg_pinner r = Some c" and "getp ops c i = Some f"
  shows "\<exists>c'. cp = Some c' \<and> getp ops c' i = Some f"
  using assms(1,3) getp_setp_other [of i "rq_NodeId req" c]
  by (cases "i = rq_NodeId req") (auto simp: check_cert_def assms(2) split: if_splits option.splits)

lemma pinned_step:
  assumes "rg_step ops fp r r'" and "i \<in> rg_revoked r \<or> pinned r i f"
  shows "i \<in> rg_revoked r' \<or> pinned r' i f"
  using assms
proof (induction rule: rg_step.induct)
  case (register verifier issuer now req r res r')
  from register(1) show ?case
  proof (cases rule: Register_cases)
    case (accepted cert cp entry)
    then show ?thesis using register(2) check_cert_pinned [of fp verifier req r cp] by (auto simp: pinned_def)
  qed (use register(2) in simp)
next
  case (heartbeat now msg r res r')
  from heartbeat(1) show ?case
    by (cases rule: HandleHeartbeat_cases) (use heartbeat(2) in \<open>auto simp: pinned_def\<close>)
next
  case (prune now ord r ids r')
  then show ?case by (auto simp: PruneStaleNodes_def pinned_def Let_def)
next
  case (revoke r streams nodeID reason)
  then show ?case by (auto simp: RevokeNode_def pinned_def getp_delp_other)
qed

lemma pinned_reach:
  assumes "(rg_step ops fp)\<^sup>*\<^sup>* r r'" and "pinned r i f"
  shows "i \<in> rg_revoked r' \<or> pinned r' i f"
  using assms
proof (induction rule: rtranclp_induct)
  case (step y z)
  then show ?case using pinned_step [OF step(2)] by blast
qed simp

lemma pinned_rejects:
  assumes "pinned r i f" and "rq_NodeId req = i" and "rq_Certificate req \<noteq> []" and "fp (rq_Certificate req) \<noteq> f"
  shows "\<exists>e. Register ops fp verifier issuer now req r = (Inl e, r)"
  using assms by (auto simp: pinned_def Register_def check_cert_def split: option.splits)

end

lemma revoked_step: "rg_step ops fp r r' \<Longrightarrow> i \<in> rg_revoked r \<Longrightarrow> i \<in> rg_revoked r'"
proof (induction rule: rg_step.induct)
  case (register verifier issuer now req r res r')
  from register(1) show ?case
    by (cases rule: Register_cases) (use register(2) in auto)
next
  case (heartbeat now msg r res r')
  from heartbeat(1) show ?case
    by (cases rule: HandleHeartbeat_cases) (use heartbeat(2) in auto)
qed (auto simp: PruneStaleNodes_def RevokeNode_def Let_def)

lemma revoked_reach:
  "(rg_step ops fp)\<^sup>*\<^sup>* r r' \<Longrightarrow> i \<in> rg_revoked r \<Longrightarrow> i \<in> rg_revoked r'"
  by (induction rule: rtranclp_induct) (auto intro: revoked_step)

lemma reachable_steps: "(rg_step ops fp)\<^sup>*\<^sup>* r r' \<Longrightarrow> rg_reachable ops fp r \<Longrightarrow> rg_reachable ops fp r'"
  by (induction rule: rtranclp_induct) (auto intro: rg_reachable.step)

section \<open>Properties\<close>

text \<open>Whatever policy is configured, the node chosen for a job is registered under a well-formed ID, is not
  revoked, was heard from within the staleness bound, carries every label the job selects and at
  least the GPUs it asks for, in every state the registry can reach.\<close>

theorem scheduled_node_trusted:
  assumes "rg_reachable mem_ops fp r" and "enumerates ord (rg_nodes r)"
    and "fst (PickForJob RoundRobinPick (HealthyNodes now ord r) sel gpus s) = Inr n \<or>
      fst (PickForJob LeastLoadedPick (HealthyNodes now ord r) sel gpus ()) = Inr n \<or>
      fst (PickForJob ResourceAwarePick (HealthyNodes now ord r) sel gpus ()) = Inr n"
  shows "validateNodeID (n_NodeID n) \<and> n_NodeID n \<notin> rg_revoked r \<and>
    (\<exists>e. rg_nodes r (n_NodeID n) = Some e \<and> \<not> IsZero (loadLastSeen e) \<and>
       time_sub now (loadLastSeen e) < rg_staleAfter r) \<and>
    (\<forall>(k, v) \<in> set sel. map_of (n_Labels n) k = Some v) \<and> gpus \<le> n_TotalGpus n"
proof -
  have inv: "case (now, ord, r) of (now, ord, r) \<Rightarrow> rg_inv r \<and> enumerates ord (rg_nodes r)"
    using rg_inv_reachable [OF assms(1)] assms(2) by simp
  have "trusted now r n \<and> fits sel gpus n"
    using assms(3) rr_sched.picked_vouched [OF inv] ll_sched.picked_vouched [OF inv]
      ra_sched.picked_vouched [OF inv] by auto
  then show ?thesis
    by (auto simp: trusted_def fits_def nodeMatchesSelector_def list_all_iff isHealthy_def)
qed

definition demo_req :: register_request where
  "demo_req = \<lparr>rq_NodeId = ''node-1'', rq_Address = ''10.0.0.1:9090'', rq_Certificate = ''der'',
     rq_Labels = [(''gpu'', ''a100'')]\<rparr>"

definition demo_registered :: "mem_cert_pinner registry" where
  "demo_registered = snd (Register mem_ops id None None (unix_epoch + 5) demo_req
     (NewRegistry (Some \<lparr>pins = Map.empty\<rparr>) 10))"

lemma demo_valid: "validateNodeID ''node-1''"
  by code_simp

lemma demo_labels: "sanitiseNodeLabels [(''gpu'', ''a100'')] = [(''gpu'', ''a100'')]"
  by code_simp

lemma demo_registered_simps:
  "rg_nodes demo_registered = [''node-1'' \<mapsto> \<lparr>e_nodeID = ''node-1'', e_registeredAt = unix_epoch + 5,
     e_labels = [(''gpu'', ''a100'')], e_address = ''10.0.0.1:9090'', e_lastSeenNano = 5, e_runningJobs = 0,
     e_cpuMillicores = 0, e_totalMemBytes = 0, e_maxSlots = 0, e_totalGpus = 0\<rparr>]"
  "rg_staleAfter demo_registered = 20" "rg_pinner demo_registered = Some \<lparr>pins = [''node-1'' \<mapsto> ''der'']\<rparr>"
  "rg_revoked demo_registered = {}"
  by (simp_all add: demo_registered_def Register_def demo_req_def demo_valid demo_labels IsRevoked_def NewRegistry_def
      check_cert_def mem_ops_def mem_GetPin_def mem_SetPin_def storeLastSeen_def Let_def)

lemma demo_registered_reachable: "rg_reachable mem_ops id demo_registered"
  unfolding demo_registered_def
  by (rule rg_reachable.step [OF rg_reachable.start rg_step.register [OF prod.collapse [symmetric]]])

theorem scheduled_node_trusted_witness:
  "\<exists>n. fst (PickForJob RoundRobinPick (HealthyNodes (unix_epoch + 10) [''node-1''] demo_registered)
      [(''gpu'', ''a100'')] 0 Map.empty) = Inr n \<and> n_NodeID n \<notin> rg_revoked demo_registered"
proof -
  let ?p = "PickForJob RoundRobinPick (HealthyNodes (unix_epoch + 10) [''node-1''] demo_registered)
      [(''gpu'', ''a100'')] 0 Map.empty"
  have en: "enumerates [''node-1''] (rg_nodes demo_registered)"
    by (simp add: demo_registered_simps enumerates_def)
  have "\<exists>n. fst ?p = Inr n"
    by (simp add: HealthyNodes_def demo_registered_simps range_values_def isHealthy_def loadLastSeen_def IsZero_def
        time_zero_def unix_epoch_def time_sub_def PickForJob_def filterBySelector_def nodeMatchesSelector_def
        snapshot_def RoundRobinPick_def counterFor_def Let_def)
  then obtain n where n: "fst ?p = Inr n" by blast
  with scheduled_node_trusted [OF demo_registered_reachable en disjI1 [OF n]] show ?thesis by blast
qed

text \<open>Until the coordinator restarts, a revoked node stays out: in every later state it is still revoked,
  it is not among the registered nodes, every registration under its ID is refused and changes
  nothing, and its heartbeats are rejected.\<close>

theorem revocation_holds:
  assumes "rg_reachable ops fp r" and "(rg_step ops fp)\<^sup>*\<^sup>* (RevokeNode ops streams i reason r) r'"
  shows "i \<in> rg_revoked r' \<and> rg_nodes r' i = None \<and>
    (\<forall>verifier issuer now req. rq_NodeId req = i \<longrightarrow>
       (\<exists>e. Register ops fp verifier issuer now req r' = (Inl e, r'))) \<and>
    (\<forall>now msg. hb_NodeId msg = i \<longrightarrow> HandleHeartbeat now msg r' = (Some ErrNodeNotRegistered, r'))"
proof -
  have rev: "i \<in> rg_revoked r'"
    by (rule revoked_reach [OF assms(2)]) (simp add: RevokeNode_def)
  have "rg_reachable ops fp r'"
    by (rule reachable_steps [OF assms(2) rg_reachable.step [OF assms(1) rg_step.revoke]])
  then have "rg_inv r'" by (rule rg_inv_reachable)
  with rev have none: "rg_nodes r' i = None" by (cases "rg_nodes r' i") (auto simp: rg_inv_def)
  with rev show ?thesis by (auto simp: Register_def IsRevoked_def HandleHeartbeat_def)
qed

theorem revocation_holds_witness:
  "rg_nodes (RevokeNode mem_ops False ''node-1'' ''leaked key'' demo_registered) ''node-1'' = None"
  using revocation_holds [OF demo_registered_reachable rtranclp.rtrancl_refl] by blast

text \<open>Certificate pinning: once a fingerprint is pinned for a node, then as long as the node is not revoked
  every registration of it that presents a certificate with another fingerprint is refused and
  leaves the registry unchanged, in every later state.\<close>

theorem pinned_certificate_enforced:
  assumes "(rg_step mem_ops fp)\<^sup>*\<^sup>* r r'" and "rg_pinner r = Some c" and "pins c i = Some f"
    and "i \<notin> rg_revoked r'" and "rq_NodeId req = i" and "rq_Certificate req \<noteq> []"
    and "fp (rq_Certificate req) \<noteq> f"
  shows "\<exists>e. Register mem_ops fp verifier issuer now req r' = (Inl e, r')"
proof -
  have "mcp.pinned r i f" using assms(2,3)
    unfolding mcp.pinned_def by (simp add: mem_ops_def mem_GetPin_def)
  then have "mcp.pinned r' i f" using mcp.pinned_reach [OF assms(1)] assms(4) by blast
  then show ?thesis using assms(5-7) by (rule mcp.pinned_rejects)
qed

theorem pinned_certificate_enforced_witness:
  "\<exists>e. Register mem_ops id None None 9 (demo_req\<lparr>rq_Certificate := ''forged''\<rparr>) demo_registered = (Inl e, demo_registered)"
  using pinned_certificate_enforced [of id demo_registered demo_registered "\<lparr>pins = [''node-1'' \<mapsto> ''der'']\<rparr>" "''node-1''" "''der''"
      "demo_req\<lparr>rq_Certificate := ''forged''\<rparr>" None None 9]
  by (simp add: demo_registered_simps demo_req_def)

text \<open>A registration that presents no certificate passes every certificate check, whatever is pinned or
  pre-provisioned for its node ID: it is accepted and replaces the node's address and labels.\<close>

theorem certless_registration_accepted:
  assumes "validateNodeID (rq_NodeId req)" and "rq_NodeId req \<notin> rg_revoked r" and "rq_Certificate req = []"
  shows "\<exists>cert r' e. Register ops fp verifier issuer now req r = (Inr cert, r') \<and>
    rg_nodes r' (rq_NodeId req) = Some e \<and> e_address e = rq_Address req"
  using assms
  by (auto simp: Register_def check_cert_def IsRevoked_def Let_def storeLastSeen_def split: option.splits)

theorem certless_registration_accepted_witness:
  "\<exists>cert r' e. Register mem_ops id None None 9 (demo_req\<lparr>rq_Certificate := [], rq_Address := ''evil:1''\<rparr>) demo_registered
     = (Inr cert, r') \<and> rg_nodes r' ''node-1'' = Some e \<and> e_address e = ''evil:1''"
  using certless_registration_accepted [of "demo_req\<lparr>rq_Certificate := [], rq_Address := ''evil:1''\<rparr>" demo_registered
      mem_ops id None None 9] demo_valid
  by (simp add: demo_registered_simps demo_req_def)

text \<open>Pruning reports exactly the registered nodes that the scheduler does not consider healthy at the
  same instant.\<close>

theorem prune_complements_healthy:
  assumes "rg_reachable ops fp r" and "enumerates ord (rg_nodes r)"
  shows "set (fst (PruneStaleNodes now ord r)) = dom (rg_nodes r) - n_NodeID ` set (HealthyNodes now ord r)"
proof -
  have id: "e_nodeID e = i" if "rg_nodes r i = Some e" for i e
    using rg_inv_reachable [OF assms(1)] that by (simp add: rg_inv_def)
  have neg: "stale now (rg_staleAfter r) e \<longleftrightarrow> \<not> isHealthy now (rg_staleAfter r) e" for e
    by (auto simp: stale_def isHealthy_def)
  have vals: "set (range_values ord (rg_nodes r)) = ran (rg_nodes r)" by (rule set_range_values [OF assms(2)])
  show ?thesis
  proof (intro set_eqI iffI)
    fix i assume "i \<in> set (fst (PruneStaleNodes now ord r))"
    then obtain e k where "rg_nodes r k = Some e" "\<not> isHealthy now (rg_staleAfter r) e" "i = e_nodeID e"
      using vals neg by (auto simp: PruneStaleNodes_def Let_def ran_def)
    then show "i \<in> dom (rg_nodes r) - n_NodeID ` set (HealthyNodes now ord r)"
      using vals id by (fastforce simp: HealthyNodes_def snapshot_def ran_def)
  next
    fix i assume i: "i \<in> dom (rg_nodes r) - n_NodeID ` set (HealthyNodes now ord r)"
    then obtain e where e: "rg_nodes r i = Some e" by blast
    then have "e \<in> set (range_values ord (rg_nodes r))" using vals by (auto simp: ran_def)
    with i e id show "i \<in> set (fst (PruneStaleNodes now ord r))"
      by (force simp: PruneStaleNodes_def HealthyNodes_def snapshot_def neg Let_def image_iff)
  qed
qed

theorem prune_complements_healthy_witness:
  "set (fst (PruneStaleNodes (unix_epoch + 100) [''node-1''] demo_registered)) =
   dom (rg_nodes demo_registered) - n_NodeID ` set (HealthyNodes (unix_epoch + 100) [''node-1''] demo_registered)"
proof -
  have "enumerates [''node-1''] (rg_nodes demo_registered)" by (simp add: demo_registered_simps enumerates_def)
  from prune_complements_healthy [OF demo_registered_reachable this] show ?thesis .
qed

end
