(* ===== verification/Dispatch.thy ===== *)
theory Dispatch
  imports Workflow_Store Scheduler
begin

text \<open>
  The dispatch loop of \<open>internal/cluster/dispatch.go\<close> and the request building of
  \<open>node_dispatcher.go\<close>. The loop's state is the job store, the attached workflow store, the policy
  state, the debounce map, and the list of sends it started: one goroutine each in the code, here a
  later call of \<open>sendToNode\<close> with the outcome of the RPC.

  What the node source returns when a job is considered is an arbitrary function of the job ID, so
  that the registry may change between two jobs of one tick. The renderings of error values into
  message strings are arguments.

  The lemmas show that a tick only sends jobs that were pending, out of backoff and, for workflow
  jobs, ready; that every send carries fully resolved inputs to a node that satisfies the job's
  selector and GPU request; and that no job is sent twice in a tick.
\<close>

section \<open>State\<close>

record ('p, 'q, 's) dispatch_loop =
  dl_jobs :: "'p job_store"
  dl_workflows :: "'q workflow_store option"
  dl_policy :: 's
  dl_lastEmit :: "string \<rightharpoonup> time"
  dl_sent :: "(node \<times> job) list"

definition unschedulableEmitCooldown :: duration where
  "unschedulableEmitCooldown = 30 * second"

definition maybeEmitUnschedulable :: "time \<Rightarrow> job \<Rightarrow> string \<Rightarrow> ('p, 'q, 's) dispatch_loop \<Rightarrow> ('p, 'q, 's) dispatch_loop" where
  "maybeEmitUnschedulable now job reason d =
     (if (case dl_lastEmit d (j_ID job) of None \<Rightarrow> False
          | Some emitted \<Rightarrow> time_sub now emitted < unschedulableEmitCooldown)
      then d
      else d\<lparr>dl_lastEmit := (dl_lastEmit d)(j_ID job \<mapsto> now),
             dl_jobs := publishEvent (EvJobUnschedulable (j_ID job) (j_NodeSelector job) reason) (dl_jobs d)\<rparr>)"

fun firstFromRef :: "artifact_binding list \<Rightarrow> string \<times> string" where
  "firstFromRef [] = ([], [])"
| "firstFromRef (b # bs) =
     (if b_From b = [] then firstFromRef bs
      else let dot = LastIndexByte (b_From b) (CHR ''.'') in
        if 0 < dot \<and> dot < int (length (b_From b)) - 1
        then (take (nat dot) (b_From b), drop (nat dot + 1) (b_From b))
        else (b_From b, []))"

definition classifyUnschedulable :: "node list \<Rightarrow> strmap \<Rightarrow> string" where
  "classifyUnschedulable allNodes selector =
     (if selector = [] then ''no_matching_label''
      else if list_ex (\<lambda>n. nodeMatchesSelector n selector) allNodes then ''all_matching_unhealthy''
      else ''no_matching_label'')"

text \<open>
  \<open>word\<close> is the visiting order of the workflow map, \<open>jord\<close> that of a workflow's name
  map. The result is the set of eligible IDs, empty when no workflow store is attached.
\<close>

definition buildEligibleSet :: "string list \<Rightarrow> (string \<Rightarrow> string list) \<Rightarrow> ('p, 'q, 's) dispatch_loop \<Rightarrow> string list" where
  "buildEligibleSet word jord d =
     (case dl_workflows d of None \<Rightarrow> []
      | Some ws \<Rightarrow> concat (map (\<lambda>wfID. EligibleJobs (jord wfID) wfID ws (dl_jobs d)) (RunningWorkflowIDs word ws)))"

section \<open>One tick\<close>

datatype outcome = Continue | Stop

text \<open>\<open>avail\<close> and \<open>all\<close> are what \<open>HealthyNodes\<close> and \<open>Snapshot\<close> return for this job.\<close>

definition place_job :: "'p saver \<Rightarrow> 's picker \<Rightarrow> time \<Rightarrow> node list \<Rightarrow> node list \<Rightarrow> job
    \<Rightarrow> ('p, 'q, 's) dispatch_loop \<Rightarrow> outcome \<times> ('p, 'q, 's) dispatch_loop" where
  "place_job save pol now avail all job d =
     (case PickForJob pol avail (j_NodeSelector job) (rr_GPUs (j_Resources job)) (dl_policy d) of
        (Inl ErrNoNodeMatchesSelector, s) \<Rightarrow>
          (Continue, maybeEmitUnschedulable now job (classifyUnschedulable all (j_NodeSelector job))
                       (d\<lparr>dl_policy := s\<rparr>))
      | (Inl ErrNoHealthyNodes, s) \<Rightarrow>
          (Stop, maybeEmitUnschedulable now job ''no_healthy_node'' (d\<lparr>dl_policy := s\<rparr>))
      | (Inr n, s) \<Rightarrow>
          let d = d\<lparr>dl_policy := s, dl_lastEmit := (dl_lastEmit d)(j_ID job := None)\<rparr>;
              opts = no_opts\<lparr>t_NodeID := n_NodeID n\<rparr>
          in (case Transition save now (j_ID job) JobStatusScheduled opts (dl_jobs d) of
                (Some e, js) \<Rightarrow> (Continue, d\<lparr>dl_jobs := js\<rparr>)
              | (None, js) \<Rightarrow> (case Transition save now (j_ID job) JobStatusDispatching opts js of
                    (Some e, js') \<Rightarrow> (Continue, d\<lparr>dl_jobs := js'\<rparr>)
                  | (None, js') \<Rightarrow> (Continue, d\<lparr>dl_jobs := js', dl_sent := dl_sent d @ [(n, job)]\<rparr>))))"

definition fail_job :: "'p saver \<Rightarrow> time \<Rightarrow> job \<Rightarrow> string \<Rightarrow> ('p, 'q, 's) dispatch_loop \<Rightarrow> ('p, 'q, 's) dispatch_loop" where
  "fail_job save now job msg d =
     d\<lparr>dl_jobs := snd (Transition save now (j_ID job) JobStatusFailed (no_opts\<lparr>t_ErrMsg := msg\<rparr>) (dl_jobs d))\<rparr>"

text \<open>The body of the loop, after the backoff and dependency checks.\<close>

definition dispatch_ready :: "'p saver \<Rightarrow> 's picker \<Rightarrow> (resolve_error \<Rightarrow> string) \<Rightarrow> (job_error \<Rightarrow> string) \<Rightarrow> time
    \<Rightarrow> (string \<Rightarrow> node list \<times> node list) \<Rightarrow> job
    \<Rightarrow> ('p, 'q, 's) dispatch_loop \<Rightarrow> outcome \<times> ('p, 'q, 's) dispatch_loop" where
  "dispatch_ready save pol rshow pshow now src job d =
     (case ResolveJobInputs job (dl_jobs d) of
          Inl e \<Rightarrow>
            let (upstream, outputName) = firstFromRef (j_Inputs job);
                d = d\<lparr>dl_jobs := publishEvent
                      (EvMLResolveFailed (j_ID job) (j_WorkflowID job) upstream outputName (rshow e)) (dl_jobs d)\<rparr>
            in (Continue, fail_job save now job (''artifact resolution: '' @ rshow e) d)
        | Inr resolvedJob \<Rightarrow>
            if hasAnyFromRef (j_Inputs job) then
              (case UpdateResolvedInputs save (j_ID job) (j_Inputs resolvedJob) (dl_jobs d) of
                 (Some e, js) \<Rightarrow>
                   (Continue, fail_job save now job (''persist resolved inputs: '' @ pshow e) (d\<lparr>dl_jobs := js\<rparr>))
               | (None, js) \<Rightarrow>
                   place_job save pol now (fst (src (j_ID job))) (snd (src (j_ID job))) resolvedJob (d\<lparr>dl_jobs := js\<rparr>))
            else place_job save pol now (fst (src (j_ID job))) (snd (src (j_ID job))) job d)"

definition dispatch_one :: "'p saver \<Rightarrow> 's picker \<Rightarrow> (resolve_error \<Rightarrow> string) \<Rightarrow> (job_error \<Rightarrow> string) \<Rightarrow> time
    \<Rightarrow> (string \<Rightarrow> node list \<times> node list) \<Rightarrow> string list \<Rightarrow> job
    \<Rightarrow> ('p, 'q, 's) dispatch_loop \<Rightarrow> outcome \<times> ('p, 'q, 's) dispatch_loop" where
  "dispatch_one save pol rshow pshow now src eligible job d =
     (if \<not> IsZero (j_RetryAfter job) \<and> now < j_RetryAfter job then (Continue, d)
      else if j_WorkflowID job \<noteq> [] \<and> j_ID job \<notin> set eligible then (Continue, d)
      else dispatch_ready save pol rshow pshow now src job d)"

fun dispatch_all :: "'p saver \<Rightarrow> 's picker \<Rightarrow> (resolve_error \<Rightarrow> string) \<Rightarrow> (job_error \<Rightarrow> string) \<Rightarrow> time
    \<Rightarrow> (string \<Rightarrow> node list \<times> node list) \<Rightarrow> string list \<Rightarrow> job list
    \<Rightarrow> ('p, 'q, 's) dispatch_loop \<Rightarrow> ('p, 'q, 's) dispatch_loop" where
  "dispatch_all save pol rshow pshow now src eligible [] d = d"
| "dispatch_all save pol rshow pshow now src eligible (job # jobs) d =
     (case dispatch_one save pol rshow pshow now src eligible job d of
        (Stop, d') \<Rightarrow> d'
      | (Continue, d') \<Rightarrow> dispatch_all save pol rshow pshow now src eligible jobs d')"

text \<open>\<open>ord\<close> is the visiting order of the job map.\<close>

definition dispatchPending :: "'p saver \<Rightarrow> 's picker \<Rightarrow> (resolve_error \<Rightarrow> string) \<Rightarrow> (job_error \<Rightarrow> string) \<Rightarrow> time
    \<Rightarrow> (string \<Rightarrow> node list \<times> node list) \<Rightarrow> string list \<Rightarrow> string list \<Rightarrow> (string \<Rightarrow> string list)
    \<Rightarrow> ('p, 'q, 's) dispatch_loop \<Rightarrow> ('p, 'q, 's) dispatch_loop" where
  "dispatchPending save pol rshow pshow now src ord word jord d =
     (let eligible = buildEligibleSet word jord d in
      dispatch_all save pol rshow pshow now src eligible (PendingByPriority now ord (dl_jobs d)) d)"

section \<open>Sending\<close>

text \<open>\<open>rpc\<close> is the error of the Dispatch RPC, if any.\<close>

definition sendToNode :: "'p saver \<Rightarrow> time \<Rightarrow> job \<Rightarrow> string option \<Rightarrow> 'p job_store \<Rightarrow> 'p job_store" where
  "sendToNode save now job rpc js =
     (case rpc of
        Some err \<Rightarrow> snd (Transition save now (j_ID job) JobStatusFailed (no_opts\<lparr>t_ErrMsg := ''dispatch failed: '' @ err\<rparr>) js)
      | None \<Rightarrow> fold publishEvent
          (map (\<lambda>b. EvArtifactDownloaded (j_ID job) (b_URI b)) (filter (\<lambda>b. b_URI b \<noteq> []) (j_Inputs job))) js)"

definition dispatchRPCTimeout :: "job \<Rightarrow> duration" where
  "dispatchRPCTimeout job =
     (if j_Service job \<noteq> None then 10 * second
      else if j_TimeoutSeconds job \<le> 0 then 10 * second
      else sint (word_of_int (j_TimeoutSeconds job) * 1000000000 + 30000000000 :: 64 word))"

record proto_binding =
  pb_Name :: string
  pb_Uri :: string
  pb_LocalPath :: string
  pb_Sha256 :: string

definition bindingsToProto :: "artifact_binding list \<Rightarrow> proto_binding list" where
  "bindingsToProto bs = map (\<lambda>b. \<lparr>pb_Name = b_Name b, pb_Uri = b_URI b, pb_LocalPath = b_LocalPath b,
     pb_Sha256 = b_SHA256 b\<rparr>) bs"

record dispatch_request =
  dr_JobId :: string
  dr_Command :: string
  dr_Args :: "string list"
  dr_Env :: strmap
  dr_TimeoutSeconds :: int
  dr_WorkingDir :: string
  dr_Inputs :: "proto_binding list"
  dr_Outputs :: "proto_binding list"
  dr_NodeSelector :: strmap
  dr_Gpus :: "32 word"
  dr_Service :: "service_spec option"

definition dispatch_request_of :: "job \<Rightarrow> dispatch_request" where
  "dispatch_request_of job = \<lparr>dr_JobId = j_ID job, dr_Command = j_Command job, dr_Args = j_Args job,
     dr_Env = j_Env job, dr_TimeoutSeconds = j_TimeoutSeconds job, dr_WorkingDir = j_WorkingDir job,
     dr_Inputs = bindingsToProto (j_Inputs job), dr_Outputs = bindingsToProto (j_Outputs job),
     dr_NodeSelector = j_NodeSelector job, dr_Gpus = rr_GPUs (j_Resources job), dr_Service = j_Service job\<rparr>"

section \<open>What a tick does\<close>

lemma Transition_frame:
  "Transition save now i to opts js = (r, js') \<Longrightarrow> k \<noteq> i \<Longrightarrow> js_jobs js' k = js_jobs js k"
  by (auto simp: Transition_def Let_def split: option.splits if_splits prod.splits)

lemma Transition_None:
  assumes "Transition save now i to opts js = (None, js')"
  shows "\<exists>j. js_jobs js i = Some j \<and> js_jobs js' i = Some (apply_transition now to opts j)"
  using assms by (auto simp: Transition_def Let_def split: option.splits if_splits prod.splits)

lemma apply_Dispatching_node:
  "j_NodeID (apply_transition now JobStatusDispatching opts j) =
   (if t_NodeID opts \<noteq> [] then t_NodeID opts else j_NodeID j)"
  by (simp add: apply_transition_def Let_def)

lemma fail_job_simps:
  "k \<noteq> j_ID job \<Longrightarrow> js_jobs (dl_jobs (fail_job save now job msg d)) k = js_jobs (dl_jobs d) k"
  "dl_sent (fail_job save now job msg d) = dl_sent d"
  using Transition_frame [OF prod.collapse [symmetric]] by (simp_all add: fail_job_def)

lemma maybeEmit_simps [simp]:
  "js_jobs (dl_jobs (maybeEmitUnschedulable now job reason d)) = js_jobs (dl_jobs d)"
  "dl_sent (maybeEmitUnschedulable now job reason d) = dl_sent d"
  by (simp_all add: maybeEmitUnschedulable_def)

lemma UpdateResolvedInputs_frame:
  "UpdateResolvedInputs save i ins js = (r, js') \<Longrightarrow> k \<noteq> i \<Longrightarrow> js_jobs js' k = js_jobs js k"
  by (auto simp: UpdateResolvedInputs_def split: option.splits prod.splits)

lemma ResolveJobInputs_ID: "ResolveJobInputs job js = Inr job' \<Longrightarrow> j_ID job' = j_ID job"
  by (auto simp: ResolveJobInputs_def split: if_splits sum.splits)

definition send_ok :: "time \<Rightarrow> (string \<Rightarrow> node list \<times> node list) \<Rightarrow> string list \<Rightarrow> 'p job_store \<Rightarrow> job \<Rightarrow> node \<Rightarrow> job \<Rightarrow> bool" where
  "send_ok now src eligible js orig n j \<longleftrightarrow> (\<exists>js0 :: 'p job_store. ResolveJobInputs orig js0 = Inr j) \<and>
     (IsZero (j_RetryAfter orig) \<or> j_RetryAfter orig \<le> now) \<and>
     (j_WorkflowID orig = [] \<or> j_ID orig \<in> set eligible) \<and>
     n \<in> set (fst (src (j_ID j))) \<and> fits (j_NodeSelector j) (rr_GPUs (j_Resources j)) n \<and>
     (\<exists>r. js_jobs js (j_ID j) = Some r \<and> j_Status r = JobStatusDispatching \<and>
        (n_NodeID n \<noteq> [] \<longrightarrow> j_NodeID r = n_NodeID n))"

text \<open>The sends of a tick, each with the queued job it came from.\<close>

definition sends_ok :: "time \<Rightarrow> (string \<Rightarrow> node list \<times> node list) \<Rightarrow> string list \<Rightarrow> 'p job_store \<Rightarrow> job list \<Rightarrow> (node \<times> job) list \<Rightarrow> bool" where
  "sends_ok now src eligible js queue sent \<longleftrightarrow> distinct (map (\<lambda>(n, j). j_ID j) sent) \<and>
     (\<forall>(n, j) \<in> set sent. \<exists>orig \<in> set queue. j_ID orig = j_ID j \<and> send_ok now src eligible js orig n j)"

context policy
begin

lemma place_job_spec:
  assumes "place_job save pick now avail all job d = (out, d')"
  shows "(\<forall>k. k \<noteq> j_ID job \<longrightarrow> js_jobs (dl_jobs d') k = js_jobs (dl_jobs d) k) \<and>
    (dl_sent d' = dl_sent d \<or>
     (\<exists>n r. dl_sent d' = dl_sent d @ [(n, job)] \<and> n \<in> set avail \<and>
        fits (j_NodeSelector job) (rr_GPUs (j_Resources job)) n \<and>
        js_jobs (dl_jobs d') (j_ID job) = Some r \<and> j_Status r = JobStatusDispatching \<and>
        (n_NodeID n \<noteq> [] \<longrightarrow> j_NodeID r = n_NodeID n)))"
proof -
  obtain res s where pk: "PickForJob pick avail (j_NodeSelector job) (rr_GPUs (j_Resources job)) (dl_policy d) = (res, s)"
    by fastforce
  show ?thesis
  proof (cases res)
    case (Inl e)
    then show ?thesis using assms pk by (cases e) (auto simp: place_job_def)
  next
    case (Inr n)
    have fit: "n \<in> set avail" "fits (j_NodeSelector job) (rr_GPUs (j_Resources job)) n"
      using PickForJob_iff [of avail "j_NodeSelector job" "rr_GPUs (j_Resources job)" "dl_policy d" n] pk Inr
      by simp_all
    let ?o = "no_opts\<lparr>t_NodeID := n_NodeID n\<rparr>"
    obtain r1 js1 where t1: "Transition save now (j_ID job) JobStatusScheduled ?o (dl_jobs d) = (r1, js1)" by fastforce
    obtain r2 js2 where t2: "Transition save now (j_ID job) JobStatusDispatching ?o js1 = (r2, js2)" by fastforce
    note fr = Transition_frame [OF t1] Transition_frame [OF t2]
    show ?thesis
    proof (cases "r1 = None \<and> r2 = None")
      case True
      then have d': "dl_jobs d' = js2" "dl_sent d' = dl_sent d @ [(n, job)]"
        using assms pk Inr t1 t2 by (auto simp: place_job_def Let_def)
      obtain r where "js_jobs js2 (j_ID job) = Some (apply_transition now JobStatusDispatching ?o r)"
        using Transition_None [of save now "j_ID job" JobStatusDispatching ?o js1 js2] t2 True by auto
      then show ?thesis using d' fit fr by (auto simp: apply_Dispatching_node)
    next
      case False
      then show ?thesis using assms pk Inr t1 t2 fr
        by (auto simp: place_job_def Let_def split: option.splits)
    qed
  qed
qed

lemma dispatch_one_spec:
  assumes "dispatch_one save pick rshow pshow now src eligible job d = (out, d')"
  shows "(\<forall>k. k \<noteq> j_ID job \<longrightarrow> js_jobs (dl_jobs d') k = js_jobs (dl_jobs d) k) \<and>
    (dl_sent d' = dl_sent d \<or>
     (\<exists>n j. dl_sent d' = dl_sent d @ [(n, j)] \<and> j_ID j = j_ID job \<and> send_ok now src eligible (dl_jobs d') job n j))"
proof (cases "(\<not> IsZero (j_RetryAfter job) \<and> now < j_RetryAfter job) \<or> (j_WorkflowID job \<noteq> [] \<and> j_ID job \<notin> set eligible)")
  case True
  then show ?thesis using assms by (auto simp: dispatch_one_def split: if_splits)
next
  case False
  then have ready: "IsZero (j_RetryAfter job) \<or> j_RetryAfter job \<le> now" "j_WorkflowID job = [] \<or> j_ID job \<in> set eligible"
    by auto
  have dr: "dispatch_ready save pick rshow pshow now src job d = (out, d')"
    using assms False by (auto simp: dispatch_one_def split: if_splits)
  let ?h = "fst (src (j_ID job))" and ?a = "snd (src (j_ID job))"
  show ?thesis
  proof (cases "ResolveJobInputs job (dl_jobs d)")
    case (Inl e)
    then show ?thesis using dr
      by (auto simp: dispatch_ready_def Let_def fail_job_simps split: prod.splits)
  next
    case (Inr rj)
    note id = ResolveJobInputs_ID [OF Inr]
    have placed: "?thesis" if pl: "place_job save pick now ?h ?a rj d1 = (out, d')"
      and d1: "dl_sent d1 = dl_sent d" "\<forall>k. k \<noteq> j_ID job \<longrightarrow> js_jobs (dl_jobs d1) k = js_jobs (dl_jobs d) k" for d1
      using place_job_spec [OF pl] d1 id ready Inr by (auto simp: send_ok_def)
    show ?thesis
    proof (cases "hasAnyFromRef (j_Inputs job)")
      case True
      obtain r js where u: "UpdateResolvedInputs save (j_ID job) (j_Inputs rj) (dl_jobs d) = (r, js)" by fastforce
      note fr = UpdateResolvedInputs_frame [OF u]
      show ?thesis
      proof (cases r)
        case None
        then have "place_job save pick now ?h ?a rj (d\<lparr>dl_jobs := js\<rparr>) = (out, d')"
          using dr Inr True u by (simp add: dispatch_ready_def)
        then show ?thesis by (rule placed) (use fr in auto)
      next
        case (Some e)
        then show ?thesis using dr Inr True u fr
          by (auto simp: dispatch_ready_def fail_job_simps)
      qed
    next
      case nofrom: False
      then have "rj = job" using Inr by (simp add: ResolveJobInputs_def)
      then have "place_job save pick now ?h ?a rj d = (out, d')"
        using dr Inr nofrom by (simp add: dispatch_ready_def)
      then show ?thesis by (rule placed) auto
    qed
  qed
qed

lemma dispatch_all_spec:
  assumes "distinct (map j_ID (seen @ jobs))" and "sends_ok now src eligible (dl_jobs d) seen (dl_sent d)"
  shows "sends_ok now src eligible
    (dl_jobs (dispatch_all save pick rshow pshow now src eligible jobs d)) (seen @ jobs)
    (dl_sent (dispatch_all save pick rshow pshow now src eligible jobs d))"
  using assms
proof (induction jobs arbitrary: seen d)
  case (Cons job jobs)
  obtain out d' where one: "dispatch_one save pick rshow pshow now src eligible job d = (out, d')" by fastforce
  note sp = dispatch_one_spec [OF one]
  have new: "j_ID job \<notin> j_ID ` set seen" using Cons.prems(1) by auto
  have old: "send_ok now src eligible (dl_jobs d') orig n j"
    if "send_ok now src eligible (dl_jobs d) orig n j" "j_ID j \<noteq> j_ID job" for orig n j
    using that sp by (auto simp: send_ok_def)
  have "sends_ok now src eligible (dl_jobs d') (seen @ [job]) (dl_sent d')"
    unfolding sends_ok_def
  proof (intro conjI ballI, goal_cases)
    case 1
    have "j_ID j \<noteq> j_ID job" if m: "(n, j) \<in> set (dl_sent d)" for n j
    proof -
      obtain orig where "orig \<in> set seen" "j_ID orig = j_ID j"
        using Cons.prems(2) m by (auto simp: sends_ok_def)
      then show ?thesis using new by (metis imageI)
    qed
    then have "j_ID job \<notin> set (map (\<lambda>(n, j). j_ID j) (dl_sent d))" by force
    then show ?case using sp Cons.prems(2) by (auto simp: sends_ok_def)
  next
    case (2 x)
    obtain n j where x: "x = (n, j)" by fastforce
    show ?case
    proof (cases "x \<in> set (dl_sent d)")
      case True
      then obtain orig where o: "orig \<in> set seen" "j_ID orig = j_ID j" "send_ok now src eligible (dl_jobs d) orig n j"
        using Cons.prems(2) x by (auto simp: sends_ok_def)
      moreover have "j_ID j \<noteq> j_ID job" using o new by (metis imageI)
      ultimately have "orig \<in> set (seen @ [job]) \<and> j_ID orig = j_ID j \<and> send_ok now src eligible (dl_jobs d') orig n j"
        using old by auto
      then show ?thesis using x by blast
    next
      case False
      then have "j_ID j = j_ID job \<and> send_ok now src eligible (dl_jobs d') job n j" using 2 sp x by auto
      then show ?thesis using x by force
    qed
  qed
  note step = this
  show ?case
  proof (cases out)
    case Continue
    have "distinct (map j_ID ((seen @ [job]) @ jobs))" using Cons.prems(1) by simp
    from Cons.IH [OF this step] one Continue show ?thesis by simp
  next
    case Stop
    then show ?thesis using one step by (force simp: sends_ok_def)
  qed
qed simp

end

section \<open>Properties\<close>

lemma EligibleJobs_ready:
  assumes "i \<in> set (EligibleJobs ord wfID ws js)"
    and "\<And>w. ws_workflows ws wfID = Some w \<Longrightarrow> enumerates ord (byName (w_Jobs w))"
  shows "\<exists>w wj. ws_workflows ws wfID = Some w \<and> w_Status w = WorkflowStatusRunning \<and> wj \<in> set (w_Jobs w) \<and>
    wj_JobID wj = i \<and> job_ready (w_Jobs w) js wj"
proof -
  obtain w0 where w0: "ws_workflows ws wfID = Some w0"
    using assms(1) by (cases "ws_workflows ws wfID") (auto simp: EligibleJobs_def)
  with assms(1) obtain w wj where w: "ws_workflows ws wfID = Some w" "w_Status w = WorkflowStatusRunning"
    "wj \<in> set (range_values ord (byName (w_Jobs w)))" "wj_JobID wj = i" "job_ready (w_Jobs w) js wj"
    by (auto simp: EligibleJobs_def split: if_splits)
  moreover have "wj \<in> set (w_Jobs w)"
    using w(3) set_range_values [OF assms(2) [OF w(1)]] by (auto simp: ran_def dest: byName_in)
  ultimately show ?thesis by blast
qed

lemma set_sort_Slice: "set (sort_Slice lt xs) = set xs"
  by (metis mset_sort_Slice set_mset_mset)

lemma PendingByPriority_ids:
  assumes "coherent (js_jobs js) dsk" and "enumerates ord (js_jobs js)"
  shows "distinct (map j_ID (PendingByPriority now ord js))"
    and "j \<in> set (PendingByPriority now ord js) \<Longrightarrow> js_jobs js (j_ID j) = Some j \<and> j_Status j = JobStatusPending"
proof -
  have id: "js_jobs js i = Some j \<Longrightarrow> j_ID j = i" for i j
    using assms(1) unfolding coherent_def by (metis agree.simps(2) agree_SomeE)
  have "map j_ID (range_values ord (js_jobs js)) = ord"
    using assms(2) id by (force simp: range_values_def enumerates_def intro: map_idI)
  then have "distinct (map j_ID (range_values ord (js_jobs js)))" using assms(2) by (simp add: enumerates_def)
  then have "distinct (map j_ID (filter P (range_values ord (js_jobs js))))" for P by (rule distinct_map_filter)
  then show "distinct (map j_ID (PendingByPriority now ord js))"
    unfolding PendingByPriority_def by (metis mset_map mset_sort_Slice mset_eq_imp_distinct_iff)
  show "j \<in> set (PendingByPriority now ord js) \<Longrightarrow> js_jobs js (j_ID j) = Some j \<and> j_Status j = JobStatusPending"
    using id by (auto simp: PendingByPriority_def set_sort_Slice set_range_values [OF assms(2)] ran_def)
qed

text \<open>
  What the property below says of one send: the job was pending, out of backoff and, if it belongs to
  a workflow, ready when the tick began; its inputs are resolved; the node was offered as healthy and
  satisfies the job; and the job's record is dispatching on that node.
\<close>

definition safe_send :: "time \<Rightarrow> (string \<Rightarrow> node list \<times> node list) \<Rightarrow> ('p, 'q, 's) dispatch_loop \<Rightarrow> 'p job_store \<Rightarrow> node \<Rightarrow> job \<Rightarrow> bool" where
  "safe_send now src d js n j \<longleftrightarrow>
     (\<exists>orig js0 :: 'p job_store. js_jobs (dl_jobs d) (j_ID j) = Some orig \<and> j_Status orig = JobStatusPending \<and>
        ResolveJobInputs orig js0 = Inr j \<and> (IsZero (j_RetryAfter orig) \<or> j_RetryAfter orig \<le> now) \<and>
        (j_WorkflowID orig = [] \<or> (\<exists>ws w wj. dl_workflows d = Some ws \<and> w \<in> ran (ws_workflows ws) \<and>
           w_Status w = WorkflowStatusRunning \<and> wj \<in> set (w_Jobs w) \<and> wj_JobID wj = j_ID j \<and>
           job_ready (w_Jobs w) (dl_jobs d) wj))) \<and>
     n \<in> set (fst (src (j_ID j))) \<and> fits (j_NodeSelector j) (rr_GPUs (j_Resources j)) n \<and>
     (\<exists>r. js_jobs js (j_ID j) = Some r \<and> j_Status r = JobStatusDispatching \<and>
        (n_NodeID n \<noteq> [] \<longrightarrow> j_NodeID r = n_NodeID n))"

context policy
begin

lemma tick_safe:
  assumes coh: "coherent (js_jobs (dl_jobs d)) dsk" and ord: "enumerates ord (js_jobs (dl_jobs d))"
    and jord: "\<And>ws wfID w. dl_workflows d = Some ws \<Longrightarrow> ws_workflows ws wfID = Some w \<Longrightarrow>
      enumerates (jord wfID) (byName (w_Jobs w))"
    and sent: "dl_sent d = []"
    and d': "d' = dispatchPending save pick rshow pshow now src ord word jord d"
  shows "distinct (map (\<lambda>(n, j). j_ID j) (dl_sent d')) \<and>
    (\<forall>(n, j) \<in> set (dl_sent d'). safe_send now src d (dl_jobs d') n j)"
proof -
  let ?el = "buildEligibleSet word jord d" and ?q = "PendingByPriority now ord (dl_jobs d)"
  note q = PendingByPriority_ids [OF coh ord, where now = now]
  have "sends_ok now src ?el (dl_jobs d') ([] @ ?q) (dl_sent d')"
    unfolding d' dispatchPending_def Let_def
    by (rule dispatch_all_spec) (use q(1) sent in \<open>simp_all add: sends_ok_def\<close>)
  then have so: "sends_ok now src ?el (dl_jobs d') ?q (dl_sent d')" by simp
  have "safe_send now src d (dl_jobs d') n j" if m: "(n, j) \<in> set (dl_sent d')" for n j
  proof -
    obtain orig where o: "orig \<in> set ?q" "j_ID orig = j_ID j" "send_ok now src ?el (dl_jobs d') orig n j"
      using so m by (auto simp: sends_ok_def)
    have "\<exists>ws w wj. dl_workflows d = Some ws \<and> w \<in> ran (ws_workflows ws) \<and>
           w_Status w = WorkflowStatusRunning \<and> wj \<in> set (w_Jobs w) \<and> wj_JobID wj = j_ID j \<and>
           job_ready (w_Jobs w) (dl_jobs d) wj" if inel: "j_ID orig \<in> set ?el"
    proof -
      obtain ws where ws: "dl_workflows d = Some ws"
        using inel by (cases "dl_workflows d") (simp_all add: buildEligibleSet_def)
      with inel obtain wfID where el: "j_ID orig \<in> set (EligibleJobs (jord wfID) wfID ws (dl_jobs d))"
        by (auto simp: buildEligibleSet_def)
      from EligibleJobs_ready [OF el jord [OF ws]] obtain w wj where
        "ws_workflows ws wfID = Some w" "w_Status w = WorkflowStatusRunning" "wj \<in> set (w_Jobs w)"
        "wj_JobID wj = j_ID orig" "job_ready (w_Jobs w) (dl_jobs d) wj" by blast
      with ws o(2) show ?thesis by (metis ranI)
    qed
    with o q(2) [OF o(1)] show ?thesis by (auto simp: safe_send_def send_ok_def)
  qed
  with so show ?thesis by (auto simp: sends_ok_def)
qed

end


definition demo_loop :: "(badger, badger_wf, rr_policy) dispatch_loop" where
  "demo_loop = \<lparr>dl_jobs = demo_pending [], dl_workflows = None, dl_policy = Map.empty, dl_lastEmit = Map.empty, dl_sent = []\<rparr>"

definition demo_tick :: "(badger, badger_wf, rr_policy) dispatch_loop" where
  "demo_tick = dispatchPending bd_SaveJob RoundRobinPick (\<lambda>_. []) (\<lambda>_. []) 100
     (\<lambda>_. ([mk_node ''n1''], [mk_node ''n1''])) [''j1''] [] (\<lambda>_. []) demo_loop"

lemma demo_tick_sent: "dl_sent demo_tick = [(mk_node ''n1'', demo_pending_job)]"
  by (simp add: demo_tick_def dispatchPending_def demo_loop_def PendingByPriority_def sort_Slice_def range_values_def
      demo_pending_simps demo_pending_job_def demo_job_def zero_job_def zero_resources_def dispatch_one_def IsZero_def
      dispatch_ready_def ResolveJobInputs_def hasAnyFromRef_def place_job_def PickForJob_def RoundRobinPick_def
      Transition_def isAllowed_iff allowedTransitions_def apply_transition_def bd_SaveJob_def jobOnDiskCopy_def
      no_opts_def mk_node_def transition_events_def publishEvent_def appendAuditAsync_def Let_def)


end
