(* ===== verification/Node_Reports.thy ===== *)
theory Node_Reports
  imports Workflow_Store Node_Registry
begin

text \<open>
  What nodes report to the coordinator: \<open>ReportResult\<close> and \<open>ReportServiceEvent\<close> of
  \<open>internal/grpcserver/handlers.go\<close> with the output attestation they rest on, the unary interceptor of
  \<open>interceptors.go\<close> that turns revoked nodes away, and the endpoint map of
  \<open>internal/cluster/service_registry.go\<close>. The completion callback is the one
  \<open>cmd/helion-coordinator/main.go\<close> installs: it notifies the workflow store and clears the service entry.

  The server's state is the job store, the workflow store, the endpoint map and the audit records it
  writes; published artifact and probe events go to the bus of the job store. Which optional parts
  are injected is a record of flags. One clock reading serves a whole call.

  The lemmas show what a report can do to the job it names and to no other, that recorded outputs
  are declared, well formed and carry the job's own key suffix, that downstream inputs therefore
  point there too, and where these guards do not reach.
\<close>

section \<open>Service endpoints\<close>

type_synonym service_registry = "string \<rightharpoonup> service_endpoint"

definition Upsert :: "time \<Rightarrow> service_endpoint \<Rightarrow> service_registry \<Rightarrow> service_registry" where
  "Upsert now e r =
     (if se_JobID e = [] then r
      else let e = (if IsZero (se_UpdatedAt e) then e\<lparr>se_UpdatedAt := now\<rparr> else e) in r(se_JobID e \<mapsto> e))"

definition ServiceGet :: "string \<Rightarrow> service_registry \<Rightarrow> service_endpoint option" where
  "ServiceGet jobID r = r jobID"

definition ServiceDelete :: "string \<Rightarrow> service_registry \<Rightarrow> service_registry" where
  "ServiceDelete jobID r = r(jobID := None)"

definition ServiceCount :: "service_registry \<Rightarrow> nat" where
  "ServiceCount r = card (dom r)"

definition ServiceSnapshot :: "string list \<Rightarrow> service_registry \<Rightarrow> service_endpoint list" where
  "ServiceSnapshot ord r = range_values ord r"

section \<open>Messages\<close>

record proto_output =
  po_Name :: string
  po_Uri :: string
  po_Size :: int
  po_Sha256 :: string
  po_LocalPath :: string

text \<open>An entry of the repeated field may be a nil pointer.\<close>

record job_result =
  r_JobId :: string
  r_NodeId :: string
  r_Success :: bool
  r_ExitCode :: int
  r_Error :: string
  r_Runtime :: string
  r_Outputs :: "proto_output option list"

record service_event =
  v_JobId :: string
  v_NodeId :: string
  v_NodeAddress :: string
  v_Port :: "32 word"
  v_HealthPath :: string
  v_Ready :: bool
  v_ConsecutiveFailures :: "32 word"
  v_OccurredAt :: "time option"

datatype rpc_error = NotFound | PermissionDenied | Internal job_error | InvalidArgument | Unauthenticated

section \<open>The server\<close>

datatype server_audit =
    AuditViolation string string string
  | AuditService string string bool "32 word" string "32 word"

record wiring =
  has_jobs :: bool
  has_audit :: bool
  has_retry :: bool
  has_callback :: bool
  has_services :: bool
  has_bus :: bool

record ('p, 'q) server =
  sv_jobs :: "'p job_store"
  sv_workflows :: "'q workflow_store"
  sv_services :: service_registry
  sv_audit :: "server_audit list"
  sv_probes :: "(string \<times> string \<times> 32 word) list"

text \<open>\<open>LogSecurityViolation\<close> and \<open>LogServiceEvent\<close>; their own failures are only logged.\<close>

definition audit_log :: "wiring \<Rightarrow> server_audit \<Rightarrow> ('p, 'q) server \<Rightarrow> ('p, 'q) server" where
  "audit_log wi a sv = (if has_audit wi then sv\<lparr>sv_audit := sv_audit sv @ [a]\<rparr> else sv)"

section \<open>Output attestation\<close>

fun name_charset :: "nat \<Rightarrow> string \<Rightarrow> bool" where
  "name_charset i [] = True"
| "name_charset i (c # cs) =
     ((byte_range 65 90 c \<or> c = CHR ''_'' \<or> 0 < i \<and> byte_range 48 57 c) \<and> name_charset (i + 1) cs)"

text \<open>The reason for dropping the entry, empty when it is accepted.\<close>

definition validateReportedOutput :: "proto_output \<Rightarrow> string" where
  "validateReportedOutput out =
     (if po_Name out = [] \<or> 64 < length (po_Name out) then ''name length''
      else if \<not> name_charset 0 (po_Name out) then ''name charset''
      else if po_Uri out = [] \<or> 2048 < length (po_Uri out) then ''uri length''
      else if \<not> (HasPrefix (po_Uri out) ''file://'' \<or> HasPrefix (po_Uri out) ''s3://'') then ''uri scheme''
      else if list_ex control_byte (po_Uri out) then ''uri control bytes''
      else if 512 < length (po_LocalPath out) then ''local_path length''
      else if po_Size out < 0 then ''negative size''
      else [])"

definition uriBelongsToJob :: "string \<Rightarrow> string \<Rightarrow> string \<Rightarrow> bool" where
  "uriBelongsToJob uri jobID localPath =
     (if jobID = [] \<or> localPath = [] then False
      else HasSuffix uri (''/jobs/'' @ jobID @ ''/'' @ localPath))"

definition output_of :: "proto_output \<Rightarrow> artifact_output" where
  "output_of out = \<lparr>o_Name = po_Name out, o_URI = po_Uri out, o_Size = po_Size out,
     o_SHA256 = po_Sha256 out, o_LocalPath = po_LocalPath out\<rparr>"

fun attest_loop :: "wiring \<Rightarrow> string \<Rightarrow> string \<Rightarrow> string list option \<Rightarrow> proto_output option list
    \<Rightarrow> ('p, 'q) server \<Rightarrow> artifact_output list \<times> ('p, 'q) server" where
  "attest_loop wi jobID nodeID declaredNames [] sv = ([], sv)"
| "attest_loop wi jobID nodeID declaredNames (None # src) sv = attest_loop wi jobID nodeID declaredNames src sv"
| "attest_loop wi jobID nodeID declaredNames (Some out # src) sv =
     (if validateReportedOutput out \<noteq> [] then attest_loop wi jobID nodeID declaredNames src sv
      else if \<not> uriBelongsToJob (po_Uri out) jobID (po_LocalPath out) then
        attest_loop wi jobID nodeID declaredNames src
          (audit_log wi (AuditViolation nodeID jobID ''output_prefix_mismatch'') sv)
      else if (case declaredNames of None \<Rightarrow> False | Some ns \<Rightarrow> po_Name out \<notin> set ns) then
        attest_loop wi jobID nodeID declaredNames src
          (audit_log wi (AuditViolation nodeID jobID ''output_name_undeclared'') sv)
      else
        let sv = (if has_bus wi
                  then sv\<lparr>sv_jobs := publishEvent (EvArtifactUploaded jobID (po_Uri out) (po_Size out)) (sv_jobs sv)\<rparr>
                  else sv);
            (rest, sv') = attest_loop wi jobID nodeID declaredNames src sv
        in (output_of out # rest, sv'))"

definition attestOutputs :: "wiring \<Rightarrow> string \<Rightarrow> string \<Rightarrow> proto_output option list \<Rightarrow> string list option
    \<Rightarrow> ('p, 'q) server \<Rightarrow> artifact_output list \<times> ('p, 'q) server" where
  "attestOutputs wi jobID nodeID src declaredNames sv =
     (if src = [] then ([], sv) else attest_loop wi jobID nodeID declaredNames (take 64 src) sv)"

section \<open>Reporting a result\<close>

text \<open>
  The surroundings a call depends on: the two persisters, the wiring, the clock, the random source
  of the retry delay, the rendering of the cascade message and the visiting order of the workflow map.
\<close>

record ('p, 'q) surroundings =
  en_save :: "'p saver"
  en_wsave :: "'q wsaver"
  en_wi :: wiring
  en_now :: time
  en_rnd :: "int \<Rightarrow> int"
  en_reason :: "string \<Rightarrow> job_status \<Rightarrow> string"
  en_ord :: "string list"

text \<open>The callback of \<open>WithJobCompletionCallback\<close>.\<close>

definition completion_callback :: "('p, 'q) surroundings \<Rightarrow> string \<Rightarrow> job_status \<Rightarrow> ('p, 'q) server \<Rightarrow> ('p, 'q) server" where
  "completion_callback en jobID status sv =
     (case OnJobCompleted (en_save en) (en_wsave en) (en_reason en) True (en_now en) (en_ord en) jobID status
             (sv_workflows sv) (sv_jobs sv) of
        (ws, js) \<Rightarrow> sv\<lparr>sv_workflows := ws, sv_jobs := js, sv_services := ServiceDelete jobID (sv_services sv)\<rparr>)"

text \<open>After the final transition: the audit of runtime violations, the retry check, the callback.\<close>

definition after_final :: "('p, 'q) surroundings \<Rightarrow> job_result \<Rightarrow> job_status \<Rightarrow> ('p, 'q) server \<Rightarrow> ('p, 'q) server" where
  "after_final en result target sv =
     (let sv = (if r_Error result \<in> {''Seccomp'', ''OOMKilled''}
                then audit_log (en_wi en) (AuditViolation (r_NodeId result) (r_JobId result) (r_Error result)) sv
                else sv);
          (retried, js) = (if has_retry (en_wi en)
                           then RetryIfEligible (en_save en) (en_now en) (en_rnd en) (r_JobId result) (sv_jobs sv)
                           else (Some False, sv_jobs sv));
          sv = sv\<lparr>sv_jobs := js\<rparr>
      in if retried = Some True then sv
         else if has_callback (en_wi en) then completion_callback en (r_JobId result) target sv else sv)"

definition report_options :: "job_result \<Rightarrow> artifact_output list \<Rightarrow> transition_options" where
  "report_options result outs = \<lparr>t_NodeID = r_NodeId result, t_ExitCode = r_ExitCode result, t_ErrMsg = [],
     t_Runtime = r_Runtime result, t_ResolvedOutputs = outs\<rparr>"

text \<open>The transitions of a report that passed the guards.\<close>

definition apply_result :: "('p, 'q) surroundings \<Rightarrow> job_result \<Rightarrow> job \<Rightarrow> transition_options \<Rightarrow> ('p, 'q) server
    \<Rightarrow> rpc_error option \<times> ('p, 'q) server" where
  "apply_result en result job opts sv =
     (case (if j_Status job = JobStatusDispatching
            then Transition (en_save en) (en_now en) (r_JobId result) JobStatusRunning opts (sv_jobs sv)
            else (None, sv_jobs sv)) of
        (Some e, js) \<Rightarrow> (Some (Internal e), sv\<lparr>sv_jobs := js\<rparr>)
      | (None, js) \<Rightarrow>
          let target = (if r_Success result then JobStatusCompleted else JobStatusFailed);
              opts = (if \<not> r_Success result \<and> r_Error result \<noteq> [] then opts\<lparr>t_ErrMsg := r_Error result\<rparr> else opts)
          in (case Transition (en_save en) (en_now en) (r_JobId result) target opts js of
                (Some e, js') \<Rightarrow> (Some (Internal e), sv\<lparr>sv_jobs := js'\<rparr>)
              | (None, js') \<Rightarrow> (None, after_final en result target (sv\<lparr>sv_jobs := js'\<rparr>))))"

definition ReportResult :: "('p, 'q) surroundings \<Rightarrow> job_result \<Rightarrow> ('p, 'q) server
    \<Rightarrow> rpc_error option \<times> ('p, 'q) server" where
  "ReportResult en result sv =
     (if \<not> has_jobs (en_wi en) then (None, sv)
      else case Get (r_JobId result) (sv_jobs sv) of
          Inl e \<Rightarrow> (Some NotFound, sv)
        | Inr job \<Rightarrow>
            if j_NodeID job \<noteq> [] \<and> r_NodeId result \<noteq> [] \<and> j_NodeID job \<noteq> r_NodeId result then
              (Some PermissionDenied,
               audit_log (en_wi en) (AuditViolation (r_NodeId result) (r_JobId result) ''node_id_mismatch'') sv)
            else
              let (outs, sv) = attestOutputs (en_wi en) (r_JobId result) (r_NodeId result) (r_Outputs result)
                                 (Some (map b_Name (j_Outputs job))) sv
              in apply_result en result job (report_options result outs) sv)"

section \<open>Reporting a service event\<close>

text \<open>The owner the endpoint inherits, or the rejection of a report from another node.\<close>

definition service_owner :: "wiring \<Rightarrow> service_event \<Rightarrow> ('p, 'q) server \<Rightarrow> string option" where
  "service_owner wi evt sv =
     (if \<not> has_jobs wi then Some []
      else case Get (v_JobId evt) (sv_jobs sv) of
          Inl _ \<Rightarrow> Some []
        | Inr job \<Rightarrow>
            if j_NodeID job \<noteq> [] \<and> v_NodeId evt \<noteq> [] \<and> j_NodeID job \<noteq> v_NodeId evt then None
            else Some (j_OwnerPrincipal job))"

definition ReportServiceEvent :: "wiring \<Rightarrow> time \<Rightarrow> service_event \<Rightarrow> ('p, 'q) server
    \<Rightarrow> rpc_error option \<times> ('p, 'q) server" where
  "ReportServiceEvent wi now evt sv =
     (if v_JobId evt = [] then (Some InvalidArgument, sv)
      else if \<not> has_services wi then (None, sv)
      else case service_owner wi evt sv of
          None \<Rightarrow> (Some PermissionDenied,
            audit_log wi (AuditViolation (v_NodeId evt) (v_JobId evt) ''service_event_node_id_mismatch'') sv)
        | Some own \<Rightarrow>
            let occurred = (case v_OccurredAt evt of None \<Rightarrow> now | Some t \<Rightarrow> t);
                sv = sv\<lparr>sv_services := Upsert now \<lparr>se_JobID = v_JobId evt, se_NodeID = v_NodeId evt,
                       se_NodeAddress = v_NodeAddress evt, se_Port = v_Port evt, se_HealthPath = v_HealthPath evt,
                       se_Ready = v_Ready evt, se_UpdatedAt = occurred, se_OwnerPrincipal = own\<rparr> (sv_services sv)\<rparr>;
                sv = audit_log wi (AuditService (v_NodeId evt) (v_JobId evt) (v_Ready evt) (v_Port evt)
                       (v_HealthPath evt) (v_ConsecutiveFailures evt)) sv
            in (None, if has_bus wi
                      then sv\<lparr>sv_probes := sv_probes sv @
                             [(v_JobId evt, if v_Ready evt then ''ready'' else ''unhealthy'', v_ConsecutiveFailures evt)]\<rparr>
                      else sv))"

section \<open>The revocation interceptor\<close>

datatype unary_request = RegisterReq register_request | ResultReq job_result | ServiceReq service_event

definition extractNodeID :: "unary_request \<Rightarrow> string" where
  "extractNodeID req = (case req of RegisterReq r \<Rightarrow> rq_NodeId r | ResultReq r \<Rightarrow> r_NodeId r | ServiceReq _ \<Rightarrow> [])"

text \<open>\<open>handler\<close> is the intercepted method.\<close>

definition revocationInterceptor :: "'c registry \<Rightarrow> unary_request \<Rightarrow> (unary_request \<Rightarrow> rpc_error option \<times> 's) \<Rightarrow> 's
    \<Rightarrow> rpc_error option \<times> 's" where
  "revocationInterceptor reg req handler s =
     (if extractNodeID req \<noteq> [] \<and> IsRevoked (extractNodeID req) reg then (Some Unauthenticated, s)
      else handler req)"

section \<open>Attested outputs\<close>

definition attested :: "string \<Rightarrow> string list \<Rightarrow> artifact_output \<Rightarrow> bool" where
  "attested jobID declared a \<longleftrightarrow>
     o_Name a \<in> set declared \<and> o_Name a \<noteq> [] \<and> length (o_Name a) \<le> 64 \<and> name_charset 0 (o_Name a) \<and>
     length (o_URI a) \<le> 2048 \<and> (HasPrefix (o_URI a) ''file://'' \<or> HasPrefix (o_URI a) ''s3://'') \<and>
     list_all (\<lambda>b. \<not> control_byte b) (o_URI a) \<and> 0 \<le> o_Size a \<and>
     o_LocalPath a \<noteq> [] \<and> length (o_LocalPath a) \<le> 512 \<and>
     (\<exists>base. o_URI a = base @ ''/jobs/'' @ jobID @ ''/'' @ o_LocalPath a)"

lemma audit_log_simps [simp]:
  "sv_jobs (audit_log wi a sv) = sv_jobs sv" "sv_workflows (audit_log wi a sv) = sv_workflows sv"
  "sv_services (audit_log wi a sv) = sv_services sv" "sv_probes (audit_log wi a sv) = sv_probes sv"
  by (simp_all add: audit_log_def)

lemma not_list_ex: "\<not> list_ex P xs \<longleftrightarrow> list_all (\<lambda>x. \<not> P x) xs"
  by (simp add: list_ex_iff list_all_iff)

lemma accepted_attested:
  assumes "validateReportedOutput out = []" and "uriBelongsToJob (po_Uri out) jobID (po_LocalPath out)"
    and "po_Name out \<in> set declared"
  shows "attested jobID declared (output_of out)"
  using assms
  by (auto simp: attested_def validateReportedOutput_def uriBelongsToJob_def output_of_def HasSuffix_iff not_list_ex
      split: if_splits)

lemma attest_loop_spec:
  assumes "attest_loop wi jobID nodeID (Some declared) src sv = (outs, sv')"
  shows "(\<forall>a \<in> set outs. attested jobID declared a) \<and> js_jobs (sv_jobs sv') = js_jobs (sv_jobs sv) \<and>
    js_persister (sv_jobs sv') = js_persister (sv_jobs sv) \<and> sv_workflows sv' = sv_workflows sv \<and>
    sv_services sv' = sv_services sv"
  using assms
  by (induction wi jobID nodeID "Some declared" src sv arbitrary: outs rule: attest_loop.induct)
    (fastforce simp: accepted_attested Let_def split: if_splits prod.splits)+

lemma attestOutputs_spec:
  assumes "attestOutputs wi jobID nodeID src (Some declared) sv = (outs, sv')"
  shows "\<forall>a \<in> set outs. attested jobID declared a" "js_jobs (sv_jobs sv') = js_jobs (sv_jobs sv)"
    "js_persister (sv_jobs sv') = js_persister (sv_jobs sv)" "sv_workflows sv' = sv_workflows sv"
    "sv_services sv' = sv_services sv"
  using assms attest_loop_spec [of wi jobID nodeID declared "take 64 src" sv outs sv']
  by (auto simp: attestOutputs_def split: if_splits)

section \<open>An invariant of memory and disk\<close>

definition good_outputs :: "string \<Rightarrow> job \<Rightarrow> bool" where
  "good_outputs i j \<longleftrightarrow> j_ID j = i \<and> (\<forall>a \<in> set (j_ResolvedOutputs j). attested i (map b_Name (j_Outputs j)) a)"

definition outputs_ok :: "(string \<rightharpoonup> job) \<Rightarrow> bool" where
  "outputs_ok m \<longleftrightarrow> (\<forall>i j. m i = Some j \<longrightarrow> good_outputs i j)"

lemma outputs_ok_upd: "outputs_ok m \<Longrightarrow> good_outputs i j \<Longrightarrow> outputs_ok (m(i \<mapsto> j))"
  by (simp add: outputs_ok_def)

lemma outputs_okD: "outputs_ok m \<Longrightarrow> m i = Some j \<Longrightarrow> good_outputs i j"
  by (simp add: outputs_ok_def)

lemma good_outputs_fields [simp]:
  "good_outputs i (j\<lparr>j_Status := x1\<rparr>) = good_outputs i j" "good_outputs i (j\<lparr>j_FinishedAt := x2\<rparr>) = good_outputs i j"
  "good_outputs i (j\<lparr>j_Error := x3\<rparr>) = good_outputs i j" "good_outputs i (j\<lparr>j_Inputs := x4\<rparr>) = good_outputs i j"
  "good_outputs i (j\<lparr>j_Shares := x5\<rparr>) = good_outputs i j" "good_outputs i (j\<lparr>j_Attempt := x6\<rparr>) = good_outputs i j"
  "good_outputs i (j\<lparr>j_RetryAfter := x7\<rparr>) = good_outputs i j" "good_outputs i (j\<lparr>j_NodeID := x8\<rparr>) = good_outputs i j"
  "good_outputs i (j\<lparr>j_DispatchedAt := x9\<rparr>) = good_outputs i j" "good_outputs i (j\<lparr>j_CreatedAt := x10\<rparr>) = good_outputs i j"
  "good_outputs i (j\<lparr>j_Priority := x11\<rparr>) = good_outputs i j"
  by (simp_all add: good_outputs_def)

lemma good_outputs_core [simp]: "good_outputs i (core j) \<longleftrightarrow> good_outputs i j"
  by (simp add: good_outputs_def core_def)

lemma good_apply_transition:
  assumes "good_outputs i j" and "\<forall>a \<in> set (t_ResolvedOutputs opts). attested i (map b_Name (j_Outputs j)) a"
  shows "good_outputs i (apply_transition now to opts j)"
  using assms by (auto simp: good_outputs_def apply_transition_def Let_def)

context job_persister
begin

abbreviation good_store :: "'p job_store \<Rightarrow> bool" where
  "good_store st \<equiv> outputs_ok (js_jobs st) \<and> outputs_ok (disk (js_persister st))"

lemma save_good:
  assumes "save p j = (r, p')" and "outputs_ok (disk p)" and "good_outputs i j"
  shows "outputs_ok (disk p')"
  using assms(1)
proof (cases rule: save_cases)
  case ok
  with assms(2,3) show ?thesis by (auto simp: outputs_ok_def good_outputs_def core_def)
qed (use assms(2) in simp)

lemma Transition_good:
  assumes "good_store st" and "Transition save now i to opts st = (r, st')"
    and "\<And>j. js_jobs st i = Some j \<Longrightarrow> \<forall>a \<in> set (t_ResolvedOutputs opts). attested i (map b_Name (j_Outputs j)) a"
  shows "good_store st'"
proof (cases "js_jobs st i")
  case (Some j)
  have "good_outputs i (apply_transition now to opts j)"
    using assms(1) Some by (intro good_apply_transition assms(3)) (auto dest: outputs_okD)
  with assms(1,2) Some show ?thesis
    by (auto simp: Transition_def Let_def outputs_ok_upd save_good split: if_splits prod.splits option.splits)
qed (use assms in \<open>simp add: Transition_def\<close>)

lemma Retry_good:
  assumes "good_store st" and "RetryIfEligible save now rnd i st = (r, st')"
  shows "good_store st'"
proof (cases "js_jobs st i")
  case (Some j)
  with assms(1) have "good_outputs i j" by (auto dest: outputs_okD)
  with assms Some show ?thesis
    by (auto simp: RetryIfEligible_def Let_def outputs_ok_upd save_good split: if_splits prod.splits option.splits)
qed (use assms in \<open>simp add: RetryIfEligible_def\<close>)

lemma updates_good:
  assumes "good_store st"
  shows "MarkLost save now i reason st = (r, st') \<Longrightarrow> good_store st'"
    and "resetToPending save i st = (r, st') \<Longrightarrow> good_store st'"
    and "UpdateResolvedInputs save i ins st = (r, st') \<Longrightarrow> good_store st'"
    and "UpdateShares save i shs st = (r, st') \<Longrightarrow> good_store st'"
proof -
  have "good_outputs i j" if "js_jobs st i = Some j" for j using assms that by (auto dest: outputs_okD)
  note g = this assms
  show "MarkLost save now i reason st = (r, st') \<Longrightarrow> good_store st'" using g
    by (auto simp: MarkLost_def Let_def outputs_ok_upd save_good split: if_splits prod.splits option.splits)
  show "resetToPending save i st = (r, st') \<Longrightarrow> good_store st'" using g
    by (auto simp: resetToPending_def Let_def outputs_ok_upd save_good split: if_splits prod.splits option.splits)
  show "UpdateResolvedInputs save i ins st = (r, st') \<Longrightarrow> good_store st'" using g
    by (auto simp: UpdateResolvedInputs_def outputs_ok_upd save_good split: prod.splits option.splits)
  show "UpdateShares save i shs st = (r, st') \<Longrightarrow> good_store st'" using g
    by (auto simp: UpdateShares_def Let_def outputs_ok_upd save_good split: prod.splits option.splits)
qed

lemma Submit_good:
  assumes "good_store st" and "j_ResolvedOutputs j = []" and "Submit save now j st = (r, st')"
  shows "good_store st'"
proof -
  have "good_outputs (j_ID j) j" using assms(2) by (simp add: good_outputs_def)
  moreover have "outputs_ok ((js_jobs st)(k := None))" for k using assms(1) by (simp add: outputs_ok_def)
  ultimately show ?thesis using assms(1,3)
    by (auto simp: Submit_def Let_def outputs_ok_upd split: if_splits prod.splits option.splits
        elim!: save_good [where i = "j_ID j"])
qed

lemma cascade_good:
  assumes "good_store js"
  shows "good_store (settle_failure save reason now jobID status wjs js)"
proof -
  have one: "good_store (skip_one save now r descName wj js)" if "good_store js" for r descName wj js
    using that Transition_good [OF that prod.collapse [symmetric]] by (simp add: skip_one_def no_opts_def)
  have "good_store (fold (skip_one save now r descName) wjs js)" if "good_store js" for r descName js
    by (rule fold_invariant [where Q = "\<lambda>_. True" and P = good_store]) (use that one in simp_all)
  then have "good_store (cascade save now r wjs descs js)" for r descs
    unfolding cascade_def
    by (rule_tac fold_invariant [where Q = "\<lambda>_. True" and P = good_store]) (use assms in simp_all)
  then show ?thesis using assms by (simp add: settle_failure_def Let_def)
qed

lemma OnJobCompleted_good:
  "good_store js \<Longrightarrow> OnJobCompleted save wsave reason bus now ord jobID status ws js = (ws', js') \<Longrightarrow> good_store js'"
  by (auto simp: OnJobCompleted_def Let_def cascade_good split: option.splits)

lemma after_final_good:
  assumes "good_store (sv_jobs sv)" and "en_save en = save"
  shows "good_store (sv_jobs (after_final en result target sv))"
proof -
  define sv1 where "sv1 = (if r_Error result \<in> {''Seccomp'', ''OOMKilled''}
    then audit_log (en_wi en) (AuditViolation (r_NodeId result) (r_JobId result) (r_Error result)) sv else sv)"
  obtain b js where r: "(if has_retry (en_wi en)
      then RetryIfEligible (en_save en) (en_now en) (en_rnd en) (r_JobId result) (sv_jobs sv1)
      else (Some False, sv_jobs sv1)) = (b, js)" by fastforce
  have "good_store (sv_jobs sv1)" using assms(1) by (simp add: sv1_def)
  then have g: "good_store js"
  proof (cases "has_retry (en_wi en)")
    case True
    then have "RetryIfEligible save (en_now en) (en_rnd en) (r_JobId result) (sv_jobs sv1) = (b, js)"
      using r assms(2) by simp
    from Retry_good [OF \<open>good_store (sv_jobs sv1)\<close> this] show ?thesis .
  qed (use r in simp)
  obtain ws js' where o: "OnJobCompleted save (en_wsave en) (en_reason en) True (en_now en) (en_ord en)
      (r_JobId result) target (sv_workflows sv1) js = (ws, js')" by fastforce
  have g': "good_store js'" using OnJobCompleted_good [OF g o] .
  have "after_final en result target sv =
     (if b = Some True then sv1\<lparr>sv_jobs := js\<rparr>
      else if has_callback (en_wi en) then completion_callback en (r_JobId result) target (sv1\<lparr>sv_jobs := js\<rparr>)
      else sv1\<lparr>sv_jobs := js\<rparr>)"
    unfolding after_final_def sv1_def [symmetric] Let_def using r by simp
  then show ?thesis using g g' o assms(2) by (simp add: completion_callback_def)
qed

lemma apply_result_good:
  assumes g: "good_store (sv_jobs sv)" and save: "en_save en = save" and j: "js_jobs (sv_jobs sv) (r_JobId result) = Some job"
    and opts: "\<forall>a \<in> set (t_ResolvedOutputs opts). attested (r_JobId result) (map b_Name (j_Outputs job)) a"
    and run: "apply_result en result job opts sv = (r, sv')"
  shows "good_store (sv_jobs sv')"
proof -
  obtain e js where t: "(if j_Status job = JobStatusDispatching
      then Transition save (en_now en) (r_JobId result) JobStatusRunning opts (sv_jobs sv)
      else (None, sv_jobs sv)) = (e, js)" by fastforce
  have gj: "good_store js"
  proof (cases "j_Status job = JobStatusDispatching")
    case True
    then have "Transition save (en_now en) (r_JobId result) JobStatusRunning opts (sv_jobs sv) = (e, js)" using t by simp
    from Transition_good [OF g this] opts j show ?thesis by simp
  qed (use t g in simp)
  have out: "map_option j_Outputs (js_jobs js (r_JobId result)) = Some (j_Outputs job)"
    using t j by (auto simp: Transition_def Let_def apply_transition_def split: if_splits option.splits prod.splits)
  define opts' where "opts' = (if \<not> r_Success result \<and> r_Error result \<noteq> [] then opts\<lparr>t_ErrMsg := r_Error result\<rparr> else opts)"
  define target where "target = (if r_Success result then JobStatusCompleted else JobStatusFailed)"
  obtain e2 js' where t2: "Transition save (en_now en) (r_JobId result) target opts' js = (e2, js')" by fastforce
  have gj': "good_store js'"
    by (rule Transition_good [OF gj t2]) (use out opts in \<open>auto simp: opts'_def\<close>)
  have "(r, sv') = (case e of Some e \<Rightarrow> (Some (Internal e), sv\<lparr>sv_jobs := js\<rparr>) | None \<Rightarrow>
     (case e2 of Some e \<Rightarrow> (Some (Internal e), sv\<lparr>sv_jobs := js'\<rparr>)
      | None \<Rightarrow> (None, after_final en result target (sv\<lparr>sv_jobs := js'\<rparr>))))"
    unfolding run [symmetric] apply_result_def save Let_def t opts'_def [symmetric] target_def [symmetric] t2
    by (simp add: t2 split: option.splits)
  then show ?thesis using gj gj' after_final_good [OF _ save, of "sv\<lparr>sv_jobs := js'\<rparr>"]
    by (auto split: option.splits)
qed

lemma ReportResult_good:
  assumes g: "good_store (sv_jobs sv)" and save: "en_save en = save" and run: "ReportResult en result sv = (r, sv')"
  shows "good_store (sv_jobs sv')"
proof (cases "js_jobs (sv_jobs sv) (r_JobId result)")
  case (Some job)
  obtain outs sv1 where a: "attestOutputs (en_wi en) (r_JobId result) (r_NodeId result) (r_Outputs result)
      (Some (map b_Name (j_Outputs job))) sv = (outs, sv1)" by fastforce
  note at = attestOutputs_spec [OF a]
  have "good_store (sv_jobs sv2)" if "apply_result en result job (report_options result outs) sv1 = (e, sv2)" for e sv2
    by (rule apply_result_good [OF _ save _ _ that]) (use g Some at in \<open>simp_all add: report_options_def\<close>)
  then show ?thesis using run g Some a by (auto simp: ReportResult_def Get_def split: if_splits)
qed (use g run in \<open>auto simp: ReportResult_def Get_def split: if_splits\<close>)

end

lemma loaded_from_outputs:
  assumes "loaded_from j d"
  shows "good_outputs i j = good_outputs i d"
proof -
  have e: "durable j = durable d" using assms by (simp add: loaded_from_def)
  from arg_cong [OF e, of j_ID] arg_cong [OF e, of j_Outputs] arg_cong [OF e, of j_ResolvedOutputs] show ?thesis
    by (simp add: good_outputs_def durable_def core_def)
qed

context job_loader
begin

lemma restart_good:
  assumes g: "good_store st" and enum: "enumerates ord (disk (js_persister st))"
    and rst: "Restore (load ord) (NewJobStore (js_persister st)) = (None, st')"
  shows "good_store st'"
proof -
  have ids: "j_ID d = i" if "disk (js_persister st) i = Some d" for i d
    using g that by (auto dest!: outputs_okD simp: good_outputs_def)
  note look = Restore_lookup [OF enum ids rst]
  have "good_outputs i j" if "js_jobs st' i = Some j" for i j
    using look(1) [of i] that g
    by (cases "disk (js_persister st) i") (auto simp: loaded_from_outputs dest: outputs_okD)
  with look(2) g show ?thesis by (simp add: outputs_ok_def)
qed

end

section \<open>Steps of the server\<close>

text \<open>
  The server's calls interleaved with every other operation on the job store, with any change of the
  workflow store and with restarts, which keep only the disk. Only a report brings outputs:
  submitted jobs carry none, and no other caller of \<open>Transition\<close> passes any.
\<close>

inductive sv_step :: "'p saver \<Rightarrow> (string list \<Rightarrow> 'p \<Rightarrow> persist_error + job list) \<Rightarrow>
    ('p \<Rightarrow> (string \<rightharpoonup> job)) \<Rightarrow> ('p, 'q) server \<Rightarrow> ('p, 'q) server \<Rightarrow> bool"
  for save load disk where
  report: "en_save en = save \<Longrightarrow> ReportResult en result sv = (r, sv') \<Longrightarrow> sv_step save load disk sv sv'"
| service: "ReportServiceEvent wi now evt sv = (r, sv') \<Longrightarrow> sv_step save load disk sv sv'"
| submit: "j_ResolvedOutputs j = [] \<Longrightarrow> Submit save now j (sv_jobs sv) = (e, js) \<Longrightarrow>
    sv_step save load disk sv (sv\<lparr>sv_jobs := js\<rparr>)"
| transition: "t_ResolvedOutputs opts = [] \<Longrightarrow> Transition save now i to opts (sv_jobs sv) = (e, js) \<Longrightarrow>
    sv_step save load disk sv (sv\<lparr>sv_jobs := js\<rparr>)"
| mark_lost: "MarkLost save now i reason (sv_jobs sv) = (e, js) \<Longrightarrow> sv_step save load disk sv (sv\<lparr>sv_jobs := js\<rparr>)"
| reset: "resetToPending save i (sv_jobs sv) = (e, js) \<Longrightarrow> sv_step save load disk sv (sv\<lparr>sv_jobs := js\<rparr>)"
| retry: "RetryIfEligible save now rnd i (sv_jobs sv) = (b, js) \<Longrightarrow> sv_step save load disk sv (sv\<lparr>sv_jobs := js\<rparr>)"
| inputs: "UpdateResolvedInputs save i ins (sv_jobs sv) = (e, js) \<Longrightarrow> sv_step save load disk sv (sv\<lparr>sv_jobs := js\<rparr>)"
| shares: "UpdateShares save i shs (sv_jobs sv) = (e, js) \<Longrightarrow> sv_step save load disk sv (sv\<lparr>sv_jobs := js\<rparr>)"
| workflows: "sv_step save load disk sv (sv\<lparr>sv_workflows := ws\<rparr>)"
| restart: "enumerates ord (disk (js_persister (sv_jobs sv))) \<Longrightarrow>
    Restore (load ord) (NewJobStore (js_persister (sv_jobs sv))) = (None, js) \<Longrightarrow>
    sv_step save load disk sv (sv\<lparr>sv_jobs := js, sv_workflows := ws, sv_services := Map.empty\<rparr>)"

definition NewServer :: "'p \<Rightarrow> 'q \<Rightarrow> ('p, 'q) server" where
  "NewServer p q = \<lparr>sv_jobs = NewJobStore p, sv_workflows = NewWorkflowStore q, sv_services = Map.empty,
     sv_audit = [], sv_probes = []\<rparr>"

inductive sv_reachable :: "'p saver \<Rightarrow> (string list \<Rightarrow> 'p \<Rightarrow> persist_error + job list) \<Rightarrow>
    ('p \<Rightarrow> (string \<rightharpoonup> job)) \<Rightarrow> ('p, 'q) server \<Rightarrow> bool"
  for save load disk where
  start: "disk p = Map.empty \<Longrightarrow> sv_reachable save load disk (NewServer p q)"
| step: "sv_reachable save load disk sv \<Longrightarrow> sv_step save load disk sv sv' \<Longrightarrow> sv_reachable save load disk sv'"

lemma ReportServiceEvent_jobs:
  "ReportServiceEvent wi now evt sv = (r, sv') \<Longrightarrow> sv_jobs sv' = sv_jobs sv \<and> sv_workflows sv' = sv_workflows sv"
  by (auto simp: ReportServiceEvent_def Let_def split: if_splits option.splits)

context job_loader
begin

lemma good_sv_step: "sv_step save load disk sv sv' \<Longrightarrow> good_store (sv_jobs sv) \<Longrightarrow> good_store (sv_jobs sv')"
proof (induction rule: sv_step.induct)
  case (report en result sv r sv')
  from ReportResult_good [OF report(3,1,2)] show ?case .
next
  case (service wi now evt sv r sv')
  then show ?case by (simp add: ReportServiceEvent_jobs)
next
  case (submit j now sv e js)
  from Submit_good [OF submit(3,1,2)] show ?case by simp
next
  case (transition opts now i to sv e js)
  from Transition_good [OF transition(3,2)] transition(1) show ?case by simp
next
  case (retry now rnd i sv b js)
  from Retry_good [OF retry(2,1)] show ?case by simp
next
  case (restart ord sv js ws)
  from restart_good [OF restart(3,1,2)] show ?case by simp
next
  case (mark_lost now i reason sv e js)
  from updates_good(1) [OF mark_lost(2,1)] show ?case by simp
next
  case (reset i sv e js)
  from updates_good(2) [OF reset(2,1)] show ?case by simp
next
  case (inputs i ins sv e js)
  from updates_good(3) [OF inputs(2,1)] show ?case by simp
next
  case (shares i shs sv e js)
  from updates_good(4) [OF shares(2,1)] show ?case by simp
qed simp

lemma good_sv_reachable: "sv_reachable save load disk sv \<Longrightarrow> good_store (sv_jobs sv)"
proof (induction rule: sv_reachable.induct)
  case (start p q)
  then show ?case by (simp add: NewServer_def NewJobStore_def outputs_ok_def)
next
  case (step sv sv')
  from good_sv_step [OF step(2,3)] show ?case .
qed

end

section \<open>What a report leaves alone\<close>

lemma RetryIfEligible_frame:
  "RetryIfEligible save now rnd i js = (b, js') \<Longrightarrow> k \<noteq> i \<Longrightarrow> js_jobs js' k = js_jobs js k"
  by (auto simp: RetryIfEligible_def Let_def split: option.splits if_splits prod.splits)

lemma Transition_Skipped_frame:
  assumes "js_jobs js k = Some j" and "j_Status j \<noteq> JobStatusPending"
  shows "js_jobs (snd (Transition save now i JobStatusSkipped opts js)) k = Some j"
  using assms isAllowed_Skipped [of "j_Status j"]
  by (cases "k = i") (auto simp: Transition_def Let_def split: option.splits prod.splits)

lemma cascade_frame:
  assumes "js_jobs js k = Some j" and "j_Status j \<noteq> JobStatusPending"
  shows "js_jobs (settle_failure save reason now jobID status wjs js) k = Some j"
proof -
  let ?P = "\<lambda>js. js_jobs js k = Some j"
  have one: "?P js \<Longrightarrow> ?P (skip_one save now r descName wj js)" for r descName wj js
    using assms(2) by (simp add: skip_one_def Transition_Skipped_frame)
  have "?P js \<Longrightarrow> ?P (fold (skip_one save now r descName) wjs js)" for r descName js
    by (rule fold_invariant [where Q = "\<lambda>_. True" and P = ?P]) (use one in simp_all)
  then have "?P js \<Longrightarrow> ?P (cascade save now r wjs descs js)" for r descs
    unfolding cascade_def by (rule_tac fold_invariant [where Q = "\<lambda>_. True" and P = ?P]) simp_all
  then show ?thesis using assms(1) by (simp add: settle_failure_def Let_def)
qed

lemma callback_frame:
  assumes "js_jobs (sv_jobs sv) k = Some j" and "j_Status j \<noteq> JobStatusPending"
  shows "js_jobs (sv_jobs (completion_callback en jobID status sv)) k = Some j"
  using assms by (simp add: completion_callback_def OnJobCompleted_def Let_def cascade_frame split: option.splits)

lemma after_final_frame:
  assumes "js_jobs (sv_jobs sv) k = Some j" and "j_Status j \<noteq> JobStatusPending" and "k \<noteq> r_JobId result"
  shows "js_jobs (sv_jobs (after_final en result target sv)) k = Some j"
proof -
  define sv1 where "sv1 = (if r_Error result \<in> {''Seccomp'', ''OOMKilled''}
    then audit_log (en_wi en) (AuditViolation (r_NodeId result) (r_JobId result) (r_Error result)) sv else sv)"
  obtain b js where r: "(if has_retry (en_wi en)
      then RetryIfEligible (en_save en) (en_now en) (en_rnd en) (r_JobId result) (sv_jobs sv1)
      else (Some False, sv_jobs sv1)) = (b, js)" by fastforce
  have "js_jobs js k = js_jobs (sv_jobs sv1) k"
    using r RetryIfEligible_frame assms(3) by (metis prod.inject)
  then have k: "js_jobs js k = Some j" using assms(1) by (simp add: sv1_def)
  have "after_final en result target sv =
     (if b = Some True then sv1\<lparr>sv_jobs := js\<rparr>
      else if has_callback (en_wi en) then completion_callback en (r_JobId result) target (sv1\<lparr>sv_jobs := js\<rparr>)
      else sv1\<lparr>sv_jobs := js\<rparr>)"
    unfolding after_final_def sv1_def [symmetric] Let_def using r by simp
  then show ?thesis using k callback_frame [of "sv1\<lparr>sv_jobs := js\<rparr>" k j] assms(2) by simp
qed

lemma Transition_other: "k \<noteq> i \<Longrightarrow> js_jobs (snd (Transition save now i to opts js)) k = js_jobs js k"
  by (auto simp: Transition_def Let_def split: option.splits if_splits prod.splits)

lemma apply_result_frame:
  assumes "js_jobs (sv_jobs sv) k = Some j" and "j_Status j \<noteq> JobStatusPending" and "k \<noteq> r_JobId result"
    and "apply_result en result job opts sv = (r, sv')"
  shows "js_jobs (sv_jobs sv') k = Some j"
proof -
  have t: "js_jobs js' k = Some j" if "Transition (en_save en) now (r_JobId result) to op js = (e, js')"
    "js_jobs js k = Some j" for now to op js e js'
    using Transition_other [OF assms(3)] that by (metis snd_conv)
  show ?thesis using assms
    by (auto simp: apply_result_def Let_def after_final_frame split: if_splits option.splits prod.splits dest: t)
qed

text \<open>A node's result report never touches a job that was dispatched to a different node: that
  job's record stays as it is whatever the report says and whichever saves fail, as long as the job
  left the pending state; and if the report names that job, it is refused and changes no job, no
  workflow and no service endpoint.\<close>

theorem report_confined:
  assumes "ReportResult en result sv = (r, sv')" and "js_jobs (sv_jobs sv) i = Some j"
    and "j_NodeID j \<noteq> []" and "r_NodeId result \<noteq> []" and "j_NodeID j \<noteq> r_NodeId result"
    and "j_Status j \<noteq> JobStatusPending"
  shows "js_jobs (sv_jobs sv') i = Some j \<and>
    (i = r_JobId result \<and> has_jobs (en_wi en) \<longrightarrow> r = Some PermissionDenied \<and> sv_jobs sv' = sv_jobs sv \<and>
      sv_workflows sv' = sv_workflows sv \<and> sv_services sv' = sv_services sv)"
proof -
  have named: "r = Some PermissionDenied \<and> sv_jobs sv' = sv_jobs sv \<and>
      sv_workflows sv' = sv_workflows sv \<and> sv_services sv' = sv_services sv"
    if "i = r_JobId result \<and> has_jobs (en_wi en)"
    using assms that by (auto simp: ReportResult_def Get_def)
  have "js_jobs (sv_jobs sv') i = Some j"
  proof (cases "i = r_JobId result")
    case True
    with named assms show ?thesis by (cases "has_jobs (en_wi en)") (auto simp: ReportResult_def)
  next
    case False
    have "js_jobs (sv_jobs sv2) i = Some j"
      if "attestOutputs (en_wi en) (r_JobId result) (r_NodeId result) (r_Outputs result) (Some ns) sv = (outs, sv1)"
        "apply_result en result job opts sv1 = (e, sv2)" for ns outs sv1 job opts e sv2
      using apply_result_frame [OF _ assms(6) False that(2)] attestOutputs_spec(2) [OF that(1)] assms(2) by simp
    with assms(1,2) show ?thesis
      by (auto simp: ReportResult_def Get_def split: if_splits option.splits sum.splits prod.splits)
  qed
  with named show ?thesis by blast
qed

text \<open>C15. Whatever nodes report, and under any interleaving with the other operations on the job store,
  failed saves and restarts, every output recorded for a job has a name the job declared, a bounded
  file or s3 URI without control bytes that ends in the key the stager builds from this job's ID,
  and a non-negative size.\<close>

theorem recorded_outputs_attested:
  assumes "sv_reachable bd_SaveJob bd_LoadAllJobs bd_disk sv" and "js_jobs (sv_jobs sv) i = Some j"
    and "a \<in> set (j_ResolvedOutputs j)"
  shows "attested i (map b_Name (j_Outputs j)) a"
  using bd.good_sv_reachable [OF assms(1)] assms(2,3) by (auto simp: outputs_ok_def good_outputs_def)

text \<open>Whenever the dispatcher resolves an artifact reference of a workflow job, the URI the node
  receives ends in the key space of the job the reference names, in the same workflow, under an
  output name that job declared.\<close>

theorem resolved_inputs_attested:
  assumes "sv_reachable bd_SaveJob bd_LoadAllJobs bd_disk sv" and "ResolveJobInputs job (sv_jobs sv) = Inr job'"
    and "k < length (j_Inputs job)" and "b_From (j_Inputs job ! k) \<noteq> []"
  shows "\<exists>up out upstream base path. splitDotRef (b_From (j_Inputs job ! k)) = (up, out) \<and>
     js_jobs (sv_jobs sv) (wf_job_id (j_WorkflowID job) up) = Some upstream \<and> out \<in> b_Name ` set (j_Outputs upstream) \<and>
     path \<noteq> [] \<and>
     b_URI (j_Inputs job' ! k) = base @ ''/jobs/'' @ wf_job_id (j_WorkflowID job) up @ ''/'' @ path"
proof -
  have "hasAnyFromRef (j_Inputs job)"
    using assms(3,4) by (auto simp: hasAnyFromRef_def list_ex_iff dest: nth_mem)
  then obtain ins where "list_all2 (resolves (sv_jobs sv) (j_WorkflowID job)) (j_Inputs job) ins"
    and job': "job' = job\<lparr>j_Inputs := ins\<rparr>"
    using assms(2) by (auto simp: ResolveJobInputs_def resolve_all_iff [symmetric] split: if_splits sum.splits)
  then have "resolves (sv_jobs sv) (j_WorkflowID job) (j_Inputs job ! k) (ins ! k)"
    using assms(3) by (simp add: list_all2_conv_all_nth)
  then obtain up out upstream found where r: "splitDotRef (b_From (j_Inputs job ! k)) = (up, out)"
    "js_jobs (sv_jobs sv) (wf_job_id (j_WorkflowID job) up) = Some upstream"
    "findResolvedOutput (j_ResolvedOutputs upstream) out = Some found" "b_URI (ins ! k) = o_URI found"
    using assms(4) by (auto simp: resolves_def)
  have f: "found \<in> set (j_ResolvedOutputs upstream)" "o_Name found = out"
    using r(3) by (auto simp: findResolvedOutput_def find_Some_iff)
  have "good_outputs (wf_job_id (j_WorkflowID job) up) upstream"
    using bd.good_sv_reachable [OF assms(1)] r(2) by (auto dest: outputs_okD)
  with f have "attested (wf_job_id (j_WorkflowID job) up) (map b_Name (j_Outputs upstream)) found"
    by (auto simp: good_outputs_def)
  with r f job' show ?thesis by (auto simp: attested_def)
qed

section \<open>What a report does\<close>

lemma Retry_healthy:
  assumes "healthy js" and "js_jobs js i = Some j" and "isRetryable (j_Status j)"
    and "RetryIfEligible bd_SaveJob now rnd i js = (b, js')"
  shows "if ShouldRetry j
    then b = Some True \<and> (\<exists>j'. js_jobs js' i = Some j' \<and> j_Status j' = JobStatusPending \<and>
      j_Attempt j' = j_Attempt j + 1 \<and> j_NodeID j' = [])
    else b = Some False \<and> js' = js"
proof -
  obtain p1 where p1: "bd_SaveJob (js_persister js) (j\<lparr>j_Status := JobStatusRetrying\<rparr>) = (None, p1)" "bd_healthy p1"
    using healthy_save [OF assms(1)] by blast
  obtain d where d: "NextRetryDelay rnd (j_RetryPolicy j) (j_Attempt j + 1) = Some d" using NextRetryDelay_total by blast
  define j2 where "j2 = j\<lparr>j_Status := JobStatusRetrying, j_Attempt := j_Attempt j + 1, j_RetryAfter := now + sint d,
    j_Status := JobStatusPending, j_NodeID := [], j_DispatchedAt := time_zero, j_FinishedAt := time_zero, j_Error := []\<rparr>"
  obtain p2 where p2: "bd_SaveJob p1 j2 = (None, p2)" using healthy_save [OF p1(2)] by blast
  show ?thesis using assms(2-4) p1 d p2 unfolding j2_def
    by (auto simp: RetryIfEligible_def Let_def)
qed

text \<open>The status a report leaves the job in when all saves succeed.\<close>

definition report_result_status :: "job_result \<Rightarrow> job \<Rightarrow> job_status" where
  "report_result_status result j =
     (if r_Success result then JobStatusCompleted else if ShouldRetry j then JobStatusPending else JobStatusFailed)"

definition takes_report :: "job_result \<Rightarrow> job \<Rightarrow> bool" where
  "takes_report result j \<longleftrightarrow> j_Status j \<in> {JobStatusDispatching, JobStatusRunning} \<or>
     j_Status j = JobStatusPending \<and> \<not> r_Success result"

lemma final_allowed:
  assumes "takes_report result j"
  shows "isAllowed (if j_Status j = JobStatusDispatching then JobStatusRunning else j_Status j)
    (if r_Success result then JobStatusCompleted else JobStatusFailed)"
    and "\<not> IsTerminal (j_Status j)"
  using assms by (auto simp: takes_report_def isAllowed_iff allowedTransitions_def)

lemma Outputs_apply [simp]: "j_Outputs (apply_transition now to opts j) = j_Outputs j"
  by (simp add: apply_transition_def Let_def)

lemma ShouldRetry_apply [simp]: "ShouldRetry (apply_transition now to opts j) = ShouldRetry j"
  by (simp add: ShouldRetry_def split: option.splits)

lemma Transition_healthy_eq:
  assumes "healthy js" and "js_jobs js i = Some j" and "\<not> IsTerminal (j_Status j)" and "isAllowed (j_Status j) to"
  obtains js' where "Transition bd_SaveJob now i to opts js = (None, js')" "healthy js'"
    "js_jobs js' = (js_jobs js)(i \<mapsto> apply_transition now to opts j)"
proof -
  obtain b' where "bd_SaveJob (js_persister js) (apply_transition now to opts j) = (None, b')"
    using healthy_save [OF assms(1)] by blast
  then have "fst (Transition bd_SaveJob now i to opts js) = None" using assms by (simp add: Transition_def Let_def)
  with Transition_healthy [OF assms(1), of now i to opts] assms(2-4) show thesis
    by (intro that [of "snd (Transition bd_SaveJob now i to opts js)"]) (auto simp: prod_eq_iff)
qed

lemma after_final_healthy:
  assumes h: "healthy (sv_jobs sv)" and j: "js_jobs (sv_jobs sv) (r_JobId result) = Some j"
    and st: "j_Status j = target" and t: "target = (if r_Success result then JobStatusCompleted else JobStatusFailed)"
    and en: "en_save en = bd_SaveJob" "has_retry (en_wi en)"
  shows "\<exists>j'. js_jobs (sv_jobs (after_final en result target sv)) (r_JobId result) = Some j' \<and>
    j_Status j' = report_result_status result j \<and>
    (\<not> r_Success result \<and> ShouldRetry j \<longrightarrow> j_Attempt j' = j_Attempt j + 1 \<and> j_NodeID j' = []) \<and>
    (r_Success result \<longrightarrow> j' = j)"
proof -
  define sv1 where "sv1 = (if r_Error result \<in> {''Seccomp'', ''OOMKilled''}
    then audit_log (en_wi en) (AuditViolation (r_NodeId result) (r_JobId result) (r_Error result)) sv else sv)"
  obtain b js where r: "RetryIfEligible bd_SaveJob (en_now en) (en_rnd en) (r_JobId result) (sv_jobs sv1) = (b, js)" by fastforce
  have s1: "sv_jobs sv1 = sv_jobs sv" by (simp add: sv1_def)
  have e: "after_final en result target sv =
     (if b = Some True then sv1\<lparr>sv_jobs := js\<rparr>
      else if has_callback (en_wi en) then completion_callback en (r_JobId result) target (sv1\<lparr>sv_jobs := js\<rparr>)
      else sv1\<lparr>sv_jobs := js\<rparr>)"
    unfolding after_final_def sv1_def [symmetric] Let_def using r en by simp
  show ?thesis
  proof (cases "\<not> r_Success result \<and> ShouldRetry j")
    case True
    then have "isRetryable (j_Status j)" using st t by (simp add: isRetryable_def)
    with Retry_healthy [OF h j _ r [unfolded s1]] True e show ?thesis by (auto simp: report_result_status_def)
  next
    case False
    then have "b = Some False \<and> js = sv_jobs sv1"
      using Retry_healthy [OF h j _ r [unfolded s1]] r j st t s1
      by (cases "r_Success result") (auto simp: isRetryable_def RetryIfEligible_def)
    then show ?thesis using e j s1 st t False callback_frame [of "sv1\<lparr>sv_jobs := js\<rparr>" "r_JobId result" j]
      by (auto simp: report_result_status_def)
  qed
qed

lemma report_outcome:
  assumes h: "healthy (sv_jobs sv)" and j: "js_jobs (sv_jobs sv) (r_JobId result) = Some j"
    and en: "en_save en = bd_SaveJob" "has_jobs (en_wi en)" "has_retry (en_wi en)"
    and node: "j_NodeID j = [] \<or> r_NodeId result \<in> {[], j_NodeID j}" and st: "takes_report result j"
    and run: "ReportResult en result sv = (r, sv')"
  shows "r = None \<and> (\<exists>j'. js_jobs (sv_jobs sv') (r_JobId result) = Some j' \<and>
    j_Status j' = report_result_status result j \<and>
    (\<not> r_Success result \<and> ShouldRetry j \<longrightarrow> j_Attempt j' = j_Attempt j + 1 \<and> j_NodeID j' = []) \<and>
    (r_Success result \<longrightarrow> j_ExitCode j' = r_ExitCode result \<and> j_FinishedAt j' = en_now en \<and> j_Outputs j' = j_Outputs j \<and>
      (let outs = fst (attestOutputs (en_wi en) (r_JobId result) (r_NodeId result) (r_Outputs result)
                        (Some (map b_Name (j_Outputs j))) sv)
       in outs \<noteq> [] \<longrightarrow> j_ResolvedOutputs j' = outs)))"
proof -
  obtain outs sv1 where a: "attestOutputs (en_wi en) (r_JobId result) (r_NodeId result) (r_Outputs result)
      (Some (map b_Name (j_Outputs j))) sv = (outs, sv1)" by fastforce
  note at = attestOutputs_spec [OF a]
  let ?i = "r_JobId result" and ?opts = "report_options result outs"
  let ?target = "if r_Success result then JobStatusCompleted else JobStatusFailed"
  have h1: "healthy (sv_jobs sv1)" and j1: "js_jobs (sv_jobs sv1) ?i = Some j" using at h j by simp_all
  note fin = final_allowed [OF st]
  obtain js2 j2 where t1: "(if j_Status j = JobStatusDispatching
      then Transition bd_SaveJob (en_now en) ?i JobStatusRunning ?opts (sv_jobs sv1) else (None, sv_jobs sv1)) = (None, js2)"
    and h2: "healthy js2" and j2: "js_jobs js2 ?i = Some j2" "ShouldRetry j2 = ShouldRetry j" "j_Attempt j2 = j_Attempt j"
      "j_Outputs j2 = j_Outputs j" "j_Status j2 = (if j_Status j = JobStatusDispatching then JobStatusRunning else j_Status j)"
  proof (cases "j_Status j = JobStatusDispatching")
    case True
    have "isAllowed (j_Status j) JobStatusRunning" using True by (simp add: isAllowed_iff allowedTransitions_def)
    from Transition_healthy_eq [OF h1 j1 fin(2) this, of "en_now en" ?opts] obtain js2 where
      "Transition bd_SaveJob (en_now en) ?i JobStatusRunning ?opts (sv_jobs sv1) = (None, js2)" "healthy js2"
      "js_jobs js2 = (js_jobs (sv_jobs sv1))(?i \<mapsto> apply_transition (en_now en) JobStatusRunning ?opts j)" .
    with True show thesis by (intro that [of js2 "apply_transition (en_now en) JobStatusRunning ?opts j"])
      simp_all
  next
    case False
    with h1 j1 show thesis by (intro that [of "sv_jobs sv1" j]) simp_all
  qed
  define opts' where "opts' = (if \<not> r_Success result \<and> r_Error result \<noteq> [] then ?opts\<lparr>t_ErrMsg := r_Error result\<rparr> else ?opts)"
  have nt: "\<not> IsTerminal (j_Status j2)" using fin(2) j2(5) by simp
  obtain js3 where t3: "Transition bd_SaveJob (en_now en) ?i ?target opts' js2 = (None, js3)" "healthy js3"
    "js_jobs js3 = (js_jobs js2)(?i \<mapsto> apply_transition (en_now en) ?target opts' j2)"
    by (rule Transition_healthy_eq [OF h2 j2(1) nt fin(1) [folded j2(5)]])
  have "apply_result en result j ?opts sv1 = (None, after_final en result ?target (sv1\<lparr>sv_jobs := js3\<rparr>))"
    unfolding apply_result_def en Let_def t1 opts'_def [symmetric] prod.case option.case t3(1) ..
  moreover have "ReportResult en result sv = apply_result en result j ?opts sv1"
    unfolding ReportResult_def Get_def j using en(2) node a by auto
  ultimately have res: "r = None" "sv' = after_final en result ?target (sv1\<lparr>sv_jobs := js3\<rparr>)" using run by simp_all
  have "j_ExitCode (apply_transition (en_now en) JobStatusCompleted opts' j2) = r_ExitCode result"
    "j_FinishedAt (apply_transition (en_now en) JobStatusCompleted opts' j2) = en_now en"
    "outs \<noteq> [] \<Longrightarrow> j_ResolvedOutputs (apply_transition (en_now en) JobStatusCompleted opts' j2) = outs"
    "j_Outputs (apply_transition (en_now en) JobStatusCompleted opts' j2) = j_Outputs j2"
    by (simp_all add: apply_transition_def opts'_def report_options_def Let_def)
  moreover have "ShouldRetry (apply_transition (en_now en) ?target opts' j2) = ShouldRetry j"
    using j2(2) by simp
  ultimately show ?thesis unfolding res
    using after_final_healthy [of "sv1\<lparr>sv_jobs := js3\<rparr>" result "apply_transition (en_now en) ?target opts' j2" ?target en] t3 en j2(3,4) a
    by (cases "r_Success result") (auto simp: report_result_status_def Let_def)
qed

text \<open>With a healthy disk, a report from the node a dispatched or running job was sent to (or with no
  node named) is accepted and settles the job: completed with the reported exit code on success; on
  failure pending again with one more attempt and no node if the retry policy grants one, and failed otherwise.\<close>

theorem ReportResult_outcome:
  assumes "healthy (sv_jobs sv)" and "js_jobs (sv_jobs sv) (r_JobId result) = Some j"
    and "en_save en = bd_SaveJob" and "has_jobs (en_wi en)" and "has_retry (en_wi en)"
    and "j_Status j \<in> {JobStatusDispatching, JobStatusRunning}" and "r_NodeId result \<in> {[], j_NodeID j}"
    and "ReportResult en result sv = (r, sv')"
  shows "r = None \<and> (\<exists>j'. js_jobs (sv_jobs sv') (r_JobId result) = Some j' \<and>
    (if r_Success result then j_Status j' = JobStatusCompleted \<and> j_ExitCode j' = r_ExitCode result \<and> j_FinishedAt j' = en_now en
     else if ShouldRetry j then j_Status j' = JobStatusPending \<and> j_Attempt j' = j_Attempt j + 1 \<and> j_NodeID j' = []
     else j_Status j' = JobStatusFailed))"
proof -
  have "takes_report result j" using assms(6) by (auto simp: takes_report_def)
  from report_outcome [OF assms(1-5) _ this assms(8)] assms(7) show ?thesis
    by (auto simp: report_result_status_def)
qed

text \<open>The guard against foreign reports needs a recorded node: a failure report from any node whatever
  is accepted for a pending job that no node was given, and fails that job when it has no attempt left.\<close>

theorem undispatched_job_failed_by_any_node:
  assumes "healthy (sv_jobs sv)" and "js_jobs (sv_jobs sv) (r_JobId result) = Some j"
    and "en_save en = bd_SaveJob" and "has_jobs (en_wi en)" and "has_retry (en_wi en)"
    and "j_Status j = JobStatusPending" and "j_NodeID j = []" and "\<not> ShouldRetry j" and "\<not> r_Success result"
    and "ReportResult en result sv = (r, sv')"
  shows "r = None \<and> (\<exists>j'. js_jobs (sv_jobs sv') (r_JobId result) = Some j' \<and> j_Status j' = JobStatusFailed)"
proof -
  have "takes_report result j" using assms(6,9) by (simp add: takes_report_def)
  from report_outcome [OF assms(1-5) _ this assms(10)] assms(7-9) show ?thesis
    by (auto simp: report_result_status_def)
qed

text \<open>The suffix check trusts the local path the node reports: for every job and every declared output
  name, an entry whose path climbs out of the job's key space into that of another job is attested
  and recorded with the other job's location.\<close>

theorem attestation_admits_traversal:
  assumes "jobID \<noteq> []" and "nm \<in> set declared" and "nm \<noteq> []" and "length nm \<le> 64" and "name_charset 0 nm"
    and "length jobID + length other + length file \<le> 400" and "list_all (\<lambda>b. \<not> control_byte b) (jobID @ other @ file)"
  shows "fst (attestOutputs wi jobID nodeID
     [Some \<lparr>po_Name = nm, po_Uri = ''s3://b/jobs/'' @ jobID @ ''/../'' @ other @ ''/'' @ file, po_Size = 0, po_Sha256 = sha,
            po_LocalPath = ''../'' @ other @ ''/'' @ file\<rparr>] (Some declared) sv) =
     [\<lparr>o_Name = nm, o_URI = ''s3://b/jobs/'' @ jobID @ ''/../'' @ other @ ''/'' @ file, o_Size = 0, o_SHA256 = sha,
       o_LocalPath = ''../'' @ other @ ''/'' @ file\<rparr>]"
proof -
  let ?out = "\<lparr>po_Name = nm, po_Uri = ''s3://b/jobs/'' @ jobID @ ''/../'' @ other @ ''/'' @ file, po_Size = 0, po_Sha256 = sha,
            po_LocalPath = ''../'' @ other @ ''/'' @ file\<rparr>"
  have "\<not> list_ex control_byte (po_Uri ?out)"
    using assms(7) by (simp add: not_list_ex control_byte_def)
  then have "validateReportedOutput ?out = []"
    using assms by (simp add: validateReportedOutput_def)
  moreover have "uriBelongsToJob (po_Uri ?out) jobID (po_LocalPath ?out)"
    using assms(1) by (simp add: uriBelongsToJob_def HasSuffix_iff)
  ultimately show ?thesis using assms(2) by (simp add: attestOutputs_def Let_def output_of_def split: prod.splits)
qed

text \<open>Revocation does not reach service events: the interceptor turns a revoked node's registrations and
  result reports away with no effect, but a service event of the same node passes it and installs an
  endpoint with the address the node chose, for any job not dispatched to another node.\<close>

theorem revoked_node_installs_endpoint:
  assumes "IsRevoked n reg" and "n \<noteq> []" and "rq_NodeId q = n" and "r_NodeId res = n" and "v_NodeId evt = n"
    and "v_JobId evt \<noteq> []" and "has_services wi"
    and "\<forall>j. js_jobs (sv_jobs sv) (v_JobId evt) = Some j \<longrightarrow> j_NodeID j \<in> {[], n}"
  shows "revocationInterceptor reg (RegisterReq q) h sv = (Some Unauthenticated, sv) \<and>
    revocationInterceptor reg (ResultReq res) h sv = (Some Unauthenticated, sv) \<and>
    (\<exists>sv' ep. revocationInterceptor reg (ServiceReq evt) (\<lambda>_. ReportServiceEvent wi now evt sv) sv = (None, sv') \<and>
       ServiceGet (v_JobId evt) (sv_services sv') = Some ep \<and> se_NodeID ep = n \<and> se_NodeAddress ep = v_NodeAddress evt)"
proof -
  have "service_owner wi evt sv \<noteq> None"
    using assms(5,8) by (auto simp: service_owner_def Get_def split: option.splits if_splits)
  then obtain own where "service_owner wi evt sv = Some own" by blast
  then have "\<exists>sv' ep. ReportServiceEvent wi now evt sv = (None, sv') \<and>
      ServiceGet (v_JobId evt) (sv_services sv') = Some ep \<and> se_NodeID ep = n \<and> se_NodeAddress ep = v_NodeAddress evt"
    using assms(5-7) by (simp add: ReportServiceEvent_def Let_def Upsert_def ServiceGet_def)
  with assms(1-5) show ?thesis by (simp add: revocationInterceptor_def extractNodeID_def)
qed

section \<open>Concrete runs\<close>

definition demo_en :: "(badger, badger_wf) surroundings" where
  "demo_en = \<lparr>en_save = bd_SaveJob, en_wsave = bw_SaveWorkflow,
     en_wi = \<lparr>has_jobs = True, has_audit = True, has_retry = True, has_callback = True, has_services = True, has_bus = True\<rparr>,
     en_now = 40, en_rnd = (\<lambda>_. 0), en_reason = (\<lambda>_ _. []), en_ord = []\<rparr>"

definition demo_training :: job where
  "demo_training = demo_job\<lparr>j_ID := ''w/a'', j_Outputs := [\<lparr>b_Name = ''MODEL'', b_URI = [], b_From = [], b_LocalPath = ''m.pt'', b_SHA256 = []\<rparr>]\<rparr>"

definition demo_submitted :: "(badger, badger_wf) server" where
  "demo_submitted = (let sv = NewServer \<lparr>bd_jobs = Map.empty, bd_keyring = None, bd_faults = []\<rparr>
       \<lparr>bw_workflows = Map.empty, bw_keyring = None, bw_faults = []\<rparr>
     in sv\<lparr>sv_jobs := snd (Submit bd_SaveJob 10 demo_training (sv_jobs sv))\<rparr>)"

definition demo_dispatched :: "(badger, badger_wf) server" where
  "demo_dispatched = demo_submitted\<lparr>sv_jobs := snd (Transition bd_SaveJob 20 ''w/a'' JobStatusDispatching
     (no_opts\<lparr>t_NodeID := ''n1''\<rparr>) (sv_jobs demo_submitted))\<rparr>"

definition demo_result :: "string \<Rightarrow> job_result" where
  "demo_result n = \<lparr>r_JobId = ''w/a'', r_NodeId = n, r_Success = True, r_ExitCode = 0, r_Error = [], r_Runtime = ''go'',
     r_Outputs = [Some \<lparr>po_Name = ''MODEL'', po_Uri = ''s3://b/jobs/w/a/m.pt'', po_Size = 7, po_Sha256 = ''ab'', po_LocalPath = ''m.pt''\<rparr>]\<rparr>"

definition demo_reported :: "(badger, badger_wf) server" where
  "demo_reported = snd (ReportResult demo_en (demo_result ''n1'') demo_dispatched)"

definition demo_training_pending :: job where
  "demo_training_pending = demo_training\<lparr>j_Status := JobStatusPending, j_CreatedAt := 10, j_Attempt := 1, j_Priority := 50\<rparr>"

lemmas demo_eval = demo_submitted_def demo_training_pending_def demo_training_def demo_job_def zero_job_def NewServer_def NewJobStore_def
  Submit_def bd_SaveJob_def jobOnDiskCopy_def Let_def

lemma demo_submitted_simps:
  "js_jobs (sv_jobs demo_submitted) = [''w/a'' \<mapsto> demo_training_pending]"
  "js_persister (sv_jobs demo_submitted) = \<lparr>bd_jobs = [''w/a'' \<mapsto> demo_training_pending], bd_keyring = None, bd_faults = []\<rparr>"
  by (simp_all add: demo_eval)

lemma demo_submitted_reachable: "sv_reachable bd_SaveJob bd_LoadAllJobs bd_disk demo_submitted"
proof -
  have "sv_reachable bd_SaveJob bd_LoadAllJobs bd_disk (NewServer \<lparr>bd_jobs = Map.empty, bd_keyring = None, bd_faults = []\<rparr>
       \<lparr>bw_workflows = Map.empty, bw_keyring = None, bw_faults = []\<rparr> :: (badger, badger_wf) server)"
    by (rule sv_reachable.start) (simp add: bd_disk_def)
  then show ?thesis unfolding demo_submitted_def Let_def
    by (rule sv_reachable.step [OF _ sv_step.submit [OF _ prod.collapse [symmetric]]])
      (simp add: demo_training_def demo_job_def zero_job_def)
qed

lemma demo_dispatched_simps:
  "js_jobs (sv_jobs demo_dispatched) =
     [''w/a'' \<mapsto> demo_training_pending\<lparr>j_Status := JobStatusDispatching, j_DispatchedAt := 20, j_NodeID := ''n1''\<rparr>]"
  "healthy (sv_jobs demo_dispatched)"
  by (simp_all add: demo_dispatched_def demo_submitted_simps Transition_def Let_def isAllowed_iff allowedTransitions_def
      demo_training_pending_def demo_training_def demo_job_def zero_job_def apply_transition_def no_opts_def
      bd_SaveJob_def jobOnDiskCopy_def bd_healthy_def)

lemma demo_reported_reachable: "sv_reachable bd_SaveJob bd_LoadAllJobs bd_disk demo_reported"
proof -
  have "sv_reachable bd_SaveJob bd_LoadAllJobs bd_disk demo_dispatched"
    unfolding demo_dispatched_def
    by (rule sv_reachable.step [OF demo_submitted_reachable sv_step.transition [OF _ prod.collapse [symmetric]]])
      (simp add: no_opts_def)
  then show ?thesis unfolding demo_reported_def
    by (rule sv_reachable.step [OF _ sv_step.report [OF _ prod.collapse [symmetric]]]) (simp add: demo_en_def)
qed

definition demo_model :: artifact_output where
  "demo_model = \<lparr>o_Name = ''MODEL'', o_URI = ''s3://b/jobs/w/a/m.pt'', o_Size = 7, o_SHA256 = ''ab'', o_LocalPath = ''m.pt''\<rparr>"

lemma demo_sel:
  "en_wi demo_en = \<lparr>has_jobs = True, has_audit = True, has_retry = True, has_callback = True, has_services = True, has_bus = True\<rparr>"
  "en_save demo_en = bd_SaveJob" "en_wsave demo_en = bw_SaveWorkflow" "en_now demo_en = 40" "en_ord demo_en = []"
  "r_JobId (demo_result n) = ''w/a''" "r_NodeId (demo_result n) = n" "r_Success (demo_result n)" "r_ExitCode (demo_result n) = 0"
  "r_Error (demo_result n) = []"
  by (simp_all add: demo_en_def demo_result_def)

lemma demo_attest:
  "fst (attestOutputs wi ''w/a'' n (r_Outputs (demo_result m)) (Some [''MODEL'']) sv) = [demo_model]"
  by (simp add: attestOutputs_def demo_result_def validateReportedOutput_def byte_range_def control_byte_def
      uriBelongsToJob_def HasSuffix_def output_of_def demo_model_def Let_def split: prod.splits)

lemma demo_reported_job:
  "\<exists>j. js_jobs (sv_jobs demo_reported) ''w/a'' = Some j \<and> j_Status j = JobStatusCompleted \<and> j_ResolvedOutputs j = [demo_model] \<and>
     j_Outputs j = j_Outputs demo_training"
proof -
  let ?j = "demo_training_pending\<lparr>j_Status := JobStatusDispatching, j_DispatchedAt := 20, j_NodeID := ''n1''\<rparr>"
  have e: "ReportResult demo_en (demo_result ''n1'') demo_dispatched =
      (fst (ReportResult demo_en (demo_result ''n1'') demo_dispatched), demo_reported)" by (simp add: demo_reported_def)
  have o: "j_Outputs ?j = j_Outputs demo_training" "map b_Name (j_Outputs demo_training) = [''MODEL'']"
    by (simp_all add: demo_training_pending_def demo_training_def)
  have j: "js_jobs (sv_jobs demo_dispatched) (r_JobId (demo_result ''n1'')) = Some ?j"
    by (simp add: demo_dispatched_simps demo_sel)
  have t: "takes_report (demo_result ''n1'') ?j" by (simp add: takes_report_def)
  from report_outcome [OF demo_dispatched_simps(2) j _ _ _ _ t e]
  show ?thesis by (auto simp: demo_sel o demo_attest report_result_status_def)
qed

theorem recorded_outputs_attested_witness:
  "\<exists>j. js_jobs (sv_jobs demo_reported) ''w/a'' = Some j \<and> demo_model \<in> set (j_ResolvedOutputs j) \<and> attested ''w/a'' [''MODEL''] demo_model"
proof -
  obtain j where j: "js_jobs (sv_jobs demo_reported) ''w/a'' = Some j" "j_ResolvedOutputs j = [demo_model]"
    "j_Outputs j = j_Outputs demo_training" using demo_reported_job by blast
  have "attested ''w/a'' (map b_Name (j_Outputs j)) demo_model"
    by (rule recorded_outputs_attested [OF demo_reported_reachable j(1)]) (simp add: j(2))
  with j show ?thesis by (simp add: demo_training_def)
qed

theorem ReportResult_outcome_witness:
  "\<exists>j'. js_jobs (sv_jobs demo_reported) ''w/a'' = Some j' \<and> j_Status j' = JobStatusCompleted \<and> j_ExitCode j' = 0"
proof -
  have e: "ReportResult demo_en (demo_result ''n1'') demo_dispatched =
      (fst (ReportResult demo_en (demo_result ''n1'') demo_dispatched), demo_reported)" by (simp add: demo_reported_def)
  have "js_jobs (sv_jobs demo_dispatched) (r_JobId (demo_result ''n1'')) =
      Some (demo_training_pending\<lparr>j_Status := JobStatusDispatching, j_DispatchedAt := 20, j_NodeID := ''n1''\<rparr>)"
    by (simp add: demo_dispatched_simps demo_sel)
  from ReportResult_outcome [OF demo_dispatched_simps(2) this _ _ _ _ _ e] show ?thesis
    by (auto simp: demo_sel)
qed

theorem report_confined_witness:
  "fst (ReportResult demo_en (demo_result ''n2'') demo_dispatched) = Some PermissionDenied"
proof -
  have e: "ReportResult demo_en (demo_result ''n2'') demo_dispatched =
      (fst (ReportResult demo_en (demo_result ''n2'') demo_dispatched), snd (ReportResult demo_en (demo_result ''n2'') demo_dispatched))"
    by simp
  from report_confined [OF e, of "''w/a''"] show ?thesis by (simp add: demo_sel demo_dispatched_simps)
qed

theorem undispatched_job_failed_by_any_node_witness:
  "\<exists>j'. js_jobs (sv_jobs (snd (ReportResult demo_en ((demo_result ''n2'')\<lparr>r_Success := False\<rparr>) demo_submitted))) ''w/a'' = Some j' \<and>
     j_Status j' = JobStatusFailed"
proof -
  have h: "healthy (sv_jobs demo_submitted)" by (simp add: demo_submitted_simps bd_healthy_def)
  from undispatched_job_failed_by_any_node [OF h _ _ _ _ _ _ _ _ prod.collapse [symmetric], of "(demo_result ''n2'')\<lparr>r_Success := False\<rparr>"
      demo_training_pending demo_en]
  show ?thesis by (simp add: demo_sel demo_submitted_simps demo_training_pending_def demo_training_def demo_job_def zero_job_def
      ShouldRetry_def DefaultRetryPolicy_def)
qed

text \<open>A workflow step that takes the reported model as its input.\<close>

definition demo_consumer :: job where
  "demo_consumer = zero_job\<lparr>j_ID := ''w/b'', j_WorkflowID := ''w'',
     j_Inputs := [\<lparr>b_Name = ''IN'', b_URI = [], b_From = ''a.MODEL'', b_LocalPath = ''in.pt'', b_SHA256 = []\<rparr>]\<rparr>"

theorem resolved_inputs_attested_witness:
  "\<exists>job' base path. ResolveJobInputs demo_consumer (sv_jobs demo_reported) = Inr job' \<and>
     b_URI (j_Inputs job' ! 0) = base @ ''/jobs/w/a/'' @ path"
proof -
  have sp: "splitDotRef ''a.MODEL'' = (''a'', ''MODEL'')" by (simp add: splitDotRef_def LastIndexByte_def)
  obtain j where "js_jobs (sv_jobs demo_reported) ''w/a'' = Some j" "j_Status j = JobStatusCompleted"
    "j_ResolvedOutputs j = [demo_model]" using demo_reported_job by blast
  then have r: "\<exists>job'. ResolveJobInputs demo_consumer (sv_jobs demo_reported) = Inr job'"
    by (simp add: ResolveJobInputs_def demo_consumer_def hasAnyFromRef_def resolve_binding_def sp Get_def zero_job_def
        findResolvedOutput_def demo_model_def)
  then obtain job' where job': "ResolveJobInputs demo_consumer (sv_jobs demo_reported) = Inr job'" ..
  from resolved_inputs_attested [OF demo_reported_reachable this, of 0] job' show ?thesis
    by (auto simp: demo_consumer_def sp wf_job_id_def)
qed

theorem attestation_admits_traversal_witness:
  "fst (attestOutputs (en_wi demo_en) ''w/a'' ''n1''
     [Some \<lparr>po_Name = ''MODEL'', po_Uri = ''s3://b/jobs/w/a/../b/key'', po_Size = 0, po_Sha256 = [], po_LocalPath = ''../b/key''\<rparr>]
     (Some [''MODEL'']) demo_dispatched) =
   [\<lparr>o_Name = ''MODEL'', o_URI = ''s3://b/jobs/w/a/../b/key'', o_Size = 0, o_SHA256 = [], o_LocalPath = ''../b/key''\<rparr>]"
  using attestation_admits_traversal [of "''w/a''" "''MODEL''" "[''MODEL'']" "''b''" "''key''" "en_wi demo_en" "''n1''" "[]" demo_dispatched]
  by (simp add: byte_range_def control_byte_def)

definition demo_revoked :: "mem_cert_pinner registry" where
  "demo_revoked = RevokeNode mem_ops True ''n1'' ''compromised'' (NewRegistry None 10)"

definition demo_event :: service_event where
  "demo_event = \<lparr>v_JobId = ''w/a'', v_NodeId = ''n1'', v_NodeAddress = ''10.0.0.9:80'', v_Port = 80, v_HealthPath = ''/h'',
     v_Ready = True, v_ConsecutiveFailures = 0, v_OccurredAt = None\<rparr>"

theorem revoked_node_installs_endpoint_witness:
  "\<exists>sv' ep. revocationInterceptor demo_revoked (ServiceReq demo_event) (\<lambda>_. ReportServiceEvent (en_wi demo_en) 50 demo_event demo_dispatched)
       demo_dispatched = (None, sv') \<and> ServiceGet ''w/a'' (sv_services sv') = Some ep \<and> se_NodeAddress ep = ''10.0.0.9:80''"
proof -
  have "IsRevoked ''n1'' demo_revoked"
    by (simp add: demo_revoked_def RevokeNode_def NewRegistry_def IsRevoked_def Let_def)
  moreover have "rq_NodeId \<lparr>rq_NodeId = ''n1'', rq_Address = [], rq_Certificate = [], rq_Labels = []\<rparr> = ''n1''"
    "v_NodeId demo_event = ''n1''" "v_JobId demo_event = ''w/a''" "v_NodeAddress demo_event = ''10.0.0.9:80''"
    by (simp_all add: demo_event_def)
  moreover note revoked_node_installs_endpoint [of "''n1''" demo_revoked
      "\<lparr>rq_NodeId = ''n1'', rq_Address = [], rq_Certificate = [], rq_Labels = []\<rparr>" "demo_result ''n1''" demo_event "en_wi demo_en"
      demo_dispatched "\<lambda>_. (None, demo_dispatched)" 50]
  ultimately show ?thesis by (auto simp: demo_sel demo_dispatched_simps)
qed

end
