(* ===== verification/Principal_Groups.thy ===== *)
theory Principal_Groups
  imports Authz
begin

text \<open>
  Group membership: \<open>internal/groups\<close> with its in-memory store (\<open>memstore.go\<close>) and its BadgerDB store
  (\<open>badger.go\<close>), and the step of \<open>internal/api/middleware.go\<close> that fills in a principal's groups.

  Both stores keep a forward record per group and a reverse index per member. The contract is an
  abstract state, the map from names to groups, with one specification per operation; the locale
  \<open>group_store\<close> states that an implementation refines it, and it is interpreted on both stores. The
  BadgerDB store is a map from key strings to values, so that the layout of its two key families is
  part of the model; a JSON-encoded record is the record itself. A transaction that does not
  commit changes nothing.
\<close>

section \<open>Groups and validation\<close>

record group =
  g_Name :: string
  g_Members :: "string list"
  g_CreatedAt :: time
  g_CreatedBy :: string
  g_UpdatedAt :: time

datatype group_error = ErrGroupExists | ErrGroupNotFound | ErrInvalidName | ErrInvalidPrincipal | ErrGroupTxn

definition group_name_byte :: "char \<Rightarrow> bool" where
  "group_name_byte c \<longleftrightarrow> of_char c \<in> ({97..122} \<union> {65..90} \<union> {48..57} :: nat set) \<or> c \<in> set ''_-.''"

definition ValidateName :: "string \<Rightarrow> bool" where
  "ValidateName name \<longleftrightarrow> name \<noteq> [] \<and> length name \<le> 64 \<and> list_all group_name_byte name \<and> hd name \<noteq> CHR ''.''"

definition ValidatePrincipalID :: "string \<Rightarrow> bool" where
  "ValidatePrincipalID i =
     (if i = [] then False
      else if i = ''anonymous'' then True
      else let colon = IndexByte i (CHR '':'') in
        if colon \<le> 0 then False
        else if colon = int (length i) - 1 then False
        else take (nat colon) i \<noteq> ''group'')"

text \<open>The checks and defaults at the head of \<open>Create\<close>.\<close>

definition check_create :: "group \<Rightarrow> group_error option" where
  "check_create g = (if \<not> ValidateName (g_Name g) then Some ErrInvalidName
     else if \<not> list_all ValidatePrincipalID (g_Members g) then Some ErrInvalidPrincipal else None)"

definition stamp :: "time \<Rightarrow> group \<Rightarrow> group" where
  "stamp now g = (let g = (if IsZero (g_CreatedAt g) then g\<lparr>g_CreatedAt := now\<rparr> else g) in g\<lparr>g_UpdatedAt := g_CreatedAt g\<rparr>)"

definition check_member :: "string \<Rightarrow> string \<Rightarrow> group_error option" where
  "check_member name principalID = (if \<not> ValidateName name then Some ErrInvalidName
     else if \<not> ValidatePrincipalID principalID then Some ErrInvalidPrincipal else None)"

text \<open>The slice operation that drops the first occurrence.\<close>

definition drop_member :: "string \<Rightarrow> time \<Rightarrow> group \<Rightarrow> group" where
  "drop_member principalID now g = g\<lparr>g_Members := remove1 principalID (g_Members g), g_UpdatedAt := now\<rparr>"

definition add_member :: "string \<Rightarrow> time \<Rightarrow> group \<Rightarrow> group" where
  "add_member principalID now g = g\<lparr>g_Members := g_Members g @ [principalID], g_UpdatedAt := now\<rparr>"

section \<open>Specification\<close>

type_synonym groups = "string \<rightharpoonup> group"

definition spec_Create :: "time \<Rightarrow> group \<Rightarrow> groups \<Rightarrow> group_error option \<times> groups" where
  "spec_Create now g A = (case check_create g of Some e \<Rightarrow> (Some e, A)
     | None \<Rightarrow> if A (g_Name g) \<noteq> None then (Some ErrGroupExists, A) else (None, A(g_Name g \<mapsto> stamp now g)))"

definition spec_AddMember :: "time \<Rightarrow> string \<Rightarrow> string \<Rightarrow> groups \<Rightarrow> group_error option \<times> groups" where
  "spec_AddMember now name p A = (case check_member name p of Some e \<Rightarrow> (Some e, A)
     | None \<Rightarrow> (case A name of None \<Rightarrow> (Some ErrGroupNotFound, A)
        | Some g \<Rightarrow> if p \<in> set (g_Members g) then (None, A) else (None, A(name \<mapsto> add_member p now g))))"

definition spec_RemoveMember :: "time \<Rightarrow> string \<Rightarrow> string \<Rightarrow> groups \<Rightarrow> group_error option \<times> groups" where
  "spec_RemoveMember now name p A = (case check_member name p of Some e \<Rightarrow> (Some e, A)
     | None \<Rightarrow> (case A name of None \<Rightarrow> (Some ErrGroupNotFound, A)
        | Some g \<Rightarrow> if p \<notin> set (g_Members g) then (None, A) else (None, A(name \<mapsto> drop_member p now g))))"

definition spec_Delete :: "string \<Rightarrow> groups \<Rightarrow> group_error option \<times> groups" where
  "spec_Delete name A = (if \<not> ValidateName name then (Some ErrInvalidName, A)
     else if A name = None then (Some ErrGroupNotFound, A) else (None, A(name := None)))"

definition memberships :: "groups \<Rightarrow> string \<Rightarrow> string set" where
  "memberships A p = {n. \<exists>g. A n = Some g \<and> p \<in> set (g_Members g)}"

lemmas spec_defs = spec_Create_def spec_AddMember_def spec_RemoveMember_def spec_Delete_def

text \<open>What the operations keep: records filed under their own valid name, members valid and distinct.\<close>

definition wf_groups :: "groups \<Rightarrow> bool" where
  "wf_groups A \<longleftrightarrow> (\<forall>n g. A n = Some g \<longrightarrow> g_Name g = n \<and> ValidateName n \<and> distinct (g_Members g) \<and>
     list_all ValidatePrincipalID (g_Members g))"

section \<open>In-memory store\<close>

record mem_store =
  ms_groups :: groups
  ms_reverse :: "string \<rightharpoonup> string set"

definition NewMemStore :: mem_store where
  "NewMemStore = \<lparr>ms_groups = Map.empty, ms_reverse = Map.empty\<rparr>"

definition addReverseLocked :: "string \<Rightarrow> string \<Rightarrow> (string \<rightharpoonup> string set) \<Rightarrow> (string \<rightharpoonup> string set)" where
  "addReverseLocked principalID groupName rv =
     rv(principalID \<mapsto> insert groupName (case rv principalID of None \<Rightarrow> {} | Some S \<Rightarrow> S))"

definition removeReverseLocked :: "string \<Rightarrow> string \<Rightarrow> (string \<rightharpoonup> string set) \<Rightarrow> (string \<rightharpoonup> string set)" where
  "removeReverseLocked principalID groupName rv =
     (case rv principalID of None \<Rightarrow> rv
      | Some S \<Rightarrow> let S' = S - {groupName} in if S' = {} then rv(principalID := None) else rv(principalID \<mapsto> S'))"

definition ms_Create :: "time \<Rightarrow> group \<Rightarrow> mem_store \<Rightarrow> group_error option \<times> mem_store" where
  "ms_Create now g s = (case check_create g of Some e \<Rightarrow> (Some e, s)
     | None \<Rightarrow> let g = stamp now g in
        if ms_groups s (g_Name g) \<noteq> None then (Some ErrGroupExists, s)
        else (None, s\<lparr>ms_groups := (ms_groups s)(g_Name g \<mapsto> g),
                      ms_reverse := fold (\<lambda>m. addReverseLocked m (g_Name g)) (g_Members g) (ms_reverse s)\<rparr>))"

definition ms_Get :: "string \<Rightarrow> mem_store \<Rightarrow> group_error + group" where
  "ms_Get name s = (if \<not> ValidateName name then Inl ErrInvalidName
     else case ms_groups s name of None \<Rightarrow> Inl ErrGroupNotFound | Some g \<Rightarrow> Inr g)"

definition ms_AddMember :: "time \<Rightarrow> string \<Rightarrow> string \<Rightarrow> mem_store \<Rightarrow> group_error option \<times> mem_store" where
  "ms_AddMember now name p s = (case check_member name p of Some e \<Rightarrow> (Some e, s)
     | None \<Rightarrow> (case ms_groups s name of None \<Rightarrow> (Some ErrGroupNotFound, s)
        | Some g \<Rightarrow> if list_ex (\<lambda>m. m = p) (g_Members g) then (None, s)
            else (None, s\<lparr>ms_groups := (ms_groups s)(name \<mapsto> add_member p now g),
                          ms_reverse := addReverseLocked p name (ms_reverse s)\<rparr>)))"

definition ms_RemoveMember :: "time \<Rightarrow> string \<Rightarrow> string \<Rightarrow> mem_store \<Rightarrow> group_error option \<times> mem_store" where
  "ms_RemoveMember now name p s = (case check_member name p of Some e \<Rightarrow> (Some e, s)
     | None \<Rightarrow> (case ms_groups s name of None \<Rightarrow> (Some ErrGroupNotFound, s)
        | Some g \<Rightarrow> if \<not> list_ex (\<lambda>m. m = p) (g_Members g) then (None, s)
            else (None, s\<lparr>ms_groups := (ms_groups s)(name \<mapsto> drop_member p now g),
                          ms_reverse := removeReverseLocked p name (ms_reverse s)\<rparr>)))"

definition ms_Delete :: "string \<Rightarrow> mem_store \<Rightarrow> group_error option \<times> mem_store" where
  "ms_Delete name s = (if \<not> ValidateName name then (Some ErrInvalidName, s)
     else case ms_groups s name of None \<Rightarrow> (Some ErrGroupNotFound, s)
       | Some g \<Rightarrow> (None, s\<lparr>ms_groups := (ms_groups s)(name := None),
                            ms_reverse := fold (\<lambda>m. removeReverseLocked m name) (g_Members g) (ms_reverse s)\<rparr>))"

text \<open>A range over the set, then \<open>sort.Strings\<close>.\<close>

definition ms_GroupsFor :: "string \<Rightarrow> mem_store \<Rightarrow> group_error + string list" where
  "ms_GroupsFor p s = (if \<not> ValidatePrincipalID p then Inl ErrInvalidPrincipal
     else case ms_reverse s p of None \<Rightarrow> Inr [] | Some S \<Rightarrow> Inr (sorted_list_of_set S))"

section \<open>BadgerDB store\<close>

datatype group_value = VGroup group | VMember

type_synonym kv = "string \<rightharpoonup> group_value"

definition keyPrefixGroup :: string where
  "keyPrefixGroup = ''groups/''"

definition keyPrefixMember :: string where
  "keyPrefixMember = ''groups/members/''"

definition unit_separator :: char where
  "unit_separator = CHR 0x1F"

definition groupKey :: "string \<Rightarrow> string" where
  "groupKey name = keyPrefixGroup @ name"

definition memberKey :: "string \<Rightarrow> string \<Rightarrow> string" where
  "memberKey principalID groupName = keyPrefixMember @ principalID @ [unit_separator] @ groupName"

definition parseMemberKey :: "string \<Rightarrow> (string \<times> string) option" where
  "parseMemberKey key =
     (if \<not> HasPrefix key keyPrefixMember then None
      else let rest = drop (length keyPrefixMember) key; sep = IndexByte rest unit_separator in
        if sep < 0 then None else Some (take (nat sep) rest, drop (nat sep + 1) rest))"

text \<open>\<open>db.Update\<close>: the body's writes are kept if it returns no error and the transaction commits.\<close>

definition db_Update :: "bool \<Rightarrow> (kv \<Rightarrow> group_error option \<times> kv) \<Rightarrow> kv \<Rightarrow> group_error option \<times> kv" where
  "db_Update commit body kv = (case body kv of
       (Some e, _) \<Rightarrow> (Some e, kv)
     | (None, kv') \<Rightarrow> if commit then (None, kv') else (Some ErrGroupTxn, kv))"

text \<open>A read of a group record inside a transaction; another kind of value there fails to decode.\<close>

definition read_group :: "string \<Rightarrow> kv \<Rightarrow> group_error + group" where
  "read_group name kv = (case kv (groupKey name) of None \<Rightarrow> Inl ErrGroupNotFound
     | Some (VGroup g) \<Rightarrow> Inr g | Some VMember \<Rightarrow> Inl ErrGroupTxn)"

definition bg_Create :: "bool \<Rightarrow> time \<Rightarrow> group \<Rightarrow> kv \<Rightarrow> group_error option \<times> kv" where
  "bg_Create commit now g kv = (case check_create g of Some e \<Rightarrow> (Some e, kv)
     | None \<Rightarrow> let g = stamp now g in
        db_Update commit (\<lambda>kv.
          if kv (groupKey (g_Name g)) \<noteq> None then (Some ErrGroupExists, kv)
          else (None, fold (\<lambda>m kv. kv(memberKey m (g_Name g) \<mapsto> VMember)) (g_Members g)
                        (kv(groupKey (g_Name g) \<mapsto> VGroup g)))) kv)"

definition bg_Get :: "string \<Rightarrow> kv \<Rightarrow> group_error + group" where
  "bg_Get name kv = (if \<not> ValidateName name then Inl ErrInvalidName else read_group name kv)"

definition bg_AddMember :: "bool \<Rightarrow> time \<Rightarrow> string \<Rightarrow> string \<Rightarrow> kv \<Rightarrow> group_error option \<times> kv" where
  "bg_AddMember commit now name p kv = (case check_member name p of Some e \<Rightarrow> (Some e, kv)
     | None \<Rightarrow> db_Update commit (\<lambda>kv. case read_group name kv of Inl e \<Rightarrow> (Some e, kv)
         | Inr g \<Rightarrow> if list_ex (\<lambda>m. m = p) (g_Members g) then (None, kv)
             else (None, kv(groupKey name \<mapsto> VGroup (add_member p now g), memberKey p name \<mapsto> VMember))) kv)"

definition bg_RemoveMember :: "bool \<Rightarrow> time \<Rightarrow> string \<Rightarrow> string \<Rightarrow> kv \<Rightarrow> group_error option \<times> kv" where
  "bg_RemoveMember commit now name p kv = (case check_member name p of Some e \<Rightarrow> (Some e, kv)
     | None \<Rightarrow> db_Update commit (\<lambda>kv. case read_group name kv of Inl e \<Rightarrow> (Some e, kv)
         | Inr g \<Rightarrow> if \<not> list_ex (\<lambda>m. m = p) (g_Members g) then (None, kv)
             else (None, (kv(groupKey name \<mapsto> VGroup (drop_member p now g)))(memberKey p name := None))) kv)"

definition bg_Delete :: "bool \<Rightarrow> string \<Rightarrow> kv \<Rightarrow> group_error option \<times> kv" where
  "bg_Delete commit name kv = (if \<not> ValidateName name then (Some ErrInvalidName, kv)
     else db_Update commit (\<lambda>kv. case read_group name kv of Inl e \<Rightarrow> (Some e, kv)
         | Inr g \<Rightarrow> (None, (fold (\<lambda>m kv. kv(memberKey m name := None)) (g_Members g) kv)(groupKey name := None))) kv)"

text \<open>
  A prefix scan visits the keys of \<open>ord\<close>, an enumeration of the store's keys, that carry the prefix.
\<close>

definition bg_GroupsFor :: "string list \<Rightarrow> string \<Rightarrow> kv \<Rightarrow> group_error + string list" where
  "bg_GroupsFor ord p kv = (if \<not> ValidatePrincipalID p then Inl ErrInvalidPrincipal
     else let prefix = keyPrefixMember @ p @ [unit_separator] in
       Inr (sort (map snd (List.map_filter parseMemberKey (filter (\<lambda>k. HasPrefix k prefix) ord)))))"

section \<open>Listing\<close>

text \<open>\<open>sort.Slice\<close> newest first.\<close>

fun insert_newest :: "group \<Rightarrow> group list \<Rightarrow> group list" where
  "insert_newest g [] = [g]"
| "insert_newest g (h # hs) = (if g_CreatedAt g < g_CreatedAt h then h # insert_newest g hs else g # h # hs)"

definition newest_first :: "group list \<Rightarrow> group list" where
  "newest_first gs = foldr insert_newest gs []"

definition ms_List :: "string list \<Rightarrow> mem_store \<Rightarrow> group list" where
  "ms_List ord s = newest_first (range_values ord (ms_groups s))"

definition bg_List :: "string list \<Rightarrow> kv \<Rightarrow> group list option" where
  "bg_List ord kv =
     (let ks = filter (\<lambda>k. HasPrefix k keyPrefixGroup \<and> \<not> HasPrefix k keyPrefixMember) ord in
      map_option newest_first (those (map (\<lambda>k. case kv k of Some (VGroup g) \<Rightarrow> Some g | _ \<Rightarrow> None) ks)))"

section \<open>Groups of a principal\<close>

text \<open>\<open>populateGroups\<close>; \<open>lookup\<close> is the store's \<open>GroupsFor\<close>, absent when no store is configured.\<close>

definition populateGroups :: "(string \<Rightarrow> group_error + string list) option \<Rightarrow> principal \<Rightarrow> principal" where
  "populateGroups lookup p = (case lookup of None \<Rightarrow> p
     | Some f \<Rightarrow> if p_Kind p = KindAnonymous then p
         else (case f (p_ID p) of Inl _ \<Rightarrow> p | Inr gs \<Rightarrow> p\<lparr>p_Groups := gs\<rparr>))"

section \<open>The contract\<close>

datatype group_op = OpCreate time group | OpAddMember time string string | OpRemoveMember time string string | OpDelete string

record 's group_ops =
  go_Create :: "time \<Rightarrow> group \<Rightarrow> 's \<Rightarrow> group_error option \<times> 's"
  go_AddMember :: "time \<Rightarrow> string \<Rightarrow> string \<Rightarrow> 's \<Rightarrow> group_error option \<times> 's"
  go_RemoveMember :: "time \<Rightarrow> string \<Rightarrow> string \<Rightarrow> 's \<Rightarrow> group_error option \<times> 's"
  go_Delete :: "string \<Rightarrow> 's \<Rightarrow> group_error option \<times> 's"

fun exec :: "'s group_ops \<Rightarrow> group_op \<Rightarrow> 's \<Rightarrow> group_error option \<times> 's" where
  "exec ops (OpCreate now g) s = go_Create ops now g s"
| "exec ops (OpAddMember now n p) s = go_AddMember ops now n p s"
| "exec ops (OpRemoveMember now n p) s = go_RemoveMember ops now n p s"
| "exec ops (OpDelete n) s = go_Delete ops n s"

fun run :: "'s group_ops \<Rightarrow> group_op list \<Rightarrow> 's \<Rightarrow> group_error option list \<times> 's" where
  "run ops [] s = ([], s)"
| "run ops (c # cs) s = (let (e, s') = exec ops c s; (es, s'') = run ops cs s' in (e # es, s''))"

definition spec_ops :: "groups group_ops" where
  "spec_ops = \<lparr>go_Create = spec_Create, go_AddMember = spec_AddMember, go_RemoveMember = spec_RemoveMember, go_Delete = spec_Delete\<rparr>"

definition ms_ops :: "mem_store group_ops" where
  "ms_ops = \<lparr>go_Create = ms_Create, go_AddMember = ms_AddMember, go_RemoveMember = ms_RemoveMember, go_Delete = ms_Delete\<rparr>"

definition bg_ops :: "kv group_ops" where
  "bg_ops = \<lparr>go_Create = bg_Create True, go_AddMember = bg_AddMember True, go_RemoveMember = bg_RemoveMember True, go_Delete = bg_Delete True\<rparr>"

text \<open>
  Callers create groups without duplicate members; \<open>id_ok\<close> is what a store needs of principal IDs
  beyond their validity.
\<close>

fun op_ok :: "(string \<Rightarrow> bool) \<Rightarrow> group_op \<Rightarrow> bool" where
  "op_ok id_ok (OpCreate now g) \<longleftrightarrow> distinct (g_Members g) \<and> list_all id_ok (g_Members g)"
| "op_ok id_ok (OpAddMember now n p) \<longleftrightarrow> id_ok p"
| "op_ok id_ok (OpRemoveMember now n p) \<longleftrightarrow> id_ok p"
| "op_ok id_ok (OpDelete n) \<longleftrightarrow> True"

locale group_store =
  fixes ops :: "'s group_ops"
    and get :: "string \<Rightarrow> 's \<Rightarrow> group_error + group"
    and groupsFor :: "string \<Rightarrow> 's \<Rightarrow> group_error + string list"
    and empty :: 's
    and abs :: "'s \<Rightarrow> groups"
    and inv :: "'s \<Rightarrow> bool"
    and id_ok :: "string \<Rightarrow> bool"
  assumes empty_ref: "inv empty" "abs empty = Map.empty"
    and exec_ref: "inv s \<Longrightarrow> op_ok id_ok c \<Longrightarrow> exec ops c s = (e, s') \<Longrightarrow> inv s' \<and> (e, abs s') = exec spec_ops c (abs s)"
    and get_ref: "inv s \<Longrightarrow> get n s = (if \<not> ValidateName n then Inl ErrInvalidName
        else case abs s n of None \<Rightarrow> Inl ErrGroupNotFound | Some g \<Rightarrow> Inr g)"
    and groupsFor_ref: "inv s \<Longrightarrow> id_ok p \<Longrightarrow> groupsFor p s =
        (if ValidatePrincipalID p then Inr (sorted_list_of_set (memberships (abs s) p)) else Inl ErrInvalidPrincipal)"
    and inv_finite: "inv s \<Longrightarrow> finite (dom (abs s))"
begin

lemma run_ref:
  "inv s \<Longrightarrow> list_all (op_ok id_ok) cs \<Longrightarrow> run ops cs s = (es, s') \<Longrightarrow> inv s' \<and> (es, abs s') = run spec_ops cs (abs s)"
proof (induction cs arbitrary: s es s')
  case (Cons c cs)
  obtain e s1 where e: "exec ops c s = (e, s1)" by fastforce
  obtain es1 s2 where r: "run ops cs s1 = (es1, s2)" by fastforce
  from exec_ref [OF Cons.prems(1) _ e] Cons.prems(2) have "inv s1" "exec spec_ops c (abs s) = (e, abs s1)" by auto
  with Cons.IH [OF _ _ r] Cons.prems(2,3) e r show ?case by (auto simp: Let_def split: prod.splits)
qed simp

lemma finite_memberships: "inv s \<Longrightarrow> finite (memberships (abs s) p)"
  using inv_finite by (rule finite_subset [rotated]) (auto simp: memberships_def)

lemma groupsFor_member:
  "inv s \<Longrightarrow> id_ok p \<Longrightarrow> groupsFor p s = Inr gs \<Longrightarrow>
   n \<in> set gs \<longleftrightarrow> (\<exists>g. abs s n = Some g \<and> p \<in> set (g_Members g))"
  using finite_memberships [of s p] by (auto simp: groupsFor_ref memberships_def split: if_splits)

end

section \<open>The in-memory store refines the contract\<close>

definition reverse_of :: "(string \<rightharpoonup> string set) \<Rightarrow> string \<Rightarrow> string set" where
  "reverse_of rv p = (case rv p of None \<Rightarrow> {} | Some S \<Rightarrow> S)"

definition ms_inv :: "mem_store \<Rightarrow> bool" where
  "ms_inv s \<longleftrightarrow> wf_groups (ms_groups s) \<and> finite (dom (ms_groups s)) \<and>
     (\<forall>p. reverse_of (ms_reverse s) p = memberships (ms_groups s) p)"

lemma reverse_of_add: "reverse_of (addReverseLocked m n rv) p = (if p = m then insert n (reverse_of rv p) else reverse_of rv p)"
  by (simp add: reverse_of_def addReverseLocked_def split: option.splits)

lemma reverse_of_remove: "reverse_of (removeReverseLocked m n rv) p = (if p = m then reverse_of rv p - {n} else reverse_of rv p)"
  by (auto simp: reverse_of_def removeReverseLocked_def Let_def split: option.splits)

lemma reverse_of_fold_add:
  "reverse_of (fold (\<lambda>m. addReverseLocked m n) ms rv) p = (if p \<in> set ms then insert n (reverse_of rv p) else reverse_of rv p)"
  by (induction ms arbitrary: rv) (auto simp: reverse_of_add)

lemma reverse_of_fold_remove:
  "reverse_of (fold (\<lambda>m. removeReverseLocked m n) ms rv) p = (if p \<in> set ms then reverse_of rv p - {n} else reverse_of rv p)"
  by (induction ms arbitrary: rv) (auto simp: reverse_of_remove)

lemma stamp_simps [simp]: "g_Name (stamp now g) = g_Name g" "g_Members (stamp now g) = g_Members g"
  by (simp_all add: stamp_def Let_def)

lemma member_edit_simps [simp]:
  "g_Name (add_member p now g) = g_Name g" "g_Members (add_member p now g) = g_Members g @ [p]"
  "g_Name (drop_member p now g) = g_Name g" "g_Members (drop_member p now g) = remove1 p (g_Members g)"
  by (simp_all add: add_member_def drop_member_def)

lemma list_ex_eq: "list_ex (\<lambda>m. m = p) ms \<longleftrightarrow> p \<in> set ms"
  by (auto simp: list_ex_iff)

lemma memberships_upd:
  "memberships (A(n \<mapsto> g)) p = (if p \<in> set (g_Members g) then insert n (memberships A p) else memberships A p - {n})"
  by (auto simp: memberships_def)

lemma memberships_del: "memberships (A(n := None)) p = memberships A p - {n}"
  by (auto simp: memberships_def)

lemma spec_wf:
  assumes "wf_groups A" and "op_ok id_ok c" and "exec spec_ops c A = (e, A')"
  shows "wf_groups A'"
  using assms
  by (cases c) (auto simp: spec_ops_def spec_defs wf_groups_def check_create_def check_member_def list_all_iff
      dest: notin_set_remove1 split: if_splits option.splits)

lemma ms_exec_ref:
  assumes inv: "ms_inv s" and ok: "op_ok (\<lambda>_. True) c" and run: "exec ms_ops c s = (e, s')"
  shows "ms_inv s' \<and> (e, ms_groups s') = exec spec_ops c (ms_groups s)"
proof -
  have ref: "(e, ms_groups s') = exec spec_ops c (ms_groups s)"
    using run by (cases c, auto simp: ms_ops_def spec_ops_def spec_defs ms_Create_def ms_AddMember_def ms_RemoveMember_def
        ms_Delete_def list_ex_eq Let_def split: option.splits if_splits) (metis option.discI option.exhaust)+
  have rv: "reverse_of (ms_reverse s) p = memberships (ms_groups s) p" for p using inv by (simp add: ms_inv_def)
  have d: "distinct (g_Members g)" if "ms_groups s n = Some g" for n g using inv that by (auto simp: ms_inv_def wf_groups_def)
  have rev: "reverse_of (ms_reverse s') p = memberships (ms_groups s') p" for p
    using run rv [of p] d
    by (cases c) (auto simp: ms_ops_def ms_Create_def ms_AddMember_def ms_RemoveMember_def ms_Delete_def list_ex_eq Let_def
        reverse_of_add reverse_of_remove reverse_of_fold_add reverse_of_fold_remove memberships_upd memberships_del
        memberships_def split: option.splits if_splits)
  have "finite (dom (ms_groups s'))"
    using run inv by (cases c) (auto simp: ms_inv_def ms_ops_def ms_Create_def ms_AddMember_def ms_RemoveMember_def
        ms_Delete_def Let_def split: option.splits if_splits)
  moreover have "wf_groups (ms_groups s')" using spec_wf [OF _ ok, of "ms_groups s"] inv ref by (metis ms_inv_def)
  ultimately show ?thesis using ref rev by (simp add: ms_inv_def)
qed

interpretation ms: group_store ms_ops ms_Get ms_GroupsFor NewMemStore ms_groups ms_inv "\<lambda>_. True"
proof
  show "ms_inv NewMemStore" "ms_groups NewMemStore = Map.empty"
    by (simp_all add: ms_inv_def NewMemStore_def wf_groups_def reverse_of_def memberships_def)
  show "ms_inv s \<Longrightarrow> ms_GroupsFor p s =
      (if ValidatePrincipalID p then Inr (sorted_list_of_set (memberships (ms_groups s) p)) else Inl ErrInvalidPrincipal)" for s p
  proof -
    assume "ms_inv s"
    then have "reverse_of (ms_reverse s) p = memberships (ms_groups s) p" by (simp add: ms_inv_def)
    then show ?thesis by (cases "ms_reverse s p") (auto simp: ms_GroupsFor_def reverse_of_def)
  qed
qed (rule ms_exec_ref, assumption+, simp_all add: ms_Get_def ms_inv_def)

section \<open>The BadgerDB store refines the contract\<close>

text \<open>The key space of an abstract state: one record per group, one entry per member.\<close>

definition encode :: "groups \<Rightarrow> kv" where
  "encode A k =
     (if HasPrefix k keyPrefixMember then
        (case parseMemberKey k of None \<Rightarrow> None
         | Some (p, n) \<Rightarrow> if n \<in> memberships A p then Some VMember else None)
      else if HasPrefix k keyPrefixGroup then map_option VGroup (A (drop (length keyPrefixGroup) k))
      else None)"

definition separable :: "string \<Rightarrow> bool" where
  "separable p \<longleftrightarrow> unit_separator \<notin> set p"

definition decode :: "kv \<Rightarrow> groups" where
  "decode kv n = (if ValidateName n then (case kv (groupKey n) of Some (VGroup g) \<Rightarrow> Some g | _ \<Rightarrow> None) else None)"

definition bg_inv :: "kv \<Rightarrow> bool" where
  "bg_inv kv \<longleftrightarrow> (\<exists>A. kv = encode A \<and> wf_groups A \<and> finite (dom A) \<and> (\<forall>g \<in> ran A. list_all separable (g_Members g)))"

lemma group_name_byte_simps: "\<not> group_name_byte (CHR ''/'')" "\<not> group_name_byte unit_separator"
  by (simp_all add: group_name_byte_def unit_separator_def)

lemma ValidateName_no_slash: "ValidateName n \<Longrightarrow> CHR ''/'' \<notin> set n"
  using group_name_byte_simps(1) by (auto simp: ValidateName_def list_all_iff)

lemma groupKey_not_member:
  assumes "ValidateName n"
  shows "\<not> HasPrefix (groupKey n) keyPrefixMember"
proof
  assume "HasPrefix (groupKey n) keyPrefixMember"
  then obtain r where "n = ''members'' @ CHR ''/'' # r"
    by (auto simp: HasPrefix_iff groupKey_def keyPrefixGroup_def keyPrefixMember_def)
  with ValidateName_no_slash [OF assms] show False by simp
qed

lemma parse_memberKey: "separable p \<Longrightarrow> parseMemberKey (memberKey p n) = Some (p, n)"
  by (simp add: parseMemberKey_def memberKey_def HasPrefix_iff Let_def separable_def IndexByte_append_notin)

lemma parse_SomeD:
  assumes "parseMemberKey k = Some (p, n)"
  shows "k = memberKey p n" and "separable p"
proof -
  let ?rest = "drop (length keyPrefixMember) k"
  have pre: "HasPrefix k keyPrefixMember" and ge: "0 \<le> IndexByte ?rest unit_separator"
    and pn: "p = take (nat (IndexByte ?rest unit_separator)) ?rest" "n = drop (nat (IndexByte ?rest unit_separator) + 1) ?rest"
    using assms by (auto simp: parseMemberKey_def Let_def split: if_splits)
  from IndexByte_split [OF ge] pn have "?rest = p @ unit_separator # n" and "separable p" by (simp_all add: separable_def)
  moreover from pre have "k = keyPrefixMember @ ?rest" by (auto simp: HasPrefix_iff)
  ultimately show "k = memberKey p n" "separable p" by (simp_all add: memberKey_def)
qed

lemma memberKey_prefix [simp]: "HasPrefix (memberKey p n) keyPrefixMember"
  by (simp add: HasPrefix_iff memberKey_def)

lemma encode_groupKey: "ValidateName n \<Longrightarrow> encode A (groupKey n) = map_option VGroup (A n)"
  using groupKey_not_member [of n] by (simp add: encode_def HasPrefix_iff groupKey_def)

lemma encode_memberKey: "separable p \<Longrightarrow> encode A (memberKey p n) = (if n \<in> memberships A p then Some VMember else None)"
  by (simp add: encode_def parse_memberKey)

lemma encode_outside:
  assumes g: "\<forall>n. ValidateName n \<longrightarrow> k \<noteq> groupKey n" and m: "\<forall>p n. separable p \<longrightarrow> k \<noteq> memberKey p n" and wf: "wf_groups A"
  shows "encode A k = None"
proof -
  have "parseMemberKey k = None" using m parse_SomeD [of k] by (cases "parseMemberKey k") auto
  moreover have "A (drop (length keyPrefixGroup) k) = None" if "HasPrefix k keyPrefixGroup"
  proof (rule ccontr)
    assume "A (drop (length keyPrefixGroup) k) \<noteq> None"
    then have "ValidateName (drop (length keyPrefixGroup) k)" using wf by (auto simp: wf_groups_def)
    moreover have "k = groupKey (drop (length keyPrefixGroup) k)" using that by (auto simp: HasPrefix_iff groupKey_def)
    ultimately show False using g by blast
  qed
  ultimately show ?thesis by (simp add: encode_def)
qed

lemma encode_eqI:
  assumes "\<And>n. ValidateName n \<Longrightarrow> f (groupKey n) = map_option VGroup (A n)"
    and "\<And>p n. separable p \<Longrightarrow> f (memberKey p n) = (if n \<in> memberships A p then Some VMember else None)"
    and "\<And>k. (\<forall>n. ValidateName n \<longrightarrow> k \<noteq> groupKey n) \<Longrightarrow> (\<forall>p n. separable p \<longrightarrow> k \<noteq> memberKey p n) \<Longrightarrow> f k = None"
    and wf: "wf_groups A"
  shows "f = encode A"
proof
  fix k
  consider (group) n where "ValidateName n" "k = groupKey n" | (member) p n where "separable p" "k = memberKey p n"
    | (other) "\<forall>n. ValidateName n \<longrightarrow> k \<noteq> groupKey n" "\<forall>p n. separable p \<longrightarrow> k \<noteq> memberKey p n" by blast
  then show "f k = encode A k"
    by cases (simp_all add: assms(1-3) encode_groupKey encode_memberKey encode_outside [OF _ _ wf])
qed

lemma memberKey_eq [simp]: "separable p \<Longrightarrow> separable q \<Longrightarrow> memberKey p n = memberKey q m \<longleftrightarrow> p = q \<and> n = m"
  by (metis parse_memberKey option.inject prod.inject)

lemma key_families_disjoint [simp]:
  "ValidateName n \<Longrightarrow> groupKey n \<noteq> memberKey p m" "ValidateName n \<Longrightarrow> memberKey p m \<noteq> groupKey n"
  using groupKey_not_member [of n] by (metis memberKey_prefix)+

lemma groupKey_eq [simp]: "groupKey n = groupKey m \<longleftrightarrow> n = m"
  by (simp add: groupKey_def)

lemma decode_encode: "wf_groups A \<Longrightarrow> decode (encode A) = A"
  by (rule ext) (auto simp: decode_def encode_groupKey wf_groups_def split: option.splits)

lemma read_group_encode: "ValidateName n \<Longrightarrow> read_group n (encode A) = (case A n of None \<Rightarrow> Inl ErrGroupNotFound | Some g \<Rightarrow> Inr g)"
  by (simp add: read_group_def encode_groupKey split: option.splits)

lemma fold_add_members:
  "fold (\<lambda>m kv. kv(memberKey m n \<mapsto> VMember)) ms kv k = (if \<exists>m \<in> set ms. k = memberKey m n then Some VMember else kv k)"
  by (induction ms arbitrary: kv) auto

lemma fold_drop_members:
  "fold (\<lambda>m kv. kv(memberKey m n := None)) ms kv k = (if \<exists>m \<in> set ms. k = memberKey m n then None else kv k)"
  by (induction ms arbitrary: kv) auto

lemma encode_upd:
  assumes "wf_groups (A(n \<mapsto> g))" and "wf_groups A" and n: "ValidateName n"
    and ms: "\<And>p. separable p \<Longrightarrow> f (memberKey p n) = (if p \<in> set (g_Members g) then Some VMember else None)"
    and gk: "f (groupKey n) = Some (VGroup g)"
    and other: "\<And>k. k \<noteq> groupKey n \<Longrightarrow> (\<forall>p. separable p \<longrightarrow> k \<noteq> memberKey p n) \<Longrightarrow> f k = encode A k"
  shows "f = encode (A(n \<mapsto> g))"
proof (rule encode_eqI)
  show "f (groupKey m) = map_option VGroup ((A(n \<mapsto> g)) m)" if "ValidateName m" for m
    using that gk other [of "groupKey m"] by (cases "m = n") (simp_all add: encode_groupKey)
  show "f (memberKey p m) = (if m \<in> memberships (A(n \<mapsto> g)) p then Some VMember else None)" if "separable p" for p m
    using that ms other [of "memberKey p m"] n by (cases "m = n") (auto simp: encode_memberKey memberships_upd)
  show "f k = None" if "\<forall>n. ValidateName n \<longrightarrow> k \<noteq> groupKey n" "\<forall>p n. separable p \<longrightarrow> k \<noteq> memberKey p n" for k
    using that other [of k] n encode_outside [OF that assms(2)] by auto
qed (rule assms)

lemma encode_del:
  assumes wf: "wf_groups A" and n: "ValidateName n"
    and ms: "\<And>p. separable p \<Longrightarrow> f (memberKey p n) = None" and gk: "f (groupKey n) = None"
    and other: "\<And>k. k \<noteq> groupKey n \<Longrightarrow> (\<forall>p. separable p \<longrightarrow> k \<noteq> memberKey p n) \<Longrightarrow> f k = encode A k"
  shows "f = encode (A(n := None))"
proof (rule encode_eqI)
  show "f (groupKey m) = map_option VGroup ((A(n := None)) m)" if "ValidateName m" for m
    using that gk other [of "groupKey m"] by (cases "m = n") (simp_all add: encode_groupKey)
  show "f (memberKey p m) = (if m \<in> memberships (A(n := None)) p then Some VMember else None)" if "separable p" for p m
    using that ms other [of "memberKey p m"] n by (cases "m = n") (auto simp: encode_memberKey memberships_del)
  show "f k = None" if "\<forall>n. ValidateName n \<longrightarrow> k \<noteq> groupKey n" "\<forall>p n. separable p \<longrightarrow> k \<noteq> memberKey p n" for k
    using that other [of k] n encode_outside [OF that wf] by auto
  show "wf_groups (A(n := None))" using wf by (simp add: wf_groups_def)
qed

abbreviation storable :: "groups \<Rightarrow> bool" where
  "storable A \<equiv> wf_groups A \<and> finite (dom A) \<and> (\<forall>g \<in> ran A. list_all separable (g_Members g))"

lemma storable_lookup: "storable A \<Longrightarrow> A n = Some g \<Longrightarrow> list_all separable (g_Members g) \<and> distinct (g_Members g) \<and> ValidateName n"
  by (auto simp: wf_groups_def ran_def)

lemma storable_spec:
  assumes A: "storable A" and ok: "op_ok separable c" and run: "exec spec_ops c A = (e, A')"
  shows "storable A'"
proof -
  have s: "separable x" if "A n = Some g" "x \<in> set (g_Members g)" for n g x
    using A that by (auto simp: ran_def list_all_iff)
  have s': "separable x" if "A n = Some g" "x \<in> set (remove1 y (g_Members g))" for n g x y
    using s [OF that(1)] that(2) by (meson notin_set_remove1)
  have "finite (dom A')" using A run
    by (cases c) (auto simp: spec_ops_def spec_defs split: option.splits if_splits)
  moreover have "list_all separable (g_Members g)" if "A' n = Some g" for n g
    using run ok that
    by (cases c, auto simp: spec_ops_def spec_defs list_all_iff split: option.splits if_splits) (metis s s')+
  ultimately show ?thesis using spec_wf [OF _ ok run] A by (auto simp: ran_def)
qed

lemma bg_Create_encode:
  assumes A: "storable A" and ok: "op_ok separable (OpCreate now g)" and new: "A (g_Name g) = None" and chk: "check_create g = None"
  shows "fold (\<lambda>m kv. kv(memberKey m (g_Name g) \<mapsto> VMember)) (g_Members g) ((encode A)(groupKey (g_Name g) \<mapsto> VGroup (stamp now g))) =
    encode (A(g_Name g \<mapsto> stamp now g))"
proof -
  have "exec spec_ops (OpCreate now g) A = (None, A(g_Name g \<mapsto> stamp now g))"
    using new chk by (simp add: spec_ops_def spec_Create_def)
  then have wf: "wf_groups (A(g_Name g \<mapsto> stamp now g))" using spec_wf [OF _ ok] A by blast
  have n: "ValidateName (g_Name g)" using chk by (simp add: check_create_def split: if_splits)
  show ?thesis by (rule encode_upd [OF wf _ n])
    (use A ok new n in \<open>auto simp: fold_add_members list_all_iff encode_memberKey memberships_def\<close>)
qed

lemma bg_AddMember_encode:
  assumes A: "storable A" and ok: "separable p" and g: "A n = Some g" "p \<notin> set (g_Members g)" and chk: "check_member n p = None"
  shows "(encode A)(groupKey n \<mapsto> VGroup (add_member p now g), memberKey p n \<mapsto> VMember) = encode (A(n \<mapsto> add_member p now g))"
proof -
  have "exec spec_ops (OpAddMember now n p) A = (None, A(n \<mapsto> add_member p now g))"
    using g chk by (simp add: spec_ops_def spec_AddMember_def)
  then have wf: "wf_groups (A(n \<mapsto> add_member p now g))" using spec_wf [of A separable "OpAddMember now n p"] A ok by auto
  have n: "ValidateName n" using chk by (simp add: check_member_def split: if_splits)
  show ?thesis by (rule encode_upd [OF wf _ n]) (use A ok g n in \<open>auto simp: encode_memberKey memberships_def\<close>)
qed

lemma bg_RemoveMember_encode:
  assumes A: "storable A" and ok: "separable p" and g: "A n = Some g" "p \<in> set (g_Members g)" and chk: "check_member n p = None"
  shows "((encode A)(groupKey n \<mapsto> VGroup (drop_member p now g)))(memberKey p n := None) = encode (A(n \<mapsto> drop_member p now g))"
proof -
  have "exec spec_ops (OpRemoveMember now n p) A = (None, A(n \<mapsto> drop_member p now g))"
    using g chk by (simp add: spec_ops_def spec_RemoveMember_def)
  then have wf: "wf_groups (A(n \<mapsto> drop_member p now g))" using spec_wf [of A separable "OpRemoveMember now n p"] A ok by auto
  have n: "ValidateName n" using chk by (simp add: check_member_def split: if_splits)
  have "distinct (g_Members g)" using storable_lookup [OF A g(1)] by simp
  then show ?thesis by (intro encode_upd [OF wf _ n]) (use A ok g n in \<open>auto simp: encode_memberKey memberships_def\<close>)
qed

lemma bg_Delete_encode:
  assumes A: "storable A" and g: "A n = Some g"
  shows "(fold (\<lambda>m kv. kv(memberKey m n := None)) (g_Members g) (encode A))(groupKey n := None) = encode (A(n := None))"
proof (rule encode_del)
  show n: "ValidateName n" using storable_lookup [OF A g] by simp
qed (use A g storable_lookup [OF A g] in \<open>auto simp: fold_drop_members encode_memberKey memberships_def list_all_iff\<close>)

lemma bg_exec_ref:
  assumes A: "storable A" and ok: "op_ok separable c" and run: "exec bg_ops c (encode A) = (e, kv')"
  shows "\<exists>A'. exec spec_ops c A = (e, A') \<and> kv' = encode A' \<and> storable A'"
proof -
  have "\<exists>A'. exec spec_ops c A = (e, A') \<and> kv' = encode A'"
  proof (cases c)
    case (OpCreate now g)
    then show ?thesis using run ok bg_Create_encode [OF A, of now g]
      by (auto simp: bg_ops_def bg_Create_def spec_ops_def spec_Create_def db_Update_def Let_def encode_groupKey check_create_def
          split: option.splits if_splits)
  next
    case (OpAddMember now n p)
    then show ?thesis using run ok bg_AddMember_encode [OF A, of p n _ now]
      by (auto simp: bg_ops_def bg_AddMember_def spec_ops_def spec_AddMember_def db_Update_def list_ex_eq read_group_encode
          check_member_def split: option.splits if_splits)
  next
    case (OpRemoveMember now n p)
    then show ?thesis using run ok bg_RemoveMember_encode [OF A, of p n _ now]
      by (auto simp: bg_ops_def bg_RemoveMember_def spec_ops_def spec_RemoveMember_def db_Update_def list_ex_eq read_group_encode
          check_member_def split: option.splits if_splits)
  next
    case (OpDelete n)
    then show ?thesis using run bg_Delete_encode [OF A, of n]
      by (auto simp: bg_ops_def bg_Delete_def spec_ops_def spec_Delete_def db_Update_def read_group_encode
          split: option.splits if_splits)
  qed
  then show ?thesis using storable_spec [OF A ok] by blast
qed

lemma finite_dom_encode:
  assumes "storable A"
  shows "finite (dom (encode A))"
proof -
  have "dom (encode A) \<subseteq> groupKey ` dom A \<union> (\<Union>n \<in> dom A. (\<lambda>p. memberKey p n) ` set (g_Members (the (A n))))"
  proof
    fix k assume k: "k \<in> dom (encode A)"
    then have "encode A k \<noteq> None" by blast
    then consider (group) n where "ValidateName n" "k = groupKey n" | (member) p n where "separable p" "k = memberKey p n"
      using encode_outside [of k A] assms by metis
    then show "k \<in> groupKey ` dom A \<union> (\<Union>n \<in> dom A. (\<lambda>p. memberKey p n) ` set (g_Members (the (A n))))"
      using k by cases (force simp: encode_groupKey encode_memberKey memberships_def split: if_splits)+
  qed
  then show ?thesis by (rule finite_subset) (use assms in auto)
qed

lemma scan_prefix:
  assumes "separable p"
  shows "HasPrefix k (keyPrefixMember @ p @ [unit_separator]) \<longleftrightarrow> (\<exists>n. k = memberKey p n)"
  by (auto simp: HasPrefix_iff memberKey_def)

lemma map_filter_Some: "(\<And>k. k \<in> set ks \<Longrightarrow> f k = Some (h k)) \<Longrightarrow> List.map_filter f ks = map h ks"
  by (induction ks) (simp_all add: List.map_filter_simps)

lemma bg_GroupsFor_encode:
  assumes A: "storable A" and p: "separable p" "ValidatePrincipalID p" and ord: "enumerates ord (encode A)"
  shows "bg_GroupsFor ord p (encode A) = Inr (sorted_list_of_set (memberships A p))"
proof -
  let ?ks = "filter (\<lambda>k. HasPrefix k (keyPrefixMember @ p @ [unit_separator])) ord"
  have ks: "k \<in> set ?ks \<longleftrightarrow> (\<exists>n. k = memberKey p n \<and> n \<in> memberships A p)" for k
    using ord p by (auto simp: scan_prefix enumerates_def encode_memberKey split: if_splits)
  have parse: "parseMemberKey k = Some (p, snd (the (parseMemberKey k)))" if "k \<in> set ?ks" for k
    using that ks parse_memberKey [OF p(1)] by auto
  have mf: "List.map_filter parseMemberKey ?ks = map (\<lambda>k. (p, snd (the (parseMemberKey k)))) ?ks"
    by (rule map_filter_Some) (rule parse)
  have inj: "inj_on (\<lambda>k. snd (the (parseMemberKey k))) (set ?ks)"
    using ks parse_memberKey [OF p(1)] by (auto simp: inj_on_def)
  have "set (map (\<lambda>k. snd (the (parseMemberKey k))) ?ks) = memberships A p"
    using ks parse_memberKey [OF p(1)] by (force simp: image_iff)
  moreover have "distinct (map (\<lambda>k. snd (the (parseMemberKey k))) ?ks)"
    using ord inj by (simp add: distinct_map enumerates_def)
  ultimately have "sort (map (\<lambda>k. snd (the (parseMemberKey k))) ?ks) = sorted_list_of_set (memberships A p)"
    by (metis sorted_list_of_set_sort_remdups distinct_remdups_id)
  then show ?thesis using p(2) by (simp add: bg_GroupsFor_def mf o_def Let_def)
qed

definition scan_order :: "kv \<Rightarrow> string list" where
  "scan_order kv = sorted_list_of_set (dom kv)"

interpretation bg: group_store bg_ops bg_Get "\<lambda>p kv. bg_GroupsFor (scan_order kv) p kv" Map.empty decode bg_inv separable
proof
  have "(Map.empty :: kv) = encode Map.empty"
    by (rule encode_eqI) (simp_all add: memberships_def wf_groups_def)
  then show "bg_inv Map.empty" unfolding bg_inv_def by (intro exI [of _ Map.empty]) (simp add: wf_groups_def)
  show "decode Map.empty = Map.empty" by (rule ext) (simp add: decode_def)
  fix kv assume "bg_inv kv"
  then obtain A where A: "kv = encode A" "storable A" by (auto simp: bg_inv_def)
  then have dec: "decode kv = A" by (simp add: decode_encode)
  show "finite (dom (decode kv))" using A dec by simp
  show "bg_Get n kv = (if \<not> ValidateName n then Inl ErrInvalidName
      else case decode kv n of None \<Rightarrow> Inl ErrGroupNotFound | Some g \<Rightarrow> Inr g)" for n
    using A dec by (simp add: bg_Get_def read_group_encode)
  show "bg_inv kv' \<and> (e, decode kv') = exec spec_ops c (decode kv)" if "op_ok separable c" "exec bg_ops c kv = (e, kv')" for c e kv'
    using bg_exec_ref [OF A(2) that(1)] that(2) A(1) dec by (auto simp: bg_inv_def decode_encode)
  show "bg_GroupsFor (scan_order kv) p kv =
      (if ValidatePrincipalID p then Inr (sorted_list_of_set (memberships (decode kv) p)) else Inl ErrInvalidPrincipal)"
    if "separable p" for p
    using bg_GroupsFor_encode [OF A(2) that, of "scan_order kv"] finite_dom_encode [OF A(2)] A(1) dec
    by (simp add: scan_order_def enumerates_def bg_GroupsFor_def)
qed

section \<open>Properties\<close>

text \<open>C16. Any sequence of operations gives the same results on the BadgerDB store as on the abstract map from
  names to groups, and leaves the store in the encoding of the resulting map, in which every
  record is filed under its own valid name with distinct, valid members.\<close>

theorem badger_groups_refine:
  assumes "list_all (op_ok separable) cs" and "run bg_ops cs Map.empty = (es, kv)"
  shows "\<exists>A. run spec_ops cs Map.empty = (es, A) \<and> kv = encode A \<and> decode kv = A \<and> wf_groups A"
proof -
  from bg.run_ref [OF bg.empty_ref(1) assms] have r: "bg_inv kv" "run spec_ops cs Map.empty = (es, decode kv)"
    by (simp_all add: bg.empty_ref(2))
  then show ?thesis by (auto simp: bg_inv_def decode_encode)
qed

text \<open>The two stores are interchangeable: after the same sequence of operations, whose member IDs
  contain no unit separator, they have given the same results, hold the same groups, and answer the group
  lookup of every such principal alike, with the sorted names of exactly the groups that list it.\<close>

theorem group_stores_agree:
  assumes "list_all (op_ok separable) cs" and "run ms_ops cs NewMemStore = (es, s)" and "run bg_ops cs Map.empty = (es', kv)"
    and "separable p" and "ValidatePrincipalID p"
  shows "es = es' \<and> ms_groups s = decode kv \<and>
    ms_GroupsFor p s = Inr (sorted_list_of_set (memberships (decode kv) p)) \<and>
    bg_GroupsFor (scan_order kv) p kv = Inr (sorted_list_of_set (memberships (decode kv) p))"
proof -
  have "op_ok separable c \<Longrightarrow> op_ok (\<lambda>_. True) c" for c by (cases c) (auto simp: list_all_iff)
  with assms(1) have "list_all (op_ok (\<lambda>_. True)) cs" by (auto simp: list_all_iff)
  from ms.run_ref [OF ms.empty_ref(1) this assms(2)] bg.run_ref [OF bg.empty_ref(1) assms(1,3)]
  have "ms_inv s" "bg_inv kv" "(es, ms_groups s) = (es', decode kv)" by (simp_all add: ms.empty_ref(2) bg.empty_ref(2))
  with ms.groupsFor_ref [of s p] bg.groupsFor_ref [of kv p] assms(4,5) show ?thesis by simp
qed

text \<open>Sharing with a group reaches its members and nobody else: for a user or operator who is neither
  admin nor owner, a single share of an action with a group grants that action exactly while the
  store lists the principal as a member.\<close>

theorem group_share_reaches_members:
  assumes "list_all (op_ok separable) cs" and "run bg_ops cs Map.empty = (es, kv)"
    and "separable (p_ID p)" and "ValidatePrincipalID (p_ID p)"
    and "p_Kind p \<in> {KindUser, KindOperator}" and "\<not> IsAdmin (Some p)"
    and "r_Kind r \<noteq> ResourceKindSystem" and "r_OwnerPrincipal r \<notin> {[], LegacyOwnerID, p_ID p}"
    and "sh_Grantee share = ''group:'' @ n" and "sh_Actions share = [a]" and "r_Shares r = [share]" and "ValidateName n"
  shows "Allow (Some (populateGroups (Some (\<lambda>i. bg_GroupsFor (scan_order kv) i kv)) p)) a (Some r) = None \<longleftrightarrow>
    (\<exists>g. bg_Get n kv = Inr g \<and> p_ID p \<in> set (g_Members g))"
proof -
  let ?p = "populateGroups (Some (\<lambda>i. bg_GroupsFor (scan_order kv) i kv)) p"
  have inv: "bg_inv kv" using bg.run_ref [OF bg.empty_ref(1) assms(1,2)] by simp
  obtain gs where gs: "bg_GroupsFor (scan_order kv) (p_ID p) kv = Inr gs"
    using bg.groupsFor_ref [OF inv assms(3)] assms(4) by simp
  have p': "?p = p\<lparr>p_Groups := gs\<rparr>" using assms(5) gs by (auto simp: populateGroups_def)
  have "p_ID p \<noteq> ''group:'' @ n"
  proof
    assume "p_ID p = ''group:'' @ n"
    with assms(4) show False by (simp add: ValidatePrincipalID_def Let_def split: if_splits)
  qed
  then have "matchesGrantee (Some ?p) (sh_Grantee share) \<longleftrightarrow> n \<in> set gs"
    using assms(9) by (simp add: matchesGrantee_def p')
  then have "Allow (Some ?p) a (Some r) = None \<longleftrightarrow> n \<in> set gs"
    using assms(5-8,10,11) by (auto simp: Allow_def denyf_def p' IsAdmin_def containsAction_def)
  also have "\<dots> \<longleftrightarrow> (\<exists>g. bg_Get n kv = Inr g \<and> p_ID p \<in> set (g_Members g))"
    using bg.groupsFor_member [OF inv assms(3) gs] bg.get_ref [OF inv, of n] assms(12) by (auto split: option.splits)
  finally show ?thesis .
qed

section \<open>Concrete runs\<close>

definition demo_group :: group where
  "demo_group = \<lparr>g_Name = ''ml'', g_Members = [], g_CreatedAt = time_zero, g_CreatedBy = ''user:root'', g_UpdatedAt = time_zero\<rparr>"

definition demo_group_ops :: "group_op list" where
  "demo_group_ops = [OpCreate 5 demo_group, OpAddMember 6 ''ml'' ''user:bob'']"

abbreviation demo_group_kv :: kv where
  "demo_group_kv \<equiv> snd (run bg_ops demo_group_ops Map.empty)"

lemma demo_group_ok: "list_all (op_ok separable) demo_group_ops" "separable ''user:bob''" "ValidatePrincipalID ''user:bob''"
  "ValidateName ''ml''"
  by (simp_all add: demo_group_ops_def demo_group_def separable_def unit_separator_def ValidatePrincipalID_def ValidateName_def
      group_name_byte_def)

lemma demo_group_get:
  "bg_Get ''ml'' demo_group_kv = Inr (demo_group\<lparr>g_Members := [''user:bob''], g_CreatedAt := 5, g_UpdatedAt := 6\<rparr>)"
  by (simp add: demo_group_ops_def bg_ops_def bg_Create_def bg_AddMember_def check_create_def check_member_def demo_group_ok
      demo_group_def stamp_def IsZero_def time_zero_def db_Update_def read_group_def bg_Get_def add_member_def Let_def)

theorem badger_groups_refine_witness:
  "\<exists>A. run spec_ops demo_group_ops Map.empty = (fst (run bg_ops demo_group_ops Map.empty), A) \<and> demo_group_kv = encode A"
  using badger_groups_refine [OF demo_group_ok(1) prod.collapse [symmetric]] by blast

theorem group_stores_agree_witness:
  "ms_GroupsFor ''user:bob'' (snd (run ms_ops demo_group_ops NewMemStore)) = bg_GroupsFor (scan_order demo_group_kv) ''user:bob'' demo_group_kv"
  using group_stores_agree [OF demo_group_ok(1) prod.collapse [symmetric] prod.collapse [symmetric] demo_group_ok(2,3)] by simp

theorem group_share_reaches_members_witness:
  "Allow (Some (populateGroups (Some (\<lambda>i. bg_GroupsFor (scan_order demo_group_kv) i demo_group_kv)) (User ''bob'' ''user''))) ActionRead
     (Some \<lparr>r_Kind = ResourceKindJob, r_ID = ''j'', r_OwnerPrincipal = ''user:alice'', r_WorkflowID = [],
       r_Shares = [\<lparr>sh_Grantee = ''group:ml'', sh_Actions = [ActionRead], sh_GrantedBy = [], sh_GrantedAt = 0\<rparr>]\<rparr>) = None"
proof -
  have "p_ID (User ''bob'' ''user'') = ''user:bob''" by (simp add: User_def prefix_str_def)
  with group_share_reaches_members [OF demo_group_ok(1) prod.collapse [symmetric], of "User ''bob'' ''user''"
      "\<lparr>r_Kind = ResourceKindJob, r_ID = ''j'', r_OwnerPrincipal = ''user:alice'', r_WorkflowID = [],
       r_Shares = [\<lparr>sh_Grantee = ''group:ml'', sh_Actions = [ActionRead], sh_GrantedBy = [], sh_GrantedAt = 0\<rparr>]\<rparr>" _ "''ml''"]
  show ?thesis by (simp add: demo_group_ok demo_group_get User_def IsAdmin_def LegacyOwnerID_def)
qed

text \<open>The reverse index confuses principals when an ID holds the separator, which validation admits: the
  lookup of one principal then returns a name that is no group.\<close>

lemma separator_in_id_misparsed:
  "ValidatePrincipalID (''user:a'' @ [unit_separator] @ ''b'') \<and>
   parseMemberKey (memberKey (''user:a'' @ [unit_separator] @ ''b'') ''g'') = Some (''user:a'', ''b'' @ [unit_separator] @ ''g'')"
  by (simp add: ValidatePrincipalID_def parseMemberKey_def memberKey_def keyPrefixMember_def unit_separator_def Let_def)

text \<open>A group created with a duplicate member loses its index entry at the first removal while the
  member is still listed.\<close>

lemma duplicate_member_loses_index:
  defines "s \<equiv> snd (run ms_ops [OpCreate 5 (demo_group\<lparr>g_Members := [''user:bob'', ''user:bob'']\<rparr>), OpRemoveMember 6 ''ml'' ''user:bob''] NewMemStore)"
  shows "map_option g_Members (ms_groups s ''ml'') = Some [''user:bob''] \<and> ms_GroupsFor ''user:bob'' s = Inr []"
  by (simp add: s_def ms_ops_def ms_Create_def ms_RemoveMember_def check_create_def check_member_def demo_group_ok
      demo_group_def stamp_def IsZero_def time_zero_def NewMemStore_def addReverseLocked_def removeReverseLocked_def
      ms_GroupsFor_def drop_member_def Let_def)

end
