(* ===== verification/Secret_Store.thy ===== *)
theory Secret_Store
  imports Job_Persistence "HOL-Library.Multiset"
begin

text \<open>
  Envelope encryption of secrets: the key ring of \<open>internal/secretstore/secretstore.go\<close> and the rewrap
  sweep of \<open>internal/cluster/persistence_rotate.go\<close>.

  AES-256-GCM is outside the repository: a record \<open>aead\<close> of a sealing and an opening function, of which the
  theorems assume that opening inverts sealing under the same 32-byte key and 12-byte nonce
  (\<open>aead_law\<close>). The random source delivers, per envelope, a data key and two nonces, each of
  which may fail. Byte strings are strings. Wiping key material has no counterpart in a functional model.

  The lemmas show that the ring always holds a validated active key, that envelopes stay readable
  while their key version is loaded, that a sweep without interference brings every envelope to the
  active version with its plaintext unchanged, and that a sweep overwrites what is saved meanwhile.
\<close>

section \<open>AES-GCM\<close>

record aead =
  ae_Seal :: "string \<Rightarrow> string \<Rightarrow> string \<Rightarrow> string"
  ae_Open :: "string \<Rightarrow> string \<Rightarrow> string \<Rightarrow> string option"

definition aead_law :: "aead \<Rightarrow> bool" where
  "aead_law ae \<longleftrightarrow> (\<forall>k n pt. length k = 32 \<longrightarrow> length n = 12 \<longrightarrow> ae_Open ae k n (ae_Seal ae k n pt) = Some pt)"

text \<open>\<open>aes.NewCipher\<close> takes keys of 16, 24 or 32 bytes.\<close>

definition cipher_ok :: "string \<Rightarrow> bool" where
  "cipher_ok key \<longleftrightarrow> length key \<in> {16, 24, 32}"

text \<open>A draw is \<open>None\<close> when the random source fails.\<close>

definition gcmSeal :: "aead \<Rightarrow> string option \<Rightarrow> string \<Rightarrow> string \<Rightarrow> (string \<times> string) option" where
  "gcmSeal ae draw key plaintext =
     (if \<not> cipher_ok key then None
      else case draw of None \<Rightarrow> None | Some nonce \<Rightarrow> Some (nonce, ae_Seal ae key nonce plaintext))"

definition gcmOpen :: "aead \<Rightarrow> string \<Rightarrow> string \<Rightarrow> string \<Rightarrow> string option" where
  "gcmOpen ae key nonce ciphertext =
     (if length nonce \<noteq> 12 then None else if \<not> cipher_ok key then None else ae_Open ae key nonce ciphertext)"

section \<open>The key ring\<close>

datatype secret_error = ErrInvalidKEK | ErrKEKVersionUnknown | ErrEnvelopeCorrupt | ErrRandom

record key_ring =
  kg_keks :: "32 word \<rightharpoonup> string"
  kg_active :: "32 word"

definition validateKEK :: "string \<Rightarrow> bool" where
  "validateKEK kek \<longleftrightarrow> length kek = 32 \<and> list_ex (\<lambda>b. b \<noteq> CHR 0x00) kek"

definition NewKeyRing :: "32 word \<Rightarrow> string \<Rightarrow> secret_error + key_ring" where
  "NewKeyRing active kek =
     (if active = 0 then Inl ErrInvalidKEK else if \<not> validateKEK kek then Inl ErrInvalidKEK
      else Inr \<lparr>kg_keks = [active \<mapsto> kek], kg_active = active\<rparr>)"

definition AddKEK :: "32 word \<Rightarrow> string \<Rightarrow> key_ring \<Rightarrow> secret_error option \<times> key_ring" where
  "AddKEK version kek K =
     (if version = 0 then (Some ErrInvalidKEK, K)
      else if \<not> validateKEK kek then (Some ErrInvalidKEK, K)
      else if kg_keks K version \<noteq> None then (Some ErrInvalidKEK, K)
      else (None, K\<lparr>kg_keks := (kg_keks K)(version \<mapsto> kek)\<rparr>))"

definition SetActive :: "32 word \<Rightarrow> key_ring \<Rightarrow> secret_error option \<times> key_ring" where
  "SetActive version K =
     (if kg_keks K version = None then (Some ErrInvalidKEK, K) else (None, K\<lparr>kg_active := version\<rparr>))"

definition RemoveKEK :: "32 word \<Rightarrow> key_ring \<Rightarrow> secret_error option \<times> key_ring" where
  "RemoveKEK version K =
     (if version = kg_active K then (Some ErrInvalidKEK, K)
      else if kg_keks K version = None then (Some ErrInvalidKEK, K)
      else (None, K\<lparr>kg_keks := (kg_keks K)(version := None)\<rparr>))"

definition ActiveVersion :: "key_ring \<Rightarrow> 32 word" where
  "ActiveVersion K = kg_active K"

text \<open>The insertion sort over the versions in their visiting order.\<close>

definition Versions :: "32 word list \<Rightarrow> key_ring \<Rightarrow> 32 word list" where
  "Versions ord K = foldl (\<lambda>sorted_prefix v. takeWhile (\<lambda>x. x \<le> v) sorted_prefix @ v # dropWhile (\<lambda>x. x \<le> v) sorted_prefix) [] ord"

section \<open>Envelopes\<close>

record draws =
  dr_dek :: "string option"
  dr_valueNonce :: "string option"
  dr_dekNonce :: "string option"

definition Encrypt :: "aead \<Rightarrow> draws \<Rightarrow> key_ring \<Rightarrow> string \<Rightarrow> secret_error + encrypted_env_value" where
  "Encrypt ae d K plaintext =
     (case kg_keks K (kg_active K) of None \<Rightarrow> Inl ErrInvalidKEK
      | Some kek \<Rightarrow> (case dr_dek d of None \<Rightarrow> Inl ErrRandom
         | Some dek \<Rightarrow> (case gcmSeal ae (dr_valueNonce d) dek plaintext of None \<Rightarrow> Inl ErrRandom
            | Some (valueNonce, ciphertext) \<Rightarrow> (case gcmSeal ae (dr_dekNonce d) kek dek of None \<Rightarrow> Inl ErrRandom
               | Some (dekNonce, wrappedDEK) \<Rightarrow>
                   Inr \<lparr>ev_Ciphertext = ciphertext, ev_Nonce = valueNonce, ev_WrappedDEK = wrappedDEK,
                        ev_WrappedDEKNonce = dekNonce, ev_KEKVersion = kg_active K\<rparr>))))"

definition Decrypt :: "aead \<Rightarrow> key_ring \<Rightarrow> encrypted_env_value \<Rightarrow> secret_error + string" where
  "Decrypt ae K env =
     (case kg_keks K (ev_KEKVersion env) of None \<Rightarrow> Inl ErrKEKVersionUnknown
      | Some kek \<Rightarrow> (case gcmOpen ae kek (ev_WrappedDEKNonce env) (ev_WrappedDEK env) of None \<Rightarrow> Inl ErrEnvelopeCorrupt
         | Some dek \<Rightarrow> (case gcmOpen ae dek (ev_Nonce env) (ev_Ciphertext env) of None \<Rightarrow> Inl ErrEnvelopeCorrupt
            | Some plaintext \<Rightarrow> Inr plaintext)))"

definition Rewrap :: "aead \<Rightarrow> draws \<Rightarrow> key_ring \<Rightarrow> encrypted_env_value \<Rightarrow> secret_error + encrypted_env_value" where
  "Rewrap ae d K env =
     (if ev_KEKVersion env = ActiveVersion K then Inr env
      else case Decrypt ae K env of Inl e \<Rightarrow> Inl e | Inr plaintext \<Rightarrow> Encrypt ae d K plaintext)"

text \<open>The ring as the persister sees it, with the draws its encryptions make.\<close>

definition keyring_of :: "aead \<Rightarrow> (string \<Rightarrow> draws) \<Rightarrow> key_ring \<Rightarrow> keyring" where
  "keyring_of ae rng K = \<lparr>
     kr_Encrypt = (\<lambda>v. case Encrypt ae (rng v) K v of Inl _ \<Rightarrow> None | Inr env \<Rightarrow> Some env),
     kr_Decrypt = (\<lambda>env. case Decrypt ae K env of Inl _ \<Rightarrow> None | Inr v \<Rightarrow> Some v)\<rparr>"

section \<open>The rewrap sweep\<close>

text \<open>
  The envelopes of one record, in the order the range loop visits them, with the number that were
  rewrapped; \<open>rng\<close> gives the draws per entry.
\<close>

fun rewrap_env :: "aead \<Rightarrow> (string \<Rightarrow> draws) \<Rightarrow> key_ring \<Rightarrow> (string \<times> encrypted_env_value) list
    \<Rightarrow> secret_error + nat \<times> (string \<times> encrypted_env_value) list" where
  "rewrap_env ae rng K [] = Inr (0, [])"
| "rewrap_env ae rng K ((k, blob) # es) =
     (if ev_KEKVersion blob = ActiveVersion K then
        (case rewrap_env ae rng K es of Inl e \<Rightarrow> Inl e | Inr (n, es') \<Rightarrow> Inr (n, (k, blob) # es'))
      else case Rewrap ae (rng k) K blob of
          Inl e \<Rightarrow> Inl e
        | Inr newBlob \<Rightarrow>
            (case rewrap_env ae rng K es of Inl e \<Rightarrow> Inl e | Inr (n, es') \<Rightarrow> Inr (n + 1, (k, newBlob) # es')))"

text \<open>The count and the rewritten record; a count of 0 stands for the nil body of the code.\<close>

definition rewrapJobRecord :: "aead \<Rightarrow> (string \<Rightarrow> draws) \<Rightarrow> key_ring \<Rightarrow> job \<Rightarrow> secret_error + nat \<times> job" where
  "rewrapJobRecord ae rng K j =
     (if j_EncryptedEnv j = [] then Inr (0, j)
      else case rewrap_env ae rng K (j_EncryptedEnv j) of
          Inl e \<Rightarrow> Inl e
        | Inr (n, es) \<Rightarrow> Inr (n, j\<lparr>j_EncryptedEnv := es\<rparr>))"

fun rewrap_children :: "aead \<Rightarrow> (string \<Rightarrow> draws) \<Rightarrow> key_ring \<Rightarrow> workflow_job list \<Rightarrow> secret_error + nat \<times> workflow_job list" where
  "rewrap_children ae rng K [] = Inr (0, [])"
| "rewrap_children ae rng K (c # cs) =
     (case rewrap_env ae rng K (wj_EncryptedEnv c) of
        Inl e \<Rightarrow> Inl e
      | Inr (n, es) \<Rightarrow> (case rewrap_children ae rng K cs of
            Inl e \<Rightarrow> Inl e
          | Inr (m, cs') \<Rightarrow> Inr (n + m, c\<lparr>wj_EncryptedEnv := es\<rparr> # cs')))"

definition rewrapWorkflowRecord :: "aead \<Rightarrow> (string \<Rightarrow> draws) \<Rightarrow> key_ring \<Rightarrow> workflow \<Rightarrow> secret_error + nat \<times> workflow" where
  "rewrapWorkflowRecord ae rng K w =
     (case rewrap_children ae rng K (w_Jobs w) of Inl e \<Rightarrow> Inl e | Inr (n, cs) \<Rightarrow> Inr (n, w\<lparr>w_Jobs := cs\<rparr>))"

record sealed_disk =
  sd_jobs :: "string \<rightharpoonup> job"
  sd_workflows :: "string \<rightharpoonup> workflow"

datatype rewrap_error = RewrapCancelled | RewrapRead | RewrapRecord secret_error | RewrapWrite

datatype plan = PlanJob string job | PlanWorkflow string workflow

text \<open>What happens around the treatment of one record: cancellation of the context, a failing write,
  and the writes of others since the previous record.\<close>

record moment =
  mo_cancelled :: bool
  mo_fails :: bool
  mo_others :: "sealed_disk \<Rightarrow> sealed_disk"

definition write_plan :: "aead \<Rightarrow> (string \<Rightarrow> draws) \<Rightarrow> key_ring \<Rightarrow> plan
    \<Rightarrow> secret_error + nat \<times> (sealed_disk \<Rightarrow> sealed_disk)" where
  "write_plan ae rng K pl = (case pl of
       PlanJob i j \<Rightarrow> (case rewrapJobRecord ae rng K j of
           Inl e \<Rightarrow> Inl e
         | Inr (n, j') \<Rightarrow> Inr (n, \<lambda>d. d\<lparr>sd_jobs := (sd_jobs d)(i \<mapsto> j')\<rparr>))
     | PlanWorkflow i w \<Rightarrow> (case rewrapWorkflowRecord ae rng K w of
           Inl e \<Rightarrow> Inl e
         | Inr (n, w') \<Rightarrow> Inr (n, \<lambda>d. d\<lparr>sd_workflows := (sd_workflows d)(i \<mapsto> w')\<rparr>)))"

text \<open>Phase 2: rewrapped and scanned counts, the error if any, and the disk.\<close>

fun rewrap_plans :: "aead \<Rightarrow> (string \<Rightarrow> draws) \<Rightarrow> key_ring \<Rightarrow> (nat \<Rightarrow> moment) \<Rightarrow> nat \<Rightarrow> plan list \<Rightarrow> nat \<times> nat \<Rightarrow> sealed_disk
    \<Rightarrow> (nat \<times> nat) \<times> rewrap_error option \<times> sealed_disk" where
  "rewrap_plans ae rng K mo t [] counts d = (counts, None, d)"
| "rewrap_plans ae rng K mo t (pl # pls) (rewrapped, scanned) d =
     (let d = mo_others (mo t) d in
      if mo_cancelled (mo t) then ((rewrapped, scanned), Some RewrapCancelled, d)
      else case write_plan ae rng K pl of
          Inl e \<Rightarrow> ((rewrapped, scanned), Some (RewrapRecord e), d)
        | Inr (n, wr) \<Rightarrow>
            if n = 0 then rewrap_plans ae rng K mo (t + 1) pls (rewrapped, scanned) d
            else if mo_fails (mo t) then ((rewrapped + n, scanned + 1), Some RewrapWrite, d)
            else rewrap_plans ae rng K mo (t + 1) pls (rewrapped + n, scanned + 1) (wr d))"

text \<open>Phase 1 reads every record in one view, unless the context is cancelled or a read fails on the way (\<open>early\<close>);
  \<open>jord\<close> and \<open>word\<close> are the key orders.\<close>

definition collect_plans :: "string list \<Rightarrow> string list \<Rightarrow> sealed_disk \<Rightarrow> plan list" where
  "collect_plans jord word d =
     map (\<lambda>i. PlanJob i (the (sd_jobs d i))) jord @ map (\<lambda>i. PlanWorkflow i (the (sd_workflows d i))) word"

definition RewrapAll :: "aead \<Rightarrow> (string \<Rightarrow> draws) \<Rightarrow> key_ring option \<Rightarrow> rewrap_error option \<Rightarrow> (nat \<Rightarrow> moment) \<Rightarrow> string list \<Rightarrow> string list
    \<Rightarrow> sealed_disk \<Rightarrow> (nat \<times> nat) \<times> rewrap_error option \<times> sealed_disk" where
  "RewrapAll ae rng ringo early mo jord word d =
     (case ringo of None \<Rightarrow> ((0, 0), None, d)
      | Some K \<Rightarrow>
          if early \<noteq> None \<and> collect_plans jord word d \<noteq> [] then ((0, 0), early, d)
          else rewrap_plans ae rng K mo 0 (collect_plans jord word d) (0, 0) d)"

section \<open>The ring's invariant\<close>

definition ring_wf :: "key_ring \<Rightarrow> bool" where
  "ring_wf K \<longleftrightarrow> kg_keks K (kg_active K) \<noteq> None \<and> (\<forall>v kek. kg_keks K v = Some kek \<longrightarrow> v \<noteq> 0 \<and> validateKEK kek)"

datatype ring_op = OpAddKEK "32 word" string | OpSetActive "32 word" | OpRemoveKEK "32 word"

fun ring_exec :: "ring_op \<Rightarrow> key_ring \<Rightarrow> key_ring" where
  "ring_exec (OpAddKEK v kek) K = snd (AddKEK v kek K)"
| "ring_exec (OpSetActive v) K = snd (SetActive v K)"
| "ring_exec (OpRemoveKEK v) K = snd (RemoveKEK v K)"

definition ring_run :: "ring_op list \<Rightarrow> key_ring \<Rightarrow> key_ring" where
  "ring_run cs K = fold ring_exec cs K"

lemmas ring_op_defs = AddKEK_def SetActive_def RemoveKEK_def

lemma NewKeyRing_wf: "NewKeyRing v kek = Inr K \<Longrightarrow> ring_wf K"
  by (auto simp: NewKeyRing_def ring_wf_def split: if_splits)

lemma ring_exec_wf: "ring_wf K \<Longrightarrow> ring_wf (ring_exec c K)"
  by (cases c) (auto simp: ring_op_defs ring_wf_def split: if_splits)

lemma ring_run_wf: "ring_wf K \<Longrightarrow> ring_wf (ring_run cs K)"
  unfolding ring_run_def by (induction cs arbitrary: K) (simp_all add: ring_exec_wf)

lemma ring_exec_keeps: "kg_keks K v = Some kek \<Longrightarrow> c \<noteq> OpRemoveKEK v \<Longrightarrow> kg_keks (ring_exec c K) v = Some kek"
  by (cases c) (auto simp: ring_op_defs)

lemma ring_run_keeps: "kg_keks K v = Some kek \<Longrightarrow> OpRemoveKEK v \<notin> set cs \<Longrightarrow> kg_keks (ring_run cs K) v = Some kek"
  unfolding ring_run_def by (induction cs arbitrary: K) (auto simp: ring_exec_keeps)

section \<open>Envelopes open\<close>

definition draws_ok :: "draws \<Rightarrow> bool" where
  "draws_ok d \<longleftrightarrow> (\<forall>k. dr_dek d = Some k \<longrightarrow> length k = 32) \<and> (\<forall>n. dr_valueNonce d = Some n \<longrightarrow> length n = 12) \<and>
     (\<forall>n. dr_dekNonce d = Some n \<longrightarrow> length n = 12)"

lemma Encrypt_version: "Encrypt ae d K pt = Inr env \<Longrightarrow> ev_KEKVersion env = kg_active K"
  by (auto simp: Encrypt_def split: option.splits)

lemma Decrypt_Encrypt:
  assumes law: "aead_law ae" and K: "ring_wf K" and d: "draws_ok d" and env: "Encrypt ae d K pt = Inr env"
    and K': "kg_keks K' (kg_active K) = kg_keks K (kg_active K)"
  shows "Decrypt ae K' env = Inr pt"
proof -
  obtain kek dek vn ct dn wd where e: "kg_keks K (kg_active K) = Some kek" "dr_dek d = Some dek"
      "gcmSeal ae (dr_valueNonce d) dek pt = Some (vn, ct)" "gcmSeal ae (dr_dekNonce d) kek dek = Some (dn, wd)"
      "env = \<lparr>ev_Ciphertext = ct, ev_Nonce = vn, ev_WrappedDEK = wd, ev_WrappedDEKNonce = dn, ev_KEKVersion = kg_active K\<rparr>"
    using env by (auto simp: Encrypt_def split: option.splits)
  have "length kek = 32" using K e(1) by (auto simp: ring_wf_def validateKEK_def)
  moreover have "length dek = 32" using d e(2) by (simp add: draws_ok_def)
  ultimately show ?thesis using law d e K'
    by (auto simp: Decrypt_def gcmSeal_def gcmOpen_def aead_law_def draws_ok_def cipher_ok_def split: option.splits)
qed

lemma Rewrap_spec:
  assumes law: "aead_law ae" and K: "ring_wf K" and d: "draws_ok d" and env: "Rewrap ae d K b = Inr b'"
  shows "ev_KEKVersion b' = kg_active K"
    and "kg_keks K' (kg_active K) = kg_keks K (kg_active K) \<Longrightarrow> Decrypt ae K' b' = Decrypt ae K b"
proof -
  show "ev_KEKVersion b' = kg_active K" using env Encrypt_version
    by (auto simp: Rewrap_def ActiveVersion_def split: if_splits sum.splits)
  show "Decrypt ae K' b' = Decrypt ae K b" if K': "kg_keks K' (kg_active K) = kg_keks K (kg_active K)"
  proof (cases "ev_KEKVersion b = kg_active K")
    case True
    with env K' show ?thesis by (simp add: Rewrap_def ActiveVersion_def Decrypt_def)
  next
    case False
    then obtain pt where "Decrypt ae K b = Inr pt" "Encrypt ae d K pt = Inr b'"
      using env by (auto simp: Rewrap_def ActiveVersion_def split: sum.splits)
    with Decrypt_Encrypt [OF law K d _ K'] show ?thesis by simp
  qed
qed

section \<open>The sweep\<close>

text \<open>Every envelope is under the active key and opens as before, also in a ring that has lost all
  other keys.\<close>

definition resealed :: "aead \<Rightarrow> key_ring \<Rightarrow> (string \<times> encrypted_env_value) list \<Rightarrow> (string \<times> encrypted_env_value) list \<Rightarrow> bool" where
  "resealed ae K es es' \<longleftrightarrow> list_all2 (\<lambda>(k, b) (k', b'). k' = k \<and> ev_KEKVersion b' = kg_active K \<and>
     (\<forall>K'. kg_keks K' (kg_active K) = kg_keks K (kg_active K) \<longrightarrow> Decrypt ae K' b' = Decrypt ae K b)) es es'"

lemma rewrap_env_spec:
  assumes law: "aead_law ae" and K: "ring_wf K" and rng: "\<And>k. draws_ok (rng k)"
  shows "rewrap_env ae rng K es = Inr (n, es') \<Longrightarrow> resealed ae K es es' \<and> (n = 0 \<longrightarrow> es' = es)"
proof (induction es arbitrary: n es')
  case (Cons e es)
  obtain k b where e: "e = (k, b)" by fastforce
  show ?case
  proof (cases "ev_KEKVersion b = kg_active K")
    case True
    then obtain m es1 where r: "rewrap_env ae rng K es = Inr (m, es1)" "n = m" "es' = (k, b) # es1"
      using Cons.prems e by (auto simp: ActiveVersion_def split: sum.splits)
    with Cons.IH [OF r(1)] True e show ?thesis by (auto simp: resealed_def Decrypt_def)
  next
    case False
    then obtain b' m es1 where r: "Rewrap ae (rng k) K b = Inr b'" "rewrap_env ae rng K es = Inr (m, es1)" "n = m + 1"
      "es' = (k, b') # es1"
      using Cons.prems e by (auto simp: ActiveVersion_def split: sum.splits)
    with Cons.IH [OF r(2)] Rewrap_spec [OF law K rng r(1)] e show ?thesis by (auto simp: resealed_def)
  qed
qed (simp add: resealed_def)

definition job_resealed :: "aead \<Rightarrow> key_ring \<Rightarrow> job \<Rightarrow> job \<Rightarrow> bool" where
  "job_resealed ae K j j' \<longleftrightarrow> (\<exists>es. j' = j\<lparr>j_EncryptedEnv := es\<rparr> \<and> resealed ae K (j_EncryptedEnv j) es)"

definition workflow_resealed :: "aead \<Rightarrow> key_ring \<Rightarrow> workflow \<Rightarrow> workflow \<Rightarrow> bool" where
  "workflow_resealed ae K w w' \<longleftrightarrow> (\<exists>cs. w' = w\<lparr>w_Jobs := cs\<rparr> \<and>
     list_all2 (\<lambda>c c'. \<exists>es. c' = c\<lparr>wj_EncryptedEnv := es\<rparr> \<and> resealed ae K (wj_EncryptedEnv c) es) (w_Jobs w) cs)"

lemma rewrap_children_spec:
  assumes law: "aead_law ae" and K: "ring_wf K" and rng: "\<And>k. draws_ok (rng k)"
  shows "rewrap_children ae rng K cs = Inr (n, cs') \<Longrightarrow>
    list_all2 (\<lambda>c c'. \<exists>es. c' = c\<lparr>wj_EncryptedEnv := es\<rparr> \<and> resealed ae K (wj_EncryptedEnv c) es) cs cs' \<and> (n = 0 \<longrightarrow> cs' = cs)"
proof (induction cs arbitrary: n cs')
  case (Cons c cs)
  obtain m es k cs1 where r: "rewrap_env ae rng K (wj_EncryptedEnv c) = Inr (m, es)" "rewrap_children ae rng K cs = Inr (k, cs1)"
    "n = m + k" "cs' = c\<lparr>wj_EncryptedEnv := es\<rparr> # cs1"
    using Cons.prems by (auto split: sum.splits)
  from rewrap_env_spec [OF law K rng r(1)] Cons.IH [OF r(2)] r(3,4) show ?case by auto
qed simp

lemma rewrapJobRecord_spec:
  assumes "aead_law ae" and "ring_wf K" and "\<And>k. draws_ok (rng k)" and "rewrapJobRecord ae rng K j = Inr (n, j')"
  shows "job_resealed ae K j j' \<and> (n = 0 \<longrightarrow> j' = j)"
proof (cases "j_EncryptedEnv j = []")
  case True
  with assms(4) have "j' = j" by (simp add: rewrapJobRecord_def)
  moreover have "j = j\<lparr>j_EncryptedEnv := []\<rparr>" using True by (cases j) simp
  then have "job_resealed ae K j j" unfolding job_resealed_def resealed_def True by (intro exI [of _ "[]"]) simp
  ultimately show ?thesis by blast
next
  case False
  then obtain es where r: "rewrap_env ae rng K (j_EncryptedEnv j) = Inr (n, es)" and j': "j' = j\<lparr>j_EncryptedEnv := es\<rparr>"
    using assms(4) by (auto simp: rewrapJobRecord_def split: sum.splits)
  from rewrap_env_spec [where rng = rng, OF assms(1-3) r] j' show ?thesis by (auto simp: job_resealed_def)
qed

lemma rewrapWorkflowRecord_spec:
  assumes "aead_law ae" and "ring_wf K" and "\<And>k. draws_ok (rng k)" and "rewrapWorkflowRecord ae rng K w = Inr (n, w')"
  shows "workflow_resealed ae K w w' \<and> (n = 0 \<longrightarrow> w' = w)"
  using assms(4) rewrap_children_spec [where rng = rng and cs = "w_Jobs w", OF assms(1-3)]
  by (auto simp: rewrapWorkflowRecord_def workflow_resealed_def split: sum.splits)

fun plan_key :: "plan \<Rightarrow> string + string" where
  "plan_key (PlanJob i j) = Inl i"
| "plan_key (PlanWorkflow i w) = Inr i"

text \<open>A record of the plan is on disk as planned, or resealed.\<close>

fun on_disk :: "sealed_disk \<Rightarrow> plan \<Rightarrow> bool" where
  "on_disk d (PlanJob i j) \<longleftrightarrow> sd_jobs d i = Some j"
| "on_disk d (PlanWorkflow i w) \<longleftrightarrow> sd_workflows d i = Some w"

fun done_on :: "aead \<Rightarrow> key_ring \<Rightarrow> sealed_disk \<Rightarrow> plan \<Rightarrow> bool" where
  "done_on ae K d (PlanJob i j) \<longleftrightarrow> (\<exists>j'. sd_jobs d i = Some j' \<and> job_resealed ae K j j')"
| "done_on ae K d (PlanWorkflow i w) \<longleftrightarrow> (\<exists>w'. sd_workflows d i = Some w' \<and> workflow_resealed ae K w w')"

lemma write_plan_spec:
  assumes "aead_law ae" and "ring_wf K" and "\<And>k. draws_ok (rng k)" and w: "write_plan ae rng K pl = Inr (n, wr)"
  shows "done_on ae K (wr d) pl" and "n = 0 \<Longrightarrow> on_disk d pl \<Longrightarrow> done_on ae K d pl"
    and "plan_key pl' \<noteq> plan_key pl \<Longrightarrow> on_disk (wr d) pl' = on_disk d pl' \<and> done_on ae K (wr d) pl' = done_on ae K d pl'"
  using w rewrapJobRecord_spec [where rng = rng, OF assms(1-3)] rewrapWorkflowRecord_spec [where rng = rng, OF assms(1-3)]
  by (cases pl; cases pl'; fastforce simp: write_plan_def split: sum.splits)+

lemma rewrap_plans_spec:
  assumes law: "aead_law ae" "ring_wf K" "\<And>k. draws_ok (rng k)" and quiet: "\<And>t. mo_others (mo t) = id"
  shows "rewrap_plans ae rng K mo t pls counts d = (counts', None, d') \<Longrightarrow> distinct (map plan_key pls) \<Longrightarrow>
    (\<forall>pl \<in> set pls. on_disk d pl) \<Longrightarrow>
    (\<forall>pl \<in> set pls. done_on ae K d' pl) \<and> (\<forall>pl. plan_key pl \<notin> plan_key ` set pls \<longrightarrow> done_on ae K d pl \<longrightarrow> done_on ae K d' pl)"
proof (induction pls arbitrary: t counts d)
  case (Cons pl pls)
  obtain a b where c: "counts = (a, b)" by fastforce
  obtain n wr where w: "write_plan ae rng K pl = Inr (n, wr)" and nc: "\<not> mo_cancelled (mo t)"
    using Cons.prems(1) quiet c by (auto simp: Let_def split: if_splits sum.splits)
  note ws = write_plan_spec [OF law w]
  define d1 where "d1 = (if n = 0 then d else wr d)"
  obtain counts1 where run: "rewrap_plans ae rng K mo (t + 1) pls counts1 d1 = (counts', None, d')"
    using Cons.prems(1) quiet c w nc by (auto simp: Let_def d1_def split: if_splits)
  have d1: "done_on ae K d1 pl" using ws(1,2) Cons.prems(3) by (simp add: d1_def)
  have other: "on_disk d1 pl' = on_disk d pl' \<and> done_on ae K d1 pl' = done_on ae K d pl'" if "plan_key pl' \<noteq> plan_key pl" for pl'
    using ws(3) [OF that] by (simp add: d1_def)
  have ne: "plan_key pl' \<noteq> plan_key pl" if "pl' \<in> set pls" for pl' using Cons.prems(2) that by (auto simp: image_iff)
  from Cons.IH [OF run] Cons.prems(2,3) other ne
  have ih: "(\<forall>pl \<in> set pls. done_on ae K d' pl) \<and> (\<forall>pl. plan_key pl \<notin> plan_key ` set pls \<longrightarrow> done_on ae K d1 pl \<longrightarrow> done_on ae K d' pl)"
    by auto
  moreover have "done_on ae K d' pl" using ih d1 Cons.prems(2) by auto
  ultimately show ?case using other by auto
qed simp

section \<open>The sweep succeeds\<close>

definition full_draws :: "draws \<Rightarrow> bool" where
  "full_draws d \<longleftrightarrow> draws_ok d \<and> dr_dek d \<noteq> None \<and> dr_valueNonce d \<noteq> None \<and> dr_dekNonce d \<noteq> None"

lemma Encrypt_succeeds:
  assumes "ring_wf K" and "full_draws d"
  shows "\<exists>env. Encrypt ae d K pt = Inr env"
proof -
  obtain kek where "kg_keks K (kg_active K) = Some kek" "length kek = 32"
    using assms(1) by (auto simp: ring_wf_def validateKEK_def)
  then show ?thesis using assms(2)
    by (auto simp: Encrypt_def gcmSeal_def cipher_ok_def full_draws_def draws_ok_def)
qed

definition readable :: "aead \<Rightarrow> key_ring \<Rightarrow> (string \<times> encrypted_env_value) list \<Rightarrow> bool" where
  "readable ae K es \<longleftrightarrow> (\<forall>(k, b) \<in> set es. \<exists>pt. Decrypt ae K b = Inr pt)"

fun plan_readable :: "aead \<Rightarrow> key_ring \<Rightarrow> plan \<Rightarrow> bool" where
  "plan_readable ae K (PlanJob i j) \<longleftrightarrow> readable ae K (j_EncryptedEnv j)"
| "plan_readable ae K (PlanWorkflow i w) \<longleftrightarrow> (\<forall>c \<in> set (w_Jobs w). readable ae K (wj_EncryptedEnv c))"

lemma rewrap_env_succeeds:
  assumes "ring_wf K" and "\<And>k. full_draws (rng k)" and "readable ae K es"
  shows "\<exists>r. rewrap_env ae rng K es = Inr r"
  using assms(3)
proof (induction es)
  case (Cons e es)
  obtain k b pt n es1 env where "e = (k, b)" "Decrypt ae K b = Inr pt" "rewrap_env ae rng K es = Inr (n, es1)"
      "Encrypt ae (rng k) K pt = Inr env"
    using Cons Encrypt_succeeds [OF assms(1,2)] by (fastforce simp: readable_def)
  then show ?case by (simp add: Rewrap_def)
qed simp

lemma write_plan_succeeds:
  assumes "ring_wf K" and "\<And>k. full_draws (rng k)" and "plan_readable ae K pl"
  shows "\<exists>n wr. write_plan ae rng K pl = Inr (n, wr)"
proof (cases pl)
  case (PlanJob i j)
  with assms(3) rewrap_env_succeeds [where rng = rng, OF assms(1,2)] obtain n es where
    "rewrap_env ae rng K (j_EncryptedEnv j) = Inr (n, es)" by fastforce
  with PlanJob show ?thesis by (simp add: write_plan_def rewrapJobRecord_def)
next
  case (PlanWorkflow i w)
  have "\<exists>n cs'. rewrap_children ae rng K cs = Inr (n, cs')" if "\<forall>c \<in> set cs. readable ae K (wj_EncryptedEnv c)" for cs
    using that
  proof (induction cs)
    case (Cons c cs)
    with rewrap_env_succeeds [where rng = rng, OF assms(1,2), of ae "wj_EncryptedEnv c"] show ?case by fastforce
  qed simp
  with PlanWorkflow assms(3) show ?thesis by (fastforce simp: write_plan_def rewrapWorkflowRecord_def)
qed

lemma rewrap_plans_succeeds:
  assumes "ring_wf K" and "\<And>k. full_draws (rng k)" and "\<And>t. \<not> mo_cancelled (mo t) \<and> \<not> mo_fails (mo t)"
  shows "\<forall>pl \<in> set pls. plan_readable ae K pl \<Longrightarrow> \<exists>cs d'. rewrap_plans ae rng K mo t pls counts d = (cs, None, d')"
proof (induction pls arbitrary: t counts d)
  case (Cons pl pls)
  obtain a b where "counts = (a, b)" by fastforce
  with Cons assms(3) write_plan_succeeds [where rng = rng, OF assms(1,2), of ae pl] show ?case
    by (auto simp: Let_def)
qed simp

section \<open>Diagnostics\<close>

lemma insert_version:
  "sorted vs \<Longrightarrow> sorted (takeWhile (\<lambda>x. x \<le> v) vs @ v # dropWhile (\<lambda>x. x \<le> v) vs)" for v :: "32 word"
proof (induction vs)
  case (Cons x vs)
  then show ?case by (auto dest: set_takeWhileD) (metis dropWhile_eq_self_iff dual_order.trans linear list.sel(1) set_ConsD set_dropWhileD)
qed simp

lemma Versions_spec:
  assumes "enumerates ord (kg_keks K)"
  shows "sorted (Versions ord K) \<and> distinct (Versions ord K) \<and> set (Versions ord K) = dom (kg_keks K)"
proof -
  let ?ins = "\<lambda>acc v. takeWhile (\<lambda>x. x \<le> v) acc @ v # dropWhile (\<lambda>x. x \<le> v) acc"
  have "sorted acc \<Longrightarrow> sorted (foldl ?ins acc ord) \<and> mset (foldl ?ins acc ord) = mset acc + mset ord" for acc :: "32 word list"
  proof (induction ord arbitrary: acc)
    case (Cons v ord)
    have "mset (?ins acc v) = add_mset v (mset acc)"
      by (metis add_mset_add_single mset.simps(2) mset_append takeWhile_dropWhile_id union_mset_add_mset_right)
    with Cons.IH [OF insert_version [OF Cons.prems]] show ?case by simp
  qed simp
  from this [of "[]"] have "sorted (Versions ord K)" and m: "mset (Versions ord K) = mset ord" by (simp_all add: Versions_def)
  moreover from assms mset_eq_imp_distinct_iff [OF m] mset_eq_setD [OF m]
  have "distinct (Versions ord K) \<and> set (Versions ord K) = dom (kg_keks K)" by (simp add: enumerates_def)
  ultimately show ?thesis by blast
qed

section \<open>A concrete cipher and ring\<close>

text \<open>A cipher that prepends key and nonce and checks them on opening.\<close>

definition demo_aead :: aead where
  "demo_aead = \<lparr>ae_Seal = (\<lambda>k n pt. k @ n @ pt),
     ae_Open = (\<lambda>k n ct. if take (length k + length n) ct = k @ n then Some (drop (length k + length n) ct) else None)\<rparr>"

lemma demo_aead_law: "aead_law demo_aead"
  by (simp add: aead_law_def demo_aead_def)

definition demo_draws :: draws where
  "demo_draws = \<lparr>dr_dek = Some (replicate 32 CHR ''d''), dr_valueNonce = Some (replicate 12 CHR ''v''),
     dr_dekNonce = Some (replicate 12 CHR ''w'')\<rparr>"

lemma demo_full_draws: "full_draws demo_draws"
  by (simp add: full_draws_def draws_ok_def demo_draws_def)

lemma demo_draws_ok: "draws_ok demo_draws"
  using demo_full_draws by (simp add: full_draws_def)

definition demo_kek :: "char \<Rightarrow> string" where
  "demo_kek c = replicate 32 c"

definition demo_key_ring :: key_ring where
  "demo_key_ring = \<lparr>kg_keks = [1 \<mapsto> demo_kek CHR ''a''], kg_active = 1\<rparr>"

definition demo_rotated_ring :: key_ring where
  "demo_rotated_ring = ring_run [OpAddKEK 2 (demo_kek CHR ''b''), OpSetActive 2] demo_key_ring"

lemma validate_demo_kek: "validateKEK (demo_kek CHR ''a'')" "validateKEK (demo_kek CHR ''b'')"
  by (simp_all add: validateKEK_def demo_kek_def list_ex_iff)

lemma demo_key_ring_wf: "ring_wf demo_key_ring"
  by (simp add: ring_wf_def demo_key_ring_def validate_demo_kek)

lemma demo_rotated_ring_wf: "ring_wf demo_rotated_ring"
  unfolding demo_rotated_ring_def by (rule ring_run_wf [OF demo_key_ring_wf])

lemma demo_rotated_ring_simps: "demo_rotated_ring = \<lparr>kg_keks = [1 \<mapsto> demo_kek CHR ''a'', 2 \<mapsto> demo_kek CHR ''b''], kg_active = 2\<rparr>"
  by (simp add: demo_rotated_ring_def ring_run_def ring_op_defs demo_key_ring_def validate_demo_kek)

definition demo_envelope :: "string \<Rightarrow> encrypted_env_value" where
  "demo_envelope pt = \<lparr>ev_Ciphertext = replicate 32 CHR ''d'' @ replicate 12 CHR ''v'' @ pt, ev_Nonce = replicate 12 CHR ''v'',
     ev_WrappedDEK = demo_kek CHR ''a'' @ replicate 12 CHR ''w'' @ replicate 32 CHR ''d'',
     ev_WrappedDEKNonce = replicate 12 CHR ''w'', ev_KEKVersion = 1\<rparr>"

lemma demo_Encrypt: "Encrypt demo_aead demo_draws demo_key_ring pt = Inr (demo_envelope pt)"
  by (simp add: Encrypt_def gcmSeal_def demo_aead_def demo_draws_def demo_key_ring_def demo_envelope_def cipher_ok_def demo_kek_def)

lemma demo_Decrypt: "Decrypt demo_aead demo_rotated_ring (demo_envelope pt) = Inr pt"
  by (rule Decrypt_Encrypt [OF demo_aead_law demo_key_ring_wf demo_draws_ok demo_Encrypt])
    (simp add: demo_rotated_ring_simps, simp add: demo_key_ring_def)

definition quiet_moment :: moment where
  "quiet_moment = \<lparr>mo_cancelled = False, mo_fails = False, mo_others = id\<rparr>"

definition demo_sealed_job :: job where
  "demo_sealed_job = demo_secret_job\<lparr>j_EncryptedEnv := [(''TOKEN'', demo_envelope ''hunter2'')]\<rparr>"

definition demo_disk :: sealed_disk where
  "demo_disk = \<lparr>sd_jobs = [''j1'' \<mapsto> demo_sealed_job], sd_workflows = Map.empty\<rparr>"

section \<open>Properties\<close>

text \<open>C17. Key rotation does not lose secrets: a job sealed for disk under a ring loads with its whole environment
  under every ring obtained from it by adding, activating and removing keys, as long as the key
  version that was active at sealing time is not removed.\<close>

theorem sealed_jobs_survive_rotation:
  assumes "aead_law ae" and "ring_wf K" and "\<And>v. draws_ok (rng v)" and "OpRemoveKEK (kg_active K) \<notin> set cs"
    and "jobOnDiskCopy j (Some (keyring_of ae rng K)) = Inr d" and "j_EncryptedEnv j = []"
  shows "\<exists>j'. jobInMemoryForm d (Some (keyring_of ae rng' (ring_run cs K))) = Inr j' \<and> map_of (j_Env j') = map_of (j_Env j) \<and>
    j_EncryptedEnv j' = [] \<and> core j' = core j"
proof -
  obtain kek where kek: "kg_keks K (kg_active K) = Some kek" using assms(2) by (auto simp: ring_wf_def)
  have "kr_Decrypt (keyring_of ae rng' (ring_run cs K)) b = Some v" if "kr_Encrypt (keyring_of ae rng K) v = Some b" for v b
  proof -
    have "Encrypt ae (rng v) K v = Inr b" using that by (auto simp: keyring_of_def split: sum.splits)
    from Decrypt_Encrypt [OF assms(1-3) this, of "ring_run cs K"] ring_run_keeps [OF kek assms(4)] kek
    show ?thesis by (simp add: keyring_of_def)
  qed
  from unseal_sealed [OF this assms(5,6)] show ?thesis .
qed

theorem sealed_jobs_survive_rotation_witness:
  "\<exists>d j'. jobOnDiskCopy demo_secret_job (Some (keyring_of demo_aead (\<lambda>_. demo_draws) demo_key_ring)) = Inr d \<and>
     jobInMemoryForm d (Some (keyring_of demo_aead (\<lambda>_. demo_draws) demo_rotated_ring)) = Inr j' \<and>
     map_of (j_Env j') = map_of (j_Env demo_secret_job)"
proof -
  let ?ring = "keyring_of demo_aead (\<lambda>_. demo_draws) demo_key_ring"
  have "kr_Encrypt ?ring v = Some (demo_envelope v)" for v by (simp add: keyring_of_def demo_Encrypt)
  then obtain d where d: "jobOnDiskCopy demo_secret_job (Some ?ring) = Inr d"
    by (auto simp: jobOnDiskCopy_def encryptSecretsInPlace_def demo_secret_job_def zero_job_def)
  have "OpRemoveKEK (kg_active demo_key_ring) \<notin> set [OpAddKEK 2 (demo_kek CHR ''b''), OpSetActive 2]" by simp
  from sealed_jobs_survive_rotation [where rng = "\<lambda>_. demo_draws", OF demo_aead_law demo_key_ring_wf demo_draws_ok this d demo_fields(1)] d
  show ?thesis unfolding demo_rotated_ring_def by blast
qed

text \<open>C18. A key ring always has a usable active key: whatever sequence of additions, activations and
  removals follows its construction, every version is non-zero with 32 bytes that are not all zero,
  and encryption under it succeeds whenever the random source delivers, giving an envelope that opens
  to the plaintext.\<close>

theorem key_ring_always_encrypts:
  assumes "aead_law ae" and "NewKeyRing v kek = Inr K" and "full_draws d"
  shows "ring_wf (ring_run cs K) \<and>
    (\<exists>env. Encrypt ae d (ring_run cs K) pt = Inr env \<and> Decrypt ae (ring_run cs K) env = Inr pt)"
proof -
  have K': "ring_wf (ring_run cs K)" by (rule ring_run_wf [OF NewKeyRing_wf [OF assms(2)]])
  moreover obtain env where "Encrypt ae d (ring_run cs K) pt = Inr env" using Encrypt_succeeds [OF K' assms(3)] by blast
  moreover from Decrypt_Encrypt [OF assms(1) K' _ this refl] assms(3) have "Decrypt ae (ring_run cs K) env = Inr pt"
    by (simp add: full_draws_def)
  ultimately show ?thesis by blast
qed

theorem key_ring_always_encrypts_witness:
  "ring_wf demo_rotated_ring \<and>
   (\<exists>env. Encrypt demo_aead demo_draws demo_rotated_ring ''x'' = Inr env \<and> Decrypt demo_aead demo_rotated_ring env = Inr ''x'')"
proof -
  have "NewKeyRing 1 (demo_kek CHR ''a'') = Inr demo_key_ring" by (simp add: NewKeyRing_def demo_key_ring_def validate_demo_kek)
  from key_ring_always_encrypts [OF demo_aead_law this demo_full_draws] show ?thesis unfolding demo_rotated_ring_def .
qed

lemma collect_plans_mem:
  assumes "enumerates jord (sd_jobs d)" and "enumerates word (sd_workflows d)"
  shows "PlanJob i j \<in> set (collect_plans jord word d) \<longleftrightarrow> sd_jobs d i = Some j"
    and "PlanWorkflow i w \<in> set (collect_plans jord word d) \<longleftrightarrow> sd_workflows d i = Some w"
    and "distinct (map plan_key (collect_plans jord word d))"
    and "pl \<in> set (collect_plans jord word d) \<Longrightarrow> on_disk d pl"
  using assms by (force simp: collect_plans_def enumerates_def distinct_map o_def inj_on_def)+

text \<open>A rewrap sweep that runs undisturbed, with every envelope readable, reports no error and leaves
  every job and workflow record on disk with all its envelopes under the active key version and
  nothing else changed; each envelope opens to the same plaintext as before, even in a ring from
  which every other key was removed.\<close>

theorem rewrap_sweep_complete:
  assumes "aead_law ae" and "ring_wf K" and rng: "\<And>k. full_draws (rng k)"
    and mo: "\<And>t. mo t = \<lparr>mo_cancelled = False, mo_fails = False, mo_others = id\<rparr>"
    and en: "enumerates jord (sd_jobs d)" "enumerates word (sd_workflows d)"
    and readable: "\<forall>j \<in> ran (sd_jobs d). readable ae K (j_EncryptedEnv j)"
      "\<forall>w \<in> ran (sd_workflows d). \<forall>c \<in> set (w_Jobs w). readable ae K (wj_EncryptedEnv c)"
  shows "\<exists>counts d'. RewrapAll ae rng (Some K) None mo jord word d = (counts, None, d') \<and>
    (\<forall>i j. sd_jobs d i = Some j \<longrightarrow> (\<exists>j'. sd_jobs d' i = Some j' \<and> job_resealed ae K j j')) \<and>
    (\<forall>i w. sd_workflows d i = Some w \<longrightarrow> (\<exists>w'. sd_workflows d' i = Some w' \<and> workflow_resealed ae K w w'))"
proof -
  note plans = collect_plans_mem [OF en]
  have "plan_readable ae K pl" if "pl \<in> set (collect_plans jord word d)" for pl
    by (cases pl) (use that plans(1,2) readable in \<open>auto intro: ranI\<close>)
  then obtain counts d' where run: "rewrap_plans ae rng K mo 0 (collect_plans jord word d) (0, 0) d = (counts, None, d')"
    using rewrap_plans_succeeds [where rng = rng and mo = mo, OF assms(2) rng] mo by fastforce
  have ok: "\<And>k. draws_ok (rng k)" "\<And>t. mo_others (mo t) = id" using rng mo by (simp_all add: full_draws_def)
  from rewrap_plans_spec [where rng = rng and mo = mo, OF assms(1,2) ok run plans(3)] plans(4)
  have swept: "done_on ae K d' pl" if "pl \<in> set (collect_plans jord word d)" for pl using that by blast
  have "RewrapAll ae rng (Some K) None mo jord word d = (counts, None, d')" by (simp add: RewrapAll_def run)
  then show ?thesis using plans(1,2) swept done_on.simps by blast
qed

theorem rewrap_sweep_complete_witness:
  "\<exists>counts d' j'. RewrapAll demo_aead (\<lambda>_. demo_draws) (Some demo_rotated_ring) None (\<lambda>_. quiet_moment) [''j1''] [] demo_disk =
     (counts, None, d') \<and> sd_jobs d' ''j1'' = Some j' \<and> job_resealed demo_aead demo_rotated_ring demo_sealed_job j'"
proof -
  have en: "enumerates [''j1''] (sd_jobs demo_disk)" "enumerates [] (sd_workflows demo_disk)"
    by (simp_all add: enumerates_def demo_disk_def)
  have r: "\<forall>j \<in> ran (sd_jobs demo_disk). readable demo_aead demo_rotated_ring (j_EncryptedEnv j)"
    using demo_Decrypt by (simp add: readable_def demo_disk_def demo_sealed_job_def)
  have w: "\<forall>w \<in> ran (sd_workflows demo_disk). \<forall>c \<in> set (w_Jobs w). readable demo_aead demo_rotated_ring (wj_EncryptedEnv c)"
    by (simp add: demo_disk_def)
  have j1: "sd_jobs demo_disk ''j1'' = Some demo_sealed_job" by (simp add: demo_disk_def)
  from rewrap_sweep_complete [where rng = "\<lambda>_. demo_draws" and mo = "\<lambda>_. quiet_moment",
      OF demo_aead_law demo_rotated_ring_wf demo_full_draws quiet_moment_def en r w] j1
  show ?thesis by blast
qed

text \<open>The sweep reads all records before it writes any, so a job saved between the two is lost: the
  record found after the sweep is the old one with new envelopes, whatever was saved meanwhile.\<close>

lemma rewrap_overwrites_concurrent_save:
  assumes "sd_jobs d = [i \<mapsto> old]" and "sd_workflows d = Map.empty" and "rewrapJobRecord ae rng K old = Inr (n, j')" and "0 < n"
    and "mo = (\<lambda>_. \<lparr>mo_cancelled = False, mo_fails = False, mo_others = (\<lambda>d. d\<lparr>sd_jobs := (sd_jobs d)(i \<mapsto> new)\<rparr>)\<rparr>)"
  shows "\<exists>d'. RewrapAll ae rng (Some K) None mo [i] [] d = ((n, 1), None, d') \<and>
    map_option j_Status (sd_jobs d' i) = Some (j_Status old) \<and> map_option core (sd_jobs d' i) = Some (core old)"
proof -
  have "\<exists>es. j' = old\<lparr>j_EncryptedEnv := es\<rparr>" using assms(3,4)
    by (auto simp: rewrapJobRecord_def split: if_splits sum.splits)
  then show ?thesis using assms by (auto simp: RewrapAll_def collect_plans_def write_plan_def Let_def core_def)
qed

end
