(* ===== verification/Submit_Validation.thy ===== *)
theory Submit_Validation
  imports Dag Go_Strings
begin

text \<open>
  What the HTTP API checks before it accepts a job: the validators of \<open>internal/api/handlers_jobs.go\<close>, the
  environment denylist of \<open>env_denylist.go\<close> and the secret-key rules of \<open>secret_env.go\<close>. Validators
  return the reason of a rejection (a value of \<open>invalid\<close> in place of the rendered message), \<open>None\<close>
  when the input passes. Maps are association lists whose order is that of the range loop.

  The lemmas show that a validated local path stays below the working directory it is joined to, that
  no accepted URI names a protected directory, which environments pass the denylist, that the rules of
  the exception variable round trip and only ever name denylisted keys, and the resource bounds.
\<close>

section \<open>Requests\<close>

record binding_request =
  br_Name :: string
  br_URI :: string
  br_From :: string
  br_LocalPath :: string

record limits_request =
  lq_MemoryBytes :: "64 word"
  lq_CPUQuotaUS :: "64 word"
  lq_CPUPeriodUS :: "64 word"

record service_request =
  sq_Port :: "32 word"
  sq_HealthPath :: string
  sq_HealthInitialMs :: "32 word"

record retry_request =
  rq_MaxAttempts :: "32 word"
  rq_Backoff :: string
  rq_InitialDelayMs :: "32 word"
  rq_MaxDelayMs :: "32 word"
  rq_Jitter :: "bool option"

record submit_request =
  sb_ID :: string
  sb_Command :: string
  sb_Args :: "string list"
  sb_Env :: strmap
  sb_TimeoutSeconds :: int
  sb_Limits :: limits_request
  sb_Resources :: "resource_request option"
  sb_Priority :: "32 word option"
  sb_RetryPolicy :: "retry_request option"
  sb_WorkingDir :: string
  sb_Inputs :: "binding_request list"
  sb_Outputs :: "binding_request list"
  sb_NodeSelector :: strmap
  sb_Service :: "service_request option"
  sb_SecretKeys :: "string list"

datatype path_reason = PathRequired | PathTooLong | PathNUL | PathBackslash | PathAbsolute | PathSegment

datatype from_reason = FromRequired | FromTooLong | FromControl | FromSyntax | FromOutputName

datatype binding_reason = BadName | BadLocalPath path_reason | URITooLong | URIControl | FromMisplaced | URIAndFrom
  | BadFrom from_reason | URIRequired | URINotEmpty | URIScheme | SystemPath string | LoaderLibrary

datatype invalid = CommandChars | TooManyArgs | TooManyEnv | EmptyEnvKey | BadEnvKey | BadEnvValue
  | MemoryTooSmall | CPUPeriodRange | CPUQuotaTooBig | TooManyGPUs | WorkingDirTooLong | WorkingDirNUL
  | TooManyBindings string | BindingInvalid string nat binding_reason | DuplicateBinding string string
  | SelectorTooBig | SelectorKeyLength | SelectorKeyChars | SelectorValueLength | SelectorValueNUL
  | PortRange | PortPrivileged | HealthPathRequired | HealthPathRelative | HealthPathTooLong | HealthPathChars
  | HealthInitialTooLong | EnvKeyDenied string
  | TooManySecretKeys | EmptySecretKey | DuplicateSecretKey string | SecretKeyMissing string

section \<open>The environment denylist\<close>

definition envKeyBlockedPrefixes :: "string list" where
  "envKeyBlockedPrefixes = [''LD_'', ''DYLD_'']"

definition envKeyBlockedExact :: "string list" where
  "envKeyBlockedExact = [''GCONV_PATH'', ''GIO_EXTRA_MODULES'', ''HOSTALIASES'', ''NLSPATH'', ''RES_OPTIONS'']"

definition envKeyBlocked :: "string \<Rightarrow> bool" where
  "envKeyBlocked key \<longleftrightarrow> list_ex (HasPrefix key) envKeyBlockedPrefixes \<or> key \<in> set envKeyBlockedExact"

record env_denylist_exception =
  ex_SelectorKey :: string
  ex_SelectorValue :: string
  ex_AllowedKeys :: "string list"

datatype exception_error = NoColon string | NoSelectorEquals string | EmptySelectorPart string | SelectorNUL string
  | NoEnvKeys string | EmptyEnvKeyInList string | KeyNotDenylisted string string

fun parse_allowed :: "string \<Rightarrow> string list \<Rightarrow> string list \<Rightarrow> exception_error + string list" where
  "parse_allowed rule [] allowed = Inr allowed"
| "parse_allowed rule (rawKey # ks) allowed =
     (let k = TrimSpace rawKey in
      if k = [] then Inl (EmptyEnvKeyInList rule)
      else if \<not> envKeyBlocked k then Inl (KeyNotDenylisted rule k)
      else parse_allowed rule ks (if k \<in> set allowed then allowed else allowed @ [k]))"

definition parse_rule :: "string \<Rightarrow> exception_error + env_denylist_exception" where
  "parse_rule rule =
     (let colon = IndexByte rule (CHR '':'') in
      if colon < 0 then Inl (NoColon rule)
      else let selector = TrimSpace (take (nat colon) rule); envCSV = TrimSpace (drop (nat colon + 1) rule);
               eq = IndexByte selector (CHR ''='') in
        if eq < 0 then Inl (NoSelectorEquals rule)
        else let selKey = TrimSpace (take (nat eq) selector); selVal = TrimSpace (drop (nat eq + 1) selector) in
          if selKey = [] \<or> selVal = [] then Inl (EmptySelectorPart rule)
          else if ContainsAny selKey [NUL] \<or> ContainsAny selVal [NUL] then Inl (SelectorNUL rule)
          else if envCSV = [] then Inl (NoEnvKeys rule)
          else case parse_allowed rule (Split envCSV (CHR '','')) [] of
              Inl e \<Rightarrow> Inl e
            | Inr allowed \<Rightarrow> Inr \<lparr>ex_SelectorKey = selKey, ex_SelectorValue = selVal, ex_AllowedKeys = allowed\<rparr>)"

fun parse_rules :: "string list \<Rightarrow> exception_error + env_denylist_exception list" where
  "parse_rules [] = Inr []"
| "parse_rules (rawRule # rs) =
     (let rule = TrimSpace rawRule in
      if rule = [] then parse_rules rs
      else case parse_rule rule of
          Inl e \<Rightarrow> Inl e
        | Inr ex \<Rightarrow> (case parse_rules rs of Inl e \<Rightarrow> Inl e | Inr exs \<Rightarrow> Inr (ex # exs)))"

definition ParseEnvDenylistExceptions :: "string \<Rightarrow> exception_error + env_denylist_exception list" where
  "ParseEnvDenylistExceptions raw =
     (let raw = TrimSpace raw in if raw = [] then Inr [] else parse_rules (Split raw (CHR '';'')))"

definition envKeyAllowedByException :: "string \<Rightarrow> strmap \<Rightarrow> env_denylist_exception list \<Rightarrow> bool" where
  "envKeyAllowedByException key selector exceptions =
     (if \<not> envKeyBlocked key then False
      else if exceptions = [] \<or> selector = [] then False
      else list_ex (\<lambda>ex. map_of selector (ex_SelectorKey ex) = Some (ex_SelectorValue ex) \<and> key \<in> set (ex_AllowedKeys ex)) exceptions)"

record env_validation_result =
  er_Err :: "invalid option"
  er_BlockedKey :: string
  er_OverriddenKeys :: "string list"

fun env_loop :: "strmap \<Rightarrow> strmap \<Rightarrow> env_denylist_exception list \<Rightarrow> string list \<Rightarrow> env_validation_result" where
  "env_loop [] selector exceptions ov = \<lparr>er_Err = None, er_BlockedKey = [], er_OverriddenKeys = ov\<rparr>"
| "env_loop ((k, v) # env) selector exceptions ov =
     (if k = [] then \<lparr>er_Err = Some EmptyEnvKey, er_BlockedKey = [], er_OverriddenKeys = ov\<rparr>
      else if ContainsAny k [CHR ''='', NUL] then \<lparr>er_Err = Some BadEnvKey, er_BlockedKey = [], er_OverriddenKeys = ov\<rparr>
      else if NUL \<in> set v then \<lparr>er_Err = Some BadEnvValue, er_BlockedKey = [], er_OverriddenKeys = ov\<rparr>
      else if envKeyBlocked k then
        (if envKeyAllowedByException k selector exceptions then env_loop env selector exceptions (ov @ [k])
         else \<lparr>er_Err = Some (EnvKeyDenied k), er_BlockedKey = k, er_OverriddenKeys = ov\<rparr>)
      else env_loop env selector exceptions ov)"

definition validateEnvMap :: "strmap \<Rightarrow> strmap \<Rightarrow> env_denylist_exception list \<Rightarrow> env_validation_result" where
  "validateEnvMap env selector exceptions =
     (if 128 < length env then \<lparr>er_Err = Some TooManyEnv, er_BlockedKey = [], er_OverriddenKeys = []\<rparr>
      else env_loop env selector exceptions [])"

fun denylist_loop :: "strmap \<Rightarrow> strmap \<Rightarrow> env_denylist_exception list \<Rightarrow> string list \<Rightarrow> env_validation_result" where
  "denylist_loop [] selector exceptions ov = \<lparr>er_Err = None, er_BlockedKey = [], er_OverriddenKeys = ov\<rparr>"
| "denylist_loop ((k, v) # env) selector exceptions ov =
     (if \<not> envKeyBlocked k then denylist_loop env selector exceptions ov
      else if envKeyAllowedByException k selector exceptions then denylist_loop env selector exceptions (ov @ [k])
      else \<lparr>er_Err = Some (EnvKeyDenied k), er_BlockedKey = k, er_OverriddenKeys = ov\<rparr>)"

definition denylistOnly :: "strmap \<Rightarrow> strmap \<Rightarrow> env_denylist_exception list \<Rightarrow> env_validation_result" where
  "denylistOnly env selector exceptions = denylist_loop env selector exceptions []"

section \<open>Dangerous paths and libraries\<close>

definition dangerousSystemPathPrefixes :: "string list" where
  "dangerousSystemPathPrefixes = [''/lib/'', ''/lib64/'', ''/libexec/'', ''/usr/lib/'', ''/usr/lib64/'', ''/usr/libexec/'',
     ''/usr/local/lib/'', ''/usr/local/lib64/'', ''/proc/'', ''/sys/'', ''/dev/'', ''/boot/'', ''/etc/'', ''/root/'',
     ''/var/run/secrets/'', ''/run/secrets/'', ''/run/credentials/'']"

text \<open>The matched prefix without its final slash, if the path is dangerous.\<close>

definition isDangerousSystemPath :: "string \<Rightarrow> string option" where
  "isDangerousSystemPath absPath =
     (if absPath = [] \<or> \<not> HasPrefix absPath ''/'' then None
      else let clean = Clean absPath; cmp = (if HasSuffix clean ''/'' then clean else clean @ ''/'') in
        map_option butlast (List.find (HasPrefix cmp) dangerousSystemPathPrefixes))"

definition dangerousLibraryExactBasenames :: "string list" where
  "dangerousLibraryExactBasenames = [''libc.so'', ''libpthread.so'', ''libdl.so'', ''libm.so'', ''librt.so'', ''libnsl.so'',
     ''libutil.so'', ''libresolv.so'', ''libcrypt.so'', ''ld.so'']"

definition dangerousLibraryPrefixes :: "string list" where
  "dangerousLibraryPrefixes = [''libc.so.'', ''libpthread.so.'', ''libdl.so.'', ''libm.so.'', ''librt.so.'', ''libnsl.so.'',
     ''libutil.so.'', ''libresolv.so.'', ''libcrypt.so.'', ''libnss_'', ''ld-linux'', ''ld-musl'', ''ld.so.'', ''ld-2.'', ''libc-'']"

definition isDangerousLibraryBasename :: "string \<Rightarrow> bool" where
  "isDangerousLibraryBasename basename =
     (if basename = [] then False
      else if basename \<in> set dangerousLibraryExactBasenames then True
      else list_ex (HasPrefix basename) dangerousLibraryPrefixes)"

definition artifactURIPath :: "string \<Rightarrow> string option" where
  "artifactURIPath uri =
     (if \<not> HasPrefix uri ''file://'' then None
      else let rest = drop 7 uri in
        if HasPrefix rest ''/'' then Some rest
        else let idx = IndexByte rest (CHR ''/'') in if 0 \<le> idx then Some (drop (nat idx) rest) else Some [])"

section \<open>Artifact bindings\<close>

definition validateArtifactName :: "string \<Rightarrow> bool" where
  "validateArtifactName name = (case name of [] \<Rightarrow> False
     | c # cs \<Rightarrow> length name \<le> 64 \<and> (byte_range 65 90 c \<or> c = CHR ''_'') \<and>
         list_all (\<lambda>x. byte_range 65 90 x \<or> x = CHR ''_'' \<or> byte_range 48 57 x) cs)"

definition validateLocalPath :: "string \<Rightarrow> path_reason option" where
  "validateLocalPath p =
     (if p = [] then Some PathRequired
      else if 512 < length p then Some PathTooLong
      else if NUL \<in> set p then Some PathNUL
      else if CHR 0x5C \<in> set p then Some PathBackslash
      else if HasPrefix p ''/'' then Some PathAbsolute
      else if list_ex (\<lambda>seg. seg = [] \<or> seg = ''..'' \<or> seg = ''.'') (Split p (CHR ''/'')) then Some PathSegment
      else None)"

definition validateArtifactFromShape :: "string \<Rightarrow> from_reason option" where
  "validateArtifactFromShape ref =
     (if ref = [] then Some FromRequired
      else if 256 < length ref then Some FromTooLong
      else if list_ex control_byte ref then Some FromControl
      else let dot = LastIndexByte ref (CHR ''.'') in
        if dot \<le> 0 \<or> dot = int (length ref) - 1 then Some FromSyntax
        else if take (nat dot) ref = [] then Some FromSyntax
        else if \<not> validateArtifactName (drop (nat dot + 1) ref) then Some FromOutputName
        else None)"

definition SplitFromRef :: "string \<Rightarrow> string \<times> string" where
  "SplitFromRef ref =
     (if ref = [] then ([], [])
      else let dot = LastIndexByte ref (CHR ''.'') in
        if dot \<le> 0 \<or> dot = int (length ref) - 1 then ([], []) else (take (nat dot) ref, drop (nat dot + 1) ref))"

definition isAllowedArtifactScheme :: "string \<Rightarrow> bool" where
  "isAllowedArtifactScheme uri \<longleftrightarrow> HasPrefix uri ''file://'' \<or> HasPrefix uri ''s3://''"

definition lastPathSegment :: "string \<Rightarrow> string" where
  "lastPathSegment p = (let i = LastIndexByte p (CHR ''/'') in if 0 \<le> i then drop (nat i + 1) p else p)"

definition check_binding :: "bool \<Rightarrow> bool \<Rightarrow> binding_request \<Rightarrow> binding_reason option" where
  "check_binding requireURI allowFrom b =
     (if \<not> validateArtifactName (br_Name b) then Some BadName
      else case validateLocalPath (br_LocalPath b) of
        Some m \<Rightarrow> Some (BadLocalPath m)
      | None \<Rightarrow>
        if 2048 < length (br_URI b) then Some URITooLong
        else if list_ex control_byte (br_URI b) then Some URIControl
        else if br_From b \<noteq> [] then
          (if \<not> allowFrom \<or> \<not> requireURI then Some FromMisplaced
           else if br_URI b \<noteq> [] then Some URIAndFrom
           else map_option BadFrom (validateArtifactFromShape (br_From b)))
        else if requireURI \<and> br_URI b = [] then Some URIRequired
        else if \<not> requireURI \<and> br_URI b \<noteq> [] then Some URINotEmpty
        else if requireURI \<and> \<not> isAllowedArtifactScheme (br_URI b) then Some URIScheme
        else case (if br_URI b = [] then None else Option.bind (artifactURIPath (br_URI b)) isDangerousSystemPath) of
            Some matched \<Rightarrow> Some (SystemPath matched)
          | None \<Rightarrow>
              (let base = lastPathSegment (br_LocalPath b) in
               if base \<noteq> [] \<and> isDangerousLibraryBasename base then Some LoaderLibrary else None))"

fun check_bindings :: "string \<Rightarrow> bool \<Rightarrow> bool \<Rightarrow> nat \<Rightarrow> binding_request list \<Rightarrow> invalid option" where
  "check_bindings kind requireURI allowFrom i [] = None"
| "check_bindings kind requireURI allowFrom i (b # bs) =
     (case check_binding requireURI allowFrom b of
        Some r \<Rightarrow> Some (BindingInvalid kind i r)
      | None \<Rightarrow> check_bindings kind requireURI allowFrom (i + 1) bs)"

definition validateArtifactBindingsCtx :: "string \<Rightarrow> binding_request list \<Rightarrow> bool \<Rightarrow> bool \<Rightarrow> invalid option" where
  "validateArtifactBindingsCtx kind bs requireURI allowFrom =
     (if 64 < length bs then Some (TooManyBindings kind) else check_bindings kind requireURI allowFrom 0 bs)"

definition validateArtifactBindings :: "string \<Rightarrow> binding_request list \<Rightarrow> bool \<Rightarrow> invalid option" where
  "validateArtifactBindings kind bs requireURI = validateArtifactBindingsCtx kind bs requireURI False"

fun first_dup :: "string list \<Rightarrow> string list \<Rightarrow> string" where
  "first_dup seen [] = []"
| "first_dup seen (n # ns) = (if n \<in> set seen then n else first_dup (n # seen) ns)"

definition firstDuplicateBindingName :: "binding_request list \<Rightarrow> string" where
  "firstDuplicateBindingName bs = first_dup [] (map br_Name bs)"

definition convertBindings :: "binding_request list \<Rightarrow> artifact_binding list" where
  "convertBindings bs = map (\<lambda>b. \<lparr>b_Name = br_Name b, b_URI = br_URI b, b_From = br_From b,
     b_LocalPath = br_LocalPath b, b_SHA256 = []\<rparr>) bs"

section \<open>The whole request\<close>

fun selector_loop :: "strmap \<Rightarrow> invalid option" where
  "selector_loop [] = None"
| "selector_loop ((k, v) # sel) =
     (if k = [] \<or> 63 < length k then Some SelectorKeyLength
      else if ContainsAny k [CHR ''='', NUL] then Some SelectorKeyChars
      else if 253 < length v then Some SelectorValueLength
      else if NUL \<in> set v then Some SelectorValueNUL
      else selector_loop sel)"

definition validateNodeSelector :: "strmap \<Rightarrow> invalid option" where
  "validateNodeSelector sel = (if 32 < length sel then Some SelectorTooBig else selector_loop sel)"

definition validateServiceSpec :: "service_request option \<Rightarrow> invalid option" where
  "validateServiceSpec so = (case so of None \<Rightarrow> None
     | Some s \<Rightarrow>
        if sq_Port s < 1 \<or> 65535 < sq_Port s then Some PortRange
        else if sq_Port s < 1024 then Some PortPrivileged
        else if sq_HealthPath s = [] then Some HealthPathRequired
        else if \<not> HasPrefix (sq_HealthPath s) ''/'' then Some HealthPathRelative
        else if 256 < length (sq_HealthPath s) then Some HealthPathTooLong
        else if ContainsAny (sq_HealthPath s) [CHR '' '', CHR 0x09, CHR 0x0D, CHR 0x0A, NUL] then Some HealthPathChars
        else if 1800000 < sq_HealthInitialMs s then Some HealthInitialTooLong
        else None)"

definition forbiddenCommandChars :: string where
  "forbiddenCommandChars = [CHR ''/'', CHR 0x5C, CHR 0x60, CHR ''$'', CHR ''|'', CHR ''&'', CHR '';'', CHR ''<'', CHR ''>'', NUL]"

fun env_shape :: "strmap \<Rightarrow> invalid option" where
  "env_shape [] = None"
| "env_shape ((k, v) # env) =
     (if k = [] then Some EmptyEnvKey
      else if ContainsAny k [CHR ''='', NUL] then Some BadEnvKey
      else if NUL \<in> set v then Some BadEnvValue
      else env_shape env)"

definition check_limits :: "limits_request \<Rightarrow> invalid option" where
  "check_limits l =
     (if 0 < lq_MemoryBytes l \<and> lq_MemoryBytes l < 4194304 then Some MemoryTooSmall
      else if 0 < lq_CPUPeriodUS l \<and> (lq_CPUPeriodUS l < 1000 \<or> 1000000 < lq_CPUPeriodUS l) then Some CPUPeriodRange
      else if 0 < lq_CPUQuotaUS l \<and> 0 < lq_CPUPeriodUS l \<and> lq_CPUPeriodUS l * 512 < lq_CPUQuotaUS l then Some CPUQuotaTooBig
      else None)"

text \<open>The first of a list of checks that fails.\<close>

fun first_failure :: "'e option list \<Rightarrow> 'e option" where
  "first_failure [] = None"
| "first_failure (c # cs) = (case c of None \<Rightarrow> first_failure cs | Some e \<Rightarrow> Some e)"

definition validateSubmitRequest :: "submit_request \<Rightarrow> invalid option" where
  "validateSubmitRequest req = first_failure [
     if ContainsAny (sb_Command req) forbiddenCommandChars then Some CommandChars else None,
     if 512 < length (sb_Args req) then Some TooManyArgs else None,
     if 128 < length (sb_Env req) then Some TooManyEnv else None,
     env_shape (sb_Env req),
     check_limits (sb_Limits req),
     case sb_Resources req of Some r \<Rightarrow> (if 16 < rr_GPUs r then Some TooManyGPUs else None) | None \<Rightarrow> None,
     if 512 < length (sb_WorkingDir req) then Some WorkingDirTooLong else None,
     if NUL \<in> set (sb_WorkingDir req) then Some WorkingDirNUL else None,
     validateArtifactBindings ''inputs'' (sb_Inputs req) True,
     validateArtifactBindings ''outputs'' (sb_Outputs req) False,
     let dup = firstDuplicateBindingName (sb_Inputs req) in if dup \<noteq> [] then Some (DuplicateBinding ''inputs'' dup) else None,
     let dup = firstDuplicateBindingName (sb_Outputs req) in if dup \<noteq> [] then Some (DuplicateBinding ''outputs'' dup) else None,
     validateNodeSelector (sb_NodeSelector req),
     validateServiceSpec (sb_Service req)]"

section \<open>Secret keys\<close>

definition RedactionPlaceholder :: string where
  "RedactionPlaceholder = ''[REDACTED]''"

definition redactSecretEnv :: "strmap \<Rightarrow> string list \<Rightarrow> strmap" where
  "redactSecretEnv env secretKeys =
     (if secretKeys = [] then env
      else map (\<lambda>(k, v). if k \<in> set secretKeys then (k, RedactionPlaceholder) else (k, v)) env)"

fun secret_loop :: "strmap \<Rightarrow> string list \<Rightarrow> string list \<Rightarrow> invalid option" where
  "secret_loop env seen [] = None"
| "secret_loop env seen (k # ks) =
     (if k = [] then Some EmptySecretKey
      else if k \<in> set seen then Some (DuplicateSecretKey k)
      else if map_of env k = None then Some (SecretKeyMissing k)
      else secret_loop env (k # seen) ks)"

definition validateSecretKeys :: "strmap \<Rightarrow> string list \<Rightarrow> invalid option" where
  "validateSecretKeys env secretKeys =
     (if secretKeys = [] then None
      else if 32 < length secretKeys then Some TooManySecretKeys
      else secret_loop env [] secretKeys)"

definition auditSafeSecretKeys :: "string list \<Rightarrow> string list" where
  "auditSafeSecretKeys keys = sort (remdups keys)"

definition containsSecretKey :: "string list \<Rightarrow> string \<Rightarrow> bool" where
  "containsSecretKey haystack needle \<longleftrightarrow> list_ex (\<lambda>k. k = needle) haystack"

section \<open>Checks in sequence\<close>

lemma first_failure_None: "first_failure cs = None \<longleftrightarrow> (\<forall>c \<in> set cs. c = None)"
  by (induction cs) (auto split: option.splits)

lemma if_Some_None: "(if P then Some e else None) = None \<longleftrightarrow> \<not> P"
  by simp

lemma check_bindings_None: "check_bindings kind ru af i bs = None \<longleftrightarrow> (\<forall>b \<in> set bs. check_binding ru af b = None)"
  by (induction bs arbitrary: i) (auto split: option.splits)

lemma first_dup_Nil: "[] \<notin> set ns \<Longrightarrow> first_dup seen ns = [] \<longleftrightarrow> distinct ns \<and> set ns \<inter> set seen = {}"
  by (induction ns arbitrary: seen) auto

lemma env_shape_None:
  "env_shape env = None \<longleftrightarrow> (\<forall>(k, v) \<in> set env. k \<noteq> [] \<and> CHR ''='' \<notin> set k \<and> NUL \<notin> set k \<and> NUL \<notin> set v)"
  by (induction env rule: env_shape.induct) (auto simp: ContainsAny_iff)

lemma secret_loop_None:
  "secret_loop env seen ks = None \<longleftrightarrow> distinct ks \<and> set ks \<inter> set seen = {} \<and> [] \<notin> set ks \<and> set ks \<subseteq> fst ` set env"
  by (induction ks arbitrary: seen) (auto simp: map_of_eq_None_iff)

lemma validateSecretKeys_None:
  "validateSecretKeys env ks = None \<longleftrightarrow> length ks \<le> 32 \<and> distinct ks \<and> [] \<notin> set ks \<and> set ks \<subseteq> fst ` set env"
  by (auto simp: validateSecretKeys_def secret_loop_None)

lemma check_binding_None:
  "check_binding ru af b = None \<Longrightarrow> validateArtifactName (br_Name b) \<and> validateLocalPath (br_LocalPath b) = None"
  by (auto simp: check_binding_def split: if_splits option.splits)

section \<open>Local paths\<close>

lemma validateLocalPath_plain:
  "validateLocalPath p = None \<Longrightarrow> list_all plain_seg (Split p (CHR ''/''))"
  by (auto simp: validateLocalPath_def plain_seg_def list_all_iff list_ex_iff split: if_splits)

lemma SplitFromRef_eq: "SplitFromRef = splitDotRef"
  by (rule ext) (simp add: SplitFromRef_def splitDotRef_def Let_def)

section \<open>Protected directories\<close>

definition protected_dirs :: "string list list" where
  "protected_dirs = [[''lib''], [''lib64''], [''libexec''], [''usr'', ''lib''], [''usr'', ''lib64''], [''usr'', ''libexec''],
     [''usr'', ''local'', ''lib''], [''usr'', ''local'', ''lib64''], [''proc''], [''sys''], [''dev''], [''boot''], [''etc''], [''root''],
     [''var'', ''run'', ''secrets''], [''run'', ''secrets''], [''run'', ''credentials'']]"

lemma dangerous_prefixes: "dangerousSystemPathPrefixes = map enclose protected_dirs"
  by (simp add: dangerousSystemPathPrefixes_def protected_dirs_def enclose_def)

lemma protected_slashless: "d \<in> set protected_dirs \<Longrightarrow> s \<in> set d \<Longrightarrow> CHR ''/'' \<notin> set s"
  by (auto simp: protected_dirs_def)

lemma cmp_enclose:
  "(if HasSuffix (Clean (CHR ''/'' # p)) ''/'' then Clean (CHR ''/'' # p) else Clean (CHR ''/'' # p) @ ''/'') =
   enclose (path_segs (CHR ''/'' # p))"
proof (cases "path_segs (CHR ''/'' # p) = []")
  case True
  then show ?thesis by (simp add: Clean_rooted enclose_def HasSuffix_iff)
next
  case False
  let ?ss = "path_segs (CHR ''/'' # p)"
  obtain ss s where ss: "?ss = ss @ [s]" using False by (metis append_butlast_last_id)
  then have "s \<noteq> []" "CHR ''/'' \<notin> set s"
    using path_segs_plain [of "CHR ''/'' # p"] path_segs_slashless [of s "CHR ''/'' # p"] by (auto simp: plain_seg_def)
  moreover from this obtain u where "CHR ''/'' # Join ?ss ''/'' = u @ s"
    using ss Join_append [of ss "[s]" "''/''"] by (cases "ss = []") (auto intro: that [of "''/''"] that)
  ultimately have "\<not> HasSuffix (Clean (CHR ''/'' # p)) ''/''"
    by (auto simp: Clean_rooted HasSuffix_iff) (metis append_butlast_last_id last_appendR last_in_set last_snoc)
  then show ?thesis using False by (simp add: Clean_rooted enclose_Join)
qed

lemma isDangerousSystemPath_iff:
  "isDangerousSystemPath p \<noteq> None \<longleftrightarrow> HasPrefix p ''/'' \<and> (\<exists>d \<in> set protected_dirs. \<exists>r. path_segs p = d @ r)"
proof (cases "HasPrefix p ''/''")
  case True
  then obtain q where p: "p = CHR ''/'' # q" by (auto simp: HasPrefix_iff)
  have "isDangerousSystemPath p \<noteq> None \<longleftrightarrow> (\<exists>d \<in> set protected_dirs. HasPrefix (enclose (path_segs p)) (enclose d))"
    unfolding isDangerousSystemPath_def p Let_def cmp_enclose dangerous_prefixes
    by (auto simp: find_None_iff find_Some_iff)
  also have "\<dots> \<longleftrightarrow> (\<exists>d \<in> set protected_dirs. \<exists>r. path_segs p = d @ r)"
    by (intro bex_cong refl HasPrefix_enclose) (auto dest: path_segs_slashless protected_slashless)
  finally show ?thesis using True by simp
qed (simp add: isDangerousSystemPath_def)

section \<open>The denylist\<close>

definition env_permitted :: "strmap \<Rightarrow> strmap \<Rightarrow> env_denylist_exception list \<Rightarrow> bool" where
  "env_permitted env selector exceptions \<longleftrightarrow> (\<forall>k \<in> fst ` set env. envKeyBlocked k \<longrightarrow>
     (\<exists>ex \<in> set exceptions. map_of selector (ex_SelectorKey ex) = Some (ex_SelectorValue ex) \<and> k \<in> set (ex_AllowedKeys ex)))"

lemma envKeyAllowedByException_iff:
  "envKeyAllowedByException k selector exceptions \<longleftrightarrow> envKeyBlocked k \<and>
     (\<exists>ex \<in> set exceptions. map_of selector (ex_SelectorKey ex) = Some (ex_SelectorValue ex) \<and> k \<in> set (ex_AllowedKeys ex))"
  by (auto simp: envKeyAllowedByException_def list_ex_iff)

lemma env_permitted_Cons:
  "env_permitted ((k, v) # env) selector exceptions \<longleftrightarrow>
     (envKeyBlocked k \<longrightarrow> envKeyAllowedByException k selector exceptions) \<and> env_permitted env selector exceptions"
  by (auto simp: env_permitted_def envKeyAllowedByException_iff)

lemma denylist_loop_spec:
  "er_Err (denylist_loop env selector exceptions ov) = None \<longleftrightarrow> env_permitted env selector exceptions"
  "env_permitted env selector exceptions \<Longrightarrow>
     er_OverriddenKeys (denylist_loop env selector exceptions ov) = ov @ filter envKeyBlocked (map fst env)"
  by (induction env selector exceptions ov rule: denylist_loop.induct) (auto simp: env_permitted_Cons, simp add: env_permitted_def)

lemma env_loop_spec:
  "er_Err (env_loop env selector exceptions ov) = None \<longleftrightarrow> env_shape env = None \<and> env_permitted env selector exceptions"
  by (induction env selector exceptions ov rule: env_loop.induct) (auto simp: env_permitted_Cons, simp add: env_permitted_def)

section \<open>The exception rules\<close>

lemma parse_allowed_blocked:
  "parse_allowed rule ks al = Inr al' \<Longrightarrow> list_all envKeyBlocked al \<Longrightarrow> list_all envKeyBlocked al'"
proof (induction ks arbitrary: al)
  case (Cons rk ks)
  let ?k = "TrimSpace rk" and ?al = "if TrimSpace rk \<in> set al then al else al @ [TrimSpace rk]"
  have "envKeyBlocked ?k" and "parse_allowed rule ks ?al = Inr al'"
    using Cons.prems(1) by (auto simp: Let_def split: if_splits)
  then show ?case using Cons.IH [of ?al] Cons.prems(2) by (simp split: if_splits)
qed simp

lemma parse_rule_blocked: "parse_rule rule = Inr ex \<Longrightarrow> k \<in> set (ex_AllowedKeys ex) \<Longrightarrow> envKeyBlocked k"
  by (auto simp: parse_rule_def Let_def list_all_iff dest!: parse_allowed_blocked split: if_splits sum.splits)

lemma parse_rules_blocked:
  "parse_rules rs = Inr exs \<Longrightarrow> ex \<in> set exs \<Longrightarrow> k \<in> set (ex_AllowedKeys ex) \<Longrightarrow> envKeyBlocked k"
  by (induction rs arbitrary: exs) (auto simp: Let_def dest: parse_rule_blocked split: if_splits sum.splits)

definition render_rule :: "env_denylist_exception \<Rightarrow> string" where
  "render_rule ex = (ex_SelectorKey ex @ CHR ''='' # ex_SelectorValue ex) @ CHR '':'' # Join (ex_AllowedKeys ex) '',''"

definition render_rules :: "env_denylist_exception list \<Rightarrow> string" where
  "render_rules exs = Join (map render_rule exs) '';''"

definition rule_ok :: "env_denylist_exception \<Rightarrow> bool" where
  "rule_ok ex \<longleftrightarrow> ex_SelectorKey ex \<noteq> [] \<and> ex_SelectorValue ex \<noteq> [] \<and> unpadded (ex_SelectorKey ex) \<and> unpadded (ex_SelectorValue ex) \<and>
     set (ex_SelectorKey ex) \<inter> {CHR '':'', CHR '';'', CHR ''='', NUL} = {} \<and> set (ex_SelectorValue ex) \<inter> {CHR '':'', CHR '';'', NUL} = {} \<and>
     ex_AllowedKeys ex \<noteq> [] \<and> distinct (ex_AllowedKeys ex) \<and>
     (\<forall>k \<in> set (ex_AllowedKeys ex). envKeyBlocked k \<and> unpadded k \<and> CHR '','' \<notin> set k \<and> CHR '';'' \<notin> set k)"

lemma envKeyBlocked_Nil [simp]: "\<not> envKeyBlocked []"
  by (simp add: envKeyBlocked_def envKeyBlockedPrefixes_def envKeyBlockedExact_def)

lemma parse_allowed_render:
  "\<forall>k \<in> set ks. envKeyBlocked k \<and> unpadded k \<Longrightarrow> distinct (al @ ks) \<Longrightarrow> parse_allowed rule ks al = Inr (al @ ks)"
  by (induction rule ks al rule: parse_allowed.induct) (auto simp: TrimSpace_id Let_def)

lemma parse_rule_render:
  assumes "rule_ok ex"
  shows "parse_rule (render_rule ex) = Inr ex"
proof -
  let ?sel = "ex_SelectorKey ex @ CHR ''='' # ex_SelectorValue ex" and ?csv = "Join (ex_AllowedKeys ex) '',''"
  have "unpadded ?sel" using assms by (intro unpadded_glue) (auto simp: rule_ok_def)
  moreover have csv: "unpadded ?csv" using assms by (intro unpadded_Join) (auto simp: rule_ok_def)
  moreover have "IndexByte (render_rule ex) (CHR '':'') = int (length ?sel)"
    unfolding render_rule_def using assms by (intro IndexByte_append_notin) (auto simp: rule_ok_def)
  moreover have "IndexByte ?sel (CHR ''='') = int (length (ex_SelectorKey ex))"
    using assms by (intro IndexByte_append_notin) (auto simp: rule_ok_def)
  moreover have split: "Split ?csv (CHR '','') = ex_AllowedKeys ex" using assms by (intro Split_Join) (auto simp: rule_ok_def)
  moreover have "?csv \<noteq> []" using split assms by (auto simp: rule_ok_def dest: sym)
  moreover have "take (length ?sel) (render_rule ex) = ?sel" "drop (length ?sel + 1) (render_rule ex) = ?csv"
    by (simp_all add: render_rule_def)
  moreover have "parse_allowed (render_rule ex) (ex_AllowedKeys ex) [] = Inr (ex_AllowedKeys ex)"
    using assms parse_allowed_render [of "ex_AllowedKeys ex" "[]"] by (simp add: rule_ok_def)
  ultimately show ?thesis using assms
    by (simp add: parse_rule_def Let_def TrimSpace_id rule_ok_def ContainsAny_iff nat_add_distrib del: length_append)
qed

lemma render_rule_shape:
  assumes "rule_ok ex"
  shows "unpadded (render_rule ex)" and "CHR '';'' \<notin> set (render_rule ex)" and "render_rule ex \<noteq> []"
proof -
  show "unpadded (render_rule ex)" unfolding render_rule_def using assms
    by (intro unpadded_glue unpadded_Join) (auto simp: rule_ok_def)
  have "CHR '';'' \<notin> set (Join (ex_AllowedKeys ex) '','')" using assms set_Join [of "ex_AllowedKeys ex" "'',''"]
    by (auto simp: rule_ok_def)
  then show "CHR '';'' \<notin> set (render_rule ex)" using assms by (auto simp: render_rule_def rule_ok_def)
qed (simp add: render_rule_def)

section \<open>Properties\<close>

text \<open>A local path that passes validation cannot leave the directory it is staged into: joined to any
  base directory and cleaned, it is the cleaned base followed by the very same path.\<close>

theorem validated_path_confined:
  assumes "validateLocalPath p = None"
  shows "Clean (CHR ''/'' # base @ CHR ''/'' # p) =
    (if Clean (CHR ''/'' # base) = ''/'' then ''/'' @ p else Clean (CHR ''/'' # base) @ ''/'' @ p)"
  by (rule Clean_below [OF validateLocalPath_plain [OF assms]])

theorem validated_path_confined_witness:
  "Clean ''/work/../tmp/j1/out/model.pt'' = Clean ''/work/../tmp/j1'' @ ''/out/model.pt''"
proof -
  have "validateLocalPath ''out/model.pt'' = None" by (simp add: validateLocalPath_def NUL_def)
  from validated_path_confined [OF this, of "''work/../tmp/j1''"] show ?thesis by (simp add: Clean_def)
qed

text \<open>No artifact binding of an accepted request reaches into a protected system directory: the URI of
  an accepted input has an allowed scheme and, when it is a file URI, no protected directory is an
  ancestor of its cleaned path, however the path is spelled; an accepted output carries no URI.\<close>

theorem accepted_uris_harmless:
  assumes "validateArtifactBindings kind bs requireURI = None" and "b \<in> set bs"
  shows "(requireURI \<longrightarrow> isAllowedArtifactScheme (br_URI b)) \<and> (\<not> requireURI \<longrightarrow> br_URI b = []) \<and>
    (\<forall>p. artifactURIPath (br_URI b) = Some p \<longrightarrow> HasPrefix p ''/'' \<longrightarrow>
      (\<forall>d \<in> set protected_dirs. \<forall>r. path_segs p \<noteq> d @ r))"
proof -
  have ok: "check_binding requireURI False b = None"
    using assms by (auto simp: validateArtifactBindings_def validateArtifactBindingsCtx_def check_bindings_None split: if_splits)
  then have "isDangerousSystemPath p = None" if "artifactURIPath (br_URI b) = Some p" for p
    using that by (auto simp: check_binding_def artifactURIPath_def split: if_splits option.splits)
  moreover have "(requireURI \<longrightarrow> isAllowedArtifactScheme (br_URI b)) \<and> (\<not> requireURI \<longrightarrow> br_URI b = [])"
    using ok by (auto simp: check_binding_def split: if_splits option.splits)
  ultimately show ?thesis using isDangerousSystemPath_iff by blast
qed

definition demo_input :: "string \<Rightarrow> binding_request" where
  "demo_input uri = \<lparr>br_Name = ''DATA'', br_URI = uri, br_From = [], br_LocalPath = ''in/data.csv''\<rparr>"

theorem accepted_uris_harmless_witness:
  "isAllowedArtifactScheme ''file:///srv/data/../x.csv'' \<and> path_segs ''/srv/data/../x.csv'' \<noteq> [''etc'', ''passwd'']"
proof -
  have "validateArtifactBindings ''inputs'' [demo_input ''file:///srv/data/../x.csv''] True = None" by code_simp
  from accepted_uris_harmless [OF this, of "demo_input ''file:///srv/data/../x.csv''"]
  have "isAllowedArtifactScheme ''file:///srv/data/../x.csv'' \<and> (\<forall>d \<in> set protected_dirs. \<forall>r. path_segs ''/srv/data/../x.csv'' \<noteq> d @ r)"
    by (simp add: demo_input_def artifactURIPath_def)
  moreover have "[''etc''] \<in> set protected_dirs" by (simp add: protected_dirs_def)
  ultimately show ?thesis by (metis append_Cons append_Nil)
qed

text \<open>The two paths into the system enforce the same environment rules: the workflow handler's single
  pass accepts an environment exactly when the job handler's shape checks and denylist pass do,
  which is when it has at most 128 well-formed entries and every denylisted key is covered by an
  exception for a label the job selects; the visiting order of the map plays no part.\<close>

theorem env_checks_agree:
  "(er_Err (validateEnvMap env selector exceptions) = None \<longleftrightarrow>
      length env \<le> 128 \<and> env_shape env = None \<and> er_Err (denylistOnly env selector exceptions) = None) \<and>
   (er_Err (denylistOnly env selector exceptions) = None \<longleftrightarrow> env_permitted env selector exceptions)"
  by (auto simp: validateEnvMap_def denylistOnly_def env_loop_spec denylist_loop_spec)

text \<open>The exception variable round trips: the rendering of well-formed rules is parsed to the same rules.\<close>

theorem exception_rules_round_trip:
  assumes "\<forall>ex \<in> set exs. rule_ok ex"
  shows "ParseEnvDenylistExceptions (render_rules exs) = Inr exs"
proof (cases "exs = []")
  case False
  have "parse_rules (map render_rule exs) = Inr exs" using assms
    by (induction exs) (simp_all add: Let_def TrimSpace_id render_rule_shape parse_rule_render)
  moreover have "Split (render_rules exs) (CHR '';'') = map render_rule exs"
    unfolding render_rules_def using False assms by (intro Split_Join) (auto simp: render_rule_shape)
  moreover have "unpadded (render_rules exs)" unfolding render_rules_def using False assms
    by (intro unpadded_Join) (auto simp: render_rule_shape)
  moreover have "render_rules exs \<noteq> []" using False assms render_rule_shape(3)
    by (cases exs) (auto simp: render_rules_def Join_Cons)
  ultimately show ?thesis by (simp add: ParseEnvDenylistExceptions_def TrimSpace_id)
qed (simp add: render_rules_def ParseEnvDenylistExceptions_def TrimSpace_id unpadded_def space_runes_def list_ex_iff HasSuffix_def)

definition demo_rule :: env_denylist_exception where
  "demo_rule = \<lparr>ex_SelectorKey = ''role'', ex_SelectorValue = ''gpu'', ex_AllowedKeys = [''LD_LIBRARY_PATH'', ''NLSPATH'']\<rparr>"

lemma demo_rule_ok: "rule_ok demo_rule"
  by code_simp

theorem exception_rules_round_trip_witness:
  "ParseEnvDenylistExceptions ''role=gpu:LD_LIBRARY_PATH,NLSPATH'' = Inr [demo_rule]"
  using exception_rules_round_trip [of "[demo_rule]"] demo_rule_ok by (simp add: render_rules_def render_rule_def demo_rule_def)

text \<open>However it is written, the exception variable can only lift the ban on keys that are on the
  denylist, so it never decides about a key the denylist does not know.\<close>

theorem exceptions_only_denylisted:
  assumes "ParseEnvDenylistExceptions raw = Inr exs" and "ex \<in> set exs" and "k \<in> set (ex_AllowedKeys ex)"
  shows "envKeyBlocked k"
  using assms by (auto simp: ParseEnvDenylistExceptions_def Let_def dest: parse_rules_blocked split: if_splits)

theorem exceptions_only_denylisted_witness: "envKeyBlocked ''NLSPATH''"
proof -
  have "ParseEnvDenylistExceptions '' role = gpu : LD_AUDIT , NLSPATH ;'' =
      Inr [\<lparr>ex_SelectorKey = ''role'', ex_SelectorValue = ''gpu'', ex_AllowedKeys = [''LD_AUDIT'', ''NLSPATH'']\<rparr>]"
    by code_simp
  from exceptions_only_denylisted [OF this] show ?thesis by simp
qed

text \<open>Accepted limits are in range as numbers, although the check multiplies 64-bit words: the period is
  between a millisecond and a second when set, and the quota at most 512 cores' worth of it.\<close>

theorem accepted_limits_bounded:
  assumes "check_limits l = None"
  shows "(lq_CPUPeriodUS l \<noteq> 0 \<longrightarrow> 1000 \<le> unat (lq_CPUPeriodUS l) \<and> unat (lq_CPUPeriodUS l) \<le> 1000000 \<and>
      unat (lq_CPUQuotaUS l) \<le> 512 * unat (lq_CPUPeriodUS l)) \<and>
    (lq_MemoryBytes l \<noteq> 0 \<longrightarrow> 4194304 \<le> unat (lq_MemoryBytes l))"
proof -
  have word: "(a < b) = (unat a < unat b)" for a b :: "64 word" by (simp add: word_less_nat_alt)
  have "unat (p * 512) = 512 * unat p" if "unat p \<le> 1000000" for p :: "64 word"
    using that by (simp add: unat_word_ariths)
  then show ?thesis using assms
    by (auto simp: check_limits_def word unat_eq_zero not_less word_gt_0 split: if_splits)
qed

theorem accepted_limits_bounded_witness:
  "unat (400000 :: 64 word) \<le> 512 * unat (100000 :: 64 word)"
  using accepted_limits_bounded [of "\<lparr>lq_MemoryBytes = 0, lq_CPUQuotaUS = 400000, lq_CPUPeriodUS = 100000\<rparr>"]
  by (simp add: check_limits_def)

text \<open>The library check is skipped for inputs bound by reference: a workflow input may be staged under the
  name of the C library when its content comes from an upstream job instead of a URI.\<close>

lemma referenced_input_may_be_libc:
  "validateArtifactBindingsCtx ''inputs'' [\<lparr>br_Name = ''L'', br_URI = [], br_From = ''build.LIB'', br_LocalPath = ''libc.so.6''\<rparr>] True True = None"
  "validateArtifactBindingsCtx ''inputs'' [\<lparr>br_Name = ''L'', br_URI = ''s3://b/k'', br_From = [], br_LocalPath = ''libc.so.6''\<rparr>] True True =
     Some (BindingInvalid ''inputs'' 0 LoaderLibrary)"
  by code_simp+

end
