(* ===== verification/Job_Api.thy ===== *)
theory Job_Api
  imports Submit_Validation Job_Store
begin

text \<open>
  The job endpoints of the HTTP API: \<open>internal/api/handlers_jobs.go\<close> with \<open>dry_run.go\<close>, \<open>authz.go\<close>,
  \<open>helpers.go\<close>, the reveal-secret handler of \<open>handlers_admin.go\<close> and the adapter of \<open>stubs.go\<close>, over the
  job store, the authorization rules and the submit validators.

  A handler is a function of the request and the server state to a response and the new state.
  Requests arrive decoded: a body is \<open>None\<close> when reading or decoding it failed, query parameters and
  path values are strings, and the context carries the principal, the token's subject and the
  operator certificate's name, as the middleware left them. The audit sink may be absent and each of
  its writes may fail; analytics events are recorded when a bus is configured. The rate limiter's
  answer is an argument. Messages are values.

  The lemmas show what must hold of a request for its job to enter the store, that a dry run predicts
  the real submission and changes no job, that responses do not depend on secret values, that pages
  partition the readable jobs, and that every reveal is audited first.
\<close>

section \<open>Requests, responses, state\<close>

record api_request =
  ar_principal :: ctx
  ar_subject :: "string option"
  ar_operatorCN :: string

datatype reveal_reason = KeyRequired | KeyChars | KeyTooLong | ReasonRequired | ReasonTooLong | ReasonNUL

datatype reject_reason = MissingJobID | InvalidBody | InvalidReveal reveal_reason | RevealJobNotFound | NotDeclaredSecret | SecretNotInEnv

datatype api_message = MsgDryRun | MsgDecode | MsgIDRequired | MsgCommandRequired | MsgTimeoutNegative | MsgTimeoutTooBig
  | MsgInvalid invalid | MsgPriority | MsgMaxAttempts | MsgBackoff | MsgExists | MsgSubmitFailed | MsgJobIDRequired
  | MsgJobNotFound | MsgAlreadyTerminal | MsgCancelFailed | MsgPage | MsgSize | MsgPageTooBig | MsgStatusFilter | MsgInternal
  | MsgRateLimit | MsgReveal reveal_reason | MsgNoSuchSecret | MsgSecretMissing | MsgAuditDown

datatype api_event =
    EventAuthzDeny deny_code action resource_kind string string kind
  | EventEnvDenylistReject string string bool
  | EventEnvDenylistOverride string string bool
  | EventJobDryRun string string string string
  | EventJobSubmit string string "string list" string string
  | EventSecretRevealed string string string time string
  | EventSecretRevealReject string string reject_reason
  | EventWorkflowEnvReject string string string bool
  | EventWorkflowEnvOverride string string string bool
  | EventWorkflowDryRun string string nat string
  | EventResourceShared string string string "action list" string
  | EventResourceShareRevoked string string string string
  | EventDatasetDryRun string string string int string
  | EventDatasetRegistered string string string int string
  | EventDatasetDeleted string string
  | EventModelDryRun string string string string string
  | EventModelRegistered string string string string string
  | EventModelDeleted string string

record sink =
  sk_log :: "(string \<times> api_event) list"
  sk_faults :: "bool list"

record submission =
  su_actor :: string
  su_kind :: string
  su_resource :: string
  su_dryRun :: bool
  su_accepted :: bool
  su_reason :: "invalid option"

record 'p api =
  ap_jobs :: "'p job_store"
  ap_audit :: "sink option"
  ap_bus :: "submission list option"
  ap_tokenManager :: bool
  ap_exceptions :: "env_denylist_exception list"

record job_response =
  jr_ID :: string
  jr_Command :: string
  jr_Args :: "string list"
  jr_Env :: strmap
  jr_TimeoutSeconds :: int
  jr_Limits :: resource_limits
  jr_Status :: string
  jr_NodeID :: string
  jr_Runtime :: string
  jr_CreatedAt :: time
  jr_DispatchedAt :: "time option"
  jr_FinishedAt :: "time option"
  jr_Error :: string
  jr_SubmittedBy :: string
  jr_OwnerPrincipal :: string
  jr_Priority :: "32 word"
  jr_Attempt :: "32 word"
  jr_RetryAfter :: "time option"
  jr_Service :: "service_spec option"
  jr_SecretKeys :: "string list"

datatype response = RespError nat api_message | RespForbidden deny_code | RespJob nat job_response | RespDryRun job_response
  | RespCancelled string | RespJobs "job_response list" nat int int | RespSecret string string string time string

section \<open>Shared helpers\<close>

definition zero_opt :: "time \<Rightarrow> time option" where
  "zero_opt t = (if IsZero t then None else Some t)"

definition jobToResponse :: "job \<Rightarrow> job_response" where
  "jobToResponse j = \<lparr>jr_ID = j_ID j, jr_Command = j_Command j, jr_Args = j_Args j,
     jr_Env = redactSecretEnv (j_Env j) (j_SecretKeys j), jr_TimeoutSeconds = j_TimeoutSeconds j, jr_Limits = j_Limits j,
     jr_Status = JobStatus_String (j_Status j), jr_NodeID = j_NodeID j, jr_Runtime = j_Runtime j, jr_CreatedAt = j_CreatedAt j,
     jr_DispatchedAt = zero_opt (j_DispatchedAt j), jr_FinishedAt = zero_opt (j_FinishedAt j), jr_Error = j_Error j,
     jr_SubmittedBy = j_SubmittedBy j, jr_OwnerPrincipal = j_OwnerPrincipal j, jr_Priority = j_Priority j,
     jr_Attempt = j_Attempt j, jr_RetryAfter = zero_opt (j_RetryAfter j), jr_Service = j_Service j,
     jr_SecretKeys = j_SecretKeys j\<rparr>"

definition actorFromContext :: "api_request \<Rightarrow> string" where
  "actorFromContext r =
     (let p = FromContext (ar_principal r) in
      if p_Kind p \<noteq> KindAnonymous then p_DisplayName p
      else case ar_subject r of Some s \<Rightarrow> s | None \<Rightarrow> ''anonymous'')"

text \<open>A write to the audit log, with the error it returns; nothing happens without a sink.\<close>

definition audit_Log :: "string \<Rightarrow> api_event \<Rightarrow> 'p api \<Rightarrow> bool \<times> 'p api" where
  "audit_Log actor e s = (case ap_audit s of None \<Rightarrow> (True, s)
     | Some k \<Rightarrow>
        if sk_faults k \<noteq> [] \<and> hd (sk_faults k) then (False, s\<lparr>ap_audit := Some (k\<lparr>sk_faults := tl (sk_faults k)\<rparr>)\<rparr>)
        else (True, s\<lparr>ap_audit := Some (k\<lparr>sk_log := sk_log k @ [(actor, e)], sk_faults := tl (sk_faults k)\<rparr>)\<rparr>))"

definition recordSubmission :: "api_request \<Rightarrow> string \<Rightarrow> string \<Rightarrow> bool \<Rightarrow> bool \<Rightarrow> invalid option \<Rightarrow> 'p api \<Rightarrow> 'p api" where
  "recordSubmission r knd i dryRun accepted reason s = (case ap_bus s of None \<Rightarrow> s
     | Some b \<Rightarrow> s\<lparr>ap_bus := Some (b @ [\<lparr>su_actor = actorFromContext r, su_kind = knd, su_resource = i, su_dryRun = dryRun,
          su_accepted = accepted, su_reason = reason\<rparr>])\<rparr>)"

definition emitAuthzDeny :: "api_request \<Rightarrow> deny_error \<Rightarrow> resource \<Rightarrow> 'p api \<Rightarrow> 'p api" where
  "emitAuthzDeny r de res s =
     (let p = FromContext (ar_principal r) in
      snd (audit_Log (p_ID p) (EventAuthzDeny (d_Code de) (d_Action de) (d_ResourceKind de) (r_ID res) (r_OwnerPrincipal res) (p_Kind p)) s))"

definition authzCheck :: "api_request \<Rightarrow> action \<Rightarrow> resource \<Rightarrow> 'p api \<Rightarrow> response option \<times> 'p api" where
  "authzCheck r a res s =
     (case Allow (Some (FromContext (ar_principal r))) a (Some res) of
        None \<Rightarrow> (None, s)
      | Some de \<Rightarrow> (Some (RespForbidden (d_Code de)), emitAuthzDeny r de res s))"

definition ParseDryRunParam :: "string \<Rightarrow> bool option" where
  "ParseDryRunParam raw =
     (let v = ToLower raw in
      if v = [] then Some False
      else if v \<in> {''1'', ''true'', ''yes''} then Some True
      else if v \<in> {''0'', ''false'', ''no''} then Some False
      else None)"

section \<open>Submission\<close>

definition parse_backoff :: "string \<Rightarrow> backoff_strategy option" where
  "parse_backoff b =
     (let v = ToLower b in
      if v = ''none'' then Some BackoffNone
      else if v = ''linear'' then Some BackoffLinear
      else if v = [] \<or> v = ''exponential'' then Some BackoffExponential
      else None)"

definition convert_retry :: "retry_request option \<Rightarrow> api_message + retry_policy option" where
  "convert_retry rqo = (case rqo of None \<Rightarrow> Inr None
     | Some rq \<Rightarrow>
        if 100 < rq_MaxAttempts rq then Inl MsgMaxAttempts
        else case parse_backoff (rq_Backoff rq) of None \<Rightarrow> Inl MsgBackoff
          | Some b \<Rightarrow> Inr (if 1 < rq_MaxAttempts rq
              then Some \<lparr>rp_MaxAttempts = rq_MaxAttempts rq, rp_Backoff = b, rp_InitialDelayMs = rq_InitialDelayMs rq,
                     rp_MaxDelayMs = rq_MaxDelayMs rq, rp_Jitter = (case rq_Jitter rq of None \<Rightarrow> True | Some x \<Rightarrow> x)\<rparr>
              else None))"

text \<open>The \<open>cpb.Job\<close> built from the request.\<close>

definition job_of_request :: "submit_request \<Rightarrow> retry_policy option \<Rightarrow> string \<Rightarrow> string \<Rightarrow> job" where
  "job_of_request q rp submittedBy owner = zero_job\<lparr>
     j_ID := sb_ID q, j_Command := sb_Command q, j_Args := sb_Args q, j_Env := sb_Env q, j_TimeoutSeconds := sb_TimeoutSeconds q,
     j_Limits := \<lparr>rl_MemoryBytes = unat (lq_MemoryBytes (sb_Limits q)), rl_CPUQuotaUS = unat (lq_CPUQuotaUS (sb_Limits q)),
        rl_CPUPeriodUS = unat (lq_CPUPeriodUS (sb_Limits q))\<rparr>,
     j_WorkingDir := sb_WorkingDir q, j_Inputs := convertBindings (sb_Inputs q), j_Outputs := convertBindings (sb_Outputs q),
     j_NodeSelector := sb_NodeSelector q, j_SecretKeys := sb_SecretKeys q,
     j_Service := map_option (\<lambda>v. \<lparr>ss_Port = sq_Port v, ss_HealthPath = sq_HealthPath v, ss_HealthInitialMS = sq_HealthInitialMs v\<rparr>) (sb_Service q),
     j_Priority := (case sb_Priority q of None \<Rightarrow> 0 | Some p \<Rightarrow> p),
     j_Resources := (case sb_Resources q of None \<Rightarrow> zero_resources | Some x \<Rightarrow> x),
     j_RetryPolicy := rp, j_SubmittedBy := submittedBy, j_OwnerPrincipal := owner\<rparr>"

text \<open>Everything up to the stamping of the owner: the job, or the message of the 400 answer.\<close>

definition build_job :: "api_request \<Rightarrow> bool \<Rightarrow> submit_request \<Rightarrow> api_message + job" where
  "build_job r tokens q =
     (if sb_ID q = [] then Inl MsgIDRequired
      else if sb_Command q = [] then Inl MsgCommandRequired
      else if sb_TimeoutSeconds q < 0 then Inl MsgTimeoutNegative
      else if 3600 < sb_TimeoutSeconds q then Inl MsgTimeoutTooBig
      else case validateSubmitRequest q of Some m \<Rightarrow> Inl (MsgInvalid m)
      | None \<Rightarrow> case validateSecretKeys (sb_Env q) (sb_SecretKeys q) of Some m \<Rightarrow> Inl (MsgInvalid m)
      | None \<Rightarrow> if (case sb_Priority q of Some p \<Rightarrow> 100 < p | None \<Rightarrow> False) then Inl MsgPriority
      else case convert_retry (sb_RetryPolicy q) of Inl m \<Rightarrow> Inl m
      | Inr rp \<Rightarrow> Inr (job_of_request q rp (if tokens then (case ar_subject r of Some u \<Rightarrow> u | None \<Rightarrow> []) else [])
           (p_ID (FromContext (ar_principal r)))))"

text \<open>The only rejection before authorization that analytics sees is the one of \<open>validateSubmitRequest\<close>.\<close>

definition note_rejection :: "api_request \<Rightarrow> bool \<Rightarrow> submit_request \<Rightarrow> 'p api \<Rightarrow> 'p api" where
  "note_rejection r dryRun q s =
     (if sb_ID q \<noteq> [] \<and> sb_Command q \<noteq> [] \<and> 0 \<le> sb_TimeoutSeconds q \<and> sb_TimeoutSeconds q \<le> 3600
      then (case validateSubmitRequest q of None \<Rightarrow> s | Some m \<Rightarrow> recordSubmission r ''job'' (sb_ID q) dryRun False (Some m) s)
      else s)"

definition audit_overrides :: "api_request \<Rightarrow> string \<Rightarrow> bool \<Rightarrow> string list \<Rightarrow> 'p api \<Rightarrow> 'p api" where
  "audit_overrides r i dryRun ks s = fold (\<lambda>k s. snd (audit_Log (actorFromContext r) (EventEnvDenylistOverride i k dryRun) s)) ks s"

text \<open>The handler from the authorization check on.\<close>

definition submit_checked :: "'p saver \<Rightarrow> time \<Rightarrow> api_request \<Rightarrow> bool \<Rightarrow> job \<Rightarrow> 'p api \<Rightarrow> response \<times> 'p api" where
  "submit_checked save now r dryRun job s =
     (case authzCheck r ActionWrite (JobResource (j_ID job) (j_OwnerPrincipal job) (j_WorkflowID job) []) s of
        (Some resp, s) \<Rightarrow> (resp, s)
      | (None, s) \<Rightarrow>
        let actor = actorFromContext r; chk = denylistOnly (j_Env job) (j_NodeSelector job) (ap_exceptions s) in
        case er_Err chk of
          Some m \<Rightarrow> (RespError 400 (MsgInvalid m),
             snd (audit_Log actor (EventEnvDenylistReject (j_ID job) (er_BlockedKey chk) dryRun) s))
        | None \<Rightarrow>
           let s = audit_overrides r (j_ID job) dryRun (er_OverriddenKeys chk) s in
           if dryRun then
             (RespDryRun (jobToResponse job),
              recordSubmission r ''job'' (j_ID job) True True None
                (snd (audit_Log actor (EventJobDryRun (j_ID job) (j_Command job) (j_OwnerPrincipal job) (ar_operatorCN r)) s)))
           else case Submit save now job (ap_jobs s) of
              (Some ErrJobExists, js) \<Rightarrow> (RespError 409 MsgExists, s\<lparr>ap_jobs := js\<rparr>)
            | (Some e, js) \<Rightarrow> (RespError 500 MsgSubmitFailed, s\<lparr>ap_jobs := js\<rparr>)
            | (None, js) \<Rightarrow>
               (RespJob 201 (jobToResponse (case js_jobs js (j_ID job) of Some j \<Rightarrow> j | None \<Rightarrow> job)),
                recordSubmission r ''job'' (j_ID job) False True None
                  (snd (audit_Log actor (EventJobSubmit (j_ID job) (j_Command job) (auditSafeSecretKeys (j_SecretKeys job))
                     (j_OwnerPrincipal job) (ar_operatorCN r)) (s\<lparr>ap_jobs := js\<rparr>)))))"

definition handleSubmitJob :: "'p saver \<Rightarrow> time \<Rightarrow> api_request \<Rightarrow> string \<Rightarrow> submit_request option \<Rightarrow> 'p api \<Rightarrow> response \<times> 'p api" where
  "handleSubmitJob save now r dryRaw body s =
     (case ParseDryRunParam dryRaw of None \<Rightarrow> (RespError 400 MsgDryRun, s)
      | Some dryRun \<Rightarrow>
     (case body of None \<Rightarrow> (RespError 400 MsgDecode, s)
      | Some q \<Rightarrow>
     (case build_job r (ap_tokenManager s) q of
        Inl m \<Rightarrow> (RespError 400 m, note_rejection r dryRun q s)
      | Inr job \<Rightarrow> submit_checked save now r dryRun job s)))"

section \<open>Reading and cancelling\<close>

definition job_resource :: "job \<Rightarrow> resource" where
  "job_resource j = JobResource (j_ID j) (j_OwnerPrincipal j) (j_WorkflowID j) [j_Shares j]"

definition handleGetJob :: "api_request \<Rightarrow> string \<Rightarrow> 'p api \<Rightarrow> response \<times> 'p api" where
  "handleGetJob r i s =
     (if i = [] then (RespError 400 MsgJobIDRequired, s)
      else case Get i (ap_jobs s) of Inl _ \<Rightarrow> (RespError 404 MsgJobNotFound, s)
      | Inr job \<Rightarrow> (case authzCheck r ActionRead (job_resource job) s of
           (Some resp, s) \<Rightarrow> (resp, s)
         | (None, s) \<Rightarrow> (RespJob 200 (jobToResponse job), s)))"

text \<open>Between the read and the cancellation, and inside \<open>CancelJob\<close>, others may act (\<open>before\<close>, \<open>interf\<close>).\<close>

definition handleCancelJob :: "'p saver \<Rightarrow> time \<Rightarrow> ('p job_store \<Rightarrow> 'p job_store) \<Rightarrow> ('p job_store \<Rightarrow> 'p job_store)
    \<Rightarrow> api_request \<Rightarrow> string \<Rightarrow> 'p api \<Rightarrow> response \<times> 'p api" where
  "handleCancelJob save now before interf r i s =
     (case Get i (ap_jobs s) of Inl _ \<Rightarrow> (RespError 404 MsgJobNotFound, s)
      | Inr job \<Rightarrow> (case authzCheck r ActionCancel (job_resource job) s of
           (Some resp, s) \<Rightarrow> (resp, s)
         | (None, s) \<Rightarrow>
            (case CancelJob save now interf i ''cancelled via API'' (before (ap_jobs s)) of
               (None, js) \<Rightarrow> (RespCancelled i, s\<lparr>ap_jobs := js\<rparr>)
             | (Some ErrJobNotFound, js) \<Rightarrow> (RespError 404 MsgJobNotFound, s\<lparr>ap_jobs := js\<rparr>)
             | (Some ErrJobAlreadyTerminal, js) \<Rightarrow> (RespError 409 MsgAlreadyTerminal, s\<lparr>ap_jobs := js\<rparr>)
             | (Some e, js) \<Rightarrow> (RespError 500 MsgCancelFailed, s\<lparr>ap_jobs := js\<rparr>))))"

text \<open>\<open>strconv.Atoi\<close>: an optional sign and decimal digits, in the range of a 64-bit integer.\<close>

fun digits_value :: "int \<Rightarrow> string \<Rightarrow> int option" where
  "digits_value acc [] = Some acc"
| "digits_value acc (c # cs) =
     (if byte_range 48 57 c then digits_value (10 * acc + (of_char c - 48)) cs else None)"

definition Atoi :: "string \<Rightarrow> int option" where
  "Atoi s =
     (let (neg, ds) = (case s of [] \<Rightarrow> (False, []) | c # cs \<Rightarrow>
             if c = CHR ''-'' then (True, cs) else if c = CHR ''+'' then (False, cs) else (False, s)) in
      if ds = [] then None
      else case digits_value 0 ds of None \<Rightarrow> None
        | Some n \<Rightarrow> let v = (if neg then - n else n) in if - (2 ^ 63) \<le> v \<and> v < 2 ^ 63 then Some v else None)"

definition validJobStatuses :: "string list" where
  "validJobStatuses = [''UNKNOWN'', ''PENDING'', ''DISPATCHING'', ''RUNNING'', ''COMPLETED'', ''FAILED'', ''TIMEOUT'', ''LOST'',
     ''RETRYING'', ''SCHEDULED'', ''CANCELLED'', ''SKIPPED'']"

text \<open>The page and size parameters shared by the list endpoints.\<close>

definition parse_page :: "string \<Rightarrow> string \<Rightarrow> api_message + int \<times> int" where
  "parse_page pageStr sizeStr =
     (let po = (if pageStr = [] then Some 1 else case Atoi pageStr of None \<Rightarrow> None | Some p \<Rightarrow> if p < 1 then None else Some p);
          zo = (if sizeStr = [] then Some 20 else case Atoi sizeStr of None \<Rightarrow> None | Some z \<Rightarrow> if z < 1 \<or> 100 < z then None else Some z) in
      case po of None \<Rightarrow> Inl MsgPage | Some page \<Rightarrow> (case zo of None \<Rightarrow> Inl MsgSize | Some sz \<Rightarrow> Inr (page, sz)))"

text \<open>The slice of a page: \<open>start\<close> and \<open>end\<close> cut at the length.\<close>

definition paginate :: "int \<Rightarrow> int \<Rightarrow> 'a list \<Rightarrow> 'a list" where
  "paginate page sz xs =
     (let total = int (length xs);
          start = (if total < (page - 1) * sz then total else (page - 1) * sz);
          stop = (if total < start + sz then total else start + sz)
      in take (nat (stop - start)) (drop (nat start) xs))"

definition ListAll :: "string list \<Rightarrow> string \<Rightarrow> 'p job_store \<Rightarrow> string + job list" where
  "ListAll ord statusFilter st =
     (case (if statusFilter \<noteq> [] then GetJobsByStatus ord statusFilter st else Inr (ListJobs ord st)) of
        Inl e \<Rightarrow> Inl e
      | Inr js \<Rightarrow> Inr (sort_Slice (\<lambda>a b. j_CreatedAt b < j_CreatedAt a) js))"

definition readable_jobs :: "api_request \<Rightarrow> job list \<Rightarrow> job list" where
  "readable_jobs r js = filter (\<lambda>j. Allow (Some (FromContext (ar_principal r))) ActionRead (Some (job_resource j)) = None) js"

definition handleListJobs :: "string list \<Rightarrow> api_request \<Rightarrow> string \<Rightarrow> string \<Rightarrow> string \<Rightarrow> 'p api \<Rightarrow> response \<times> 'p api" where
  "handleListJobs ord r pageStr sizeStr status s =
     (case parse_page pageStr sizeStr of Inl m \<Rightarrow> (RespError 400 m, s)
      | Inr (page, sz) \<Rightarrow>
        if 10000 < page then (RespError 400 MsgPageTooBig, s)
        else let statusFilter = ToUpper status in
          if statusFilter \<noteq> [] \<and> statusFilter \<notin> set validJobStatuses then (RespError 400 MsgStatusFilter, s)
          else case ListAll ord statusFilter (ap_jobs s) of Inl _ \<Rightarrow> (RespError 500 MsgInternal, s)
            | Inr allJobs \<Rightarrow>
                let permitted = readable_jobs r allJobs in
                (RespJobs (map jobToResponse (paginate page sz permitted)) (length permitted) page sz, s))"

section \<open>Revealing a secret\<close>

record reveal_request =
  rv_Key :: string
  rv_Reason :: string

definition validateRevealSecretRequest :: "reveal_request \<Rightarrow> reveal_reason option" where
  "validateRevealSecretRequest q =
     (if rv_Key q = [] then Some KeyRequired
      else if ContainsAny (rv_Key q) [CHR ''='', NUL] then Some KeyChars
      else if 256 < length (rv_Key q) then Some KeyTooLong
      else if TrimSpace (rv_Reason q) = [] then Some ReasonRequired
      else if 512 < length (rv_Reason q) then Some ReasonTooLong
      else if NUL \<in> set (rv_Reason q) then Some ReasonNUL
      else None)"

definition auditRevealReject :: "string \<Rightarrow> string \<Rightarrow> string \<Rightarrow> reject_reason \<Rightarrow> 'p api \<Rightarrow> 'p api" where
  "auditRevealReject actor i key reason s = snd (audit_Log actor (EventSecretRevealReject i key reason) s)"

definition handleRevealSecret :: "bool \<Rightarrow> time \<Rightarrow> api_request \<Rightarrow> string \<Rightarrow> reveal_request option \<Rightarrow> 'p api \<Rightarrow> response \<times> 'p api" where
  "handleRevealSecret allowed now r i body s =
     (let actor = (case ar_subject r of Some u \<Rightarrow> u | None \<Rightarrow> ''unknown'') in
      if \<not> allowed then (RespError 429 MsgRateLimit, s)
      else if i = [] then (RespError 400 MsgJobIDRequired, auditRevealReject actor [] [] MissingJobID s)
      else case body of None \<Rightarrow> (RespError 400 MsgDecode, auditRevealReject actor i [] InvalidBody s)
      | Some q \<Rightarrow> (case validateRevealSecretRequest q of
          Some m \<Rightarrow> (RespError 400 (MsgReveal m), auditRevealReject actor i (rv_Key q) (InvalidReveal m) s)
        | None \<Rightarrow> (case Get i (ap_jobs s) of
            Inl _ \<Rightarrow> (RespError 404 MsgJobNotFound, auditRevealReject actor i (rv_Key q) RevealJobNotFound s)
          | Inr job \<Rightarrow>
              if \<not> containsSecretKey (j_SecretKeys job) (rv_Key q)
              then (RespError 404 MsgNoSuchSecret, auditRevealReject actor i (rv_Key q) NotDeclaredSecret s)
              else case map_of (j_Env job) (rv_Key q) of
                  None \<Rightarrow> (RespError 500 MsgSecretMissing, auditRevealReject actor i (rv_Key q) SecretNotInEnv s)
                | Some v \<Rightarrow>
                    (case audit_Log actor (EventSecretRevealed i (rv_Key q) (TrimSpace (rv_Reason q)) now (ar_operatorCN r)) s of
                       (False, s) \<Rightarrow> (RespError 500 MsgAuditDown, s)
                     | (True, s) \<Rightarrow> (RespSecret i (rv_Key q) v now actor, s)))))"

section \<open>What handlers leave alone\<close>

lemma audit_Log_frame [simp]:
  "ap_jobs (snd (audit_Log a e s)) = ap_jobs s" "ap_exceptions (snd (audit_Log a e s)) = ap_exceptions s"
  "ap_tokenManager (snd (audit_Log a e s)) = ap_tokenManager s"
  by (auto simp: audit_Log_def split: option.splits)

lemma recordSubmission_frame [simp]:
  "ap_jobs (recordSubmission r knd i d a m s) = ap_jobs s" "ap_audit (recordSubmission r knd i d a m s) = ap_audit s"
  by (auto simp: recordSubmission_def split: option.splits)

lemma note_rejection_frame [simp]: "ap_jobs (note_rejection r d q s) = ap_jobs s"
  by (auto simp: note_rejection_def split: option.splits)

lemma audit_overrides_frame [simp]: "ap_jobs (audit_overrides r i d ks s) = ap_jobs s"
  unfolding audit_overrides_def by (induction ks arbitrary: s) simp_all

lemma authzCheck_cases:
  obtains (allowed) "Allow (Some (FromContext (ar_principal r))) a (Some res) = None" "authzCheck r a res s = (None, s)"
  | (denied) de s' where "Allow (Some (FromContext (ar_principal r))) a (Some res) = Some de"
      "authzCheck r a res s = (Some (RespForbidden (d_Code de)), s')" "ap_jobs s' = ap_jobs s"
  by (cases "Allow (Some (FromContext (ar_principal r))) a (Some res)")
    (simp_all add: authzCheck_def emitAuthzDeny_def Let_def)

section \<open>Submission\<close>

text \<open>The stored form of a new job.\<close>

definition stored_form :: "time \<Rightarrow> job \<Rightarrow> job" where
  "stored_form now j = j\<lparr>j_Status := JobStatusPending, j_CreatedAt := now,
     j_Attempt := (if j_Attempt j = 0 then 1 else j_Attempt j), j_Priority := (if j_Priority j = 0 then 50 else j_Priority j)\<rparr>"

lemma Submit_spec:
  assumes "Submit save now j st = (e, st')"
  shows "e = None \<Longrightarrow> js_jobs st (j_ID j) = None \<and> js_jobs st' = (js_jobs st)(j_ID j \<mapsto> stored_form now j)"
    and "e \<noteq> None \<Longrightarrow> js_jobs st' = js_jobs st"
  using assms by (auto simp: Submit_def stored_form_def Let_def fun_upd_idem split: if_splits prod.splits option.splits)

lemma build_job_Inr:
  assumes "build_job r tokens q = Inr job"
  shows "\<exists>rp sub. job = job_of_request q rp sub (p_ID (FromContext (ar_principal r)))"
    and "validateSubmitRequest q = None" and "validateSecretKeys (sb_Env q) (sb_SecretKeys q) = None"
    and "sb_ID q \<noteq> [] \<and> sb_Command q \<noteq> [] \<and> 0 \<le> sb_TimeoutSeconds q \<and> sb_TimeoutSeconds q \<le> 3600"
    and "(case sb_Priority q of Some p \<Rightarrow> p \<le> 100 | None \<Rightarrow> True)"
  using assms by (auto simp: build_job_def not_less split: if_splits option.splits sum.splits)

lemma job_of_request_simps [simp]:
  "j_ID (job_of_request q rp sub own) = sb_ID q" "j_OwnerPrincipal (job_of_request q rp sub own) = own"
  "j_WorkflowID (job_of_request q rp sub own) = []" "j_Env (job_of_request q rp sub own) = sb_Env q"
  "j_NodeSelector (job_of_request q rp sub own) = sb_NodeSelector q" "j_Attempt (job_of_request q rp sub own) = 0"
  "j_EncryptedEnv (job_of_request q rp sub own) = []" "j_SecretKeys (job_of_request q rp sub own) = sb_SecretKeys q"
  by (simp_all add: job_of_request_def zero_job_def)

text \<open>The path a request takes through the handler: refused before the store, a dry run, or handed to
  the store.\<close>

definition gate :: "api_request \<Rightarrow> env_denylist_exception list \<Rightarrow> bool \<Rightarrow> submit_request option \<Rightarrow> response + job" where
  "gate r exceptions tokens body = (case body of None \<Rightarrow> Inl (RespError 400 MsgDecode)
     | Some q \<Rightarrow> (case build_job r tokens q of Inl m \<Rightarrow> Inl (RespError 400 m)
        | Inr job \<Rightarrow> (case Allow (Some (FromContext (ar_principal r))) ActionWrite
              (Some (JobResource (j_ID job) (j_OwnerPrincipal job) (j_WorkflowID job) [])) of
            Some de \<Rightarrow> Inl (RespForbidden (d_Code de))
          | None \<Rightarrow> (case er_Err (denylistOnly (j_Env job) (j_NodeSelector job) exceptions) of
                Some m \<Rightarrow> Inl (RespError 400 (MsgInvalid m)) | None \<Rightarrow> Inr job))))"

lemma handleSubmitJob_gate:
  assumes "ParseDryRunParam dryRaw = Some dryRun" and "handleSubmitJob save now r dryRaw body s = (resp, s')"
  shows "gate r (ap_exceptions s) (ap_tokenManager s) body = Inl e \<Longrightarrow> resp = e \<and> ap_jobs s' = ap_jobs s"
    and "gate r (ap_exceptions s) (ap_tokenManager s) body = Inr job \<Longrightarrow> dryRun \<Longrightarrow>
       resp = RespDryRun (jobToResponse job) \<and> ap_jobs s' = ap_jobs s"
    and "gate r (ap_exceptions s) (ap_tokenManager s) body = Inr job \<Longrightarrow> \<not> dryRun \<Longrightarrow>
       (\<exists>err. Submit save now job (ap_jobs s) = (err, ap_jobs s') \<and>
         resp = (case err of None \<Rightarrow> RespJob 201 (jobToResponse (stored_form now job))
            | Some ErrJobExists \<Rightarrow> RespError 409 MsgExists | Some _ \<Rightarrow> RespError 500 MsgSubmitFailed))"
proof -
  show "resp = e \<and> ap_jobs s' = ap_jobs s" if "gate r (ap_exceptions s) (ap_tokenManager s) body = Inl e"
    using that assms by (auto simp: gate_def handleSubmitJob_def submit_checked_def authzCheck_def emitAuthzDeny_def Let_def
        split: option.splits sum.splits)
  show "resp = RespDryRun (jobToResponse job) \<and> ap_jobs s' = ap_jobs s"
    if "gate r (ap_exceptions s) (ap_tokenManager s) body = Inr job" and dryRun
    using that assms by (auto simp: gate_def handleSubmitJob_def submit_checked_def authzCheck_def Let_def split: option.splits sum.splits)
  assume g: "gate r (ap_exceptions s) (ap_tokenManager s) body = Inr job" and "\<not> dryRun"
  obtain err js where sub: "Submit save now job (ap_jobs s) = (err, js)" by fastforce
  note post = Submit_spec(1) [OF sub]
  show "\<exists>err. Submit save now job (ap_jobs s) = (err, ap_jobs s') \<and>
         resp = (case err of None \<Rightarrow> RespJob 201 (jobToResponse (stored_form now job))
            | Some ErrJobExists \<Rightarrow> RespError 409 MsgExists | Some _ \<Rightarrow> RespError 500 MsgSubmitFailed)"
    using g assms sub post \<open>\<not> dryRun\<close>
    by (auto simp: gate_def handleSubmitJob_def submit_checked_def authzCheck_def Let_def split: option.splits sum.splits job_error.splits)
qed

lemma gate_Inr:
  assumes "gate r exceptions tokens body = Inr job"
  shows "\<exists>q. body = Some q \<and> build_job r tokens q = Inr job \<and>
    Allow (Some (FromContext (ar_principal r))) ActionWrite (Some (JobResource (j_ID job) (j_OwnerPrincipal job) (j_WorkflowID job) [])) = None \<and>
    env_permitted (sb_Env q) (sb_NodeSelector q) exceptions"
proof -
  obtain q where q: "body = Some q" "build_job r tokens q = Inr job"
      "Allow (Some (FromContext (ar_principal r))) ActionWrite (Some (JobResource (j_ID job) (j_OwnerPrincipal job) (j_WorkflowID job) [])) = None"
      "er_Err (denylistOnly (j_Env job) (j_NodeSelector job) exceptions) = None"
    using assms by (auto simp: gate_def split: option.splits sum.splits)
  from build_job_Inr(1) [OF q(2)] q(4) have "env_permitted (sb_Env q) (sb_NodeSelector q) exceptions"
    by (auto simp: denylistOnly_def denylist_loop_spec)
  with q show ?thesis by blast
qed

lemma constructed_ID: "constructed p \<Longrightarrow> p_ID p \<noteq> []"
  by (induction rule: constructed.induct) (simp_all add: constructor_defs prefix_str_def)

lemma handleSubmitJob_jobs:
  assumes "handleSubmitJob save now r dryRaw body s = (resp, s')"
  obtains (same) "ap_jobs s' = ap_jobs s"
  | (submitted) job err where "ParseDryRunParam dryRaw = Some False" "gate r (ap_exceptions s) (ap_tokenManager s) body = Inr job"
      "Submit save now job (ap_jobs s) = (err, ap_jobs s')"
proof (cases "ParseDryRunParam dryRaw")
  case None
  with assms same show ?thesis by (simp add: handleSubmitJob_def)
next
  case (Some dryRun)
  note g = handleSubmitJob_gate [OF Some assms]
  show ?thesis
  proof (cases "gate r (ap_exceptions s) (ap_tokenManager s) body")
    case (Inl e)
    with g(1) same show ?thesis by blast
  next
    case (Inr job)
    show ?thesis
    proof (cases dryRun)
      case True
      with g(2) Inr same show ?thesis by blast
    next
      case False
      with g(3) [OF Inr] obtain err where "Submit save now job (ap_jobs s) = (err, ap_jobs s')" by blast
      with False Inr Some submitted show ?thesis by simp
    qed
  qed
qed

section \<open>Redaction\<close>

definition public_equal :: "job \<Rightarrow> job \<Rightarrow> bool" where
  "public_equal j j' \<longleftrightarrow> j' = j\<lparr>j_Env := j_Env j'\<rparr> \<and>
     list_all2 (\<lambda>(k, v) (k', v'). k' = k \<and> (k \<notin> set (j_SecretKeys j) \<longrightarrow> v' = v)) (j_Env j) (j_Env j')"

lemma redact_public:
  "list_all2 (\<lambda>(k, v) (k', v'). k' = k \<and> (k \<notin> set ks \<longrightarrow> v' = v)) env env' \<Longrightarrow> redactSecretEnv env' ks = redactSecretEnv env ks"
  by (induction rule: list_all2_induct) (auto simp: redactSecretEnv_def)

lemma public_equal_views:
  assumes "public_equal j j'"
  shows "jobToResponse j' = jobToResponse j" and "job_resource j' = job_resource j" and "j_Status j' = j_Status j"
    and "j_CreatedAt j' = j_CreatedAt j"
proof -
  obtain env where j': "j' = j\<lparr>j_Env := env\<rparr>" and env: "list_all2 (\<lambda>(k, v) (k', v'). k' = k \<and> (k \<notin> set (j_SecretKeys j) \<longrightarrow> v' = v)) (j_Env j) env"
    using assms unfolding public_equal_def by blast
  show "jobToResponse j' = jobToResponse j" "job_resource j' = job_resource j" "j_Status j' = j_Status j" "j_CreatedAt j' = j_CreatedAt j"
    using redact_public [OF env] by (simp_all add: j' jobToResponse_def job_resource_def)
qed

text \<open>Lists of jobs that differ in secrets only are treated alike by sorting, filtering and cutting.\<close>

lemma insert_by_rel:
  assumes "\<And>a b a' b'. R a a' \<Longrightarrow> R b b' \<Longrightarrow> lt a b = lt a' b'" and "list_all2 R xs ys" and "R x y"
  shows "list_all2 R (insert_by lt x xs) (insert_by lt y ys)"
  using assms(2,3) by (induction rule: list_all2_induct) (auto dest: assms(1))

lemma sort_Slice_rel:
  assumes "\<And>a b a' b'. R a a' \<Longrightarrow> R b b' \<Longrightarrow> lt a b = lt a' b'" and "list_all2 R xs ys"
  shows "list_all2 R (sort_Slice lt xs) (sort_Slice lt ys)"
  using assms(2) unfolding sort_Slice_def
proof (induction rule: list_all2_induct)
  case (Cons x xs y ys)
  then show ?case by (simp add: insert_by_rel [of R lt, OF assms(1)])
qed simp

lemma filter_rel: "list_all2 R xs ys \<Longrightarrow> (\<And>x y. R x y \<Longrightarrow> P x = P y) \<Longrightarrow> list_all2 R (filter P xs) (filter P ys)"
  by (induction rule: list_all2_induct) auto

definition jobs_public_equal :: "(string \<rightharpoonup> job) \<Rightarrow> (string \<rightharpoonup> job) \<Rightarrow> bool" where
  "jobs_public_equal m m' \<longleftrightarrow> (\<forall>i. rel_option public_equal (m i) (m' i))"

lemma range_values_rel:
  assumes "jobs_public_equal m m'" and "set ord \<subseteq> dom m"
  shows "list_all2 public_equal (range_values ord m) (range_values ord m')"
proof -
  have "public_equal (the (m i)) (the (m' i))" if "i \<in> set ord" for i
  proof -
    obtain j where "m i = Some j" using \<open>i \<in> set ord\<close> assms(2) by blast
    moreover have "rel_option public_equal (m i) (m' i)" using assms(1) by (simp add: jobs_public_equal_def)
    ultimately show ?thesis by (cases "m' i") auto
  qed
  then show ?thesis by (simp add: range_values_def list_all2_map1 list_all2_map2 list.rel_refl_strong list_all2_same)
qed

lemma ListAll_rel:
  assumes "jobs_public_equal (js_jobs st) (js_jobs st')" and "set ord \<subseteq> dom (js_jobs st)"
  shows "rel_sum (=) (list_all2 public_equal) (ListAll ord f st) (ListAll ord f st')"
proof -
  note rv = range_values_rel [OF assms]
  have "rel_sum (=) (list_all2 public_equal) (if f \<noteq> [] then GetJobsByStatus ord f st else Inr (ListJobs ord st))
      (if f \<noteq> [] then GetJobsByStatus ord f st' else Inr (ListJobs ord st'))"
    using rv by (auto simp: GetJobsByStatus_def ListJobs_def public_equal_views intro!: filter_rel split: option.splits)
  then show ?thesis unfolding ListAll_def
    by (auto elim!: rel_sum.cases intro!: sort_Slice_rel simp: public_equal_views)
qed

lemma responses_rel: "list_all2 public_equal xs ys \<Longrightarrow> map jobToResponse ys = map jobToResponse xs"
  by (induction rule: list_all2_induct) (simp_all add: public_equal_views)

lemma paginate_rel: "list_all2 R xs ys \<Longrightarrow> list_all2 R (paginate page sz xs) (paginate page sz ys)"
  by (auto simp: paginate_def Let_def list_all2_lengthD intro: list_all2_takeI list_all2_dropI)

lemma handleListJobs_rel:
  assumes "jobs_public_equal (js_jobs (ap_jobs s)) (js_jobs (ap_jobs s'))" and "set ord \<subseteq> dom (js_jobs (ap_jobs s))"
  shows "fst (handleListJobs ord r p z f s') = fst (handleListJobs ord r p z f s)"
proof (cases "ListAll ord (ToUpper f) (ap_jobs s)")
  case (Inl e)
  with ListAll_rel [OF assms, of "ToUpper f"] obtain e' where "ListAll ord (ToUpper f) (ap_jobs s') = Inl e'"
    by (auto elim: rel_sum.cases)
  with Inl show ?thesis by (auto simp: handleListJobs_def Let_def split: sum.splits)
next
  case (Inr js)
  with ListAll_rel [OF assms, of "ToUpper f"] obtain js' where r: "ListAll ord (ToUpper f) (ap_jobs s') = Inr js'" "list_all2 public_equal js js'"
    by (auto elim: rel_sum.cases)
  have perm: "list_all2 public_equal (readable_jobs r js) (readable_jobs r js')" unfolding readable_jobs_def
    by (rule filter_rel [OF r(2)]) (simp add: public_equal_views)
  show ?thesis using Inr r(1) responses_rel [OF paginate_rel [OF perm]] list_all2_lengthD [OF perm]
    by (auto simp: handleListJobs_def Let_def split: sum.splits)
qed

section \<open>Pages\<close>

lemma paginate_Suc: "0 < sz \<Longrightarrow> paginate (int n + 1) (int sz) xs = take sz (drop (n * sz) xs)"
proof -
  assume "0 < sz"
  have "paginate (int n + 1) (int sz) xs = take (min (length xs) (min (length xs) (n * sz) + sz) - min (length xs) (n * sz)) (drop (min (length xs) (n * sz)) xs)"
    unfolding paginate_def Let_def min_def by (auto simp: nat_diff_distrib nat_mult_distrib simp flip: of_nat_mult of_nat_add)
  then show ?thesis by (cases "n * sz \<le> length xs") (auto simp: min_def)
qed

lemma pages_cover: "0 < sz \<Longrightarrow> concat (map (\<lambda>n. paginate (int n + 1) (int sz) xs) [0..<m]) = take (m * sz) xs"
proof (induction m)
  case (Suc m)
  then show ?case using take_add [of "m * sz" sz xs] paginate_Suc [of sz m xs] by (simp add: add.commute)
qed simp

section \<open>Properties\<close>


definition demo_request :: submit_request where
  "demo_request = \<lparr>sb_ID = ''j1'', sb_Command = ''python'', sb_Args = [''train.py''], sb_Env = [(''TOKEN'', ''hunter2'')],
     sb_TimeoutSeconds = 60, sb_Limits = \<lparr>lq_MemoryBytes = 0, lq_CPUQuotaUS = 0, lq_CPUPeriodUS = 0\<rparr>, sb_Resources = None,
     sb_Priority = None, sb_RetryPolicy = None, sb_WorkingDir = [], sb_Inputs = [], sb_Outputs = [], sb_NodeSelector = [],
     sb_Service = None, sb_SecretKeys = [''TOKEN'']\<rparr>"

definition demo_api :: "badger api" where
  "demo_api = \<lparr>ap_jobs = demo_start [], ap_audit = Some \<lparr>sk_log = [], sk_faults = []\<rparr>, ap_bus = None,
     ap_tokenManager = True, ap_exceptions = []\<rparr>"

definition demo_caller :: api_request where
  "demo_caller = \<lparr>ar_principal = Some (User ''alice'' ''user''), ar_subject = Some ''alice'', ar_operatorCN = []\<rparr>"

lemma demo_request_valid: "validateSubmitRequest demo_request = None" "validateSecretKeys [(''TOKEN'', ''hunter2'')] [''TOKEN''] = None"
  by (simp_all add: validateSubmitRequest_def demo_request_def forbiddenCommandChars_def ContainsAny_def NUL_def check_limits_def
      validateArtifactBindings_def validateArtifactBindingsCtx_def firstDuplicateBindingName_def validateNodeSelector_def
      validateServiceSpec_def validateSecretKeys_def)

lemma demo_request_simps:
  "sb_ID demo_request = ''j1''" "sb_Command demo_request = ''python''" "sb_TimeoutSeconds demo_request = 60"
  "sb_Env demo_request = [(''TOKEN'', ''hunter2'')]" "sb_SecretKeys demo_request = [''TOKEN'']" "sb_Priority demo_request = None"
  "sb_RetryPolicy demo_request = None" "sb_NodeSelector demo_request = []"
  by (simp_all add: demo_request_def)

lemma demo_caller_simps: "FromContext (ar_principal demo_caller) = User ''alice'' ''user''" "ar_subject demo_caller = Some ''alice''"
    "p_ID (User ''alice'' ''user'') = ''user:alice''"
  by (simp_all add: demo_caller_def FromContext_def User_def prefix_str_def)

lemma demo_gate:
  "gate demo_caller [] True (Some demo_request) = Inr (job_of_request demo_request None ''alice'' ''user:alice'')"
proof -
  have "build_job demo_caller True demo_request = Inr (job_of_request demo_request None ''alice'' ''user:alice'')"
    using demo_request_valid by (simp add: build_job_def demo_request_simps demo_caller_simps convert_retry_def)
  moreover have "Allow (Some (User ''alice'' ''user'')) ActionWrite (Some (JobResource ''j1'' ''user:alice'' [] [])) = None"
    by (simp add: Allow_def IsAdmin_def User_def prefix_str_def JobResource_def LegacyOwnerID_def)
  moreover have "er_Err (denylistOnly [(''TOKEN'', ''hunter2'')] [] []) = None"
    by (simp add: denylistOnly_def envKeyBlocked_def envKeyBlockedPrefixes_def envKeyBlockedExact_def)
  ultimately show ?thesis by (simp add: gate_def demo_request_simps demo_caller_simps)
qed

definition demo_stored :: job where
  "demo_stored = stored_form 10 (job_of_request demo_request None ''alice'' ''user:alice'')"

lemma demo_Submit:
  "\<exists>st. Submit bd_SaveJob 10 (job_of_request demo_request None ''alice'' ''user:alice'') (demo_start []) = (None, st) \<and> js_jobs st = [''j1'' \<mapsto> demo_stored]"
  by (simp add: Submit_def demo_start_def NewJobStore_def bd_SaveJob_def jobOnDiskCopy_def Let_def demo_stored_def stored_form_def demo_request_simps)

lemma demo_submission:
  "\<exists>s'. handleSubmitJob bd_SaveJob 10 demo_caller [] (Some demo_request) demo_api = (RespJob 201 (jobToResponse demo_stored), s') \<and>
     js_jobs (ap_jobs s') = [''j1'' \<mapsto> demo_stored]"
proof -
  obtain resp s' where h: "handleSubmitJob bd_SaveJob 10 demo_caller [] (Some demo_request) demo_api = (resp, s')" by fastforce
  have "ParseDryRunParam [] = Some False" by (simp add: ParseDryRunParam_def)
  from handleSubmitJob_gate(3) [OF this h] demo_gate obtain err where
    e: "Submit bd_SaveJob 10 (job_of_request demo_request None ''alice'' ''user:alice'') (demo_start []) = (err, ap_jobs s')"
      "resp = (case err of None \<Rightarrow> RespJob 201 (jobToResponse demo_stored) | Some ErrJobExists \<Rightarrow> RespError 409 MsgExists | Some _ \<Rightarrow> RespError 500 MsgSubmitFailed)"
    unfolding demo_stored_def by (auto simp: demo_api_def)
  with demo_Submit h show ?thesis by auto
qed


text \<open>The job endpoints only take the job store through its own steps: from a reachable store, with the
  principals the middleware constructs, submission and cancellation lead to a reachable store, so
  that all invariants of the store hold whatever clients send.\<close>

theorem api_keeps_store_reachable:
  assumes "js_reachable save load disk (ap_jobs s)" and "constructed (FromContext (ar_principal r))"
    and others: "\<And>st. js_reachable save load disk st \<Longrightarrow> js_reachable save load disk (before st) \<and> js_reachable save load disk (interf st)"
  shows "js_reachable save load disk (ap_jobs (snd (handleSubmitJob save now r dryRaw body s))) \<and>
    js_reachable save load disk (ap_jobs (snd (handleCancelJob save now before interf r i s)))"
proof
  obtain resp s' where h: "handleSubmitJob save now r dryRaw body s = (resp, s')" by fastforce
  then have "js_reachable save load disk (ap_jobs s')"
  proof (cases rule: handleSubmitJob_jobs)
    case (submitted job err)
    obtain q where "build_job r (ap_tokenManager s) q = Inr job" using gate_Inr [OF submitted(2)] by blast
    from build_job_Inr(1) [OF this] have "fresh_job job" using constructed_ID [OF assms(2)] by (auto simp: fresh_job_def)
    from js_step.submit [OF this submitted(3)] assms(1) show ?thesis by (rule js_reachable.step [rotated])
  qed (simp add: assms(1))
  then show "js_reachable save load disk (ap_jobs (snd (handleSubmitJob save now r dryRaw body s)))" by (simp add: h)
  have cancel: "js_reachable save load disk st'" if "CancelJob save now interf i m (before (ap_jobs s)) = (e, st')" for m e st'
  proof -
    have b: "js_reachable save load disk (before (ap_jobs s))" using others assms(1) by blast
    then have "js_reachable save load disk (interf (before (ap_jobs s)))" using others by blast
    with b that show ?thesis unfolding CancelJob_def
      by (auto split: sum.splits if_splits intro: js_reachable.step js_step.transition js_step.mark_lost)
  qed
  obtain e st' where c: "CancelJob save now interf i ''cancelled via API'' (before (ap_jobs s)) = (e, st')" by fastforce
  show "js_reachable save load disk (ap_jobs (snd (handleCancelJob save now before interf r i s)))"
    using assms(1) c cancel [OF c]
    by (auto simp: handleCancelJob_def authzCheck_def emitAuthzDeny_def Let_def split: sum.splits option.splits job_error.splits)
qed

theorem api_keeps_store_reachable_witness:
  "bd_reachable (ap_jobs (snd (handleSubmitJob bd_SaveJob 10 demo_caller [] (Some demo_request) demo_api)))"
proof -
  have "bd_reachable (ap_jobs demo_api)" unfolding demo_api_def demo_start_def by (simp add: js_reachable.start bd_disk_def)
  moreover have "constructed (FromContext (ar_principal demo_caller))" by (simp add: demo_caller_def FromContext_def c_user)
  ultimately show ?thesis using api_keeps_store_reachable [of bd_SaveJob bd_LoadAllJobs bd_disk demo_api demo_caller id id] by simp
qed

text \<open>C20. A dry run predicts the real request: it never changes the jobs; it is refused exactly when the real
  request is refused before it reaches the store, with the same answer; and when it is accepted, the
  real request is answered by the store's own outcome for the very job shown.\<close>

theorem dry_run_predicts:
  assumes "ParseDryRunParam dryRaw = Some True" and "ParseDryRunParam realRaw = Some False"
    and dry: "handleSubmitJob save now r dryRaw body s = (resp, s')" and real: "handleSubmitJob save now r realRaw body s = (resp2, s2)"
  shows "ap_jobs s' = ap_jobs s \<and>
    ((\<nexists>v. resp = RespDryRun v) \<longrightarrow> resp2 = resp \<and> ap_jobs s2 = ap_jobs s) \<and>
    (\<forall>v. resp = RespDryRun v \<longrightarrow> (\<exists>job err. v = jobToResponse job \<and> Submit save now job (ap_jobs s) = (err, ap_jobs s2) \<and>
       resp2 = (case err of None \<Rightarrow> RespJob 201 (jobToResponse (stored_form now job))
         | Some ErrJobExists \<Rightarrow> RespError 409 MsgExists | Some _ \<Rightarrow> RespError 500 MsgSubmitFailed)))"
proof (cases "gate r (ap_exceptions s) (ap_tokenManager s) body")
  case (Inl e)
  have "\<nexists>v. e = RespDryRun v" using Inl by (auto simp: gate_def split: option.splits sum.splits)
  with handleSubmitJob_gate(1) [OF assms(1) dry Inl] handleSubmitJob_gate(1) [OF assms(2) real Inl] show ?thesis by simp
next
  case (Inr job)
  from handleSubmitJob_gate(2) [OF assms(1) dry Inr] handleSubmitJob_gate(3) [OF assms(2) real Inr] show ?thesis by auto
qed

theorem dry_run_predicts_witness:
  "\<exists>s' s2. handleSubmitJob bd_SaveJob 10 demo_caller ''YES'' (Some demo_request) demo_api =
       (RespDryRun (jobToResponse (job_of_request demo_request None ''alice'' ''user:alice'')), s') \<and> ap_jobs s' = ap_jobs demo_api \<and>
     handleSubmitJob bd_SaveJob 10 demo_caller [] (Some demo_request) demo_api = (RespJob 201 (jobToResponse demo_stored), s2)"
proof -
  have p: "ParseDryRunParam ''YES'' = Some True" "ParseDryRunParam [] = Some False" by code_simp+
  obtain resp s' where d: "handleSubmitJob bd_SaveJob 10 demo_caller ''YES'' (Some demo_request) demo_api = (resp, s')" by fastforce
  obtain s2 where r: "handleSubmitJob bd_SaveJob 10 demo_caller [] (Some demo_request) demo_api = (RespJob 201 (jobToResponse demo_stored), s2)"
    using demo_submission by blast
  have "gate demo_caller (ap_exceptions demo_api) (ap_tokenManager demo_api) (Some demo_request) =
      Inr (job_of_request demo_request None ''alice'' ''user:alice'')" using demo_gate by (simp add: demo_api_def)
  from handleSubmitJob_gate(2) [OF p(1) d this] have "resp = RespDryRun (jobToResponse (job_of_request demo_request None ''alice'' ''user:alice''))" by simp
  with dry_run_predicts [OF p d r] d r show ?thesis by blast
qed

text \<open>C21. Secrets do not leak through the read endpoints: two servers whose jobs differ only in the values of
  declared secret keys answer every read and every listing, for every caller, with the same bytes.\<close>

theorem responses_hide_secrets:
  assumes "jobs_public_equal (js_jobs (ap_jobs s)) (js_jobs (ap_jobs s'))" and "enumerates ord (js_jobs (ap_jobs s))"
  shows "fst (handleGetJob r i s') = fst (handleGetJob r i s) \<and> fst (handleListJobs ord r p z f s') = fst (handleListJobs ord r p z f s)"
proof
  have "rel_option public_equal (js_jobs (ap_jobs s) i) (js_jobs (ap_jobs s') i)" using assms(1) by (simp add: jobs_public_equal_def)
  then show "fst (handleGetJob r i s') = fst (handleGetJob r i s)"
    by (cases rule: option.rel_cases)
      (auto simp: handleGetJob_def Get_def authzCheck_def public_equal_views emitAuthzDeny_def Let_def split: option.splits)
  show "fst (handleListJobs ord r p z f s') = fst (handleListJobs ord r p z f s)"
    using assms by (intro handleListJobs_rel) (simp_all add: enumerates_def)
qed

theorem responses_hide_secrets_witness:
  "fst (handleGetJob demo_caller ''j1'' (demo_api\<lparr>ap_jobs := (demo_start [])\<lparr>js_jobs := [''j1'' \<mapsto> demo_stored\<lparr>j_Env := [(''TOKEN'', ''other'')]\<rparr>]\<rparr>\<rparr>)) =
   fst (handleGetJob demo_caller ''j1'' (demo_api\<lparr>ap_jobs := (demo_start [])\<lparr>js_jobs := [''j1'' \<mapsto> demo_stored]\<rparr>\<rparr>))"
proof -
  let ?j = "demo_stored\<lparr>j_Env := [(''TOKEN'', ''other'')]\<rparr>"
  have "j_Env demo_stored = [(''TOKEN'', ''hunter2'')]" "j_SecretKeys demo_stored = [''TOKEN'']"
    by (simp_all add: demo_stored_def stored_form_def demo_request_simps)
  then have "public_equal demo_stored ?j" by (simp add: public_equal_def)
  then have "jobs_public_equal [''j1'' \<mapsto> demo_stored] [''j1'' \<mapsto> ?j]" by (simp add: jobs_public_equal_def)
  then show ?thesis
    using responses_hide_secrets [of "demo_api\<lparr>ap_jobs := (demo_start [])\<lparr>js_jobs := [''j1'' \<mapsto> demo_stored]\<rparr>\<rparr>"
        "demo_api\<lparr>ap_jobs := (demo_start [])\<lparr>js_jobs := [''j1'' \<mapsto> ?j]\<rparr>\<rparr>" "[''j1'']" demo_caller "''j1''"]
    by (simp add: enumerates_def)
qed

text \<open>The pages of a listing partition what the caller may read: put together in order they are the whole
  list, without loss or repetition, and none is longer than the page size.\<close>

theorem pages_partition:
  assumes "0 < sz" and "length xs \<le> m * sz"
  shows "concat (map (\<lambda>n. paginate (int n + 1) (int sz) xs) [0..<m]) = xs \<and> length (paginate (int n + 1) (int sz) xs) \<le> sz"
  using assms pages_cover [of sz xs m] by (simp add: paginate_Suc)

theorem pages_partition_witness:
  "concat (map (\<lambda>n. paginate (int n + 1) 2 ''abc'') [0..<2]) = ''abc''"
  using pages_partition [of 2 "''abc''" 2] by simp

text \<open>A secret leaves the coordinator only with a trace: when the reveal endpoint answers with a value, the
  key is declared secret on that job and the value is the stored one, a non-blank reason was given,
  and when an audit sink is configured its last entry is the record of this reveal with its actor,
  key and reason; no job is changed.\<close>

theorem reveal_audited:
  assumes "handleRevealSecret allowed now r i body s = (RespSecret i' k v t actor, s')"
  shows "\<exists>job q. body = Some q \<and> allowed \<and> js_jobs (ap_jobs s) i = Some job \<and> i' = i \<and> k = rv_Key q \<and>
    k \<in> set (j_SecretKeys job) \<and> map_of (j_Env job) k = Some v \<and> TrimSpace (rv_Reason q) \<noteq> [] \<and> ap_jobs s' = ap_jobs s \<and>
    (\<forall>sink. ap_audit s = Some sink \<longrightarrow> (\<exists>sink'. ap_audit s' = Some sink' \<and>
       sk_log sink' = sk_log sink @ [(actor, EventSecretRevealed i k (TrimSpace (rv_Reason q)) now (ar_operatorCN r))]))"
  using assms
  by (auto simp: handleRevealSecret_def Let_def Get_def audit_Log_def containsSecretKey_def list_ex_iff validateRevealSecretRequest_def
      split: if_splits option.splits sum.splits prod.splits bool.splits)

theorem reveal_audited_witness:
  "\<exists>s' sink'. handleRevealSecret True 20 demo_caller ''j1'' (Some \<lparr>rv_Key = ''TOKEN'', rv_Reason = ''debug''\<rparr>)
       (demo_api\<lparr>ap_jobs := (demo_start [])\<lparr>js_jobs := [''j1'' \<mapsto> demo_stored]\<rparr>\<rparr>) = (RespSecret ''j1'' ''TOKEN'' ''hunter2'' 20 ''alice'', s') \<and>
     ap_audit s' = Some sink' \<and> length (sk_log sink') = 1"
proof -
  let ?s = "demo_api\<lparr>ap_jobs := (demo_start [])\<lparr>js_jobs := [''j1'' \<mapsto> demo_stored]\<rparr>\<rparr>"
  have "j_Env demo_stored = [(''TOKEN'', ''hunter2'')]" "j_SecretKeys demo_stored = [''TOKEN'']"
    by (simp_all add: demo_stored_def stored_form_def demo_request_simps)
  moreover have "TrimSpace ''debug'' \<noteq> []" by code_simp
  ultimately obtain s' where h: "handleRevealSecret True 20 demo_caller ''j1'' (Some \<lparr>rv_Key = ''TOKEN'', rv_Reason = ''debug''\<rparr>) ?s =
      (RespSecret ''j1'' ''TOKEN'' ''hunter2'' 20 ''alice'', s')"
    by (simp add: handleRevealSecret_def demo_caller_simps Get_def audit_Log_def containsSecretKey_def validateRevealSecretRequest_def
        ContainsAny_def NUL_def demo_api_def Let_def)
  moreover have "ap_audit ?s = Some \<lparr>sk_log = [], sk_faults = []\<rparr>" by (simp add: demo_api_def)
  ultimately show ?thesis using reveal_audited [OF h] by fastforce
qed

text \<open>The status filter admits a word the store does not know: asking for unknown jobs is answered by an
  internal error instead of a listing.\<close>

lemma unknown_filter_internal_error: "fst (handleListJobs ord r [] [] ''unknown'' s) = RespError 500 MsgInternal"
proof -
  have "ToUpper ''unknown'' = ''UNKNOWN''" by code_simp
  then show ?thesis
    by (simp add: handleListJobs_def parse_page_def validJobStatuses_def ListAll_def GetJobsByStatus_def parse_status_def)
qed

end
