(* ===== verification/Artifact_Registry.thy ===== *)
theory Artifact_Registry
  imports Authz Go_Strings Job_Store
begin

text \<open>
  The dataset and model registries: \<open>internal/registry/types.go\<close>, \<open>validate.go\<close>, \<open>store.go\<close> and \<open>badger.go\<close>.
  Records of both kinds share the coordinator's key space under \<open>datasets/<name>/<version>\<close> and
  \<open>models/<name>/<version>\<close>; values are JSON, here the record itself. A transaction's commit may fail.
  A prefix scan visits the keys in the order \<open>ord\<close>, an enumeration of the key space.

  The abstract registry is a pair of directories from names and versions to records. The locale
  \<open>artifact_store\<close> states what the BadgerDB operations of one kind do to its directory; it is interpreted
  on the dataset and on the model operations. The lemmas show that every history of operations of both
  kinds has the results and the effect of the abstract registry, so that the keys of different records
  never collide, and that the newest version found is the newest of exactly the named model.
\<close>

section \<open>Records\<close>

text \<open>A float is not a number, infinite, or finite with its bit pattern.\<close>

datatype float64 = FloatNaN | FloatInf | FloatFinite "64 word"

record dataset_ref =
  rf_Name :: string
  rf_Version :: string

record dataset =
  ds_Name :: string
  ds_Version :: string
  ds_URI :: string
  ds_SizeBytes :: int
  ds_SHA256 :: string
  ds_Tags :: strmap
  ds_CreatedAt :: time
  ds_CreatedBy :: string
  ds_OwnerPrincipal :: string
  ds_Shares :: "share list"

record model =
  md_Name :: string
  md_Version :: string
  md_URI :: string
  md_Framework :: string
  md_SourceJobID :: string
  md_SourceDataset :: dataset_ref
  md_Metrics :: "(string \<times> float64) list"
  md_SizeBytes :: int
  md_SHA256 :: string
  md_Tags :: strmap
  md_CreatedAt :: time
  md_CreatedBy :: string
  md_OwnerPrincipal :: string
  md_Shares :: "share list"

datatype reg_error = ErrNotFound | ErrAlreadyExists | ErrMarshal | ErrUnmarshal | ErrTxn | ErrSliceRange

section \<open>Validation\<close>

datatype reg_invalid = NameRequired | NameTooLong | NameByte | VersionRequired | VersionTooLong | VersionByte
  | URIRequired | URITooLong | URIControl | URIScheme | FrameworkTooLong | FrameworkControl
  | TooManyRegTags | RegTagKeyLength | RegTagKeyChars | RegTagValueTooLong | RegTagValueNUL
  | TooManyMetrics | MetricKeyLength | MetricKeyNUL | MetricNaN | MetricInf | BadSourceDataset reg_invalid

definition isNameByte :: "char \<Rightarrow> bool" where
  "isNameByte b = (byte_range 97 122 b \<or> byte_range 48 57 b \<or> b = CHR ''-'' \<or> b = CHR ''.'' \<or> b = CHR ''_'')"

definition version_byte :: "char \<Rightarrow> bool" where
  "version_byte b = (byte_range 97 122 b \<or> byte_range 65 90 b \<or> byte_range 48 57 b \<or>
     b = CHR ''-'' \<or> b = CHR ''.'' \<or> b = CHR ''_'' \<or> b = CHR ''+'')"

definition reg_ValidateName :: "string \<Rightarrow> reg_invalid option" where
  "reg_ValidateName name =
     (if name = [] then Some NameRequired
      else if 253 < length name then Some NameTooLong
      else if \<not> list_all isNameByte name then Some NameByte
      else None)"

definition ValidateVersion :: "string \<Rightarrow> reg_invalid option" where
  "ValidateVersion v =
     (if v = [] then Some VersionRequired
      else if 64 < length v then Some VersionTooLong
      else if \<not> list_all version_byte v then Some VersionByte
      else None)"

definition ValidateURI :: "string \<Rightarrow> reg_invalid option" where
  "ValidateURI uri =
     (if uri = [] then Some URIRequired
      else if 2048 < length uri then Some URITooLong
      else if list_ex control_byte uri then Some URIControl
      else if \<not> HasPrefix uri ''file://'' \<and> \<not> HasPrefix uri ''s3://'' then Some URIScheme
      else None)"

definition ValidateFramework :: "string \<Rightarrow> reg_invalid option" where
  "ValidateFramework f =
     (if 32 < length f then Some FrameworkTooLong
      else if list_ex control_byte f then Some FrameworkControl
      else None)"

fun reg_tag_loop :: "strmap \<Rightarrow> reg_invalid option" where
  "reg_tag_loop [] = None"
| "reg_tag_loop ((k, v) # tags) =
     (if k = [] \<or> 63 < length k then Some RegTagKeyLength
      else if ContainsAny k [CHR ''='', NUL] then Some RegTagKeyChars
      else if 253 < length v then Some RegTagValueTooLong
      else if NUL \<in> set v then Some RegTagValueNUL
      else reg_tag_loop tags)"

definition ValidateTags :: "strmap \<Rightarrow> reg_invalid option" where
  "ValidateTags tags = (if 32 < length tags then Some TooManyRegTags else reg_tag_loop tags)"

fun metric_loop :: "(string \<times> float64) list \<Rightarrow> reg_invalid option" where
  "metric_loop [] = None"
| "metric_loop ((k, v) # ms) =
     (if k = [] \<or> 63 < length k then Some MetricKeyLength
      else if NUL \<in> set k then Some MetricKeyNUL
      else if v = FloatNaN then Some MetricNaN
      else if v = FloatInf then Some MetricInf
      else metric_loop ms)"

definition ValidateMetrics :: "(string \<times> float64) list \<Rightarrow> reg_invalid option" where
  "ValidateMetrics ms = (if 64 < length ms then Some TooManyMetrics else metric_loop ms)"

fun first_reg_error :: "reg_invalid option list \<Rightarrow> reg_invalid option" where
  "first_reg_error [] = None"
| "first_reg_error (e # es) = (case e of None \<Rightarrow> first_reg_error es | Some x \<Rightarrow> Some x)"

definition ValidateDataset :: "dataset \<Rightarrow> reg_invalid option" where
  "ValidateDataset d = first_reg_error [reg_ValidateName (ds_Name d), ValidateVersion (ds_Version d), ValidateURI (ds_URI d), ValidateTags (ds_Tags d)]"

definition ValidateModel :: "model \<Rightarrow> reg_invalid option" where
  "ValidateModel m = first_reg_error [reg_ValidateName (md_Name m), ValidateVersion (md_Version m), ValidateURI (md_URI m),
     ValidateFramework (md_Framework m), ValidateTags (md_Tags m), ValidateMetrics (md_Metrics m),
     (let r = md_SourceDataset m in
      if rf_Name r \<noteq> [] \<or> rf_Version r \<noteq> []
      then map_option BadSourceDataset (first_reg_error [reg_ValidateName (rf_Name r), ValidateVersion (rf_Version r)]) else None)]"

section \<open>Store\<close>

datatype reg_value = RvDataset dataset | RvModel model

type_synonym reg_kv = "string \<rightharpoonup> reg_value"

definition datasetKeyPrefix :: string where
  "datasetKeyPrefix = ''datasets/''"

definition modelKeyPrefix :: string where
  "modelKeyPrefix = ''models/''"

definition datasetKey :: "string \<Rightarrow> string \<Rightarrow> string" where
  "datasetKey name version = datasetKeyPrefix @ name @ ''/'' @ version"

definition modelKey :: "string \<Rightarrow> string \<Rightarrow> string" where
  "modelKey name version = modelKeyPrefix @ name @ ''/'' @ version"

definition reg_Update :: "bool \<Rightarrow> (reg_kv \<Rightarrow> reg_error option \<times> reg_kv) \<Rightarrow> reg_kv \<Rightarrow> reg_error option \<times> reg_kv" where
  "reg_Update commit body kv = (case body kv of
       (Some e, _) \<Rightarrow> (Some e, kv)
     | (None, kv') \<Rightarrow> if commit then (None, kv') else (Some ErrTxn, kv))"

definition backfillDatasetOwner :: "dataset \<Rightarrow> dataset" where
  "backfillDatasetOwner d = (if ds_OwnerPrincipal d \<noteq> [] then d else d\<lparr>ds_OwnerPrincipal := OwnerFromLegacy (ds_CreatedBy d)\<rparr>)"

definition backfillModelOwner :: "model \<Rightarrow> model" where
  "backfillModelOwner m = (if md_OwnerPrincipal m \<noteq> [] then m else m\<lparr>md_OwnerPrincipal := OwnerFromLegacy (md_CreatedBy m)\<rparr>)"

text \<open>Decoding: a value of the other kind does not decode. Encoding fails on a float JSON cannot express.\<close>

definition decode_dataset :: "reg_value \<Rightarrow> reg_error + dataset" where
  "decode_dataset v = (case v of RvDataset d \<Rightarrow> Inr d | RvModel _ \<Rightarrow> Inl ErrUnmarshal)"

definition decode_model :: "reg_value \<Rightarrow> reg_error + model" where
  "decode_model v = (case v of RvModel m \<Rightarrow> Inr m | RvDataset _ \<Rightarrow> Inl ErrUnmarshal)"

definition marshals :: "model \<Rightarrow> bool" where
  "marshals m = list_all (\<lambda>(k, v). v \<noteq> FloatNaN \<and> v \<noteq> FloatInf) (md_Metrics m)"

definition RegisterDataset :: "bool \<Rightarrow> dataset \<Rightarrow> reg_kv \<Rightarrow> reg_error option \<times> reg_kv" where
  "RegisterDataset commit d = reg_Update commit (\<lambda>kv.
     let key = datasetKey (ds_Name d) (ds_Version d) in
     if kv key \<noteq> None then (Some ErrAlreadyExists, kv) else (None, kv(key \<mapsto> RvDataset d)))"

definition GetDataset :: "string \<Rightarrow> string \<Rightarrow> reg_kv \<Rightarrow> reg_error + dataset" where
  "GetDataset name version kv = (case kv (datasetKey name version) of None \<Rightarrow> Inl ErrNotFound
     | Some v \<Rightarrow> (case decode_dataset v of Inl e \<Rightarrow> Inl e | Inr d \<Rightarrow> Inr (backfillDatasetOwner d)))"

definition DeleteDataset :: "bool \<Rightarrow> string \<Rightarrow> string \<Rightarrow> reg_kv \<Rightarrow> reg_error option \<times> reg_kv" where
  "DeleteDataset commit name version = reg_Update commit (\<lambda>kv.
     let key = datasetKey name version in
     if kv key = None then (Some ErrNotFound, kv) else (None, kv(key := None)))"

definition UpdateDatasetShares :: "bool \<Rightarrow> string \<Rightarrow> string \<Rightarrow> share list \<Rightarrow> reg_kv \<Rightarrow> reg_error option \<times> reg_kv" where
  "UpdateDatasetShares commit name version shares = reg_Update commit (\<lambda>kv.
     let key = datasetKey name version in
     case kv key of None \<Rightarrow> (Some ErrNotFound, kv)
     | Some v \<Rightarrow> (case decode_dataset v of Inl e \<Rightarrow> (Some e, kv)
        | Inr d \<Rightarrow> (None, kv(key \<mapsto> RvDataset (d\<lparr>ds_Shares := shares\<rparr>)))))"

definition RegisterModel :: "bool \<Rightarrow> model \<Rightarrow> reg_kv \<Rightarrow> reg_error option \<times> reg_kv" where
  "RegisterModel commit m = reg_Update commit (\<lambda>kv.
     let key = modelKey (md_Name m) (md_Version m) in
     if kv key \<noteq> None then (Some ErrAlreadyExists, kv)
     else if \<not> marshals m then (Some ErrMarshal, kv) else (None, kv(key \<mapsto> RvModel m)))"

definition GetModel :: "string \<Rightarrow> string \<Rightarrow> reg_kv \<Rightarrow> reg_error + model" where
  "GetModel name version kv = (case kv (modelKey name version) of None \<Rightarrow> Inl ErrNotFound
     | Some v \<Rightarrow> (case decode_model v of Inl e \<Rightarrow> Inl e | Inr m \<Rightarrow> Inr (backfillModelOwner m)))"

definition DeleteModel :: "bool \<Rightarrow> string \<Rightarrow> string \<Rightarrow> reg_kv \<Rightarrow> reg_error option \<times> reg_kv" where
  "DeleteModel commit name version = reg_Update commit (\<lambda>kv.
     let key = modelKey name version in
     if kv key = None then (Some ErrNotFound, kv) else (None, kv(key := None)))"

definition UpdateModelShares :: "bool \<Rightarrow> string \<Rightarrow> string \<Rightarrow> share list \<Rightarrow> reg_kv \<Rightarrow> reg_error option \<times> reg_kv" where
  "UpdateModelShares commit name version shares = reg_Update commit (\<lambda>kv.
     let key = modelKey name version in
     case kv key of None \<Rightarrow> (Some ErrNotFound, kv)
     | Some v \<Rightarrow> (case decode_model v of Inl e \<Rightarrow> (Some e, kv)
        | Inr m \<Rightarrow> if \<not> marshals m then (Some ErrMarshal, kv)
            else (None, kv(key \<mapsto> RvModel (m\<lparr>md_Shares := shares\<rparr>)))))"

section \<open>Scans\<close>

fun load_values :: "(reg_value \<Rightarrow> reg_error + 'r) \<Rightarrow> reg_value list \<Rightarrow> reg_error + 'r list" where
  "load_values dec [] = Inr []"
| "load_values dec (v # vs) = (case dec v of Inl e \<Rightarrow> Inl e
     | Inr r \<Rightarrow> (case load_values dec vs of Inl e \<Rightarrow> Inl e | Inr rs \<Rightarrow> Inr (r # rs)))"

definition reg_scan :: "string list \<Rightarrow> string \<Rightarrow> reg_kv \<Rightarrow> reg_value list" where
  "reg_scan ord prefix kv = range_values (filter (\<lambda>k. HasPrefix k prefix) ord) kv"

definition loadAllDatasets :: "string list \<Rightarrow> reg_kv \<Rightarrow> reg_error + dataset list" where
  "loadAllDatasets ord kv = map_sum id (map backfillDatasetOwner) (load_values decode_dataset (reg_scan ord datasetKeyPrefix kv))"

definition loadModelsPrefixed :: "string list \<Rightarrow> string \<Rightarrow> reg_kv \<Rightarrow> reg_error + model list" where
  "loadModelsPrefixed ord prefix kv = map_sum id (map backfillModelOwner) (load_values decode_model (reg_scan ord prefix kv))"

definition loadAllModels :: "string list \<Rightarrow> reg_kv \<Rightarrow> reg_error + model list" where
  "loadAllModels ord kv = loadModelsPrefixed ord modelKeyPrefix kv"

definition loadAllModelsFor :: "string list \<Rightarrow> string \<Rightarrow> reg_kv \<Rightarrow> reg_error + model list" where
  "loadAllModelsFor ord name kv = loadModelsPrefixed ord (modelKeyPrefix @ name @ ''/'') kv"

text \<open>\<open>int\<close> arithmetic wraps at 64 bits; a slice expression outside its bounds panics.\<close>

definition wrap64 :: "int \<Rightarrow> int" where
  "wrap64 x = (x + 2 ^ 63) mod 2 ^ 64 - 2 ^ 63"

definition pageBounds :: "int \<Rightarrow> int \<Rightarrow> int \<Rightarrow> int \<times> int" where
  "pageBounds page sz n =
     (let sz = (if sz \<le> 0 then 50 else sz); page = (if page < 1 then 1 else page); start = wrap64 (wrap64 (page - 1) * sz) in
      if n \<le> start then (n, n)
      else let stop = wrap64 (start + sz) in (start, if n < stop then n else stop))"

definition slice :: "int \<Rightarrow> int \<Rightarrow> 'a list \<Rightarrow> reg_error + 'a list" where
  "slice a b xs = (if 0 \<le> a \<and> a \<le> b \<and> b \<le> int (length xs) then Inr (take (nat (b - a)) (drop (nat a) xs)) else Inl ErrSliceRange)"

definition page_of :: "int \<Rightarrow> int \<Rightarrow> 'a list \<Rightarrow> reg_error + 'a list \<times> nat" where
  "page_of page sz xs = (let (a, b) = pageBounds page sz (int (length xs)) in map_sum id (\<lambda>ys. (ys, length xs)) (slice a b xs))"

definition ListDatasets :: "string list \<Rightarrow> int \<Rightarrow> int \<Rightarrow> reg_kv \<Rightarrow> reg_error + dataset list \<times> nat" where
  "ListDatasets ord page sz kv = (case loadAllDatasets ord kv of Inl e \<Rightarrow> Inl e
     | Inr ds \<Rightarrow> page_of page sz (sort_Slice (\<lambda>a b. ds_CreatedAt b < ds_CreatedAt a) ds))"

definition ListModels :: "string list \<Rightarrow> int \<Rightarrow> int \<Rightarrow> reg_kv \<Rightarrow> reg_error + model list \<times> nat" where
  "ListModels ord page sz kv = (case loadAllModels ord kv of Inl e \<Rightarrow> Inl e
     | Inr ms \<Rightarrow> page_of page sz (sort_Slice (\<lambda>a b. md_CreatedAt b < md_CreatedAt a) ms))"

definition countPrefix :: "string list \<Rightarrow> string \<Rightarrow> nat" where
  "countPrefix ord prefix = length (filter (\<lambda>k. HasPrefix k prefix) ord)"

definition CountDatasets :: "string list \<Rightarrow> nat" where
  "CountDatasets ord = countPrefix ord datasetKeyPrefix"

definition CountModels :: "string list \<Rightarrow> nat" where
  "CountModels ord = countPrefix ord modelKeyPrefix"

definition ListBySourceJob :: "string list \<Rightarrow> string \<Rightarrow> reg_kv \<Rightarrow> reg_error + model list" where
  "ListBySourceJob ord sourceJobID kv =
     (if sourceJobID = [] then Inr []
      else case loadAllModels ord kv of Inl e \<Rightarrow> Inl e | Inr ms \<Rightarrow> Inr (filter (\<lambda>m. md_SourceJobID m = sourceJobID) ms))"

fun newest :: "model \<Rightarrow> model list \<Rightarrow> model" where
  "newest latest [] = latest"
| "newest latest (m # ms) = newest (if md_CreatedAt latest < md_CreatedAt m then m else latest) ms"

definition LatestModel :: "string list \<Rightarrow> string \<Rightarrow> reg_kv \<Rightarrow> reg_error + model" where
  "LatestModel ord name kv = (case loadAllModelsFor ord name kv of Inl e \<Rightarrow> Inl e
     | Inr [] \<Rightarrow> Inl ErrNotFound | Inr (m # ms) \<Rightarrow> Inr (newest m ms))"

section \<open>Events\<close>

text \<open>The registry events of \<open>events/topics.go\<close>, with the fields of their constructors.\<close>

datatype registry_event = DatasetRegistered string string string string int | DatasetDeleted string string string
  | ModelRegistered string string string string string string string | ModelDeleted string string string

section \<open>Keys\<close>

lemma key_parts:
  assumes "CHR ''/'' \<notin> set n'" and "CHR ''/'' \<notin> set v'" and "n @ CHR ''/'' # v = n' @ CHR ''/'' # v'"
  shows "n = n' \<and> v = v'"
proof -
  have "count_list (n @ CHR ''/'' # v) (CHR ''/'') = 1" using assms by (simp add: count_notin)
  then have "count_list n (CHR ''/'') = 0" by simp
  then have "CHR ''/'' \<notin> set n" by (simp add: count_list_0_iff)
  then have "Split (n @ CHR ''/'' # v) (CHR ''/'') = n # Split v (CHR ''/'')" by (rule Split_append)
  moreover have "Split (n' @ CHR ''/'' # v') (CHR ''/'') = [n', v']" using assms(1,2) by (simp add: Split_append Split_notin)
  ultimately show ?thesis using assms(3) by simp
qed

lemma validated_bytes:
  "reg_ValidateName n = None \<Longrightarrow> CHR ''/'' \<notin> set n" "ValidateVersion v = None \<Longrightarrow> CHR ''/'' \<notin> set v"
  by (auto simp: reg_ValidateName_def ValidateVersion_def isNameByte_def version_byte_def byte_range_def list_all_iff split: if_splits)

lemma first_reg_error_None: "first_reg_error es = None \<longleftrightarrow> (\<forall>e \<in> set es. e = None)"
  by (induction es) (auto split: option.splits)

lemma metric_loop_finite: "metric_loop ms = None \<Longrightarrow> list_all (\<lambda>(k, v). v \<noteq> FloatNaN \<and> v \<noteq> FloatInf) ms"
  by (induction ms rule: metric_loop.induct) (auto split: if_splits)

text \<open>A validated record has a name and a version without separators; a validated model marshals.\<close>

lemma ValidateDataset_None:
  "ValidateDataset d = None \<Longrightarrow> CHR ''/'' \<notin> set (ds_Name d) \<and> CHR ''/'' \<notin> set (ds_Version d)"
  by (simp add: ValidateDataset_def first_reg_error_None validated_bytes del: first_reg_error.simps)

lemma ValidateModel_None:
  "ValidateModel m = None \<Longrightarrow> CHR ''/'' \<notin> set (md_Name m) \<and> CHR ''/'' \<notin> set (md_Version m) \<and> marshals m"
  by (simp add: ValidateModel_def first_reg_error_None validated_bytes ValidateMetrics_def marshals_def metric_loop_finite
      del: first_reg_error.simps split: if_splits)

lemma keys_differ [simp]: "datasetKey n v \<noteq> modelKey n' v'" "modelKey n' v' \<noteq> datasetKey n v"
  by (simp_all add: datasetKey_def modelKey_def datasetKeyPrefix_def modelKeyPrefix_def)

section \<open>The abstract registry\<close>

type_synonym 'r directory = "string \<times> string \<rightharpoonup> 'r"

datatype 'r artifact_op = ArRegister bool 'r | ArDelete bool string string | ArShare bool string string "share list"

definition directory_of :: "(string \<Rightarrow> string \<Rightarrow> reg_kv \<Rightarrow> reg_error + 'r) \<Rightarrow> reg_kv \<Rightarrow> 'r directory" where
  "directory_of get kv = (\<lambda>(n, v). case get n v kv of Inr r \<Rightarrow> Some r | Inl _ \<Rightarrow> None)"

definition commit_with :: "bool \<Rightarrow> 'd \<Rightarrow> 'd \<Rightarrow> reg_error option \<times> 'd" where
  "commit_with commit dir dir' = (if commit then (None, dir') else (Some ErrTxn, dir))"

fun spec_artifact :: "('r \<Rightarrow> string \<times> string) \<Rightarrow> ('r \<Rightarrow> 'r) \<Rightarrow> (share list \<Rightarrow> 'r \<Rightarrow> 'r) \<Rightarrow> 'r artifact_op \<Rightarrow> 'r directory
    \<Rightarrow> reg_error option \<times> 'r directory" where
  "spec_artifact slot fill set_shares (ArRegister c r) dir =
     (if dir (slot r) \<noteq> None then (Some ErrAlreadyExists, dir) else commit_with c dir (dir(slot r \<mapsto> fill r)))"
| "spec_artifact slot fill set_shares (ArDelete c n v) dir =
     (if dir (n, v) = None then (Some ErrNotFound, dir) else commit_with c dir (dir((n, v) := None)))"
| "spec_artifact slot fill set_shares (ArShare c n v shs) dir = (case dir (n, v) of None \<Rightarrow> (Some ErrNotFound, dir)
     | Some r \<Rightarrow> commit_with c dir (dir((n, v) \<mapsto> set_shares shs r)))"

fun run_artifact :: "(bool \<Rightarrow> 'r \<Rightarrow> reg_kv \<Rightarrow> reg_error option \<times> reg_kv) \<Rightarrow> (bool \<Rightarrow> string \<Rightarrow> string \<Rightarrow> reg_kv \<Rightarrow> reg_error option \<times> reg_kv)
    \<Rightarrow> (bool \<Rightarrow> string \<Rightarrow> string \<Rightarrow> share list \<Rightarrow> reg_kv \<Rightarrow> reg_error option \<times> reg_kv) \<Rightarrow> 'r artifact_op \<Rightarrow> reg_kv \<Rightarrow> reg_error option \<times> reg_kv" where
  "run_artifact register delete reshare (ArRegister c r) kv = register c r kv"
| "run_artifact register delete reshare (ArDelete c n v) kv = delete c n v kv"
| "run_artifact register delete reshare (ArShare c n v shs) kv = reshare c n v shs kv"

fun registers :: "('r \<Rightarrow> bool) \<Rightarrow> 'r artifact_op \<Rightarrow> bool" where
  "registers ok (ArRegister c r) = ok r"
| "registers ok op = True"

text \<open>
  What the operations of one kind promise under the invariant \<open>inv\<close>: a failed read means there is no
  record, every operation acts on the directory as specified, and what \<open>view\<close> shows of the other kind stays.
\<close>

locale artifact_store =
  fixes slot :: "'r \<Rightarrow> string \<times> string" and fill :: "'r \<Rightarrow> 'r" and set_shares :: "share list \<Rightarrow> 'r \<Rightarrow> 'r" and ok :: "'r \<Rightarrow> bool"
    and get :: "string \<Rightarrow> string \<Rightarrow> reg_kv \<Rightarrow> reg_error + 'r" and register :: "bool \<Rightarrow> 'r \<Rightarrow> reg_kv \<Rightarrow> reg_error option \<times> reg_kv"
    and delete :: "bool \<Rightarrow> string \<Rightarrow> string \<Rightarrow> reg_kv \<Rightarrow> reg_error option \<times> reg_kv"
    and reshare :: "bool \<Rightarrow> string \<Rightarrow> string \<Rightarrow> share list \<Rightarrow> reg_kv \<Rightarrow> reg_error option \<times> reg_kv"
    and inv :: "reg_kv \<Rightarrow> bool" and view :: "reg_kv \<Rightarrow> 'v"
  assumes get_error: "inv kv \<Longrightarrow> get n v kv = Inl x \<Longrightarrow> x = ErrNotFound"
    and register_law: "inv kv \<Longrightarrow> ok r \<Longrightarrow> register c r kv = (e, kv') \<Longrightarrow>
      inv kv' \<and> view kv' = view kv \<and> spec_artifact slot fill set_shares (ArRegister c r) (directory_of get kv) = (e, directory_of get kv')"
    and delete_law: "inv kv \<Longrightarrow> delete c n v kv = (e, kv') \<Longrightarrow>
      inv kv' \<and> view kv' = view kv \<and> spec_artifact slot fill set_shares (ArDelete c n v) (directory_of get kv) = (e, directory_of get kv')"
    and share_law: "inv kv \<Longrightarrow> reshare c n v shs kv = (e, kv') \<Longrightarrow>
      inv kv' \<and> view kv' = view kv \<and> spec_artifact slot fill set_shares (ArShare c n v shs) (directory_of get kv) = (e, directory_of get kv')"
    and set_shares_twice: "set_shares shs (set_shares shs' r) = set_shares shs r"
begin

lemma run_refines:
  assumes "inv kv" and "registers ok op" and "run_artifact register delete reshare op kv = (e, kv')"
  shows "inv kv' \<and> view kv' = view kv \<and> spec_artifact slot fill set_shares op (directory_of get kv) = (e, directory_of get kv')"
proof (cases op)
  case (ArRegister c r)
  with assms register_law [of kv r c e kv'] show ?thesis by simp
next
  case (ArDelete c n v)
  with assms delete_law [of kv c n v e kv'] show ?thesis by simp
next
  case (ArShare c n v shs)
  with assms share_law [of kv c n v shs e kv'] show ?thesis by simp
qed

text \<open>Short of its deletion a record keeps everything but its shares.\<close>

lemma run_immutable:
  assumes "inv kv" and "registers ok op" and "run_artifact register delete reshare op kv = (e, kv')"
    and "get n v kv = Inr r" and "\<forall>c. op \<noteq> ArDelete c n v"
  shows "\<exists>r'. get n v kv' = Inr r' \<and> set_shares [] r' = set_shares [] r"
proof -
  have "directory_of get kv (n, v) = Some r" using assms(4) by (simp add: directory_of_def)
  moreover have "directory_of get kv' = snd (spec_artifact slot fill set_shares op (directory_of get kv))" using run_refines [OF assms(1-3)] by simp
  ultimately have "\<exists>r'. directory_of get kv' (n, v) = Some r' \<and> set_shares [] r' = set_shares [] r"
    using assms(5) by (cases op) (auto simp: commit_with_def set_shares_twice split: option.splits)
  then show ?thesis by (auto simp: directory_of_def split: sum.splits)
qed

end

section \<open>The BadgerDB operations implement it\<close>

definition slashless :: "string \<Rightarrow> string \<Rightarrow> bool" where
  "slashless n v \<longleftrightarrow> CHR ''/'' \<notin> set n \<and> CHR ''/'' \<notin> set v"

text \<open>Every record stands under its own key, and its name and version have no separator.\<close>

definition reg_inv :: "reg_kv \<Rightarrow> bool" where
  "reg_inv kv \<longleftrightarrow>
     (\<forall>k d. kv k = Some (RvDataset d) \<longrightarrow> k = datasetKey (ds_Name d) (ds_Version d) \<and> slashless (ds_Name d) (ds_Version d)) \<and>
     (\<forall>k m. kv k = Some (RvModel m) \<longrightarrow> k = modelKey (md_Name m) (md_Version m) \<and> slashless (md_Name m) (md_Version m) \<and> marshals m)"

abbreviation datasets_of :: "reg_kv \<Rightarrow> dataset directory" where
  "datasets_of \<equiv> directory_of GetDataset"

abbreviation models_of :: "reg_kv \<Rightarrow> model directory" where
  "models_of \<equiv> directory_of GetModel"

lemma key_eq:
  assumes "slashless n v"
  shows "datasetKey n' v' = datasetKey n v \<longleftrightarrow> n' = n \<and> v' = v" "modelKey n' v' = modelKey n v \<longleftrightarrow> n' = n \<and> v' = v"
  using assms key_parts [of n v n' v'] by (auto simp: datasetKey_def modelKey_def slashless_def)

lemma reg_inv_dataset:
  assumes "reg_inv kv" and "kv (datasetKey n v) = Some w"
  obtains d where "w = RvDataset d" "ds_Name d = n" "ds_Version d = v" "slashless n v"
proof (cases w)
  case (RvDataset d)
  with assms have "datasetKey n v = datasetKey (ds_Name d) (ds_Version d)" "slashless (ds_Name d) (ds_Version d)"
    by (simp_all add: reg_inv_def)
  with RvDataset that show thesis by (auto simp: key_eq)
next
  case (RvModel m)
  with assms show thesis by (metis keys_differ(1) reg_inv_def)
qed

lemma reg_inv_model:
  assumes "reg_inv kv" and "kv (modelKey n v) = Some w"
  obtains m where "w = RvModel m" "md_Name m = n" "md_Version m = v" "slashless n v" "marshals m"
proof (cases w)
  case (RvModel m)
  with assms have "modelKey n v = modelKey (md_Name m) (md_Version m)" "slashless (md_Name m) (md_Version m)" "marshals m"
    by (simp_all add: reg_inv_def)
  with RvModel that show thesis by (auto simp: key_eq)
next
  case (RvDataset d)
  with assms show thesis by (metis keys_differ(2) reg_inv_def)
qed

lemma reg_inv_upd:
  "reg_inv kv \<Longrightarrow> slashless (ds_Name d) (ds_Version d) \<Longrightarrow> reg_inv (kv(datasetKey (ds_Name d) (ds_Version d) \<mapsto> RvDataset d))"
  "reg_inv kv \<Longrightarrow> slashless (md_Name m) (md_Version m) \<Longrightarrow> marshals m \<Longrightarrow> reg_inv (kv(modelKey (md_Name m) (md_Version m) \<mapsto> RvModel m))"
  "reg_inv kv \<Longrightarrow> reg_inv (kv(k := None))"
  by (auto simp: reg_inv_def)

lemma directory_at:
  "datasets_of kv (n, v) = (case kv (datasetKey n v) of Some (RvDataset d) \<Rightarrow> Some (backfillDatasetOwner d) | _ \<Rightarrow> None)"
  "models_of kv (n, v) = (case kv (modelKey n v) of Some (RvModel m) \<Rightarrow> Some (backfillModelOwner m) | _ \<Rightarrow> None)"
  by (auto simp: directory_of_def GetDataset_def GetModel_def decode_dataset_def decode_model_def split: option.splits reg_value.splits)

lemma directory_upd:
  "slashless n v \<Longrightarrow> datasets_of (kv(datasetKey n v \<mapsto> RvDataset d)) = (datasets_of kv)((n, v) \<mapsto> backfillDatasetOwner d)"
  "slashless n v \<Longrightarrow> datasets_of (kv(datasetKey n v := None)) = (datasets_of kv)((n, v) := None)"
  "models_of (kv(datasetKey n v := w)) = models_of kv"
  "slashless n v \<Longrightarrow> models_of (kv(modelKey n v \<mapsto> RvModel m)) = (models_of kv)((n, v) \<mapsto> backfillModelOwner m)"
  "slashless n v \<Longrightarrow> models_of (kv(modelKey n v := None)) = (models_of kv)((n, v) := None)"
  "datasets_of (kv(modelKey n v := w)) = datasets_of kv"
  by (auto simp: fun_eq_iff directory_at key_eq)

lemma backfill_shares:
  "backfillDatasetOwner (d\<lparr>ds_Shares := shs\<rparr>) = (backfillDatasetOwner d)\<lparr>ds_Shares := shs\<rparr>"
  "backfillModelOwner (m\<lparr>md_Shares := shs\<rparr>) = (backfillModelOwner m)\<lparr>md_Shares := shs\<rparr>"
  by (simp_all add: backfillDatasetOwner_def backfillModelOwner_def)

lemma dataset_absent: "reg_inv kv \<Longrightarrow> datasets_of kv (n, v) = None \<longleftrightarrow> kv (datasetKey n v) = None"
  by (auto simp: directory_at split: option.splits reg_value.splits elim: reg_inv_dataset)

lemma model_absent: "reg_inv kv \<Longrightarrow> models_of kv (n, v) = None \<longleftrightarrow> kv (modelKey n v) = None"
  by (auto simp: directory_at split: option.splits reg_value.splits elim: reg_inv_model)

interpretation dataset_registry: artifact_store "\<lambda>d. (ds_Name d, ds_Version d)" backfillDatasetOwner "\<lambda>shs d. d\<lparr>ds_Shares := shs\<rparr>"
    "\<lambda>d. ValidateDataset d = None" GetDataset RegisterDataset DeleteDataset UpdateDatasetShares reg_inv models_of
proof
  fix kv :: reg_kv and n v e assume "reg_inv kv" "GetDataset n v kv = Inl e"
  then show "e = ErrNotFound" by (auto simp: GetDataset_def decode_dataset_def split: option.splits elim: reg_inv_dataset)
next
  fix kv :: reg_kv and r c e kv' assume i: "reg_inv kv" and "ValidateDataset r = None" and R: "RegisterDataset c r kv = (e, kv')"
  then have "slashless (ds_Name r) (ds_Version r)" using ValidateDataset_None by (simp add: slashless_def)
  with i R show "reg_inv kv' \<and> models_of kv' = models_of kv \<and>
      spec_artifact (\<lambda>d. (ds_Name d, ds_Version d)) backfillDatasetOwner (\<lambda>shs d. d\<lparr>ds_Shares := shs\<rparr>) (ArRegister c r) (datasets_of kv) = (e, datasets_of kv')"
    by (auto simp: RegisterDataset_def reg_Update_def Let_def commit_with_def dataset_absent directory_upd reg_inv_upd split: if_splits)
next
  fix kv :: reg_kv and c n v e kv' assume i: "reg_inv kv" and D: "DeleteDataset c n v kv = (e, kv')"
  have "kv (datasetKey n v) \<noteq> None \<Longrightarrow> slashless n v" using i by (auto elim: reg_inv_dataset)
  with i D show "reg_inv kv' \<and> models_of kv' = models_of kv \<and>
      spec_artifact (\<lambda>d. (ds_Name d, ds_Version d)) backfillDatasetOwner (\<lambda>shs d. d\<lparr>ds_Shares := shs\<rparr>) (ArDelete c n v) (datasets_of kv) = (e, datasets_of kv')"
    by (auto simp: DeleteDataset_def reg_Update_def Let_def commit_with_def dataset_absent directory_upd reg_inv_upd split: if_splits)
next
  fix kv :: reg_kv and c n v shs e kv' assume i: "reg_inv kv" and S: "UpdateDatasetShares c n v shs kv = (e, kv')"
  show "reg_inv kv' \<and> models_of kv' = models_of kv \<and>
      spec_artifact (\<lambda>d. (ds_Name d, ds_Version d)) backfillDatasetOwner (\<lambda>shs d. d\<lparr>ds_Shares := shs\<rparr>) (ArShare c n v shs) (datasets_of kv) = (e, datasets_of kv')"
  proof (cases "kv (datasetKey n v)")
    case None
    then have "datasets_of kv (n, v) = None" by (simp add: directory_at)
    with i S None show ?thesis by (auto simp: UpdateDatasetShares_def reg_Update_def)
  next
    case (Some w)
    from reg_inv_dataset [OF i this] obtain d where d: "w = RvDataset d" "ds_Name d = n" "ds_Version d = v" "slashless n v" by metis
    then have "datasets_of kv (n, v) = Some (backfillDatasetOwner d)" using Some by (simp add: directory_at)
    with i S Some d reg_inv_upd(1) [OF i, of "d\<lparr>ds_Shares := shs\<rparr>"] show ?thesis
      by (auto simp: UpdateDatasetShares_def reg_Update_def decode_dataset_def Let_def commit_with_def directory_upd backfill_shares split: if_splits)
  qed
qed simp

interpretation model_registry: artifact_store "\<lambda>m. (md_Name m, md_Version m)" backfillModelOwner "\<lambda>shs m. m\<lparr>md_Shares := shs\<rparr>"
    "\<lambda>m. ValidateModel m = None" GetModel RegisterModel DeleteModel UpdateModelShares reg_inv datasets_of
proof
  fix kv :: reg_kv and n v e assume "reg_inv kv" "GetModel n v kv = Inl e"
  then show "e = ErrNotFound" by (auto simp: GetModel_def decode_model_def split: option.splits elim: reg_inv_model)
next
  fix kv :: reg_kv and r c e kv' assume i: "reg_inv kv" and "ValidateModel r = None" and R: "RegisterModel c r kv = (e, kv')"
  then have "slashless (md_Name r) (md_Version r)" "marshals r" using ValidateModel_None by (simp_all add: slashless_def)
  with i R show "reg_inv kv' \<and> datasets_of kv' = datasets_of kv \<and>
      spec_artifact (\<lambda>m. (md_Name m, md_Version m)) backfillModelOwner (\<lambda>shs m. m\<lparr>md_Shares := shs\<rparr>) (ArRegister c r) (models_of kv) = (e, models_of kv')"
    by (auto simp: RegisterModel_def reg_Update_def Let_def commit_with_def model_absent directory_upd reg_inv_upd split: if_splits)
next
  fix kv :: reg_kv and c n v e kv' assume i: "reg_inv kv" and D: "DeleteModel c n v kv = (e, kv')"
  have "kv (modelKey n v) \<noteq> None \<Longrightarrow> slashless n v" using i by (auto elim: reg_inv_model)
  with i D show "reg_inv kv' \<and> datasets_of kv' = datasets_of kv \<and>
      spec_artifact (\<lambda>m. (md_Name m, md_Version m)) backfillModelOwner (\<lambda>shs m. m\<lparr>md_Shares := shs\<rparr>) (ArDelete c n v) (models_of kv) = (e, models_of kv')"
    by (auto simp: DeleteModel_def reg_Update_def Let_def commit_with_def model_absent directory_upd reg_inv_upd split: if_splits)
next
  fix kv :: reg_kv and c n v shs e kv' assume i: "reg_inv kv" and S: "UpdateModelShares c n v shs kv = (e, kv')"
  show "reg_inv kv' \<and> datasets_of kv' = datasets_of kv \<and>
      spec_artifact (\<lambda>m. (md_Name m, md_Version m)) backfillModelOwner (\<lambda>shs m. m\<lparr>md_Shares := shs\<rparr>) (ArShare c n v shs) (models_of kv) = (e, models_of kv')"
  proof (cases "kv (modelKey n v)")
    case None
    then have "models_of kv (n, v) = None" by (simp add: directory_at)
    with i S None show ?thesis by (auto simp: UpdateModelShares_def reg_Update_def)
  next
    case (Some w)
    from reg_inv_model [OF i this] obtain m where m: "w = RvModel m" "md_Name m = n" "md_Version m = v" "slashless n v" "marshals m" by metis
    then have "models_of kv (n, v) = Some (backfillModelOwner m)" using Some by (simp add: directory_at)
    moreover have "marshals (m\<lparr>md_Shares := shs\<rparr>)" using m(5) by (simp add: marshals_def)
    ultimately show ?thesis using i S Some m reg_inv_upd(2) [OF i, of "m\<lparr>md_Shares := shs\<rparr>"]
      by (auto simp: UpdateModelShares_def reg_Update_def decode_model_def Let_def commit_with_def directory_upd backfill_shares split: if_splits)
  qed
qed simp

section \<open>Histories of both kinds\<close>

datatype reg_op = OnDatasets "dataset artifact_op" | OnModels "model artifact_op"

fun reg_exec :: "reg_op \<Rightarrow> reg_kv \<Rightarrow> reg_error option \<times> reg_kv" where
  "reg_exec (OnDatasets op) kv = run_artifact RegisterDataset DeleteDataset UpdateDatasetShares op kv"
| "reg_exec (OnModels op) kv = run_artifact RegisterModel DeleteModel UpdateModelShares op kv"

fun spec_exec :: "reg_op \<Rightarrow> dataset directory \<times> model directory \<Rightarrow> reg_error option \<times> dataset directory \<times> model directory" where
  "spec_exec (OnDatasets op) (ds, ms) = (case spec_artifact (\<lambda>d. (ds_Name d, ds_Version d)) backfillDatasetOwner (\<lambda>shs d. d\<lparr>ds_Shares := shs\<rparr>) op ds of
     (e, ds') \<Rightarrow> (e, ds', ms))"
| "spec_exec (OnModels op) (ds, ms) = (case spec_artifact (\<lambda>m. (md_Name m, md_Version m)) backfillModelOwner (\<lambda>shs m. m\<lparr>md_Shares := shs\<rparr>) op ms of
     (e, ms') \<Rightarrow> (e, ds, ms'))"

fun run_ops :: "('o \<Rightarrow> 's \<Rightarrow> 'e \<times> 's) \<Rightarrow> 'o list \<Rightarrow> 's \<Rightarrow> 'e list \<times> 's" where
  "run_ops ex [] s = ([], s)"
| "run_ops ex (op # ops) s = (case ex op s of (e, s') \<Rightarrow> case run_ops ex ops s' of (es, s'') \<Rightarrow> (e # es, s''))"

fun reg_validated :: "reg_op \<Rightarrow> bool" where
  "reg_validated (OnDatasets op) = registers (\<lambda>d. ValidateDataset d = None) op"
| "reg_validated (OnModels op) = registers (\<lambda>m. ValidateModel m = None) op"

lemma reg_exec_refines:
  assumes "reg_inv kv" and "reg_validated op" and "reg_exec op kv = (e, kv')"
  shows "reg_inv kv' \<and> spec_exec op (datasets_of kv, models_of kv) = (e, datasets_of kv', models_of kv')"
proof (cases op)
  case (OnDatasets x)
  with assms dataset_registry.run_refines [OF assms(1), of x e kv'] show ?thesis by simp
next
  case (OnModels x)
  with assms model_registry.run_refines [OF assms(1), of x e kv'] show ?thesis by simp
qed

lemma run_ops_refines:
  assumes "reg_inv kv" and "list_all reg_validated ops" and "run_ops reg_exec ops kv = (es, kv')"
  shows "reg_inv kv' \<and> run_ops spec_exec ops (datasets_of kv, models_of kv) = (es, datasets_of kv', models_of kv')"
  using assms
proof (induction ops arbitrary: kv es)
  case (Cons op ops)
  from Cons.prems(3) obtain e kv1 es1 where s: "reg_exec op kv = (e, kv1)" "run_ops reg_exec ops kv1 = (es1, kv')" "es = e # es1"
    by (auto split: prod.splits)
  with reg_exec_refines [OF Cons.prems(1) _ s(1)] Cons.IH [of kv1 es1] Cons.prems(2) show ?case by simp
qed simp

lemma reg_inv_empty [simp]: "reg_inv Map.empty"
  by (simp add: reg_inv_def)

lemma directory_empty [simp]: "datasets_of Map.empty = Map.empty" "models_of Map.empty = Map.empty"
  by (simp_all add: directory_of_def GetDataset_def GetModel_def fun_eq_iff)

section \<open>Scans\<close>

lemma load_values_models:
  "\<forall>w \<in> set ws. \<exists>m. w = RvModel m \<Longrightarrow> \<exists>ms. load_values decode_model ws = Inr ms \<and> ws = map RvModel ms"
proof (induction ws)
  case (Cons w ws)
  then obtain m ms where "w = RvModel m" "load_values decode_model ws = Inr ms" "ws = map RvModel ms" by auto
  moreover have "decode_model (RvModel m) = Inr m" by (simp add: decode_model_def)
  ultimately show ?case by (intro exI [of _ "m # ms"]) simp
qed simp

text \<open>The prefix \<open>models/<name>/\<close> selects the keys of that model alone, even when \<open>name\<close> is not a valid name.\<close>

lemma model_key_prefix:
  assumes "slashless n v"
  shows "HasPrefix (modelKey n v) (modelKeyPrefix @ name @ ''/'') \<longleftrightarrow> n = name"
proof
  assume "HasPrefix (modelKey n v) (modelKeyPrefix @ name @ ''/'')"
  then obtain r where "name @ CHR ''/'' # r = n @ CHR ''/'' # v" by (auto simp: HasPrefix_iff modelKey_def)
  with assms key_parts [of n v name r] show "n = name" by (simp add: slashless_def)
qed (auto simp: HasPrefix_iff modelKey_def)

lemma loadAllModelsFor_set:
  assumes "reg_inv kv" and "enumerates ord kv"
  shows "\<exists>ms. loadAllModelsFor ord name kv = Inr ms \<and> set ms = {m. \<exists>v. GetModel name v kv = Inr m}"
proof -
  let ?ks = "filter (\<lambda>k. HasPrefix k (modelKeyPrefix @ name @ ''/'')) ord"
  have k: "\<exists>m. kv k = Some (RvModel m) \<and> k = modelKey name (md_Version m)" if "k \<in> set ?ks" for k
  proof -
    from that assms(2) obtain w where w: "kv k = Some w" "HasPrefix k (modelKeyPrefix @ name @ ''/'')" by (auto simp: enumerates_def)
    show ?thesis
    proof (cases w)
      case (RvModel m)
      with assms(1) w have "k = modelKey (md_Name m) (md_Version m)" "slashless (md_Name m) (md_Version m)" by (simp_all add: reg_inv_def)
      with w RvModel model_key_prefix show ?thesis by auto
    next
      case (RvDataset d)
      with assms(1) w have "k = datasetKey (ds_Name d) (ds_Version d)" by (simp add: reg_inv_def)
      with w(2) show ?thesis by (auto simp: HasPrefix_iff datasetKey_def datasetKeyPrefix_def modelKeyPrefix_def)
    qed
  qed
  then have "\<forall>w \<in> set (reg_scan ord (modelKeyPrefix @ name @ ''/'') kv). \<exists>m. w = RvModel m"
    by (fastforce simp: reg_scan_def range_values_def)
  from load_values_models [OF this] obtain ms where ms: "load_values decode_model (reg_scan ord (modelKeyPrefix @ name @ ''/'') kv) = Inr ms"
      "reg_scan ord (modelKeyPrefix @ name @ ''/'') kv = map RvModel ms" by blast
  have sm: "RvModel ` set ms = (\<lambda>k. the (kv k)) ` set ?ks"
    using arg_cong [OF ms(2), of set] by (simp add: reg_scan_def range_values_def)
  have "m \<in> set ms \<longleftrightarrow> (\<exists>v. kv (modelKey name v) = Some (RvModel m))" for m
  proof
    assume "m \<in> set ms"
    then have "RvModel m \<in> (\<lambda>k. the (kv k)) ` set ?ks" unfolding sm [symmetric] by simp
    then obtain x where "x \<in> set ?ks" "the (kv x) = RvModel m" by auto
    with k show "\<exists>v. kv (modelKey name v) = Some (RvModel m)" by fastforce
  next
    assume "\<exists>v. kv (modelKey name v) = Some (RvModel m)"
    then obtain v where v: "kv (modelKey name v) = Some (RvModel m)" by blast
    then have "modelKey name v \<in> set ?ks" using assms(2) by (auto simp: enumerates_def HasPrefix_iff modelKey_def)
    then have "RvModel m \<in> (\<lambda>k. the (kv k)) ` set ?ks" using v by force
    then have "RvModel m \<in> RvModel ` set ms" unfolding sm .
    then show "m \<in> set ms" by auto
  qed
  moreover have "GetModel name v kv = Inr m \<longleftrightarrow> (\<exists>m0. kv (modelKey name v) = Some (RvModel m0) \<and> m = backfillModelOwner m0)" for v m
    by (auto simp: GetModel_def decode_model_def split: option.splits reg_value.splits)
  ultimately have "backfillModelOwner ` set ms = {m. \<exists>v. GetModel name v kv = Inr m}" by (simp add: set_eq_iff image_iff) blast
  then show ?thesis using ms(1) by (simp add: loadAllModelsFor_def loadModelsPrefixed_def)
qed

lemma newest_in: "newest m ms \<in> set (m # ms)"
  by (induction ms arbitrary: m) auto

lemma newest_ge: "md_CreatedAt m \<le> md_CreatedAt (newest m ms)"
proof (induction ms arbitrary: m)
  case (Cons y ys)
  show ?case using Cons.IH [of m] Cons.IH [of y] by simp
qed simp

lemma newest_max: "x \<in> set (m # ms) \<Longrightarrow> md_CreatedAt x \<le> md_CreatedAt (newest m ms)"
proof (induction ms arbitrary: m)
  case (Cons y ys)
  show ?case using Cons.IH [of m] Cons.IH [of y] newest_ge [of m ys] newest_ge [of y ys] Cons.prems by auto
qed simp

section \<open>Pages\<close>

lemma wrap64_id: "- (2 ^ 63) \<le> x \<Longrightarrow> x < 2 ^ 63 \<Longrightarrow> wrap64 x = x"
  by (simp add: wrap64_def)

text \<open>The first page never leaves the slice; far enough out the product wraps around and the slice expression panics.\<close>

lemma first_page_in_range:
  assumes "0 < sz" and "sz < 2 ^ 62"
  shows "page_of 1 sz xs = Inr (take (nat sz) xs, length xs)"
proof -
  have "wrap64 sz = sz" "wrap64 0 = 0" using assms by (simp_all add: wrap64_id)
  then show ?thesis using assms
    by (cases xs) (auto simp: page_of_def pageBounds_def slice_def Let_def)
qed

lemma far_page_panics: "page_of (2 ^ 60 + 1) 8 [x] = Inl ErrSliceRange"
  by (simp add: page_of_def pageBounds_def slice_def wrap64_def Let_def)

section \<open>A small registry\<close>

definition demo_dataset :: dataset where
  "demo_dataset = \<lparr>ds_Name = ''iris'', ds_Version = ''v1'', ds_URI = ''s3://b/iris'', ds_SizeBytes = 10, ds_SHA256 = [], ds_Tags = [],
     ds_CreatedAt = 5, ds_CreatedBy = ''alice'', ds_OwnerPrincipal = ''user:alice'', ds_Shares = []\<rparr>"

definition demo_net :: "string \<Rightarrow> string \<Rightarrow> time \<Rightarrow> model" where
  "demo_net n v t = \<lparr>md_Name = n, md_Version = v, md_URI = ''s3://b/net'', md_Framework = ''onnx'', md_SourceJobID = ''j1'',
     md_SourceDataset = \<lparr>rf_Name = ''iris'', rf_Version = ''v1''\<rparr>, md_Metrics = [(''acc'', FloatFinite 1)], md_SizeBytes = 10, md_SHA256 = [],
     md_Tags = [], md_CreatedAt = t, md_CreatedBy = ''alice'', md_OwnerPrincipal = ''user:alice'', md_Shares = []\<rparr>"

definition demo_reg_ops :: "reg_op list" where
  "demo_reg_ops = [OnDatasets (ArRegister True demo_dataset), OnModels (ArRegister True (demo_net ''net'' ''v1'' 6)), OnDatasets (ArDelete True ''iris'' ''v1'')]"

lemma demo_reg_ops_valid: "list_all reg_validated demo_reg_ops"
proof -
  have "ValidateDataset demo_dataset = None" by (simp add: demo_dataset_def) code_simp
  moreover have "ValidateModel (demo_net ''net'' ''v1'' 6) = None" by (simp add: demo_net_def) code_simp
  ultimately show ?thesis by (simp add: demo_reg_ops_def)
qed

section \<open>Properties\<close>

text \<open>C22. The registry keeps its promise as a pair of directories: for every history of registrations of validated
  records, deletions and share updates, of datasets and models in any order and with any commit
  failures, the results are those of the abstract registry and the key space holds exactly its two
  directories. No two records ever share a key, and neither kind disturbs the other.\<close>

theorem registry_refines:
  assumes "list_all reg_validated ops" and "run_ops reg_exec ops Map.empty = (es, kv)"
  shows "run_ops spec_exec ops (Map.empty, Map.empty) = (es, datasets_of kv, models_of kv) \<and> reg_inv kv"
  using run_ops_refines [OF reg_inv_empty assms] by simp

theorem registry_refines_witness:
  "\<exists>es kv. run_ops reg_exec demo_reg_ops Map.empty = (es, kv) \<and> es = [None, None, None] \<and> datasets_of kv = Map.empty \<and>
     models_of kv = [(''net'', ''v1'') \<mapsto> demo_net ''net'' ''v1'' 6]"
proof -
  obtain es kv where h: "run_ops reg_exec demo_reg_ops Map.empty = (es, kv)" by fastforce
  from registry_refines [OF demo_reg_ops_valid h] h show ?thesis
    by (auto simp: demo_reg_ops_def commit_with_def backfillDatasetOwner_def backfillModelOwner_def demo_dataset_def demo_net_def)
qed

text \<open>The newest version of a model is the newest of exactly that model: whatever name is asked for, the
  answer is a stored version of it that no other stored version of it is younger than, and the
  answer is not-found exactly if there is none.\<close>

theorem LatestModel_correct:
  assumes "reg_inv kv" and "enumerates ord kv"
  shows "case LatestModel ord name kv of
      Inr m \<Rightarrow> (\<exists>v. GetModel name v kv = Inr m) \<and> (\<forall>v m'. GetModel name v kv = Inr m' \<longrightarrow> md_CreatedAt m' \<le> md_CreatedAt m)
    | Inl e \<Rightarrow> e = ErrNotFound \<and> (\<forall>v m'. GetModel name v kv \<noteq> Inr m')"
proof -
  obtain ms where ms: "loadAllModelsFor ord name kv = Inr ms" "set ms = {m. \<exists>v. GetModel name v kv = Inr m}"
    using loadAllModelsFor_set [OF assms] by blast
  show ?thesis
  proof (cases ms)
    case Nil
    with ms show ?thesis by (auto simp: LatestModel_def)
  next
    case (Cons m ms')
    with ms newest_in [of m ms'] newest_max [of _ m ms'] show ?thesis by (auto simp: LatestModel_def set_eq_iff)
  qed
qed

theorem LatestModel_correct_witness:
  "\<exists>kv m. kv = [''models/net/v1'' \<mapsto> RvModel (demo_net ''net'' ''v1'' 6), ''models/net2/v1'' \<mapsto> RvModel (demo_net ''net2'' ''v1'' 9)] \<and>
     LatestModel [''models/net/v1'', ''models/net2/v1''] ''net'' kv = Inr m \<and> md_CreatedAt m = 6 \<and> GetModel ''net'' ''v1'' kv = Inr m"
proof -
  let ?kv = "[''models/net/v1'' \<mapsto> RvModel (demo_net ''net'' ''v1'' 6), ''models/net2/v1'' \<mapsto> RvModel (demo_net ''net2'' ''v1'' 9)] :: reg_kv"
  have "reg_inv ?kv" by (simp add: reg_inv_def demo_net_def modelKey_def modelKeyPrefix_def slashless_def marshals_def)
  moreover have "enumerates [''models/net/v1'', ''models/net2/v1''] ?kv" by (auto simp: enumerates_def)
  moreover have "LatestModel [''models/net/v1'', ''models/net2/v1''] ''net'' ?kv = Inr (demo_net ''net'' ''v1'' 6)"
    by (simp add: LatestModel_def loadAllModelsFor_def loadModelsPrefixed_def reg_scan_def range_values_def modelKeyPrefix_def decode_model_def
        backfillModelOwner_def demo_net_def)
  moreover have "GetModel ''net'' ''v1'' ?kv = Inr (demo_net ''net'' ''v1'' 6)"
    by (simp add: GetModel_def modelKey_def modelKeyPrefix_def decode_model_def backfillModelOwner_def demo_net_def)
  ultimately show ?thesis using LatestModel_correct [of ?kv "[''models/net/v1'', ''models/net2/v1'']" "''net''"]
    by (intro exI [of _ ?kv]) (auto simp: demo_net_def)
qed

end
