(* ===== verification/Workflow_Api.thy ===== *)
theory Workflow_Api
  imports Job_Api Workflow_Store Artifact_Registry
begin

text \<open>
  The workflow endpoints of the HTTP API (\<open>internal/api/handlers_workflows.go\<close>) over the workflow store, the
  job store, the submit validators and the authorization rules. Conventions are those of \<open>Job_Api\<close>; the
  workflow handlers use the same audit sink, event bus and job store, and a workflow store beside them;
  the state also has the artifact registry and its published events, which other handlers use.

  The lemmas show what must hold of a submitted workflow and of each of its jobs, that the jobs a
  started workflow creates carry checked environments and the submitter as owner, and that the
  handler, unlike the job handler, lets any priority pass.
\<close>

section \<open>Requests and responses\<close>

record workflow_job_request =
  wq_Name :: string
  wq_Command :: string
  wq_Args :: "string list"
  wq_Env :: strmap
  wq_TimeoutSeconds :: int
  wq_Runtime :: string
  wq_DependsOn :: "string list"
  wq_Condition :: string
  wq_Priority :: "32 word option"
  wq_WorkingDir :: string
  wq_Inputs :: "binding_request list"
  wq_Outputs :: "binding_request list"
  wq_NodeSelector :: strmap
  wq_SecretKeys :: "string list"

record submit_workflow_request =
  sw_ID :: string
  sw_Name :: string
  sw_Priority :: "32 word option"
  sw_Jobs :: "workflow_job_request list"
  sw_Tags :: strmap

record workflow_job_response =
  wr_Name :: string
  wr_Command :: string
  wr_Args :: "string list"
  wr_Env :: strmap
  wr_TimeoutSeconds :: int
  wr_DependsOn :: "string list"
  wr_Condition :: string
  wr_JobID :: string
  wr_JobStatus :: string
  wr_SecretKeys :: "string list"

record workflow_response =
  wp_ID :: string
  wp_Name :: string
  wp_Status :: string
  wp_Jobs :: "workflow_job_response list"
  wp_CreatedAt :: time
  wp_StartedAt :: "time option"
  wp_FinishedAt :: "time option"
  wp_Error :: string
  wp_OwnerPrincipal :: string

datatype tag_reason = TooManyTags | EmptyTagKey | TagKeyTooLong | TagValueTooLong | TagKeyControl | TagValueControl | TagReserved

datatype job_problem = NoCommand | BadCommand | BadTimeout | BadWorkingDir | BadField invalid

datatype wf_message = WfDryRun | WfDecode | WfIDRequired | WfNoJobs | WfTooManyJobs | WfJobNameRequired
  | WfJob string job_problem | WfTags tag_reason | WfDAG dag_error | WfExists | WfSubmitFailed | WfStartFailed
  | WfNotFound | WfTerminal | WfCancelFailed | WfPaging api_message

datatype wf_reply = WfError nat wf_message | WfForbidden deny_code | WfWorkflow nat workflow_response | WfDry workflow_response
  | WfCancelled string | WfList "workflow_response list" nat int int

record ('p, 'q) wapi =
  wa_api :: "'p api"
  wa_workflows :: "'q workflow_store"
  wa_registry :: "reg_kv option"
  wa_feed :: "registry_event list"

section \<open>Helpers\<close>

fun tag_loop :: "strmap \<Rightarrow> tag_reason option" where
  "tag_loop [] = None"
| "tag_loop ((k, v) # tags) =
     (if k = [] then Some EmptyTagKey
      else if 128 < length k then Some TagKeyTooLong
      else if 128 < length v then Some TagValueTooLong
      else if list_ex control_byte k then Some TagKeyControl
      else if list_ex control_byte v then Some TagValueControl
      else if HasPrefix k ''system.'' then Some TagReserved
      else tag_loop tags)"

definition validateWorkflowTags :: "strmap \<Rightarrow> tag_reason option" where
  "validateWorkflowTags tags = (if tags = [] then None else if 16 < length tags then Some TooManyTags else tag_loop tags)"

definition parseCondition :: "string \<Rightarrow> dependency_condition" where
  "parseCondition s =
     (let v = ToLower s in
      if v = ''on_failure'' then DependencyOnFailure
      else if v = ''on_complete'' then DependencyOnComplete
      else DependencyOnSuccess)"

fun WorkflowStatus_String :: "workflow_status \<Rightarrow> string" where
  "WorkflowStatus_String WorkflowStatusPending = ''pending''"
| "WorkflowStatus_String WorkflowStatusRunning = ''running''"
| "WorkflowStatus_String WorkflowStatusCompleted = ''completed''"
| "WorkflowStatus_String WorkflowStatusFailed = ''failed''"
| "WorkflowStatus_String WorkflowStatusCancelled = ''cancelled''"

fun DependencyCondition_String :: "dependency_condition \<Rightarrow> string" where
  "DependencyCondition_String DependencyOnSuccess = ''on_success''"
| "DependencyCondition_String DependencyOnFailure = ''on_failure''"
| "DependencyCondition_String DependencyOnComplete = ''on_complete''"
| "DependencyCondition_String (DependencyOther n) = ''unknown''"

text \<open>The job store is optional: a dry run passes none. Times stand for their renderings.\<close>

definition child_response :: "'p job_store option \<Rightarrow> workflow_job \<Rightarrow> workflow_job_response" where
  "child_response jobs wj = \<lparr>wr_Name = wj_Name wj, wr_Command = wj_Command wj, wr_Args = wj_Args wj,
     wr_Env = redactSecretEnv (wj_Env wj) (wj_SecretKeys wj), wr_TimeoutSeconds = wj_TimeoutSeconds wj,
     wr_DependsOn = wj_DependsOn wj, wr_Condition = DependencyCondition_String (wj_Condition wj), wr_JobID = wj_JobID wj,
     wr_JobStatus = (case jobs of None \<Rightarrow> []
        | Some st \<Rightarrow> if wj_JobID wj = [] then []
            else case Get (wj_JobID wj) st of Inr j \<Rightarrow> JobStatus_String (j_Status j) | Inl _ \<Rightarrow> []),
     wr_SecretKeys = wj_SecretKeys wj\<rparr>"

definition workflowToResponse :: "workflow \<Rightarrow> 'p job_store option \<Rightarrow> workflow_response" where
  "workflowToResponse flow jobs = \<lparr>wp_ID = w_ID flow, wp_Name = w_Name flow, wp_Status = WorkflowStatus_String (w_Status flow),
     wp_Jobs = map (child_response jobs) (w_Jobs flow), wp_CreatedAt = w_CreatedAt flow, wp_StartedAt = zero_opt (w_StartedAt flow),
     wp_FinishedAt = zero_opt (w_FinishedAt flow), wp_Error = w_Error flow, wp_OwnerPrincipal = w_OwnerPrincipal flow\<rparr>"

section \<open>Submission\<close>

text \<open>The checks on one job before its environment, and the check after it.\<close>

definition check_shape :: "workflow_job_request \<Rightarrow> wf_message option" where
  "check_shape j =
     (if wq_Name j = [] then Some WfJobNameRequired
      else map_option (WfJob (wq_Name j)) (first_failure [
        if wq_Command j = [] then Some NoCommand else None,
        if ContainsAny (wq_Command j) forbiddenCommandChars then Some BadCommand else None,
        if wq_TimeoutSeconds j < 0 \<or> 3600 < wq_TimeoutSeconds j then Some BadTimeout else None,
        if 512 < length (wq_WorkingDir j) \<or> NUL \<in> set (wq_WorkingDir j) then Some BadWorkingDir else None,
        map_option BadField (validateArtifactBindingsCtx ''inputs'' (wq_Inputs j) True True),
        map_option BadField (validateArtifactBindings ''outputs'' (wq_Outputs j) False),
        let dup = firstDuplicateBindingName (wq_Inputs j) in if dup \<noteq> [] then Some (BadField (DuplicateBinding ''inputs'' dup)) else None,
        let dup = firstDuplicateBindingName (wq_Outputs j) in if dup \<noteq> [] then Some (BadField (DuplicateBinding ''outputs'' dup)) else None,
        map_option BadField (validateNodeSelector (wq_NodeSelector j))]))"

fun check_jobs :: "api_request \<Rightarrow> bool \<Rightarrow> string \<Rightarrow> workflow_job_request list \<Rightarrow> 'p api \<Rightarrow> wf_message option \<times> 'p api" where
  "check_jobs r dryRun i [] s = (None, s)"
| "check_jobs r dryRun i (j # js) s =
     (case check_shape j of Some m \<Rightarrow> (Some m, s)
      | None \<Rightarrow>
        let res = validateEnvMap (wq_Env j) (wq_NodeSelector j) (ap_exceptions s) in
        case er_Err res of
          Some m \<Rightarrow> (Some (WfJob (wq_Name j) (BadField m)),
             if er_BlockedKey res \<noteq> []
             then snd (audit_Log (actorFromContext r) (EventWorkflowEnvReject i (wq_Name j) (er_BlockedKey res) dryRun) s) else s)
        | None \<Rightarrow>
            let s = fold (\<lambda>k s. snd (audit_Log (actorFromContext r) (EventWorkflowEnvOverride i (wq_Name j) k dryRun) s))
                      (er_OverriddenKeys res) s in
            (case validateSecretKeys (wq_Env j) (wq_SecretKeys j) of
               Some m \<Rightarrow> (Some (WfJob (wq_Name j) (BadField m)), s)
             | None \<Rightarrow> check_jobs r dryRun i js s))"

definition convert_job :: "workflow_job_request \<Rightarrow> workflow_job" where
  "convert_job j = zero_workflow_job\<lparr>wj_Name := wq_Name j, wj_Command := wq_Command j, wj_Args := wq_Args j, wj_Env := wq_Env j,
     wj_TimeoutSeconds := wq_TimeoutSeconds j, wj_Runtime := wq_Runtime j, wj_DependsOn := wq_DependsOn j,
     wj_Condition := parseCondition (wq_Condition j), wj_WorkingDir := wq_WorkingDir j, wj_Inputs := convertBindings (wq_Inputs j),
     wj_Outputs := convertBindings (wq_Outputs j), wj_NodeSelector := wq_NodeSelector j, wj_SecretKeys := wq_SecretKeys j,
     wj_Priority := (case wq_Priority j of None \<Rightarrow> 0 | Some p \<Rightarrow> p)\<rparr>"

definition build_workflow :: "api_request \<Rightarrow> submit_workflow_request \<Rightarrow> workflow" where
  "build_workflow r q = zero_workflow\<lparr>w_ID := sw_ID q, w_Name := sw_Name q, w_Jobs := map convert_job (sw_Jobs q),
     w_OwnerPrincipal := p_ID (FromContext (ar_principal r)), w_Tags := sw_Tags q,
     w_Priority := (case sw_Priority q of None \<Rightarrow> 0 | Some p \<Rightarrow> p)\<rparr>"

text \<open>The answer to an error of the store's \<open>Submit\<close>: the graph errors the handler lists are the client's
  fault, a malformed reference is not on the list.\<close>

definition submit_error_reply :: "workflow_error \<Rightarrow> wf_reply" where
  "submit_error_reply e = (case e of
      ErrWorkflowExists \<Rightarrow> WfError 409 WfExists
    | ErrWorkflowDAG (ErrDAGFromShape a b) \<Rightarrow> WfError 500 WfSubmitFailed
    | ErrWorkflowDAG d \<Rightarrow> WfError 400 (WfDAG d)
    | _ \<Rightarrow> WfError 500 WfSubmitFailed)"

text \<open>The handler from the authorization check on.\<close>

definition submit_workflow_checked :: "'p saver \<Rightarrow> 'q wsaver \<Rightarrow> (string \<Rightarrow> job_error \<Rightarrow> string) \<Rightarrow> time \<Rightarrow> api_request \<Rightarrow> bool
    \<Rightarrow> workflow \<Rightarrow> ('p, 'q) wapi \<Rightarrow> wf_reply \<times> ('p, 'q) wapi" where
  "submit_workflow_checked save wsave render now r dryRun flow s =
     (case Allow (Some (FromContext (ar_principal r))) ActionWrite (Some (WorkflowResource (w_ID flow) (w_OwnerPrincipal flow) [])) of
        Some de \<Rightarrow> (WfForbidden (d_Code de), s\<lparr>wa_api := emitAuthzDeny r de (WorkflowResource (w_ID flow) (w_OwnerPrincipal flow) []) (wa_api s)\<rparr>)
      | None \<Rightarrow>
        if dryRun then
          (case ValidateDAG (w_Jobs flow) of
             Some e \<Rightarrow> (WfError 400 (WfDAG e), s)
           | None \<Rightarrow> (WfDry (workflowToResponse flow (None :: 'p job_store option)),
               s\<lparr>wa_api := recordSubmission r ''workflow'' (w_ID flow) True True None
                  (snd (audit_Log (actorFromContext r) (EventWorkflowDryRun (w_ID flow) (w_Name flow) (length (w_Jobs flow)) (w_OwnerPrincipal flow)) (wa_api s)))\<rparr>))
        else (case WorkflowSubmit wsave now flow (wa_workflows s) of
            (Some e, ws) \<Rightarrow> (submit_error_reply e, s\<lparr>wa_workflows := ws\<rparr>)
          | (None, ws) \<Rightarrow>
             (case Start save wsave render now (w_ID flow) ws (ap_jobs (wa_api s)) of
                (Some e, ws', js) \<Rightarrow> (WfError 500 WfStartFailed, s\<lparr>wa_workflows := ws', wa_api := (wa_api s)\<lparr>ap_jobs := js\<rparr>\<rparr>)
              | (None, ws', js) \<Rightarrow>
                  (WfWorkflow 201 (workflowToResponse (case WorkflowGet (w_ID flow) ws' of Inr w \<Rightarrow> w | Inl _ \<Rightarrow> flow) (Some js)),
                   s\<lparr>wa_workflows := ws', wa_api := recordSubmission r ''workflow'' (w_ID flow) False True None ((wa_api s)\<lparr>ap_jobs := js\<rparr>)\<rparr>))))"

definition handleSubmitWorkflow :: "'p saver \<Rightarrow> 'q wsaver \<Rightarrow> (string \<Rightarrow> job_error \<Rightarrow> string) \<Rightarrow> time \<Rightarrow> api_request \<Rightarrow> string
    \<Rightarrow> submit_workflow_request option \<Rightarrow> ('p, 'q) wapi \<Rightarrow> wf_reply \<times> ('p, 'q) wapi" where
  "handleSubmitWorkflow save wsave render now r dryRaw body s =
     (case ParseDryRunParam dryRaw of None \<Rightarrow> (WfError 400 WfDryRun, s)
      | Some dryRun \<Rightarrow>
     (case body of None \<Rightarrow> (WfError 400 WfDecode, s)
      | Some q \<Rightarrow>
        if sw_ID q = [] then (WfError 400 WfIDRequired, s)
        else if sw_Jobs q = [] then (WfError 400 WfNoJobs, s)
        else if 100 < length (sw_Jobs q) then (WfError 400 WfTooManyJobs, s)
        else (case check_jobs r dryRun (sw_ID q) (sw_Jobs q) (wa_api s) of
            (Some m, a) \<Rightarrow> (WfError 400 m, s\<lparr>wa_api := a\<rparr>)
          | (None, a) \<Rightarrow>
             (case validateWorkflowTags (sw_Tags q) of
                Some m \<Rightarrow> (WfError 400 (WfTags m), s\<lparr>wa_api := a\<rparr>)
              | None \<Rightarrow> submit_workflow_checked save wsave render now r dryRun (build_workflow r q) (s\<lparr>wa_api := a\<rparr>)))))"

section \<open>Reading, listing, cancelling\<close>

definition workflow_resource :: "workflow \<Rightarrow> resource" where
  "workflow_resource flow = WorkflowResource (w_ID flow) (w_OwnerPrincipal flow) [w_Shares flow]"

definition handleGetWorkflow :: "api_request \<Rightarrow> string \<Rightarrow> ('p, 'q) wapi \<Rightarrow> wf_reply \<times> ('p, 'q) wapi" where
  "handleGetWorkflow r i s =
     (case WorkflowGet i (wa_workflows s) of Inl _ \<Rightarrow> (WfError 404 WfNotFound, s)
      | Inr flow \<Rightarrow> (case Allow (Some (FromContext (ar_principal r))) ActionRead (Some (workflow_resource flow)) of
           Some de \<Rightarrow> (WfForbidden (d_Code de), s\<lparr>wa_api := emitAuthzDeny r de (workflow_resource flow) (wa_api s)\<rparr>)
         | None \<Rightarrow> (WfWorkflow 200 (workflowToResponse flow (Some (ap_jobs (wa_api s)))), s)))"

definition handleListWorkflows :: "string list \<Rightarrow> api_request \<Rightarrow> string \<Rightarrow> string \<Rightarrow> ('p, 'q) wapi \<Rightarrow> wf_reply \<times> ('p, 'q) wapi" where
  "handleListWorkflows ord r pageStr sizeStr s =
     (case parse_page pageStr sizeStr of Inl m \<Rightarrow> (WfError 400 (WfPaging m), s)
      | Inr (page, sz) \<Rightarrow>
        let permitted = filter (\<lambda>flow. Allow (Some (FromContext (ar_principal r))) ActionRead (Some (workflow_resource flow)) = None)
              (sort_Slice (\<lambda>a b. w_CreatedAt b < w_CreatedAt a) (WorkflowList ord (wa_workflows s))) in
        (WfList (map (\<lambda>flow. workflowToResponse flow (Some (ap_jobs (wa_api s)))) (paginate page sz permitted)) (length permitted) page sz, s))"

definition handleCancelWorkflow :: "'p saver \<Rightarrow> 'q wsaver \<Rightarrow> time \<Rightarrow> api_request \<Rightarrow> string \<Rightarrow> ('p, 'q) wapi \<Rightarrow> wf_reply \<times> ('p, 'q) wapi" where
  "handleCancelWorkflow save wsave now r i s =
     (case WorkflowGet i (wa_workflows s) of Inl _ \<Rightarrow> (WfError 404 WfNotFound, s)
      | Inr flow \<Rightarrow> (case Allow (Some (FromContext (ar_principal r))) ActionCancel (Some (workflow_resource flow)) of
           Some de \<Rightarrow> (WfForbidden (d_Code de), s\<lparr>wa_api := emitAuthzDeny r de (workflow_resource flow) (wa_api s)\<rparr>)
         | None \<Rightarrow>
            (case Cancel save wsave now i (wa_workflows s) (ap_jobs (wa_api s)) of
               (eo, ws, js) \<Rightarrow>
                 ((case eo of None \<Rightarrow> WfCancelled i
                    | Some ErrWorkflowNotFound \<Rightarrow> WfError 404 WfNotFound
                    | Some ErrWorkflowAlreadyTerminal \<Rightarrow> WfError 409 WfTerminal
                    | Some _ \<Rightarrow> WfError 500 WfCancelFailed),
                  s\<lparr>wa_workflows := ws, wa_api := (wa_api s)\<lparr>ap_jobs := js\<rparr>\<rparr>))))"

section \<open>Checks\<close>

definition job_checked :: "env_denylist_exception list \<Rightarrow> workflow_job_request \<Rightarrow> bool" where
  "job_checked exceptions j \<longleftrightarrow> check_shape j = None \<and> length (wq_Env j) \<le> 128 \<and> env_shape (wq_Env j) = None \<and>
     env_permitted (wq_Env j) (wq_NodeSelector j) exceptions \<and> set (wq_SecretKeys j) \<subseteq> fst ` set (wq_Env j)"

lemma fold_audit_frame:
  "ap_jobs (fold (\<lambda>k s. snd (audit_Log a (e k) s)) ks s) = ap_jobs s"
  "ap_exceptions (fold (\<lambda>k s. snd (audit_Log a (e k) s)) ks s) = ap_exceptions s"
  by (induction ks arbitrary: s) simp_all

lemma check_jobs_frame: "check_jobs r d i js s = (m, s') \<Longrightarrow> ap_jobs s' = ap_jobs s \<and> ap_exceptions s' = ap_exceptions s"
proof (induction js arbitrary: s)
  case (Cons j js)
  then show ?case by (auto simp: Let_def fold_audit_frame split: option.splits if_splits)
qed simp

lemma check_jobs_None:
  "check_jobs r d i js s = (None, s') \<Longrightarrow> \<forall>j \<in> set js. job_checked (ap_exceptions s) j"
proof (induction js arbitrary: s)
  case (Cons j js)
  let ?res = "validateEnvMap (wq_Env j) (wq_NodeSelector j) (ap_exceptions s)"
  let ?s = "fold (\<lambda>k s. snd (audit_Log (actorFromContext r) (EventWorkflowEnvOverride i (wq_Name j) k d) s)) (er_OverriddenKeys ?res) s"
  have r: "check_shape j = None" "er_Err ?res = None" "validateSecretKeys (wq_Env j) (wq_SecretKeys j) = None" "check_jobs r d i js ?s = (None, s')"
    using Cons.prems by (auto simp: Let_def split: option.splits)
  from r(2) have "length (wq_Env j) \<le> 128" "env_shape (wq_Env j) = None" "env_permitted (wq_Env j) (wq_NodeSelector j) (ap_exceptions s)"
    by (auto simp: validateEnvMap_def env_loop_spec split: if_splits)
  with r(1,3) have "job_checked (ap_exceptions s) j" by (simp add: job_checked_def validateSecretKeys_None)
  moreover from Cons.IH [OF r(4)] have "\<forall>j \<in> set js. job_checked (ap_exceptions s) j" by (simp add: fold_audit_frame)
  ultimately show ?case by simp
qed simp

lemma WorkflowSubmit_None:
  assumes "WorkflowSubmit wsave now w ws = (None, ws')"
  shows "w_Jobs w \<noteq> [] \<and> ValidateDAG (w_Jobs w) = None \<and> ws_workflows ws (w_ID w) = None \<and>
    ws_workflows ws' = (ws_workflows ws)(w_ID w \<mapsto> w\<lparr>w_Status := WorkflowStatusPending, w_CreatedAt := now\<rparr>)"
  using assms by (auto simp: WorkflowSubmit_def Let_def split: if_splits option.splits prod.splits)

lemma WorkflowSubmit_Some:
  "WorkflowSubmit wsave now w ws = (Some e, ws') \<Longrightarrow> ws_workflows ws' = ws_workflows ws"
  by (auto simp: WorkflowSubmit_def Let_def fun_upd_idem split: if_splits option.splits prod.splits)

lemma handleSubmitWorkflow_checked:
  assumes "handleSubmitWorkflow save wsave render now r dryRaw body s = (reply, s')"
  obtains (refused) m where "reply = WfError 400 m" "wa_workflows s' = wa_workflows s" "ap_jobs (wa_api s') = ap_jobs (wa_api s)"
  | (passed) q dryRun a where "body = Some q" "ParseDryRunParam dryRaw = Some dryRun" "sw_ID q \<noteq> []" "length (sw_Jobs q) \<le> 100"
      "\<forall>j \<in> set (sw_Jobs q). job_checked (ap_exceptions (wa_api s)) j" "validateWorkflowTags (sw_Tags q) = None"
      "ap_jobs a = ap_jobs (wa_api s)"
      "submit_workflow_checked save wsave render now r dryRun (build_workflow r q) (s\<lparr>wa_api := a\<rparr>) = (reply, s')"
proof (cases "\<exists>m. reply = WfError 400 m \<and> wa_workflows s' = wa_workflows s \<and> ap_jobs (wa_api s') = ap_jobs (wa_api s)")
  case True
  then show ?thesis using refused by blast
next
  case False
  then obtain dryRun q where p: "ParseDryRunParam dryRaw = Some dryRun" "body = Some q" "sw_ID q \<noteq> []" "length (sw_Jobs q) \<le> 100"
    using assms by (auto simp: handleSubmitWorkflow_def split: option.splits if_splits)
  obtain mo a where c: "check_jobs r dryRun (sw_ID q) (sw_Jobs q) (wa_api s) = (mo, a)" by fastforce
  have fr: "ap_jobs a = ap_jobs (wa_api s)" using check_jobs_frame [OF c] by simp
  have "mo = None" "validateWorkflowTags (sw_Tags q) = None"
    "submit_workflow_checked save wsave render now r dryRun (build_workflow r q) (s\<lparr>wa_api := a\<rparr>) = (reply, s')"
    using False assms p c fr by (auto simp: handleSubmitWorkflow_def split: option.splits if_splits)
  with p c fr check_jobs_None show ?thesis by (intro passed [of q dryRun a]) blast+
qed

lemma build_workflow_simps [simp]:
  "w_ID (build_workflow r q) = sw_ID q" "w_Jobs (build_workflow r q) = map convert_job (sw_Jobs q)"
  "w_OwnerPrincipal (build_workflow r q) = p_ID (FromContext (ar_principal r))"
  by (simp_all add: build_workflow_def)

lemma convert_job_simps [simp]: "wj_Name (convert_job j) = wq_Name j" "wj_Env (convert_job j) = wq_Env j"
  by (simp_all add: convert_job_def)

section \<open>Properties\<close>

text \<open>C23. When a workflow submission is answered with success, the request was within bounds, every job of
  it passed the same command, binding, environment and secret-key checks as a single job, the graph is
  valid, the caller may write workflows, and the ID was free; the workflow is then running and each of
  its jobs is pending in the job store under workflow/name, owned by the caller, with the environment
  that was checked.\<close>

theorem accepted_workflow_vetted:
  assumes "handleSubmitWorkflow save wsave render now r dryRaw body s = (WfWorkflow 201 v, s')"
  shows "\<exists>q w. body = Some q \<and> 0 < length (sw_Jobs q) \<and> length (sw_Jobs q) \<le> 100 \<and> validateWorkflowTags (sw_Tags q) = None \<and>
    ValidateDAG (map convert_job (sw_Jobs q)) = None \<and>
    Allow (Some (FromContext (ar_principal r))) ActionWrite (Some (WorkflowResource (sw_ID q) (p_ID (FromContext (ar_principal r))) [])) = None \<and>
    ws_workflows (wa_workflows s) (sw_ID q) = None \<and> ws_workflows (wa_workflows s') (sw_ID q) = Some w \<and> w_Status w = WorkflowStatusRunning \<and>
    (\<forall>j \<in> set (sw_Jobs q). job_checked (ap_exceptions (wa_api s)) j \<and>
      (\<exists>jb. js_jobs (ap_jobs (wa_api s')) (wf_job_id (sw_ID q) (wq_Name j)) = Some jb \<and> j_Status jb = JobStatusPending \<and>
        j_OwnerPrincipal jb = p_ID (FromContext (ar_principal r)) \<and> j_Env jb = wq_Env j))"
  using assms
proof (cases rule: handleSubmitWorkflow_checked)
  case (passed q dryRun a)
  let ?w = "build_workflow r q"
  obtain ws1 ws2 js where run: "Allow (Some (FromContext (ar_principal r))) ActionWrite (Some (WorkflowResource (sw_ID q) (p_ID (FromContext (ar_principal r))) [])) = None"
      "WorkflowSubmit wsave now ?w (wa_workflows s) = (None, ws1)" "Start save wsave render now (sw_ID q) ws1 (ap_jobs (wa_api s)) = (None, ws2, js)"
      "ws_workflows (wa_workflows s') = ws_workflows ws2" "ap_jobs (wa_api s') = js"
    using passed(8) by (auto simp: submit_workflow_checked_def submit_error_reply_def passed(7) split: option.splits if_splits prod.splits
        workflow_error.splits dag_error.splits)
  note sub = WorkflowSubmit_None [OF run(2)]
  from run(3) show ?thesis
  proof (cases rule: Start_ok)
    case (1 w w')
    have "w_Jobs w = map convert_job (sw_Jobs q)" "w_OwnerPrincipal w = p_ID (FromContext (ar_principal r))" using 1(1) sub by auto
    then have "\<forall>j \<in> set (sw_Jobs q). \<exists>jb. js_jobs js (wf_job_id (sw_ID q) (wq_Name j)) = Some jb \<and> j_Status jb = JobStatusPending \<and>
        j_OwnerPrincipal jb = p_ID (FromContext (ar_principal r)) \<and> j_Env jb = wq_Env j"
      using 1(6) by (auto simp: started_def)
    moreover have "0 < length (sw_Jobs q)" using sub by auto
    ultimately show ?thesis using passed(1,4-6) run sub 1(3,4) by auto
  qed
qed simp

definition demo_child :: workflow_job_request where
  "demo_child = \<lparr>wq_Name = ''a'', wq_Command = ''echo'', wq_Args = [], wq_Env = [(''MODE'', ''fast'')], wq_TimeoutSeconds = 60, wq_Runtime = [],
     wq_DependsOn = [], wq_Condition = [], wq_Priority = None, wq_WorkingDir = [], wq_Inputs = [], wq_Outputs = [],
     wq_NodeSelector = [], wq_SecretKeys = []\<rparr>"

definition demo_flow_request :: submit_workflow_request where
  "demo_flow_request = \<lparr>sw_ID = ''wf'', sw_Name = ''w'', sw_Priority = None, sw_Jobs = [demo_child], sw_Tags = []\<rparr>"

definition demo_wapi :: "(badger, badger_wf) wapi" where
  "demo_wapi = \<lparr>wa_api = demo_api, wa_workflows = NewWorkflowStore \<lparr>bw_workflows = Map.empty, bw_keyring = None, bw_faults = []\<rparr>,
     wa_registry = Some Map.empty, wa_feed = []\<rparr>"

lemma demo_check_jobs: "check_jobs demo_caller d ''wf'' [demo_child] demo_api = (None, demo_api)"
proof -
  have "check_shape demo_child = None"
    by (simp add: check_shape_def demo_child_def forbiddenCommandChars_def ContainsAny_def NUL_def validateArtifactBindings_def
        validateArtifactBindingsCtx_def firstDuplicateBindingName_def validateNodeSelector_def)
  moreover have "validateEnvMap [(''MODE'', ''fast'')] [] [] = \<lparr>er_Err = None, er_BlockedKey = [], er_OverriddenKeys = []\<rparr>"
    by (simp add: validateEnvMap_def ContainsAny_def NUL_def envKeyBlocked_def envKeyBlockedPrefixes_def envKeyBlockedExact_def)
  ultimately show ?thesis by (simp add: demo_child_def demo_api_def validateSecretKeys_def)
qed

lemma demo_flow_stored:
  "WorkflowSubmit bw_SaveWorkflow 10 (build_workflow demo_caller demo_flow_request) (wa_workflows demo_wapi) =
     (None, \<lparr>ws_workflows = [''wf'' \<mapsto> (build_workflow demo_caller demo_flow_request)\<lparr>w_Status := WorkflowStatusPending, w_CreatedAt := 10\<rparr>],
        ws_persister = \<lparr>bw_workflows = [''wf'' \<mapsto> (build_workflow demo_caller demo_flow_request)\<lparr>w_Status := WorkflowStatusPending, w_CreatedAt := 10\<rparr>],
          bw_keyring = None, bw_faults = []\<rparr>, ws_events = []\<rparr>)"
proof -
  have "ValidateDAG [convert_job demo_child] = None"
    by (simp add: convert_job_def demo_child_def zero_workflow_job_def ValidateDAG_def) (code_simp)
  then show ?thesis
    by (simp add: WorkflowSubmit_def demo_wapi_def NewWorkflowStore_def demo_flow_request_def bw_SaveWorkflow_def workflowOnDiskCopy_def Let_def)
qed

lemma demo_flow_started:
  "\<exists>ws js. Start bd_SaveJob bw_SaveWorkflow render 10 ''wf''
     \<lparr>ws_workflows = [''wf'' \<mapsto> (build_workflow demo_caller demo_flow_request)\<lparr>w_Status := WorkflowStatusPending, w_CreatedAt := 10\<rparr>],
        ws_persister = \<lparr>bw_workflows = [''wf'' \<mapsto> (build_workflow demo_caller demo_flow_request)\<lparr>w_Status := WorkflowStatusPending, w_CreatedAt := 10\<rparr>],
          bw_keyring = None, bw_faults = []\<rparr>, ws_events = []\<rparr> (demo_start []) = (None, ws, js)"
  by (simp add: Start_def demo_flow_request_def Submit_def demo_start_def NewJobStore_def bd_SaveJob_def
      jobOnDiskCopy_def bw_SaveWorkflow_def workflowOnDiskCopy_def Let_def)

theorem accepted_workflow_vetted_witness:
  "\<exists>v s' jb. handleSubmitWorkflow bd_SaveJob bw_SaveWorkflow (\<lambda>n e. n) 10 demo_caller [] (Some demo_flow_request) demo_wapi = (WfWorkflow 201 v, s') \<and>
     js_jobs (ap_jobs (wa_api s')) ''wf/a'' = Some jb \<and> j_OwnerPrincipal jb = ''user:alice'' \<and> j_Env jb = [(''MODE'', ''fast'')]"
proof -
  obtain ws js where st: "Start bd_SaveJob bw_SaveWorkflow (\<lambda>n e. n) 10 ''wf''
     \<lparr>ws_workflows = [''wf'' \<mapsto> (build_workflow demo_caller demo_flow_request)\<lparr>w_Status := WorkflowStatusPending, w_CreatedAt := 10\<rparr>],
        ws_persister = \<lparr>bw_workflows = [''wf'' \<mapsto> (build_workflow demo_caller demo_flow_request)\<lparr>w_Status := WorkflowStatusPending, w_CreatedAt := 10\<rparr>],
          bw_keyring = None, bw_faults = []\<rparr>, ws_events = []\<rparr> (demo_start []) = (None, ws, js)" using demo_flow_started by blast
  have q: "sw_ID demo_flow_request = ''wf''" "sw_Jobs demo_flow_request = [demo_child]" "sw_Tags demo_flow_request = []"
    by (simp_all add: demo_flow_request_def)
  have a: "Allow (Some (User ''alice'' ''user'')) ActionWrite (Some (WorkflowResource ''wf'' ''user:alice'' [])) = None"
    by (simp add: Allow_def IsAdmin_def User_def prefix_str_def WorkflowResource_def LegacyOwnerID_def)
  have "ParseDryRunParam [] = Some False" by (simp add: ParseDryRunParam_def)
  moreover have "wa_api demo_wapi = demo_api" "ap_jobs demo_api = demo_start []" "demo_wapi\<lparr>wa_api := demo_api\<rparr> = demo_wapi"
    by (simp_all add: demo_wapi_def demo_api_def)
  ultimately obtain v s' where h: "handleSubmitWorkflow bd_SaveJob bw_SaveWorkflow (\<lambda>n e. n) 10 demo_caller [] (Some demo_flow_request) demo_wapi = (WfWorkflow 201 v, s')"
    using st a demo_check_jobs demo_flow_stored
    by (simp add: handleSubmitWorkflow_def submit_workflow_checked_def q demo_caller_simps validateWorkflowTags_def)
  from accepted_workflow_vetted [OF h] obtain jb where "js_jobs (ap_jobs (wa_api s')) (wf_job_id ''wf'' (wq_Name demo_child)) = Some jb"
      "j_OwnerPrincipal jb = ''user:alice''" "j_Env jb = wq_Env demo_child"
    by (auto simp: q demo_caller_simps)
  with h show ?thesis by (auto simp: wf_job_id_def demo_child_def)
qed

text \<open>A workflow submission that is refused by a check, by authorization or by the graph validation, or
  that is a dry run, changes neither the workflows nor the jobs.\<close>

theorem refused_workflow_inert:
  assumes "handleSubmitWorkflow save wsave render now r dryRaw body s = (reply, s')"
    and "(\<exists>m. reply = WfError 400 m) \<or> (\<exists>c. reply = WfForbidden c) \<or> (\<exists>v. reply = WfDry v) \<or> reply = WfError 409 WfExists"
  shows "ws_workflows (wa_workflows s') = ws_workflows (wa_workflows s) \<and> js_jobs (ap_jobs (wa_api s')) = js_jobs (ap_jobs (wa_api s))"
  using assms(1)
proof (cases rule: handleSubmitWorkflow_checked)
  case (passed q dryRun a)
  show ?thesis using passed(8) assms(2) WorkflowSubmit_Some passed(7)
    by (auto simp: submit_workflow_checked_def emitAuthzDeny_def Let_def split: option.splits if_splits prod.splits)
qed simp

theorem refused_workflow_inert_witness:
  "\<exists>s'. handleSubmitWorkflow bd_SaveJob bw_SaveWorkflow (\<lambda>n e. n) 10 demo_caller [] (Some (demo_flow_request\<lparr>sw_Jobs := []\<rparr>)) demo_wapi = (WfError 400 WfNoJobs, s') \<and>
     ws_workflows (wa_workflows s') = Map.empty"
proof -
  have h: "handleSubmitWorkflow bd_SaveJob bw_SaveWorkflow (\<lambda>n e. n) 10 demo_caller [] (Some (demo_flow_request\<lparr>sw_Jobs := []\<rparr>)) demo_wapi = (WfError 400 WfNoJobs, demo_wapi)"
    by (simp add: handleSubmitWorkflow_def ParseDryRunParam_def demo_flow_request_def)
  from refused_workflow_inert [OF h] h show ?thesis by (simp add: demo_wapi_def NewWorkflowStore_def)
qed

section \<open>Priorities\<close>

text \<open>The workflow handler passes any 32-bit priority on to the jobs, where the job handler stops at 100.
  The largest one wraps to zero in the ageing sum after a minute of waiting: such a job falls behind
  every other one.\<close>

lemma workflow_priority_unchecked: "wj_Priority (convert_job (j\<lparr>wq_Priority := Some p\<rparr>)) = p"
  by (simp add: convert_job_def)

lemma oversized_priority_wraps:
  assumes "j_Priority j = - 1" and "j_CreatedAt j = 0"
  shows "EffectivePriority 0 j = 100" and "EffectivePriority minute j = 0"
  using assms by (simp_all add: EffectivePriority_def time_sub_def trunc_div_def)

end
