(* ===== verification/Registry_Api.thy ===== *)
theory Registry_Api
  imports Workflow_Api
begin

text \<open>
  The dataset and model endpoints of the HTTP API: \<open>internal/api/handlers_registry.go\<close> with the bodies of
  \<open>types_registry.go\<close>, over the artifact registry and the authorization rules. Conventions are those of \<open>Job_Api\<close>.
  The rate limiter's answer \<open>allowed\<close>, the outcome \<open>commit\<close> of a transaction and what others do between the
  read and the deletion of a delete request (\<open>interf\<close>) are arguments; \<open>ord\<close> is the order of a key scan.

  The lemmas show that a request changes the registry only as its caller may: it adds one validated
  record owned by the caller or deletes one record the caller may delete, that dry runs write nothing,
  and that lists show exactly what may be read.
\<close>

section \<open>Requests and responses\<close>

record dataset_register_request =
  dq_Name :: string
  dq_Version :: string
  dq_URI :: string
  dq_SizeBytes :: int
  dq_SHA256 :: string
  dq_Tags :: strmap

record dataset_response =
  dr_Name :: string
  dr_Version :: string
  dr_URI :: string
  dr_SizeBytes :: int
  dr_SHA256 :: string
  dr_Tags :: strmap
  dr_CreatedAt :: time
  dr_CreatedBy :: string
  dr_OwnerPrincipal :: string

record model_register_request =
  mq_Name :: string
  mq_Version :: string
  mq_URI :: string
  mq_Framework :: string
  mq_SourceJobID :: string
  mq_SourceDataset :: "dataset_ref option"
  mq_Metrics :: "(string \<times> float64) list"
  mq_SizeBytes :: int
  mq_SHA256 :: string
  mq_Tags :: strmap

record model_response =
  mr_Name :: string
  mr_Version :: string
  mr_URI :: string
  mr_Framework :: string
  mr_SourceJobID :: string
  mr_SourceDataset :: "dataset_ref option"
  mr_Metrics :: "(string \<times> float64) list"
  mr_SizeBytes :: int
  mr_SHA256 :: string
  mr_Tags :: strmap
  mr_CreatedAt :: time
  mr_CreatedBy :: string
  mr_OwnerPrincipal :: string

datatype reg_message = RgDryRun | RgDecode | RgInvalid reg_invalid | RgConflict | RgNotFound | RgInternal

datatype reg_reply = RgNotConfigured | RgRateLimited | RgError nat reg_message | RgForbidden deny_code | RgNoContent
  | RgDataset nat dataset_response | RgDryDataset dataset_response | RgDatasets "dataset_response list" nat int int
  | RgModel nat model_response | RgDryModel model_response | RgModels "model_response list" nat int int

definition datasetToResponse :: "dataset \<Rightarrow> dataset_response" where
  "datasetToResponse d = \<lparr>dr_Name = ds_Name d, dr_Version = ds_Version d, dr_URI = ds_URI d, dr_SizeBytes = ds_SizeBytes d, dr_SHA256 = ds_SHA256 d,
     dr_Tags = ds_Tags d, dr_CreatedAt = ds_CreatedAt d, dr_CreatedBy = ds_CreatedBy d, dr_OwnerPrincipal = ds_OwnerPrincipal d\<rparr>"

definition modelToResponse :: "model \<Rightarrow> model_response" where
  "modelToResponse m = \<lparr>mr_Name = md_Name m, mr_Version = md_Version m, mr_URI = md_URI m, mr_Framework = md_Framework m,
     mr_SourceJobID = md_SourceJobID m,
     mr_SourceDataset = (if rf_Name (md_SourceDataset m) \<noteq> [] \<or> rf_Version (md_SourceDataset m) \<noteq> [] then Some (md_SourceDataset m) else None),
     mr_Metrics = md_Metrics m, mr_SizeBytes = md_SizeBytes m, mr_SHA256 = md_SHA256 m, mr_Tags = md_Tags m,
     mr_CreatedAt = md_CreatedAt m, mr_CreatedBy = md_CreatedBy m, mr_OwnerPrincipal = md_OwnerPrincipal m\<rparr>"

section \<open>Plumbing\<close>

definition registryActor :: "api_request \<Rightarrow> ('p, 'q) wapi \<Rightarrow> string" where
  "registryActor r s =
     (if \<not> ap_tokenManager (wa_api s) then ''anonymous''
      else case ar_subject r of Some u \<Rightarrow> if u \<noteq> [] then u else ''anonymous'' | None \<Rightarrow> ''anonymous'')"

text \<open>\<open>registryConfigured\<close> and \<open>registryPreflight\<close> before a handler's own work.\<close>

definition with_registry :: "bool \<Rightarrow> ('p, 'q) wapi \<Rightarrow> (reg_kv \<Rightarrow> reg_reply \<times> ('p, 'q) wapi) \<Rightarrow> reg_reply \<times> ('p, 'q) wapi" where
  "with_registry allowed s body = (case wa_registry s of None \<Rightarrow> (RgNotConfigured, s)
     | Some kv \<Rightarrow> if \<not> allowed then (RgRateLimited, s) else body kv)"

definition registry_authz :: "api_request \<Rightarrow> action \<Rightarrow> resource \<Rightarrow> ('p, 'q) wapi \<Rightarrow> reg_reply option \<times> ('p, 'q) wapi" where
  "registry_authz r a res s =
     (case Allow (Some (FromContext (ar_principal r))) a (Some res) of
        None \<Rightarrow> (None, s)
      | Some de \<Rightarrow> (Some (RgForbidden (d_Code de)), s\<lparr>wa_api := emitAuthzDeny r de res (wa_api s)\<rparr>))"

definition registry_log :: "string \<Rightarrow> api_event \<Rightarrow> ('p, 'q) wapi \<Rightarrow> ('p, 'q) wapi" where
  "registry_log actor e s = s\<lparr>wa_api := snd (audit_Log actor e (wa_api s))\<rparr>"

definition registry_publish :: "registry_event \<Rightarrow> ('p, 'q) wapi \<Rightarrow> ('p, 'q) wapi" where
  "registry_publish e s = (if ap_bus (wa_api s) = None then s else s\<lparr>wa_feed := wa_feed s @ [e]\<rparr>)"

definition parsePageSize :: "string \<Rightarrow> string \<Rightarrow> int \<times> int" where
  "parsePageSize p sz =
     ((if p = [] then 1 else case Atoi p of Some n \<Rightarrow> if 0 < n \<and> n \<le> 10000 then n else 1 | None \<Rightarrow> 1),
      (if sz = [] then 20 else case Atoi sz of Some n \<Rightarrow> if 0 < n \<and> n \<le> 100 then n else 20 | None \<Rightarrow> 20))"

definition artifact_id :: "string \<Rightarrow> string \<Rightarrow> string" where
  "artifact_id name version = name @ ''/'' @ version"

section \<open>Datasets\<close>

definition dataset_of_request :: "time \<Rightarrow> string \<Rightarrow> api_request \<Rightarrow> dataset_register_request \<Rightarrow> dataset" where
  "dataset_of_request now actor r q = \<lparr>ds_Name = dq_Name q, ds_Version = dq_Version q, ds_URI = dq_URI q, ds_SizeBytes = dq_SizeBytes q,
     ds_SHA256 = dq_SHA256 q, ds_Tags = dq_Tags q, ds_CreatedAt = now, ds_CreatedBy = actor,
     ds_OwnerPrincipal = p_ID (FromContext (ar_principal r)), ds_Shares = []\<rparr>"

definition handleRegisterDataset :: "bool \<Rightarrow> bool \<Rightarrow> time \<Rightarrow> api_request \<Rightarrow> string \<Rightarrow> dataset_register_request option
    \<Rightarrow> ('p, 'q) wapi \<Rightarrow> reg_reply \<times> ('p, 'q) wapi" where
  "handleRegisterDataset commit allowed now r dryRaw body s = with_registry allowed s (\<lambda>kv.
     let actor = registryActor r s in
     case ParseDryRunParam dryRaw of None \<Rightarrow> (RgError 400 RgDryRun, s)
     | Some dryRun \<Rightarrow> (case body of None \<Rightarrow> (RgError 400 RgDecode, s)
     | Some q \<Rightarrow> let d = dataset_of_request now actor r q in
       (case ValidateDataset d of Some e \<Rightarrow> (RgError 400 (RgInvalid e), s)
     | None \<Rightarrow> (case registry_authz r ActionWrite (DatasetResource (artifact_id (ds_Name d) (ds_Version d)) (ds_OwnerPrincipal d) []) s of
         (Some resp, s) \<Rightarrow> (resp, s)
       | (None, s) \<Rightarrow>
           if dryRun then
             (RgDryDataset (datasetToResponse d),
              registry_log actor (EventDatasetDryRun (ds_Name d) (ds_Version d) (ds_URI d) (ds_SizeBytes d) (ds_OwnerPrincipal d)) s)
           else (case RegisterDataset commit d kv of
               (Some ErrAlreadyExists, kv) \<Rightarrow> (RgError 409 RgConflict, s\<lparr>wa_registry := Some kv\<rparr>)
             | (Some e, kv) \<Rightarrow> (RgError 500 RgInternal, s\<lparr>wa_registry := Some kv\<rparr>)
             | (None, kv) \<Rightarrow> (RgDataset 201 (datasetToResponse d),
                 registry_publish (DatasetRegistered (ds_Name d) (ds_Version d) (ds_URI d) actor (ds_SizeBytes d))
                   (registry_log actor (EventDatasetRegistered (ds_Name d) (ds_Version d) (ds_URI d) (ds_SizeBytes d) (ds_OwnerPrincipal d))
                     (s\<lparr>wa_registry := Some kv\<rparr>))))))))"

definition dataset_resource :: "string \<Rightarrow> string \<Rightarrow> dataset \<Rightarrow> resource" where
  "dataset_resource name version d = DatasetResource (artifact_id name version) (ds_OwnerPrincipal d) [ds_Shares d]"

definition handleGetDataset :: "bool \<Rightarrow> api_request \<Rightarrow> string \<Rightarrow> string \<Rightarrow> ('p, 'q) wapi \<Rightarrow> reg_reply \<times> ('p, 'q) wapi" where
  "handleGetDataset allowed r name version s = with_registry allowed s (\<lambda>kv.
     case GetDataset name version kv of
       Inl ErrNotFound \<Rightarrow> (RgError 404 RgNotFound, s)
     | Inl _ \<Rightarrow> (RgError 500 RgInternal, s)
     | Inr d \<Rightarrow> (case registry_authz r ActionRead (dataset_resource name version d) s of
         (Some resp, s) \<Rightarrow> (resp, s)
       | (None, s) \<Rightarrow> (RgDataset 200 (datasetToResponse d), s)))"

definition handleListDatasets :: "string list \<Rightarrow> bool \<Rightarrow> api_request \<Rightarrow> string \<Rightarrow> string \<Rightarrow> ('p, 'q) wapi \<Rightarrow> reg_reply \<times> ('p, 'q) wapi" where
  "handleListDatasets ord allowed r pageStr sizeStr s = with_registry allowed s (\<lambda>kv.
     let (page, sz) = parsePageSize pageStr sizeStr in
     case ListDatasets ord 1 10000 kv of Inl _ \<Rightarrow> (RgError 500 RgInternal, s)
     | Inr (all, n) \<Rightarrow>
        let permitted = filter (\<lambda>d. Allow (Some (FromContext (ar_principal r))) ActionRead (Some (dataset_resource (ds_Name d) (ds_Version d) d)) = None) all in
        (RgDatasets (map datasetToResponse (paginate page sz permitted)) (if length permitted \<noteq> length all then length permitted else n) page sz, s))"

definition handleDeleteDataset :: "bool \<Rightarrow> (reg_kv \<Rightarrow> reg_kv) \<Rightarrow> bool \<Rightarrow> api_request \<Rightarrow> string \<Rightarrow> string
    \<Rightarrow> ('p, 'q) wapi \<Rightarrow> reg_reply \<times> ('p, 'q) wapi" where
  "handleDeleteDataset commit interf allowed r name version s = with_registry allowed s (\<lambda>kv.
     case GetDataset name version kv of
       Inl ErrNotFound \<Rightarrow> (RgError 404 RgNotFound, s)
     | Inl _ \<Rightarrow> (RgError 500 RgInternal, s)
     | Inr d \<Rightarrow> (case registry_authz r ActionDelete (dataset_resource name version d) s of
         (Some resp, s) \<Rightarrow> (resp, s)
       | (None, s) \<Rightarrow> (case DeleteDataset commit name version (interf kv) of
           (Some ErrNotFound, kv) \<Rightarrow> (RgError 404 RgNotFound, s\<lparr>wa_registry := Some kv\<rparr>)
         | (Some _, kv) \<Rightarrow> (RgError 500 RgInternal, s\<lparr>wa_registry := Some kv\<rparr>)
         | (None, kv) \<Rightarrow> (RgNoContent,
             registry_publish (DatasetDeleted name version (registryActor r s))
               (registry_log (registryActor r s) (EventDatasetDeleted name version) (s\<lparr>wa_registry := Some kv\<rparr>))))))"

section \<open>Models\<close>

definition model_of_request :: "time \<Rightarrow> string \<Rightarrow> api_request \<Rightarrow> model_register_request \<Rightarrow> model" where
  "model_of_request now actor r q = \<lparr>md_Name = mq_Name q, md_Version = mq_Version q, md_URI = mq_URI q, md_Framework = mq_Framework q,
     md_SourceJobID = mq_SourceJobID q,
     md_SourceDataset = (case mq_SourceDataset q of Some x \<Rightarrow> x | None \<Rightarrow> \<lparr>rf_Name = [], rf_Version = []\<rparr>),
     md_Metrics = mq_Metrics q, md_SizeBytes = mq_SizeBytes q, md_SHA256 = mq_SHA256 q, md_Tags = mq_Tags q, md_CreatedAt = now, md_CreatedBy = actor,
     md_OwnerPrincipal = p_ID (FromContext (ar_principal r)), md_Shares = []\<rparr>"

definition handleRegisterModel :: "bool \<Rightarrow> bool \<Rightarrow> time \<Rightarrow> api_request \<Rightarrow> string \<Rightarrow> model_register_request option
    \<Rightarrow> ('p, 'q) wapi \<Rightarrow> reg_reply \<times> ('p, 'q) wapi" where
  "handleRegisterModel commit allowed now r dryRaw body s = with_registry allowed s (\<lambda>kv.
     let actor = registryActor r s in
     case ParseDryRunParam dryRaw of None \<Rightarrow> (RgError 400 RgDryRun, s)
     | Some dryRun \<Rightarrow> (case body of None \<Rightarrow> (RgError 400 RgDecode, s)
     | Some q \<Rightarrow> let m = model_of_request now actor r q in
       (case ValidateModel m of Some e \<Rightarrow> (RgError 400 (RgInvalid e), s)
     | None \<Rightarrow> (case registry_authz r ActionWrite (ModelResource (artifact_id (md_Name m) (md_Version m)) (md_OwnerPrincipal m) []) s of
         (Some resp, s) \<Rightarrow> (resp, s)
       | (None, s) \<Rightarrow>
           if dryRun then
             (RgDryModel (modelToResponse m),
              registry_log actor (EventModelDryRun (md_Name m) (md_Version m) (md_URI m) (md_SourceJobID m) (md_OwnerPrincipal m)) s)
           else (case RegisterModel commit m kv of
               (Some ErrAlreadyExists, kv) \<Rightarrow> (RgError 409 RgConflict, s\<lparr>wa_registry := Some kv\<rparr>)
             | (Some e, kv) \<Rightarrow> (RgError 500 RgInternal, s\<lparr>wa_registry := Some kv\<rparr>)
             | (None, kv) \<Rightarrow> (RgModel 201 (modelToResponse m),
                 registry_publish (ModelRegistered (md_Name m) (md_Version m) (md_URI m) actor (md_SourceJobID m)
                     (rf_Name (md_SourceDataset m)) (rf_Version (md_SourceDataset m)))
                   (registry_log actor (EventModelRegistered (md_Name m) (md_Version m) (md_URI m) (md_SourceJobID m) (md_OwnerPrincipal m))
                     (s\<lparr>wa_registry := Some kv\<rparr>))))))))"

definition model_resource :: "string \<Rightarrow> string \<Rightarrow> model \<Rightarrow> resource" where
  "model_resource name version m = ModelResource (artifact_id name version) (md_OwnerPrincipal m) [md_Shares m]"

definition handleGetModel :: "bool \<Rightarrow> api_request \<Rightarrow> string \<Rightarrow> string \<Rightarrow> ('p, 'q) wapi \<Rightarrow> reg_reply \<times> ('p, 'q) wapi" where
  "handleGetModel allowed r name version s = with_registry allowed s (\<lambda>kv.
     case GetModel name version kv of
       Inl ErrNotFound \<Rightarrow> (RgError 404 RgNotFound, s)
     | Inl _ \<Rightarrow> (RgError 500 RgInternal, s)
     | Inr m \<Rightarrow> (case registry_authz r ActionRead (model_resource name version m) s of
         (Some resp, s) \<Rightarrow> (resp, s)
       | (None, s) \<Rightarrow> (RgModel 200 (modelToResponse m), s)))"

definition handleLatestModel :: "string list \<Rightarrow> bool \<Rightarrow> api_request \<Rightarrow> string \<Rightarrow> ('p, 'q) wapi \<Rightarrow> reg_reply \<times> ('p, 'q) wapi" where
  "handleLatestModel ord allowed r name s = with_registry allowed s (\<lambda>kv.
     case LatestModel ord name kv of
       Inl ErrNotFound \<Rightarrow> (RgError 404 RgNotFound, s)
     | Inl _ \<Rightarrow> (RgError 500 RgInternal, s)
     | Inr m \<Rightarrow> (case registry_authz r ActionRead (model_resource (md_Name m) (md_Version m) m) s of
         (Some resp, s) \<Rightarrow> (resp, s)
       | (None, s) \<Rightarrow> (RgModel 200 (modelToResponse m), s)))"

definition handleListModels :: "string list \<Rightarrow> bool \<Rightarrow> api_request \<Rightarrow> string \<Rightarrow> string \<Rightarrow> ('p, 'q) wapi \<Rightarrow> reg_reply \<times> ('p, 'q) wapi" where
  "handleListModels ord allowed r pageStr sizeStr s = with_registry allowed s (\<lambda>kv.
     let (page, sz) = parsePageSize pageStr sizeStr in
     case ListModels ord 1 10000 kv of Inl _ \<Rightarrow> (RgError 500 RgInternal, s)
     | Inr (all, n) \<Rightarrow>
        let permitted = filter (\<lambda>m. Allow (Some (FromContext (ar_principal r))) ActionRead (Some (model_resource (md_Name m) (md_Version m) m)) = None) all in
        (RgModels (map modelToResponse (paginate page sz permitted)) (if length permitted \<noteq> length all then length permitted else n) page sz, s))"

definition handleDeleteModel :: "bool \<Rightarrow> (reg_kv \<Rightarrow> reg_kv) \<Rightarrow> bool \<Rightarrow> api_request \<Rightarrow> string \<Rightarrow> string
    \<Rightarrow> ('p, 'q) wapi \<Rightarrow> reg_reply \<times> ('p, 'q) wapi" where
  "handleDeleteModel commit interf allowed r name version s = with_registry allowed s (\<lambda>kv.
     case GetModel name version kv of
       Inl ErrNotFound \<Rightarrow> (RgError 404 RgNotFound, s)
     | Inl _ \<Rightarrow> (RgError 500 RgInternal, s)
     | Inr m \<Rightarrow> (case registry_authz r ActionDelete (model_resource name version m) s of
         (Some resp, s) \<Rightarrow> (resp, s)
       | (None, s) \<Rightarrow> (case DeleteModel commit name version (interf kv) of
           (Some ErrNotFound, kv) \<Rightarrow> (RgError 404 RgNotFound, s\<lparr>wa_registry := Some kv\<rparr>)
         | (Some _, kv) \<Rightarrow> (RgError 500 RgInternal, s\<lparr>wa_registry := Some kv\<rparr>)
         | (None, kv) \<Rightarrow> (RgNoContent,
             registry_publish (ModelDeleted name version (registryActor r s))
               (registry_log (registryActor r s) (EventModelDeleted name version) (s\<lparr>wa_registry := Some kv\<rparr>))))))"

section \<open>Routes\<close>

text \<open>The registry routes of \<open>server.go\<close>, each request served without interference.\<close>

datatype registry_request = RqRegisterDataset string "dataset_register_request option" | RqGetDataset string string
  | RqListDatasets string string | RqDeleteDataset string string
  | RqRegisterModel string "model_register_request option" | RqGetModel string string | RqLatestModel string
  | RqListModels string string | RqDeleteModel string string

fun serve_registry :: "bool \<Rightarrow> string list \<Rightarrow> bool \<Rightarrow> time \<Rightarrow> api_request \<Rightarrow> registry_request \<Rightarrow> ('p, 'q) wapi \<Rightarrow> reg_reply \<times> ('p, 'q) wapi" where
  "serve_registry commit ord allowed now r (RqRegisterDataset dry body) s = handleRegisterDataset commit allowed now r dry body s"
| "serve_registry commit ord allowed now r (RqGetDataset n v) s = handleGetDataset allowed r n v s"
| "serve_registry commit ord allowed now r (RqListDatasets p z) s = handleListDatasets ord allowed r p z s"
| "serve_registry commit ord allowed now r (RqDeleteDataset n v) s = handleDeleteDataset commit id allowed r n v s"
| "serve_registry commit ord allowed now r (RqRegisterModel dry body) s = handleRegisterModel commit allowed now r dry body s"
| "serve_registry commit ord allowed now r (RqGetModel n v) s = handleGetModel allowed r n v s"
| "serve_registry commit ord allowed now r (RqLatestModel n) s = handleLatestModel ord allowed r n s"
| "serve_registry commit ord allowed now r (RqListModels p z) s = handleListModels ord allowed r p z s"
| "serve_registry commit ord allowed now r (RqDeleteModel n v) s = handleDeleteModel commit id allowed r n v s"

section \<open>What the handlers do to the registry\<close>

lemma registry_frame [simp]:
  "wa_registry (registry_log a e s) = wa_registry s" "wa_registry (registry_publish x s) = wa_registry s"
  by (simp_all add: registry_log_def registry_publish_def)

lemma registry_authz_cases:
  obtains (allowed) "Allow (Some (FromContext (ar_principal r))) a (Some res) = None" "registry_authz r a res s = (None, s)"
  | (denied) resp s' where "registry_authz r a res s = (Some resp, s')" "wa_registry s' = wa_registry s"
  by (cases "Allow (Some (FromContext (ar_principal r))) a (Some res)") (simp_all add: registry_authz_def)

abbreviation caller :: "api_request \<Rightarrow> principal option" where
  "caller r \<equiv> Some (FromContext (ar_principal r))"

lemma handleRegisterDataset_effect:
  assumes "handleRegisterDataset commit allowed now r dry body s = (resp, s')" and "wa_registry s = Some kv"
  obtains (same) "wa_registry s' = Some kv"
  | (registered) d e kv' where "ParseDryRunParam dry = Some False" "ValidateDataset d = None" "ds_OwnerPrincipal d = p_ID (FromContext (ar_principal r))"
      "Allow (caller r) ActionWrite (Some (DatasetResource (artifact_id (ds_Name d) (ds_Version d)) (ds_OwnerPrincipal d) [])) = None"
      "RegisterDataset commit d kv = (e, kv')" "wa_registry s' = Some kv'"
proof (cases "wa_registry s' = Some kv")
  case False
  with assms obtain dr q where h: "allowed" "ParseDryRunParam dry = Some dr" "body = Some q"
      "ValidateDataset (dataset_of_request now (registryActor r s) r q) = None"
    by (auto simp: handleRegisterDataset_def with_registry_def Let_def split: if_splits option.splits)
  define d where "d = dataset_of_request now (registryActor r s) r q"
  have o: "ds_OwnerPrincipal d = p_ID (FromContext (ar_principal r))" by (simp add: d_def dataset_of_request_def)
  note U = handleRegisterDataset_def with_registry_def Let_def h d_def [symmetric]
  show thesis
  proof (cases rule: registry_authz_cases [where r = r and s = s and a = ActionWrite and
        res = "DatasetResource (artifact_id (ds_Name d) (ds_Version d)) (ds_OwnerPrincipal d) []"])
    case allowed
    with False assms h(4) [folded d_def] registered [OF _ _ o] h(2) show thesis
      by (auto simp: U split: if_splits prod.splits option.splits reg_error.splits)
  next
    case (denied resp' s1)
    with False assms h(4) [folded d_def] show thesis by (auto simp: U)
  qed
qed

lemma handleDeleteDataset_effect:
  assumes "handleDeleteDataset commit interf allowed r n v s = (resp, s')" and "wa_registry s = Some kv"
  obtains (same) "wa_registry s' = Some kv"
  | (deleted) d e kv' where "GetDataset n v kv = Inr d" "Allow (caller r) ActionDelete (Some (dataset_resource n v d)) = None"
      "DeleteDataset commit n v (interf kv) = (e, kv')" "wa_registry s' = Some kv'"
proof (cases "wa_registry s' = Some kv")
  case False
  with assms obtain d where h: "allowed" "GetDataset n v kv = Inr d"
    by (auto simp: handleDeleteDataset_def with_registry_def split: if_splits sum.splits reg_error.splits)
  show thesis
  proof (cases rule: registry_authz_cases [where r = r and s = s and a = ActionDelete and res = "dataset_resource n v d"])
    case allowed
    with False assms h deleted show thesis
      by (auto simp: handleDeleteDataset_def with_registry_def split: if_splits prod.splits option.splits reg_error.splits)
  next
    case (denied resp' s1)
    with False assms h show thesis by (auto simp: handleDeleteDataset_def with_registry_def)
  qed
qed

lemma handleRegisterModel_effect:
  assumes "handleRegisterModel commit allowed now r dry body s = (resp, s')" and "wa_registry s = Some kv"
  obtains (same) "wa_registry s' = Some kv"
  | (registered) m e kv' where "ParseDryRunParam dry = Some False" "ValidateModel m = None" "md_OwnerPrincipal m = p_ID (FromContext (ar_principal r))"
      "Allow (caller r) ActionWrite (Some (ModelResource (artifact_id (md_Name m) (md_Version m)) (md_OwnerPrincipal m) [])) = None"
      "RegisterModel commit m kv = (e, kv')" "wa_registry s' = Some kv'"
proof (cases "wa_registry s' = Some kv")
  case False
  with assms obtain dr q where h: "allowed" "ParseDryRunParam dry = Some dr" "body = Some q"
      "ValidateModel (model_of_request now (registryActor r s) r q) = None"
    by (auto simp: handleRegisterModel_def with_registry_def Let_def split: if_splits option.splits)
  define m where "m = model_of_request now (registryActor r s) r q"
  have o: "md_OwnerPrincipal m = p_ID (FromContext (ar_principal r))" by (simp add: m_def model_of_request_def)
  note U = handleRegisterModel_def with_registry_def Let_def h m_def [symmetric]
  show thesis
  proof (cases rule: registry_authz_cases [where r = r and s = s and a = ActionWrite and
        res = "ModelResource (artifact_id (md_Name m) (md_Version m)) (md_OwnerPrincipal m) []"])
    case allowed
    with False assms h(4) [folded m_def] registered [OF _ _ o] h(2) show thesis
      by (auto simp: U split: if_splits prod.splits option.splits reg_error.splits)
  next
    case (denied resp' s1)
    with False assms h(4) [folded m_def] show thesis by (auto simp: U)
  qed
qed

lemma handleDeleteModel_effect:
  assumes "handleDeleteModel commit interf allowed r n v s = (resp, s')" and "wa_registry s = Some kv"
  obtains (same) "wa_registry s' = Some kv"
  | (deleted) m e kv' where "GetModel n v kv = Inr m" "Allow (caller r) ActionDelete (Some (model_resource n v m)) = None"
      "DeleteModel commit n v (interf kv) = (e, kv')" "wa_registry s' = Some kv'"
proof (cases "wa_registry s' = Some kv")
  case False
  with assms obtain m where h: "allowed" "GetModel n v kv = Inr m"
    by (auto simp: handleDeleteModel_def with_registry_def split: if_splits sum.splits reg_error.splits)
  show thesis
  proof (cases rule: registry_authz_cases [where r = r and s = s and a = ActionDelete and res = "model_resource n v m"])
    case allowed
    with False assms h deleted show thesis
      by (auto simp: handleDeleteModel_def with_registry_def split: if_splits prod.splits option.splits reg_error.splits)
  next
    case (denied resp' s1)
    with False assms h show thesis by (auto simp: handleDeleteModel_def with_registry_def)
  qed
qed

lemma registry_reads:
  "wa_registry (snd (handleGetDataset allowed r n v s)) = wa_registry s" "wa_registry (snd (handleListDatasets ord allowed r p z s)) = wa_registry s"
  "wa_registry (snd (handleGetModel allowed r n v s)) = wa_registry s" "wa_registry (snd (handleListModels ord allowed r p z s)) = wa_registry s"
  "wa_registry (snd (handleLatestModel ord allowed r n s)) = wa_registry s"
  by (auto simp: handleGetDataset_def handleListDatasets_def handleGetModel_def handleListModels_def handleLatestModel_def with_registry_def
      registry_authz_def Let_def split: option.splits sum.splits reg_error.splits prod.splits)

section \<open>Effects on the directories\<close>

lemma RegisterDataset_effect:
  assumes "reg_inv kv" and "ValidateDataset d = None" and "RegisterDataset commit d kv = (e, kv')"
  shows "reg_inv kv' \<and> (kv' = kv \<or> datasets_of kv (ds_Name d, ds_Version d) = None \<and> models_of kv' = models_of kv \<and>
    datasets_of kv' = (datasets_of kv)((ds_Name d, ds_Version d) \<mapsto> backfillDatasetOwner d))"
  using dataset_registry.register_law [OF assms] assms(3)
  by (auto simp: commit_with_def RegisterDataset_def reg_Update_def Let_def split: if_splits)

lemma DeleteDataset_effect:
  assumes "reg_inv kv" and "DeleteDataset commit n v kv = (e, kv')"
  shows "reg_inv kv' \<and> (kv' = kv \<or> models_of kv' = models_of kv \<and> datasets_of kv' = (datasets_of kv)((n, v) := None))"
  using dataset_registry.delete_law [OF assms] assms(2)
  by (auto simp: commit_with_def DeleteDataset_def reg_Update_def Let_def split: if_splits)

lemma RegisterModel_effect:
  assumes "reg_inv kv" and "ValidateModel m = None" and "RegisterModel commit m kv = (e, kv')"
  shows "reg_inv kv' \<and> (kv' = kv \<or> models_of kv (md_Name m, md_Version m) = None \<and> datasets_of kv' = datasets_of kv \<and>
    models_of kv' = (models_of kv)((md_Name m, md_Version m) \<mapsto> backfillModelOwner m))"
  using model_registry.register_law [OF assms] assms(3)
  by (auto simp: commit_with_def RegisterModel_def reg_Update_def Let_def split: if_splits)

lemma DeleteModel_effect:
  assumes "reg_inv kv" and "DeleteModel commit n v kv = (e, kv')"
  shows "reg_inv kv' \<and> (kv' = kv \<or> datasets_of kv' = datasets_of kv \<and> models_of kv' = (models_of kv)((n, v) := None))"
  using model_registry.delete_law [OF assms] assms(2)
  by (auto simp: commit_with_def DeleteModel_def reg_Update_def Let_def split: if_splits)

lemma directory_Get:
  "datasets_of kv (n, v) = Some d \<longleftrightarrow> GetDataset n v kv = Inr d" "models_of kv (n, v) = Some m \<longleftrightarrow> GetModel n v kv = Inr m"
  by (auto simp: directory_of_def split: sum.splits)

text \<open>What a request may do to the registry: add a validated record the caller owns, or delete a record the caller may delete.\<close>

definition dataset_added :: "api_request \<Rightarrow> reg_kv \<Rightarrow> reg_kv \<Rightarrow> bool" where
  "dataset_added r kv kv' \<longleftrightarrow> (\<exists>d. ValidateDataset d = None \<and> ds_OwnerPrincipal d = p_ID (FromContext (ar_principal r)) \<and>
     Allow (caller r) ActionWrite (Some (DatasetResource (artifact_id (ds_Name d) (ds_Version d)) (ds_OwnerPrincipal d) [])) = None \<and>
     datasets_of kv (ds_Name d, ds_Version d) = None \<and> datasets_of kv' = (datasets_of kv)((ds_Name d, ds_Version d) \<mapsto> backfillDatasetOwner d) \<and>
     models_of kv' = models_of kv)"

definition dataset_deleted :: "api_request \<Rightarrow> reg_kv \<Rightarrow> reg_kv \<Rightarrow> bool" where
  "dataset_deleted r kv kv' \<longleftrightarrow> (\<exists>n v d. datasets_of kv (n, v) = Some d \<and> Allow (caller r) ActionDelete (Some (dataset_resource n v d)) = None \<and>
     datasets_of kv' = (datasets_of kv)((n, v) := None) \<and> models_of kv' = models_of kv)"

definition model_added :: "api_request \<Rightarrow> reg_kv \<Rightarrow> reg_kv \<Rightarrow> bool" where
  "model_added r kv kv' \<longleftrightarrow> (\<exists>m. ValidateModel m = None \<and> md_OwnerPrincipal m = p_ID (FromContext (ar_principal r)) \<and>
     Allow (caller r) ActionWrite (Some (ModelResource (artifact_id (md_Name m) (md_Version m)) (md_OwnerPrincipal m) [])) = None \<and>
     models_of kv (md_Name m, md_Version m) = None \<and> models_of kv' = (models_of kv)((md_Name m, md_Version m) \<mapsto> backfillModelOwner m) \<and>
     datasets_of kv' = datasets_of kv)"

definition model_deleted :: "api_request \<Rightarrow> reg_kv \<Rightarrow> reg_kv \<Rightarrow> bool" where
  "model_deleted r kv kv' \<longleftrightarrow> (\<exists>n v m. models_of kv (n, v) = Some m \<and> Allow (caller r) ActionDelete (Some (model_resource n v m)) = None \<and>
     models_of kv' = (models_of kv)((n, v) := None) \<and> datasets_of kv' = datasets_of kv)"

section \<open>Properties\<close>

text \<open>A registry request does to the registry only what its caller may: it leaves it alone, adds one validated
  record that is owned by the caller and was not there, or deletes one record the caller may delete;
  everything else, of either kind, stays, and every record remains under its own key.\<close>

theorem registry_changes_authorized:
  assumes "serve_registry commit ord allowed now r q s = (resp, s')" and "wa_registry s = Some kv" and "reg_inv kv"
  shows "\<exists>kv'. wa_registry s' = Some kv' \<and> reg_inv kv' \<and>
    (kv' = kv \<or> dataset_added r kv kv' \<or> dataset_deleted r kv kv' \<or> model_added r kv kv' \<or> model_deleted r kv kv')"
proof (cases q)
  case (RqRegisterDataset dry body)
  with assms(1) have h: "handleRegisterDataset commit allowed now r dry body s = (resp, s')" by simp
  from h assms(2) show ?thesis
  proof (cases rule: handleRegisterDataset_effect)
    case (registered d e kv')
    with RegisterDataset_effect [OF assms(3) registered(2,5)] show ?thesis by (auto simp: dataset_added_def)
  qed (use assms(3) in auto)
next
  case (RqDeleteDataset n v)
  with assms(1) have h: "handleDeleteDataset commit id allowed r n v s = (resp, s')" by simp
  from h assms(2) show ?thesis
  proof (cases rule: handleDeleteDataset_effect)
    case (deleted d e kv')
    then have "DeleteDataset commit n v kv = (e, kv')" by simp
    with deleted DeleteDataset_effect [OF assms(3), of commit n v e kv'] show ?thesis by (auto simp: dataset_deleted_def directory_Get)
  qed (use assms(3) in auto)
next
  case (RqRegisterModel dry body)
  with assms(1) have h: "handleRegisterModel commit allowed now r dry body s = (resp, s')" by simp
  from h assms(2) show ?thesis
  proof (cases rule: handleRegisterModel_effect)
    case (registered m e kv')
    with RegisterModel_effect [OF assms(3) registered(2,5)] show ?thesis by (auto simp: model_added_def)
  qed (use assms(3) in auto)
next
  case (RqDeleteModel n v)
  with assms(1) have h: "handleDeleteModel commit id allowed r n v s = (resp, s')" by simp
  from h assms(2) show ?thesis
  proof (cases rule: handleDeleteModel_effect)
    case (deleted m e kv')
    then have "DeleteModel commit n v kv = (e, kv')" by simp
    with deleted DeleteModel_effect [OF assms(3), of commit n v e kv'] show ?thesis by (auto simp: model_deleted_def directory_Get)
  qed (use assms(3) in auto)
qed (use assms in \<open>auto simp: prod_eq_iff registry_reads\<close>)

definition demo_dataset_request :: dataset_register_request where
  "demo_dataset_request = \<lparr>dq_Name = ''iris'', dq_Version = ''v1'', dq_URI = ''s3://b/iris'', dq_SizeBytes = 10, dq_SHA256 = [], dq_Tags = []\<rparr>"

theorem registry_changes_authorized_witness:
  "\<exists>resp s' kv'. serve_registry True [] True 5 demo_caller (RqRegisterDataset [] (Some demo_dataset_request)) demo_wapi = (resp, s') \<and>
     wa_registry s' = Some kv' \<and> reg_inv kv' \<and> dataset_added demo_caller Map.empty kv'"
proof -
  obtain resp s' where h: "serve_registry True [] True 5 demo_caller (RqRegisterDataset [] (Some demo_dataset_request)) demo_wapi = (resp, s')" by fastforce
  have k: "wa_registry demo_wapi = Some Map.empty" by (simp add: demo_wapi_def)
  have d: "dataset_of_request 5 ''alice'' demo_caller demo_dataset_request = demo_dataset"
    by (simp add: dataset_of_request_def demo_dataset_request_def demo_dataset_def demo_caller_simps)
  have v: "ValidateDataset demo_dataset = None" by (simp add: demo_dataset_def) code_simp
  have a: "Allow (caller demo_caller) ActionWrite (Some (DatasetResource (artifact_id ''iris'' ''v1'') ''user:alice'' [])) = None"
    by (simp add: demo_caller_simps Allow_def IsAdmin_def User_def prefix_str_def DatasetResource_def LegacyOwnerID_def)
  have actor: "registryActor demo_caller demo_wapi = ''alice''" by (simp add: registryActor_def demo_wapi_def demo_api_def demo_caller_simps)
  have n: "ds_Name demo_dataset = ''iris''" "ds_Version demo_dataset = ''v1''" "ds_OwnerPrincipal demo_dataset = ''user:alice''" by (simp_all add: demo_dataset_def)
  have "wa_registry s' = Some [datasetKey ''iris'' ''v1'' \<mapsto> RvDataset demo_dataset]"
    using h by (auto simp: handleRegisterDataset_def with_registry_def k ParseDryRunParam_def d v a n registry_authz_def actor Let_def
        RegisterDataset_def reg_Update_def)
  with registry_changes_authorized [OF h k] have c: "reg_inv [datasetKey ''iris'' ''v1'' \<mapsto> RvDataset demo_dataset]"
      "let kv' = [datasetKey ''iris'' ''v1'' \<mapsto> RvDataset demo_dataset] in dataset_added demo_caller Map.empty kv' \<or>
        dataset_deleted demo_caller Map.empty kv' \<or> model_added demo_caller Map.empty kv' \<or> model_deleted demo_caller Map.empty kv'"
    by (auto simp: Let_def)
  have "datasets_of [datasetKey ''iris'' ''v1'' \<mapsto> RvDataset demo_dataset] (''iris'', ''v1'') \<noteq> None" by (simp add: directory_at)
  then have "dataset_added demo_caller Map.empty [datasetKey ''iris'' ''v1'' \<mapsto> RvDataset demo_dataset]"
    using c(2) by (auto simp: Let_def dataset_deleted_def model_added_def model_deleted_def)
  with c(1) h \<open>wa_registry s' = _\<close> show ?thesis by blast
qed

section \<open>Further behaviour\<close>

text \<open>A dry run writes no record.\<close>

lemma registry_dry_run_inert:
  assumes "ParseDryRunParam dry \<noteq> Some False"
  shows "wa_registry (snd (handleRegisterDataset commit allowed now r dry dbody s)) = wa_registry s"
    and "wa_registry (snd (handleRegisterModel commit allowed now r dry mbody s)) = wa_registry s"
proof -
  show "wa_registry (snd (handleRegisterDataset commit allowed now r dry dbody s)) = wa_registry s"
  proof (cases "wa_registry s")
    case (Some kv)
    obtain resp s' where h: "handleRegisterDataset commit allowed now r dry dbody s = (resp, s')" by fastforce
    from handleRegisterDataset_effect [OF this Some] show ?thesis using assms h Some by cases auto
  qed (simp add: handleRegisterDataset_def with_registry_def)
  show "wa_registry (snd (handleRegisterModel commit allowed now r dry mbody s)) = wa_registry s"
  proof (cases "wa_registry s")
    case (Some kv)
    obtain resp s' where h: "handleRegisterModel commit allowed now r dry mbody s = (resp, s')" by fastforce
    from handleRegisterModel_effect [OF this Some] show ?thesis using assms h Some by cases auto
  qed (simp add: handleRegisterModel_def with_registry_def)
qed

text \<open>
  Between the check and the deletion of a delete request the record may be replaced: the request then
  deletes a record its caller was never checked against.
\<close>

lemma delete_deletes_replacement:
  assumes "wa_registry s = Some kv" and "GetDataset n v kv = Inr d" and "Allow (caller r) ActionDelete (Some (dataset_resource n v d)) = None"
    and "interf kv = kv(datasetKey n v \<mapsto> RvDataset d')"
  shows "\<exists>kv'. wa_registry (snd (handleDeleteDataset True interf True r n v s)) = Some kv' \<and> kv' (datasetKey n v) = None"
  using assms by (simp add: handleDeleteDataset_def with_registry_def registry_authz_def DeleteDataset_def reg_Update_def)

text \<open>A version may be called \<open>latest\<close>, although the route of that name never reaches it.\<close>

lemma latest_is_a_version: "ValidateVersion ''latest'' = None"
  by code_simp

end
