(* ===== verification/Share_Api.thy ===== *)
theory Share_Api
  imports Registry_Api
begin

text \<open>
  The share endpoints of the HTTP API (\<open>internal/api/handlers_shares.go\<close>): an owner or an admin grants and
  revokes access to a resource. The code reaches a resource through a \<open>resourceLoader\<close>, one for each kind:
  jobs, workflows, datasets, models. What a handler needs of a loader is the locale \<open>share_resource\<close>,
  interpreted on all four.

  The lemmas show that only owner and admin change a share list, that the list stays within its cap
  with one entry per grantee, that a created share is what the authorization rules then consult,
  and that a revoked grantee has no share left.
\<close>

section \<open>Loaders\<close>

datatype load_error = LoadNotFound | LoadOther

record 's resource_loader =
  rl_load :: "string \<Rightarrow> 's \<Rightarrow> load_error + string \<times> share list"
  rl_save :: "string \<Rightarrow> share list \<Rightarrow> 's \<Rightarrow> bool \<times> 's"

definition jobShareLoader :: "'p saver \<Rightarrow> ('p, 'q) wapi resource_loader" where
  "jobShareLoader save = \<lparr>
     rl_load = (\<lambda>i s. case Get i (ap_jobs (wa_api s)) of Inl _ \<Rightarrow> Inl LoadNotFound | Inr j \<Rightarrow> Inr (j_OwnerPrincipal j, j_Shares j)),
     rl_save = (\<lambda>i shs s. case UpdateShares save i shs (ap_jobs (wa_api s)) of
        (e, js) \<Rightarrow> (e = None, s\<lparr>wa_api := (wa_api s)\<lparr>ap_jobs := js\<rparr>\<rparr>))\<rparr>"

definition workflowShareLoader :: "'q wsaver \<Rightarrow> ('p, 'q) wapi resource_loader" where
  "workflowShareLoader wsave = \<lparr>
     rl_load = (\<lambda>i s. case WorkflowGet i (wa_workflows s) of Inl _ \<Rightarrow> Inl LoadNotFound | Inr w \<Rightarrow> Inr (w_OwnerPrincipal w, w_Shares w)),
     rl_save = (\<lambda>i shs s. case WorkflowUpdateShares wsave i shs (wa_workflows s) of (e, ws) \<Rightarrow> (e = None, s\<lparr>wa_workflows := ws\<rparr>))\<rparr>"

text \<open>The ID of a dataset or model is split at its first slash.\<close>

definition splitRegistryID :: "string \<Rightarrow> (string \<times> string) option" where
  "splitRegistryID i =
     (let k = IndexByte i (CHR ''/'') in
      if k < 0 then None
      else if k = 0 \<or> k = int (length i) - 1 then None
      else Some (take (nat k) i, drop (nat k + 1) i))"

definition registry_load_error :: "reg_error \<Rightarrow> load_error" where
  "registry_load_error e = (if e = ErrNotFound then LoadNotFound else LoadOther)"

definition saveDatasetShares :: "bool \<Rightarrow> string \<Rightarrow> share list \<Rightarrow> ('p, 'q) wapi \<Rightarrow> bool \<times> ('p, 'q) wapi" where
  "saveDatasetShares commit i shs s = (case wa_registry s of None \<Rightarrow> (False, s)
     | Some kv \<Rightarrow> (case splitRegistryID i of None \<Rightarrow> (False, s)
        | Some (name, version) \<Rightarrow> (case UpdateDatasetShares commit name version shs kv of (e, kv) \<Rightarrow> (e = None, s\<lparr>wa_registry := Some kv\<rparr>))))"

definition saveModelShares :: "bool \<Rightarrow> string \<Rightarrow> share list \<Rightarrow> ('p, 'q) wapi \<Rightarrow> bool \<times> ('p, 'q) wapi" where
  "saveModelShares commit i shs s = (case wa_registry s of None \<Rightarrow> (False, s)
     | Some kv \<Rightarrow> (case splitRegistryID i of None \<Rightarrow> (False, s)
        | Some (name, version) \<Rightarrow> (case UpdateModelShares commit name version shs kv of (e, kv) \<Rightarrow> (e = None, s\<lparr>wa_registry := Some kv\<rparr>))))"

definition datasetShareLoader :: "bool \<Rightarrow> ('p, 'q) wapi resource_loader" where
  "datasetShareLoader commit = \<lparr>
     rl_load = (\<lambda>i s. case wa_registry s of None \<Rightarrow> Inl LoadNotFound
        | Some kv \<Rightarrow> (case splitRegistryID i of None \<Rightarrow> Inl LoadNotFound
           | Some (name, version) \<Rightarrow> (case GetDataset name version kv of Inl e \<Rightarrow> Inl (registry_load_error e)
              | Inr d \<Rightarrow> Inr (ds_OwnerPrincipal d, ds_Shares d)))),
     rl_save = saveDatasetShares commit\<rparr>"

definition modelShareLoader :: "bool \<Rightarrow> ('p, 'q) wapi resource_loader" where
  "modelShareLoader commit = \<lparr>
     rl_load = (\<lambda>i s. case wa_registry s of None \<Rightarrow> Inl LoadNotFound
        | Some kv \<Rightarrow> (case splitRegistryID i of None \<Rightarrow> Inl LoadNotFound
           | Some (name, version) \<Rightarrow> (case GetModel name version kv of Inl e \<Rightarrow> Inl (registry_load_error e)
              | Inr m \<Rightarrow> Inr (md_OwnerPrincipal m, md_Shares m)))),
     rl_save = saveModelShares commit\<rparr>"

definition shareLoaderFor :: "'p saver \<Rightarrow> 'q wsaver \<Rightarrow> bool \<Rightarrow> string \<Rightarrow> (resource_kind \<times> ('p, 'q) wapi resource_loader) option" where
  "shareLoaderFor save wsave commit knd =
     (if knd = ''job'' then Some (ResourceKindJob, jobShareLoader save)
      else if knd = ''workflow'' then Some (ResourceKindWorkflow, workflowShareLoader wsave)
      else if knd = ''dataset'' then Some (ResourceKindDataset, datasetShareLoader commit)
      else if knd = ''model'' then Some (ResourceKindModel, modelShareLoader commit)
      else None)"

definition isOwnerOrAdmin :: "api_request \<Rightarrow> string \<Rightarrow> bool" where
  "isOwnerOrAdmin r owner =
     (let p = FromContext (ar_principal r) in
      if IsAdmin (Some p) then True else if owner = [] then False else p_ID p = owner)"

fun mergeShares :: "share list \<Rightarrow> share \<Rightarrow> share list" where
  "mergeShares [] new = [new]"
| "mergeShares (sh # shs) new = (if sh_Grantee sh = sh_Grantee new then new # shs else sh # mergeShares shs new)"

section \<open>Handlers\<close>

record share_request =
  sr_Grantee :: string
  sr_Actions :: "action list"

datatype share_reply = ShNotConfigured | ShError nat share_message | ShForbidden deny_code | ShCreated share | ShList "share list" | ShNoContent
  and share_message = ShUnknownKind | ShNoID | ShNoGrantee | ShDecode | ShInvalid share_error | ShNotFound | ShInternal | ShCap | ShSaveFailed

text \<open>The denial of a share mutation, audited like any other.\<close>

definition deny_mutation :: "api_request \<Rightarrow> resource_kind \<Rightarrow> string \<Rightarrow> string \<Rightarrow> ('p, 'q) wapi \<Rightarrow> share_reply \<times> ('p, 'q) wapi" where
  "deny_mutation r knd i owner s =
     (ShForbidden DenyCodeNotOwner, s\<lparr>wa_api := emitAuthzDeny r
        \<lparr>d_Code = DenyCodeNotOwner, d_Action = ActionWrite, d_Kind = kind_string (p_Kind (FromContext (ar_principal r))), d_ResourceKind = knd\<rparr>
        \<lparr>r_Kind = knd, r_ID = i, r_OwnerPrincipal = owner, r_WorkflowID = [], r_Shares = []\<rparr> (wa_api s)\<rparr>)"

definition auditGroup :: "api_request \<Rightarrow> api_event \<Rightarrow> ('p, 'q) wapi \<Rightarrow> ('p, 'q) wapi" where
  "auditGroup r e s = s\<lparr>wa_api := snd (audit_Log (p_ID (FromContext (ar_principal r))) e (wa_api s))\<rparr>"

definition load_failure :: "load_error \<Rightarrow> share_reply" where
  "load_failure e = (case e of LoadNotFound \<Rightarrow> ShError 404 ShNotFound | LoadOther \<Rightarrow> ShError 500 ShInternal)"

definition handleCreateShare :: "bool \<Rightarrow> time \<Rightarrow> (string \<Rightarrow> (resource_kind \<times> ('p, 'q) wapi resource_loader) option) \<Rightarrow> api_request
    \<Rightarrow> string \<Rightarrow> string \<Rightarrow> share_request option \<Rightarrow> ('p, 'q) wapi \<Rightarrow> share_reply \<times> ('p, 'q) wapi" where
  "handleCreateShare configured now loaders r knd i body s =
     (if \<not> configured then (ShNotConfigured, s)
      else case loaders knd of None \<Rightarrow> (ShError 400 ShUnknownKind, s)
      | Some (rk, loader) \<Rightarrow>
        if i = [] then (ShError 400 ShNoID, s)
        else case body of None \<Rightarrow> (ShError 400 ShDecode, s)
        | Some q \<Rightarrow>
          let new = \<lparr>sh_Grantee = sr_Grantee q, sh_Actions = sr_Actions q, sh_GrantedBy = p_ID (FromContext (ar_principal r)), sh_GrantedAt = now\<rparr> in
          case ValidateShare new of Some e \<Rightarrow> (ShError 400 (ShInvalid e), s)
          | None \<Rightarrow> (case rl_load loader i s of
              Inl e \<Rightarrow> (load_failure e, s)
            | Inr (owner, existing) \<Rightarrow>
                if \<not> isOwnerOrAdmin r owner then deny_mutation r rk i owner s
                else let merged = mergeShares existing new in
                  if 32 < length merged then (ShError 400 ShCap, s)
                  else (case rl_save loader i merged s of
                      (False, s) \<Rightarrow> (ShError 500 ShSaveFailed, s)
                    | (True, s) \<Rightarrow> (ShCreated new, auditGroup r (EventResourceShared knd i (sh_Grantee new) (sh_Actions new) (sh_GrantedBy new)) s))))"

definition handleListShares :: "bool \<Rightarrow> (string \<Rightarrow> (resource_kind \<times> ('p, 'q) wapi resource_loader) option) \<Rightarrow> api_request
    \<Rightarrow> string \<Rightarrow> string \<Rightarrow> ('p, 'q) wapi \<Rightarrow> share_reply \<times> ('p, 'q) wapi" where
  "handleListShares configured loaders r knd i s =
     (if \<not> configured then (ShNotConfigured, s)
      else case loaders knd of None \<Rightarrow> (ShError 400 ShUnknownKind, s)
      | Some (rk, loader) \<Rightarrow>
        if i = [] then (ShError 400 ShNoID, s)
        else (case rl_load loader i s of
              Inl e \<Rightarrow> (load_failure e, s)
            | Inr (owner, shares) \<Rightarrow>
                let res = \<lparr>r_Kind = rk, r_ID = i, r_OwnerPrincipal = owner, r_WorkflowID = [], r_Shares = shares\<rparr> in
                (case Allow (Some (FromContext (ar_principal r))) ActionRead (Some res) of
                   Some de \<Rightarrow> (ShForbidden (d_Code de), s\<lparr>wa_api := emitAuthzDeny r de res (wa_api s)\<rparr>)
                 | None \<Rightarrow> (ShList shares, s))))"

definition handleRevokeShare :: "bool \<Rightarrow> (string \<Rightarrow> (resource_kind \<times> ('p, 'q) wapi resource_loader) option) \<Rightarrow> api_request
    \<Rightarrow> string \<Rightarrow> string \<Rightarrow> string \<Rightarrow> ('p, 'q) wapi \<Rightarrow> share_reply \<times> ('p, 'q) wapi" where
  "handleRevokeShare configured loaders r knd i grantee s =
     (if \<not> configured then (ShNotConfigured, s)
      else case loaders knd of None \<Rightarrow> (ShError 400 ShUnknownKind, s)
      | Some (rk, loader) \<Rightarrow>
        if i = [] then (ShError 400 ShNoID, s)
        else if grantee = [] then (ShError 400 ShNoGrantee, s)
        else (case rl_load loader i s of
              Inl e \<Rightarrow> (load_failure e, s)
            | Inr (owner, existing) \<Rightarrow>
                if \<not> isOwnerOrAdmin r owner then deny_mutation r rk i owner s
                else (case rl_save loader i (filter (\<lambda>sh. sh_Grantee sh \<noteq> grantee) existing) s of
                    (False, s) \<Rightarrow> (ShError 500 ShSaveFailed, s)
                  | (True, s) \<Rightarrow> (ShNoContent, auditGroup r (EventResourceShareRevoked knd i grantee (p_ID (FromContext (ar_principal r)))) s))))"

section \<open>The loader contract\<close>

text \<open>
  What is loaded does not depend on the audit log, a save keeps the owner, and a save that reports
  success is what the next load returns.
\<close>

locale share_resource =
  fixes loader :: "('p, 'q) wapi resource_loader"
  assumes load_audit: "rl_load loader i (s\<lparr>wa_api := snd (audit_Log a e (wa_api s))\<rparr>) = rl_load loader i s"
    and load_saved: "rl_load loader i s = Inr (owner, shs0) \<Longrightarrow> rl_save loader i shs s = (True, s') \<Longrightarrow> rl_load loader i s' = Inr (owner, shs)"
    and load_other: "rl_save loader i shs s = (ok, s') \<Longrightarrow> i' \<noteq> i \<Longrightarrow> rl_load loader i' s' = rl_load loader i' s"
begin

lemma created:
  assumes "handleCreateShare True now loaders r knd i body s = (ShCreated new, s')" and "loaders knd = Some (rk, loader)"
  shows "\<exists>owner shs. rl_load loader i s = Inr (owner, shs) \<and> isOwnerOrAdmin r owner \<and> ValidateShare new = None \<and>
    length (mergeShares shs new) \<le> 32 \<and> rl_load loader i s' = Inr (owner, mergeShares shs new) \<and>
    (\<forall>i'. i' \<noteq> i \<longrightarrow> rl_load loader i' s' = rl_load loader i' s)"
proof -
  from assms obtain owner shs s1 where o: "rl_load loader i s = Inr (owner, shs)" "isOwnerOrAdmin r owner" "ValidateShare new = None"
      "length (mergeShares shs new) \<le> 32" "rl_save loader i (mergeShares shs new) s = (True, s1)"
      "s' = auditGroup r (EventResourceShared knd i (sh_Grantee new) (sh_Actions new) (sh_GrantedBy new)) s1"
    by (auto simp: handleCreateShare_def Let_def deny_mutation_def load_failure_def
        split: if_splits option.splits sum.splits prod.splits bool.splits load_error.splits)
  with load_saved [OF o(1,5)] load_other [OF o(5)] show ?thesis by (auto simp: auditGroup_def load_audit)
qed

lemma revoked:
  assumes "handleRevokeShare True loaders r knd i grantee s = (ShNoContent, s')" and "loaders knd = Some (rk, loader)"
  shows "\<exists>owner shs. rl_load loader i s = Inr (owner, shs) \<and> isOwnerOrAdmin r owner \<and>
    rl_load loader i s' = Inr (owner, filter (\<lambda>sh. sh_Grantee sh \<noteq> grantee) shs) \<and>
    (\<forall>i'. i' \<noteq> i \<longrightarrow> rl_load loader i' s' = rl_load loader i' s)"
proof -
  from assms obtain owner shs s1 where o: "rl_load loader i s = Inr (owner, shs)" "isOwnerOrAdmin r owner"
      "rl_save loader i (filter (\<lambda>sh. sh_Grantee sh \<noteq> grantee) shs) s = (True, s1)"
      "s' = auditGroup r (EventResourceShareRevoked knd i grantee (p_ID (FromContext (ar_principal r)))) s1"
    by (auto simp: handleRevokeShare_def Let_def deny_mutation_def load_failure_def
        split: if_splits option.splits sum.splits prod.splits bool.splits load_error.splits)
  with load_saved [OF o(1,3)] load_other [OF o(3)] show ?thesis by (auto simp: auditGroup_def load_audit)
qed

text \<open>Whoever is neither owner nor admin changes no share list, whatever the request.\<close>

lemma outsider:
  assumes "rl_load loader i s = Inr (owner, shs)" and "\<not> isOwnerOrAdmin r owner" and "loaders knd = Some (rk, loader)"
  shows "rl_load loader i' (snd (handleCreateShare configured now loaders r knd i body s)) = rl_load loader i' s"
    and "rl_load loader i' (snd (handleRevokeShare configured loaders r knd i grantee s)) = rl_load loader i' s"
  using assms by (auto simp: handleCreateShare_def handleRevokeShare_def Let_def deny_mutation_def emitAuthzDeny_def load_audit
      split: option.splits)

end

interpretation job_shares: share_resource "jobShareLoader save"
proof
  fix i s a e
  show "rl_load (jobShareLoader save) i (s\<lparr>wa_api := snd (audit_Log a e (wa_api s))\<rparr>) = rl_load (jobShareLoader save) i s"
    by (simp add: jobShareLoader_def)
qed (auto simp: jobShareLoader_def UpdateShares_def Get_def Let_def split: option.splits prod.splits if_splits)

interpretation workflow_shares: share_resource "workflowShareLoader wsave"
  by unfold_locales
    (auto simp: workflowShareLoader_def WorkflowUpdateShares_def WorkflowGet_def Let_def split: option.splits prod.splits if_splits)

lemma splitRegistryID_Some: "splitRegistryID i = Some (n, v) \<Longrightarrow> i = n @ ''/'' @ v"
  using IndexByte_split [of i "CHR ''/''"] by (auto simp: splitRegistryID_def Let_def split: if_splits)

lemma registry_key_id:
  assumes "splitRegistryID i = Some (n, v)" and "splitRegistryID i' = Some (n', v')" and "i' \<noteq> i"
  shows "datasetKey n' v' \<noteq> datasetKey n v" "modelKey n' v' \<noteq> modelKey n v"
  using splitRegistryID_Some [OF assms(1)] splitRegistryID_Some [OF assms(2)] assms(3) by (auto simp: datasetKey_def modelKey_def)

interpretation dataset_shares: share_resource "datasetShareLoader commit"
proof
  fix i i' :: string and s s' :: "('a, 'b) wapi" and shs ok assume "rl_save (datasetShareLoader commit) i shs s = (ok, s')" "i' \<noteq> i"
  then show "rl_load (datasetShareLoader commit) i' s' = rl_load (datasetShareLoader commit) i' s"
    by (auto simp: datasetShareLoader_def saveDatasetShares_def GetDataset_def UpdateDatasetShares_def reg_Update_def Let_def registry_key_id
        split: option.splits prod.splits if_splits sum.splits)
qed (auto simp: datasetShareLoader_def saveDatasetShares_def GetDataset_def UpdateDatasetShares_def reg_Update_def Let_def decode_dataset_def backfill_shares
      split: option.splits prod.splits if_splits sum.splits reg_value.splits)

interpretation model_shares: share_resource "modelShareLoader commit"
proof
  fix i i' :: string and s s' :: "('a, 'b) wapi" and shs ok assume "rl_save (modelShareLoader commit) i shs s = (ok, s')" "i' \<noteq> i"
  then show "rl_load (modelShareLoader commit) i' s' = rl_load (modelShareLoader commit) i' s"
    by (auto simp: modelShareLoader_def saveModelShares_def GetModel_def UpdateModelShares_def reg_Update_def Let_def registry_key_id
        split: option.splits prod.splits if_splits sum.splits)
qed (auto simp: modelShareLoader_def saveModelShares_def GetModel_def UpdateModelShares_def reg_Update_def Let_def decode_model_def backfill_shares
      split: option.splits prod.splits if_splits sum.splits reg_value.splits)

text \<open>Every loader the handlers can find keeps the contract, and its kind is not the system's.\<close>

lemma loader_contract:
  assumes "shareLoaderFor save wsave commit knd = Some (rk, loader)"
  shows "share_resource loader" and "rk \<noteq> ResourceKindSystem"
  using assms job_shares.share_resource_axioms workflow_shares.share_resource_axioms dataset_shares.share_resource_axioms
    model_shares.share_resource_axioms by (auto simp: shareLoaderFor_def split: if_splits)

section \<open>Merging\<close>

lemma mergeShares_mem: "new \<in> set (mergeShares shs new)"
  by (induction shs) auto

lemma mergeShares_grantees: "set (map sh_Grantee (mergeShares shs new)) = insert (sh_Grantee new) (set (map sh_Grantee shs))"
  by (induction shs) auto

lemma mergeShares_distinct: "distinct (map sh_Grantee shs) \<Longrightarrow> distinct (map sh_Grantee (mergeShares shs new))"
  using mergeShares_grantees by (induction shs) auto

lemma mergeShares_others:
  "distinct (map sh_Grantee shs) \<Longrightarrow> sh_Grantee sh \<noteq> sh_Grantee new \<Longrightarrow> sh \<in> set (mergeShares shs new) \<longleftrightarrow> sh \<in> set shs"
  by (induction shs) auto

section \<open>A shared job and a shared model\<close>

definition demo_shared :: "(badger, badger_wf) wapi" where
  "demo_shared = demo_wapi\<lparr>wa_api := demo_api\<lparr>ap_jobs := (demo_start [])\<lparr>js_jobs := [''j1'' \<mapsto> demo_stored]\<rparr>\<rparr>,
     wa_registry := Some [''models/net/v1'' \<mapsto> RvModel (demo_net ''net'' ''v1'' 6)]\<rparr>"

definition demo_loaders :: "string \<Rightarrow> (resource_kind \<times> (badger, badger_wf) wapi resource_loader) option" where
  "demo_loaders = shareLoaderFor bd_SaveJob bw_SaveWorkflow True"

definition demo_stranger :: api_request where
  "demo_stranger = \<lparr>ar_principal = Some (User ''bob'' ''user''), ar_subject = Some ''bob'', ar_operatorCN = []\<rparr>"

definition demo_share :: share where
  "demo_share = \<lparr>sh_Grantee = ''user:bob'', sh_Actions = [ActionRead], sh_GrantedBy = ''user:alice'', sh_GrantedAt = 10\<rparr>"

lemma demo_shared_simps:
  "FromContext (ar_principal demo_stranger) = User ''bob'' ''user''" "p_ID (User ''bob'' ''user'') = ''user:bob''"
  "demo_loaders ''job'' = Some (ResourceKindJob, jobShareLoader bd_SaveJob)" "demo_loaders ''model'' = Some (ResourceKindModel, modelShareLoader True)"
  "rl_load (jobShareLoader save) ''j1'' demo_shared = Inr (''user:alice'', [])"
  "rl_load (modelShareLoader True) ''net/v1'' demo_shared = Inr (''user:alice'', [])"
  by (simp_all add: demo_shared_def demo_stored_def stored_form_def demo_stranger_def FromContext_def User_def prefix_str_def jobShareLoader_def Get_def
      job_of_request_def zero_job_def demo_loaders_def shareLoaderFor_def modelShareLoader_def splitRegistryID_def GetModel_def modelKey_def
      modelKeyPrefix_def decode_model_def backfillModelOwner_def demo_net_def)

lemma demo_share_saved: "\<exists>s'. rl_save (modelShareLoader True) ''net/v1'' shs demo_shared = (True, s')"
  by (simp add: modelShareLoader_def saveModelShares_def UpdateModelShares_def demo_shared_def splitRegistryID_def modelKey_def modelKeyPrefix_def
      reg_Update_def decode_model_def marshals_def demo_net_def)

section \<open>Properties\<close>

text \<open>Only its owner or an admin changes who a resource is shared with, be it a job, a workflow, a dataset or a
  model: for every other caller the share endpoints leave every share list of that kind as it is,
  whatever the request.\<close>

theorem shares_changed_by_owner_only:
  assumes "shareLoaderFor save wsave commit knd = Some (rk, loader)" and "rl_load loader i s = Inr (owner, shs)"
    and "\<not> IsAdmin (Some (FromContext (ar_principal r)))" and "p_ID (FromContext (ar_principal r)) \<noteq> owner"
  shows "rl_load loader i' (snd (handleCreateShare configured now (shareLoaderFor save wsave commit) r knd i body s)) = rl_load loader i' s \<and>
    rl_load loader i' (snd (handleRevokeShare configured (shareLoaderFor save wsave commit) r knd i grantee s)) = rl_load loader i' s"
proof -
  have no: "\<not> isOwnerOrAdmin r owner" using assms(3,4) by (simp add: isOwnerOrAdmin_def Let_def)
  from share_resource.outsider [OF loader_contract(1) [OF assms(1)] assms(2) no, where loaders = "shareLoaderFor save wsave commit", OF assms(1)]
  show ?thesis by blast
qed

theorem shares_changed_by_owner_only_witness:
  "rl_load (jobShareLoader bd_SaveJob) ''j1'' demo_shared = Inr (''user:alice'', []) \<and>
   rl_load (jobShareLoader bd_SaveJob) ''j1'' (snd (handleCreateShare True 10 demo_loaders demo_stranger ''job'' ''j1''
     (Some \<lparr>sr_Grantee = ''user:bob'', sr_Actions = [ActionRead]\<rparr>) demo_shared)) = Inr (''user:alice'', [])"
  using shares_changed_by_owner_only [of bd_SaveJob bw_SaveWorkflow True "''job''" ResourceKindJob "jobShareLoader bd_SaveJob" "''j1''" demo_shared
      "''user:alice''" "[]" demo_stranger "''j1''" True 10, folded demo_loaders_def]
  by (simp add: demo_shared_simps IsAdmin_def User_def prefix_str_def)

text \<open>A share does what it says: after a share on a resource is created, the resource's list has it, keeps one
  entry per grantee, at most 32, and all entries of others; and every user or operator the grantee
  matches, directly or through a group, may perform each of the listed actions on the resource, unless
  it has the legacy owner.\<close>

theorem share_takes_effect:
  assumes "shareLoaderFor save wsave commit knd = Some (rk, loader)"
    and "handleCreateShare True now (shareLoaderFor save wsave commit) r knd i body s = (ShCreated new, s')"
    and "rl_load loader i s = Inr (owner, shs)" and "distinct (map sh_Grantee shs)"
  shows "\<exists>shs'. rl_load loader i s' = Inr (owner, shs') \<and> new \<in> set shs' \<and> distinct (map sh_Grantee shs') \<and> length shs' \<le> 32 \<and>
    (\<forall>sh. sh_Grantee sh \<noteq> sh_Grantee new \<longrightarrow> sh \<in> set shs' \<longleftrightarrow> sh \<in> set shs) \<and>
    (\<forall>p a w. p_Kind p \<in> {KindUser, KindOperator} \<longrightarrow> matchesGrantee (Some p) (sh_Grantee new) \<longrightarrow> a \<in> set (sh_Actions new) \<longrightarrow>
      owner \<notin> {[], LegacyOwnerID} \<longrightarrow>
      Allow (Some p) a (Some \<lparr>r_Kind = rk, r_ID = i, r_OwnerPrincipal = owner, r_WorkflowID = w, r_Shares = shs'\<rparr>) = None)"
proof -
  from share_resource.created [OF loader_contract(1) [OF assms(1)] assms(2,1)] assms(3)
  have l: "length (mergeShares shs new) \<le> 32" "rl_load loader i s' = Inr (owner, mergeShares shs new)" by auto
  have "Allow (Some p) a (Some \<lparr>r_Kind = rk, r_ID = i, r_OwnerPrincipal = owner, r_WorkflowID = w, r_Shares = mergeShares shs new\<rparr>) = None"
    if "p_Kind p \<in> {KindUser, KindOperator}" "matchesGrantee (Some p) (sh_Grantee new)" "a \<in> set (sh_Actions new)" "owner \<notin> {[], LegacyOwnerID}" for p a w
  proof -
    have "sharesPermit p a (mergeShares shs new)" using that(2,3) mergeShares_mem [of new shs] by (auto simp: sharesPermit_iff)
    with that(1,4) loader_contract(2) [OF assms(1)] show ?thesis by (auto simp: Allow_def)
  qed
  with l mergeShares_mem mergeShares_distinct [OF assms(4)] mergeShares_others [OF assms(4)] show ?thesis by auto
qed

theorem share_takes_effect_witness:
  "\<exists>s' shs'. handleCreateShare True 10 demo_loaders demo_caller ''model'' ''net/v1'' (Some \<lparr>sr_Grantee = ''user:bob'', sr_Actions = [ActionRead]\<rparr>) demo_shared
     = (ShCreated demo_share, s') \<and> rl_load (modelShareLoader True) ''net/v1'' s' = Inr (''user:alice'', shs') \<and>
     Allow (Some (User ''bob'' ''user'')) ActionRead
       (Some \<lparr>r_Kind = ResourceKindModel, r_ID = ''net/v1'', r_OwnerPrincipal = ''user:alice'', r_WorkflowID = [], r_Shares = shs'\<rparr>) = None"
proof -
  have "ValidateShare demo_share = None" by (simp add: demo_share_def) code_simp
  moreover obtain s1 where "rl_save (modelShareLoader True) ''net/v1'' [demo_share] demo_shared = (True, s1)" using demo_share_saved by blast
  ultimately obtain s' where h: "handleCreateShare True 10 demo_loaders demo_caller ''model'' ''net/v1''
      (Some \<lparr>sr_Grantee = ''user:bob'', sr_Actions = [ActionRead]\<rparr>) demo_shared = (ShCreated demo_share, s')"
    by (simp add: handleCreateShare_def Let_def demo_shared_simps demo_caller_simps isOwnerOrAdmin_def flip: demo_share_def)
  have b: "p_Kind (User ''bob'' ''user'') \<in> {KindUser, KindOperator}" "matchesGrantee (Some (User ''bob'' ''user'')) (sh_Grantee demo_share)"
      "ActionRead \<in> set (sh_Actions demo_share)" "''user:alice'' \<notin> {[], LegacyOwnerID}"
    by (simp_all add: User_def prefix_str_def matchesGrantee_def demo_share_def LegacyOwnerID_def)
  from share_takes_effect [OF demo_shared_simps(4) [unfolded demo_loaders_def] h [unfolded demo_loaders_def] demo_shared_simps(6)] b h show ?thesis by fastforce
qed

text \<open>Revocation is complete: after a grantee's share on a resource is revoked, that grantee, if it is a user
  without groups, neither the owner nor an admin, may do nothing with the resource.\<close>

theorem revoked_share_gone:
  assumes "shareLoaderFor save wsave commit knd = Some (rk, loader)"
    and "handleRevokeShare True (shareLoaderFor save wsave commit) r knd i grantee s = (ShNoContent, s')"
    and "p_Kind p = KindUser" and "p_ID p = grantee" and "p_Groups p = []" and "p_Role p \<noteq> ''admin''"
    and "rl_load loader i s' = Inr (owner, shs')" and "owner \<noteq> grantee"
  shows "Allow (Some p) a (Some \<lparr>r_Kind = rk, r_ID = i, r_OwnerPrincipal = owner, r_WorkflowID = w, r_Shares = shs'\<rparr>) \<noteq> None"
proof -
  from share_resource.revoked [OF loader_contract(1) [OF assms(1)] assms(2,1)] assms(7)
  obtain shs where "shs' = filter (\<lambda>sh. sh_Grantee sh \<noteq> grantee) shs" by auto
  then have "\<not> sharesPermit p a shs'" using assms(4,5) by (auto simp: sharesPermit_iff matchesGrantee_def split: if_splits)
  with assms(3,4,6,8) show ?thesis by (auto simp: Allow_def IsAdmin_def denyf_def)
qed

theorem revoked_share_gone_witness:
  "\<exists>s' shs'. handleRevokeShare True demo_loaders demo_caller ''model'' ''net/v1'' ''user:bob'' demo_shared = (ShNoContent, s') \<and>
     rl_load (modelShareLoader True) ''net/v1'' s' = Inr (''user:alice'', shs') \<and>
     Allow (Some (User ''bob'' ''user'')) ActionRead
       (Some \<lparr>r_Kind = ResourceKindModel, r_ID = ''net/v1'', r_OwnerPrincipal = ''user:alice'', r_WorkflowID = [], r_Shares = shs'\<rparr>) \<noteq> None"
proof -
  obtain s1 where s1: "rl_save (modelShareLoader True) ''net/v1'' [] demo_shared = (True, s1)" using demo_share_saved by blast
  then obtain s' where h: "handleRevokeShare True demo_loaders demo_caller ''model'' ''net/v1'' ''user:bob'' demo_shared = (ShNoContent, s')"
    by (simp add: handleRevokeShare_def demo_shared_simps demo_caller_simps isOwnerOrAdmin_def)
  from model_shares.revoked [OF h demo_shared_simps(4)] obtain shs' where l: "rl_load (modelShareLoader True) ''net/v1'' s' = Inr (''user:alice'', shs')"
    by (auto simp: demo_shared_simps)
  from revoked_share_gone [OF demo_shared_simps(4) [unfolded demo_loaders_def] h [unfolded demo_loaders_def], of "User ''bob'' ''user''", OF _ _ _ _ l] h l
  show ?thesis by (simp add: demo_shared_simps User_def prefix_str_def)
qed

end
