(* ===== verification/Kv_Store.thy ===== *)
theory Kv_Store
  imports Go_Strings
begin

text \<open>
  The key-value methods of the BadgerDB persister (\<open>internal/cluster/persistence_kv.go\<close>), which hold tokens
  and revocations. A key holds bytes and possibly the second at which it expires; an expired key reads as
  absent. Every call may fail: the store carries a schedule of failures, one entry for each call.

  The locale \<open>ttl_store\<close> is the interface \<open>auth.TokenStore\<close> with the laws its clients rely on, stated over
  what a key shows at a time; it is interpreted on the BadgerDB adapter of \<open>internal/auth/badger_store.go\<close>.
\<close>

section \<open>BadgerDB\<close>

datatype kv_error = KvNotFound | KvFailed

record kv_entry =
  en_value :: string
  en_expires :: "int option"

record badger_kv =
  kb_entries :: "string \<rightharpoonup> kv_entry"
  kb_faults :: "bool list"

definition live :: "time \<Rightarrow> kv_entry \<Rightarrow> bool" where
  "live now e = (case en_expires e of None \<Rightarrow> True | Some x \<Rightarrow> now div second < x)"

definition kv_look :: "time \<Rightarrow> string \<Rightarrow> badger_kv \<Rightarrow> string option" where
  "kv_look now k st = (case kb_entries st k of None \<Rightarrow> None | Some e \<Rightarrow> if live now e then Some (en_value e) else None)"

definition next_fault :: "badger_kv \<Rightarrow> bool \<times> badger_kv" where
  "next_fault st = (kb_faults st \<noteq> [] \<and> hd (kb_faults st), st\<lparr>kb_faults := tl (kb_faults st)\<rparr>)"

definition kv_Get :: "time \<Rightarrow> string \<Rightarrow> badger_kv \<Rightarrow> (kv_error + string) \<times> badger_kv" where
  "kv_Get now key st = (case next_fault st of
      (True, st) \<Rightarrow> (Inl KvFailed, st)
    | (False, st) \<Rightarrow> (case kv_look now key st of None \<Rightarrow> Inl KvNotFound | Some v \<Rightarrow> Inr v, st))"

definition kv_write :: "string \<Rightarrow> kv_entry option \<Rightarrow> badger_kv \<Rightarrow> bool \<times> badger_kv" where
  "kv_write key e st = (case next_fault st of
      (True, st) \<Rightarrow> (False, st)
    | (False, st) \<Rightarrow> (True, st\<lparr>kb_entries := (kb_entries st)(key := e)\<rparr>))"

definition kv_Put :: "string \<Rightarrow> string \<Rightarrow> badger_kv \<Rightarrow> bool \<times> badger_kv" where
  "kv_Put key v = kv_write key (Some \<lparr>en_value = v, en_expires = None\<rparr>)"

definition PutWithTTL :: "time \<Rightarrow> string \<Rightarrow> string \<Rightarrow> duration \<Rightarrow> badger_kv \<Rightarrow> bool \<times> badger_kv" where
  "PutWithTTL now key v ttl = kv_write key (Some \<lparr>en_value = v, en_expires = Some ((now + ttl) div second)\<rparr>)"

definition kv_Delete :: "string \<Rightarrow> badger_kv \<Rightarrow> bool \<times> badger_kv" where
  "kv_Delete key = kv_write key None"

text \<open>A prefix scan in the order \<open>ord\<close> of the keys, cut at \<open>limit\<close> if that is positive.\<close>

definition kv_Scan :: "string list \<Rightarrow> time \<Rightarrow> string \<Rightarrow> int \<Rightarrow> badger_kv \<Rightarrow> (kv_error + string list) \<times> badger_kv" where
  "kv_Scan ord now prefix limit st = (case next_fault st of
      (True, st) \<Rightarrow> (Inl KvFailed, st)
    | (False, st) \<Rightarrow>
       let vs = List.map_filter (\<lambda>k. if HasPrefix k prefix then kv_look now k st else None) ord in
       (Inr (if 0 < limit then take (nat limit) vs else vs), st))"

section \<open>The token store interface\<close>

record 's token_store =
  ts_Get :: "time \<Rightarrow> string \<Rightarrow> 's \<Rightarrow> (kv_error + string) \<times> 's"
  ts_Put :: "time \<Rightarrow> string \<Rightarrow> string \<Rightarrow> duration \<Rightarrow> 's \<Rightarrow> bool \<times> 's"
  ts_Delete :: "string \<Rightarrow> 's \<Rightarrow> bool \<times> 's"

definition NewStoreAdapter :: "badger_kv token_store" where
  "NewStoreAdapter = \<lparr>ts_Get = kv_Get,
     ts_Put = (\<lambda>now key v ttl. if 0 < ttl then PutWithTTL now key v ttl else kv_Put key v),
     ts_Delete = kv_Delete\<rparr>"

definition in_ttl :: "time \<Rightarrow> duration \<Rightarrow> time \<Rightarrow> bool" where
  "in_ttl now ttl t \<longleftrightarrow> ttl \<le> 0 \<or> t div second < (now + ttl) div second"

text \<open>
  What a client may rely on, over what a key shows at a time (\<open>look\<close>): reads change nothing and tell the
  truth or fail; a successful write shows its value until its time to live is over and leaves every
  other key; a failed write leaves everything; a deleted key shows nothing.
\<close>

locale ttl_store =
  fixes ops :: "'s token_store" and look :: "time \<Rightarrow> string \<Rightarrow> 's \<Rightarrow> string option"
  assumes get_frame: "ts_Get ops now k s = (r, s') \<Longrightarrow> look t k' s' = look t k' s"
    and get_value: "ts_Get ops now k s = (Inr v, s') \<Longrightarrow> look now k s = Some v"
    and get_absent: "ts_Get ops now k s = (Inl KvNotFound, s') \<Longrightarrow> look now k s = None"
    and put_done: "ts_Put ops now k v ttl s = (True, s') \<Longrightarrow> look t k s' = (if in_ttl now ttl t then Some v else None)"
    and put_other: "ts_Put ops now k v ttl s = (b, s') \<Longrightarrow> k' \<noteq> k \<Longrightarrow> look t k' s' = look t k' s"
    and put_failed: "ts_Put ops now k v ttl s = (False, s') \<Longrightarrow> look t k' s' = look t k' s"
    and delete_done: "ts_Delete ops k s = (True, s') \<Longrightarrow> look t k s' = None"
    and delete_other: "ts_Delete ops k s = (b, s') \<Longrightarrow> k' \<noteq> k \<Longrightarrow> look t k' s' = look t k' s"
    and delete_failed: "ts_Delete ops k s = (False, s') \<Longrightarrow> look t k' s' = look t k' s"
begin

text \<open>A key that shows nothing is not found.\<close>

lemma get_missing: "look now k s = None \<Longrightarrow> ts_Get ops now k s = (r, s') \<Longrightarrow> \<exists>e. r = Inl e"
  using get_value by (cases r) fastforce+

text \<open>Nothing a client does to other keys makes a missing key appear.\<close>

lemma missing_stays:
  assumes "\<forall>t. look t k s = None"
  shows "ts_Get ops now k' s = (r, s') \<Longrightarrow> look t k s' = None"
    and "k' \<noteq> k \<Longrightarrow> ts_Put ops now k' v ttl s = (b, s') \<Longrightarrow> look t k s' = None"
    and "ts_Delete ops k' s = (b, s') \<Longrightarrow> look t k s' = None"
proof -
  show "ts_Get ops now k' s = (r, s') \<Longrightarrow> look t k s' = None" using assms get_frame by metis
  show "k' \<noteq> k \<Longrightarrow> ts_Put ops now k' v ttl s = (b, s') \<Longrightarrow> look t k s' = None" using assms put_other by metis
  assume d: "ts_Delete ops k' s = (b, s')"
  show "look t k s' = None"
  proof (cases "k' = k")
    case True
    with d show ?thesis using assms delete_done [of k s s' t] delete_failed [of k s s' t k] by (cases b) auto
  next
    case False
    with d show ?thesis using assms delete_other [of k' s b s' k t] by auto
  qed
qed

end

lemma kv_look_simps [simp]:
  "kv_look t k (st\<lparr>kb_faults := fs\<rparr>) = kv_look t k st"
  "kv_look t k (st\<lparr>kb_entries := (kb_entries st)(k' := e)\<rparr>) =
     (if k = k' then (case e of None \<Rightarrow> None | Some x \<Rightarrow> if live t x then Some (en_value x) else None) else kv_look t k st)"
  by (simp_all add: kv_look_def)

lemma kv_Get_result:
  "kv_Get now k st = (r, st') \<Longrightarrow> st' = st\<lparr>kb_faults := tl (kb_faults st)\<rparr> \<and>
     (r = Inl KvFailed \<or> r = (case kv_look now k st of None \<Rightarrow> Inl KvNotFound | Some v \<Rightarrow> Inr v))"
  by (auto simp: kv_Get_def next_fault_def split: bool.splits)

lemma kv_write_result:
  "kv_write k e st = (b, st') \<Longrightarrow> st' = (if b then st\<lparr>kb_entries := (kb_entries st)(k := e), kb_faults := tl (kb_faults st)\<rparr>
     else st\<lparr>kb_faults := tl (kb_faults st)\<rparr>)"
  by (auto simp: kv_write_def next_fault_def split: bool.splits)

lemma adapter_simps:
  "ts_Get NewStoreAdapter = kv_Get" "ts_Delete NewStoreAdapter k = kv_write k None"
  "ts_Put NewStoreAdapter now k v ttl = kv_write k (Some \<lparr>en_value = v, en_expires = (if 0 < ttl then Some ((now + ttl) div second) else None)\<rparr>)"
  by (simp_all add: NewStoreAdapter_def kv_Put_def PutWithTTL_def kv_Delete_def)

interpretation badger_tokens: ttl_store NewStoreAdapter kv_look
  by unfold_locales
    (auto simp: adapter_simps live_def in_ttl_def dest!: kv_Get_result kv_write_result split: option.splits)

end
