(* ===== verification/Auth_Tokens.thy ===== *)
theory Auth_Tokens
  imports Kv_Store
begin

text \<open>
  The token manager (\<open>internal/auth/jwt.go\<close>): it signs tokens, keeps the ID of every live token in the token
  store, and accepts a token only if the JWT library parses it and its ID is still stored. The operations
  take any \<open>TokenStore\<close>; the JWT library is a parameter of two functions, whose documented behaviour is
  \<open>jwt_law\<close>. Fresh token IDs and secrets are arguments, as are the times.

  The lemmas, proved for every token store that keeps its contract and used on the BadgerDB adapter,
  show that an issued token is accepted exactly until it expires, that a revoked token is never
  accepted again, and that a rotation retires the previous root token.
\<close>

section \<open>Claims and the JWT library\<close>

record claims =
  cl_Subject :: string
  cl_ExpiresAt :: time
  cl_IssuedAt :: time
  cl_ID :: string
  cl_Role :: string
  cl_RequiredCN :: string
  cl_AuthMethod :: string

record jwt =
  jw_Sign :: "string \<Rightarrow> claims \<Rightarrow> string"
  jw_Parse :: "string \<Rightarrow> time \<Rightarrow> string \<Rightarrow> claims option"

text \<open>
  \<open>SignedString\<close> and \<open>ParseWithClaims\<close>: a token signed with a key parses under that key to its claims while it
  has not expired; an expired token does not parse; the claims of a token are in the token itself and do not
  depend on when or with which key it is read.
\<close>

definition jwt_law :: "jwt \<Rightarrow> bool" where
  "jwt_law J \<longleftrightarrow> (\<forall>k c t. t < cl_ExpiresAt c \<longrightarrow> jw_Parse J k t (jw_Sign J k c) = Some c) \<and>
     (\<forall>k t x c. jw_Parse J k t x = Some c \<longrightarrow> t < cl_ExpiresAt c) \<and>
     (\<forall>k k' t t' x c c'. jw_Parse J k t x = Some c \<longrightarrow> jw_Parse J k' t' x = Some c' \<longrightarrow> c' = c)"

text \<open>Dates in a token have a precision of one second.\<close>

definition NewNumericDate :: "time \<Rightarrow> time" where
  "NewNumericDate t = t div second * second"

section \<open>Token manager\<close>

definition JTIPrefix :: string where
  "JTIPrefix = ''auth:jti:''"

definition RootTokenKey :: string where
  "RootTokenKey = ''auth:root_token''"

definition JWTSecretKey :: string where
  "JWTSecretKey = ''auth:jwt_secret''"

definition RootTokenExpiry :: duration where
  "RootTokenExpiry = 10 * 365 * 24 * 3600 * second"

datatype token_error = TokParse | TokExpired | TokRevoked | TokStore | TokNoJTI

record 's token_manager =
  tm_secret :: string
  tm_store :: 's

record token_claims =
  tc_Subject :: string
  tc_Role :: string
  tc_RequiredCN :: string
  tc_AuthMethod :: string
  tc_TTL :: duration

text \<open>Any error of the first read counts as a missing secret, and a new one, \<open>rand\<close>, takes its place.\<close>

definition NewTokenManager :: "'s token_store \<Rightarrow> time \<Rightarrow> string \<Rightarrow> 's \<Rightarrow> 's token_manager option \<times> 's" where
  "NewTokenManager ops now rand st = (case ts_Get ops now JWTSecretKey st of
      (Inr secret, st) \<Rightarrow> (Some \<lparr>tm_secret = secret, tm_store = st\<rparr>, st)
    | (Inl _, st) \<Rightarrow> (case ts_Put ops now JWTSecretKey rand 0 st of
         (False, st) \<Rightarrow> (None, st)
       | (True, st) \<Rightarrow> (Some \<lparr>tm_secret = rand, tm_store = st\<rparr>, st)))"

definition claims_of :: "time \<Rightarrow> string \<Rightarrow> token_claims \<Rightarrow> claims" where
  "claims_of now jti c = \<lparr>cl_Subject = tc_Subject c, cl_ExpiresAt = NewNumericDate (now + tc_TTL c), cl_IssuedAt = NewNumericDate now, cl_ID = jti,
     cl_Role = tc_Role c, cl_RequiredCN = tc_RequiredCN c, cl_AuthMethod = tc_AuthMethod c\<rparr>"

definition GenerateTokenWithClaims :: "'s token_store \<Rightarrow> jwt \<Rightarrow> time \<Rightarrow> string \<Rightarrow> token_claims \<Rightarrow> 's token_manager
    \<Rightarrow> (token_error + string) \<times> 's token_manager" where
  "GenerateTokenWithClaims ops J now jti c tm =
     (let signedToken = jw_Sign J (tm_secret tm) (claims_of now jti c) in
      case ts_Put ops now (JTIPrefix @ jti) (tc_Subject c) (tc_TTL c) (tm_store tm) of
        (False, st) \<Rightarrow> (Inl TokStore, tm\<lparr>tm_store := st\<rparr>)
      | (True, st) \<Rightarrow> (Inr signedToken, tm\<lparr>tm_store := st\<rparr>))"

definition GenerateTokenWithCN :: "'s token_store \<Rightarrow> jwt \<Rightarrow> time \<Rightarrow> string \<Rightarrow> string \<Rightarrow> string \<Rightarrow> string \<Rightarrow> duration \<Rightarrow> 's token_manager
    \<Rightarrow> (token_error + string) \<times> 's token_manager" where
  "GenerateTokenWithCN ops J now jti subject role requiredCN expiry =
     GenerateTokenWithClaims ops J now jti \<lparr>tc_Subject = subject, tc_Role = role, tc_RequiredCN = requiredCN, tc_AuthMethod = [], tc_TTL = expiry\<rparr>"

definition GenerateToken :: "'s token_store \<Rightarrow> jwt \<Rightarrow> time \<Rightarrow> string \<Rightarrow> string \<Rightarrow> string \<Rightarrow> duration \<Rightarrow> 's token_manager
    \<Rightarrow> (token_error + string) \<times> 's token_manager" where
  "GenerateToken ops J now jti subject role expiry = GenerateTokenWithCN ops J now jti subject role [] expiry"

definition ValidateToken :: "'s token_store \<Rightarrow> jwt \<Rightarrow> time \<Rightarrow> string \<Rightarrow> 's token_manager \<Rightarrow> (token_error + claims) \<times> 's token_manager" where
  "ValidateToken ops J now tokenString tm =
     (case jw_Parse J (tm_secret tm) now tokenString of None \<Rightarrow> (Inl TokParse, tm)
      | Some c \<Rightarrow>
        if cl_ExpiresAt c < now then (Inl TokExpired, tm)
        else (case ts_Get ops now (JTIPrefix @ cl_ID c) (tm_store tm) of
            (Inl _, st) \<Rightarrow> (Inl TokRevoked, tm\<lparr>tm_store := st\<rparr>)
          | (Inr _, st) \<Rightarrow> (Inr c, tm\<lparr>tm_store := st\<rparr>)))"

definition RevokeToken :: "'s token_store \<Rightarrow> string \<Rightarrow> 's token_manager \<Rightarrow> bool \<times> 's token_manager" where
  "RevokeToken ops jti tm = (case ts_Delete ops (JTIPrefix @ jti) (tm_store tm) of (b, st) \<Rightarrow> (b, tm\<lparr>tm_store := st\<rparr>))"

text \<open>The first half of a rotation: the stored root token, if it validates, is revoked, and its copy deleted; errors of both are ignored.\<close>

definition retire_root :: "'s token_store \<Rightarrow> jwt \<Rightarrow> time \<Rightarrow> 's token_manager \<Rightarrow> 's token_manager" where
  "retire_root ops J now tm = (case ts_Get ops now RootTokenKey (tm_store tm) of
      (Inl _, st) \<Rightarrow> tm\<lparr>tm_store := st\<rparr>
    | (Inr existing, st) \<Rightarrow>
       let tm = tm\<lparr>tm_store := st\<rparr> in
       if existing = [] then tm
       else
         let tm = (case ValidateToken ops J now existing tm of
               (Inl _, tm) \<Rightarrow> tm
             | (Inr c, tm) \<Rightarrow> snd (RevokeToken ops (cl_ID c) tm)) in
         tm\<lparr>tm_store := snd (ts_Delete ops RootTokenKey (tm_store tm))\<rparr>)"

definition RotateRootToken :: "'s token_store \<Rightarrow> jwt \<Rightarrow> time \<Rightarrow> string \<Rightarrow> 's token_manager \<Rightarrow> (token_error + string) \<times> 's token_manager" where
  "RotateRootToken ops J now jti tm =
     (case GenerateToken ops J now jti ''root'' ''admin'' RootTokenExpiry (retire_root ops J now tm) of
        (Inl e, tm) \<Rightarrow> (Inl e, tm)
      | (Inr tok, tm) \<Rightarrow> (case ts_Put ops now RootTokenKey tok 0 (tm_store tm) of
           (False, st) \<Rightarrow> (Inl TokStore, tm\<lparr>tm_store := st\<rparr>)
         | (True, st) \<Rightarrow> (Inr tok, tm\<lparr>tm_store := st\<rparr>)))"

definition GetRootToken :: "'s token_store \<Rightarrow> time \<Rightarrow> 's token_manager \<Rightarrow> (kv_error + string) \<times> 's token_manager" where
  "GetRootToken ops now tm = (case ts_Get ops now RootTokenKey (tm_store tm) of (r, st) \<Rightarrow> (r, tm\<lparr>tm_store := st\<rparr>))"

definition ExtractJTIFromValidatedToken :: "'s token_store \<Rightarrow> jwt \<Rightarrow> time \<Rightarrow> string \<Rightarrow> 's token_manager \<Rightarrow> (token_error + string) \<times> 's token_manager" where
  "ExtractJTIFromValidatedToken ops J now tok tm = (case ValidateToken ops J now tok tm of
      (Inl e, tm) \<Rightarrow> (Inl e, tm)
    | (Inr c, tm) \<Rightarrow> if cl_ID c = [] then (Inl TokNoJTI, tm) else (Inr (cl_ID c), tm))"

section \<open>Histories\<close>

text \<open>What may happen to a manager: tokens issued under new IDs, validated, revoked, the root token rotated, the coordinator restarted.\<close>

datatype token_op = TkGenerate time string token_claims | TkValidate time string | TkRevoke string | TkRotate time string | TkRestart time string

fun token_exec :: "'s token_store \<Rightarrow> jwt \<Rightarrow> token_op \<Rightarrow> 's token_manager \<Rightarrow> 's token_manager" where
  "token_exec ops J (TkGenerate now jti c) tm = snd (GenerateTokenWithClaims ops J now jti c tm)"
| "token_exec ops J (TkValidate now tok) tm = snd (ValidateToken ops J now tok tm)"
| "token_exec ops J (TkRevoke jti) tm = snd (RevokeToken ops jti tm)"
| "token_exec ops J (TkRotate now jti) tm = snd (RotateRootToken ops J now jti tm)"
| "token_exec ops J (TkRestart now rand) tm = (case NewTokenManager ops now rand (tm_store tm) of (Some tm', st) \<Rightarrow> tm' | (None, st) \<Rightarrow> tm\<lparr>tm_store := st\<rparr>)"

fun issues :: "string \<Rightarrow> token_op \<Rightarrow> bool" where
  "issues jti (TkGenerate now j c) = (j = jti)"
| "issues jti (TkRotate now j) = (j = jti)"
| "issues jti op = False"

definition token_run :: "'s token_store \<Rightarrow> jwt \<Rightarrow> token_op list \<Rightarrow> 's token_manager \<Rightarrow> 's token_manager" where
  "token_run ops J xs tm = fold (token_exec ops J) xs tm"

lemma jti_key_eq [simp]: "JTIPrefix @ a = JTIPrefix @ b \<longleftrightarrow> a = b"
  by simp

lemma root_key_jti [simp]: "JTIPrefix @ a \<noteq> RootTokenKey" "RootTokenKey \<noteq> JTIPrefix @ a" "JWTSecretKey \<noteq> JTIPrefix @ a"
  by (simp_all add: JTIPrefix_def RootTokenKey_def JWTSecretKey_def)

lemma ValidateToken_Inr:
  assumes "ValidateToken ops J now tok tm = (Inr c, tm')"
  obtains v st where "jw_Parse J (tm_secret tm) now tok = Some c" "ts_Get ops now (JTIPrefix @ cl_ID c) (tm_store tm) = (Inr v, st)" "tm' = tm\<lparr>tm_store := st\<rparr>"
  using assms by (auto simp: ValidateToken_def split: option.splits if_splits prod.splits sum.splits)

lemma ValidateToken_state:
  "snd (ValidateToken ops J now tok tm) = tm \<or>
   (\<exists>k r st. ts_Get ops now k (tm_store tm) = (r, st) \<and> snd (ValidateToken ops J now tok tm) = tm\<lparr>tm_store := st\<rparr>)"
proof (cases "jw_Parse J (tm_secret tm) now tok")
  case (Some c)
  obtain r st where g: "ts_Get ops now (JTIPrefix @ cl_ID c) (tm_store tm) = (r, st)" by fastforce
  then show ?thesis by (cases r) (auto simp: ValidateToken_def Some)
qed (simp add: ValidateToken_def)

context ttl_store
begin

text \<open>A manager in whose store the ID shows nothing at any time.\<close>

definition dead :: "string \<Rightarrow> 's token_manager \<Rightarrow> bool" where
  "dead jti tm \<longleftrightarrow> (\<forall>t. look t (JTIPrefix @ jti) (tm_store tm) = None)"

lemma dead_rejected:
  assumes "dead jti tm" and "ValidateToken ops J now tok tm = (Inr c, tm')"
  shows "cl_ID c \<noteq> jti"
proof -
  obtain v st where "ts_Get ops now (JTIPrefix @ cl_ID c) (tm_store tm) = (Inr v, st)" using ValidateToken_Inr [OF assms(2)] by metis
  from get_value [OF this] assms(1) show ?thesis by (auto simp: dead_def)
qed

lemma dead_store:
  assumes "dead jti tm"
  shows "ts_Get ops now k (tm_store tm) = (r, st) \<Longrightarrow> dead jti (tm\<lparr>tm_store := st\<rparr>)"
    and "k \<noteq> JTIPrefix @ jti \<Longrightarrow> ts_Put ops now k v ttl (tm_store tm) = (b, st) \<Longrightarrow> dead jti (tm\<lparr>tm_store := st\<rparr>)"
    and "ts_Delete ops k (tm_store tm) = (b, st) \<Longrightarrow> dead jti (tm\<lparr>tm_store := st\<rparr>)"
  unfolding dead_def using missing_stays [OF assms [unfolded dead_def]] by auto

lemma dead_Validate: "dead jti tm \<Longrightarrow> dead jti (snd (ValidateToken ops J now tok tm))"
  using ValidateToken_state [of ops J now tok tm] dead_store(1) by metis

lemma dead_Revoke: "dead jti tm \<Longrightarrow> dead jti (snd (RevokeToken ops j tm))"
  by (auto simp: RevokeToken_def dest: dead_store(3) split: prod.splits)

lemma RevokeToken_dead: "RevokeToken ops jti tm = (True, tm') \<Longrightarrow> dead jti tm'"
  using delete_done by (auto simp: dead_def RevokeToken_def split: prod.splits)

lemma dead_Generate: "dead jti tm \<Longrightarrow> j \<noteq> jti \<Longrightarrow> dead jti (snd (GenerateTokenWithClaims ops J now j c tm))"
  using dead_store(2) [of jti tm "JTIPrefix @ j"] by (auto simp: GenerateTokenWithClaims_def Let_def split: prod.splits bool.splits)

lemma dead_retire: "dead jti tm \<Longrightarrow> dead jti (retire_root ops J now tm)"
proof -
  assume d: "dead jti tm"
  obtain r st where g: "ts_Get ops now RootTokenKey (tm_store tm) = (r, st)" by fastforce
  let ?tm = "tm\<lparr>tm_store := st\<rparr>"
  have d1: "dead jti ?tm" using dead_store(1) [OF d g] .
  show ?thesis
  proof (cases r)
    case (Inr existing)
    define tm2 where "tm2 = (case ValidateToken ops J now existing ?tm of (Inl _, tm) \<Rightarrow> tm | (Inr c, tm) \<Rightarrow> snd (RevokeToken ops (cl_ID c) tm))"
    have "dead jti tm2" using dead_Validate [OF d1, of J now existing] dead_Revoke by (auto simp: tm2_def split: prod.splits sum.splits)
    then have "dead jti (tm2\<lparr>tm_store := snd (ts_Delete ops RootTokenKey (tm_store tm2))\<rparr>)" using dead_store(3) by (metis prod.collapse)
    with d1 show ?thesis by (simp add: retire_root_def g Inr Let_def flip: tm2_def)
  qed (use d1 in \<open>simp add: retire_root_def g\<close>)
qed

lemma dead_Rotate:
  assumes "dead jti tm" and "j \<noteq> jti"
  shows "dead jti (snd (RotateRootToken ops J now j tm))"
proof -
  obtain r tm1 where g: "GenerateToken ops J now j ''root'' ''admin'' RootTokenExpiry (retire_root ops J now tm) = (r, tm1)" by fastforce
  have d: "dead jti tm1"
    using dead_Generate [OF dead_retire [OF assms(1)] assms(2)] g by (metis GenerateToken_def GenerateTokenWithCN_def snd_conv)
  show ?thesis
  proof (cases r)
    case (Inr tok)
    obtain b st where p: "ts_Put ops now RootTokenKey tok 0 (tm_store tm1) = (b, st)" by fastforce
    from dead_store(2) [OF d _ p] g Inr p show ?thesis by (cases b) (simp_all add: RotateRootToken_def)
  qed (use d g in \<open>simp add: RotateRootToken_def\<close>)
qed

lemma dead_Restart:
  assumes "dead jti tm"
  shows "dead jti (token_exec ops J (TkRestart now rand) tm)"
proof -
  obtain r st where g: "ts_Get ops now JWTSecretKey (tm_store tm) = (r, st)" by fastforce
  obtain b st2 where p: "ts_Put ops now JWTSecretKey rand 0 st = (b, st2)" by fastforce
  have d: "dead jti \<lparr>tm_secret = x, tm_store = st\<rparr>" for x using dead_store(1) [OF assms g] by (simp add: dead_def)
  have "dead jti \<lparr>tm_secret = x, tm_store = st2\<rparr>" for x
    using dead_store(2) [OF d, where k = JWTSecretKey and st = st2] p by (simp add: dead_def)
  with d g p show ?thesis by (cases r; cases b) (simp_all add: NewTokenManager_def dead_def)
qed

lemma dead_run: "dead jti tm \<Longrightarrow> \<forall>x \<in> set xs. \<not> issues jti x \<Longrightarrow> dead jti (token_run ops J xs tm)"
proof (induction xs arbitrary: tm)
  case (Cons x xs)
  have "dead jti (token_exec ops J x tm)"
    using Cons.prems dead_Generate dead_Validate dead_Revoke dead_Rotate dead_Restart by (cases x) (auto simp del: token_exec.simps(5))
  with Cons show ?case by (simp add: token_run_def)
qed (simp add: token_run_def)

end

section \<open>An instance of the library\<close>

text \<open>Functions that obey \<open>jwt_law\<close>: the token is the key and the claims, each field behind its length in unary.\<close>

definition put_field :: "string \<Rightarrow> string" where
  "put_field s = replicate (length s) (CHR ''.'') @ CHR '':'' # s"

fun get_field :: "nat \<Rightarrow> string \<Rightarrow> (string \<times> string) option" where
  "get_field n [] = None"
| "get_field n (c # cs) = (if c = CHR ''.'' then get_field (Suc n) cs else if c = CHR '':'' then Some (take n cs, drop n cs) else None)"

fun get_fields :: "nat \<Rightarrow> string \<Rightarrow> string list option" where
  "get_fields 0 x = (if x = [] then Some [] else None)"
| "get_fields (Suc n) x = (case get_field 0 x of None \<Rightarrow> None | Some (f, r) \<Rightarrow> map_option (Cons f) (get_fields n r))"

definition put_int :: "int \<Rightarrow> string" where
  "put_int x = (if x < 0 then CHR ''-'' else CHR ''+'') # replicate (nat \<bar>x\<bar>) (CHR ''1'')"

definition get_int :: "string \<Rightarrow> int" where
  "get_int s = (if s \<noteq> [] \<and> hd s = CHR ''-'' then - int (length s - 1) else int (length s - 1))"

lemma get_put_int [simp]: "get_int (put_int x) = x"
  by (simp add: get_int_def put_int_def)

lemma get_put_field: "get_field 0 (put_field s @ r) = Some (s, r)"
proof -
  have "get_field n (replicate m (CHR ''.'') @ CHR '':'' # s @ r) = Some (take (n + m) (s @ r), drop (n + m) (s @ r))" for n m
    by (induction m arbitrary: n) simp_all
  from this [of 0 "length s"] show ?thesis by (simp add: put_field_def)
qed

lemma get_put_fields: "get_fields (length fs) (concat (map put_field fs)) = Some fs"
  by (induction fs) (simp_all add: get_put_field)

definition demo_sign :: "string \<Rightarrow> claims \<Rightarrow> string" where
  "demo_sign k c = concat (map put_field [k, cl_Subject c, put_int (cl_ExpiresAt c), put_int (cl_IssuedAt c), cl_ID c, cl_Role c, cl_RequiredCN c, cl_AuthMethod c])"

definition demo_parse :: "string \<Rightarrow> time \<Rightarrow> string \<Rightarrow> claims option" where
  "demo_parse k t x = (case get_fields 8 x of None \<Rightarrow> None
     | Some fs \<Rightarrow> let e = get_int (fs ! 2) in
        if fs ! 0 = k \<and> t < e then Some \<lparr>cl_Subject = fs ! 1, cl_ExpiresAt = e, cl_IssuedAt = get_int (fs ! 3), cl_ID = fs ! 4, cl_Role = fs ! 5,
          cl_RequiredCN = fs ! 6, cl_AuthMethod = fs ! 7\<rparr> else None)"

definition demo_jwt :: jwt where
  "demo_jwt = \<lparr>jw_Sign = demo_sign, jw_Parse = demo_parse\<rparr>"

lemma demo_parse_sign: "t < cl_ExpiresAt c \<Longrightarrow> demo_parse k t (demo_sign k c) = Some c"
  using get_put_fields [of "[k, cl_Subject c, put_int (cl_ExpiresAt c), put_int (cl_IssuedAt c), cl_ID c, cl_Role c, cl_RequiredCN c, cl_AuthMethod c]"]
  by (simp add: demo_parse_def demo_sign_def eval_nat_numeral del: get_fields.simps)

lemma demo_jwt_law: "jwt_law demo_jwt"
  by (auto simp: jwt_law_def demo_jwt_def demo_parse_sign) (auto simp: demo_parse_def Let_def split: option.splits if_splits)

section \<open>Properties\<close>

lemma NewNumericDate_less: "t < NewNumericDate x \<longleftrightarrow> t div second < x div second"
  unfolding NewNumericDate_def by (rule iffI; linarith)

text \<open>A store without pending failures answers.\<close>

lemma kv_calm:
  assumes "kb_faults st = []"
  shows "kv_Get now k st = (case kv_look now k st of None \<Rightarrow> Inl KvNotFound | Some v \<Rightarrow> Inr v, st)"
    and "kv_write k e st = (True, st\<lparr>kb_entries := (kb_entries st)(k := e)\<rparr>)"
  using assms by (simp_all add: kv_Get_def kv_write_def next_fault_def)

lemma stored_token_valid:
  assumes "jwt_law J" and "t < cl_ExpiresAt c" and "kv_look t (JTIPrefix @ cl_ID c) (tm_store tm) = Some v" and "kb_faults (tm_store tm) = []"
  shows "ValidateToken NewStoreAdapter J t (jw_Sign J (tm_secret tm) c) tm = (Inr c, tm)"
  using assms by (simp add: ValidateToken_def adapter_simps kv_calm jwt_law_def)

definition demo_manager :: "badger_kv token_manager" where
  "demo_manager = \<lparr>tm_secret = ''k'', tm_store = \<lparr>kb_entries = Map.empty, kb_faults = []\<rparr>\<rparr>"

definition demo_claims :: token_claims where
  "demo_claims = \<lparr>tc_Subject = ''alice'', tc_Role = ''user'', tc_RequiredCN = [], tc_AuthMethod = [], tc_TTL = 60 * second\<rparr>"

lemma demo_Generate:
  "\<exists>tm'. GenerateTokenWithClaims NewStoreAdapter demo_jwt 0 ''t1'' demo_claims demo_manager = (Inr (demo_sign ''k'' (claims_of 0 ''t1'' demo_claims)), tm') \<and>
     kb_faults (tm_store tm') = []"
  by (simp add: GenerateTokenWithClaims_def demo_manager_def adapter_simps kv_calm demo_jwt_def)

text \<open>A token lives exactly as long as it says: once issued with a positive lifetime, and while the store answers, it is
  accepted, with the claims it was issued with, at precisely the times before its expiry.\<close>

theorem issued_token_lifetime:
  assumes "jwt_law J" and "0 < tc_TTL c" and "GenerateTokenWithClaims NewStoreAdapter J now jti c tm = (Inr tok, tm')" and "kb_faults (tm_store tm') = []"
  shows "fst (ValidateToken NewStoreAdapter J t tok tm') = (if t < cl_ExpiresAt (claims_of now jti c) then Inr (claims_of now jti c) else Inl TokParse)"
proof -
  from assms(3) obtain st where g: "ts_Put NewStoreAdapter now (JTIPrefix @ jti) (tc_Subject c) (tc_TTL c) (tm_store tm) = (True, st)"
      "tok = jw_Sign J (tm_secret tm) (claims_of now jti c)" "tm' = tm\<lparr>tm_store := st\<rparr>"
    by (auto simp: GenerateTokenWithClaims_def Let_def split: prod.splits bool.splits)
  have e: "cl_ExpiresAt (claims_of now jti c) = NewNumericDate (now + tc_TTL c)" "cl_ID (claims_of now jti c) = jti" by (simp_all add: claims_of_def)
  show ?thesis
  proof (cases "t < cl_ExpiresAt (claims_of now jti c)")
    case True
    with assms(2) have "in_ttl now (tc_TTL c) t" by (simp add: in_ttl_def e NewNumericDate_less)
    with badger_tokens.put_done [OF g(1), of t] have "kv_look t (JTIPrefix @ jti) st = Some (tc_Subject c)" by simp
    with stored_token_valid [OF assms(1) True, of tm' "tc_Subject c"] assms(4) True g show ?thesis by (simp add: e)
  next
    case False
    have "jw_Parse J (tm_secret tm) t tok = None"
    proof (rule ccontr)
      assume "jw_Parse J (tm_secret tm) t tok \<noteq> None"
      then obtain c' where c': "jw_Parse J (tm_secret tm) t tok = Some c'" by blast
      have "jw_Parse J (tm_secret tm) (cl_ExpiresAt (claims_of now jti c) - 1) tok = Some (claims_of now jti c)"
        using assms(1) by (simp add: jwt_law_def g(2))
      with c' assms(1) have "c' = claims_of now jti c" "t < cl_ExpiresAt c'" unfolding jwt_law_def by blast+
      with False show False by simp
    qed
    with False g show ?thesis by (simp add: ValidateToken_def)
  qed
qed

theorem issued_token_lifetime_witness:
  "\<exists>tok tm'. GenerateTokenWithClaims NewStoreAdapter demo_jwt 0 ''t1'' demo_claims demo_manager = (Inr tok, tm') \<and>
     fst (ValidateToken NewStoreAdapter demo_jwt (59 * second) tok tm') = Inr (claims_of 0 ''t1'' demo_claims) \<and>
     fst (ValidateToken NewStoreAdapter demo_jwt (60 * second) tok tm') = Inl TokParse"
proof -
  obtain tm' where g: "GenerateTokenWithClaims NewStoreAdapter demo_jwt 0 ''t1'' demo_claims demo_manager = (Inr (demo_sign ''k'' (claims_of 0 ''t1'' demo_claims)), tm')"
      "kb_faults (tm_store tm') = []" using demo_Generate by blast
  have t: "0 < tc_TTL demo_claims" "cl_ExpiresAt (claims_of 0 ''t1'' demo_claims) = 60 * second" by (simp_all add: demo_claims_def claims_of_def NewNumericDate_def)
  from issued_token_lifetime [OF demo_jwt_law t(1) g, of "59 * second"] issued_token_lifetime [OF demo_jwt_law t(1) g, of "60 * second"] g(1)
  show ?thesis by (intro exI [of _ "demo_sign ''k'' (claims_of 0 ''t1'' demo_claims)"] exI [of _ tm']) (simp add: t(2))
qed

text \<open>A revoked token is dead: after a revocation that succeeds, no token with that ID is accepted, at any time and after
  any history of issued, validated, revoked and rotated tokens, store failures included, as long as
  the ID is not issued a second time.\<close>

theorem revoked_token_dead:
  assumes "RevokeToken NewStoreAdapter jti tm = (True, tm1)" and "\<forall>x \<in> set xs. \<not> issues jti x"
    and "ValidateToken NewStoreAdapter J t tok (token_run NewStoreAdapter J xs tm1) = (Inr c, tm2)"
  shows "cl_ID c \<noteq> jti"
  using badger_tokens.dead_rejected [OF badger_tokens.dead_run [OF badger_tokens.RevokeToken_dead [OF assms(1)] assms(2)] assms(3)] .

theorem revoked_token_dead_witness:
  "\<exists>tm1. RevokeToken NewStoreAdapter ''t1'' demo_manager = (True, tm1) \<and>
     fst (ValidateToken NewStoreAdapter demo_jwt 5 (demo_sign ''k'' (claims_of 0 ''t1'' demo_claims)) (token_run NewStoreAdapter demo_jwt [TkGenerate 3 ''t2'' demo_claims] tm1))
       \<noteq> Inr (claims_of 0 ''t1'' demo_claims)"
proof -
  obtain tm1 where r: "RevokeToken NewStoreAdapter ''t1'' demo_manager = (True, tm1)" by (simp add: RevokeToken_def demo_manager_def adapter_simps kv_calm)
  have "\<forall>x \<in> set [TkGenerate 3 ''t2'' demo_claims]. \<not> issues ''t1'' x" by simp
  from revoked_token_dead [OF r this, of demo_jwt 5] have "ValidateToken NewStoreAdapter demo_jwt 5 tok
      (token_run NewStoreAdapter demo_jwt [TkGenerate 3 ''t2'' demo_claims] tm1) \<noteq> (Inr (claims_of 0 ''t1'' demo_claims), tm2)" for tok tm2
    by (fastforce simp: claims_of_def)
  then show ?thesis using r by (metis prod.collapse)
qed

text \<open>A rotation retires the old root token: if it was valid and the store does not fail, then after the rotation neither it
  nor any other token with its ID is accepted again, whatever follows, and the new root token is.\<close>

theorem rotation_retires_root:
  assumes "jwt_law J" and "kb_faults (tm_store tm) = []" and "kv_look now RootTokenKey (tm_store tm) = Some old" and "old \<noteq> []"
    and "ValidateToken NewStoreAdapter J now old tm = (Inr c0, tm0)" and "jti \<noteq> cl_ID c0"
    and "RotateRootToken NewStoreAdapter J now jti tm = (r, tm1)" and "\<forall>x \<in> set xs. \<not> issues (cl_ID c0) x"
  shows "(\<exists>new. r = Inr new \<and> fst (ValidateToken NewStoreAdapter J now new tm1) = Inr (claims_of now jti
      \<lparr>tc_Subject = ''root'', tc_Role = ''admin'', tc_RequiredCN = [], tc_AuthMethod = [], tc_TTL = RootTokenExpiry\<rparr>)) \<and>
    (\<forall>t tm2 c. ValidateToken NewStoreAdapter J t old (token_run NewStoreAdapter J xs tm1) \<noteq> (Inr c, tm2))"
proof -
  let ?c = "\<lparr>tc_Subject = ''root'', tc_Role = ''admin'', tc_RequiredCN = [], tc_AuthMethod = [], tc_TTL = RootTokenExpiry\<rparr>"
  obtain v st where p: "jw_Parse J (tm_secret tm) now old = Some c0" "tm0 = tm"
    using ValidateToken_Inr [OF assms(5)] assms(2) by (auto simp: adapter_simps kv_calm)
  define tmr where "tmr = retire_root NewStoreAdapter J now tm"
  have tmr: "tmr = tm\<lparr>tm_store := (tm_store tm)\<lparr>kb_entries := (kb_entries (tm_store tm))(JTIPrefix @ cl_ID c0 := None, RootTokenKey := None)\<rparr>\<rparr>"
    using assms(2-5) p(2) by (simp add: tmr_def retire_root_def RevokeToken_def adapter_simps kv_calm Let_def)
  define tmg where "tmg = snd (GenerateTokenWithClaims NewStoreAdapter J now jti ?c tmr)"
  have g: "GenerateTokenWithClaims NewStoreAdapter J now jti ?c tmr = (Inr (jw_Sign J (tm_secret tm) (claims_of now jti ?c)), tmg)"
      "kb_faults (tm_store tmg) = []" "tm_secret tmg = tm_secret tm"
      "kv_look now (JTIPrefix @ jti) (tm_store tmg) = Some ''root''"
    using assms(2) by (simp_all add: tmg_def tmr GenerateTokenWithClaims_def adapter_simps kv_calm RootTokenExpiry_def kv_look_def live_def)
  have r: "r = Inr (jw_Sign J (tm_secret tm) (claims_of now jti ?c))"
      "tm1 = tmg\<lparr>tm_store := (tm_store tmg)\<lparr>kb_entries := (kb_entries (tm_store tmg))(RootTokenKey \<mapsto>
        \<lparr>en_value = jw_Sign J (tm_secret tm) (claims_of now jti ?c), en_expires = None\<rparr>)\<rparr>\<rparr>"
    using assms(7) g by (auto simp: RotateRootToken_def GenerateToken_def GenerateTokenWithCN_def adapter_simps kv_calm simp flip: tmr_def)
  have "now < cl_ExpiresAt (claims_of now jti ?c)" by (simp add: claims_of_def NewNumericDate_less RootTokenExpiry_def)
  then have "ValidateToken NewStoreAdapter J now (jw_Sign J (tm_secret tm1) (claims_of now jti ?c)) tm1 = (Inr (claims_of now jti ?c), tm1)"
    by (rule stored_token_valid [OF assms(1), where v = "''root''"]) (use r(2) g in \<open>simp_all add: claims_of_def\<close>)
  moreover have "tm_secret tm1 = tm_secret tm" using r(2) g(3) by simp
  ultimately have new: "\<exists>new. r = Inr new \<and> fst (ValidateToken NewStoreAdapter J now new tm1) = Inr (claims_of now jti ?c)" using r(1) by simp
  have "badger_tokens.dead (cl_ID c0) tmr" by (simp add: badger_tokens.dead_def tmr kv_look_def)
  with assms(6) have "badger_tokens.dead (cl_ID c0) tmg" unfolding tmg_def by (intro badger_tokens.dead_Generate) simp_all
  then have "badger_tokens.dead (cl_ID c0) tm1" by (simp add: badger_tokens.dead_def r(2))
  from badger_tokens.dead_rejected [OF badger_tokens.dead_run [OF this assms(8)]]
  have "ValidateToken NewStoreAdapter J t old (token_run NewStoreAdapter J xs tm1) = (Inr c, tm2) \<Longrightarrow> cl_ID c \<noteq> cl_ID c0" for t c tm2 by blast
  moreover have "ValidateToken NewStoreAdapter J t old (token_run NewStoreAdapter J xs tm1) = (Inr c, tm2) \<Longrightarrow> c = c0" for t c tm2
    using p(1) assms(1) by (auto elim!: ValidateToken_Inr simp: jwt_law_def)
  ultimately show ?thesis using new by blast
qed

theorem rotation_retires_root_witness:
  "\<exists>old tm1 tm2. RotateRootToken NewStoreAdapter demo_jwt 0 ''r1'' demo_manager = (Inr old, tm1) \<and>
     snd (RotateRootToken NewStoreAdapter demo_jwt 5 ''r2'' tm1) = tm2 \<and>
     fst (ValidateToken NewStoreAdapter demo_jwt 5 old tm1) = Inr (claims_of 0 ''r1''
       \<lparr>tc_Subject = ''root'', tc_Role = ''admin'', tc_RequiredCN = [], tc_AuthMethod = [], tc_TTL = RootTokenExpiry\<rparr>) \<and>
     fst (ValidateToken NewStoreAdapter demo_jwt 6 old tm2) \<noteq> fst (ValidateToken NewStoreAdapter demo_jwt 5 old tm1)"
proof -
  let ?c = "claims_of 0 ''r1'' \<lparr>tc_Subject = ''root'', tc_Role = ''admin'', tc_RequiredCN = [], tc_AuthMethod = [], tc_TTL = RootTokenExpiry\<rparr>"
  let ?old = "demo_sign ''k'' ?c"
  obtain tm1 where r: "RotateRootToken NewStoreAdapter demo_jwt 0 ''r1'' demo_manager = (Inr ?old, tm1)" and s: "tm_secret tm1 = ''k''" "kb_faults (tm_store tm1) = []"
      "kv_look 5 RootTokenKey (tm_store tm1) = Some ?old" "kv_look 5 (JTIPrefix @ ''r1'') (tm_store tm1) = Some ''root''"
    by (simp add: RotateRootToken_def retire_root_def GenerateToken_def GenerateTokenWithCN_def GenerateTokenWithClaims_def demo_manager_def adapter_simps
        kv_calm kv_look_def demo_jwt_def live_def RootTokenExpiry_def)
  obtain r2 tm2 where r2: "RotateRootToken NewStoreAdapter demo_jwt 5 ''r2'' tm1 = (r2, tm2)" by fastforce
  have "jw_Sign demo_jwt (tm_secret tm1) ?c = ?old" "cl_ID ?c = ''r1''" "5 < cl_ExpiresAt ?c"
    by (simp_all add: demo_jwt_def s(1) claims_of_def NewNumericDate_def RootTokenExpiry_def)
  with stored_token_valid [OF demo_jwt_law, of 5 ?c tm1 "''root''"] s have v: "ValidateToken NewStoreAdapter demo_jwt 5 ?old tm1 = (Inr ?c, tm1)" by simp
  have "?old \<noteq> []" by (simp add: demo_sign_def put_field_def)
  from rotation_retires_root [OF demo_jwt_law s(2,3) this v _ r2, of "[]"]
  have "ValidateToken NewStoreAdapter demo_jwt 6 ?old tm2 \<noteq> (Inr ?c, tm)" for tm by (simp add: token_run_def \<open>cl_ID ?c = ''r1''\<close>)
  then have "fst (ValidateToken NewStoreAdapter demo_jwt 6 ?old tm2) \<noteq> Inr ?c" by (metis prod.collapse)
  with r r2 v show ?thesis by (intro exI [of _ ?old] exI [of _ tm1] exI [of _ tm2]) simp
qed

section \<open>When the store fails\<close>

text \<open>
  A rotation whose revocation fails still reports success, and the old root token stays valid.
\<close>

lemma rotation_ignores_failed_revocation:
  assumes "jw_Parse J (tm_secret tm) now old = Some c0" and "now \<le> cl_ExpiresAt c0" and "old \<noteq> []" and "jti \<noteq> cl_ID c0"
    and "kv_look now RootTokenKey (tm_store tm) = Some old" and "kv_look now (JTIPrefix @ cl_ID c0) (tm_store tm) = Some v"
    and "kb_faults (tm_store tm) = [False, False, True]"
  shows "\<exists>new tm1. RotateRootToken NewStoreAdapter J now jti tm = (Inr new, tm1) \<and> fst (ValidateToken NewStoreAdapter J now old tm1) = Inr c0"
proof -
  have "retire_root NewStoreAdapter J now tm = tm\<lparr>tm_store := (tm_store tm)\<lparr>kb_entries := (kb_entries (tm_store tm))(RootTokenKey := None), kb_faults := []\<rparr>\<rparr>"
    using assms by (simp add: retire_root_def ValidateToken_def RevokeToken_def adapter_simps kv_Get_def kv_write_def next_fault_def Let_def)
  then show ?thesis using assms
    by (simp add: RotateRootToken_def GenerateToken_def GenerateTokenWithCN_def GenerateTokenWithClaims_def adapter_simps kv_calm ValidateToken_def kv_look_def)
qed

text \<open>
  A start at which the read of the signing secret fails for any reason replaces the secret.
\<close>

lemma failed_read_replaces_secret:
  assumes "kb_faults st = [True]" and "kv_look now JWTSecretKey st = Some secret"
  shows "\<exists>tm st'. NewTokenManager NewStoreAdapter now rand st = (Some tm, st') \<and> tm_secret tm = rand \<and> kv_look now JWTSecretKey st' = Some rand"
  using assms by (simp add: NewTokenManager_def adapter_simps kv_Get_def kv_write_def next_fault_def kv_look_def live_def)

end
