(* ===== verification/Cert_Revocation.thy ===== *)
theory Cert_Revocation
  imports Auth_Tokens "HOL-Library.Multiset"
begin

text \<open>
  The revocation list of operator certificates (\<open>internal/pqcrypto/revocation.go\<close>): a cache of revoked serial
  numbers in front of records in the key-value store. \<open>enc\<close> and \<open>dec\<close> are JSON encoding and decoding of a
  record. A revocation checks the cache, writes the record, and then fills the cache; between the write
  and the last step other revocations may run (\<open>interf\<close>).

  The lemmas show that a revocation holds through every later history of revocations, write failures and
  restarts, that the listing loop sorts, and that serial numbers with leading zeros are not recognised.
\<close>

section \<open>Serial numbers\<close>

record revocation_record =
  rc_SerialHex :: string
  rc_CommonName :: string
  rc_RevokedAt :: time
  rc_RevokedBy :: string
  rc_Reason :: string

definition TrimPrefix :: "string \<Rightarrow> string \<Rightarrow> string" where
  "TrimPrefix s p = (if HasPrefix s p then drop (length p) s else s)"

definition hex_byte :: "char \<Rightarrow> char option" where
  "hex_byte c = (if byte_range 48 57 c \<or> byte_range 97 102 c then Some c
     else if byte_range 65 70 c then Some (char_of (of_char c + 32 :: nat)) else None)"

fun hex_bytes :: "string \<Rightarrow> string option" where
  "hex_bytes [] = Some []"
| "hex_bytes (c # cs) = (case hex_byte c of None \<Rightarrow> None | Some d \<Rightarrow> map_option (Cons d) (hex_bytes cs))"

text \<open>The error value carries only its sentinel.\<close>

definition NormalizeSerialHex :: "string \<Rightarrow> string option" where
  "NormalizeSerialHex raw =
     (let s = TrimPrefix (TrimPrefix (TrimSpace raw) ''0x'') ''0X'' in
      if s = [] then None else if 64 < length s then None else hex_bytes s)"

definition hex_digit :: "nat \<Rightarrow> char" where
  "hex_digit d = char_of (if d < 10 then 48 + d else 87 + d)"

text \<open>\<open>Text(16)\<close> of a number.\<close>

function hex_text :: "nat \<Rightarrow> string" where
  "hex_text n = (if n < 16 then [hex_digit n] else hex_text (n div 16) @ [hex_digit (n mod 16)])"
  by pat_completeness auto
termination
  by (relation "measure id") auto

definition SerialHexFromBigInt :: "nat option \<Rightarrow> string" where
  "SerialHexFromBigInt sn = (case sn of None \<Rightarrow> [] | Some n \<Rightarrow> ToLower (hex_text n))"

definition trimReason :: "string \<Rightarrow> string" where
  "trimReason s = take 512 (TrimSpace s)"

section \<open>Store\<close>

record json_codec =
  jc_enc :: "revocation_record \<Rightarrow> string option"
  jc_dec :: "string \<Rightarrow> revocation_record option"

definition codec_law :: "json_codec \<Rightarrow> bool" where
  "codec_law C \<longleftrightarrow> (\<forall>r b. jc_enc C r = Some b \<longrightarrow> jc_dec C b = Some r)"

record rev_store =
  rs_db :: badger_kv
  rs_cache :: "string \<rightharpoonup> revocation_record"

definition revocationKeyPrefix :: string where
  "revocationKeyPrefix = ''crypto/revoked/''"

definition revocationKey :: "string \<Rightarrow> string" where
  "revocationKey serialHex = revocationKeyPrefix @ serialHex"

fun load_cache :: "json_codec \<Rightarrow> string list \<Rightarrow> (string \<rightharpoonup> revocation_record) \<Rightarrow> (string \<rightharpoonup> revocation_record)" where
  "load_cache C [] cache = cache"
| "load_cache C (body # raw) cache = (case jc_dec C body of
      None \<Rightarrow> load_cache C raw cache
    | Some r \<Rightarrow> if rc_SerialHex r = [] then load_cache C raw cache else load_cache C raw (cache(rc_SerialHex r \<mapsto> r)))"

definition NewBadgerRevocationStore :: "json_codec \<Rightarrow> string list \<Rightarrow> time \<Rightarrow> badger_kv \<Rightarrow> rev_store option \<times> badger_kv" where
  "NewBadgerRevocationStore C ord now db = (case kv_Scan ord now revocationKeyPrefix 0 db of
      (Inl _, db) \<Rightarrow> (None, db)
    | (Inr raw, db) \<Rightarrow> (Some \<lparr>rs_db = db, rs_cache = load_cache C raw Map.empty\<rparr>, db))"

datatype revoke_result = RevokeInvalid | RevokeMarshal | RevokePersist | RevokeOk revocation_record bool

text \<open>The last critical section: the cache is checked again and filled.\<close>

definition fill_cache :: "string \<Rightarrow> revocation_record \<Rightarrow> rev_store \<Rightarrow> revoke_result \<times> rev_store" where
  "fill_cache norm r s = (case rs_cache s norm of Some prior \<Rightarrow> (RevokeOk prior False, s)
     | None \<Rightarrow> (RevokeOk r True, s\<lparr>rs_cache := (rs_cache s)(norm \<mapsto> r)\<rparr>))"

definition Revoke :: "json_codec \<Rightarrow> time \<Rightarrow> (rev_store \<Rightarrow> rev_store) \<Rightarrow> revocation_record \<Rightarrow> rev_store \<Rightarrow> revoke_result \<times> rev_store" where
  "Revoke C now interf rec0 s = (case NormalizeSerialHex (rc_SerialHex rec0) of None \<Rightarrow> (RevokeInvalid, s)
     | Some norm \<Rightarrow>
        let r = rec0\<lparr>rc_SerialHex := norm, rc_Reason := trimReason (rc_Reason rec0),
                  rc_RevokedAt := (if IsZero (rc_RevokedAt rec0) then now else rc_RevokedAt rec0)\<rparr> in
        case rs_cache s norm of Some existing \<Rightarrow> (RevokeOk existing False, s)
        | None \<Rightarrow> (case jc_enc C r of None \<Rightarrow> (RevokeMarshal, s)
          | Some body \<Rightarrow> (case kv_Put (revocationKey norm) body (rs_db s) of
              (False, db) \<Rightarrow> (RevokePersist, s\<lparr>rs_db := db\<rparr>)
            | (True, db) \<Rightarrow> fill_cache norm r (interf (s\<lparr>rs_db := db\<rparr>)))))"

definition CertIsRevoked :: "string \<Rightarrow> rev_store \<Rightarrow> bool" where
  "CertIsRevoked serialHex s = (case NormalizeSerialHex serialHex of None \<Rightarrow> False | Some norm \<Rightarrow> rs_cache s norm \<noteq> None)"

definition rev_Get :: "string \<Rightarrow> rev_store \<Rightarrow> revoke_result + revocation_record option" where
  "rev_Get serialHex s = (case NormalizeSerialHex serialHex of None \<Rightarrow> Inl RevokeInvalid | Some norm \<Rightarrow> Inr (rs_cache s norm))"

text \<open>The two loops of \<open>List\<close>: \<open>out[j]\<close> moves down past every earlier entry it is younger than.\<close>

fun sift :: "nat \<Rightarrow> revocation_record list \<Rightarrow> revocation_record list" where
  "sift 0 xs = xs"
| "sift (Suc j) xs = (if rc_RevokedAt (xs ! j) < rc_RevokedAt (xs ! Suc j) then sift j (xs[j := xs ! Suc j, Suc j := xs ! j]) else xs)"

definition rev_List :: "string list \<Rightarrow> rev_store \<Rightarrow> revocation_record list" where
  "rev_List ord s = (let out = range_values ord (rs_cache s) in fold sift [1..<length out] out)"

text \<open>\<open>big.Int.SetString\<close> in base 16: an optional sign and at least one digit of either case.\<close>

definition hex_value :: "char \<Rightarrow> nat" where
  "hex_value c = (if byte_range 48 57 c then of_char c - 48 else if byte_range 65 70 c then of_char c - 55 else of_char c - 87)"

definition parse_hex :: "string \<Rightarrow> nat" where
  "parse_hex s = fold (\<lambda>c n. 16 * n + hex_value c) s 0"

definition SetString16 :: "string \<Rightarrow> int option" where
  "SetString16 s = (let signed = s \<noteq> [] \<and> (hd s = CHR ''-'' \<or> hd s = CHR ''+''); ds = (if signed then tl s else s) in
     if ds = [] \<or> list_ex (\<lambda>c. hex_byte c = None) ds then None
     else Some (if signed \<and> hd s = CHR ''-'' then - int (parse_hex ds) else int (parse_hex ds)))"

fun crl_entries :: "revocation_record list \<Rightarrow> (int \<times> time) list option" where
  "crl_entries [] = Some []"
| "crl_entries (r # recs) = (case SetString16 (rc_SerialHex r) of None \<Rightarrow> None
     | Some sn \<Rightarrow> map_option (Cons (sn, rc_RevokedAt r)) (crl_entries recs))"

text \<open>The signer of the X.509 library takes the entries, the number and the two dates; \<open>ready\<close> says that the
  authority has its certificate and key.\<close>

record crl_template =
  ct_Entries :: "(int \<times> time) list"
  ct_Number :: int
  ct_ThisUpdate :: time
  ct_NextUpdate :: time

datatype crl_error = CrlNoCA | CrlPast | CrlBadSerial | CrlSign

definition CreateCRLPEM :: "(crl_template \<Rightarrow> string option) \<Rightarrow> bool \<Rightarrow> time \<Rightarrow> revocation_record list \<Rightarrow> time \<Rightarrow> crl_error + string" where
  "CreateCRLPEM sign ready now recs nextUpdate =
     (if \<not> ready then Inl CrlNoCA
      else if nextUpdate < now then Inl CrlPast
      else case crl_entries recs of None \<Rightarrow> Inl CrlBadSerial
       | Some es \<Rightarrow> (case sign \<lparr>ct_Entries = es, ct_Number = now, ct_ThisUpdate = now, ct_NextUpdate = nextUpdate\<rparr> of
            None \<Rightarrow> Inl CrlSign | Some pem \<Rightarrow> Inr pem))"

section \<open>Digits\<close>

definition low_hex :: "char \<Rightarrow> bool" where
  "low_hex c \<longleftrightarrow> byte_range 48 57 c \<or> byte_range 97 102 c"

lemma low_hex_digit: "d < 16 \<Longrightarrow> low_hex (hex_digit d)"
  by (auto simp: low_hex_def hex_digit_def byte_range_def)

declare hex_text.simps [simp del]

lemma hex_text_low: "list_all low_hex (hex_text n)"
proof (induction n rule: hex_text.induct)
  case (1 n)
  then show ?case by (subst hex_text.simps) (simp add: low_hex_digit)
qed

lemma hex_text_not_Nil [simp]: "hex_text n \<noteq> []"
  by (subst hex_text.simps) simp

lemma hex_byte_low: "low_hex c \<Longrightarrow> hex_byte c = Some c"
  by (auto simp: low_hex_def hex_byte_def)

lemma hex_bytes_low: "list_all low_hex s \<Longrightarrow> hex_bytes s = Some s"
  by (induction s) (simp_all add: hex_byte_low)

lemma hex_byte_range: "hex_byte c = Some d \<Longrightarrow> low_hex d"
  by (auto simp: hex_byte_def low_hex_def byte_range_def split: if_splits)

lemma hex_bytes_range: "hex_bytes s = Some t \<Longrightarrow> list_all low_hex t \<and> length t = length s"
  by (induction s arbitrary: t) (auto dest: hex_byte_range split: option.splits)

lemma ToLower_low: "list_all low_hex s \<Longrightarrow> ToLower s = s"
proof (induction s)
  case (Cons c s)
  have "c \<noteq> CHR 0xC4" "c \<noteq> CHR 0xE2" "\<not> byte_range 65 90 c" using Cons.prems by (auto simp: low_hex_def byte_range_def)
  with Cons show ?case by simp
qed simp

lemma low_hex_not_space: "list_all (\<lambda>r. r \<noteq> [] \<and> \<not> low_hex (hd r) \<and> \<not> low_hex (last r)) space_runes"
  by code_simp

lemma unpadded_low: "list_all low_hex s \<Longrightarrow> unpadded s"
  using low_hex_not_space
  by (fastforce simp: unpadded_def list_ex_iff list_all_iff HasPrefix_iff HasSuffix_iff hd_append neq_Nil_conv dest: hd_in_set last_in_set)

lemma not_low_x [simp]: "\<not> low_hex (CHR ''x'')" "\<not> low_hex (CHR ''X'')" "low_hex (CHR ''0'')"
  by code_simp+

lemma TrimPrefix_low: "list_all low_hex s \<Longrightarrow> TrimPrefix s ''0x'' = s \<and> TrimPrefix s ''0X'' = s"
  by (auto simp: TrimPrefix_def HasPrefix_iff)

text \<open>Lower-case digits are their own normal form.\<close>

lemma NormalizeSerialHex_low: "list_all low_hex s \<Longrightarrow> s \<noteq> [] \<Longrightarrow> length s \<le> 64 \<Longrightarrow> NormalizeSerialHex s = Some s"
  by (simp add: NormalizeSerialHex_def TrimSpace_id unpadded_low TrimPrefix_low hex_bytes_low Let_def)

lemma NormalizeSerialHex_Some: "NormalizeSerialHex raw = Some s \<Longrightarrow> list_all low_hex s \<and> s \<noteq> [] \<and> length s \<le> 64"
  using hex_bytes_range by (fastforce simp: NormalizeSerialHex_def Let_def split: if_splits)

lemma NormalizeSerialHex_idem: "NormalizeSerialHex raw = Some s \<Longrightarrow> NormalizeSerialHex s = Some s"
  using NormalizeSerialHex_Some NormalizeSerialHex_low by blast

lemma SerialHexFromBigInt_low: "SerialHexFromBigInt (Some n) = hex_text n"
  by (simp add: SerialHexFromBigInt_def ToLower_low hex_text_low)

lemma parse_hex_snoc: "parse_hex (s @ [c]) = 16 * parse_hex s + hex_value c"
  by (simp add: parse_hex_def)

lemma hex_value_digit: "d < 16 \<Longrightarrow> hex_value (hex_digit d) = d"
  by (auto simp: hex_value_def hex_digit_def byte_range_def)

text \<open>Printing and parsing a serial number are inverse.\<close>

lemma parse_hex_text: "parse_hex (hex_text n) = n"
proof (induction n rule: hex_text.induct)
  case (1 n)
  show ?case
  proof (cases "n < 16")
    case True
    then show ?thesis by (subst hex_text.simps) (simp add: parse_hex_def hex_value_digit)
  next
    case False
    with 1 [OF False] show ?thesis by (subst hex_text.simps) (simp add: parse_hex_snoc hex_value_digit)
  qed
qed

lemma parse_hex_zero: "parse_hex (CHR ''0'' # s) = parse_hex s"
  by (simp add: parse_hex_def hex_value_def byte_range_def)

section \<open>The listing loop\<close>

lemma mset_sift: "j < length xs \<Longrightarrow> mset (sift j xs) = mset xs \<and> length (sift j xs) = length xs"
proof (induction j arbitrary: xs)
  case (Suc j)
  have "mset (xs[j := xs ! Suc j, Suc j := xs ! j]) = mset xs" using Suc.prems mset_swap [of "Suc j" xs j] by (simp add: list_update_swap)
  with Suc show ?case by simp
qed simp

definition rev_newest_first :: "revocation_record list \<Rightarrow> bool" where
  "rev_newest_first xs \<longleftrightarrow> sorted_wrt (\<lambda>a b. rc_RevokedAt b \<le> rc_RevokedAt a) xs"

text \<open>One pass of the inner loop inserts the entry at \<open>j\<close> into the ordered part before it.\<close>

lemma sift_ordered:
  assumes "length ys = j" and "rev_newest_first (ys @ zs)" and "\<forall>z \<in> set zs. rc_RevokedAt z \<le> rc_RevokedAt x"
  shows "\<exists>ws. sift j (ys @ x # zs @ us) = ws @ us \<and> rev_newest_first ws"
  using assms
proof (induction j arbitrary: ys zs)
  case (Suc j)
  then obtain vs y where v: "ys = vs @ [y]" "length vs = j" by (metis length_Suc_conv_rev)
  have nth: "(ys @ x # zs @ us) ! j = y" "(ys @ x # zs @ us) ! Suc j = x" using v by (simp_all add: nth_append)
  have upd: "(ys @ x # zs @ us)[j := x, Suc j := y] = vs @ x # (y # zs) @ us" using v by (simp add: list_update_append)
  show ?case
  proof (cases "rc_RevokedAt y < rc_RevokedAt x")
    case True
    have n: "rev_newest_first (vs @ y # zs)" using Suc.prems v by simp
    have "\<forall>z \<in> set (y # zs). rc_RevokedAt z \<le> rc_RevokedAt x" using True Suc.prems by simp
    from Suc.IH [OF v(2) n this] show ?thesis using True nth upd by simp
  next
    case False
    have "rev_newest_first (ys @ x # zs)" using False Suc.prems v by (auto simp: rev_newest_first_def sorted_wrt_append intro: order_trans)
    with False nth show ?thesis by (intro exI [of _ "ys @ x # zs"]) simp
  qed
next
  case 0
  then show ?case by (intro exI [of _ "x # zs"]) (simp add: rev_newest_first_def)
qed

lemma sift_prefix:
  assumes "i < length xs" and "rev_newest_first (take i xs)"
  shows "rev_newest_first (take (Suc i) (sift i xs))"
proof -
  from sift_ordered [of "take i xs" i "[]" "xs ! i" "drop (Suc i) xs"] assms
  obtain ws where ws: "sift i xs = ws @ drop (Suc i) xs" "rev_newest_first ws" by (auto simp: id_take_nth_drop [symmetric])
  have "length (sift i xs) = length xs" using mset_sift assms(1) by blast
  with ws assms(1) have "length ws = Suc i" by simp
  with ws show ?thesis by simp
qed

lemma sift_loop:
  assumes "m \<le> length xs"
  shows "mset (fold sift [1..<m] xs) = mset xs \<and> length (fold sift [1..<m] xs) = length xs \<and> rev_newest_first (take m (fold sift [1..<m] xs))"
  using assms
proof (induction m)
  case (Suc m)
  show ?case
  proof (cases m)
    case 0
    with Suc.prems show ?thesis by (cases xs) (simp_all add: rev_newest_first_def)
  next
    case (Suc k)
    with Suc.IH Suc.prems mset_sift [of m "fold sift [1..<m] xs"] sift_prefix [of m "fold sift [1..<m] xs"] show ?thesis by simp
  qed
qed (simp add: rev_newest_first_def)

lemma rev_List_sorted:
  "mset (rev_List ord s) = mset (range_values ord (rs_cache s)) \<and> rev_newest_first (rev_List ord s)"
proof -
  let ?out = "range_values ord (rs_cache s)"
  have "rev_List ord s = fold sift [1..<length ?out] ?out" by (simp add: rev_List_def Let_def)
  with sift_loop [of "length ?out" ?out] show ?thesis by (metis order_refl take_all)
qed

section \<open>Histories\<close>

text \<open>What concurrent calls do to the store: any number of revocations, each with others inside it.\<close>

inductive rev_calls :: "json_codec \<Rightarrow> (rev_store \<Rightarrow> rev_store) \<Rightarrow> bool" for C where
  calls_none: "rev_calls C (\<lambda>s. s)"
| calls_revoke: "rev_calls C f \<Longrightarrow> rev_calls C g \<Longrightarrow> rev_calls C (\<lambda>s. g (snd (Revoke C now f r s)))"

text \<open>A history: concurrent calls, a revocation cut off by a crash after its write, writes of other components
  to other keys, and restarts that reload the cache.\<close>

inductive rev_step :: "json_codec \<Rightarrow> rev_store \<Rightarrow> rev_store \<Rightarrow> bool" for C where
  step_calls: "rev_calls C f \<Longrightarrow> rev_step C s (f s)"
| step_torn: "NormalizeSerialHex n = Some (rc_SerialHex r) \<Longrightarrow> jc_enc C r = Some body \<Longrightarrow>
    rev_step C s (s\<lparr>rs_db := snd (kv_Put (revocationKey (rc_SerialHex r)) body (rs_db s))\<rparr>)"
| step_other: "\<not> HasPrefix k revocationKeyPrefix \<Longrightarrow> rev_step C s (s\<lparr>rs_db := snd (kv_write k e (rs_db s))\<rparr>)"
| step_restart: "enumerates ord (kb_entries (rs_db s)) \<Longrightarrow>
    NewBadgerRevocationStore C ord now (rs_db s) = (Some s', db) \<Longrightarrow> rev_step C s s'"

definition rev_inv :: "json_codec \<Rightarrow> rev_store \<Rightarrow> bool" where
  "rev_inv C s \<longleftrightarrow>
     (\<forall>k e. kb_entries (rs_db s) k = Some e \<and> HasPrefix k revocationKeyPrefix \<longrightarrow> en_expires e = None \<and>
        (\<exists>r. jc_enc C r = Some (en_value e) \<and> k = revocationKey (rc_SerialHex r) \<and> NormalizeSerialHex (rc_SerialHex r) = Some (rc_SerialHex r))) \<and>
     (\<forall>n r. rs_cache s n = Some r \<longrightarrow> rc_SerialHex r = n \<and> kb_entries (rs_db s) (revocationKey n) \<noteq> None)"

lemma revocationKey_simps [simp]:
  "HasPrefix (revocationKey n) revocationKeyPrefix" "revocationKey n = revocationKey m \<longleftrightarrow> n = m"
  by (simp_all add: revocationKey_def HasPrefix_iff)

lemma rev_invD:
  assumes "rev_inv C s" and "rs_cache s n = Some r"
  shows "rc_SerialHex r = n" and "NormalizeSerialHex n = Some n" and "\<exists>e r'. kb_entries (rs_db s) (revocationKey n) = Some e \<and> en_expires e = None \<and>
    jc_enc C r' = Some (en_value e) \<and> rc_SerialHex r' = n"
proof -
  from assms obtain e where e: "rc_SerialHex r = n" "kb_entries (rs_db s) (revocationKey n) = Some e" unfolding rev_inv_def by blast
  with assms(1) obtain r' where r: "en_expires e = None" "jc_enc C r' = Some (en_value e)" "revocationKey n = revocationKey (rc_SerialHex r')"
      "NormalizeSerialHex (rc_SerialHex r') = Some (rc_SerialHex r')"
    unfolding rev_inv_def by (metis revocationKey_simps(1))
  show "rc_SerialHex r = n" by (rule e)
  show "NormalizeSerialHex n = Some n" using r by simp
  show "\<exists>e r'. kb_entries (rs_db s) (revocationKey n) = Some e \<and> en_expires e = None \<and> jc_enc C r' = Some (en_value e) \<and> rc_SerialHex r' = n"
    using e r by auto
qed

definition grows :: "rev_store \<Rightarrow> rev_store \<Rightarrow> bool" where
  "grows s s' \<longleftrightarrow> dom (rs_cache s) \<subseteq> dom (rs_cache s')"

lemma grows_trans: "grows s t \<Longrightarrow> grows t u \<Longrightarrow> grows s u"
  by (auto simp: grows_def)

lemma inv_write:
  assumes "rev_inv C s" and "jc_enc C r = Some body" and "NormalizeSerialHex m = Some (rc_SerialHex r)"
  shows "rev_inv C (s\<lparr>rs_db := snd (kv_Put (revocationKey (rc_SerialHex r)) body (rs_db s))\<rparr>)"
  using assms NormalizeSerialHex_idem [OF assms(3)] unfolding rev_inv_def kv_Put_def kv_write_def next_fault_def by (auto split: bool.splits)

lemma inv_other:
  assumes "rev_inv C s" and "\<not> HasPrefix k revocationKeyPrefix"
  shows "rev_inv C (s\<lparr>rs_db := snd (kv_write k e (rs_db s))\<rparr>)"
  using assms unfolding rev_inv_def kv_write_def next_fault_def by (auto split: bool.splits)

text \<open>What a revocation does, given what the calls inside it do.\<close>

lemma Revoke_effect:
  assumes "rev_inv C s" and "\<forall>x. rev_inv C x \<longrightarrow> rev_inv C (f x) \<and> grows x (f x) \<and> (\<forall>k. kb_entries (rs_db x) k \<noteq> None \<longrightarrow> kb_entries (rs_db (f x)) k \<noteq> None)"
    and "Revoke C now f r s = (res, s')"
  shows "rev_inv C s' \<and> grows s s' \<and> (\<forall>k. kb_entries (rs_db s) k \<noteq> None \<longrightarrow> kb_entries (rs_db s') k \<noteq> None) \<and>
    (\<forall>x b. res = RevokeOk x b \<longrightarrow> (\<exists>n. NormalizeSerialHex (rc_SerialHex r) = Some n \<and> rs_cache s' n = Some x))"
proof (cases "NormalizeSerialHex (rc_SerialHex r)")
  case None
  with assms show ?thesis by (simp add: Revoke_def grows_def)
next
  case (Some n)
  define q where "q = r\<lparr>rc_SerialHex := n, rc_Reason := trimReason (rc_Reason r), rc_RevokedAt := (if IsZero (rc_RevokedAt r) then now else rc_RevokedAt r)\<rparr>"
  have q: "rc_SerialHex q = n" by (simp add: q_def)
  show ?thesis
  proof (cases "rs_cache s n = None \<and> jc_enc C q \<noteq> None")
    case False
    with Some assms q_def show ?thesis by (auto simp: Revoke_def grows_def Let_def split: option.splits)
  next
    case True
    then obtain body where c: "rs_cache s n = None" and body: "jc_enc C q = Some body" by blast
    obtain b db where p: "kv_Put (revocationKey n) body (rs_db s) = (b, db)" by fastforce
    have i: "rev_inv C (s\<lparr>rs_db := db\<rparr>)" using inv_write [OF assms(1) body, of "rc_SerialHex r"] Some p q by simp
    have k: "kb_entries db k \<noteq> None" if "kb_entries (rs_db s) k \<noteq> None" for k
      using kv_write_result [OF p [unfolded kv_Put_def]] that by (auto split: if_splits)
    show ?thesis
    proof (cases b)
      case False
      with Some c body p i k assms(3) q_def show ?thesis by (auto simp: Revoke_def grows_def Let_def)
    next
      case b: True
      have kn: "kb_entries db (revocationKey n) \<noteq> None" using kv_write_result [OF p [unfolded kv_Put_def]] b by auto
      let ?x = "f (s\<lparr>rs_db := db\<rparr>)"
      have x: "rev_inv C ?x" "grows (s\<lparr>rs_db := db\<rparr>) ?x" "\<And>k. kb_entries db k \<noteq> None \<Longrightarrow> kb_entries (rs_db ?x) k \<noteq> None"
        using assms(2) i by auto
      have r: "(res, s') = fill_cache n q ?x" using Some c body p b assms(3) q_def by (simp add: Revoke_def Let_def)
      show ?thesis
      proof (cases "rs_cache ?x n")
        case None
        then have s': "s' = ?x\<lparr>rs_cache := (rs_cache ?x)(n \<mapsto> q)\<rparr>" "res = RevokeOk q True" using r by (simp_all add: fill_cache_def)
        have "rev_inv C s'" using x(1) x(3) [OF kn] q unfolding s' rev_inv_def by auto
        with s' x k Some show ?thesis by (auto simp: grows_def)
      next
        case (Some y)
        then show ?thesis using r x k \<open>NormalizeSerialHex (rc_SerialHex r) = Some n\<close> by (auto simp: fill_cache_def grows_def)
      qed
    qed
  qed
qed

lemma rev_calls_effect:
  "rev_calls C f \<Longrightarrow> rev_inv C s \<Longrightarrow>
     rev_inv C (f s) \<and> grows s (f s) \<and> (\<forall>k. kb_entries (rs_db s) k \<noteq> None \<longrightarrow> kb_entries (rs_db (f s)) k \<noteq> None)"
proof (induction arbitrary: s rule: rev_calls.induct)
  case (calls_revoke f g now r)
  obtain res s1 where r: "Revoke C now f r s = (res, s1)" by fastforce
  from calls_revoke Revoke_effect [OF calls_revoke.prems _ r] have "rev_inv C s1" "grows s s1"
      "\<forall>k. kb_entries (rs_db s) k \<noteq> None \<longrightarrow> kb_entries (rs_db s1) k \<noteq> None" by blast+
  with calls_revoke.IH(2) [of s1] r show ?case unfolding grows_def by (metis snd_conv subset_trans)
qed (simp add: grows_def)

lemma load_cache_keeps: "cache n \<noteq> None \<Longrightarrow> load_cache C raw cache n \<noteq> None"
  by (induction raw arbitrary: cache) (auto split: option.splits)

lemma load_cache_loads: "body \<in> set raw \<Longrightarrow> jc_dec C body = Some r \<Longrightarrow> rc_SerialHex r \<noteq> [] \<Longrightarrow> load_cache C raw cache (rc_SerialHex r) \<noteq> None"
proof (induction raw arbitrary: cache)
  case (Cons b raw)
  show ?case
  proof (cases "b = body")
    case True
    then have "load_cache C (b # raw) cache = load_cache C raw (cache(rc_SerialHex r \<mapsto> r))" using Cons.prems by simp
    then show ?thesis using load_cache_keeps [of "cache(rc_SerialHex r \<mapsto> r)" "rc_SerialHex r" C raw] by simp
  next
    case False
    with Cons show ?thesis by (auto split: option.splits)
  qed
qed simp

lemma load_cache_origin:
  "load_cache C raw cache n = Some r \<Longrightarrow> cache n = Some r \<or> (\<exists>body \<in> set raw. jc_dec C body = Some r \<and> rc_SerialHex r = n)"
  by (induction raw arbitrary: cache) (fastforce split: option.splits if_splits)+

text \<open>A restart keeps every revocation.\<close>

lemma restart_effect:
  assumes "codec_law C" and "rev_inv C s" and "enumerates ord (kb_entries (rs_db s))" and "NewBadgerRevocationStore C ord now (rs_db s) = (Some s', db)"
  shows "rev_inv C s' \<and> grows s s'"
proof -
  define raw where "raw = List.map_filter (\<lambda>k. if HasPrefix k revocationKeyPrefix then kv_look now k (rs_db s) else None) ord"
  from assms(4) have s': "rs_db s' = (rs_db s)\<lparr>kb_faults := tl (kb_faults (rs_db s))\<rparr>" "rs_cache s' = load_cache C raw Map.empty"
    by (auto simp: NewBadgerRevocationStore_def kv_Scan_def next_fault_def raw_def Let_def split: bool.splits cong: if_cong)
  have raw: "body \<in> set raw \<longleftrightarrow> (\<exists>k. HasPrefix k revocationKeyPrefix \<and> kv_look now k (rs_db s) = Some body)" for body
    using assms(3) unfolding raw_def List.map_filter_def enumerates_def by (force simp: kv_look_def image_iff split: option.splits if_splits)
  have "rev_inv C s'"
    unfolding rev_inv_def
  proof (intro conjI allI impI)
    fix n r assume "rs_cache s' n = Some r"
    then obtain body k where b: "rc_SerialHex r = n" "jc_dec C body = Some r" "HasPrefix k revocationKeyPrefix" "kv_look now k (rs_db s) = Some body"
      using load_cache_origin [of C raw Map.empty n r] raw s' by auto
    then obtain e where e: "kb_entries (rs_db s) k = Some e" "en_value e = body" by (auto simp: kv_look_def split: option.splits if_splits)
    with assms(2) b(3) obtain r' where "jc_enc C r' = Some body" "k = revocationKey (rc_SerialHex r')" unfolding rev_inv_def by blast
    with assms(1) b have "k = revocationKey n" unfolding codec_law_def by fastforce
    with b e s' show "rc_SerialHex r = n" "kb_entries (rs_db s') (revocationKey n) \<noteq> None" by simp_all
  qed (use assms(2) s' in \<open>auto simp: rev_inv_def\<close>)
  moreover have "rs_cache s' n \<noteq> None" if c: "rs_cache s n = Some r" for n r
  proof -
    from rev_invD [OF assms(2) c] obtain e r' where e: "kb_entries (rs_db s) (revocationKey n) = Some e" "en_expires e = None" "jc_enc C r' = Some (en_value e)"
        "rc_SerialHex r' = n" "NormalizeSerialHex n = Some n" by blast
    then have "kv_look now (revocationKey n) (rs_db s) = Some (en_value e)" by (simp add: kv_look_def live_def)
    then have "en_value e \<in> set raw" using raw revocationKey_simps(1) by blast
    moreover have "jc_dec C (en_value e) = Some r'" using assms(1) e(3) by (simp add: codec_law_def)
    moreover have "n \<noteq> []" using NormalizeSerialHex_Some e(5) by blast
    ultimately show ?thesis using load_cache_loads [of "en_value e" raw C r' Map.empty] s' e(4) by simp
  qed
  ultimately show ?thesis unfolding grows_def by blast
qed

lemma rev_step_effect: "rev_step C s s' \<Longrightarrow> codec_law C \<Longrightarrow> rev_inv C s \<Longrightarrow> rev_inv C s' \<and> grows s s'"
proof (induction rule: rev_step.induct)
  case (step_calls f s)
  then show ?case using rev_calls_effect by blast
next
  case (step_torn n r body s)
  then show ?case using inv_write by (auto simp: grows_def)
next
  case (step_other k s e)
  then show ?case using inv_other by (auto simp: grows_def)
next
  case (step_restart ord s now s' db)
  then show ?case using restart_effect by blast
qed

lemma rev_steps_effect: "(rev_step C)\<^sup>*\<^sup>* s s' \<Longrightarrow> codec_law C \<Longrightarrow> rev_inv C s \<Longrightarrow> rev_inv C s' \<and> grows s s'"
  by (induction rule: rtranclp_induct) (simp add: grows_def, use rev_step_effect grows_trans in blast)

section \<open>An instance of the encoding\<close>

definition demo_codec :: json_codec where
  "demo_codec = \<lparr>jc_enc = (\<lambda>r. Some (concat (map put_field [rc_SerialHex r, rc_CommonName r, put_int (rc_RevokedAt r), rc_RevokedBy r, rc_Reason r]))),
     jc_dec = (\<lambda>x. case get_fields 5 x of None \<Rightarrow> None | Some fs \<Rightarrow>
        Some \<lparr>rc_SerialHex = fs ! 0, rc_CommonName = fs ! 1, rc_RevokedAt = get_int (fs ! 2), rc_RevokedBy = fs ! 3, rc_Reason = fs ! 4\<rparr>)\<rparr>"

lemma demo_codec_law: "codec_law demo_codec"
proof -
  have "jc_dec demo_codec (concat (map put_field [rc_SerialHex r, rc_CommonName r, put_int (rc_RevokedAt r), rc_RevokedBy r, rc_Reason r])) = Some r" for r
    using get_put_fields [of "[rc_SerialHex r, rc_CommonName r, put_int (rc_RevokedAt r), rc_RevokedBy r, rc_Reason r]"]
    by (simp add: demo_codec_def eval_nat_numeral del: get_fields.simps)
  then show ?thesis by (simp add: codec_law_def demo_codec_def del: list.map concat.simps)
qed

definition empty_rev_store :: rev_store where
  "empty_rev_store = \<lparr>rs_db = \<lparr>kb_entries = Map.empty, kb_faults = []\<rparr>, rs_cache = Map.empty\<rparr>"

lemma empty_rev_inv: "kb_entries (rs_db s) = Map.empty \<Longrightarrow> rs_cache s = Map.empty \<Longrightarrow> rev_inv C s"
  by (simp add: rev_inv_def)

section \<open>Properties\<close>

text \<open>A revocation is permanent: once a call reports the serial number as revoked, every spelling of that
  number is recognised as revoked after every later history of concurrent revocations, failed writes,
  crashes in the middle of a revocation and restarts, if it began with an empty list.\<close>

theorem revocation_permanent:
  assumes "codec_law C" and "kb_entries (rs_db s0) = Map.empty" and "rs_cache s0 = Map.empty" and "(rev_step C)\<^sup>*\<^sup>* s0 s"
    and "rev_calls C f" and "Revoke C now f r s = (RevokeOk x b, s1)" and "(rev_step C)\<^sup>*\<^sup>* s1 s2"
    and "NormalizeSerialHex raw = NormalizeSerialHex (rc_SerialHex r)"
  shows "CertIsRevoked raw s2"
proof -
  have "rev_inv C s" using rev_steps_effect [OF assms(4,1)] empty_rev_inv assms(2,3) by blast
  then obtain n where n: "NormalizeSerialHex (rc_SerialHex r) = Some n" "rs_cache s1 n = Some x" and i: "rev_inv C s1"
    using Revoke_effect [OF _ _ assms(6)] rev_calls_effect [OF assms(5)] by blast
  have "grows s1 s2" using rev_steps_effect [OF assms(7,1) i] by blast
  with n have "rs_cache s2 n \<noteq> None" unfolding grows_def by blast
  with n assms(8) show ?thesis by (simp add: CertIsRevoked_def)
qed

definition demo_revocation :: revocation_record where
  "demo_revocation = \<lparr>rc_SerialHex = ''0xAB'', rc_CommonName = ''alice'', rc_RevokedAt = 5, rc_RevokedBy = ''user:root'', rc_Reason = ''lost''\<rparr>"

lemma demo_normal: "NormalizeSerialHex ''0xAB'' = Some ''ab'' \<and> NormalizeSerialHex '' aB'' = Some ''ab''"
  by code_simp

lemma demo_Revoke: "\<exists>x s1. Revoke demo_codec 1 (\<lambda>s. s) demo_revocation empty_rev_store = (RevokeOk x True, s1)"
  by (simp add: Revoke_def demo_revocation_def demo_normal empty_rev_store_def demo_codec_def kv_Put_def kv_write_def next_fault_def fill_cache_def Let_def
      del: list.map concat.simps)

theorem revocation_permanent_witness:
  "\<exists>x s1. Revoke demo_codec 1 (\<lambda>s. s) demo_revocation empty_rev_store = (RevokeOk x True, s1) \<and>
     CertIsRevoked '' aB'' (s1\<lparr>rs_db := snd (kv_write ''jobs/j'' None (rs_db s1))\<rparr>)"
proof -
  obtain x s1 where r: "Revoke demo_codec 1 (\<lambda>s. s) demo_revocation empty_rev_store = (RevokeOk x True, s1)" using demo_Revoke by blast
  have k: "\<not> HasPrefix ''jobs/j'' revocationKeyPrefix" by code_simp
  have "CertIsRevoked '' aB'' (s1\<lparr>rs_db := snd (kv_write ''jobs/j'' None (rs_db s1))\<rparr>)"
    by (rule revocation_permanent [OF demo_codec_law _ _ rtranclp.rtrancl_refl calls_none r r_into_rtranclp [of "rev_step demo_codec", OF step_other [OF k]]])
      (simp_all add: empty_rev_store_def demo_revocation_def demo_normal)
  with r show ?thesis by blast
qed

lemma SetString16_low: "list_all low_hex n \<Longrightarrow> n \<noteq> [] \<Longrightarrow> SetString16 n = Some (int (parse_hex n))"
proof -
  assume n: "list_all low_hex n" "n \<noteq> []"
  have "\<not> low_hex (CHR ''-'')" "\<not> low_hex (CHR ''+'')" by code_simp+
  moreover have "low_hex (hd n)" using n by (cases n) simp_all
  moreover have "\<not> list_ex (\<lambda>c. hex_byte c = None) n" using n(1) by (auto simp: list_ex_iff list_all_iff hex_byte_low)
  ultimately show ?thesis using n(2) by (auto simp: SetString16_def Let_def)
qed

lemma crl_entries_map:
  "\<forall>r \<in> set recs. list_all low_hex (rc_SerialHex r) \<and> rc_SerialHex r \<noteq> [] \<Longrightarrow>
     crl_entries recs = Some (map (\<lambda>r. (int (parse_hex (rc_SerialHex r)), rc_RevokedAt r)) recs)"
  by (induction recs) (simp_all add: SetString16_low)

text \<open>The exported list is complete and ordered: in every reachable state the signer is given, newest first,
  exactly the revoked serial numbers with their dates, so the export fails only when the library does.\<close>

theorem crl_exact:
  assumes "codec_law C" and "kb_entries (rs_db s0) = Map.empty" and "rs_cache s0 = Map.empty" and "(rev_step C)\<^sup>*\<^sup>* s0 s"
    and "enumerates ord (rs_cache s)" and "now \<le> nextUpdate"
  shows "\<exists>es. CreateCRLPEM sign True now (rev_List ord s) nextUpdate =
      (case sign \<lparr>ct_Entries = es, ct_Number = now, ct_ThisUpdate = now, ct_NextUpdate = nextUpdate\<rparr> of None \<Rightarrow> Inl CrlSign | Some pem \<Rightarrow> Inr pem) \<and>
    sorted_wrt (\<lambda>a b. snd b \<le> snd a) es \<and>
    set es = {(int (parse_hex n), rc_RevokedAt r) | n r. rs_cache s n = Some r}"
proof -
  have i: "rev_inv C s" using rev_steps_effect [OF assms(4,1)] empty_rev_inv assms(2,3) by blast
  have "mset (rev_List ord s) = mset (range_values ord (rs_cache s))" using rev_List_sorted by blast
  then have set: "set (rev_List ord s) = ran (rs_cache s)" using set_range_values [OF assms(5)] by (metis set_mset_mset)
  have mem: "rs_cache s (rc_SerialHex r) = Some r \<and> list_all low_hex (rc_SerialHex r) \<and> rc_SerialHex r \<noteq> []" if "r \<in> ran (rs_cache s)" for r
    using that rev_invD(1,2) [OF i] NormalizeSerialHex_Some by (fastforce simp: ran_def)
  let ?es = "map (\<lambda>r. (int (parse_hex (rc_SerialHex r)), rc_RevokedAt r)) (rev_List ord s)"
  have "crl_entries (rev_List ord s) = Some ?es" using crl_entries_map mem set by simp
  moreover have "sorted_wrt (\<lambda>a b. snd b \<le> snd a) ?es" using rev_List_sorted [of ord s] by (simp add: rev_newest_first_def sorted_wrt_map)
  moreover have "set ?es = {(int (parse_hex n), rc_RevokedAt r) | n r. rs_cache s n = Some r}"
    using set mem rev_invD(1) [OF i] by (fastforce simp: ran_def image_iff)
  ultimately show ?thesis using assms(6) by (intro exI [of _ ?es]) (simp add: CreateCRLPEM_def)
qed

lemma demo_Revoke_cache:
  "Revoke demo_codec 1 (\<lambda>s. s) demo_revocation empty_rev_store = (RevokeOk x b, s1) \<Longrightarrow>
     rs_cache s1 = [''ab'' \<mapsto> demo_revocation\<lparr>rc_SerialHex := ''ab'', rc_Reason := trimReason ''lost''\<rparr>]"
  by (auto simp: Revoke_def demo_revocation_def demo_normal empty_rev_store_def demo_codec_def kv_Put_def kv_write_def next_fault_def fill_cache_def Let_def IsZero_def time_zero_def
      simp del: list.map concat.simps)

theorem crl_exact_witness:
  "\<exists>s1. snd (Revoke demo_codec 1 (\<lambda>s. s) demo_revocation empty_rev_store) = s1 \<and>
     CreateCRLPEM (\<lambda>t. if set (ct_Entries t) = {(171, 5)} then Some ''crl'' else None) True 7 (rev_List [''ab''] s1) 9 = Inr ''crl''"
proof -
  obtain x s1 where r: "Revoke demo_codec 1 (\<lambda>s. s) demo_revocation empty_rev_store = (RevokeOk x True, s1)" using demo_Revoke by blast
  have c: "rs_cache s1 = [''ab'' \<mapsto> demo_revocation\<lparr>rc_SerialHex := ''ab'', rc_Reason := trimReason ''lost''\<rparr>]" by (rule demo_Revoke_cache [OF r])
  have "rev_step demo_codec empty_rev_store s1" using step_calls [OF calls_revoke [OF calls_none calls_none], of demo_codec empty_rev_store 1 demo_revocation] r by simp
  moreover have "enumerates [''ab''] (rs_cache s1)" by (simp add: enumerates_def c)
  moreover have "int (parse_hex ''ab'') = 171" by code_simp
  ultimately have "CreateCRLPEM (\<lambda>t. if set (ct_Entries t) = {(171, 5)} then Some ''crl'' else None) True 7 (rev_List [''ab''] s1) 9 = Inr ''crl''"
    using crl_exact [OF demo_codec_law _ _ r_into_rtranclp [of "rev_step demo_codec"], of empty_rev_store s1 "[''ab'']" 7 9
        "\<lambda>t. if set (ct_Entries t) = {(171, 5)} then Some ''crl'' else None"]
    by (auto simp: empty_rev_store_def c demo_revocation_def split: if_splits)
  with r show ?thesis by simp
qed

text \<open>A serial number typed with a leading zero is stored under another key than the one the handshake looks up:
  the revocation reports success, the export lists the number, and the certificate is still accepted.\<close>

lemma leading_zero_unrecognised:
  assumes "length (hex_text n) \<le> 63" and "rs_cache s = Map.empty" and "rc_SerialHex r = CHR ''0'' # hex_text n"
    and "Revoke C now (\<lambda>s. s) r s = (RevokeOk x b, s1)"
  shows "\<not> CertIsRevoked (SerialHexFromBigInt (Some n)) s1 \<and> (\<exists>m. rs_cache s1 m = Some x \<and> SetString16 m = Some (int n))"
proof -
  have z: "NormalizeSerialHex (rc_SerialHex r) = Some (CHR ''0'' # hex_text n)" using assms(1,3) hex_text_low [of n] by (simp add: NormalizeSerialHex_low)
  have h: "NormalizeSerialHex (hex_text n) = Some (hex_text n)" using assms(1) hex_text_low [of n] by (simp add: NormalizeSerialHex_low)
  have ne: "hex_text n \<noteq> CHR ''0'' # hex_text n" by (metis n_not_Suc_n length_Cons)
  from assms(4) z assms(2) have "rs_cache s1 = [CHR ''0'' # hex_text n \<mapsto> x]"
    by (auto simp: Revoke_def fill_cache_def Let_def split: option.splits prod.splits bool.splits)
  with h ne show ?thesis
    using SetString16_low [of "CHR ''0'' # hex_text n"] hex_text_low [of n]
    by (simp add: CertIsRevoked_def SerialHexFromBigInt_low parse_hex_zero parse_hex_text)
qed

end
