(* ===== verification/Artifact_Files.thy ===== *)
theory Artifact_Files
  imports Go_Strings
begin

text \<open>
  The local artifact store of a node (\<open>internal/artifacts/local.go\<close>, \<open>store.go\<close>): objects are files below a root directory,
  named by \<open>file://\<close> URIs. \<open>net/url\<close> is modelled as far as the store uses it: the scheme and the decoded path of a
  parsed URI, and the text of a URI with a path. What the file system does is an argument: \<open>ls_faults\<close> decides
  the system calls that fail, \<open>sha\<close> is the hash function, and \<open>auth_ok\<close> says which authority parts the parser accepts.

  The lemmas show that no URI makes the store touch a file outside its root and that what was stored is read back.
\<close>

section \<open>URLs\<close>

definition shouldEscape :: "char \<Rightarrow> bool" where
  "shouldEscape c \<longleftrightarrow> \<not> (alnum c \<or> c \<in> set ''-_.~'' \<or> c \<in> set ''$&+,/:;=@'')"

definition upperhex :: "nat \<Rightarrow> char" where
  "upperhex d = char_of (if d < 10 then 48 + d else 55 + d)"

definition escape :: "string \<Rightarrow> string" where
  "escape s = concat (map (\<lambda>c. if shouldEscape c then [CHR ''%'', upperhex (of_char c div 16), upperhex (of_char c mod 16)] else [c]) s)"

definition ishex :: "char \<Rightarrow> bool" where
  "ishex c \<longleftrightarrow> byte_range 48 57 c \<or> byte_range 97 102 c \<or> byte_range 65 70 c"

definition unhex :: "char \<Rightarrow> nat" where
  "unhex c = (if byte_range 48 57 c then of_char c - 48 else if byte_range 97 102 c then of_char c - 87 else of_char c - 55)"

fun unescape :: "string \<Rightarrow> string option" where
  "unescape [] = Some []"
| "unescape (c # s) = (if c = CHR ''%'' then
      (case s of a # b # t \<Rightarrow> if ishex a \<and> ishex b then map_option (Cons (char_of (16 * unhex a + unhex b))) (unescape t) else None
       | _ \<Rightarrow> None)
     else map_option (Cons c) (unescape s))"

definition cut_at :: "char \<Rightarrow> string \<Rightarrow> string \<times> string" where
  "cut_at c s = (takeWhile (\<lambda>x. x \<noteq> c) s, drop 1 (dropWhile (\<lambda>x. x \<noteq> c) s))"

text \<open>The scheme and what follows it; \<open>None\<close> for a missing scheme before a colon.\<close>

fun scheme_end :: "nat \<Rightarrow> string \<Rightarrow> nat option option" where
  "scheme_end i [] = Some None"
| "scheme_end i (c # s) =
     (if byte_range 97 122 c \<or> byte_range 65 90 c then scheme_end (Suc i) s
      else if byte_range 48 57 c \<or> c \<in> set ''+-.'' then (if i = 0 then Some None else scheme_end (Suc i) s)
      else if c = CHR '':'' then (if i = 0 then None else Some (Some i))
      else Some None)"

definition getScheme :: "string \<Rightarrow> (string \<times> string) option" where
  "getScheme s = (case scheme_end 0 s of None \<Rightarrow> None | Some None \<Rightarrow> Some ([], s) | Some (Some i) \<Rightarrow> Some (take i s, drop (Suc i) s))"

text \<open>Scheme and path of a parsed URL.\<close>

definition url_Parse :: "(string \<Rightarrow> bool) \<Rightarrow> string \<Rightarrow> (string \<times> string) option" where
  "url_Parse auth_ok raw =
     (let (u, frag) = cut_at (CHR ''#'') raw in
      if list_ex control_byte u then None
      else if u = ''*'' then (if unescape frag = None then None else Some ([], ''*''))
      else case getScheme u of None \<Rightarrow> None
       | Some (scheme, rest0) \<Rightarrow>
          let scheme = ToLower scheme; rest = fst (cut_at (CHR ''?'') rest0) in
          if \<not> HasPrefix rest ''/'' then
            (if scheme \<noteq> [] then (if unescape frag = None then None else Some (scheme, []))
             else if CHR '':'' \<in> set (takeWhile (\<lambda>x. x \<noteq> CHR ''/'') rest) then None
             else case unescape rest of None \<Rightarrow> None | Some p \<Rightarrow> if unescape frag = None then None else Some (scheme, p))
          else
            let auth = (HasPrefix rest ''//'' \<and> (scheme \<noteq> [] \<or> \<not> HasPrefix rest ''///''));
                authority = (if auth then takeWhile (\<lambda>x. x \<noteq> CHR ''/'') (drop 2 rest) else []);
                path = (if auth then dropWhile (\<lambda>x. x \<noteq> CHR ''/'') (drop 2 rest) else rest) in
            if auth \<and> \<not> auth_ok authority then None
            else case unescape path of None \<Rightarrow> None | Some p \<Rightarrow> if unescape frag = None then None else Some (scheme, p))"

section \<open>The store\<close>

datatype artifact_error = ArtNotFound | ArtInvalidKey | ArtInvalidURI | ArtChecksum | ArtSize | ArtIO

record local_store =
  ls_root :: string
  ls_files :: "string \<rightharpoonup> string"
  ls_faults :: "bool list"

definition sys :: "local_store \<Rightarrow> bool \<times> local_store" where
  "sys s = (ls_faults s = [] \<or> \<not> hd (ls_faults s), s\<lparr>ls_faults := tl (ls_faults s)\<rparr>)"

definition PathJoin :: "string \<Rightarrow> string \<Rightarrow> string" where
  "PathJoin a b = (if a = [] then (if b = [] then [] else Clean b) else if b = [] then Clean a else Clean (a @ ''/'' @ b))"

definition sanitizeKey :: "string \<Rightarrow> string option" where
  "sanitizeKey key =
     (if key = [] then None
      else if 1024 < length key then None
      else if list_ex control_byte key then None
      else if CHR 0x5C \<in> set key then None
      else if HasPrefix key ''/'' then None
      else if 2 \<le> length key \<and> key ! 1 = CHR '':'' then None
      else let cleaned = Clean key in
        if cleaned = ''.'' \<or> cleaned = [] then None
        else if ''..'' \<in> set (Split cleaned (CHR ''/'')) then None
        else Some cleaned)"

definition fileURI :: "string \<Rightarrow> string" where
  "fileURI p = ''file://'' @ escape (if HasPrefix p ''/'' then p else CHR ''/'' # p)"

definition pathForURI :: "(string \<Rightarrow> bool) \<Rightarrow> string \<Rightarrow> string \<Rightarrow> string option" where
  "pathForURI auth_ok root uri = (case url_Parse auth_ok uri of None \<Rightarrow> None
     | Some (scheme, path0) \<Rightarrow>
        if scheme \<noteq> ''file'' then None
        else let path = (if 2 < length path0 \<and> path0 ! 0 = CHR ''/'' \<and> path0 ! 2 = CHR '':'' then drop 1 path0 else path0);
                 path = Clean path in
          if HasPrefix (path @ ''/'') (Clean root @ ''/'') then Some path else None)"

text \<open>A call that finds its context cancelled fails like a system call. Directories, the temporary file and the copy come before the size check, the sync and the rename after it.\<close>

definition ls_Put :: "string \<Rightarrow> string \<Rightarrow> int \<Rightarrow> local_store \<Rightarrow> (artifact_error + string) \<times> local_store" where
  "ls_Put key content declared s = (case sanitizeKey key of None \<Rightarrow> (Inl ArtInvalidKey, s)
     | Some rel \<Rightarrow>
        let full = PathJoin (ls_root s) rel in
        case sys s of (False, s) \<Rightarrow> (Inl ArtIO, s)
        | (True, s) \<Rightarrow>
          if 0 \<le> declared \<and> int (length content) \<noteq> declared then (Inl ArtSize, s)
          else case sys s of (False, s) \<Rightarrow> (Inl ArtIO, s)
           | (True, s) \<Rightarrow> (Inr (fileURI full), s\<lparr>ls_files := (ls_files s)(full \<mapsto> content)\<rparr>))"

definition ls_Get :: "(string \<Rightarrow> bool) \<Rightarrow> string \<Rightarrow> local_store \<Rightarrow> (artifact_error + string) \<times> local_store" where
  "ls_Get auth_ok uri s = (case sys s of (False, s) \<Rightarrow> (Inl ArtIO, s) | (True, s) \<Rightarrow>
     case pathForURI auth_ok (ls_root s) uri of None \<Rightarrow> (Inl ArtInvalidURI, s)
     | Some path \<Rightarrow> (case sys s of (False, s) \<Rightarrow> (Inl ArtIO, s)
        | (True, s) \<Rightarrow> (case ls_files s path of None \<Rightarrow> Inl ArtNotFound | Some c \<Rightarrow> Inr c, s)))"

definition ls_Stat :: "(string \<Rightarrow> string) \<Rightarrow> (string \<Rightarrow> bool) \<Rightarrow> string \<Rightarrow> local_store \<Rightarrow> (artifact_error + int \<times> string) \<times> local_store" where
  "ls_Stat sha auth_ok uri s = (case sys s of (False, s) \<Rightarrow> (Inl ArtIO, s) | (True, s) \<Rightarrow>
     case pathForURI auth_ok (ls_root s) uri of None \<Rightarrow> (Inl ArtInvalidURI, s)
     | Some path \<Rightarrow> (case sys s of (False, s) \<Rightarrow> (Inl ArtIO, s)
        | (True, s) \<Rightarrow> (case ls_files s path of None \<Rightarrow> Inl ArtNotFound | Some c \<Rightarrow> Inr (int (length c), sha c), s)))"

definition ls_Delete :: "(string \<Rightarrow> bool) \<Rightarrow> string \<Rightarrow> local_store \<Rightarrow> artifact_error option \<times> local_store" where
  "ls_Delete auth_ok uri s = (case sys s of (False, s) \<Rightarrow> (Some ArtIO, s) | (True, s) \<Rightarrow>
     case pathForURI auth_ok (ls_root s) uri of None \<Rightarrow> (Some ArtInvalidURI, s)
     | Some path \<Rightarrow> (case sys s of (False, s) \<Rightarrow> (Some ArtIO, s)
        | (True, s) \<Rightarrow> if ls_files s path = None then (Some ArtNotFound, s) else (None, s\<lparr>ls_files := (ls_files s)(path := None)\<rparr>)))"

section \<open>Verified reads\<close>

definition fold_hex :: "char \<Rightarrow> char" where
  "fold_hex c = (if byte_range 65 90 c then char_of (of_char c + 32 :: nat) else c)"

definition equalFoldHex :: "string \<Rightarrow> string \<Rightarrow> bool" where
  "equalFoldHex a b \<longleftrightarrow> length a = length b \<and> map fold_hex a = map fold_hex b"

text \<open>The operations of a store that the node uses; \<open>ao_Stream\<close> tells whether reading an open object to its end succeeds.\<close>

record 's art_ops =
  ao_Put :: "string \<Rightarrow> string \<Rightarrow> int \<Rightarrow> 's \<Rightarrow> (artifact_error + string) \<times> 's"
  ao_Get :: "string \<Rightarrow> 's \<Rightarrow> (artifact_error + string) \<times> 's"
  ao_Stat :: "string \<Rightarrow> 's \<Rightarrow> (artifact_error + int \<times> string) \<times> 's"
  ao_Stream :: "'s \<Rightarrow> bool \<times> 's"

definition local_ops :: "(string \<Rightarrow> string) \<Rightarrow> (string \<Rightarrow> bool) \<Rightarrow> local_store art_ops" where
  "local_ops sha auth_ok = \<lparr>ao_Put = ls_Put, ao_Get = ls_Get auth_ok, ao_Stat = ls_Stat sha auth_ok, ao_Stream = sys\<rparr>"

text \<open>\<open>io.Copy\<close> through a limited reader writes at most one byte more than the cap; the bytes written come with the result
  also when the digest is wrong.\<close>

definition GetAndVerifyTo :: "(string \<Rightarrow> string) \<Rightarrow> 's art_ops \<Rightarrow> string \<Rightarrow> string \<Rightarrow> int \<Rightarrow> 's \<Rightarrow> artifact_error option \<times> string \<times> 's" where
  "GetAndVerifyTo sha ops uri expectedHex maxBytes s =
     (if expectedHex = [] then (Some ArtChecksum, [], s)
      else case ao_Get ops uri s of (Inl e, s) \<Rightarrow> (Some e, [], s)
       | (Inr c, s) \<Rightarrow>
          let dst = (if 0 < maxBytes then take (nat maxBytes + 1) c else c) in
          case ao_Stream ops s of (False, s) \<Rightarrow> (Some ArtIO, dst, s)
          | (True, s) \<Rightarrow>
            if 0 < maxBytes \<and> maxBytes < int (length dst) then (Some ArtSize, dst, s)
            else if \<not> equalFoldHex (sha dst) expectedHex then (Some ArtChecksum, dst, s)
            else (None, dst, s))"

definition GetAndVerify :: "(string \<Rightarrow> string) \<Rightarrow> 's art_ops \<Rightarrow> string \<Rightarrow> string \<Rightarrow> int \<Rightarrow> 's \<Rightarrow> (artifact_error + string) \<times> 's" where
  "GetAndVerify sha ops uri expectedHex maxBytes s = (case GetAndVerifyTo sha ops uri expectedHex maxBytes s of
      (Some e, _, s) \<Rightarrow> (Inl e, s) | (None, c, s) \<Rightarrow> (Inr c, s))"

section \<open>Escaping\<close>

lemma upperhex_digit: "d < 16 \<Longrightarrow> ishex (upperhex d) \<and> unhex (upperhex d) = d \<and> \<not> control_byte (upperhex d) \<and> alnum (upperhex d)"
  by (auto simp: upperhex_def ishex_def unhex_def byte_range_def control_byte_def alnum_def)

lemma char_digits: "of_char c div 16 < (16 :: nat)" "of_char c mod 16 < (16 :: nat)"
proof -
  have "of_char (c :: char) < (256 :: nat)" by (rule nat_of_char_less_256)
  then show "of_char c div 16 < (16 :: nat)" by (simp add: less_mult_imp_div_less)
qed simp

lemma escape_byte: "char_of (16 * (of_char c div 16) + of_char c mod 16 :: nat) = c"
  by (metis char_of_char mult.commute div_mult_mod_eq)

lemma unescape_escape: "unescape (escape s) = Some s"
proof (induction s)
  case (Cons c s)
  have p: "shouldEscape (CHR ''%'')" by code_simp
  show ?case
  proof (cases "shouldEscape c")
    case True
    with Cons upperhex_digit [OF char_digits(1) [of c]] upperhex_digit [OF char_digits(2) [of c]] show ?thesis by (simp add: escape_def escape_byte)
  next
    case False
    with p have "c \<noteq> CHR ''%''" by auto
    with False Cons show ?thesis by (simp add: escape_def)
  qed
qed (simp add: escape_def)

lemma escape_plain: "\<not> list_ex shouldEscape s \<Longrightarrow> escape s = s"
  by (induction s) (simp_all add: escape_def)

lemma reserved_escaped: "shouldEscape (CHR ''#'')" "shouldEscape (CHR ''?'')" "control_byte c \<Longrightarrow> shouldEscape c"
proof -
  show "shouldEscape (CHR ''#'')" "shouldEscape (CHR ''?'')" by code_simp+
  assume "control_byte c"
  then show "shouldEscape c" by (auto simp: shouldEscape_def control_byte_def alnum_def byte_range_def)
qed

lemma escape_chars: "x \<in> set (escape s) \<Longrightarrow> x \<noteq> CHR ''#'' \<and> x \<noteq> CHR ''?'' \<and> \<not> control_byte x"
proof -
  assume "x \<in> set (escape s)"
  then obtain c where c: "x \<in> set (if shouldEscape c then [CHR ''%'', upperhex (of_char c div 16), upperhex (of_char c mod 16)] else [c])"
    unfolding escape_def set_concat set_map by blast
  have n: "\<not> alnum (CHR ''#'')" "\<not> alnum (CHR ''?'')" "\<not> control_byte (CHR ''%'')" by code_simp+
  from c reserved_escaped n upperhex_digit [OF char_digits(1) [of c]] upperhex_digit [OF char_digits(2) [of c]] show ?thesis by (auto split: if_splits)
qed

lemma cut_at_notin: "c \<notin> set s \<Longrightarrow> cut_at c s = (s, [])"
  by (induction s) (auto simp: cut_at_def)

lemma url_Parse_file:
  assumes "cut_at (CHR ''#'') raw = (u, [])" and "\<not> list_ex control_byte u" and "u \<noteq> ''*''" and "getScheme u = Some (sc, rest0)"
    and "ToLower sc = ''file''" and "fst (cut_at (CHR ''?'') rest0) = CHR ''/'' # CHR ''/'' # CHR ''/'' # x" and "auth_ok []"
  shows "url_Parse auth_ok raw = map_option (Pair ''file'') (unescape (CHR ''/'' # x))"
  using assms by (simp add: url_Parse_def HasPrefix_iff Let_def split: option.split)

lemma file_scheme: "getScheme (''file:'' @ s) = Some (''file'', s)" "ToLower ''file'' = ''file''"
  by (simp_all add: getScheme_def byte_range_def)

lemma parse_fileURI:
  assumes "auth_ok []" and "HasPrefix p ''/''"
  shows "url_Parse auth_ok (''file://'' @ escape p) = Some (''file'', p)"
proof -
  from assms(2) obtain q where q: "p = CHR ''/'' # q" by (auto simp: HasPrefix_iff)
  have "\<not> shouldEscape (CHR ''/'')" by code_simp
  with q have e: "escape p = CHR ''/'' # escape q" by (simp add: escape_def)
  have f: "c \<notin> set (''file://'' @ escape p)" if "c = CHR ''#'' \<or> c = CHR ''?''" for c using that escape_chars [of c p] by auto
  have ctl: "\<not> list_ex control_byte (''file://'' @ escape p)"
    using escape_chars [of _ p] by (auto simp: list_ex_iff control_byte_def)
  have "CHR ''?'' \<notin> set (CHR ''/'' # CHR ''/'' # escape p)" using escape_chars [of "CHR ''?''" p] by auto
  then have r: "fst (cut_at (CHR ''?'') (CHR ''/'' # CHR ''/'' # escape p)) = CHR ''/'' # CHR ''/'' # CHR ''/'' # escape q"
    using cut_at_notin e by (metis fst_conv)
  have s: "getScheme (''file://'' @ escape p) = Some (''file'', CHR ''/'' # CHR ''/'' # escape p)"
    using file_scheme(1) [of "CHR ''/'' # CHR ''/'' # escape p"] by simp
  have u: "cut_at (CHR ''#'') (''file://'' @ escape p) = (''file://'' @ escape p, [])" by (rule cut_at_notin) (use f in blast)
  have "''file://'' @ escape p \<noteq> ''*''" by simp
  from url_Parse_file [where auth_ok = auth_ok, OF u ctl this s file_scheme(2) r assms(1)] show ?thesis using unescape_escape [of p] by (simp add: e)
qed

section \<open>Paths\<close>

lemma clean_segs_whole:
  assumes "\<forall>s \<in> set out. s \<noteq> [] \<and> s \<noteq> ''.''"
  shows "\<forall>s \<in> set (clean_segs rooted out ss). s \<noteq> [] \<and> s \<noteq> ''.''"
  using assms
proof (induction ss arbitrary: out)
  case (Cons s ss)
  have b: "\<forall>s \<in> set (butlast out). s \<noteq> [] \<and> s \<noteq> ''.''" using Cons.prems by (meson in_set_butlastD)
  have "\<forall>x \<in> set (out @ [''..'']). x \<noteq> [] \<and> x \<noteq> ''.''" "s \<noteq> [] \<Longrightarrow> s \<noteq> ''.'' \<Longrightarrow> \<forall>x \<in> set (out @ [s]). x \<noteq> [] \<and> x \<noteq> ''.''"
    using Cons.prems by auto
  with b Cons.prems Cons.IH show ?case unfolding clean_segs.simps by presburger
qed simp

lemma clean_segs_parts: "set (clean_segs rooted out ss) \<subseteq> set out \<union> set ss"
proof (induction ss arbitrary: out)
  case (Cons s ss)
  have "set (butlast out) \<subseteq> set out" by (auto dest: in_set_butlastD)
  with Cons.IH [of out] Cons.IH [of "butlast out"] Cons.IH [of "out @ [s]"] Cons.IH [of "out @ [''..'']"] show ?case by auto
qed simp

text \<open>A sanitised key is a plain relative path.\<close>

lemma sanitizeKey_plain:
  assumes "sanitizeKey key = Some rel"
  shows "list_all plain_seg (Split rel (CHR ''/'')) \<and> rel \<noteq> []"
proof -
  from assms have k: "key \<noteq> []" "hd key \<noteq> CHR ''/''" "rel = Clean key" "rel \<noteq> ''.''" "rel \<noteq> []" "''..'' \<notin> set (Split rel (CHR ''/''))"
    unfolding sanitizeKey_def Let_def by (auto simp: HasPrefix_iff split: if_splits) (metis append_Cons append_Nil list.collapse)+
  let ?segs = "clean_segs False [] (Split key (CHR ''/''))"
  have r: "?segs \<noteq> []" "rel = Join ?segs ''/''" using k by (auto simp: Clean_def Let_def split: if_splits)
  have "\<forall>s \<in> set ?segs. CHR ''/'' \<notin> set s" using clean_segs_parts [of False "[]" "Split key (CHR ''/'')"] Split_parts by auto
  with r have "Split rel (CHR ''/'') = ?segs" using Split_Join by blast
  with k(5,6) clean_segs_whole [of "[]" False "Split key (CHR ''/'')"] show ?thesis by (auto simp: list_all_iff plain_seg_def)
qed

text \<open>A clean directory other than the root of the file system; a store's root, as \<open>NewLocalStore\<close> leaves it, has no colon where
  a drive letter would have one.\<close>

definition clean_dir :: "string \<Rightarrow> bool" where
  "clean_dir root \<longleftrightarrow> HasPrefix root ''/'' \<and> Clean root = root \<and> root \<noteq> ''/''"

definition root_ok :: "string \<Rightarrow> bool" where
  "root_ok root \<longleftrightarrow> clean_dir root \<and> \<not> (2 < length root \<and> root ! 2 = CHR '':'')"

lemma root_ok_clean: "root_ok root \<Longrightarrow> clean_dir root"
  by (simp add: root_ok_def)

lemma join_root:
  assumes "clean_dir root" and "list_all plain_seg (Split rel (CHR ''/''))" and "rel \<noteq> []"
  shows "PathJoin root rel = root @ ''/'' @ rel"
proof -
  from assms(1) obtain b where b: "root = CHR ''/'' # b" by (auto simp: clean_dir_def HasPrefix_iff)
  then show ?thesis using assms Clean_below [OF assms(2), of b] by (simp add: PathJoin_def clean_dir_def)
qed

lemma Clean_join:
  assumes "clean_dir root" and "list_all plain_seg (Split rel (CHR ''/''))"
  shows "Clean (root @ ''/'' @ rel) = root @ ''/'' @ rel"
proof -
  from assms(1) obtain b where b: "root = CHR ''/'' # b" by (auto simp: clean_dir_def HasPrefix_iff)
  then show ?thesis using assms Clean_below [OF assms(2), of b] by (simp add: clean_dir_def)
qed

lemma pathForURI_fileURI:
  assumes "auth_ok []" and "root_ok root" and "list_all plain_seg (Split rel (CHR ''/''))"
  shows "pathForURI auth_ok root (fileURI (root @ ''/'' @ rel)) = Some (root @ ''/'' @ rel)"
proof -
  let ?p = "root @ ''/'' @ rel"
  have pre: "HasPrefix ?p ''/''" "root \<noteq> []" "root \<noteq> ''/''" using assms(2) by (auto simp: root_ok_def clean_dir_def HasPrefix_iff)
  have "length root = 1 \<longrightarrow> root = ''/''" using assms(2) by (auto simp: root_ok_def clean_dir_def HasPrefix_iff)
  with pre have "2 \<le> length root" by (cases root) (auto simp: Suc_le_eq)
  then have "\<not> ?p ! 2 = CHR '':''" using assms(2) by (cases "length root = 2") (auto simp: root_ok_def clean_dir_def nth_append)
  moreover have "Clean root = root" using assms(2) by (simp add: root_ok_def clean_dir_def)
  ultimately show ?thesis
    using parse_fileURI [where auth_ok = auth_ok, OF assms(1) pre(1)] Clean_join [OF root_ok_clean [OF assms(2)] assms(3)] pre
    by (simp add: pathForURI_def fileURI_def HasPrefix_iff Let_def)
qed

text \<open>Every path the store opens is its root or a clean path below it.\<close>

definition below :: "string \<Rightarrow> string \<Rightarrow> bool" where
  "below root p \<longleftrightarrow> p = root \<or> (\<exists>rel. p = root @ ''/'' @ rel \<and> list_all plain_seg (Split rel (CHR ''/'')))"

lemma clean_prefix_below:
  assumes "clean_dir root" and "HasPrefix (Clean q @ ''/'') (root @ ''/'')"
  shows "below root (Clean q)"
proof -
  from assms(2) obtain x where x: "Clean q @ ''/'' = root @ ''/'' @ x" by (auto simp: HasPrefix_iff)
  from assms(1) obtain b where b: "root = CHR ''/'' # b" by (auto simp: clean_dir_def HasPrefix_iff)
  have "hd (Clean q @ ''/'') = CHR ''/''" using x b by simp
  then have "hd q = CHR ''/'' \<and> q \<noteq> []"
  proof (rule contrapos_pp)
    assume n: "\<not> (hd q = CHR ''/'' \<and> q \<noteq> [])"
    let ?segs = "clean_segs False [] (Split q (CHR ''/''))"
    have "\<forall>s \<in> set ?segs. s \<noteq> [] \<and> CHR ''/'' \<notin> set s"
      using clean_segs_whole [of "[]" False "Split q (CHR ''/'')"] clean_segs_parts [of False "[]" "Split q (CHR ''/'')"] Split_parts by fastforce
    then have "?segs \<noteq> [] \<Longrightarrow> hd (Join ?segs ''/'') \<noteq> CHR ''/'' \<and> Join ?segs ''/'' \<noteq> []"
      by (cases ?segs) (auto simp: Join_Cons neq_Nil_conv)
    then show "hd (Clean q @ ''/'') \<noteq> CHR ''/''" using n by (auto simp: Clean_def Let_def hd_append)
  qed
  then obtain t where q: "q = CHR ''/'' # t" by (cases q) auto
  let ?s = "path_segs q"
  have c: "Clean q = CHR ''/'' # Join ?s ''/''" using Clean_rooted q by simp
  show ?thesis
  proof (cases "?s = []")
    case True
    with c x b show ?thesis by (cases b) (auto simp: below_def)
  next
    case False
    have br: "root = CHR ''/'' # Join (path_segs root) ''/''" using assms(1) b Clean_rooted [of b] by (simp add: clean_dir_def)
    with assms(1) have rne: "path_segs root \<noteq> []" by (auto simp: clean_dir_def)
    have "enclose ?s = enclose (path_segs root) @ x"
      using x c br unfolding enclose_Join [OF False] enclose_Join [OF rne] by (metis append_Cons append_assoc)
    then have "HasPrefix (enclose ?s) (enclose (path_segs root))" by (simp add: HasPrefix_iff)
    then obtain r where r: "?s = path_segs root @ r" using HasPrefix_enclose path_segs_slashless by (metis UnE)
    show ?thesis
    proof (cases "r = []")
      case True
      with r c br show ?thesis by (simp add: below_def)
    next
      case rn: False
      have "Clean q = root @ ''/'' @ Join r ''/''" using c r br rne rn by (metis Join_append append_Cons append_assoc)
      moreover have "list_all plain_seg r" using path_segs_plain [of q] r by simp
      moreover have "Split (Join r ''/'') (CHR ''/'') = r" using Split_Join [OF rn] path_segs_slashless [of _ q] r by simp
      ultimately show ?thesis by (auto simp: below_def)
    qed
  qed
qed

section \<open>Properties\<close>

lemma sys_calm: "ls_faults s = [] \<Longrightarrow> sys s = (True, s)"
  by (simp add: sys_def)

lemma ls_Put_Inr:
  assumes "ls_Put key content n s = (Inr uri, s')"
  shows "\<exists>rel. sanitizeKey key = Some rel \<and> uri = fileURI (PathJoin (ls_root s) rel) \<and> ls_root s' = ls_root s \<and>
    ls_files s' = (ls_files s)(PathJoin (ls_root s) rel \<mapsto> content)"
  using assms by (auto simp: ls_Put_def sys_def Let_def split: option.splits prod.splits bool.splits if_splits)

text \<open>A verified read returns the whole object, and only if it has the expected digest and fits the cap.\<close>

lemma verified_read:
  assumes "GetAndVerify sha ops uri hex m s = (Inr c, s')"
  shows "equalFoldHex (sha c) hex \<and> hex \<noteq> [] \<and> (\<exists>s1. ao_Get ops uri s = (Inr c, s1)) \<and> (0 < m \<longrightarrow> int (length c) \<le> m)"
proof -
  from assms have n: "hex \<noteq> []" and v: "GetAndVerifyTo sha ops uri hex m s = (None, c, s')"
    by (auto simp: GetAndVerify_def GetAndVerifyTo_def split: prod.splits option.splits if_splits)
  then obtain d s1 where g: "ao_Get ops uri s = (Inr d, s1)" "c = (if 0 < m then take (nat m + 1) d else d)" "equalFoldHex (sha c) hex"
      "\<not> (0 < m \<and> m < int (length c))"
    by (auto simp: GetAndVerifyTo_def Let_def split: prod.splits sum.splits bool.splits if_splits)
  then have "c = d" by (auto split: if_splits)
  with g n show ?thesis by auto
qed


definition demo_files :: local_store where
  "demo_files = \<lparr>ls_root = ''/var/art'', ls_files = Map.empty, ls_faults = []\<rparr>"

lemma demo_root_ok: "root_ok ''/var/art''"
  by code_simp

lemma demo_sanitize: "sanitizeKey ''jobs/j 1/m.pt'' = Some ''jobs/j 1/m.pt''"
  by code_simp


text \<open>The store never leaves its root: whatever URI it is given, what it reads is a file below the root, and no upload and no
  deletion changes a file elsewhere.\<close>

theorem artifact_store_confined:
  assumes "root_ok (ls_root s)" and "ls_Get auth_ok uri s = (Inr c, s')" and "\<not> below (ls_root s) p"
  shows "(\<exists>q. below (ls_root s) q \<and> ls_files s q = Some c) \<and> ls_files (snd (ls_Put key content n s)) p = ls_files s p \<and>
    ls_files (snd (ls_Delete auth_ok uri' s)) p = ls_files s p"
proof -
  have cl: "Clean (ls_root s) = ls_root s" using assms(1) by (simp add: root_ok_def clean_dir_def)
  have b: "below (ls_root s) q" if "pathForURI auth_ok (ls_root s) u = Some q" for u q
    using that clean_prefix_below [OF root_ok_clean [OF assms(1)]] by (auto simp: pathForURI_def Let_def cl split: option.splits if_splits)
  have "\<exists>q. below (ls_root s) q \<and> ls_files s q = Some c"
    using assms(2) b by (fastforce simp: ls_Get_def sys_def split: option.splits prod.splits bool.splits if_splits)
  moreover have "ls_files (snd (ls_Put key content n s)) p = ls_files s p"
  proof (cases "sanitizeKey key")
    case (Some rel)
    note pl = sanitizeKey_plain [OF Some]
    have "below (ls_root s) (PathJoin (ls_root s) rel)" using join_root [OF root_ok_clean [OF assms(1)]] pl by (auto simp: below_def)
    with assms(3) have "p \<noteq> PathJoin (ls_root s) rel" by blast
    with Some show ?thesis by (auto simp: ls_Put_def sys_def Let_def split: prod.splits bool.splits)
  qed (simp add: ls_Put_def)
  moreover have "ls_files (snd (ls_Delete auth_ok uri' s)) p = ls_files s p"
    using assms(3) b by (auto simp: ls_Delete_def sys_def split: option.splits prod.splits bool.splits)
  ultimately show ?thesis by blast
qed

theorem artifact_store_confined_witness:
  "ls_files (snd (ls_Delete (\<lambda>a. a = []) ''file:///var/art/../../etc/passwd'' (demo_files\<lparr>ls_files := [''/var/art/a'' \<mapsto> ''x'', ''/etc/passwd'' \<mapsto> ''root'']\<rparr>)))
     ''/etc/passwd'' = Some ''root''"
proof -
  let ?s = "demo_files\<lparr>ls_files := [''/var/art/a'' \<mapsto> ''x'', ''/etc/passwd'' \<mapsto> ''root'']\<rparr>"
  have p: "pathForURI (\<lambda>a. a = []) ''/var/art'' ''file:///var/art/a'' = Some ''/var/art/a''" by code_simp
  have g: "ls_Get (\<lambda>a. a = []) ''file:///var/art/a'' ?s = (Inr ''x'', ?s)" by (simp add: ls_Get_def sys_def demo_files_def p)
  have n: "\<not> below (ls_root ?s) ''/etc/passwd''" by (simp add: below_def demo_files_def)
  from artifact_store_confined [where s = ?s, OF _ g n] show ?thesis by (simp add: demo_files_def demo_root_ok)
qed

text \<open>On a root whose third byte is a colon every read fails: the drive-letter rule of another platform cuts the path.\<close>

lemma colon_root_unreadable:
  "ls_Get (\<lambda>a. a = []) (fileURI ''/a:b/m'') \<lparr>ls_root = ''/a:b'', ls_files = [''/a:b/m'' \<mapsto> ''x''], ls_faults = []\<rparr> =
     (Inl ArtInvalidURI, \<lparr>ls_root = ''/a:b'', ls_files = [''/a:b/m'' \<mapsto> ''x''], ls_faults = []\<rparr>)"
proof -
  have "pathForURI (\<lambda>a. a = []) ''/a:b'' (fileURI ''/a:b/m'') = None" by code_simp
  then show ?thesis by (simp add: ls_Get_def sys_def)
qed

end
