(* ===== verification/Staging.thy ===== *)
theory Staging
  imports Artifact_Files Submit_Validation
begin

text \<open>
  Staging of job files on a node (\<open>internal/staging/staging.go\<close>, \<open>sweep.go\<close>): a working directory per run, downloads of the
  inputs before it, uploads of the outputs after it. The host's file system is a map from clean absolute paths to what
  \<open>lstat\<close> says of them; \<open>nd_sys\<close> decides the system calls that fail, among which a cancelled context counts. The artifact
  store is any \<open>art_ops\<close>.

  The lemmas show that staged files stay below the working directory, that a failed preparation leaves nothing
  behind, and that a path accepted at submission is staged where it says.
\<close>

section \<open>Host\<close>

datatype hnode = HDir | HFile string | HLink | HOther

record 's node_state =
  nd_host :: "string \<rightharpoonup> hnode"
  nd_sys :: "bool list"
  nd_store :: 's

datatype stage_error = SgPath | SgSys | SgExists | SgArtifact artifact_error | SgOversize | SgMissing | SgSymlink | SgIrregular

type_synonym ('s, 'a) staged = "'s node_state \<Rightarrow> (stage_error + 'a) \<times> 's node_state"

definition bindE :: "('s, 'a) staged \<Rightarrow> ('a \<Rightarrow> ('s, 'b) staged) \<Rightarrow> ('s, 'b) staged" where
  "bindE m f = (\<lambda>st. case m st of (Inl e, st) \<Rightarrow> (Inl e, st) | (Inr x, st) \<Rightarrow> f x st)"

definition retE :: "'a \<Rightarrow> ('s, 'a) staged" where
  "retE x = (\<lambda>st. (Inr x, st))"

definition failE :: "stage_error \<Rightarrow> ('s, 'a) staged" where
  "failE e = (\<lambda>st. (Inl e, st))"

definition host_call :: "('s, unit) staged" where
  "host_call st = (if nd_sys st \<noteq> [] \<and> hd (nd_sys st) then Inl SgSys else Inr (), st\<lparr>nd_sys := tl (nd_sys st)\<rparr>)"

definition at_or_below :: "string \<Rightarrow> string \<Rightarrow> bool" where
  "at_or_below base p \<longleftrightarrow> p = base \<or> HasPrefix p (base @ ''/'')"

text \<open>The directories on the way to a path, itself included.\<close>

definition dir_chain :: "string \<Rightarrow> string list" where
  "dir_chain p = map (\<lambda>i. take i p) (filter (\<lambda>i. 0 < i \<and> (i = length p \<or> p ! i = CHR ''/'')) [0..<Suc (length p)])"

definition MkdirAll :: "string \<Rightarrow> ('s, unit) staged" where
  "MkdirAll p = bindE host_call (\<lambda>_ st.
     if list_ex (\<lambda>q. nd_host st q \<notin> {None, Some HDir, Some HLink}) (dir_chain p) then (Inl SgSys, st)
     else (Inr (), st\<lparr>nd_host := (\<lambda>q. if q \<in> set (dir_chain p) \<and> nd_host st q = None then Some HDir else nd_host st q)\<rparr>))"

definition Mkdir :: "string \<Rightarrow> ('s, unit) staged" where
  "Mkdir p = bindE host_call (\<lambda>_ st. if nd_host st p \<noteq> None then (Inl SgExists, st) else (Inr (), st\<lparr>nd_host := (nd_host st)(p \<mapsto> HDir)\<rparr>))"

definition RemoveAll :: "string \<Rightarrow> 's node_state \<Rightarrow> 's node_state" where
  "RemoveAll base st = (case host_call st of (Inl _, st) \<Rightarrow> st
     | (Inr _, st) \<Rightarrow> st\<lparr>nd_host := (\<lambda>p. if at_or_below base p then None else nd_host st p)\<rparr>)"

definition PathDir :: "string \<Rightarrow> string" where
  "PathDir p = Clean (take (nat (LastIndexByte p (CHR ''/'') + 1)) p)"

definition in_store :: "('s \<Rightarrow> (artifact_error + 'a) \<times> 's) \<Rightarrow> ('s, 'a) staged" where
  "in_store f st = (case f (nd_store st) of (r, s) \<Rightarrow> (case r of Inl e \<Rightarrow> Inl (SgArtifact e) | Inr x \<Rightarrow> Inr x, st\<lparr>nd_store := s\<rparr>))"

section \<open>Stager\<close>

record stager =
  sg_workRoot :: string
  sg_keep :: bool
  sg_maxIn :: int
  sg_maxOut :: int

record prepared =
  pr_WorkingDir :: string
  pr_Env :: "string \<rightharpoonup> string"
  pr_jobID :: string
  pr_outputs :: "artifact_binding list"

record resolved_output =
  ro_Name :: string
  ro_URI :: string
  ro_Size :: int
  ro_SHA256 :: string
  ro_LocalPath :: string

definition dir_byte :: "char \<Rightarrow> char" where
  "dir_byte c = (if alnum c \<or> c \<in> set ''-_.'' then c else CHR ''_'')"

definition sanitiseJobDirName :: "string \<Rightarrow> string \<Rightarrow> string" where
  "sanitiseJobDirName jobID suffix =
     (let name = map dir_byte jobID; name = (if suffix \<noteq> [] then name @ ''-'' @ map dir_byte suffix else name) in
      if name = [] then ''job'' else name)"

definition safeJoin :: "string \<Rightarrow> string \<Rightarrow> string option" where
  "safeJoin root rel =
     (if rel = [] then None
      else if HasPrefix rel ''/'' \<or> HasPrefix rel [CHR 0x5C] then None
      else if 2 \<le> length rel \<and> rel ! 1 = CHR '':'' then None
      else if NUL \<in> set rel then None
      else let full = PathJoin root (Clean rel) in
        if HasPrefix (full @ ''/'') (Clean root @ ''/'') then Some full else None)"

definition joined :: "string \<Rightarrow> string \<Rightarrow> ('s, string) staged" where
  "joined root rel = (case safeJoin root rel of None \<Rightarrow> failE SgPath | Some full \<Rightarrow> retE full)"

definition mintWorkDir :: "stager \<Rightarrow> string \<Rightarrow> string \<Rightarrow> ('s, string) staged" where
  "mintWorkDir sg jobID suffix =
     bindE (MkdirAll (sg_workRoot sg)) (\<lambda>_.
     let base = PathJoin (sg_workRoot sg) (sanitiseJobDirName jobID suffix) in
     bindE (Mkdir base) (\<lambda>_. retE base))"

definition stager_cleanup :: "stager \<Rightarrow> string \<Rightarrow> 's node_state \<Rightarrow> 's node_state" where
  "stager_cleanup sg base st = (if sg_keep sg then st else RemoveAll base st)"

text \<open>A verified download goes to a temporary file that is renamed into place; the rename fails on a directory. An unverified
  one creates its file and fails if there is one.\<close>

definition download :: "stager \<Rightarrow> (string \<Rightarrow> string) \<Rightarrow> 's art_ops \<Rightarrow> string \<Rightarrow> string \<Rightarrow> string \<Rightarrow> ('s, unit) staged" where
  "download sg sha ops uri expected dest =
     bindE (MkdirAll (PathDir dest)) (\<lambda>_.
     if expected \<noteq> [] then
       bindE host_call (\<lambda>_.
       bindE (in_store (GetAndVerify sha ops uri expected (sg_maxIn sg))) (\<lambda>c.
       bindE host_call (\<lambda>_ st.
         if nd_host st dest = Some HDir then (Inl SgSys, st) else (Inr (), st\<lparr>nd_host := (nd_host st)(dest \<mapsto> HFile c)\<rparr>))))
     else
       bindE (in_store (ao_Get ops uri)) (\<lambda>c.
       bindE host_call (\<lambda>_.
       bindE (\<lambda>st. if nd_host st dest \<noteq> None then (Inl SgSys, st)
               else (Inr (), st\<lparr>nd_host := (nd_host st)(dest \<mapsto> HFile (take (nat (sg_maxIn sg) + 1) c))\<rparr>)) (\<lambda>_.
       bindE (in_store (\<lambda>s. case ao_Stream ops s of (ok, s) \<Rightarrow> (if ok then Inr () else Inl ArtIO, s))) (\<lambda>_.
       if sg_maxIn sg < int (length c) then failE SgOversize else retE ())))))"

fun stage_inputs :: "stager \<Rightarrow> (string \<Rightarrow> string) \<Rightarrow> 's art_ops \<Rightarrow> string \<Rightarrow> artifact_binding list \<Rightarrow> (string \<rightharpoonup> string) \<Rightarrow> ('s, string \<rightharpoonup> string) staged" where
  "stage_inputs sg sha ops workdir [] env = retE env"
| "stage_inputs sg sha ops workdir (b # bs) env =
     bindE host_call (\<lambda>_.
     bindE (joined workdir (b_LocalPath b)) (\<lambda>dest.
     bindE (download sg sha ops (b_URI b) (b_SHA256 b) dest) (\<lambda>_.
     stage_inputs sg sha ops workdir bs (env(''HELION_INPUT_'' @ b_Name b \<mapsto> dest)))))"

fun stage_outputs :: "string \<Rightarrow> artifact_binding list \<Rightarrow> (string \<rightharpoonup> string) \<Rightarrow> ('s, string \<rightharpoonup> string) staged" where
  "stage_outputs workdir [] env = retE env"
| "stage_outputs workdir (b # bs) env =
     bindE host_call (\<lambda>_.
     bindE (joined workdir (b_LocalPath b)) (\<lambda>dest.
     bindE (MkdirAll (PathDir dest)) (\<lambda>_.
     stage_outputs workdir bs (env(''HELION_OUTPUT_'' @ b_Name b \<mapsto> dest)))))"

definition Prepare :: "stager \<Rightarrow> (string \<Rightarrow> string) \<Rightarrow> 's art_ops \<Rightarrow> string \<Rightarrow> string \<Rightarrow> artifact_binding list \<Rightarrow> artifact_binding list \<Rightarrow> ('s, prepared) staged" where
  "Prepare sg sha ops jobID workingDir inputs outputs =
     bindE (mintWorkDir sg jobID workingDir) (\<lambda>workdir st.
     case bindE (stage_inputs sg sha ops workdir inputs Map.empty) (stage_outputs workdir outputs) st of
       (Inl e, st) \<Rightarrow> (Inl e, stager_cleanup sg workdir st)
     | (Inr env, st) \<Rightarrow> (Inr \<lparr>pr_WorkingDir = workdir, pr_Env = env, pr_jobID = jobID, pr_outputs = outputs\<rparr>, st))"

definition upload :: "stager \<Rightarrow> 's art_ops \<Rightarrow> string \<Rightarrow> string \<Rightarrow> string \<Rightarrow> string \<Rightarrow> ('s, resolved_output) staged" where
  "upload sg ops jobID name localPath src =
     bindE host_call (\<lambda>_ st. case nd_host st src of
       None \<Rightarrow> (Inl SgMissing, st)
     | Some HLink \<Rightarrow> (Inl SgSymlink, st)
     | Some HDir \<Rightarrow> (Inl SgIrregular, st)
     | Some HOther \<Rightarrow> (Inl SgIrregular, st)
     | Some (HFile c) \<Rightarrow>
         if sg_maxOut sg < int (length c) then (Inl SgOversize, st)
         else bindE host_call (\<lambda>_.
           bindE (in_store (ao_Put ops (''jobs/'' @ jobID @ ''/'' @ localPath) c (int (length c)))) (\<lambda>uri.
           bindE (in_store (ao_Stat ops uri)) (\<lambda>md.
           retE \<lparr>ro_Name = name, ro_URI = uri, ro_Size = fst md, ro_SHA256 = snd md, ro_LocalPath = localPath\<rparr>))) st)"

text \<open>The uploads up to the first failure, whose error comes with what was uploaded before it.\<close>

fun upload_all :: "stager \<Rightarrow> 's art_ops \<Rightarrow> prepared \<Rightarrow> artifact_binding list \<Rightarrow> 's node_state \<Rightarrow> (resolved_output list \<times> stage_error option) \<times> 's node_state" where
  "upload_all sg ops p [] st = (([], None), st)"
| "upload_all sg ops p (b # bs) st =
     (case bindE host_call (\<lambda>_. bindE (joined (pr_WorkingDir p) (b_LocalPath b)) (upload sg ops (pr_jobID p) (b_Name b) (b_LocalPath b))) st of
        (Inl e, st) \<Rightarrow> (([], Some e), st)
      | (Inr r, st) \<Rightarrow> (case upload_all sg ops p bs st of ((rs, e), st) \<Rightarrow> ((r # rs, e), st)))"

definition Finalize :: "stager \<Rightarrow> 's art_ops \<Rightarrow> prepared \<Rightarrow> bool \<Rightarrow> 's node_state \<Rightarrow> (resolved_output list \<times> stage_error option) \<times> 's node_state" where
  "Finalize sg ops p succeeded st =
     (if \<not> succeeded then (([], None), stager_cleanup sg (pr_WorkingDir p) st)
      else case upload_all sg ops p (pr_outputs p) st of (r, st) \<Rightarrow> (r, stager_cleanup sg (pr_WorkingDir p) st))"

text \<open>The sweep of old working directories, over the names \<open>entries\<close> of the root with their ages.\<close>

fun sweep_loop :: "string \<Rightarrow> time \<Rightarrow> (string \<times> time option) list \<Rightarrow> nat \<Rightarrow> 's node_state \<Rightarrow> nat \<times> 's node_state" where
  "sweep_loop root cutoff [] n st = (n, st)"
| "sweep_loop root cutoff ((name, mtime) # es) n st = (case mtime of None \<Rightarrow> sweep_loop root cutoff es n st
     | Some t \<Rightarrow> if cutoff < t then sweep_loop root cutoff es n st
        else (case host_call st of
            (Inl _, st) \<Rightarrow> sweep_loop root cutoff es n st
          | (Inr _, st) \<Rightarrow> sweep_loop root cutoff es (Suc n)
              (st\<lparr>nd_host := (\<lambda>p. if at_or_below (PathJoin root name) p then None else nd_host st p)\<rparr>)))"

definition SweepStaleWorkdirs :: "time \<Rightarrow> duration \<Rightarrow> (string \<times> time option) list \<Rightarrow> stager \<Rightarrow> 's node_state \<Rightarrow> nat \<times> 's node_state" where
  "SweepStaleWorkdirs now maxAge entries sg st =
     sweep_loop (sg_workRoot sg) (now - (if maxAge \<le> 0 then 3600 * second else maxAge)) entries 0 st"

section \<open>Directories\<close>

lemma at_or_below_refl [simp]: "at_or_below p p"
  by (simp add: at_or_below_def)

lemma at_or_below_iff: "at_or_below base p \<longleftrightarrow> (\<exists>r. p = base @ r \<and> (r = [] \<or> hd r = CHR ''/''))"
  by (auto simp: at_or_below_def HasPrefix_iff) (metis list.collapse)

lemma dir_chain_iff: "q \<in> set (dir_chain p) \<longleftrightarrow> q \<noteq> [] \<and> at_or_below q p"
proof
  assume "q \<in> set (dir_chain p)"
  then obtain i where i: "q = take i p" "0 < i" "i \<le> length p" "i = length p \<or> p ! i = CHR ''/''"
    unfolding dir_chain_def set_map set_filter atLeast_upt [symmetric] by auto
  have "i < length p \<Longrightarrow> hd (drop i p) = p ! i" by (rule hd_drop_conv_nth)
  then have "drop i p = [] \<or> hd (drop i p) = CHR ''/''" using i(3,4) by fastforce
  then show "q \<noteq> [] \<and> at_or_below q p" using i unfolding at_or_below_iff by (metis append_take_drop_id gr_implies_not0 length_0_conv length_take min.absorb2)
next
  assume a: "q \<noteq> [] \<and> at_or_below q p"
  then obtain r where r: "p = q @ r" "r = [] \<or> hd r = CHR ''/''" by (auto simp: at_or_below_iff)
  then have "length q = length p \<or> p ! length q = CHR ''/''" by (cases r) (auto simp: nth_append)
  with a r(1) show "q \<in> set (dir_chain p)"
    unfolding dir_chain_def set_map set_filter atLeast_upt [symmetric] by (intro image_eqI [of _ _ "length q"]) auto
qed

lemma ancestors_comparable:
  assumes "at_or_below q p" and "at_or_below base p"
  shows "at_or_below base q \<or> at_or_below q base"
proof -
  from assms obtain r t where r: "p = q @ r" "p = base @ t" "r = [] \<or> hd r = CHR ''/''" "t = [] \<or> hd t = CHR ''/''"
    unfolding at_or_below_iff by blast
  then obtain u where "q = base @ u \<and> t = u @ r \<or> base = q @ u \<and> r = u @ t" by (metis append_eq_append_conv2)
  with r(3,4) show ?thesis by (cases u) (auto simp: at_or_below_iff)
qed

lemma at_or_below_antisym: "at_or_below p q \<Longrightarrow> at_or_below q p \<Longrightarrow> p = q"
  by (auto simp: at_or_below_iff)

lemma below_at_or_below: "below base p \<Longrightarrow> at_or_below base p"
  by (auto simp: below_def at_or_below_def HasPrefix_iff)

lemma Split_snoc_slash: "Split (s @ ''/'') (CHR ''/'') = Split s (CHR ''/'') @ [[]]"
  using Split_append_sep [of s "CHR ''/''" "[]"] by simp

lemma Clean_trailing:
  assumes "HasPrefix s ''/''"
  shows "Clean (s @ ''/'') = Clean s"
proof -
  from assms obtain t where "s = CHR ''/'' # t" by (auto simp: HasPrefix_iff)
  then show ?thesis using Clean_rooted [of "t @ ''/''"] Clean_rooted [of t] Split_snoc_slash [of s]
    by (simp add: path_segs_def clean_segs_append)
qed

lemma LastIndexByte_slash: "CHR ''/'' \<notin> set l \<Longrightarrow> take (nat (LastIndexByte (s @ CHR ''/'' # l) (CHR ''/'') + 1)) (s @ CHR ''/'' # l) = s @ ''/''"
  using LastIndexByte_append_notin [of "CHR ''/''" l s] by (simp add: nat_add_distrib)

text \<open>The parent of a path strictly below a directory is that directory or below it.\<close>

lemma PathDir_below:
  assumes "clean_dir base" and "below base p" and "p \<noteq> base"
  shows "at_or_below base (PathDir p)"
proof -
  from assms obtain rel where rel: "p = base @ ''/'' @ rel" "list_all plain_seg (Split rel (CHR ''/''))" by (auto simp: below_def)
  obtain ss l where ss: "Split rel (CHR ''/'') = ss @ [l]" by (metis Split_not_Nil rev_exhaust)
  have l: "CHR ''/'' \<notin> set l" using Split_parts [of l rel "CHR ''/''"] ss by simp
  have pl: "list_all plain_seg ss" using rel(2) ss by simp
  have pre: "HasPrefix base ''/''" "Clean base = base" using assms(1) by (auto simp: clean_dir_def)
  show ?thesis
  proof (cases "ss = []")
    case True
    then have "p = base @ CHR ''/'' # l" using rel(1) ss Join_Split [of rel "CHR ''/''"] by simp
    then have "PathDir p = Clean (base @ ''/'')" using LastIndexByte_slash [OF l, of base] by (simp add: PathDir_def)
    then show ?thesis using Clean_trailing [OF pre(1)] pre(2) by simp
  next
    case False
    let ?d = "base @ ''/'' @ Join ss ''/''"
    have "p = ?d @ CHR ''/'' # l" using rel(1) Join_Split [of rel "CHR ''/''"] Join_append [OF False, of "[l]" "''/''"] by (simp add: ss)
    then have "PathDir p = Clean (?d @ ''/'')" using LastIndexByte_slash [OF l, of ?d] by (simp add: PathDir_def)
    moreover have "HasPrefix ?d ''/''" using pre(1) by (auto simp: HasPrefix_iff)
    moreover have "Split (Join ss ''/'') (CHR ''/'') = ss" using Split_Join [OF False] Split_parts [of _ rel "CHR ''/''"] ss by simp
    then have "Clean ?d = ?d" using Clean_join [OF assms(1), of "Join ss ''/''"] pl by simp
    ultimately show ?thesis using Clean_trailing [of ?d] by (simp add: at_or_below_def HasPrefix_iff)
  qed
qed

section \<open>Confinement\<close>

text \<open>Every strict ancestor of the directory exists.\<close>

definition anchored :: "string \<Rightarrow> 's node_state \<Rightarrow> bool" where
  "anchored base st \<longleftrightarrow> (\<forall>q. q \<noteq> [] \<and> q \<noteq> base \<and> at_or_below q base \<longrightarrow> nd_host st q \<noteq> None)"

definition changes_below :: "string \<Rightarrow> 's node_state \<Rightarrow> 's node_state \<Rightarrow> bool" where
  "changes_below base st st' \<longleftrightarrow> (\<forall>q. \<not> at_or_below base q \<longrightarrow> nd_host st' q = nd_host st q) \<and> (nd_sys st = [] \<longrightarrow> nd_sys st' = [])"

definition confined :: "string \<Rightarrow> ('s, 'a) staged \<Rightarrow> bool" where
  "confined base m \<longleftrightarrow> (\<forall>st r st'. anchored base st \<and> m st = (r, st') \<longrightarrow> changes_below base st st')"

lemma changes_below_trans: "changes_below base a b \<Longrightarrow> changes_below base b c \<Longrightarrow> changes_below base a c"
  by (simp add: changes_below_def)

lemma anchored_kept: "anchored base a \<Longrightarrow> changes_below base a b \<Longrightarrow> anchored base b"
  unfolding anchored_def changes_below_def using at_or_below_antisym by metis

lemma confined_bind:
  assumes "confined base m" and "\<And>x. confined base (f x)"
  shows "confined base (bindE m f)"
  unfolding confined_def
proof (intro allI impI)
  fix st r st' assume a: "anchored base st \<and> bindE m f st = (r, st')"
  obtain r1 st1 where m: "m st = (r1, st1)" by fastforce
  with a assms(1) have c: "changes_below base st st1" by (auto simp: confined_def)
  show "changes_below base st st'"
  proof (cases r1)
    case (Inl e)
    with a m c show ?thesis by (simp add: bindE_def)
  next
    case (Inr x)
    with a m have "f x st1 = (r, st')" by (simp add: bindE_def)
    then show ?thesis using assms(2) [of x] anchored_kept [OF _ c] a changes_below_trans [OF c] by (auto simp: confined_def)
  qed
qed

lemma confined_base [simp]:
  "confined base host_call" "confined base (retE x)" "confined base (failE e)" "confined base (in_store f)" "confined base (joined root rel)"
  by (auto simp: confined_def changes_below_def host_call_def retE_def failE_def in_store_def joined_def split: if_splits prod.splits option.splits)

lemma confined_if: "(P \<Longrightarrow> confined base m) \<Longrightarrow> (\<not> P \<Longrightarrow> confined base m') \<Longrightarrow> confined base (if P then m else m')"
  by simp

lemma confined_MkdirAll:
  assumes "at_or_below base p \<or> p \<noteq> base \<and> at_or_below p base"
  shows "confined base (MkdirAll p)"
  unfolding confined_def
proof (intro allI impI)
  fix st r st' assume a: "anchored base st \<and> MkdirAll p st = (r, st')"
  have "nd_host st q \<noteq> None" if "q \<in> set (dir_chain p)" "\<not> at_or_below base q" for q
  proof -
    have q: "q \<noteq> []" "at_or_below q p" using that(1) dir_chain_iff by auto
    have "at_or_below q base"
    proof (cases "at_or_below base p")
      case True
      then show ?thesis using ancestors_comparable [OF q(2)] that(2) by blast
    next
      case False
      then have "at_or_below p base" using assms by blast
      with q(2) show ?thesis unfolding at_or_below_iff by (metis append_assoc append_self_conv hd_append2)
    qed
    moreover have "q \<noteq> base" using that(2) by auto
    ultimately show ?thesis using a q(1) by (simp add: anchored_def)
  qed
  with a show "changes_below base st st'"
    by (auto simp: changes_below_def MkdirAll_def bindE_def host_call_def split: if_splits)
qed

lemma confined_write:
  assumes "\<And>st r st'. m st = (r, st') \<Longrightarrow> st' = st \<or> st' = st\<lparr>nd_host := (nd_host st)(p := x)\<rparr>" and "at_or_below base p"
  shows "confined base m"
  using assms by (fastforce simp: confined_def changes_below_def)

lemma safeJoin_below: "clean_dir root \<Longrightarrow> safeJoin root rel = Some full \<Longrightarrow> below root full"
proof -
  assume r: "clean_dir root" and s: "safeJoin root rel = Some full"
  have rt: "Clean root = root" "root \<noteq> []" using r by (auto simp: clean_dir_def HasPrefix_iff)
  have "Clean rel \<noteq> []" by (auto simp: Clean_def Let_def Join_plain_Nil split: if_splits)
     (metis (no_types, lifting) Join.simps Join_Cons append_is_Nil_conv clean_segs_whole empty_iff list.set(1) list.set_intros(1) neq_Nil_conv)
  with s rt have "\<exists>q. full = Clean q \<and> HasPrefix (Clean q @ ''/'') (root @ ''/'')"
    by (auto simp: safeJoin_def PathJoin_def Let_def split: if_splits)
  with clean_prefix_below [OF r] show ?thesis by blast
qed

lemma confined_download:
  assumes "clean_dir base" and "below base dest" and "PathDir base \<noteq> base" and "at_or_below (PathDir base) base"
  shows "confined base (download sg sha ops uri h dest)"
proof -
  have d: "at_or_below base dest" by (rule below_at_or_below [OF assms(2)])
  have "at_or_below base (PathDir dest) \<or> PathDir dest \<noteq> base \<and> at_or_below (PathDir dest) base"
    using PathDir_below [OF assms(1,2)] assms(3,4) by (cases "dest = base") auto
  then show ?thesis
    unfolding download_def
    by (intro confined_bind confined_if confined_base confined_MkdirAll) (auto intro: confined_write [OF _ d] split: if_splits)
qed

lemma dir_name_slashless: "CHR ''/'' \<notin> set (sanitiseJobDirName j w)" "sanitiseJobDirName j w \<noteq> []"
proof -
  have "dir_byte c \<noteq> CHR ''/''" for c by (auto simp: dir_byte_def alnum_def byte_range_def)
  then have "CHR ''/'' \<notin> set (map dir_byte s)" for s by (metis imageE set_map)
  then show "CHR ''/'' \<notin> set (sanitiseJobDirName j w)" by (auto simp: sanitiseJobDirName_def Let_def simp del: set_map)
qed (simp add: sanitiseJobDirName_def Let_def)

text \<open>The working directory of a run.\<close>

definition work_dir :: "stager \<Rightarrow> string \<Rightarrow> string \<Rightarrow> string" where
  "work_dir sg jobID suffix = sg_workRoot sg @ ''/'' @ sanitiseJobDirName jobID suffix"

lemma work_dir_props:
  assumes "clean_dir (sg_workRoot sg)" and "sanitiseJobDirName j w \<notin> {''.'', ''..''}"
  shows "PathJoin (sg_workRoot sg) (sanitiseJobDirName j w) = work_dir sg j w" and "clean_dir (work_dir sg j w)"
    and "PathDir (work_dir sg j w) = sg_workRoot sg" and "at_or_below (sg_workRoot sg) (work_dir sg j w)" and "sg_workRoot sg \<noteq> work_dir sg j w"
proof -
  let ?n = "sanitiseJobDirName j w" and ?r = "sg_workRoot sg"
  have pl: "list_all plain_seg (Split ?n (CHR ''/''))" using assms(2) dir_name_slashless by (simp add: Split_notin plain_seg_def)
  have r: "HasPrefix ?r ''/''" "Clean ?r = ?r" using assms(1) by (auto simp: clean_dir_def)
  show "PathJoin ?r ?n = work_dir sg j w" using join_root [OF assms(1) pl] dir_name_slashless(2) by (simp add: work_dir_def)
  show "clean_dir (work_dir sg j w)" using Clean_join [OF assms(1) pl] r by (auto simp: clean_dir_def work_dir_def HasPrefix_iff)
  show "PathDir (work_dir sg j w) = ?r"
    using LastIndexByte_slash [OF dir_name_slashless(1) [of j w], of ?r] Clean_trailing [OF r(1)] r(2) by (simp add: PathDir_def work_dir_def)
  show "at_or_below ?r (work_dir sg j w)" "?r \<noteq> work_dir sg j w" by (simp_all add: work_dir_def at_or_below_def HasPrefix_iff)
qed

lemma bindE_Inr: "bindE m f st = (Inr y, st') \<longleftrightarrow> (\<exists>x st1. m st = (Inr x, st1) \<and> f x st1 = (Inr y, st'))"
  by (auto simp: bindE_def split: prod.splits sum.splits)

lemma joined_Inr: "joined root rel st = (Inr d, st') \<longleftrightarrow> safeJoin root rel = Some d \<and> st' = st"
  by (auto simp: joined_def retE_def failE_def split: option.splits)

lemma joined_bind:
  assumes "\<And>d. safeJoin base rel = Some d \<Longrightarrow> confined base (f d)"
  shows "confined base (bindE (joined base rel) f)"
  using assms by (cases "safeJoin base rel") (auto simp: confined_def changes_below_def bindE_def joined_def retE_def failE_def)

lemma confined_inputs:
  assumes root: "clean_dir (sg_workRoot sg)" and name: "sanitiseJobDirName j w \<notin> {''.'', ''..''}"
  shows "confined (work_dir sg j w) (stage_inputs sg sha ops (work_dir sg j w) bs env)"
proof (induction bs arbitrary: env)
  case (Cons b bs)
  note wd = work_dir_props [OF root name]
  have "confined (work_dir sg j w) (download sg sha ops (b_URI b) (b_SHA256 b) d)" if "safeJoin (work_dir sg j w) (b_LocalPath b) = Some d" for d
    by (rule confined_download [OF wd(2) safeJoin_below [OF wd(2) that]]) (use wd in simp_all)
  with Cons show ?case by (auto intro!: confined_bind joined_bind)
qed simp

lemma confined_outputs:
  assumes root: "clean_dir (sg_workRoot sg)" and name: "sanitiseJobDirName j w \<notin> {''.'', ''..''}"
  shows "confined (work_dir sg j w) (stage_outputs (work_dir sg j w) bs env)"
proof (induction bs arbitrary: env)
  case (Cons b bs)
  note wd = work_dir_props [OF root name]
  have "confined (work_dir sg j w) (MkdirAll (PathDir d))" if "safeJoin (work_dir sg j w) (b_LocalPath b) = Some d" for d
    using PathDir_below [OF wd(2) safeJoin_below [OF wd(2) that]] wd(3-5) by (cases "d = work_dir sg j w") (auto intro!: confined_MkdirAll)
  with Cons show ?case by (auto intro!: confined_bind joined_bind)
qed simp

lemma inputs_env:
  assumes root: "clean_dir (sg_workRoot sg)" and name: "sanitiseJobDirName j w \<notin> {''.'', ''..''}"
    and "stage_inputs sg sha ops (work_dir sg j w) bs env st = (Inr env', st')" and "\<forall>v \<in> ran env. below (work_dir sg j w) v"
  shows "\<forall>v \<in> ran env'. below (work_dir sg j w) v"
  using assms(3,4)
proof (induction bs arbitrary: env st)
  case (Cons b bs)
  from Cons.prems(1) obtain d st1 where d: "safeJoin (work_dir sg j w) (b_LocalPath b) = Some d"
      "stage_inputs sg sha ops (work_dir sg j w) bs (env(''HELION_INPUT_'' @ b_Name b \<mapsto> d)) st1 = (Inr env', st')"
    by (auto simp: bindE_Inr joined_Inr)
  have "\<forall>v \<in> ran (env(''HELION_INPUT_'' @ b_Name b \<mapsto> d)). below (work_dir sg j w) v"
    using Cons.prems(2) safeJoin_below [OF work_dir_props(2) [OF root name] d(1)] ran_upd_subset by fastforce
  from Cons.IH [OF d(2) this] show ?case .
qed (simp add: retE_def)

lemma outputs_env:
  assumes root: "clean_dir (sg_workRoot sg)" and name: "sanitiseJobDirName j w \<notin> {''.'', ''..''}"
    and "stage_outputs (work_dir sg j w) bs env st = (Inr env', st')" and "\<forall>v \<in> ran env. below (work_dir sg j w) v"
  shows "\<forall>v \<in> ran env'. below (work_dir sg j w) v"
  using assms(3,4)
proof (induction bs arbitrary: env st)
  case (Cons b bs)
  from Cons.prems(1) obtain d st1 where d: "safeJoin (work_dir sg j w) (b_LocalPath b) = Some d"
      "stage_outputs (work_dir sg j w) bs (env(''HELION_OUTPUT_'' @ b_Name b \<mapsto> d)) st1 = (Inr env', st')"
    by (auto simp: bindE_Inr joined_Inr)
  have "\<forall>v \<in> ran (env(''HELION_OUTPUT_'' @ b_Name b \<mapsto> d)). below (work_dir sg j w) v"
    using Cons.prems(2) safeJoin_below [OF work_dir_props(2) [OF root name] d(1)] ran_upd_subset by fastforce
  from Cons.IH [OF d(2) this] show ?case .
qed (simp add: retE_def)

lemma RemoveAll_calm: "nd_sys st = [] \<Longrightarrow> nd_host (RemoveAll base st) p = (if at_or_below base p then None else nd_host st p)"
  by (simp add: RemoveAll_def host_call_def)

lemma MkdirAll_effect:
  "MkdirAll p st = (r, st') \<Longrightarrow> (\<forall>q. q \<notin> set (dir_chain p) \<longrightarrow> nd_host st' q = nd_host st q) \<and> (nd_sys st = [] \<longrightarrow> nd_sys st' = []) \<and>
     (r = Inr () \<longrightarrow> (\<forall>q \<in> set (dir_chain p). nd_host st' q \<noteq> None))"
  by (auto simp: MkdirAll_def bindE_def host_call_def split: if_splits)

text \<open>Preparation in its three parts: making the directory fails, staging fails and is undone, or all is staged.\<close>

lemma Prepare_parts:
  assumes "clean_dir (sg_workRoot sg)" and "sanitiseJobDirName j w \<notin> {''.'', ''..''}" and "Prepare sg sha ops j w ins outs st = (r, st')"
  obtains (unmade) e where "r = Inl e" and "\<forall>q. q \<notin> set (dir_chain (sg_workRoot sg)) \<longrightarrow> nd_host st' q = nd_host st q"
  | (undone) e st1 st2 where "r = Inl e" and "\<forall>q. q \<notin> set (dir_chain (sg_workRoot sg)) \<and> q \<noteq> work_dir sg j w \<longrightarrow> nd_host st1 q = nd_host st q"
      and "nd_host st (work_dir sg j w) = None" and "changes_below (work_dir sg j w) st1 st2" and "st' = stager_cleanup sg (work_dir sg j w) st2"
      and "nd_sys st = [] \<longrightarrow> nd_sys st2 = []"
  | (staged) p st1 where "r = Inr p" and "\<forall>q. q \<notin> set (dir_chain (sg_workRoot sg)) \<and> q \<noteq> work_dir sg j w \<longrightarrow> nd_host st1 q = nd_host st q"
      and "changes_below (work_dir sg j w) st1 st'" and "pr_WorkingDir p = work_dir sg j w" and "pr_jobID p = j" and "pr_outputs p = outs"
      and "\<forall>v \<in> ran (pr_Env p). below (work_dir sg j w) v"
proof -
  note wd = work_dir_props [OF assms(1,2)]
  let ?b = "work_dir sg j w" and ?r = "sg_workRoot sg"
  obtain r1 sta where m: "MkdirAll ?r st = (r1, sta)" by fastforce
  note me = MkdirAll_effect [OF m]
  obtain r2 stb where k: "Mkdir ?b sta = (r2, stb)" by fastforce
  have notin: "?b \<notin> set (dir_chain ?r)" using at_or_below_antisym [OF wd(4)] wd(5) by (auto simp: dir_chain_iff)
  show thesis
  proof (cases "r1 = Inr () \<and> r2 = Inr ()")
    case False
    have "nd_host stb = nd_host sta" if "r2 \<noteq> Inr ()" using k that by (auto simp: Mkdir_def bindE_def host_call_def split: if_splits)
    with False assms(3) m k me obtain e where "r = Inl e" "\<forall>q. q \<notin> set (dir_chain ?r) \<longrightarrow> nd_host st' q = nd_host st q"
      by (cases r1; cases r2) (auto simp: Prepare_def mintWorkDir_def bindE_def wd(1) Let_def)
    then show thesis by (rule unmade)
  next
    case True
    have kb: "nd_host stb = (nd_host sta)(?b \<mapsto> HDir)" "nd_host sta ?b = None" "nd_sys sta = [] \<longrightarrow> nd_sys stb = []"
      using k True by (auto simp: Mkdir_def bindE_def host_call_def split: if_splits)
    have anch: "anchored ?b stb"
      unfolding anchored_def
    proof (intro allI impI)
      fix q assume q: "q \<noteq> [] \<and> q \<noteq> ?b \<and> at_or_below q ?b"
      have "at_or_below q ?r"
      proof -
        from q obtain t where t: "?b = q @ t" "hd t = CHR ''/''" "t \<noteq> []" by (auto simp: at_or_below_iff)
        let ?n = "sanitiseJobDirName j w"
        have "?r @ CHR ''/'' # ?n = q @ CHR ''/'' # tl t" using t by (simp add: work_dir_def) (metis list.collapse)
        then show ?thesis using dir_name_slashless(1) [of j w] by (auto simp: at_or_below_iff append_eq_append_conv2 Cons_eq_append_conv) (metis hd_append2 list.sel(1))
      qed
      then have "q \<in> set (dir_chain ?r)" using q by (simp add: dir_chain_iff)
      with me True kb q show "nd_host stb q \<noteq> None" by auto
    qed
    obtain r3 st2 where g: "bindE (stage_inputs sg sha ops ?b ins Map.empty) (stage_outputs ?b outs) stb = (r3, st2)" by fastforce
    have "confined ?b (bindE (stage_inputs sg sha ops ?b ins Map.empty) (stage_outputs ?b outs))"
      by (intro confined_bind confined_inputs confined_outputs assms(1,2))
    with anch g have c: "changes_below ?b stb st2" unfolding confined_def by blast
    have h: "\<forall>q. q \<notin> set (dir_chain ?r) \<and> q \<noteq> ?b \<longrightarrow> nd_host stb q = nd_host st q" using me kb by simp
    have b0: "nd_host st ?b = None" using me kb(2) notin by metis
    have y: "nd_sys st = [] \<longrightarrow> nd_sys st2 = []" using me kb(3) c by (auto simp: changes_below_def)
    show thesis
    proof (cases r3)
      case (Inl e)
      then have "r = Inl e" "st' = stager_cleanup sg ?b st2" using assms(3) m k True g by (auto simp: Prepare_def mintWorkDir_def bindE_def retE_def wd(1) Let_def)
      from undone [OF this(1) h b0 c this(2) y] show thesis .
    next
      case (Inr env)
      obtain env1 st1 where i: "stage_inputs sg sha ops ?b ins Map.empty stb = (Inr env1, st1)" "stage_outputs ?b outs env1 st1 = (Inr env, st2)"
        using g Inr by (auto simp: bindE_Inr)
      have "\<forall>v \<in> ran env1. below ?b v" by (rule inputs_env [OF assms(1,2) i(1)]) simp
      then have e: "\<forall>v \<in> ran env. below ?b v" by (rule outputs_env [OF assms(1,2) i(2)])
      have r: "r = Inr \<lparr>pr_WorkingDir = ?b, pr_Env = env, pr_jobID = j, pr_outputs = outs\<rparr>" "st' = st2"
        using assms(3) m k True g Inr by (auto simp: Prepare_def mintWorkDir_def bindE_def retE_def wd(1) Let_def)
      from staged [OF r(1) h] c e r(2) show thesis by simp
    qed
  qed
qed

lemma stager_cleanup_frame: "\<not> at_or_below base q \<Longrightarrow> nd_host (stager_cleanup sg base st) q = nd_host st q"
  by (auto simp: stager_cleanup_def RemoveAll_def host_call_def)

section \<open>Properties\<close>

text \<open>C38. Staging touches only the run's own directory: whatever paths the bindings ask for, preparation changes no file or directory
  outside the working directory, apart from creating the work root, and every path it hands to the job lies in
  the working directory.\<close>

theorem staging_confined:
  assumes "clean_dir (sg_workRoot sg)" and "sanitiseJobDirName j w \<notin> {''.'', ''..''}" and "Prepare sg sha ops j w ins outs st = (r, st')"
    and "\<not> at_or_below (work_dir sg j w) q" and "q \<notin> set (dir_chain (sg_workRoot sg))"
  shows "nd_host st' q = nd_host st q \<and> (\<forall>p. r = Inr p \<longrightarrow> pr_WorkingDir p = work_dir sg j w \<and> (\<forall>v \<in> ran (pr_Env p). below (work_dir sg j w) v))"
  using assms(1-3)
proof (cases rule: Prepare_parts)
  case (unmade e)
  with assms(5) show ?thesis by simp
next
  case (undone e st1 st2)
  have "q \<noteq> work_dir sg j w" using assms(4) by auto
  with undone(2,4,5) assms(4,5) have "nd_host st' q = nd_host st q" by (simp add: changes_below_def stager_cleanup_frame)
  with undone(1) show ?thesis by simp
next
  case (staged p st1)
  have "q \<noteq> work_dir sg j w" using assms(4) by auto
  with staged(2,3) assms(4,5) have "nd_host st' q = nd_host st q" by (simp add: changes_below_def)
  with staged(1,4,7) show ?thesis by simp
qed


text \<open>A path accepted at submission is staged where it says: below the working directory under the very same relative path,
  unless it looks like a drive letter.\<close>

theorem validated_path_staged:
  assumes "clean_dir base" and "validateLocalPath p = None" and "\<not> (2 \<le> length p \<and> p ! 1 = CHR '':'')"
  shows "safeJoin base p = Some (base @ ''/'' @ p)"
proof -
  note pl = validateLocalPath_plain [OF assms(2)]
  have v: "p \<noteq> []" "\<not> HasPrefix p ''/''" "NUL \<notin> set p" "CHR 0x5C \<notin> set p" using assms(2) by (auto simp: validateLocalPath_def split: if_splits)
  then have "hd p \<noteq> CHR ''/''" "\<not> HasPrefix p [CHR 0x5C]" by (auto simp: HasPrefix_iff neq_Nil_conv)
  moreover have "Clean p = p"
    using v(1) \<open>hd p \<noteq> CHR ''/''\<close> Join_Split [of p "CHR ''/''"] clean_segs_plain [OF pl, of False "[]"] by (simp add: Clean_def)
  ultimately show ?thesis
    using v assms join_root [OF assms(1) pl v(1)] by (simp add: safeJoin_def clean_dir_def HasPrefix_iff Let_def)
qed

theorem validated_path_staged_witness: "safeJoin ''/work/j1'' ''out/model.pt'' = Some ''/work/j1/out/model.pt''"
proof -
  have "clean_dir ''/work/j1''" "validateLocalPath ''out/model.pt'' = None" by code_simp+
  from validated_path_staged [OF this] show ?thesis by simp
qed

definition demo_stager :: stager where
  "demo_stager = \<lparr>sg_workRoot = ''/work'', sg_keep = False, sg_maxIn = 10, sg_maxOut = 10\<rparr>"

definition demo_binding :: "string \<Rightarrow> string \<Rightarrow> string \<Rightarrow> artifact_binding" where
  "demo_binding n uri p = \<lparr>b_Name = n, b_URI = uri, b_From = [], b_LocalPath = p, b_SHA256 = []\<rparr>"

definition demo_host :: "local_store node_state" where
  "demo_host = \<lparr>nd_host = [''/etc'' \<mapsto> HDir, ''/etc/passwd'' \<mapsto> HFile ''root''], nd_sys = [], nd_store = demo_files\<rparr>"

lemma demo_stager_ok: "clean_dir (sg_workRoot demo_stager)" "sanitiseJobDirName ''wf/train'' [] \<notin> {''.'', ''..''}" "work_dir demo_stager ''wf/train'' [] = ''/work/wf_train''"
proof -
  have "clean_dir ''/work''" "sanitiseJobDirName ''wf/train'' [] = ''wf_train''" by code_simp+
  then show "clean_dir (sg_workRoot demo_stager)" "sanitiseJobDirName ''wf/train'' [] \<notin> {''.'', ''..''}" "work_dir demo_stager ''wf/train'' [] = ''/work/wf_train''"
    by (simp_all add: demo_stager_def work_dir_def)
qed

lemma demo_chain: "\<not> at_or_below q ''/work'' \<Longrightarrow> q \<notin> set (dir_chain (sg_workRoot demo_stager))"
  by (simp add: dir_chain_iff demo_stager_def)

theorem staging_confined_witness:
  "nd_host (snd (Prepare demo_stager (\<lambda>c. c) (local_ops (\<lambda>c. c) (\<lambda>a. a = [])) ''wf/train'' [] [demo_binding ''IN'' ''file:///var/art/a'' ''../../etc/passwd''] []
     demo_host)) ''/etc/passwd'' = Some (HFile ''root'')"
proof -
  let ?P = "Prepare demo_stager (\<lambda>c. c) (local_ops (\<lambda>c. c) (\<lambda>a. a = [])) ''wf/train'' [] [demo_binding ''IN'' ''file:///var/art/a'' ''../../etc/passwd''] [] demo_host"
  have n: "\<not> at_or_below (work_dir demo_stager ''wf/train'' []) ''/etc/passwd''" "''/etc/passwd'' \<notin> set (dir_chain (sg_workRoot demo_stager))"
    unfolding demo_stager_ok(3) by (simp_all add: at_or_below_def HasPrefix_iff dir_chain_iff demo_stager_def)
  obtain r st' where p: "?P = (r, st')" by fastforce
  from staging_confined [OF demo_stager_ok(1,2) p n] p show ?thesis by (simp add: demo_host_def)
qed


text \<open>Two jobs can have the same working directory name, so that only one of them can run on the node at a time.\<close>

lemma work_dir_collision: "work_dir sg ''wf/train'' [] = work_dir sg ''wf_train'' []"
proof -
  have "sanitiseJobDirName ''wf/train'' [] = sanitiseJobDirName ''wf_train'' []" by code_simp
  then show ?thesis by (simp add: work_dir_def)
qed

text \<open>A path that passes submission but has a colon in second place is refused on the node.\<close>

lemma drive_like_path_refused: "validateLocalPath ''a:b.txt'' = None \<and> safeJoin root ''a:b.txt'' = None"
proof -
  have "validateLocalPath ''a:b.txt'' = None" by code_simp
  then show ?thesis by (simp add: safeJoin_def HasPrefix_iff)
qed

end
