(* ===== verification/Gpu_Runtime.thy ===== *)
theory Gpu_Runtime
  imports Go_Strings "HOL-Library.Word"
begin

text \<open>
  The job runtimes of a node (\<open>internal/runtime\<close>): the allocator of whole GPU devices (\<open>gpu_alloc.go\<close>) and the part of
  \<open>Run\<close> before and after the process (\<open>go_runtime.go\<close>, \<open>rust_client.go\<close>). The device indices a job may use are handed to
  it in \<open>CUDA_VISIBLE_DEVICES\<close>.

  The allocation loop is a partial function, so that its termination is a theorem. The interface between a
  runtime and the processes it runs is the locale \<open>device_runtime\<close>, interpreted on both runtimes; the isolation
  of concurrent jobs is proved in it.
\<close>

section \<open>Allocator\<close>

record gpu_allocator =
  ga_total :: "32 word"
  ga_busy :: "nat \<rightharpoonup> string"

definition NewGPUAllocator :: "32 word \<Rightarrow> gpu_allocator" where
  "NewGPUAllocator tot = \<lparr>ga_total = tot, ga_busy = Map.empty\<rparr>"

definition InUse :: "gpu_allocator \<Rightarrow> nat" where
  "InUse a = card (dom (ga_busy a))"

partial_function (option) alloc_loop ::
    "string \<Rightarrow> 32 word \<Rightarrow> 32 word \<Rightarrow> nat \<Rightarrow> (nat \<rightharpoonup> string) \<Rightarrow> nat list \<Rightarrow> (nat list \<times> (nat \<rightharpoonup> string)) option" where
  "alloc_loop jobID tot n idx busy picked =
     (if idx < unat tot \<and> (of_nat (length picked) :: 32 word) < n
      then if busy idx \<noteq> None then alloc_loop jobID tot n (Suc idx) busy picked
        else alloc_loop jobID tot n (Suc idx) (busy(idx \<mapsto> jobID)) (picked @ [idx])
      else Some (picked, busy))"

text \<open>\<open>None\<close> is a call that does not return; the error of a refused request is \<open>Inl\<close>.\<close>

definition Allocate :: "string \<Rightarrow> 32 word \<Rightarrow> gpu_allocator \<Rightarrow> ((unit + nat list) \<times> gpu_allocator) option" where
  "Allocate jobID n a =
     (if n = 0 then Some (Inr [], a)
      else if ga_total a < of_nat (InUse a) + n then Some (Inl (), a)
      else map_option (\<lambda>(picked, busy). (Inr picked, a\<lparr>ga_busy := busy\<rparr>)) (alloc_loop jobID (ga_total a) n 0 (ga_busy a) []))"

definition Release :: "string \<Rightarrow> gpu_allocator \<Rightarrow> gpu_allocator" where
  "Release jobID a = a\<lparr>ga_busy := (\<lambda>i. if ga_busy a i = Some jobID then None else ga_busy a i)\<rparr>"

definition VisibleDevicesEnv :: "nat list \<Rightarrow> string" where
  "VisibleDevicesEnv indices = (if indices = [] then [] else Join (map Itoa indices) '','')"

definition withCudaVisibleDevices :: "(string \<rightharpoonup> string) \<Rightarrow> string \<Rightarrow> (string \<rightharpoonup> string)" where
  "withCudaVisibleDevices base v = base(''CUDA_VISIBLE_DEVICES'' \<mapsto> v)"

section \<open>Runtimes\<close>

record run_request =
  rq_JobID :: string
  rq_Command :: string
  rq_Args :: "string list"
  rq_Env :: "string \<rightharpoonup> string"
  rq_TimeoutSeconds :: "64 word"
  rq_MemoryBytes :: "64 word"
  rq_CPUQuotaUS :: "64 word"
  rq_CPUPeriodUS :: "64 word"
  rq_WorkingDir :: string
  rq_GPUs :: "32 word"
  rq_IsService :: bool

record run_result =
  rr_ExitCode :: int
  rr_Stdout :: string
  rr_Stderr :: string
  rr_Error :: string
  rr_KillReason :: string

datatype run_refusal = CommandNotAllowed | NoAllocator | GpusExhausted

text \<open>What a process is started with; no timeout is \<open>None\<close>.\<close>

record process_start =
  st_command :: string
  st_args :: "string list"
  st_env :: "string \<rightharpoonup> string"
  st_dir :: string
  st_timeout :: "int option"
  st_gpus :: "nat list"

record go_runtime =
  gr_running :: "string \<rightharpoonup> nat"
  gr_defaultTimeout :: int
  gr_allowedCommands :: "string list option"
  gr_gpus :: "gpu_allocator option"

definition readAllowedCommands :: "string \<Rightarrow> string list option" where
  "readAllowedCommands v = (if v = [] then None
     else let allowed = filter (\<lambda>c. c \<noteq> []) (map TrimSpace (Split v (CHR '',''))) in if allowed = [] then None else Some allowed)"

definition NewGoRuntimeWithGPUs :: "int \<Rightarrow> string \<Rightarrow> 32 word \<Rightarrow> go_runtime" where
  "NewGoRuntimeWithGPUs defaultTimeout env tot = \<lparr>gr_running = Map.empty, gr_defaultTimeout = defaultTimeout,
     gr_allowedCommands = readAllowedCommands env, gr_gpus = Some (NewGPUAllocator tot)\<rparr>"

definition run_timeout :: "int \<Rightarrow> run_request \<Rightarrow> int option" where
  "run_timeout dflt rq =
     (let t = sint (rq_TimeoutSeconds rq * 1000000000);
          t = (if t \<le> 0 then dflt else t);
          t = (if rq_IsService rq then 0 else t) in
      if 0 < t then Some t else None)"

definition claim_gpus :: "run_request \<Rightarrow> gpu_allocator option \<Rightarrow> ((run_refusal + nat list) \<times> gpu_allocator option) option" where
  "claim_gpus rq gpus = (if rq_GPUs rq = 0 then Some (Inr [], gpus)
     else case gpus of None \<Rightarrow> Some (Inl NoAllocator, None)
      | Some a \<Rightarrow> (case Allocate (rq_JobID rq) (rq_GPUs rq) a of None \<Rightarrow> None
           | Some (Inl _, a) \<Rightarrow> Some (Inl GpusExhausted, Some a)
           | Some (Inr indices, a) \<Rightarrow> Some (Inr indices, Some a)))"

definition gpu_equipped :: "gpu_allocator option \<Rightarrow> bool" where
  "gpu_equipped gpus = (case gpus of None \<Rightarrow> False | Some a \<Rightarrow> 0 < ga_total a)"

text \<open>\<open>Run\<close> up to the start of the process, and its deferred function; \<open>token\<close> stands for the cancel function of the run.\<close>

definition go_Run_begin :: "nat \<Rightarrow> run_request \<Rightarrow> go_runtime \<Rightarrow> ((run_refusal + process_start) \<times> go_runtime) option" where
  "go_Run_begin token rq rt =
     (if (case gr_allowedCommands rt of None \<Rightarrow> False | Some cs \<Rightarrow> rq_Command rq \<notin> set cs) then Some (Inl CommandNotAllowed, rt)
      else case claim_gpus rq (gr_gpus rt) of None \<Rightarrow> None
       | Some (Inl e, g) \<Rightarrow> Some (Inl e, rt\<lparr>gr_gpus := g\<rparr>)
       | Some (Inr indices, g) \<Rightarrow>
          Some (Inr \<lparr>st_command = rq_Command rq, st_args = rq_Args rq,
              st_env = (if indices \<noteq> [] then (rq_Env rq)(''CUDA_VISIBLE_DEVICES'' \<mapsto> VisibleDevicesEnv indices)
                 else if gpu_equipped g then (rq_Env rq)(''CUDA_VISIBLE_DEVICES'' \<mapsto> []) else rq_Env rq),
              st_dir = rq_WorkingDir rq, st_timeout = run_timeout (gr_defaultTimeout rt) rq, st_gpus = indices\<rparr>,
            rt\<lparr>gr_gpus := g, gr_running := (gr_running rt)(rq_JobID rq \<mapsto> token)\<rparr>))"

definition go_Run_end :: "run_request \<Rightarrow> go_runtime \<Rightarrow> go_runtime" where
  "go_Run_end rq rt = rt\<lparr>gr_running := (gr_running rt)(rq_JobID rq := None), gr_gpus := map_option (Release (rq_JobID rq)) (gr_gpus rt)\<rparr>"

datatype process_end = ProcDone | ProcExit int string | ProcExec string

definition go_result :: "bool \<Rightarrow> process_end \<Rightarrow> string \<Rightarrow> string \<Rightarrow> run_result" where
  "go_result deadline e out err =
     (let r = \<lparr>rr_ExitCode = 0, rr_Stdout = out, rr_Stderr = err, rr_Error = [], rr_KillReason = []\<rparr> in
      if e = ProcDone then r
      else if deadline then r\<lparr>rr_KillReason := ''Timeout'', rr_Error := ''job timed out'', rr_ExitCode := -1\<rparr>
      else case e of ProcExit c m \<Rightarrow> r\<lparr>rr_ExitCode := sint (word_of_int c :: 32 word), rr_Error := m\<rparr>
       | ProcExec m \<Rightarrow> r\<lparr>rr_ExitCode := -1, rr_Error := ''exec: '' @ m\<rparr> | ProcDone \<Rightarrow> r)"

definition go_Cancel :: "string \<Rightarrow> go_runtime \<Rightarrow> nat option" where
  "go_Cancel jobID rt = gr_running rt jobID"

text \<open>The Rust client keeps only its allocator; the timeout is enforced behind the socket.\<close>

definition rust_Run_begin :: "run_request \<Rightarrow> gpu_allocator option \<Rightarrow> ((run_refusal + run_request \<times> nat list) \<times> gpu_allocator option) option" where
  "rust_Run_begin rq gpus = (case claim_gpus rq gpus of None \<Rightarrow> None
     | Some (Inl e, g) \<Rightarrow> Some (Inl e, g)
     | Some (Inr indices, g) \<Rightarrow>
        Some (Inr (if rq_GPUs rq \<noteq> 0 then rq\<lparr>rq_Env := withCudaVisibleDevices (rq_Env rq) (VisibleDevicesEnv indices)\<rparr>
            else if gpu_equipped g then rq\<lparr>rq_Env := withCudaVisibleDevices (rq_Env rq) []\<rparr> else rq, indices), g))"

definition rust_Run_end :: "run_request \<Rightarrow> gpu_allocator option \<Rightarrow> gpu_allocator option" where
  "rust_Run_end rq gpus = (if rq_GPUs rq \<noteq> 0 then map_option (Release (rq_JobID rq)) gpus else gpus)"

section \<open>Allocation\<close>

definition free_from :: "nat \<Rightarrow> 32 word \<Rightarrow> (nat \<rightharpoonup> string) \<Rightarrow> nat list" where
  "free_from idx tot busy = filter (\<lambda>i. busy i = None) [idx..<unat tot]"

definition claim :: "string \<Rightarrow> nat list \<Rightarrow> (nat \<rightharpoonup> string) \<Rightarrow> (nat \<rightharpoonup> string)" where
  "claim jobID is busy = (\<lambda>i. if i \<in> set is then Some jobID else busy i)"

lemma free_from_Suc: "idx < unat tot \<Longrightarrow> free_from idx tot busy = (if busy idx = None then [idx] else []) @ free_from (Suc idx) tot busy"
  by (simp add: free_from_def upt_conv_Cons)

lemma free_from_update: "free_from (Suc idx) tot (busy(idx \<mapsto> j)) = free_from (Suc idx) tot busy"
  unfolding free_from_def by (rule filter_cong) auto

lemma unat_bound: "unat (w :: 32 word) < 2 ^ 32"
  using unsigned_less [of w, where 'a = nat] by simp

lemma count_less: "m < 2 ^ 32 \<Longrightarrow> (of_nat m :: 32 word) < n \<longleftrightarrow> m < unat n"
  by (simp add: word_less_nat_alt unat_of_nat)

text \<open>The loop claims the first free devices, as many as are wanted or as there are.\<close>

lemma alloc_loop_eq:
  assumes "length picked \<le> idx" and "idx \<le> unat tot"
  shows "alloc_loop jobID tot n idx busy picked =
    (let new = take (unat n - length picked) (free_from idx tot busy) in Some (picked @ new, claim jobID new busy))"
  using assms
proof (induction "unat tot - idx" arbitrary: idx busy picked)
  case 0
  then have "idx = unat tot" by simp
  then show ?case by (subst alloc_loop.simps) (simp add: free_from_def claim_def)
next
  case (Suc k)
  then have lt: "idx < unat tot" by simp
  have small: "length picked < 2 ^ 32" using Suc.prems(1) lt unat_bound [of tot] by simp
  show ?case
  proof (cases "length picked < unat n")
    case False
    with small show ?thesis by (subst alloc_loop.simps) (simp add: count_less claim_def)
  next
    case True
    note head = free_from_Suc [OF lt, of busy]
    show ?thesis
    proof (cases "busy idx")
      case None
      have "alloc_loop jobID tot n idx busy picked = alloc_loop jobID tot n (Suc idx) (busy(idx \<mapsto> jobID)) (picked @ [idx])"
        using True small lt None by (subst alloc_loop.simps) (simp add: count_less)
      also have "\<dots> = (let new = take (unat n - Suc (length picked)) (free_from (Suc idx) tot busy) in
          Some (picked @ idx # new, claim jobID new (busy(idx \<mapsto> jobID))))"
        using Suc.hyps(1) [of "Suc idx" "picked @ [idx]" "busy(idx \<mapsto> jobID)"] Suc.hyps(2) Suc.prems lt by (simp add: free_from_update Let_def)
      also have "\<dots> = (let new = take (unat n - length picked) (free_from idx tot busy) in Some (picked @ new, claim jobID new busy))"
        using True None by (auto simp: head Let_def claim_def fun_eq_iff Suc_diff_Suc [symmetric])
      finally show ?thesis .
    next
      case (Some j)
      have "alloc_loop jobID tot n idx busy picked = alloc_loop jobID tot n (Suc idx) busy picked"
        using True small lt Some by (subst alloc_loop.simps) (simp add: count_less)
      also have "\<dots> = (let new = take (unat n - length picked) (free_from (Suc idx) tot busy) in Some (picked @ new, claim jobID new busy))"
        using Suc.hyps(1) [of "Suc idx" picked busy] Suc.hyps(2) Suc.prems lt by simp
      finally show ?thesis using Some by (simp add: head)
    qed
  qed
qed

lemma alloc_loop_start:
  "alloc_loop jobID tot n 0 busy [] = (let new = take (unat n) (free_from 0 tot busy) in Some (new, claim jobID new busy))"
  using alloc_loop_eq [of "[]" 0 tot jobID n busy] by simp

definition gpu_ok :: "gpu_allocator \<Rightarrow> bool" where
  "gpu_ok a \<longleftrightarrow> dom (ga_busy a) \<subseteq> {..<unat (ga_total a)}"

lemma free_from_props:
  "distinct (free_from idx tot busy)" "sorted_wrt (<) (free_from idx tot busy)"
  "d \<in> set (free_from idx tot busy) \<longleftrightarrow> idx \<le> d \<and> d < unat tot \<and> busy d = None"
  by (auto simp: free_from_def sorted_wrt_filter)

lemma length_free_from:
  assumes "gpu_ok a"
  shows "length (free_from 0 (ga_total a) (ga_busy a)) + InUse a = unat (ga_total a)"
proof -
  have fin: "finite (dom (ga_busy a))" using assms finite_subset unfolding gpu_ok_def by blast
  have "set (free_from 0 (ga_total a) (ga_busy a)) \<union> dom (ga_busy a) = {..<unat (ga_total a)}"
    using assms by (auto simp: free_from_props(3) gpu_ok_def)
  moreover have "set (free_from 0 (ga_total a) (ga_busy a)) \<inter> dom (ga_busy a) = {}" by (auto simp: free_from_props(3))
  ultimately show ?thesis
    using card_Un_disjoint [of "set (free_from 0 (ga_total a) (ga_busy a))" "dom (ga_busy a)"] fin distinct_card [OF free_from_props(1)]
    by (simp add: InUse_def)
qed

lemma Allocate_eq:
  "Allocate jobID n a =
     (if n = 0 then Some (Inr [], a) else if ga_total a < of_nat (InUse a) + n then Some (Inl (), a)
      else let new = take (unat n) (free_from 0 (ga_total a) (ga_busy a)) in Some (Inr new, a\<lparr>ga_busy := claim jobID new (ga_busy a)\<rparr>))"
  by (simp add: Allocate_def alloc_loop_start Let_def)

lemma Allocate_total:
  "\<exists>r a'. Allocate jobID n a = Some (r, a') \<and> (case r of Inl _ \<Rightarrow> a' = a
     | Inr ds \<Rightarrow> distinct ds \<and> set ds \<subseteq> {..<unat (ga_total a)} - dom (ga_busy a) \<and> a' = a\<lparr>ga_busy := claim jobID ds (ga_busy a)\<rparr>)"
proof -
  have "set (take m (free_from 0 (ga_total a) (ga_busy a))) \<subseteq> {..<unat (ga_total a)} - dom (ga_busy a)" for m
    using set_take_subset [of m "free_from 0 (ga_total a) (ga_busy a)"] by (auto simp: free_from_props(3))
  then show ?thesis by (auto simp: Allocate_eq Let_def free_from_props(1) claim_def)
qed

text \<open>Allocation always returns: whatever the request, the capacity and the devices in use, the loop ends, with the
  error and the allocator untouched, or with distinct free devices of the node, which are the only ones to change
  hands.\<close>

theorem Allocate_returns:
  "\<exists>r a'. Allocate jobID n a = Some (r, a') \<and> (case r of Inl _ \<Rightarrow> a' = a
     | Inr ds \<Rightarrow> distinct ds \<and> set ds \<subseteq> {..<unat (ga_total a)} - dom (ga_busy a) \<and> a' = a\<lparr>ga_busy := claim jobID ds (ga_busy a)\<rparr>)"
  by (rule Allocate_total)

text \<open>All or nothing: while the sum of the devices in use and the devices asked for fits 32 bits, a request is granted
  exactly when that many devices are free, and then it gets exactly that many, in ascending order.\<close>

theorem Allocate_exact:
  assumes "gpu_ok a" and "InUse a + unat n < 2 ^ 32" and "n \<noteq> 0"
  shows "if InUse a + unat n \<le> unat (ga_total a)
    then \<exists>ds. Allocate jobID n a = Some (Inr ds, a\<lparr>ga_busy := claim jobID ds (ga_busy a)\<rparr>) \<and> length ds = unat n \<and> sorted_wrt (<) ds \<and>
      set ds \<subseteq> {..<unat (ga_total a)} - dom (ga_busy a)
    else Allocate jobID n a = Some (Inl (), a)"
proof -
  let ?free = "free_from 0 (ga_total a) (ga_busy a)"
  have "unat (of_nat (InUse a) + n) = InUse a + unat n" using assms(2) by (simp add: unat_word_ariths unat_of_nat)
  then have c: "ga_total a < of_nat (InUse a) + n \<longleftrightarrow> unat (ga_total a) < InUse a + unat n" by (simp add: word_less_nat_alt)
  have s: "sorted_wrt (<) (take (unat n) ?free)" using free_from_props(2) by (rule sorted_wrt_take)
  have "set (take (unat n) ?free) \<subseteq> {..<unat (ga_total a)} - dom (ga_busy a)"
    using set_take_subset [of "unat n" ?free] by (auto simp: free_from_props(3))
  with c s assms(3) length_free_from [OF assms(1)] show ?thesis by (auto simp: Allocate_eq Let_def)
qed

definition demo_gpus :: gpu_allocator where
  "demo_gpus = \<lparr>ga_total = 4, ga_busy = [1 \<mapsto> ''j1'']\<rparr>"

lemma demo_gpus_ok: "gpu_ok demo_gpus" "InUse demo_gpus = 1"
  by (simp_all add: gpu_ok_def demo_gpus_def InUse_def)

theorem Allocate_exact_witness:
  "(\<exists>ds. Allocate ''j2'' 3 demo_gpus = Some (Inr ds, demo_gpus\<lparr>ga_busy := claim ''j2'' ds (ga_busy demo_gpus)\<rparr>) \<and> length ds = 3) \<and>
   Allocate ''j2'' 4 demo_gpus = Some (Inl (), demo_gpus)"
  using Allocate_exact [OF demo_gpus_ok(1), of 3 "''j2''"] Allocate_exact [OF demo_gpus_ok(1), of 4 "''j2''"]
  by (auto simp: demo_gpus_ok(2)) (auto simp: demo_gpus_def)

text \<open>Beyond 32 bits the sum wraps: a request for the two's complement of the devices in use passes the check and is handed
  the remaining devices, fewer than it asked for.\<close>

lemma oversized_request_partial:
  assumes "gpu_ok a" and "0 < InUse a"
  shows "\<exists>ds a'. Allocate jobID (- of_nat (InUse a)) a = Some (Inr ds, a') \<and> length ds < unat (- of_nat (InUse a) :: 32 word)"
proof -
  let ?n = "- of_nat (InUse a) :: 32 word"
  have u: "InUse a \<le> unat (ga_total a)" using length_free_from [OF assms(1)] by linarith
  then have small: "InUse a < 2 ^ 32" using unat_bound [of "ga_total a"] by linarith
  have nz: "(of_nat (InUse a) :: 32 word) \<noteq> 0" using small assms(2) by (simp add: word_of_nat_eq_0_iff nat_dvd_not_less)
  have "(- int (InUse a)) mod 2 ^ 32 = (2 ^ 32 - int (InUse a)) mod 2 ^ 32" using mod_add_self1 [of "2 ^ 32" "- int (InUse a)"] by simp
  also have "\<dots> = 2 ^ 32 - int (InUse a)" using small assms(2) by (intro mod_pos_pos_trivial) simp_all
  finally have "uint ?n = 2 ^ 32 - int (InUse a)" using small by (simp add: uint_word_ariths unsigned_of_nat take_bit_nat_eq_self)
  then have un: "unat ?n = 2 ^ 32 - InUse a" using small by (simp add: unat_eq_nat_uint nat_diff_distrib)
  have "length (take (unat ?n) (free_from 0 (ga_total a) (ga_busy a))) < unat ?n"
    using length_free_from [OF assms(1)] unat_bound [of "ga_total a"] small by (simp add: un)
  then show ?thesis using nz by (simp add: Allocate_eq Let_def)
qed

section \<open>Concurrent runs\<close>

text \<open>
  What the node relies on, over the devices a runtime has given out: a run that starts gets devices that were free
  and sees exactly those, a run that is refused takes none, and the end of a run gives back its own and no others.
\<close>

locale device_runtime =
  fixes begins :: "run_request \<Rightarrow> (string \<rightharpoonup> string) \<Rightarrow> nat list \<Rightarrow> 'rt \<Rightarrow> 'rt \<Rightarrow> bool"
    and refuses :: "run_request \<Rightarrow> 'rt \<Rightarrow> 'rt \<Rightarrow> bool"
    and ends :: "run_request \<Rightarrow> 'rt \<Rightarrow> 'rt"
    and alloc :: "'rt \<Rightarrow> gpu_allocator"
  assumes begins_claims: "begins rq env ds rt rt' \<Longrightarrow>
      alloc rt' = (alloc rt)\<lparr>ga_busy := claim (rq_JobID rq) ds (ga_busy (alloc rt))\<rparr> \<and> set ds \<subseteq> {..<unat (ga_total (alloc rt))} - dom (ga_busy (alloc rt))"
    and begins_cpu: "begins rq env ds rt rt' \<Longrightarrow> rq_GPUs rq = 0 \<Longrightarrow> ds = []"
    and begins_env: "begins rq env ds rt rt' \<Longrightarrow> ga_total (alloc rt) \<noteq> 0 \<Longrightarrow> env ''CUDA_VISIBLE_DEVICES'' = Some (VisibleDevicesEnv ds)"
    and refuses_frame: "refuses rq rt rt' \<Longrightarrow> alloc rt' = alloc rt"
    and ends_other: "ga_busy (alloc rt) i \<noteq> Some (rq_JobID rq) \<Longrightarrow> ga_busy (alloc (ends rq rt)) i = ga_busy (alloc rt) i"
    and ends_frees: "rq_GPUs rq \<noteq> 0 \<Longrightarrow> ga_busy (alloc rt) i = Some (rq_JobID rq) \<Longrightarrow> ga_busy (alloc (ends rq rt)) i = None"
    and ends_total: "ga_total (alloc (ends rq rt)) = ga_total (alloc rt)"

text \<open>Runs come and go; a job is not started while it is running.\<close>

record active_run =
  ar_request :: run_request
  ar_env :: "string \<rightharpoonup> string"
  ar_gpus :: "nat list"

abbreviation run_id :: "active_run \<Rightarrow> string" where
  "run_id x \<equiv> rq_JobID (ar_request x)"

inductive rt_step :: "(run_request \<Rightarrow> (string \<rightharpoonup> string) \<Rightarrow> nat list \<Rightarrow> 'rt \<Rightarrow> 'rt \<Rightarrow> bool) \<Rightarrow> (run_request \<Rightarrow> 'rt \<Rightarrow> 'rt \<Rightarrow> bool) \<Rightarrow>
    (run_request \<Rightarrow> 'rt \<Rightarrow> 'rt) \<Rightarrow> 'rt \<times> active_run list \<Rightarrow> 'rt \<times> active_run list \<Rightarrow> bool" for begins refuses ends where
  run_begins: "begins rq env ds rt rt' \<Longrightarrow> rq_JobID rq \<notin> run_id ` set act \<Longrightarrow>
    rt_step begins refuses ends (rt, act) (rt', \<lparr>ar_request = rq, ar_env = env, ar_gpus = ds\<rparr> # act)"
| run_refused: "refuses rq rt rt' \<Longrightarrow> rt_step begins refuses ends (rt, act) (rt', act)"
| run_ends: "x \<in> set act \<Longrightarrow> rt_step begins refuses ends (rt, act) (ends (ar_request x) rt, remove1 x act)"

definition run_ok :: "(nat \<rightharpoonup> string) \<Rightarrow> 32 word \<Rightarrow> active_run \<Rightarrow> bool" where
  "run_ok busy tot x \<longleftrightarrow> set (ar_gpus x) = {i. busy i = Some (run_id x)} \<and> set (ar_gpus x) \<subseteq> {..<unat tot} \<and>
     (rq_GPUs (ar_request x) = 0 \<longrightarrow> ar_gpus x = []) \<and>
     (tot \<noteq> 0 \<longrightarrow> ar_env x ''CUDA_VISIBLE_DEVICES'' = Some (VisibleDevicesEnv (ar_gpus x)))"

definition runs_ok :: "('rt \<Rightarrow> gpu_allocator) \<Rightarrow> 32 word \<Rightarrow> 'rt \<times> active_run list \<Rightarrow> bool" where
  "runs_ok alloc tot = (\<lambda>(rt, act).
     ga_total (alloc rt) = tot \<and> distinct (map run_id act) \<and> list_all (run_ok (ga_busy (alloc rt)) tot) act \<and>
     ran (ga_busy (alloc rt)) \<subseteq> run_id ` set act)"

lemma run_ok_cong: "(\<And>i. busy' i = Some (run_id x) \<longleftrightarrow> busy i = Some (run_id x)) \<Longrightarrow> run_ok busy tot x \<Longrightarrow> run_ok busy' tot x"
  by (auto simp: run_ok_def)

context device_runtime
begin

lemma runs_ok_begins:
  assumes "runs_ok alloc tot (rt, act)" and "begins rq env ds rt rt'" and "rq_JobID rq \<notin> run_id ` set act"
  shows "runs_ok alloc tot (rt', \<lparr>ar_request = rq, ar_env = env, ar_gpus = ds\<rparr> # act)"
proof -
  let ?b = "ga_busy (alloc rt)" and ?b' = "ga_busy (alloc rt')"
  have ok: "ga_total (alloc rt) = tot" "distinct (map run_id act)" "list_all (run_ok ?b tot) act" "ran ?b \<subseteq> run_id ` set act"
    using assms(1) by (simp_all add: runs_ok_def)
  have a: "alloc rt' = (alloc rt)\<lparr>ga_busy := claim (rq_JobID rq) ds ?b\<rparr>" "set ds \<subseteq> {..<unat tot} - dom ?b"
    using begins_claims [OF assms(2)] ok(1) by simp_all
  then have b': "?b' = claim (rq_JobID rq) ds ?b" "ga_total (alloc rt') = tot" using ok(1) by simp_all
  have none: "?b i \<noteq> Some (rq_JobID rq)" for i using ok(4) assms(3) ranI by fastforce
  have "?b' i = Some (run_id x) \<longleftrightarrow> ?b i = Some (run_id x)" if "x \<in> set act" for x i
    using that assms(3) a(2) by (auto simp: b' claim_def)
  then have "list_all (run_ok ?b' tot) act" using ok(3) run_ok_cong unfolding list_all_iff by blast
  moreover have "run_ok ?b' tot \<lparr>ar_request = rq, ar_env = env, ar_gpus = ds\<rparr>"
    using a(2) none begins_cpu [OF assms(2)] begins_env [OF assms(2)] ok(1) by (auto simp: run_ok_def b' claim_def)
  moreover have "ran ?b' \<subseteq> insert (rq_JobID rq) (ran ?b)" by (auto simp: b' claim_def ran_def split: if_splits)
  ultimately show ?thesis using ok(2,4) assms(3) b'(2) unfolding runs_ok_def by auto
qed

lemma runs_ok_ends:
  assumes "runs_ok alloc tot (rt, act)" and "x \<in> set act"
  shows "runs_ok alloc tot (ends (ar_request x) rt, remove1 x act)"
proof -
  let ?b = "ga_busy (alloc rt)" and ?b' = "ga_busy (alloc (ends (ar_request x) rt))"
  have ok: "ga_total (alloc rt) = tot" "distinct (map run_id act)" "list_all (run_ok ?b tot) act" "ran ?b \<subseteq> run_id ` set act"
    using assms(1) by (simp_all add: runs_ok_def)
  have d: "distinct act" "inj_on run_id (set act)" using ok(2) by (simp_all add: distinct_map)
  then have other: "run_id y \<noteq> run_id x" if "y \<in> set act - {x}" for y using that assms(2) unfolding inj_on_def by blast
  have mine: "run_ok ?b tot x" using ok(3) assms(2) by (simp add: list_all_iff)
  have gpu: "rq_GPUs (ar_request x) \<noteq> 0" if "?b i = Some (run_id x)" for i using mine that unfolding run_ok_def by fastforce
  have upd: "?b' i = (if ?b i = Some (run_id x) then None else ?b i)" for i
    using ends_frees [OF gpu] ends_other [of rt i "ar_request x"] by simp
  have gone: "?b' i \<noteq> Some (run_id x)" for i by (simp add: upd)
  have keep: "?b' i = Some j \<longleftrightarrow> ?b i = Some j" if "j \<noteq> run_id x" for i j using that by (simp add: upd)
  have "run_ok ?b' tot y" if "y \<in> set act - {x}" for y
    using run_ok_cong [of ?b' y ?b tot] keep other [OF that] ok(3) that by (auto simp: list_all_iff)
  moreover have "ran ?b' \<subseteq> run_id ` (set act - {x})"
  proof
    fix j assume "j \<in> ran ?b'"
    then obtain i where "?b' i = Some j" by (auto simp: ran_def)
    with gone [of i] keep [of j i] have "j \<noteq> run_id x" "?b i = Some j" by auto
    then show "j \<in> run_id ` (set act - {x})" using ok(4) ranI [of ?b i j] by blast
  qed
  moreover have "inj_on run_id (set act - {x})" using d(2) inj_on_subset by blast
  ultimately show ?thesis
    using ok(1) d ends_total by (simp add: runs_ok_def distinct_map list_all_iff)
qed

lemma runs_ok_reachable:
  assumes "(rt_step begins refuses ends)\<^sup>*\<^sup>* (rt0, []) s" and "ga_busy (alloc rt0) = Map.empty"
  shows "runs_ok alloc (ga_total (alloc rt0)) s"
  using assms(1)
proof (induction rule: rtranclp_induct)
  case base
  with assms(2) show ?case by (simp add: runs_ok_def)
next
  case (step s t)
  from step.hyps(2) step.IH show ?case
  proof (induction rule: rt_step.induct)
    case (run_refused rq rt rt' act)
    then show ?case by (simp add: runs_ok_def refuses_frame [OF run_refused(1)])
  qed (use runs_ok_begins runs_ok_ends in blast)+
qed

text \<open>Concurrent runs see disjoint sets of devices of the node, and an idle node has all of them free.\<close>

lemma isolation:
  assumes "(rt_step begins refuses ends)\<^sup>*\<^sup>* (rt0, []) (rt, act)" and "ga_busy (alloc rt0) = Map.empty" and "x \<in> set act"
  shows "set (ar_gpus x) \<subseteq> {..<unat (ga_total (alloc rt0))} \<and>
    (ga_total (alloc rt0) \<noteq> 0 \<longrightarrow> ar_env x ''CUDA_VISIBLE_DEVICES'' = Some (VisibleDevicesEnv (ar_gpus x))) \<and>
    (\<forall>y \<in> set act. y \<noteq> x \<longrightarrow> set (ar_gpus x) \<inter> set (ar_gpus y) = {})"
proof -
  have ok: "distinct (map run_id act)" "list_all (run_ok (ga_busy (alloc rt)) (ga_total (alloc rt0))) act"
    using runs_ok_reachable [OF assms(1,2)] by (simp_all add: runs_ok_def)
  have "set (ar_gpus x) \<inter> set (ar_gpus y) = {}" if "y \<in> set act" "y \<noteq> x" for y
  proof -
    have "run_id y \<noteq> run_id x" using that assms(3) ok(1) unfolding distinct_map inj_on_def by blast
    moreover have "run_ok (ga_busy (alloc rt)) (ga_total (alloc rt0)) x" "run_ok (ga_busy (alloc rt)) (ga_total (alloc rt0)) y"
      using ok(2) that(1) assms(3) by (simp_all add: list_all_iff)
    ultimately show ?thesis unfolding run_ok_def by auto
  qed
  moreover have "run_ok (ga_busy (alloc rt)) (ga_total (alloc rt0)) x" using ok(2) assms(3) by (simp add: list_all_iff)
  ultimately show ?thesis unfolding run_ok_def by blast
qed

lemma idle_devices_free:
  assumes "(rt_step begins refuses ends)\<^sup>*\<^sup>* (rt0, []) (rt, [])" and "ga_busy (alloc rt0) = Map.empty"
  shows "ga_busy (alloc rt) = Map.empty"
  using runs_ok_reachable [OF assms] by (auto simp: runs_ok_def ran_def fun_eq_iff) (metis option.exhaust)

end

text \<open>Both runtimes keep the contract; a runtime built without an allocator gives out no devices.\<close>

definition allocator_of :: "gpu_allocator option \<Rightarrow> gpu_allocator" where
  "allocator_of gpus = (case gpus of None \<Rightarrow> NewGPUAllocator 0 | Some a \<Rightarrow> a)"

definition go_begins :: "run_request \<Rightarrow> (string \<rightharpoonup> string) \<Rightarrow> nat list \<Rightarrow> go_runtime \<Rightarrow> go_runtime \<Rightarrow> bool" where
  "go_begins rq env ds rt rt' \<longleftrightarrow> (\<exists>token st. go_Run_begin token rq rt = Some (Inr st, rt') \<and> st_env st = env \<and> st_gpus st = ds)"

definition go_refuses :: "run_request \<Rightarrow> go_runtime \<Rightarrow> go_runtime \<Rightarrow> bool" where
  "go_refuses rq rt rt' \<longleftrightarrow> (\<exists>token e. go_Run_begin token rq rt = Some (Inl e, rt'))"

definition rust_begins :: "run_request \<Rightarrow> (string \<rightharpoonup> string) \<Rightarrow> nat list \<Rightarrow> gpu_allocator option \<Rightarrow> gpu_allocator option \<Rightarrow> bool" where
  "rust_begins rq env ds g g' \<longleftrightarrow> (\<exists>rq'. rust_Run_begin rq g = Some (Inr (rq', ds), g') \<and> rq_Env rq' = env)"

definition rust_refuses :: "run_request \<Rightarrow> gpu_allocator option \<Rightarrow> gpu_allocator option \<Rightarrow> bool" where
  "rust_refuses rq g g' \<longleftrightarrow> (\<exists>e. rust_Run_begin rq g = Some (Inl e, g'))"

lemma claim_Nil [simp]: "claim j [] busy = busy"
  by (simp add: claim_def)

lemma claim_gpus_effect:
  assumes "claim_gpus rq g = Some (r, g')"
  shows "case r of Inl _ \<Rightarrow> allocator_of g' = allocator_of g
    | Inr ds \<Rightarrow> allocator_of g' = (allocator_of g)\<lparr>ga_busy := claim (rq_JobID rq) ds (ga_busy (allocator_of g))\<rparr> \<and>
        set ds \<subseteq> {..<unat (ga_total (allocator_of g))} - dom (ga_busy (allocator_of g)) \<and> (rq_GPUs rq = 0 \<longrightarrow> ds = []) \<and>
        (gpu_equipped g' \<longleftrightarrow> ga_total (allocator_of g) \<noteq> 0)"
proof (cases "rq_GPUs rq = 0 \<or> g = None")
  case True
  with assms show ?thesis by (auto simp: claim_gpus_def allocator_of_def gpu_equipped_def NewGPUAllocator_def word_gt_0 split: option.splits if_splits)
next
  case False
  then obtain a where g: "g = Some a" by blast
  from Allocate_total [of "rq_JobID rq" "rq_GPUs rq" a] obtain q a' where q: "Allocate (rq_JobID rq) (rq_GPUs rq) a = Some (q, a')"
      "case q of Inl _ \<Rightarrow> a' = a | Inr ds \<Rightarrow> distinct ds \<and> set ds \<subseteq> {..<unat (ga_total a)} - dom (ga_busy a) \<and> a' = a\<lparr>ga_busy := claim (rq_JobID rq) ds (ga_busy a)\<rparr>"
    by blast
  from q assms False g show ?thesis
    by (cases q) (auto simp: claim_gpus_def allocator_of_def gpu_equipped_def word_gt_0)
qed

lemma Release_busy: "ga_busy (Release j a) i = (if ga_busy a i = Some j then None else ga_busy a i)" "ga_total (Release j a) = ga_total a"
  by (simp_all add: Release_def)

lemma go_begins_claim:
  "go_begins rq env ds rt rt' \<Longrightarrow> \<exists>g'. claim_gpus rq (gr_gpus rt) = Some (Inr ds, g') \<and> gr_gpus rt' = g' \<and>
     env = (if ds \<noteq> [] then (rq_Env rq)(''CUDA_VISIBLE_DEVICES'' \<mapsto> VisibleDevicesEnv ds)
        else if gpu_equipped g' then (rq_Env rq)(''CUDA_VISIBLE_DEVICES'' \<mapsto> []) else rq_Env rq)"
  by (auto simp: go_begins_def go_Run_begin_def Let_def split: if_splits option.splits sum.splits)

interpretation go_devices: device_runtime go_begins go_refuses go_Run_end "\<lambda>rt. allocator_of (gr_gpus rt)"
proof unfold_locales
  fix rq env ds and rt rt' :: go_runtime
  assume "go_begins rq env ds rt rt'"
  then obtain g' where g: "claim_gpus rq (gr_gpus rt) = Some (Inr ds, g')" "gr_gpus rt' = g'"
      "env = (if ds \<noteq> [] then (rq_Env rq)(''CUDA_VISIBLE_DEVICES'' \<mapsto> VisibleDevicesEnv ds)
        else if gpu_equipped g' then (rq_Env rq)(''CUDA_VISIBLE_DEVICES'' \<mapsto> []) else rq_Env rq)" using go_begins_claim by blast
  note c = claim_gpus_effect [OF g(1), simplified]
  show "allocator_of (gr_gpus rt') = (allocator_of (gr_gpus rt))\<lparr>ga_busy := claim (rq_JobID rq) ds (ga_busy (allocator_of (gr_gpus rt)))\<rparr> \<and>
      set ds \<subseteq> {..<unat (ga_total (allocator_of (gr_gpus rt)))} - dom (ga_busy (allocator_of (gr_gpus rt)))" using c g(2) by simp
  show "rq_GPUs rq = 0 \<Longrightarrow> ds = []" using c by simp
  show "ga_total (allocator_of (gr_gpus rt)) \<noteq> 0 \<Longrightarrow> env ''CUDA_VISIBLE_DEVICES'' = Some (VisibleDevicesEnv ds)"
    using c g(3) by (auto simp: VisibleDevicesEnv_def)
next
  fix rq and rt rt' :: go_runtime
  assume "go_refuses rq rt rt'"
  then consider "rt' = rt" | e where "claim_gpus rq (gr_gpus rt) = Some (Inl e, gr_gpus rt')"
    by (auto simp: go_refuses_def go_Run_begin_def Let_def split: if_splits option.splits sum.splits)
  then show "allocator_of (gr_gpus rt') = allocator_of (gr_gpus rt)"
    by cases (auto dest: claim_gpus_effect)
qed (auto simp: go_Run_end_def allocator_of_def NewGPUAllocator_def Release_busy split: option.splits)

interpretation rust_devices: device_runtime rust_begins rust_refuses rust_Run_end allocator_of
proof unfold_locales
  fix rq env ds g g'
  assume "rust_begins rq env ds g g'"
  then have g: "claim_gpus rq g = Some (Inr ds, g')"
      "env = (if rq_GPUs rq \<noteq> 0 then (rq_Env rq)(''CUDA_VISIBLE_DEVICES'' \<mapsto> VisibleDevicesEnv ds)
        else if gpu_equipped g' then (rq_Env rq)(''CUDA_VISIBLE_DEVICES'' \<mapsto> []) else rq_Env rq)"
    by (auto simp: rust_begins_def rust_Run_begin_def withCudaVisibleDevices_def split: if_splits option.splits sum.splits)
  note c = claim_gpus_effect [OF g(1), simplified]
  show "allocator_of g' = (allocator_of g)\<lparr>ga_busy := claim (rq_JobID rq) ds (ga_busy (allocator_of g))\<rparr> \<and>
      set ds \<subseteq> {..<unat (ga_total (allocator_of g))} - dom (ga_busy (allocator_of g))" using c by simp
  show "rq_GPUs rq = 0 \<Longrightarrow> ds = []" using c by simp
  show "ga_total (allocator_of g) \<noteq> 0 \<Longrightarrow> env ''CUDA_VISIBLE_DEVICES'' = Some (VisibleDevicesEnv ds)"
    using c g(2) by (auto simp: VisibleDevicesEnv_def)
next
  fix rq g g'
  assume "rust_refuses rq g g'"
  then obtain e where "claim_gpus rq g = Some (Inl e, g')"
    by (auto simp: rust_refuses_def rust_Run_begin_def split: if_splits option.splits sum.splits)
  from claim_gpus_effect [OF this] show "allocator_of g' = allocator_of g" by simp
qed (auto simp: rust_Run_end_def allocator_of_def NewGPUAllocator_def Release_busy split: option.splits)

section \<open>Properties\<close>


definition demo_gpu_run :: "string \<Rightarrow> 32 word \<Rightarrow> run_request" where
  "demo_gpu_run j n = \<lparr>rq_JobID = j, rq_Command = ''sh'', rq_Args = [], rq_Env = [''CUDA_VISIBLE_DEVICES'' \<mapsto> ''0,1''], rq_TimeoutSeconds = 0,
     rq_MemoryBytes = 0, rq_CPUQuotaUS = 0, rq_CPUPeriodUS = 0, rq_WorkingDir = [], rq_GPUs = n, rq_IsService = False\<rparr>"

definition demo_node :: "(nat \<rightharpoonup> string) \<Rightarrow> (string \<rightharpoonup> nat) \<Rightarrow> go_runtime" where
  "demo_node busy run = \<lparr>gr_running = run, gr_defaultTimeout = 1, gr_allowedCommands = None, gr_gpus = Some \<lparr>ga_total = 2, ga_busy = busy\<rparr>\<rparr>"

lemma demo_node_new: "NewGoRuntimeWithGPUs 1 [] 2 = demo_node Map.empty Map.empty"
  by (simp add: NewGoRuntimeWithGPUs_def demo_node_def readAllowedCommands_def NewGPUAllocator_def)

lemma demo_begin:
  assumes "n \<noteq> 0" and "of_nat (card (dom busy)) + n \<le> (2 :: 32 word)" and "take (unat n) (filter (\<lambda>i. busy i = None) [0, 1]) = ds" and "ds \<noteq> []"
  shows "go_begins (demo_gpu_run j n) [''CUDA_VISIBLE_DEVICES'' \<mapsto> VisibleDevicesEnv ds] ds (demo_node busy run)
     (demo_node (claim j ds busy) (run(j \<mapsto> 0)))"
proof -
  have "free_from 0 2 busy = filter (\<lambda>i. busy i = None) [0, 1]" by (simp add: free_from_def upt_rec [of 0 2] upt_rec [of "Suc 0" 2])
  then have "claim_gpus (demo_gpu_run j n) (Some \<lparr>ga_total = 2, ga_busy = busy\<rparr>) = Some (Inr ds, Some \<lparr>ga_total = 2, ga_busy = claim j ds busy\<rparr>)"
    using assms by (simp add: claim_gpus_def Allocate_eq demo_gpu_run_def InUse_def not_less Let_def)
  then show ?thesis using assms(4) by (simp add: go_begins_def go_Run_begin_def demo_node_def demo_gpu_run_def exI [of _ 0])
qed


text \<open>The Rust client isolates its jobs in the same way, and an idle node has all its devices back.\<close>

lemma rust_gpu_isolation:
  assumes "(rt_step rust_begins rust_refuses rust_Run_end)\<^sup>*\<^sup>* (Some (NewGPUAllocator tot), []) (g, act)" and "x \<in> set act" and "y \<in> set act" and "y \<noteq> x"
  shows "set (ar_gpus x) \<inter> set (ar_gpus y) = {}"
  using rust_devices.isolation [OF assms(1) _ assms(2)] assms(3,4) by (simp add: allocator_of_def NewGPUAllocator_def)

lemma idle_node_has_all_devices:
  assumes "(rt_step go_begins go_refuses go_Run_end)\<^sup>*\<^sup>* (NewGoRuntimeWithGPUs dt cmds tot, []) (rt, [])"
  shows "ga_busy (allocator_of (gr_gpus rt)) = Map.empty"
  using go_devices.idle_devices_free [OF assms] by (simp add: NewGoRuntimeWithGPUs_def NewGPUAllocator_def allocator_of_def)

text \<open>The hypothesis that a job is not started twice matters: devices are given back by job, so when the first of two runs of the
  same job ends, the devices of the second are free and the next job is shown a device in use.\<close>

lemma duplicate_run_shares_device:
  "\<exists>e1 e2 e3 rt1 rt2 rt4. go_begins (demo_gpu_run ''j1'' 1) e1 [0] (NewGoRuntimeWithGPUs 1 [] 2) rt1 \<and> go_begins (demo_gpu_run ''j1'' 1) e2 [1] rt1 rt2 \<and>
     go_begins (demo_gpu_run ''j2'' 2) e3 [0, 1] (go_Run_end (demo_gpu_run ''j1'' 1) rt2) rt4"
proof -
  let ?b = "claim ''j1'' [0] Map.empty"
  have d: "dom ?b = {0}" by (auto simp: claim_def split: if_splits)
  have 1: "go_begins (demo_gpu_run ''j1'' 1) [''CUDA_VISIBLE_DEVICES'' \<mapsto> VisibleDevicesEnv [0]] [0] (NewGoRuntimeWithGPUs 1 [] 2) (demo_node ?b [''j1'' \<mapsto> 0])"
    unfolding demo_node_new by (rule demo_begin) simp_all
  have 2: "go_begins (demo_gpu_run ''j1'' 1) [''CUDA_VISIBLE_DEVICES'' \<mapsto> VisibleDevicesEnv [1]] [1] (demo_node ?b [''j1'' \<mapsto> 0])
      (demo_node (claim ''j1'' [1] ?b) ([''j1'' \<mapsto> 0](''j1'' \<mapsto> 0)))"
    by (rule demo_begin) (simp_all add: d, simp_all add: claim_def)
  have "go_Run_end (demo_gpu_run ''j1'' 1) (demo_node (claim ''j1'' [1] ?b) ([''j1'' \<mapsto> 0](''j1'' \<mapsto> 0))) = demo_node Map.empty Map.empty"
    by (auto simp: go_Run_end_def demo_node_def demo_gpu_run_def Release_def claim_def)
  moreover have "go_begins (demo_gpu_run ''j2'' 2) [''CUDA_VISIBLE_DEVICES'' \<mapsto> VisibleDevicesEnv [0, 1]] [0, 1] (demo_node Map.empty Map.empty)
      (demo_node (claim ''j2'' [0, 1] Map.empty) [''j2'' \<mapsto> 0])"
    by (rule demo_begin) simp_all
  ultimately show ?thesis using 1 2 by metis
qed

end
