(* ===== verification/Node_Agent.thy ===== *)
theory Node_Agent
  imports Staging Gpu_Runtime Node_Reports Dispatch
begin

text \<open>
  The node agent (\<open>internal/nodeserver/server.go\<close>, \<open>service_prober.go\<close>): what a node does with a dispatched job and what it
  reports. The runtime's \<open>Run\<close> is an argument, with what the process does to the host while it runs; the messages
  of staging errors are rendered by \<open>render\<close>.

  The lemmas show that every dispatched job is reported exactly once, what a success report means, and, together with
  the coordinator's attestation, that the outputs an honest node reports are accepted.
\<close>

section \<open>Dispatch\<close>

record node_request =
  dq_JobId :: string
  dq_Command :: string
  dq_Args :: "string list"
  dq_Env :: "string \<rightharpoonup> string"
  dq_TimeoutSeconds :: "64 word"
  dq_Limits :: "(64 word \<times> 64 word \<times> 64 word) option"
  dq_Inputs :: "artifact_binding list"
  dq_Outputs :: "artifact_binding list"
  dq_WorkingDir :: string
  dq_Gpus :: "32 word"
  dq_Service :: "service_spec option"

text \<open>How the node sees a request of the coordinator, which never fills in the limits.\<close>

definition binding_of :: "proto_binding \<Rightarrow> artifact_binding" where
  "binding_of b = \<lparr>b_Name = pb_Name b, b_URI = pb_Uri b, b_From = [], b_LocalPath = pb_LocalPath b, b_SHA256 = pb_Sha256 b\<rparr>"

definition node_request_of :: "Dispatch.dispatch_request \<Rightarrow> node_request" where
  "node_request_of r = \<lparr>dq_JobId = dr_JobId r, dq_Command = dr_Command r, dq_Args = dr_Args r, dq_Env = map_of (dr_Env r),
     dq_TimeoutSeconds = word_of_int (dr_TimeoutSeconds r), dq_Limits = None, dq_Inputs = map binding_of (dr_Inputs r), dq_Outputs = map binding_of (dr_Outputs r),
     dq_WorkingDir = dr_WorkingDir r, dq_Gpus = dr_Gpus r, dq_Service = dr_Service r\<rparr>"

record node_server =
  ns_stager :: "stager option"
  ns_client :: bool
  ns_nodeID :: string
  ns_address :: string
  ns_runtimeName :: string
  ns_running :: int
  ns_started :: int

datatype dispatch_ack = AckInvalid | Ack string bool string

record 's run_env =
  re_run :: "run_request \<Rightarrow> string + run_result"
  re_process :: "run_request \<Rightarrow> 's node_state \<Rightarrow> 's node_state"
  re_sha :: "string \<Rightarrow> string"
  re_ops :: "'s art_ops"
  re_render :: "stage_error \<Rightarrow> string"

definition jobFromDispatch :: "node_request \<Rightarrow> artifact_binding list \<times> artifact_binding list" where
  "jobFromDispatch req = (map (\<lambda>b. b\<lparr>b_From := []\<rparr>) (dq_Inputs req), map (\<lambda>b. b\<lparr>b_From := [], b_SHA256 := []\<rparr>) (dq_Outputs req))"

definition mergeEnv :: "(string \<rightharpoonup> string) \<Rightarrow> prepared option \<Rightarrow> (string \<rightharpoonup> string)" where
  "mergeEnv base p = (case p of None \<Rightarrow> base | Some p \<Rightarrow> base ++ pr_Env p)"

definition artifactOutputsToProto :: "resolved_output list \<Rightarrow> proto_output option list" where
  "artifactOutputsToProto src = map (\<lambda>r. Some \<lparr>po_Name = ro_Name r, po_Uri = ro_URI r, po_Size = ro_Size r, po_Sha256 = ro_SHA256 r, po_LocalPath = ro_LocalPath r\<rparr>) src"

definition reportResult :: "node_server \<Rightarrow> string \<Rightarrow> bool \<Rightarrow> int \<Rightarrow> string \<Rightarrow> resolved_output list \<Rightarrow> job_result list" where
  "reportResult ns jobID success exitCode errMsg outputs =
     (if \<not> ns_client ns then [] else [\<lparr>r_JobId = jobID, r_NodeId = ns_nodeID ns, r_Success = success, r_ExitCode = exitCode, r_Error = errMsg,
        r_Runtime = ns_runtimeName ns, r_Outputs = artifactOutputsToProto outputs\<rparr>])"

definition run_request_of :: "node_request \<Rightarrow> prepared option \<Rightarrow> run_request" where
  "run_request_of req p = (let lim = (case dq_Limits req of None \<Rightarrow> (0, 0, 0) | Some l \<Rightarrow> l) in
     \<lparr>rq_JobID = dq_JobId req, rq_Command = dq_Command req, rq_Args = dq_Args req, rq_Env = mergeEnv (dq_Env req) p,
      rq_TimeoutSeconds = dq_TimeoutSeconds req, rq_MemoryBytes = fst lim, rq_CPUQuotaUS = fst (snd lim), rq_CPUPeriodUS = snd (snd lim),
      rq_WorkingDir = (case p of None \<Rightarrow> [] | Some p \<Rightarrow> pr_WorkingDir p), rq_GPUs = dq_Gpus req, rq_IsService = (dq_Service req \<noteq> None)\<rparr>)"

text \<open>The run, and the finalisation that turns its result into an error when an upload fails.\<close>

definition run_ok_result :: "string + run_result \<Rightarrow> bool" where
  "run_ok_result res = (case res of Inl _ \<Rightarrow> False | Inr r \<Rightarrow> rr_ExitCode r = 0 \<and> rr_KillReason r = [])"

definition run_and_finalize :: "node_server \<Rightarrow> 's run_env \<Rightarrow> run_request \<Rightarrow> prepared option \<Rightarrow> 's node_state
    \<Rightarrow> (string + run_result) \<times> resolved_output list \<times> 's node_state" where
  "run_and_finalize ns re rq p st =
     (let res = re_run re rq; st = re_process re rq st in
      case (p, ns_stager ns) of
        (Some p, Some sg) \<Rightarrow> (case Finalize sg (re_ops re) p (run_ok_result res) st of ((outs, e), st) \<Rightarrow>
           (case e of None \<Rightarrow> res | Some e \<Rightarrow> (case res of Inl m \<Rightarrow> Inl m | Inr _ \<Rightarrow> Inl (re_render re e)), outs, st))
      | _ \<Rightarrow> (res, [], st))"

definition report_run :: "node_server \<Rightarrow> string \<Rightarrow> string + run_result \<Rightarrow> resolved_output list \<Rightarrow> job_result list" where
  "report_run ns jobID res outs = (case res of Inl m \<Rightarrow> reportResult ns jobID False (-1) m []
     | Inr r \<Rightarrow> reportResult ns jobID (rr_ExitCode r = 0 \<and> rr_KillReason r = []) (rr_ExitCode r)
         (if rr_KillReason r = [] then rr_Error r else rr_KillReason r) outs)"

definition ack_of :: "string \<Rightarrow> string + run_result \<Rightarrow> dispatch_ack" where
  "ack_of jobID res = (case res of Inl m \<Rightarrow> Ack jobID False m | Inr r \<Rightarrow> Ack jobID True (if rr_KillReason r = [] then rr_Error r else rr_KillReason r))"

text \<open>The background half of a service job.\<close>

definition runAndReportService :: "node_server \<Rightarrow> 's run_env \<Rightarrow> string \<Rightarrow> run_request \<Rightarrow> prepared option \<Rightarrow> 's node_state \<Rightarrow> job_result list \<times> 's node_state" where
  "runAndReportService ns re jobID rq p st = (case run_and_finalize ns re rq p st of (res, outs, st) \<Rightarrow> (report_run ns jobID res outs, st))"

text \<open>The answer to the coordinator, the reports and the host afterwards. A service job is acknowledged at once; its reports and its effect
  are those of the background half.\<close>

definition dispatch_run :: "node_server \<Rightarrow> 's run_env \<Rightarrow> node_request \<Rightarrow> prepared option \<Rightarrow> 's node_state \<Rightarrow> dispatch_ack \<times> job_result list \<times> 's node_state" where
  "dispatch_run ns re req p st = (if dq_Service req \<noteq> None
     then (case runAndReportService ns re (dq_JobId req) (run_request_of req p) p st of (reps, st) \<Rightarrow> (Ack (dq_JobId req) True [], reps, st))
     else (case run_and_finalize ns re (run_request_of req p) p st of (res, outs, st) \<Rightarrow>
       (ack_of (dq_JobId req) res, report_run ns (dq_JobId req) res outs, st)))"

definition node_Dispatch :: "node_server \<Rightarrow> 's run_env \<Rightarrow> node_request \<Rightarrow> 's node_state \<Rightarrow> dispatch_ack \<times> job_result list \<times> 's node_state" where
  "node_Dispatch ns re req st =
     (if dq_JobId req = [] then (AckInvalid, [], st)
      else
        let bindings = (dq_Inputs req \<noteq> [] \<or> dq_Outputs req \<noteq> [] \<or> dq_WorkingDir req \<noteq> []);
            msg = ''node has no artifact stager; job declares inputs/outputs'' in
        if \<not> bindings then dispatch_run ns re req None st
        else case ns_stager ns of
          None \<Rightarrow> (Ack (dq_JobId req) False msg, reportResult ns (dq_JobId req) False (-1) msg [], st)
        | Some sg \<Rightarrow> (case Prepare sg (re_sha re) (re_ops re) (dq_JobId req) (dq_WorkingDir req) (fst (jobFromDispatch req)) (snd (jobFromDispatch req)) st of
            (Inl e, st) \<Rightarrow> (Ack (dq_JobId req) False (re_render re e), reportResult ns (dq_JobId req) False (-1) (re_render re e) [], st)
          | (Inr p, st) \<Rightarrow> dispatch_run ns re req (Some p) st))"

section \<open>Service probes\<close>

record prober =
  pb_last :: "bool option"
  pb_fails :: "32 word"

text \<open>One round of the probe loop: its event, if the state it reports changed.\<close>

definition probe_round :: "bool \<Rightarrow> prober \<Rightarrow> (bool \<times> 32 word) option \<times> prober" where
  "probe_round ready pb =
     (let fails = (if ready then 0 else pb_fails pb + 1) in
      if pb_last pb = None \<or> pb_last pb \<noteq> Some ready
      then (Some (ready, fails), \<lparr>pb_last = Some ready, pb_fails = fails\<rparr>)
      else (None, pb\<lparr>pb_fails := fails\<rparr>))"

fun probe_rounds :: "bool list \<Rightarrow> prober \<Rightarrow> (bool \<times> 32 word) list \<times> prober" where
  "probe_rounds [] pb = ([], pb)"
| "probe_rounds (r # rs) pb = (case probe_round r pb of (e, pb) \<Rightarrow> (case probe_rounds rs pb of (es, pb) \<Rightarrow> ((case e of None \<Rightarrow> es | Some e \<Rightarrow> e # es), pb)))"

definition probeService :: "node_server \<Rightarrow> string \<Rightarrow> service_spec option \<Rightarrow> time list \<Rightarrow> bool list \<Rightarrow> service_event list" where
  "probeService ns jobID spec clock outcomes = (case spec of None \<Rightarrow> []
     | Some sp \<Rightarrow> if ss_Port sp = 0 \<or> \<not> ns_client ns then []
        else map2 (\<lambda>t (ready, fails). \<lparr>v_JobId = jobID, v_NodeId = ns_nodeID ns, v_NodeAddress = ns_address ns, v_Port = ss_Port sp, v_HealthPath = ss_HealthPath sp,
            v_Ready = ready, v_ConsecutiveFailures = fails, v_OccurredAt = Some t\<rparr>) clock (fst (probe_rounds outcomes \<lparr>pb_last = None, pb_fails = 0\<rparr>)))"

section \<open>Uploads\<close>

definition key_of :: "string \<Rightarrow> string \<Rightarrow> string" where
  "key_of jobID p = ''jobs/'' @ jobID @ ''/'' @ p"

definition canonical :: "string \<Rightarrow> bool" where
  "canonical key \<longleftrightarrow> sanitizeKey key = Some key \<and> \<not> list_ex shouldEscape key"

lemma host_call_Inr: "host_call st = (Inr u, st1) \<Longrightarrow> nd_host st1 = nd_host st \<and> nd_store st1 = nd_store st"
  by (auto simp: host_call_def split: if_splits)

lemma in_store_Inr: "in_store f st = (Inr x, st1) \<longleftrightarrow> (\<exists>s. f (nd_store st) = (Inr x, s) \<and> st1 = st\<lparr>nd_store := s\<rparr>)"
  by (auto simp: in_store_def split: prod.splits sum.splits)

lemma upload_Inr:
  assumes "upload sg ops jobID name p src st = (Inr r, st')"
  shows "\<exists>c s1 s2. nd_host st src = Some (HFile c) \<and> ao_Put ops (key_of jobID p) c (int (length c)) (nd_store st) = (Inr (ro_URI r), s1) \<and>
    ao_Stat ops (ro_URI r) s1 = (Inr (ro_Size r, ro_SHA256 r), s2) \<and> nd_store st' = s2 \<and> ro_Name r = name \<and> ro_LocalPath r = p"
proof -
  let ?rest = "\<lambda>c. bindE host_call (\<lambda>_. bindE (in_store (ao_Put ops (''jobs/'' @ jobID @ ''/'' @ p) c (int (length c)))) (\<lambda>uri. bindE (in_store (ao_Stat ops uri)) (\<lambda>md.
         retE \<lparr>ro_Name = name, ro_URI = uri, ro_Size = fst md, ro_SHA256 = snd md, ro_LocalPath = p\<rparr>)))"
  from assms obtain x st1 where h1: "host_call st = (Inr x, st1)" and body: "(case nd_host st1 src of None \<Rightarrow> (Inl SgMissing, st1) | Some HLink \<Rightarrow> (Inl SgSymlink, st1)
       | Some HDir \<Rightarrow> (Inl SgIrregular, st1) | Some HOther \<Rightarrow> (Inl SgIrregular, st1)
       | Some (HFile c) \<Rightarrow> if sg_maxOut sg < int (length c) then (Inl SgOversize, st1) else ?rest c st1) = (Inr r, st')"
    unfolding upload_def bindE_Inr [of host_call] by blast
  obtain c where c: "nd_host st1 src = Some (HFile c)"
  proof (cases "nd_host st1 src")
    case (Some n)
    with body that show thesis by (cases n) simp_all
  qed (use body in simp)
  with body have h3: "?rest c st1 = (Inr r, st')" by (auto split: if_splits)
  note h = h1 c h3
  from h(3) obtain st2 where g: "host_call st1 = (Inr (), st2)"
      "bindE (in_store (ao_Put ops (''jobs/'' @ jobID @ ''/'' @ p) c (int (length c)))) (\<lambda>uri. bindE (in_store (ao_Stat ops uri)) (\<lambda>md.
         retE \<lparr>ro_Name = name, ro_URI = uri, ro_Size = fst md, ro_SHA256 = snd md, ro_LocalPath = p\<rparr>)) st2 = (Inr r, st')"
    unfolding bindE_Inr by auto
  have e: "nd_store st2 = nd_store st" "nd_host st1 = nd_host st" using host_call_Inr h(1) g(1) by metis+
  from g(2) e h(2) show ?thesis by (auto simp: bindE_Inr in_store_Inr retE_def key_of_def)
qed

text \<open>
  What the coordinator's check of reported outputs needs from an artifact store: the URI of an object ends in its key, has an
  accepted scheme and is of moderate length, at least for keys without bytes that a URI escapes.
\<close>

locale output_store =
  fixes ops :: "'s art_ops" and inv :: "'s \<Rightarrow> bool"
  assumes put_uri: "inv s \<Longrightarrow> canonical key \<Longrightarrow> ao_Put ops key c n s = (Inr uri, s') \<Longrightarrow>
      HasSuffix uri (''/'' @ key) \<and> (HasPrefix uri ''file://'' \<or> HasPrefix uri ''s3://'') \<and> length uri \<le> 2048 \<and> \<not> list_ex control_byte uri"
    and put_inv: "inv s \<Longrightarrow> ao_Put ops key c n s = (r, s') \<Longrightarrow> inv s'"
    and stat_inv: "inv s \<Longrightarrow> ao_Stat ops uri s = (q, s') \<Longrightarrow> inv s'"
    and stat_size: "ao_Stat ops uri s = (Inr (n, h), s') \<Longrightarrow> 0 \<le> n"

definition proto_of :: "resolved_output \<Rightarrow> proto_output" where
  "proto_of r = \<lparr>po_Name = ro_Name r, po_Uri = ro_URI r, po_Size = ro_Size r, po_Sha256 = ro_SHA256 r, po_LocalPath = ro_LocalPath r\<rparr>"

definition output_ready :: "string \<Rightarrow> artifact_binding \<Rightarrow> bool" where
  "output_ready jobID b \<longleftrightarrow> validateArtifactName (b_Name b) \<and> validateLocalPath (b_LocalPath b) = None \<and> canonical (key_of jobID (b_LocalPath b))"

lemma name_charset_valid: "validateArtifactName n \<Longrightarrow> n \<noteq> [] \<and> length n \<le> 64 \<and> name_charset 0 n"
proof -
  assume v: "validateArtifactName n"
  have "list_all (\<lambda>x. byte_range 65 90 x \<or> x = CHR ''_'' \<or> byte_range 48 57 x) cs \<Longrightarrow> 0 < i \<Longrightarrow> name_charset i cs" for i cs
    by (induction cs arbitrary: i) auto
  with v show ?thesis by (cases n) (auto simp: validateArtifactName_def)
qed

definition accepted_output :: "string \<Rightarrow> string list \<Rightarrow> resolved_output \<Rightarrow> bool" where
  "accepted_output jobID declared r \<longleftrightarrow> validateReportedOutput (proto_of r) = [] \<and> uriBelongsToJob (ro_URI r) jobID (ro_LocalPath r) \<and> ro_Name r \<in> set declared"

context output_store
begin

lemma upload_accepted:
  assumes "upload sg ops jobID (b_Name b) (b_LocalPath b) src st = (Inr r, st')" and "inv (nd_store st)" and "output_ready jobID b" and "jobID \<noteq> []"
  shows "accepted_output jobID [b_Name b] r \<and> inv (nd_store st')"
proof -
  from upload_Inr [OF assms(1)] obtain c s1 s2 where u: "ao_Put ops (key_of jobID (b_LocalPath b)) c (int (length c)) (nd_store st) = (Inr (ro_URI r), s1)"
      "ao_Stat ops (ro_URI r) s1 = (Inr (ro_Size r, ro_SHA256 r), s2)" "nd_store st' = s2" "ro_Name r = b_Name b" "ro_LocalPath r = b_LocalPath b" by blast
  have rd: "validateArtifactName (b_Name b)" "validateLocalPath (b_LocalPath b) = None" "canonical (key_of jobID (b_LocalPath b))"
    using assms(3) by (auto simp: output_ready_def)
  have p: "b_LocalPath b \<noteq> []" "length (b_LocalPath b) \<le> 512" using rd(2) by (auto simp: validateLocalPath_def split: if_splits)
  note uri = put_uri [OF assms(2) rd(3) u(1)]
  have "ro_URI r \<noteq> []" using uri by (auto simp: HasSuffix_iff)
  then have "accepted_output jobID [b_Name b] r"
    using uri u(4,5) stat_size [OF u(2)] name_charset_valid [OF rd(1)] p assms(4)
    by (auto simp: accepted_output_def validateReportedOutput_def proto_of_def uriBelongsToJob_def key_of_def)
  moreover have "inv (nd_store st')" using put_inv [OF assms(2) u(1)] stat_inv u(2,3) by blast
  ultimately show ?thesis by blast
qed

lemma upload_all_accepted:
  assumes "upload_all sg ops p bs st = ((rs, e), st')" and "inv (nd_store st)" and "\<forall>b \<in> set bs. output_ready (pr_jobID p) b" and "pr_jobID p \<noteq> []"
  shows "\<forall>r \<in> set rs. accepted_output (pr_jobID p) (map b_Name bs) r"
  using assms(1-3)
proof (induction bs arbitrary: st rs)
  case (Cons b bs)
  obtain q st1 where u: "bindE host_call (\<lambda>_. bindE (joined (pr_WorkingDir p) (b_LocalPath b)) (upload sg ops (pr_jobID p) (b_Name b) (b_LocalPath b))) st = (q, st1)"
    by fastforce
  show ?case
  proof (cases q)
    case (Inl x)
    with u Cons.prems show ?thesis by simp
  next
    case (Inr r)
    obtain rs' e' st2 where rest: "upload_all sg ops p bs st1 = ((rs', e'), st2)" by (metis prod.exhaust_sel)
    from u Inr obtain src st0 where up: "upload sg ops (pr_jobID p) (b_Name b) (b_LocalPath b) src st0 = (Inr r, st1)" "nd_store st0 = nd_store st"
      by (auto simp: bindE_Inr joined_Inr host_call_def split: if_splits)
    have a: "accepted_output (pr_jobID p) [b_Name b] r" "inv (nd_store st1)"
      using upload_accepted [OF up(1)] up(2) Cons.prems(2,3) assms(4) by auto
    have "e' = e \<and> rs = r # rs' \<and> st2 = st'" using Cons.prems(1) u Inr rest by simp
    then have "upload_all sg ops p bs st1 = ((rs', e), st')" "rs = r # rs'" using rest by auto
    from Cons.IH [OF this(1) a(2)] Cons.prems(3) a(1) this(2) show ?thesis by (auto simp: accepted_output_def)
  qed
qed simp

end

lemma local_put_uri:
  assumes "root_ok (ls_root s)" and "\<not> list_ex shouldEscape (ls_root s)" and "length (ls_root s) \<le> 1016" and "canonical key" and "ls_Put key c n s = (Inr uri, s')"
  shows "HasSuffix uri (''/'' @ key) \<and> HasPrefix uri ''file://'' \<and> length uri \<le> 2048 \<and> \<not> list_ex control_byte uri"
proof -
  have k: "sanitizeKey key = Some key" "\<not> list_ex shouldEscape key" using assms(4) by (auto simp: canonical_def)
  have len: "length key \<le> 1024" using k(1) by (auto simp: sanitizeKey_def Let_def split: if_splits)
  have "\<not> shouldEscape (CHR ''/'')" by code_simp
  then have e: "\<not> list_ex shouldEscape (ls_root s @ ''/'' @ key)" using k(2) assms(2) by simp
  from ls_Put_Inr [OF assms(5)] k(1) have "uri = fileURI (PathJoin (ls_root s) key)" by auto
  then have u: "uri = ''file://'' @ ls_root s @ ''/'' @ key"
    using join_root [OF root_ok_clean [OF assms(1)]] sanitizeKey_plain [OF k(1)] assms(1) escape_plain [OF e]
    by (auto simp: fileURI_def root_ok_def clean_dir_def HasPrefix_iff)
  have "\<not> list_ex control_byte ''file://''" by code_simp
  moreover have "\<not> list_ex control_byte (ls_root s @ ''/'' @ key)" using e reserved_escaped(3) by (meson list_ex_iff)
  ultimately show ?thesis using len assms(3) by (auto simp: u HasSuffix_iff HasPrefix_iff)
qed

definition local_inv :: "local_store \<Rightarrow> bool" where
  "local_inv s \<longleftrightarrow> root_ok (ls_root s) \<and> \<not> list_ex shouldEscape (ls_root s) \<and> length (ls_root s) \<le> 1016"

interpretation local_outputs: output_store "local_ops sha auth_ok" local_inv
proof unfold_locales
  fix s key c n uri s'
  assume "local_inv s" and "canonical key" and "ao_Put (local_ops sha auth_ok) key c n s = (Inr uri, s')"
  then show "HasSuffix uri (''/'' @ key) \<and> (HasPrefix uri ''file://'' \<or> HasPrefix uri ''s3://'') \<and> length uri \<le> 2048 \<and> \<not> list_ex control_byte uri"
    using local_put_uri [of s key c n uri s'] by (auto simp: local_inv_def local_ops_def)
qed (auto simp: local_ops_def local_inv_def ls_Put_def ls_Stat_def sys_def Let_def split: option.splits prod.splits bool.splits if_splits)

section \<open>Reports\<close>

lemma upload_all_names:
  "upload_all sg ops p bs st = ((rs, None), st') \<Longrightarrow> map ro_Name rs = map b_Name bs \<and> map ro_LocalPath rs = map b_LocalPath bs"
proof (induction bs arbitrary: st rs)
  case (Cons b bs)
  obtain q st1 where u: "bindE host_call (\<lambda>_. bindE (joined (pr_WorkingDir p) (b_LocalPath b)) (upload sg ops (pr_jobID p) (b_Name b) (b_LocalPath b))) st = (q, st1)"
    by fastforce
  show ?case
  proof (cases q)
    case (Inl x)
    with u Cons.prems show ?thesis by simp
  next
    case (Inr r)
    obtain rs' e' st2 where rest: "upload_all sg ops p bs st1 = ((rs', e'), st2)" by (metis prod.exhaust_sel)
    with Cons.prems u Inr have "e' = None" "rs = r # rs'" "st2 = st'" by simp_all
    moreover have "ro_Name r = b_Name b \<and> ro_LocalPath r = b_LocalPath b"
      using u Inr by (auto simp: bindE_Inr joined_Inr dest: upload_Inr)
    ultimately show ?thesis using Cons.IH rest by auto
  qed
qed simp

text \<open>A dispatch is a refusal with a failure report, or a run whose result decides the one report.\<close>

lemma node_Dispatch_cases:
  assumes "node_Dispatch ns re req st = (ack, reps, st')" and "dq_JobId req \<noteq> []"
  obtains (refused) msg where "ack = Ack (dq_JobId req) False msg" and "reps = reportResult ns (dq_JobId req) False (-1) msg []"
  | (ran) p st1 res outs where "run_and_finalize ns re (run_request_of req p) p st1 = (res, outs, st')" and "reps = report_run ns (dq_JobId req) res outs"
      and "p = None \<and> dq_Outputs req = [] \<or> (\<exists>sg q. p = Some q \<and> ns_stager ns = Some sg \<and>
         Prepare sg (re_sha re) (re_ops re) (dq_JobId req) (dq_WorkingDir req) (fst (jobFromDispatch req)) (snd (jobFromDispatch req)) st = (Inr q, st1))"
proof -
  have go: thesis if "dispatch_run ns re req p st1 = (ack, reps, st')" "p = None \<and> dq_Outputs req = [] \<or> (\<exists>sg q. p = Some q \<and> ns_stager ns = Some sg \<and>
      Prepare sg (re_sha re) (re_ops re) (dq_JobId req) (dq_WorkingDir req) (fst (jobFromDispatch req)) (snd (jobFromDispatch req)) st = (Inr q, st1))" for p st1
  proof -
    obtain res outs st2 where r: "run_and_finalize ns re (run_request_of req p) p st1 = (res, outs, st2)" by (metis prod.exhaust_sel)
    with that(1) have "st2 = st'" "reps = report_run ns (dq_JobId req) res outs" by (auto simp: dispatch_run_def runAndReportService_def split: if_splits)
    with r show thesis using ran that(2) by blast
  qed
  show thesis
  proof (cases "dq_Inputs req \<noteq> [] \<or> dq_Outputs req \<noteq> [] \<or> dq_WorkingDir req \<noteq> []")
    case False
    with assms have "dispatch_run ns re req None st = (ack, reps, st')" by (simp add: node_Dispatch_def)
    then show thesis by (rule go) (use False in simp)
  next
    case bind: True
    show thesis
    proof (cases "ns_stager ns")
      case None
      with assms bind have "ack = Ack (dq_JobId req) False ''node has no artifact stager; job declares inputs/outputs''"
          "reps = reportResult ns (dq_JobId req) False (-1) ''node has no artifact stager; job declares inputs/outputs'' []"
        by (auto simp: node_Dispatch_def Let_def)
      then show thesis by (rule refused)
    next
      case (Some sg)
      obtain q st1 where p: "Prepare sg (re_sha re) (re_ops re) (dq_JobId req) (dq_WorkingDir req) (fst (jobFromDispatch req)) (snd (jobFromDispatch req)) st = (q, st1)"
        by fastforce
      show thesis
      proof (cases q)
        case (Inl e)
        with assms bind Some p have "ack = Ack (dq_JobId req) False (re_render re e)" "reps = reportResult ns (dq_JobId req) False (-1) (re_render re e) []"
          by (auto simp: node_Dispatch_def)
        then show thesis by (rule refused)
      next
        case (Inr x)
        with assms bind Some p have "dispatch_run ns re req (Some x) st1 = (ack, reps, st')" unfolding node_Dispatch_def Let_def by auto
        then show thesis by (rule go) (use Some p Inr in auto)
      qed
    qed
  qed
qed

lemma Prepare_Inr: "Prepare sg sha ops j w ins outs st = (Inr p, st') \<Longrightarrow> pr_jobID p = j \<and> pr_outputs p = outs"
proof -
  assume "Prepare sg sha ops j w ins outs st = (Inr p, st')"
  then obtain d st1 where "(case bindE (stage_inputs sg sha ops d ins Map.empty) (stage_outputs d outs) st1 of (Inl e, st) \<Rightarrow> (Inl e, stager_cleanup sg d st)
      | (Inr env, st) \<Rightarrow> (Inr \<lparr>pr_WorkingDir = d, pr_Env = env, pr_jobID = j, pr_outputs = outs\<rparr>, st)) = (Inr p, st')"
    by (auto simp: Prepare_def bindE_Inr [of "mintWorkDir sg j w"])
  then show ?thesis by (cases "bindE (stage_inputs sg sha ops d ins Map.empty) (stage_outputs d outs) st1") (auto split: sum.splits)
qed

lemma run_and_finalize_Inr:
  assumes "run_and_finalize ns re rq p st = (Inr r, outs, st')"
  shows "re_run re rq = Inr r \<and> (case (p, ns_stager ns) of
      (Some q, Some sg) \<Rightarrow> \<exists>st1. Finalize sg (re_ops re) q (run_ok_result (Inr r)) (re_process re rq st) = ((outs, None), st1)
    | _ \<Rightarrow> outs = [])"
  using assms by (auto simp: run_and_finalize_def Let_def split: option.splits prod.splits sum.splits)

lemma Finalize_ok: "Finalize sg ops p True st = (r, st') \<Longrightarrow> \<exists>st1. upload_all sg ops p (pr_outputs p) st = (r, st1)"
  by (auto simp: Finalize_def split: prod.splits)

lemma report_run_cases:
  "ns_client ns \<Longrightarrow> \<exists>x. report_run ns j res outs = [x] \<and> r_JobId x = j \<and> r_NodeId x = ns_nodeID ns \<and>
     (r_Success x \<longleftrightarrow> run_ok_result res) \<and> (r_Success x \<longrightarrow> r_Outputs x = artifactOutputsToProto outs)"
  by (cases res) (auto simp: report_run_def reportResult_def run_ok_result_def)

text \<open>Every dispatched job is reported exactly once, for itself and from its node, whatever fails on the way; and a
  report of success means that the process exited with zero and was not killed, and that every declared output was
  uploaded, in order.\<close>

theorem dispatch_reported_once:
  assumes "node_Dispatch ns re req st = (ack, reps, st')" and "dq_JobId req \<noteq> []" and "ns_client ns"
  shows "\<exists>x. reps = [x] \<and> r_JobId x = dq_JobId req \<and> r_NodeId x = ns_nodeID ns \<and>
    (r_Success x \<longrightarrow> (\<exists>rq r. re_run re rq = Inr r \<and> rq_JobID rq = dq_JobId req \<and> rr_ExitCode r = 0 \<and> rr_KillReason r = [] \<and>
       map (po_Name \<circ> the) (r_Outputs x) = map b_Name (dq_Outputs req) \<and> None \<notin> set (r_Outputs x)))"
  using assms(1,2)
proof (cases rule: node_Dispatch_cases)
  case (refused msg)
  then show ?thesis using assms(3) by (simp add: reportResult_def)
next
  case (ran p st1 res outs)
  obtain x where x: "reps = [x]" "r_JobId x = dq_JobId req" "r_NodeId x = ns_nodeID ns" "r_Success x \<longleftrightarrow> run_ok_result res"
      "r_Success x \<longrightarrow> r_Outputs x = artifactOutputsToProto outs" using report_run_cases [OF assms(3)] ran(2) by metis
  have "\<exists>rq r. re_run re rq = Inr r \<and> rq_JobID rq = dq_JobId req \<and> rr_ExitCode r = 0 \<and> rr_KillReason r = [] \<and>
       map (po_Name \<circ> the) (r_Outputs x) = map b_Name (dq_Outputs req) \<and> None \<notin> set (r_Outputs x)" if s: "r_Success x"
  proof -
    from s x(4) obtain r where r: "res = Inr r" "rr_ExitCode r = 0" "rr_KillReason r = []" by (auto simp: run_ok_result_def split: sum.splits)
    with ran(1) have f: "run_and_finalize ns re (run_request_of req p) p st1 = (Inr r, outs, st')" by simp
    have "map ro_Name outs = map b_Name (dq_Outputs req)"
    proof (cases p)
      case None
      then show ?thesis using ran(3) run_and_finalize_Inr [OF f] by simp
    next
      case (Some q)
      with ran(3) obtain sg where sg: "ns_stager ns = Some sg" "Prepare sg (re_sha re) (re_ops re) (dq_JobId req) (dq_WorkingDir req) (fst (jobFromDispatch req))
          (snd (jobFromDispatch req)) st = (Inr q, st1)" by auto
      have "pr_outputs q = snd (jobFromDispatch req)" using Prepare_Inr [OF sg(2)] by simp
      moreover from run_and_finalize_Inr [OF f] Some sg(1) r obtain st2 where "Finalize sg (re_ops re) q True (re_process re (run_request_of req p) st1) = ((outs, None), st2)"
        by (auto simp: run_ok_result_def)
      ultimately show ?thesis using Finalize_ok upload_all_names by (fastforce simp: jobFromDispatch_def)
    qed
    then have "map (po_Name \<circ> the) (r_Outputs x) = map b_Name (dq_Outputs req)" using x(5) s by (simp add: artifactOutputsToProto_def comp_def)
    moreover have "None \<notin> set (r_Outputs x)" using x(5) s by (auto simp: artifactOutputsToProto_def)
    moreover have "rq_JobID (run_request_of req p) = dq_JobId req" by (simp add: run_request_of_def Let_def)
    ultimately show ?thesis using run_and_finalize_Inr [OF f] r by blast
  qed
  with x show ?thesis by blast
qed

text \<open>The attestation keeps every output that passes its checks.\<close>

lemma attest_all:
  assumes "\<forall>r \<in> set rs. accepted_output jobID declared r"
  shows "fst (attest_loop wi jobID nodeID (Some declared) (artifactOutputsToProto rs) sv) = map (output_of \<circ> proto_of) rs"
  using assms
proof (induction rs arbitrary: sv)
  case (Cons r rs)
  let ?sv = "if has_bus wi then sv\<lparr>sv_jobs := publishEvent (EvArtifactUploaded jobID (po_Uri (proto_of r)) (po_Size (proto_of r))) (sv_jobs sv)\<rparr> else sv"
  have a: "validateReportedOutput (proto_of r) = []" "uriBelongsToJob (po_Uri (proto_of r)) jobID (po_LocalPath (proto_of r))" "po_Name (proto_of r) \<in> set declared"
    using Cons.prems by (simp_all add: accepted_output_def) (simp_all add: proto_of_def)
  have "artifactOutputsToProto (r # rs) = Some (proto_of r) # artifactOutputsToProto rs" by (simp add: artifactOutputsToProto_def proto_of_def)
  moreover obtain os sv' where l: "attest_loop wi jobID nodeID (Some declared) (artifactOutputsToProto rs) ?sv = (os, sv')" by fastforce
  ultimately have "attest_loop wi jobID nodeID (Some declared) (artifactOutputsToProto (r # rs)) sv = (output_of (proto_of r) # os, sv')"
    using a by (simp add: Let_def)
  then show ?case using Cons.IH [of ?sv] l Cons.prems by simp
qed (simp add: artifactOutputsToProto_def)

definition node_outputs_ready :: "node_request \<Rightarrow> bool" where
  "node_outputs_ready req \<longleftrightarrow> list_all (output_ready (dq_JobId req)) (dq_Outputs req) \<and> length (dq_Outputs req) \<le> 64"

lemma node_outputs_attested:
  assumes "node_Dispatch ns re req st = (ack, [x], st')" and "dq_JobId req \<noteq> []" and "ns_client ns" and "re_ops re = local_ops sha auth_ok"
    and "\<forall>rq st. local_inv (nd_store (re_process re rq st))" and "node_outputs_ready req" and "r_Success x"
  shows "map o_Name (fst (attestOutputs wi (r_JobId x) (r_NodeId x) (r_Outputs x) (Some (map b_Name (dq_Outputs req))) sv)) = map b_Name (dq_Outputs req)"
  using assms(1,2)
proof (cases rule: node_Dispatch_cases)
  case (refused msg)
  then show ?thesis using assms(3,7) by (simp add: reportResult_def)
next
  case (ran p st1 res outs)
  have x: "r_JobId x = dq_JobId req" "run_ok_result res" "r_Outputs x = artifactOutputsToProto outs"
    using report_run_cases [OF assms(3), of "dq_JobId req" res outs] ran(2) assms(7) by auto
  from x(2) obtain r where r: "res = Inr r" by (auto simp: run_ok_result_def split: sum.splits)
  with ran(1) have f: "run_and_finalize ns re (run_request_of req p) p st1 = (Inr r, outs, st')" by simp
  have "map ro_Name outs = map b_Name (dq_Outputs req) \<and> (\<forall>y \<in> set outs. accepted_output (dq_JobId req) (map b_Name (dq_Outputs req)) y)"
  proof (cases p)
    case None
    then show ?thesis using ran(3) run_and_finalize_Inr [OF f] by simp
  next
    case (Some q)
    with ran(3) obtain sg where sg: "ns_stager ns = Some sg" "Prepare sg (re_sha re) (re_ops re) (dq_JobId req) (dq_WorkingDir req) (fst (jobFromDispatch req))
        (snd (jobFromDispatch req)) st = (Inr q, st1)" by auto
    note q = Prepare_Inr [OF sg(2)]
    from run_and_finalize_Inr [OF f] Some sg(1) r x(2) obtain st2 where "Finalize sg (re_ops re) q True (re_process re (run_request_of req p) st1) = ((outs, None), st2)"
      by auto
    from Finalize_ok [OF this] obtain st3 where u: "upload_all sg (local_ops sha auth_ok) q (pr_outputs q) (re_process re (run_request_of req p) st1) = ((outs, None), st3)"
      using assms(4) by auto
    have n: "map b_Name (pr_outputs q) = map b_Name (dq_Outputs req)" using q by (simp add: jobFromDispatch_def comp_def)
    have "\<forall>b \<in> set (pr_outputs q). output_ready (pr_jobID q) b"
      using assms(6) q by (auto simp: jobFromDispatch_def node_outputs_ready_def list_all_iff output_ready_def)
    with local_outputs.upload_all_accepted [OF u] assms(2,5) q n upload_all_names [OF u] show ?thesis by auto
  qed
  then have n: "map ro_Name outs = map b_Name (dq_Outputs req)" and a: "\<forall>y \<in> set outs. accepted_output (dq_JobId req) (map b_Name (dq_Outputs req)) y" by auto
  have "length outs = length (dq_Outputs req)" using n by (metis length_map)
  then have "length (r_Outputs x) \<le> 64" using assms(6) x(3) by (simp add: artifactOutputsToProto_def node_outputs_ready_def)
  then have "fst (attestOutputs wi (r_JobId x) (r_NodeId x) (r_Outputs x) (Some (map b_Name (dq_Outputs req))) sv) = map (output_of \<circ> proto_of) outs"
    using attest_all [OF a] x by (cases "outs = []") (simp_all add: attestOutputs_def artifactOutputsToProto_def)
  with n show ?thesis by (simp add: comp_def output_of_def proto_of_def)
qed

lemma job_outputs: "map b_Name (dq_Outputs (node_request_of (dispatch_request_of job))) = map b_Name (j_Outputs job)"
    "length (dq_Outputs (node_request_of (dispatch_request_of job))) = length (j_Outputs job)"
    "list_all (output_ready i) (dq_Outputs (node_request_of (dispatch_request_of job))) \<longleftrightarrow> list_all (output_ready i) (j_Outputs job)"
  by (simp_all add: node_request_of_def dispatch_request_of_def bindingsToProto_def binding_of_def comp_def list_all_iff output_ready_def)


text \<open>The limits of a job stay at the coordinator: the process of every dispatched job is started without any.\<close>

lemma limits_never_reach_node:
  "rq_MemoryBytes (run_request_of (node_request_of (dispatch_request_of job)) p) = 0 \<and>
   rq_CPUQuotaUS (run_request_of (node_request_of (dispatch_request_of job)) p) = 0 \<and> rq_CPUPeriodUS (run_request_of (node_request_of (dispatch_request_of job)) p) = 0"
  by (simp add: run_request_of_def node_request_of_def)

text \<open>A path that passes submission but has a byte that URIs escape is uploaded under a URI which the suffix check does not
  recognise: the honest report is dropped.\<close>

lemma escaped_output_dropped:
  "validateLocalPath ''my model.pt'' = None \<and> sanitizeKey (key_of ''j1'' ''my model.pt'') = Some (key_of ''j1'' ''my model.pt'') \<and>
   \<not> uriBelongsToJob (fileURI (PathJoin ''/var/art'' (key_of ''j1'' ''my model.pt''))) ''j1'' ''my model.pt''"
proof -
  have "validateLocalPath ''my model.pt'' = None" by code_simp
  moreover have "sanitizeKey (key_of ''j1'' ''my model.pt'') = Some (key_of ''j1'' ''my model.pt'')" by code_simp
  moreover have "\<not> uriBelongsToJob (fileURI (PathJoin ''/var/art'' (key_of ''j1'' ''my model.pt''))) ''j1'' ''my model.pt''" by code_simp
  ultimately show ?thesis by blast
qed

section \<open>A run\<close>

definition demo_node_server :: node_server where
  "demo_node_server = \<lparr>ns_stager = Some demo_stager, ns_client = True, ns_nodeID = ''n1'', ns_address = [], ns_runtimeName = ''go'', ns_running = 0, ns_started = 0\<rparr>"

definition demo_agent_job :: job where
  "demo_agent_job = zero_job\<lparr>j_ID := ''j1'', j_Command := ''train'', j_Outputs := [demo_binding ''OUT'' [] ''m.pt'']\<rparr>"

definition demo_dispatch :: "artifact_binding list \<Rightarrow> node_request" where
  "demo_dispatch outs = \<lparr>dq_JobId = ''j1'', dq_Command = ''train'', dq_Args = [], dq_Env = Map.empty, dq_TimeoutSeconds = 0, dq_Limits = None, dq_Inputs = [],
     dq_Outputs = outs, dq_WorkingDir = [], dq_Gpus = 0, dq_Service = None\<rparr>"

definition demo_run_env :: "local_store run_env" where
  "demo_run_env = \<lparr>re_run = (\<lambda>rq. Inr \<lparr>rr_ExitCode = 0, rr_Stdout = [], rr_Stderr = [], rr_Error = [], rr_KillReason = []\<rparr>),
     re_process = (\<lambda>rq st. \<lparr>nd_host = [''/work/j1/m.pt'' \<mapsto> HFile ''w''], nd_sys = [], nd_store = demo_files\<rparr>),
     re_sha = (\<lambda>c. c), re_ops = local_ops (\<lambda>c. c) (\<lambda>a. a = []), re_render = (\<lambda>e. [])\<rparr>"

definition demo_out :: artifact_binding where
  "demo_out = demo_binding ''OUT'' [] ''m.pt''"

lemma demo_Prepare: "\<exists>p st. Prepare demo_stager (\<lambda>c. c) (local_ops (\<lambda>c. c) (\<lambda>a. a = [])) ''j1'' [] [] [demo_out] demo_host = (Inr p, st) \<and>
    pr_WorkingDir p = ''/work/j1'' \<and> pr_jobID p = ''j1'' \<and> pr_outputs p = [demo_out]"
proof -
  have c: "dir_chain ''/work'' = [''/work'']" "dir_chain ''/work/j1'' = [''/work'', ''/work/j1'']" "PathDir ''/work/j1/m.pt'' = ''/work/j1''"
      "PathJoin ''/work'' (sanitiseJobDirName ''j1'' []) = ''/work/j1''" "safeJoin ''/work/j1'' ''m.pt'' = Some ''/work/j1/m.pt''" by code_simp+
  show ?thesis
    by (simp add: Prepare_def mintWorkDir_def bindE_def MkdirAll_def Mkdir_def host_call_def retE_def joined_def demo_stager_def demo_host_def demo_out_def demo_binding_def c Let_def)
qed

lemma demo_Finalize:
  assumes "pr_WorkingDir p = ''/work/j1''" and "pr_jobID p = ''j1''" and "pr_outputs p = [demo_out]"
  shows "\<exists>uri n h st. Finalize demo_stager (local_ops (\<lambda>c. c) (\<lambda>a. a = [])) p True \<lparr>nd_host = [''/work/j1/m.pt'' \<mapsto> HFile ''w''], nd_sys = [], nd_store = demo_files\<rparr> =
    (([\<lparr>ro_Name = ''OUT'', ro_URI = uri, ro_Size = n, ro_SHA256 = h, ro_LocalPath = ''m.pt''\<rparr>], None), st)"
proof -
  have c: "safeJoin ''/work/j1'' ''m.pt'' = Some ''/work/j1/m.pt''" "sanitizeKey ''jobs/j1/m.pt'' = Some ''jobs/j1/m.pt''" "PathJoin ''/var/art'' ''jobs/j1/m.pt'' = ''/var/art/jobs/j1/m.pt''"
      "pathForURI (\<lambda>a. a = []) ''/var/art'' (fileURI ''/var/art/jobs/j1/m.pt'') = Some ''/var/art/jobs/j1/m.pt''" by code_simp+
  show ?thesis
    using assms
    by (simp add: Finalize_def bindE_def host_call_def retE_def joined_def upload_def in_store_def local_ops_def ls_Put_def ls_Stat_def sys_def demo_stager_def demo_files_def
        demo_out_def demo_binding_def c Let_def)
qed

lemma demo_Dispatch:
  "\<exists>x st. node_Dispatch demo_node_server demo_run_env (demo_dispatch [demo_out]) demo_host = (Ack ''j1'' True [], [x], st) \<and> r_Success x"
proof -
  obtain p st1 where p: "Prepare demo_stager (\<lambda>c. c) (local_ops (\<lambda>c. c) (\<lambda>a. a = [])) ''j1'' [] [] [demo_out] demo_host = (Inr p, st1)"
      "pr_WorkingDir p = ''/work/j1''" "pr_jobID p = ''j1''" "pr_outputs p = [demo_out]" using demo_Prepare by blast
  obtain uri n h st2 where f: "Finalize demo_stager (local_ops (\<lambda>c. c) (\<lambda>a. a = [])) p True \<lparr>nd_host = [''/work/j1/m.pt'' \<mapsto> HFile ''w''], nd_sys = [], nd_store = demo_files\<rparr> =
      (([\<lparr>ro_Name = ''OUT'', ro_URI = uri, ro_Size = n, ro_SHA256 = h, ro_LocalPath = ''m.pt''\<rparr>], None), st2)" using demo_Finalize [OF p(2-4)] by blast
  have "demo_out\<lparr>b_From := [], b_SHA256 := []\<rparr> = demo_out" by (simp add: demo_out_def demo_binding_def)
  then show ?thesis
    using p(1) f by (simp add: node_Dispatch_def demo_node_server_def demo_dispatch_def demo_run_env_def jobFromDispatch_def dispatch_run_def run_and_finalize_def
        run_ok_result_def ack_of_def report_run_def reportResult_def Let_def)
qed

theorem dispatch_reported_once_witness:
  "\<exists>x st. node_Dispatch demo_node_server demo_run_env (demo_dispatch [demo_out]) demo_host = (Ack ''j1'' True [], [x], st) \<and> r_JobId x = ''j1'' \<and>
     map (po_Name \<circ> the) (r_Outputs x) = [''OUT'']"
proof -
  obtain x st where d: "node_Dispatch demo_node_server demo_run_env (demo_dispatch [demo_out]) demo_host = (Ack ''j1'' True [], [x], st)" "r_Success x" using demo_Dispatch by blast
  have "dq_JobId (demo_dispatch [demo_out]) = ''j1''" "ns_client demo_node_server" "map b_Name (dq_Outputs (demo_dispatch [demo_out])) = [''OUT'']"
    by (simp_all add: demo_dispatch_def demo_node_server_def demo_out_def demo_binding_def)
  with dispatch_reported_once [OF d(1)] d show ?thesis by auto
qed

lemma demo_agent_request: "node_request_of (dispatch_request_of demo_agent_job) = demo_dispatch [demo_out]"
  by (simp add: zero_job_def zero_resources_def node_request_of_def dispatch_request_of_def demo_agent_job_def demo_dispatch_def bindingsToProto_def binding_of_def demo_out_def demo_binding_def)


section \<open>Readiness\<close>

lemma probe_rounds_changes:
  "map fst (fst (probe_rounds rs pb)) = (case pb_last pb of None \<Rightarrow> remdups_adj rs | Some b \<Rightarrow> tl (remdups_adj (b # rs)))"
proof (induction rs arbitrary: pb)
  case (Cons r rs)
  obtain e pb1 where p: "probe_round r pb = (e, pb1)" by fastforce
  obtain es pb2 where q: "probe_rounds rs pb1 = (es, pb2)" by fastforce
  have l: "pb_last pb1 = Some r" "e = None \<longleftrightarrow> pb_last pb = Some r" "e \<noteq> None \<Longrightarrow> fst (the e) = r"
    using p by (auto simp: probe_round_def Let_def split: if_splits)
  have ih: "map fst es = tl (remdups_adj (r # rs))" using Cons.IH [of pb1] q l(1) by simp
  have h: "remdups_adj (r # rs) = r # tl (remdups_adj (r # rs))" by (cases rs) simp_all
  show ?case using p q l ih h by (cases "pb_last pb"; cases e) (auto split: if_splits)
qed (simp split: option.splits)

text \<open>The prober reports each change of readiness once: the reported states are the probe outcomes without repetitions, so
  the last report is the present state.\<close>

lemma probe_reports_changes:
  "map fst (fst (probe_rounds outcomes \<lparr>pb_last = None, pb_fails = 0\<rparr>)) = remdups_adj outcomes"
  by (simp add: probe_rounds_changes)

end
