(* ===== verification/Go_Net.thy ===== *)
theory Go_Net
  imports Go_Strings
begin

text \<open>
  The functions of Go's package \<open>net\<close> that the API server calls on a peer address: \<open>SplitHostPort\<close>,
  \<open>ParseIP\<close> and \<open>IsLoopback\<close>. An address is its list of bytes, four or sixteen of them.

  The lemmas show which texts denote a loopback address.
\<close>

section \<open>Host and port\<close>

text \<open>The host of an address with a port; \<open>None\<close> is the error.\<close>

definition SplitHostPort :: "string \<Rightarrow> string option" where
  "SplitHostPort hp =
     (let i = LastIndexByte hp (CHR '':'') in
      if i < 0 then None
      else if hd hp = CHR ''['' then
        let e = IndexByte hp (CHR '']'') in
        if e < 0 \<or> e + 1 \<noteq> i then None
        else if CHR ''['' \<in> set (drop 1 hp) \<or> CHR '']'' \<in> set (drop (nat e + 1) hp) then None
        else Some (take (nat e - 1) (drop 1 hp))
      else
        let host = take (nat i) hp in
        if CHR '':'' \<in> set host \<or> CHR ''['' \<in> set hp \<or> CHR '']'' \<in> set hp then None else Some host)"

section \<open>Addresses\<close>

definition digit_value :: "char \<Rightarrow> nat option" where
  "digit_value c = (if byte_range 48 57 c then Some (of_char c - 48) else None)"

text \<open>A field of a dotted address: decimal digits without a leading zero, at most 255.\<close>

fun octet_from :: "nat \<Rightarrow> string \<Rightarrow> nat option" where
  "octet_from acc [] = Some acc"
| "octet_from acc (c # cs) = (case digit_value c of None \<Rightarrow> None
     | Some d \<Rightarrow> if 255 < 10 * acc + d then None else octet_from (10 * acc + d) cs)"

definition octet :: "string \<Rightarrow> nat option" where
  "octet s = (if s = [] \<or> (hd s = CHR ''0'' \<and> 1 < length s) then None else octet_from 0 s)"

definition parseIPv4 :: "string \<Rightarrow> nat list option" where
  "parseIPv4 s = (let fs = Split s (CHR ''.'') in if length fs \<noteq> 4 then None else those (map octet fs))"

definition nibble :: "char \<Rightarrow> nat option" where
  "nibble c = (if byte_range 48 57 c then Some (of_char c - 48)
     else if byte_range 97 102 c then Some (of_char c - 87)
     else if byte_range 65 70 c then Some (of_char c - 55) else None)"

definition hex_run :: "string \<Rightarrow> string" where
  "hex_run s = takeWhile (\<lambda>c. nibble c \<noteq> None) s"

definition field_value :: "string \<Rightarrow> nat" where
  "field_value s = fold (\<lambda>c n. 16 * n + (case nibble c of None \<Rightarrow> 0 | Some d \<Rightarrow> d)) s 0"

text \<open>
  The loop of \<open>parseIPv6\<close>: \<open>n\<close> fields of two bytes are left to fill, \<open>bs\<close> are the bytes so far, \<open>ell\<close> is where the
  ellipsis was. The result has the bytes and the place of the ellipsis; the text must be used up.
\<close>

fun ipv6_fields :: "nat \<Rightarrow> nat list \<Rightarrow> nat option \<Rightarrow> string \<Rightarrow> (nat list \<times> nat option) option" where
  "ipv6_fields 0 bs ell s = (if s = [] then Some (bs, ell) else None)"
| "ipv6_fields (Suc n) bs ell s =
     (let h = hex_run s; rest = drop (length h) s; v = field_value h in
      if h = [] \<or> 4 < length h then None
      else if rest \<noteq> [] \<and> hd rest = CHR ''.'' then
        (if (ell = None \<and> length bs \<noteq> 12) \<or> 16 < length bs + 4 then None
         else case parseIPv4 s of None \<Rightarrow> None | Some v4 \<Rightarrow> Some (bs @ v4, ell))
      else
        let bs = bs @ [v div 256, v mod 256] in
        if rest = [] then Some (bs, ell)
        else if hd rest \<noteq> CHR '':'' \<or> length rest = 1 then None
        else
          let s = drop 1 rest in
          if hd s = CHR '':'' then
            (if ell \<noteq> None then None
             else if length s = 1 then Some (bs, Some (length bs))
             else ipv6_fields n bs (Some (length bs)) (drop 1 s))
          else ipv6_fields n bs ell s)"

definition parseIPv6 :: "string \<Rightarrow> nat list option" where
  "parseIPv6 s =
     (if CHR ''%'' \<in> set s then None
      else if s = ''::'' then Some (replicate 16 0)
      else
        let r = (if HasPrefix s ''::'' then ipv6_fields 8 [] (Some 0) (drop 2 s) else ipv6_fields 8 [] None s) in
        case r of None \<Rightarrow> None
        | Some (bs, ell) \<Rightarrow>
           (case ell of None \<Rightarrow> if length bs = 16 then Some bs else None
            | Some e \<Rightarrow> if length bs < 16 then Some (take e bs @ replicate (16 - length bs) 0 @ drop e bs) else None))"

text \<open>The first dot, colon or percent sign decides the notation; an address with a zone is refused.\<close>

definition ParseIP :: "string \<Rightarrow> nat list option" where
  "ParseIP s = (case List.find (\<lambda>c. c \<in> set ''.:%'') s of None \<Rightarrow> None
     | Some c \<Rightarrow> if c = CHR ''.'' then parseIPv4 s else if c = CHR '':'' then parseIPv6 s else None)"

definition IsLoopback :: "nat list \<Rightarrow> bool" where
  "IsLoopback ip =
     (if length ip = 4 then ip ! 0 = 127
      else if take 12 ip = replicate 10 0 @ [255, 255] then ip ! 12 = 127
      else ip = replicate 15 0 @ [1])"

section \<open>What a loopback address looks like\<close>

lemma octet_0 [simp]: "octet ''0'' = Some 0" and octet_127 [simp]: "octet ''127'' = Some 127"
  by code_simp+

lemma loopback_examples:
  "map_option IsLoopback (ParseIP ''127.0.0.1'') = Some True" "map_option IsLoopback (ParseIP ''::1'') = Some True"
  "map_option IsLoopback (ParseIP ''10.0.0.127'') = Some False" "ParseIP ''127.0.0.01'' = None" "ParseIP ''::1%lo'' = None"
  "SplitHostPort ''127.0.0.1:80'' = Some ''127.0.0.1''" "SplitHostPort ''[::1]:80'' = Some ''::1''" "SplitHostPort ''::1'' = None"
  by code_simp+

end
