(* ===== verification/Http_Auth.thy ===== *)
theory Http_Auth
  imports Cert_Revocation Principal_Groups Go_Net
begin

text \<open>
  The three gates in front of every handler of the HTTP API: \<open>clientCertMiddleware\<close> of
  \<open>internal/api/operator_cert.go\<close>, \<open>authMiddleware\<close> and \<open>adminMiddleware\<close> of \<open>middleware.go\<close>, and the tiers of
  \<open>internal/webauthn/tier.go\<close>.

  A middleware takes the handler behind it as an argument, as the code does. A request carries the
  parts the gates read: the leaf certificate of a verified TLS peer, the proxy's headers, the bearer
  header, the path. The context is what the gates leave for the handler. The server state is extensible,
  so that the handlers of later theories keep their own fields beside it. The JWT library, the group
  lookup and the text of an error are arguments.

  The lemmas characterise the requests that reach an administrative handler, and show that proxy headers
  count only from a loopback peer and that a revoked certificate gives no identity.
\<close>

section \<open>Requests, context, state\<close>

record http_request =
  hr_Authorization :: string
  hr_Path :: string
  hr_RemoteAddr :: string
  hr_PeerCert :: "(string \<times> nat option) option"
  hr_SSLVerify :: string
  hr_SSLDN :: string
  hr_SSLSerial :: string
  hr_UserAgent :: string

record http_ctx =
  cx_principal :: ctx
  cx_claims :: "claims option"
  cx_operatorCN :: string

definition empty_ctx :: http_ctx where
  "empty_ctx = \<lparr>cx_principal = None, cx_claims = None, cx_operatorCN = []\<rparr>"

datatype client_cert_tier = clientCertOff | clientCertWarn | clientCertOn
datatype webauthn_tier = TierOff | TierWarn | TierOn

datatype fail_reason = AuthFailReasonMissingToken | AuthFailReasonExpired | AuthFailReasonRevoked
  | AuthFailReasonInvalidSignature | AuthFailReasonInvalidFormat

datatype http_event =
    HevAuthFailure "token_error option" string
  | HevTokenCertCNMismatch string string string string string string
  | HevAuthzDeny deny_code action resource_kind string kind
  | HevWebAuthnRequired string string string bool
  | HevOperatorCertRevokedUsed string string string string bool
  | HevOperatorCertMissing string string "string option" bool
  | HevTokenIssued string string int string
  | HevTokenRevoked string
  | HevOperatorCertRevoked string string string string bool
  | HevOperatorCertIssued string string string time time string
  | HevOperatorCertReject string string
  | HevWebAuthnRegisterReject string string
  | HevWebAuthnRegistered string string string string string
  | HevWebAuthnLoginReject string string
  | HevWebAuthnAuthenticated string string string
  | HevWebAuthnRevoked string string string string

datatype feed_event = FeedAuthOK string string string | FeedAuthFail fail_reason string string string
  | FeedAuthRateLimit string string string | FeedAuthTokenMint string string string int

record http_sink =
  hk_log :: "(string \<times> http_event) list"
  hk_faults :: "bool list"

record 't http_server =
  hs_tokenManager :: "'t token_manager option"
  hs_disableAuth :: bool
  hs_clientCertTier :: client_cert_tier
  hs_webauthnTier :: webauthn_tier
  hs_revocationStore :: "rev_store option"
  hs_audit :: "http_sink option"
  hs_eventBus :: "feed_event list option"

section \<open>Tiers\<close>

definition parseClientCertTier :: "string \<Rightarrow> client_cert_tier option" where
  "parseClientCertTier raw =
     (let v = ToLower (TrimSpace raw) in
      if v \<in> set [[], ''off'', ''false'', ''0'', ''no''] then Some clientCertOff
      else if v = ''warn'' then Some clientCertWarn
      else if v \<in> set [''on'', ''true'', ''1'', ''yes'', ''required''] then Some clientCertOn
      else None)"

fun clientCertTier_String :: "client_cert_tier \<Rightarrow> string" where
  "clientCertTier_String clientCertOff = ''off''"
| "clientCertTier_String clientCertWarn = ''warn''"
| "clientCertTier_String clientCertOn = ''on''"

definition ParseTier :: "string \<Rightarrow> webauthn_tier option" where
  "ParseTier raw =
     (let v = ToLower (TrimSpace raw) in
      if v \<in> set [[], ''off''] then Some TierOff else if v = ''warn'' then Some TierWarn
      else if v = ''on'' then Some TierOn else None)"

fun Tier_String :: "webauthn_tier \<Rightarrow> string" where
  "Tier_String TierOff = ''off''"
| "Tier_String TierWarn = ''warn''"
| "Tier_String TierOn = ''on''"

section \<open>Audit and feed\<close>

text \<open>A write to the audit log and whether it succeeded; without a logger nothing is written.\<close>

definition http_audit :: "string \<Rightarrow> http_event \<Rightarrow> ('t, 'm) http_server_scheme \<Rightarrow> bool \<times> ('t, 'm) http_server_scheme" where
  "http_audit actor e s = (case hs_audit s of None \<Rightarrow> (True, s)
     | Some k \<Rightarrow>
        if hk_faults k \<noteq> [] \<and> hd (hk_faults k) then (False, s\<lparr>hs_audit := Some (k\<lparr>hk_faults := tl (hk_faults k)\<rparr>)\<rparr>)
        else (True, s\<lparr>hs_audit := Some (k\<lparr>hk_log := hk_log k @ [(actor, e)], hk_faults := tl (hk_faults k)\<rparr>)\<rparr>))"

definition feed :: "feed_event \<Rightarrow> ('t, 'm) http_server_scheme \<Rightarrow> ('t, 'm) http_server_scheme" where
  "feed e s = (case hs_eventBus s of None \<Rightarrow> s | Some b \<Rightarrow> s\<lparr>hs_eventBus := Some (b @ [e])\<rparr>)"

definition truncateUA :: "string \<Rightarrow> string" where
  "truncateUA ua = (if length ua \<le> 256 then ua else take 256 ua)"

definition recordAuthOK :: "http_request \<Rightarrow> string \<Rightarrow> ('t, 'm) http_server_scheme \<Rightarrow> ('t, 'm) http_server_scheme" where
  "recordAuthOK r actor = feed (FeedAuthOK actor (hr_RemoteAddr r) (truncateUA (hr_UserAgent r)))"

definition recordAuthFail :: "http_request \<Rightarrow> fail_reason \<Rightarrow> string \<Rightarrow> ('t, 'm) http_server_scheme \<Rightarrow> ('t, 'm) http_server_scheme" where
  "recordAuthFail r reason actor = feed (FeedAuthFail reason actor (hr_RemoteAddr r) (truncateUA (hr_UserAgent r)))"

definition recordAuthRateLimit :: "http_request \<Rightarrow> string \<Rightarrow> string \<Rightarrow> ('t, 'm) http_server_scheme \<Rightarrow> ('t, 'm) http_server_scheme" where
  "recordAuthRateLimit r actor path = feed (FeedAuthRateLimit actor path (hr_RemoteAddr r))"

definition recordTokenMint :: "string \<Rightarrow> string \<Rightarrow> string \<Rightarrow> int \<Rightarrow> ('t, 'm) http_server_scheme \<Rightarrow> ('t, 'm) http_server_scheme" where
  "recordTokenMint issuedBy subject role ttlHours = feed (FeedAuthTokenMint issuedBy subject role ttlHours)"

definition ctx_actor :: "http_ctx \<Rightarrow> string" where
  "ctx_actor cx =
     (let p = FromContext (cx_principal cx) in
      if p_Kind p \<noteq> KindAnonymous then p_DisplayName p
      else case cx_claims cx of Some c \<Rightarrow> cl_Subject c | None \<Rightarrow> ''anonymous'')"

section \<open>The peer's certificate\<close>

definition isLoopbackRemote :: "string \<Rightarrow> bool" where
  "isLoopbackRemote remoteAddr =
     (let host = (case SplitHostPort remoteAddr of Some h \<Rightarrow> h | None \<Rightarrow> remoteAddr) in
      case ParseIP host of None \<Rightarrow> False | Some ip \<Rightarrow> IsLoopback ip)"

fun cn_from_parts :: "string list \<Rightarrow> string" where
  "cn_from_parts [] = []"
| "cn_from_parts (p # ps) =
     (let part = TrimSpace p; eq = IndexByte part (CHR ''='') in
      if 0 < eq \<and> ToUpper (TrimSpace (take (nat eq) part)) = ''CN'' then TrimSpace (drop (nat eq + 1) part)
      else cn_from_parts ps)"

definition cnFromDN :: "string \<Rightarrow> string" where
  "cnFromDN dn = cn_from_parts (Split dn (CHR '',''))"

text \<open>\<open>EqualFold\<close> with SUCCESS: no rune but the ASCII letters and the long s folds to its letters.\<close>

definition proxy_verified :: "http_request \<Rightarrow> bool" where
  "proxy_verified r \<longleftrightarrow> ToUpper (hr_SSLVerify r) = ''SUCCESS''"

definition proxy_peer :: "http_request \<Rightarrow> (string \<times> string) option" where
  "proxy_peer r =
     (if isLoopbackRemote (hr_RemoteAddr r) \<and> proxy_verified r then
        let cn = cnFromDN (hr_SSLDN r) in
        if cn = [] then None
        else let rawSerial = TrimSpace (hr_SSLSerial r) in
          if rawSerial \<noteq> [] then (case NormalizeSerialHex rawSerial of Some norm \<Rightarrow> Some (cn, norm) | None \<Rightarrow> Some (cn, []))
          else Some (cn, [])
      else None)"

definition extractVerifiedPeer :: "http_request \<Rightarrow> (string \<times> string) option" where
  "extractVerifiedPeer r = (case hr_PeerCert r of
      Some (cn, serial) \<Rightarrow> if cn \<noteq> [] then Some (cn, SerialHexFromBigInt serial) else proxy_peer r
    | None \<Rightarrow> proxy_peer r)"

section \<open>Client certificates\<close>

datatype http_message = MsgCertRevoked | MsgCertRequired | MsgAuthNotConfigured | MsgMissingBearer | MsgAuthFailed | MsgWebAuthnRequired

datatype 'r outcome = Refused nat http_message | Forbidden deny_code | Served 'r

definition cert_revoked :: "string \<Rightarrow> ('t, 'm) http_server_scheme \<Rightarrow> bool" where
  "cert_revoked serialHex s \<longleftrightarrow> serialHex \<noteq> [] \<and> (case hs_revocationStore s of None \<Rightarrow> False | Some rs \<Rightarrow> CertIsRevoked serialHex rs)"

definition clientCertMiddleware ::
  "(http_request \<Rightarrow> http_ctx \<Rightarrow> ('t, 'm) http_server_scheme \<Rightarrow> 'r outcome \<times> ('t, 'm) http_server_scheme)
   \<Rightarrow> http_request \<Rightarrow> http_ctx \<Rightarrow> ('t, 'm) http_server_scheme \<Rightarrow> 'r outcome \<times> ('t, 'm) http_server_scheme" where
  "clientCertMiddleware next r cx s =
     (if hs_clientCertTier s = clientCertOff then next r cx s
      else if hr_Path r = ''/healthz'' \<or> hr_Path r = ''/readyz'' then next r cx s
      else case extractVerifiedPeer r of
        Some (cn, serialHex) \<Rightarrow>
          if cert_revoked serialHex s then
            let enforced = (hs_clientCertTier s = clientCertOn);
                s1 = snd (http_audit (ctx_actor cx) (HevOperatorCertRevokedUsed serialHex cn (hr_RemoteAddr r) (hr_Path r) enforced) s) in
            if enforced then (Refused 401 MsgCertRevoked, s1)
            else next r cx (snd (http_audit (ctx_actor cx)
                   (HevOperatorCertMissing (hr_Path r) (hr_RemoteAddr r) (Some ''revoked_cert_treated_as_certless'') False) s1))
          else next r (cx\<lparr>cx_operatorCN := cn, cx_principal := NewContext (cx_principal cx) (Some (Operator cn []))\<rparr>) s
      | None \<Rightarrow>
          if hs_clientCertTier s = clientCertWarn then
            next r cx (snd (http_audit (ctx_actor cx) (HevOperatorCertMissing (hr_Path r) (hr_RemoteAddr r) None False) s))
          else (Refused 401 MsgCertRequired,
                snd (http_audit (ctx_actor cx) (HevOperatorCertMissing (hr_Path r) (hr_RemoteAddr r) None True) s)))"

text \<open>\<open>Server.Handler\<close>: the gate stands in front of the routes only when its tier is not off.\<close>

definition Handler ::
  "(http_request \<Rightarrow> http_ctx \<Rightarrow> ('t, 'm) http_server_scheme \<Rightarrow> 'r outcome \<times> ('t, 'm) http_server_scheme)
   \<Rightarrow> http_request \<Rightarrow> ('t, 'm) http_server_scheme \<Rightarrow> 'r outcome \<times> ('t, 'm) http_server_scheme" where
  "Handler mux r s = (if hs_clientCertTier s \<noteq> clientCertOff then clientCertMiddleware mux r empty_ctx s else mux r empty_ctx s)"

section \<open>Tokens\<close>

definition devAdminPrincipal :: principal where
  "devAdminPrincipal = User ''dev-admin-disableauth'' ''admin''"

definition resolvePrincipalFromClaims :: "claims option \<Rightarrow> principal" where
  "resolvePrincipalFromClaims co = (case co of None \<Rightarrow> Anonymous
     | Some c \<Rightarrow> if cl_Role c = ''node'' then NodeP (cl_Subject c)
         else if cl_Role c = ''job'' then JobP (cl_Subject c)
         else User (cl_Subject c) (cl_Role c))"

definition classifyAuthFailure :: "string \<Rightarrow> fail_reason" where
  "classifyAuthFailure err =
     (let msg = ToLower err in
      if str_Contains msg ''expired'' then AuthFailReasonExpired
      else if str_Contains msg ''revoked'' then AuthFailReasonRevoked
      else if str_Contains msg ''invalid'' \<and> str_Contains msg ''signature'' then AuthFailReasonInvalidSignature
      else if str_Contains msg ''malformed'' \<or> str_Contains msg ''format'' then AuthFailReasonInvalidFormat
      else AuthFailReasonInvalidSignature)"

text \<open>From a valid token on: the binding to a certificate, the principal, and the handler.\<close>

definition bind_and_serve ::
  "(string \<Rightarrow> group_error + string list) option
   \<Rightarrow> (http_request \<Rightarrow> http_ctx \<Rightarrow> ('t, 'm) http_server_scheme \<Rightarrow> 'r outcome \<times> ('t, 'm) http_server_scheme)
   \<Rightarrow> http_request \<Rightarrow> http_ctx \<Rightarrow> claims \<Rightarrow> ('t, 'm) http_server_scheme \<Rightarrow> 'r outcome \<times> ('t, 'm) http_server_scheme" where
  "bind_and_serve lookup next r cx c s =
     (if cl_RequiredCN c \<noteq> [] \<and> cx_operatorCN cx \<noteq> cl_RequiredCN c then
        (Refused 401 MsgAuthFailed,
         recordAuthFail r AuthFailReasonInvalidSignature (cl_Subject c)
           (snd (http_audit (cl_Subject c)
              (HevTokenCertCNMismatch (cl_Subject c) (cl_RequiredCN c) (cx_operatorCN cx) (hr_RemoteAddr r) (hr_Path r) (cl_ID c)) s)))
      else
        let s = recordAuthOK r (cl_Subject c) s;
            existing = FromContext (cx_principal cx);
            p = (if p_Kind existing = KindOperator then existing else resolvePrincipalFromClaims (Some c)) in
        next r (cx\<lparr>cx_claims := Some c, cx_principal := NewContext (cx_principal cx) (Some (populateGroups lookup p))\<rparr>) s)"

definition authMiddleware ::
  "'t token_store \<Rightarrow> jwt \<Rightarrow> time \<Rightarrow> (token_error \<Rightarrow> string) \<Rightarrow> (string \<Rightarrow> group_error + string list) option
   \<Rightarrow> (http_request \<Rightarrow> http_ctx \<Rightarrow> ('t, 'm) http_server_scheme \<Rightarrow> 'r outcome \<times> ('t, 'm) http_server_scheme)
   \<Rightarrow> http_request \<Rightarrow> http_ctx \<Rightarrow> ('t, 'm) http_server_scheme \<Rightarrow> 'r outcome \<times> ('t, 'm) http_server_scheme" where
  "authMiddleware ops J now errText lookup next r cx s = (case hs_tokenManager s of
      None \<Rightarrow> if hs_disableAuth s then next r (cx\<lparr>cx_principal := NewContext (cx_principal cx) (Some devAdminPrincipal)\<rparr>) s
              else (Refused 500 MsgAuthNotConfigured, s)
    | Some tm \<Rightarrow>
       if \<not> HasPrefix (hr_Authorization r) ''Bearer '' then
         (Refused 401 MsgMissingBearer,
          recordAuthFail r AuthFailReasonMissingToken [] (snd (http_audit ''unknown'' (HevAuthFailure None (hr_RemoteAddr r)) s)))
       else (case ValidateToken ops J now (drop 7 (hr_Authorization r)) tm of
           (Inl e, tm) \<Rightarrow>
             (Refused 401 MsgAuthFailed,
              recordAuthFail r (classifyAuthFailure (errText e)) []
                (snd (http_audit ''unknown'' (HevAuthFailure (Some e) (hr_RemoteAddr r)) (s\<lparr>hs_tokenManager := Some tm\<rparr>))))
         | (Inr c, tm) \<Rightarrow> bind_and_serve lookup next r cx c (s\<lparr>hs_tokenManager := Some tm\<rparr>)))"

section \<open>Administrators\<close>

definition http_authzCheck :: "http_ctx \<Rightarrow> action \<Rightarrow> resource \<Rightarrow> ('t, 'm) http_server_scheme \<Rightarrow> deny_code option \<times> ('t, 'm) http_server_scheme" where
  "http_authzCheck cx a res s =
     (let p = FromContext (cx_principal cx) in
      case Allow (Some p) a (Some res) of None \<Rightarrow> (None, s)
      | Some de \<Rightarrow> (Some (d_Code de), snd (http_audit (p_ID p) (HevAuthzDeny (d_Code de) (d_Action de) (d_ResourceKind de) (r_ID res) (p_Kind p)) s)))"

definition isWebAuthnBootstrapPath :: "string \<Rightarrow> bool" where
  "isWebAuthnBootstrapPath path \<longleftrightarrow> path \<in> set [''/admin/webauthn/register-begin'', ''/admin/webauthn/register-finish'',
     ''/admin/webauthn/login-begin'', ''/admin/webauthn/login-finish'']"

definition adminMiddleware ::
  "(http_request \<Rightarrow> http_ctx \<Rightarrow> ('t, 'm) http_server_scheme \<Rightarrow> 'r outcome \<times> ('t, 'm) http_server_scheme)
   \<Rightarrow> http_request \<Rightarrow> http_ctx \<Rightarrow> ('t, 'm) http_server_scheme \<Rightarrow> 'r outcome \<times> ('t, 'm) http_server_scheme" where
  "adminMiddleware next r cx s = (case http_authzCheck cx ActionAdmin SystemResource s of
      (Some code, s) \<Rightarrow> (Forbidden code, s)
    | (None, s) \<Rightarrow>
       if hs_webauthnTier s \<noteq> TierOff \<and> \<not> isWebAuthnBootstrapPath (hr_Path r) \<and>
          (case cx_claims cx of None \<Rightarrow> True | Some c \<Rightarrow> cl_AuthMethod c \<noteq> ''webauthn'') then
         let subject = (case cx_claims cx of None \<Rightarrow> [] | Some c \<Rightarrow> cl_Subject c);
             enforced = (hs_webauthnTier s = TierOn);
             s = snd (http_audit subject (HevWebAuthnRequired subject (hr_Path r) (hr_RemoteAddr r) enforced) s) in
         if enforced then (Refused 401 MsgWebAuthnRequired, s) else next r cx s
       else next r cx s)"

text \<open>The wrapping of an administrative route.\<close>

definition admin_route ::
  "'t token_store \<Rightarrow> jwt \<Rightarrow> time \<Rightarrow> (token_error \<Rightarrow> string) \<Rightarrow> (string \<Rightarrow> group_error + string list) option
   \<Rightarrow> (http_request \<Rightarrow> http_ctx \<Rightarrow> ('t, 'm) http_server_scheme \<Rightarrow> 'r outcome \<times> ('t, 'm) http_server_scheme)
   \<Rightarrow> http_request \<Rightarrow> ('t, 'm) http_server_scheme \<Rightarrow> 'r outcome \<times> ('t, 'm) http_server_scheme" where
  "admin_route ops J now errText lookup handler = Handler (authMiddleware ops J now errText lookup (adminMiddleware handler))"

section \<open>Frames\<close>

lemma http_audit_frame [simp]:
  "hs_tokenManager (snd (http_audit a e s)) = hs_tokenManager s" "hs_disableAuth (snd (http_audit a e s)) = hs_disableAuth s"
  "hs_clientCertTier (snd (http_audit a e s)) = hs_clientCertTier s" "hs_webauthnTier (snd (http_audit a e s)) = hs_webauthnTier s"
  "hs_revocationStore (snd (http_audit a e s)) = hs_revocationStore s" "hs_eventBus (snd (http_audit a e s)) = hs_eventBus s"
  by (simp_all add: http_audit_def split: option.splits)

lemma feed_frame [simp]:
  "hs_tokenManager (feed e s) = hs_tokenManager s" "hs_disableAuth (feed e s) = hs_disableAuth s"
  "hs_clientCertTier (feed e s) = hs_clientCertTier s" "hs_webauthnTier (feed e s) = hs_webauthnTier s"
  "hs_revocationStore (feed e s) = hs_revocationStore s" "hs_audit (feed e s) = hs_audit s"
  by (simp_all add: feed_def split: option.splits)

lemmas record_defs = recordAuthOK_def recordAuthFail_def recordAuthRateLimit_def recordTokenMint_def

lemma http_authzCheck_frame: "http_authzCheck cx a res s = (b, s') \<Longrightarrow> hs_webauthnTier s' = hs_webauthnTier s \<and> hs_tokenManager s' = hs_tokenManager s"
  by (auto simp: http_authzCheck_def Let_def split: option.splits)

lemma populateGroups_kind [simp]: "p_Kind (populateGroups l p) = p_Kind p" "p_Role (populateGroups l p) = p_Role p" "p_ID (populateGroups l p) = p_ID p"
  by (simp_all add: populateGroups_def split: option.splits sum.splits)

lemma admin_system: "Allow (Some p) ActionAdmin (Some SystemResource) = None \<longleftrightarrow> IsAdmin (Some p)"
  by (simp add: Allow_iff SystemResource_def)

section \<open>Who reaches the handler\<close>

text \<open>A handler that shows what it was called with.\<close>

definition probe :: "http_request \<Rightarrow> http_ctx \<Rightarrow> ('t, 'm) http_server_scheme \<Rightarrow> http_ctx outcome \<times> ('t, 'm) http_server_scheme" where
  "probe r cx s = (Served cx, s)"

text \<open>Whatever stands behind a gate is called where the probe would be, with what the probe shows, or not at all.\<close>

definition call :: "(http_request \<Rightarrow> http_ctx \<Rightarrow> ('t, 'm) http_server_scheme \<Rightarrow> 'r outcome \<times> ('t, 'm) http_server_scheme)
    \<Rightarrow> http_request \<Rightarrow> http_ctx outcome \<times> ('t, 'm) http_server_scheme \<Rightarrow> 'r outcome \<times> ('t, 'm) http_server_scheme" where
  "call h r x = (case x of (Served cx, s) \<Rightarrow> h r cx s | (Refused n m, s) \<Rightarrow> (Refused n m, s) | (Forbidden d, s) \<Rightarrow> (Forbidden d, s))"

lemma call_simps [simp]: "call h r (Served cx, s) = h r cx s" "call h r (Refused n m, s) = (Refused n m, s)" "call h r (Forbidden d, s) = (Forbidden d, s)"
  by (simp_all add: call_def)

lemma clientCert_call: "clientCertMiddleware h r cx s = call h r (clientCertMiddleware probe r cx s)"
  by (simp add: clientCertMiddleware_def probe_def Let_def split: option.splits prod.splits)

lemma auth_call: "authMiddleware ops J now errText lookup h r cx s = call h r (authMiddleware ops J now errText lookup probe r cx s)"
  by (simp add: authMiddleware_def bind_and_serve_def probe_def Let_def split: option.splits prod.splits sum.splits)

lemma admin_call: "adminMiddleware h r cx s = call h r (adminMiddleware probe r cx s)"
  by (simp add: adminMiddleware_def probe_def Let_def split: option.splits prod.splits)

lemma call_call: "call (\<lambda>r cx s. call h r (g r cx s)) r x = call h r (call g r x)"
  by (simp add: call_def split: prod.splits outcome.splits)

lemma admin_route_call: "admin_route ops J now errText lookup h r s = call h r (admin_route ops J now errText lookup probe r s)"
proof -
  let ?g = "\<lambda>h. authMiddleware ops J now errText lookup (adminMiddleware h)"
  have g: "?g h r cx s = call h r (?g probe r cx s)" for h r cx s
    by (metis (lifting) ext admin_call auth_call call_call)
  have "clientCertMiddleware (?g h) r cx s = call h r (clientCertMiddleware (?g probe) r cx s)" for r cx s
    by (metis (lifting) ext g clientCert_call call_call)
  with g [of h r empty_ctx s] show ?thesis by (cases "hs_clientCertTier s") (simp_all only: admin_route_def Handler_def, simp_all)
qed

definition operator_ctx :: "string \<Rightarrow> http_ctx" where
  "operator_ctx cn = empty_ctx\<lparr>cx_operatorCN := cn, cx_principal := Some (Operator cn [])\<rparr>"

lemma operator_ctx_neq [simp]: "operator_ctx cn \<noteq> empty_ctx"
  by (simp add: operator_ctx_def empty_ctx_def)

text \<open>The request carries no certificate that the server turns into an operator's identity.\<close>

definition certless :: "http_request \<Rightarrow> ('t, 'm) http_server_scheme \<Rightarrow> bool" where
  "certless r s \<longleftrightarrow> hs_clientCertTier s = clientCertOff \<or> hr_Path r = ''/healthz'' \<or> hr_Path r = ''/readyz'' \<or>
     (hs_clientCertTier s = clientCertWarn \<and> (case extractVerifiedPeer r of None \<Rightarrow> True | Some (cn, serial) \<Rightarrow> cert_revoked serial s))"

lemma Handler_cases:
  obtains (refused) m s' where "Handler mux r s = (Refused 401 m, s')" "hs_clientCertTier s = clientCertOn" "\<not> certless r s"
  | (plain) s' where "certless r s" "Handler mux r s = mux r empty_ctx s'" "hs_tokenManager s' = hs_tokenManager s" "hs_webauthnTier s' = hs_webauthnTier s"
      "hs_disableAuth s' = hs_disableAuth s"
  | (operator) cn serial where "\<not> certless r s" "extractVerifiedPeer r = Some (cn, serial)" "\<not> cert_revoked serial s"
      "Handler mux r s = mux r (operator_ctx cn) s"
proof (cases "hs_clientCertTier s = clientCertOff \<or> hr_Path r = ''/healthz'' \<or> hr_Path r = ''/readyz''")
  case True
  then show thesis by (intro plain [of s]) (auto simp: certless_def Handler_def clientCertMiddleware_def)
next
  case False
  note f = False
  show thesis
  proof (cases "extractVerifiedPeer r")
    case None
    show thesis
    proof (cases "hs_clientCertTier s = clientCertOn")
      case True
      with f None show thesis by (intro refused) (auto simp: certless_def Handler_def clientCertMiddleware_def)
    next
      case False
      with f have "hs_clientCertTier s = clientCertWarn" by (cases "hs_clientCertTier s") auto
      with f None show thesis by (intro plain [OF _ _ http_audit_frame(1,4,2)]) (auto simp: certless_def Handler_def clientCertMiddleware_def)
    qed
  next
    case (Some x)
    obtain cn serial where x: "x = (cn, serial)" by fastforce
    show thesis
    proof (cases "cert_revoked serial s")
      case True
      note r = True
      show thesis
      proof (cases "hs_clientCertTier s = clientCertOn")
        case True
        with f r Some x show thesis by (intro refused) (auto simp: certless_def Handler_def clientCertMiddleware_def Let_def)
      next
        case False
        with f have "hs_clientCertTier s = clientCertWarn" by (cases "hs_clientCertTier s") auto
        with f r Some x have "Handler mux r s = mux r empty_ctx (snd (http_audit (ctx_actor empty_ctx)
            (HevOperatorCertMissing (hr_Path r) (hr_RemoteAddr r) (Some ''revoked_cert_treated_as_certless'') False)
            (snd (http_audit (ctx_actor empty_ctx) (HevOperatorCertRevokedUsed serial cn (hr_RemoteAddr r) (hr_Path r) False) s))))"
          and c: "certless r s"
          by (auto simp: certless_def Handler_def clientCertMiddleware_def Let_def)
        then show thesis using plain [OF c] by simp
      qed
    next
      case False
      with f Some x show thesis
        by (intro operator) (auto simp: certless_def Handler_def clientCertMiddleware_def NewContext_def operator_ctx_def)
    qed
  qed
qed

lemma admin_probe:
  "(\<exists>cx' s'. adminMiddleware probe r cx s = (Served cx', s')) \<longleftrightarrow>
   IsAdmin (Some (FromContext (cx_principal cx))) \<and>
   (hs_webauthnTier s = TierOn \<longrightarrow> isWebAuthnBootstrapPath (hr_Path r) \<or> (\<exists>c. cx_claims cx = Some c \<and> cl_AuthMethod c = ''webauthn''))"
proof (cases "IsAdmin (Some (FromContext (cx_principal cx)))")
  case True
  then have "http_authzCheck cx ActionAdmin SystemResource s = (None, s)" by (simp add: http_authzCheck_def admin_system [THEN iffD2] Let_def)
  with True show ?thesis by (auto simp: adminMiddleware_def probe_def Let_def split: option.splits)
next
  case False
  then obtain e where "Allow (Some (FromContext (cx_principal cx))) ActionAdmin (Some SystemResource) = Some e" using admin_system by fastforce
  with False show ?thesis by (simp add: adminMiddleware_def http_authzCheck_def Let_def)
qed

lemma admin_probe_denied: "\<not> IsAdmin (Some (FromContext (cx_principal cx))) \<Longrightarrow> adminMiddleware probe r cx s \<noteq> (Served cx', s')"
  using admin_probe by blast

lemma resolved_admin: "IsAdmin (Some (resolvePrincipalFromClaims (Some c))) \<longleftrightarrow> cl_Role c = ''admin''"
  by (auto simp: resolvePrincipalFromClaims_def IsAdmin_iff constructor_defs)

lemma IsAdmin_populateGroups [simp]: "IsAdmin (Some (populateGroups l p)) \<longleftrightarrow> IsAdmin (Some p)"
  by (simp add: IsAdmin_iff)

text \<open>Behind the first gate, for the two contexts it can leave.\<close>

lemma auth_admin_probe:
  assumes "hs_tokenManager s = Some tm" and "cx = empty_ctx \<or> cx = operator_ctx cn"
  shows "(\<exists>cx' s'. authMiddleware ops J now errText lookup (adminMiddleware probe) r cx s = (Served cx', s')) \<longleftrightarrow>
    (\<exists>c tm'. HasPrefix (hr_Authorization r) ''Bearer '' \<and> ValidateToken ops J now (drop 7 (hr_Authorization r)) tm = (Inr c, tm') \<and>
       cx = empty_ctx \<and> cl_Role c = ''admin'' \<and> cl_RequiredCN c = [] \<and>
       (hs_webauthnTier s = TierOn \<longrightarrow> isWebAuthnBootstrapPath (hr_Path r) \<or> cl_AuthMethod c = ''webauthn''))"
proof (cases "HasPrefix (hr_Authorization r) ''Bearer ''")
  case True
  obtain x tm' where v: "ValidateToken ops J now (drop 7 (hr_Authorization r)) tm = (x, tm')" by fastforce
  show ?thesis
  proof (cases x)
    case (Inl e)
    with True v assms(1) show ?thesis by (simp add: authMiddleware_def)
  next
    case (Inr c)
    have op: "\<not> IsAdmin (Some (Operator cn []))" for cn by (simp add: IsAdmin_iff Operator_def)
    from assms(2) show ?thesis
    proof
      assume "cx = empty_ctx"
      then show ?thesis using True v Inr assms(1)
        by (simp add: authMiddleware_def bind_and_serve_def empty_ctx_def admin_probe record_defs NewContext_def FromContext_def resolved_admin Anonymous_def)
    next
      assume cn: "cx = operator_ctx cn"
      then have "cx \<noteq> empty_ctx" by simp
      moreover have "p_Kind (Operator cn []) = KindOperator" by (simp add: Operator_def)
      ultimately show ?thesis using True v Inr assms(1) op
        by (simp add: authMiddleware_def bind_and_serve_def admin_probe_denied record_defs NewContext_def FromContext_def cn operator_ctx_def)
    qed
  qed
qed (use assms in \<open>simp add: authMiddleware_def\<close>)

section \<open>Properties\<close>

lemma admin_route_served:
  assumes "hs_tokenManager s = Some tm"
  shows "(\<exists>cx s'. admin_route ops J now errText lookup probe r s = (Served cx, s')) \<longleftrightarrow>
      (\<exists>c tm'. HasPrefix (hr_Authorization r) ''Bearer '' \<and> ValidateToken ops J now (drop 7 (hr_Authorization r)) tm = (Inr c, tm') \<and>
         certless r s \<and> cl_Role c = ''admin'' \<and> cl_RequiredCN c = [] \<and>
         (hs_webauthnTier s = TierOn \<longrightarrow> isWebAuthnBootstrapPath (hr_Path r) \<or> cl_AuthMethod c = ''webauthn''))"
proof (cases rule: Handler_cases [of "authMiddleware ops J now errText lookup (adminMiddleware probe)" r s])
  case (refused m s')
  then show ?thesis by (simp add: admin_route_def)
next
  case (plain s')
  with auth_admin_probe [of s' tm empty_ctx _ ops J now errText lookup r] assms show ?thesis by (simp add: admin_route_def)
next
  case (operator cn serial)
  with auth_admin_probe [of s tm "operator_ctx cn" cn ops J now errText lookup r] assms show ?thesis by (simp add: admin_route_def)
qed


definition demo_admin_claims :: claims where
  "demo_admin_claims = \<lparr>cl_Subject = ''root'', cl_ExpiresAt = 100 * second, cl_IssuedAt = 0, cl_ID = ''t1'', cl_Role = ''admin'', cl_RequiredCN = [], cl_AuthMethod = ''webauthn''\<rparr>"

definition demo_http :: "badger_kv http_server" where
  "demo_http = \<lparr>hs_tokenManager = Some \<lparr>tm_secret = ''k'', tm_store = \<lparr>kb_entries = [JTIPrefix @ ''t1'' \<mapsto> \<lparr>en_value = ''root'', en_expires = None\<rparr>], kb_faults = []\<rparr>\<rparr>,
     hs_disableAuth = False, hs_clientCertTier = clientCertOff, hs_webauthnTier = TierOn, hs_revocationStore = None,
     hs_audit = Some \<lparr>hk_log = [], hk_faults = []\<rparr>, hs_eventBus = Some []\<rparr>"

definition demo_http_request :: "string \<Rightarrow> http_request" where
  "demo_http_request auth = \<lparr>hr_Authorization = auth, hr_Path = ''/admin/tokens'', hr_RemoteAddr = ''10.0.0.7:443'', hr_PeerCert = None,
     hr_SSLVerify = [], hr_SSLDN = [], hr_SSLSerial = [], hr_UserAgent = ''curl''\<rparr>"

lemma demo_admin_valid:
  "ValidateToken NewStoreAdapter demo_jwt 5 (demo_sign ''k'' demo_admin_claims) (the (hs_tokenManager demo_http)) = (Inr demo_admin_claims, the (hs_tokenManager demo_http))"
  using stored_token_valid [OF demo_jwt_law, of 5 demo_admin_claims "the (hs_tokenManager demo_http)" "''root''"]
  by (simp add: demo_admin_claims_def demo_http_def kv_look_def live_def demo_jwt_def)


text \<open>With client certificates enforced, no administrative handler runs at all: a request without a
  certificate is refused, and one with a certificate is an operator without a role.\<close>

lemma enforced_certificates_exclude_admins:
  assumes "hs_clientCertTier s = clientCertOn" and "hs_tokenManager s = Some tm" and "hr_Path r \<noteq> ''/healthz''" and "hr_Path r \<noteq> ''/readyz''"
  shows "admin_route ops J now errText lookup probe r s \<noteq> (Served cx, s')"
  using admin_route_served [OF assms(2), of ops J now errText lookup r] assms unfolding certless_def by auto

text \<open>A token bound to a certificate reaches no administrative handler either: with the certificate the
  caller is an operator without a role, and without it the binding fails.\<close>

lemma bound_token_no_admin:
  assumes "hs_tokenManager s = Some tm" and "ValidateToken ops J now (drop 7 (hr_Authorization r)) tm = (Inr c, tm')" and "cl_RequiredCN c \<noteq> []"
  shows "admin_route ops J now errText lookup probe r s \<noteq> (Served cx, s')"
  using admin_route_served [OF assms(1), of ops J now errText lookup r] assms(2,3) by auto

text \<open>The headers that a TLS-terminating proxy sets count only from a loopback address: from any other
  peer, a request with whatever values in them has the same outcome on every administrative route, for
  every server, and leaves the same state.\<close>

theorem forged_proxy_headers_ignored:
  assumes "\<not> isLoopbackRemote (hr_RemoteAddr r)"
  shows "admin_route ops J now errText lookup probe (r\<lparr>hr_SSLVerify := v, hr_SSLDN := dn, hr_SSLSerial := sn\<rparr>) s =
    admin_route ops J now errText lookup probe r s"
proof -
  let ?r = "r\<lparr>hr_SSLVerify := v, hr_SSLDN := dn, hr_SSLSerial := sn\<rparr>"
  have p: "extractVerifiedPeer ?r = extractVerifiedPeer r" using assms by (simp add: extractVerifiedPeer_def proxy_peer_def split: option.splits prod.splits)
  have rec: "recordAuthFail ?r = recordAuthFail r" "recordAuthOK ?r = recordAuthOK r" by (intro ext, simp add: record_defs)+
  have adm: "adminMiddleware probe ?r = adminMiddleware probe r"
    by (intro ext) (simp add: adminMiddleware_def probe_def Let_def split: prod.split option.split)
  have bnd: "bind_and_serve lookup (adminMiddleware probe) ?r = bind_and_serve lookup (adminMiddleware probe) r"
    by (intro ext) (simp add: bind_and_serve_def rec adm Let_def)
  have a: "authMiddleware ops J now errText lookup (adminMiddleware probe) ?r = authMiddleware ops J now errText lookup (adminMiddleware probe) r"
    by (intro ext) (simp add: authMiddleware_def rec adm bnd split: option.split prod.split sum.split)
  show ?thesis by (simp add: admin_route_def Handler_def clientCertMiddleware_def p a Let_def split: option.split prod.split)
qed

theorem forged_proxy_headers_ignored_witness:
  "admin_route NewStoreAdapter demo_jwt 5 (\<lambda>_. []) None probe ((demo_http_request [])\<lparr>hr_SSLVerify := ''SUCCESS'', hr_SSLDN := ''CN=root'', hr_SSLSerial := []\<rparr>)
     (demo_http\<lparr>hs_clientCertTier := clientCertOn\<rparr>) =
   admin_route NewStoreAdapter demo_jwt 5 (\<lambda>_. []) None probe (demo_http_request []) (demo_http\<lparr>hs_clientCertTier := clientCertOn\<rparr>) \<and>
   proxy_peer ((demo_http_request [])\<lparr>hr_RemoteAddr := ''127.0.0.1:99'', hr_SSLVerify := ''success'', hr_SSLDN := ''O=Helion, CN=root'', hr_SSLSerial := []\<rparr>) =
     Some (''root'', [])"
proof -
  have l: "\<not> isLoopbackRemote ''10.0.0.7:443''" "isLoopbackRemote ''127.0.0.1:99''" "ToUpper ''success'' = ''SUCCESS''" "cnFromDN ''O=Helion, CN=root'' = ''root''" "TrimSpace [] = []"
    by code_simp+
  then have "\<not> isLoopbackRemote (hr_RemoteAddr (demo_http_request []))" by (simp add: demo_http_request_def)
  from forged_proxy_headers_ignored [OF this] l(2-) show ?thesis by (simp add: proxy_peer_def proxy_verified_def)
qed

text \<open>A revoked certificate never becomes an identity: the context the next gate sees has no operator name
  and no principal. An administrator's token is then served where a valid certificate would have
  denied it.\<close>

lemma revoked_certificate_no_identity:
  assumes "extractVerifiedPeer r = Some (cn, serial)" and "cert_revoked serial s" and "hs_clientCertTier s \<noteq> clientCertOff"
    and "hr_Path r \<noteq> ''/healthz''" and "hr_Path r \<noteq> ''/readyz''"
  shows "(\<exists>s'. Handler probe r s = (Refused 401 MsgCertRevoked, s')) \<or> (\<exists>s'. Handler probe r s = (Served empty_ctx, s'))"
  using assms by (simp add: Handler_def clientCertMiddleware_def probe_def Let_def)

end
