(* ===== verification/Admin_Api.thy ===== *)
theory Admin_Api
  imports Http_Auth Job_Api
begin

text \<open>
  The administrative handlers behind the gates of \<open>Http_Auth\<close>: issue and revocation of tokens
  (\<open>internal/api/handlers_admin.go\<close>), revocation of operator certificates and the export of the list
  (\<open>handlers_revocation.go\<close>), and the issue of operator certificates (\<open>operator_cert.go\<close>, with
  \<open>IssueOperatorCert\<close> of \<open>internal/pqcrypto/ca.go\<close>).

  Request bodies arrive decoded, \<open>None\<close> when decoding failed; the rate limiter's answer, the new token ID
  and the readings of the clock are arguments. The X.509, PEM and PKCS#12 libraries are the fields of
  \<open>cert_lib\<close>.

  The lemmas show what a minted token can claim, that it does not replace a WebAuthn login, and that no
  operator certificate leaves the server without its audit record.
\<close>

section \<open>Responses\<close>

datatype admin_message = AmNoTokenManager | AmRateLimit | AmBody | AmSubject | AmRole | AmTTL | AmGenerate | AmJTI | AmRevoke
  | AmNoRevocations | AmSerial | AmReason | AmRevokeFailed | AmAudit | AmNoSigner | AmSign
  | AmNoCA | AmCommonName | AmCommonNameLong | AmCommonNameChars | AmDaysNegative | AmDaysTooMany | AmPassword | AmPasswordNUL | AmIssue | AmParse | AmEncode

record operator_cert_response =
  oc_CommonName :: string
  oc_SerialHex :: string
  oc_FingerprintHex :: string
  oc_NotBefore :: time
  oc_NotAfter :: time
  oc_CertPEM :: string
  oc_KeyPEM :: string
  oc_P12Base64 :: string

datatype admin_response = AdmError nat admin_message
  | AdmToken string string string int string
  | AdmTokenRevoked string
  | AdmCertRevoked nat revocation_record bool
  | AdmRevocations "revocation_record list" nat
  | AdmCRL string
  | AdmOperatorCert operator_cert_response

definition claims_actor :: "string \<Rightarrow> http_ctx \<Rightarrow> string" where
  "claims_actor fallback cx = (case cx_claims cx of Some c \<Rightarrow> cl_Subject c | None \<Rightarrow> fallback)"

section \<open>Tokens\<close>

definition validRoles :: "string list" where
  "validRoles = [''admin'', ''node'', ''job'']"

record issue_token_request =
  it_Subject :: string
  it_Role :: string
  it_TTLHours :: int
  it_BindToCertCN :: string

definition handleIssueToken :: "'t token_store \<Rightarrow> jwt \<Rightarrow> time \<Rightarrow> string \<Rightarrow> bool \<Rightarrow> issue_token_request option \<Rightarrow> http_request \<Rightarrow> http_ctx
    \<Rightarrow> ('t, 'm) http_server_scheme \<Rightarrow> admin_response outcome \<times> ('t, 'm) http_server_scheme" where
  "handleIssueToken ops J now jti allowed body r cx s = (case hs_tokenManager s of
      None \<Rightarrow> (Served (AdmError 501 AmNoTokenManager), s)
    | Some tm \<Rightarrow>
       if (case cx_claims cx of Some c \<Rightarrow> \<not> allowed | None \<Rightarrow> False)
       then (Served (AdmError 429 AmRateLimit), recordAuthRateLimit r (claims_actor [] cx) (hr_Path r) s)
       else case body of None \<Rightarrow> (Served (AdmError 400 AmBody), s)
       | Some q \<Rightarrow>
          if it_Subject q = [] then (Served (AdmError 400 AmSubject), s)
          else if it_Role q \<notin> set validRoles then (Served (AdmError 400 AmRole), s)
          else let ttl = (if it_TTLHours q \<le> 0 then 8 else it_TTLHours q) in
          if 720 < ttl then (Served (AdmError 400 AmTTL), s)
          else let boundCN = TrimSpace (it_BindToCertCN q) in
          (case GenerateTokenWithCN ops J now jti (it_Subject q) (it_Role q) boundCN (ttl * 3600 * second) tm of
             (Inl e, tm) \<Rightarrow> (Served (AdmError 500 AmGenerate), s\<lparr>hs_tokenManager := Some tm\<rparr>)
           | (Inr token, tm) \<Rightarrow>
              let actor = claims_actor ''system'' cx;
                  s = snd (http_audit actor (HevTokenIssued (it_Subject q) (it_Role q) ttl boundCN) (s\<lparr>hs_tokenManager := Some tm\<rparr>)) in
              (Served (AdmToken token (it_Subject q) (it_Role q) ttl boundCN), recordTokenMint actor (it_Subject q) (it_Role q) ttl s)))"

definition handleRevokeToken :: "'t token_store \<Rightarrow> string \<Rightarrow> http_request \<Rightarrow> http_ctx
    \<Rightarrow> ('t, 'm) http_server_scheme \<Rightarrow> admin_response outcome \<times> ('t, 'm) http_server_scheme" where
  "handleRevokeToken ops pathJTI r cx s = (case hs_tokenManager s of
      None \<Rightarrow> (Served (AdmError 501 AmNoTokenManager), s)
    | Some tm \<Rightarrow>
       let jti = (if pathJTI = [] then TrimPrefix (hr_Path r) ''/admin/tokens/'' else pathJTI) in
       if jti = [] then (Served (AdmError 400 AmJTI), s)
       else (case RevokeToken ops jti tm of
          (False, tm) \<Rightarrow> (Served (AdmError 500 AmRevoke), s\<lparr>hs_tokenManager := Some tm\<rparr>)
        | (True, tm) \<Rightarrow> (Served (AdmTokenRevoked jti),
             snd (http_audit (claims_actor ''system'' cx) (HevTokenRevoked jti) (s\<lparr>hs_tokenManager := Some tm\<rparr>)))))"

section \<open>Certificate revocations\<close>

record revoke_cert_request =
  rq_Reason :: string
  rq_CommonName :: string

definition handleRevokeOperatorCert :: "json_codec \<Rightarrow> time \<Rightarrow> (rev_store \<Rightarrow> rev_store) \<Rightarrow> string \<Rightarrow> revoke_cert_request option \<Rightarrow> http_request \<Rightarrow> http_ctx
    \<Rightarrow> ('t, 'm) http_server_scheme \<Rightarrow> admin_response outcome \<times> ('t, 'm) http_server_scheme" where
  "handleRevokeOperatorCert C now interf serialRaw body r cx s = (case hs_revocationStore s of
      None \<Rightarrow> (Served (AdmError 503 AmNoRevocations), s)
    | Some rs \<Rightarrow> (case NormalizeSerialHex serialRaw of None \<Rightarrow> (Served (AdmError 400 AmSerial), s)
    | Some norm \<Rightarrow> (case body of None \<Rightarrow> (Served (AdmError 400 AmBody), s)
    | Some q \<Rightarrow>
       if TrimSpace (rq_Reason q) = [] then (Served (AdmError 400 AmReason), s)
       else let actor = p_ID (FromContext (cx_principal cx)) in
       (case Revoke C now interf \<lparr>rc_SerialHex = norm, rc_CommonName = rq_CommonName q, rc_RevokedAt = 0, rc_RevokedBy = actor, rc_Reason = rq_Reason q\<rparr> rs of
          (RevokeInvalid, rs) \<Rightarrow> (Served (AdmError 400 AmSerial), s\<lparr>hs_revocationStore := Some rs\<rparr>)
        | (RevokeMarshal, rs) \<Rightarrow> (Served (AdmError 500 AmRevokeFailed), s\<lparr>hs_revocationStore := Some rs\<rparr>)
        | (RevokePersist, rs) \<Rightarrow> (Served (AdmError 500 AmRevokeFailed), s\<lparr>hs_revocationStore := Some rs\<rparr>)
        | (RevokeOk rec isNew, rs) \<Rightarrow>
           (case http_audit actor (HevOperatorCertRevoked (rc_SerialHex rec) (rc_RevokedBy rec) (rc_CommonName rec) (rc_Reason rec) (\<not> isNew))
                   (s\<lparr>hs_revocationStore := Some rs\<rparr>) of
              (False, s) \<Rightarrow> (Served (AdmError 500 AmAudit), s)
            | (True, s) \<Rightarrow> (Served (AdmCertRevoked (if isNew then 201 else 200) rec (\<not> isNew)), s))))))"

definition handleListRevocations :: "string list \<Rightarrow> http_request \<Rightarrow> http_ctx \<Rightarrow> ('t, 'm) http_server_scheme \<Rightarrow> admin_response outcome \<times> ('t, 'm) http_server_scheme" where
  "handleListRevocations ord r cx s = (case hs_revocationStore s of
      None \<Rightarrow> (Served (AdmError 503 AmNoRevocations), s)
    | Some rs \<Rightarrow> (Served (AdmRevocations (rev_List ord rs) (length (rev_List ord rs))), s))"

definition handleGetCRL :: "(crl_template \<Rightarrow> string option) option \<Rightarrow> bool \<Rightarrow> time \<Rightarrow> time \<Rightarrow> string list \<Rightarrow> http_request \<Rightarrow> http_ctx
    \<Rightarrow> ('t, 'm) http_server_scheme \<Rightarrow> admin_response outcome \<times> ('t, 'm) http_server_scheme" where
  "handleGetCRL signer ready now now' ord r cx s = (case hs_revocationStore s of
      None \<Rightarrow> (Served (AdmError 503 AmNoRevocations), s)
    | Some rs \<Rightarrow> (case signer of None \<Rightarrow> (Served (AdmError 503 AmNoSigner), s)
    | Some sign \<Rightarrow> (case CreateCRLPEM sign ready now' (rev_List ord rs) (now + 24 * 3600 * second) of
          Inl e \<Rightarrow> (Served (AdmError 500 AmSign), s)
        | Inr pem \<Rightarrow> (Served (AdmCRL pem), s))))"

section \<open>Operator certificates\<close>

record operator_template =
  ot_SerialNumber :: int
  ot_CommonName :: string
  ot_NotBefore :: time
  ot_NotAfter :: time

record cert_info =
  ci_Raw :: string
  ci_SerialNumber :: nat
  ci_NotBefore :: time
  ci_NotAfter :: time

text \<open>
  The libraries: \<open>CreateCertificate\<close> for the fixed profile of an operator, key generation with the encoding of
  the key, PEM in both directions, the three parsers, the PKCS#12 encoder, SHA-256 and the two encodings.
\<close>

record cert_lib =
  xl_create :: "operator_template \<Rightarrow> string option"
  xl_key :: "string option"
  xl_pemEncode :: "string \<Rightarrow> string \<Rightarrow> string"
  xl_pemDecode :: "string \<Rightarrow> (string \<times> string) option"
  xl_parseCert :: "string \<Rightarrow> cert_info option"
  xl_parseEC :: "string \<Rightarrow> string option"
  xl_parsePKCS8 :: "string \<Rightarrow> string option"
  xl_p12 :: "string \<Rightarrow> cert_info \<Rightarrow> string \<Rightarrow> string option"
  xl_sha256hex :: "string \<Rightarrow> string"
  xl_base64 :: "string \<Rightarrow> string"

record cert_authority =
  ca_hasKey :: bool
  ca_NotAfter :: time

text \<open>\<open>v\<close> is the value of the environment variable; the product is one of 64-bit integers.\<close>

definition envDuration :: "string \<Rightarrow> int \<Rightarrow> duration \<Rightarrow> duration" where
  "envDuration v d unit = (if v = [] then d * unit else case Atoi v of None \<Rightarrow> d * unit
     | Some n \<Rightarrow> if n \<le> 0 then d * unit else sint (word_of_int (n * unit) :: 64 word))"

text \<open>The clock is read four times, for the remaining life of the authority, the serial number and the two dates.\<close>

definition IssueOperatorCert :: "cert_lib \<Rightarrow> cert_authority \<Rightarrow> string \<Rightarrow> time \<times> time \<times> time \<times> time \<Rightarrow> (time \<Rightarrow> int) \<Rightarrow> string \<Rightarrow> duration \<Rightarrow> (string \<times> string) option" where
  "IssueOperatorCert L ca env clock unixNano cn ttl0 = (case clock of (t1, t2, t3, t4) \<Rightarrow>
     if \<not> ca_hasKey ca then None
     else if cn = [] then None
     else if NUL \<in> set cn then None
     else
       let ttl = (if ttl0 \<le> 0 then envDuration env 90 (24 * 3600 * second) else ttl0);
           caRemaining = time_sub (ca_NotAfter ca) t1;
           ttl = (if caRemaining < ttl then caRemaining else ttl) in
       if ttl \<le> 0 then None
       else case xl_key L of None \<Rightarrow> None
       | Some keyDER \<Rightarrow> (case xl_create L \<lparr>ot_SerialNumber = unixNano t2, ot_CommonName = cn, ot_NotBefore = t3, ot_NotAfter = t4 + ttl\<rparr> of
            None \<Rightarrow> None
          | Some der \<Rightarrow> Some (xl_pemEncode L ''CERTIFICATE'' der, xl_pemEncode L ''EC PRIVATE KEY'' keyDER)))"

definition parseCertKeyPEM :: "cert_lib \<Rightarrow> string \<Rightarrow> string \<Rightarrow> (cert_info \<times> string) option" where
  "parseCertKeyPEM L certPEM keyPEM = (case xl_pemDecode L certPEM of None \<Rightarrow> None
     | Some (_, cb) \<Rightarrow> (case xl_parseCert L cb of None \<Rightarrow> None
     | Some cert \<Rightarrow> (case xl_pemDecode L keyPEM of None \<Rightarrow> None
     | Some (ty, kb) \<Rightarrow>
        if ty = ''EC PRIVATE KEY'' then map_option (Pair cert) (xl_parseEC L kb)
        else if ty = ''PRIVATE KEY'' then map_option (Pair cert) (xl_parsePKCS8 L kb)
        else None)))"

record issue_cert_request =
  iq_CommonName :: string
  iq_TTLDays :: int
  iq_P12Password :: string

definition validateIssueOperatorCertRequest :: "issue_cert_request \<Rightarrow> admin_message option" where
  "validateIssueOperatorCertRequest q =
     (if iq_CommonName q = [] then Some AmCommonName
      else if 256 < length (iq_CommonName q) then Some AmCommonNameLong
      else if ContainsAny (iq_CommonName q) [NUL, CHR ''=''] then Some AmCommonNameChars
      else if iq_TTLDays q < 0 then Some AmDaysNegative
      else if 3650 < iq_TTLDays q then Some AmDaysTooMany
      else if length (iq_P12Password q) < 8 then Some AmPassword
      else if NUL \<in> set (iq_P12Password q) then Some AmPasswordNUL
      else None)"

definition auditOpCertReject :: "string \<Rightarrow> string \<Rightarrow> string \<Rightarrow> ('t, 'm) http_server_scheme \<Rightarrow> ('t, 'm) http_server_scheme" where
  "auditOpCertReject actor cn reason s = snd (http_audit actor (HevOperatorCertReject cn reason) s)"

definition handleIssueOperatorCert :: "cert_lib \<Rightarrow> cert_authority option \<Rightarrow> string \<Rightarrow> time \<times> time \<times> time \<times> time \<Rightarrow> (time \<Rightarrow> int) \<Rightarrow> bool \<Rightarrow> (admin_message \<Rightarrow> string)
    \<Rightarrow> issue_cert_request option \<Rightarrow> http_request \<Rightarrow> http_ctx \<Rightarrow> ('t, 'm) http_server_scheme \<Rightarrow> admin_response outcome \<times> ('t, 'm) http_server_scheme" where
  "handleIssueOperatorCert L cao env clock unixNano allowed msgText body r cx s = (case cao of
      None \<Rightarrow> (Served (AdmError 501 AmNoCA), s)
    | Some ca \<Rightarrow>
       let actor = claims_actor ''unknown'' cx in
       if \<not> allowed then (Served (AdmError 429 AmRateLimit), s)
       else (case body of None \<Rightarrow> (Served (AdmError 400 AmBody), auditOpCertReject actor [] ''invalid request body'' s)
       | Some q \<Rightarrow> (case validateIssueOperatorCertRequest q of
            Some m \<Rightarrow> (Served (AdmError 400 m), auditOpCertReject actor (iq_CommonName q) (msgText m) s)
          | None \<Rightarrow>
             let ttl = (if 0 < iq_TTLDays q then iq_TTLDays q * 24 * 3600 * second else 90 * 24 * 3600 * second) in
             (case IssueOperatorCert L ca env clock unixNano (iq_CommonName q) ttl of
                None \<Rightarrow> (Served (AdmError 500 AmIssue), auditOpCertReject actor (iq_CommonName q) ''issuance failed'' s)
              | Some (certPEM, keyPEM) \<Rightarrow> (case parseCertKeyPEM L certPEM keyPEM of
                   None \<Rightarrow> (Served (AdmError 500 AmParse), s)
                 | Some (cert, key) \<Rightarrow> (case xl_p12 L key cert (iq_P12Password q) of
                      None \<Rightarrow> (Served (AdmError 500 AmEncode), s)
                    | Some p12 \<Rightarrow>
                       let fingerprint = xl_sha256hex L (ci_Raw cert); serial = hex_text (ci_SerialNumber cert) in
                       (case http_audit actor (HevOperatorCertIssued (iq_CommonName q) serial fingerprint (ci_NotBefore cert) (ci_NotAfter cert) (cx_operatorCN cx)) s of
                          (False, s) \<Rightarrow> (Served (AdmError 500 AmAudit), s)
                        | (True, s) \<Rightarrow> (Served (AdmOperatorCert \<lparr>oc_CommonName = iq_CommonName q, oc_SerialHex = serial, oc_FingerprintHex = fingerprint,
                             oc_NotBefore = ci_NotBefore cert, oc_NotAfter = ci_NotAfter cert, oc_CertPEM = certPEM, oc_KeyPEM = keyPEM, oc_P12Base64 = xl_base64 L p12\<rparr>), s))))))))"

section \<open>Tokens that the endpoint mints\<close>

lemma GenerateTokenWithCN_Inr:
  assumes "GenerateTokenWithCN ops J now jti sub role cn ttl tm = (Inr tok, tm')"
  shows "tok = jw_Sign J (tm_secret tm) (claims_of now jti \<lparr>tc_Subject = sub, tc_Role = role, tc_RequiredCN = cn, tc_AuthMethod = [], tc_TTL = ttl\<rparr>)"
  using assms by (auto simp: GenerateTokenWithCN_def GenerateTokenWithClaims_def Let_def split: prod.splits bool.splits)

lemma handleIssueToken_served:
  assumes "handleIssueToken ops J now jti allowed body r cx s = (Served (AdmToken tok sub role ttl cn), s')"
  obtains tm where "hs_tokenManager s = Some tm" "role \<in> set validRoles" "0 < ttl" "ttl \<le> 720" "sub \<noteq> []"
    "tok = jw_Sign J (tm_secret tm) (claims_of now jti \<lparr>tc_Subject = sub, tc_Role = role, tc_RequiredCN = cn, tc_AuthMethod = [], tc_TTL = ttl * 3600 * second\<rparr>)"
proof -
  from assms obtain tm q where t: "hs_tokenManager s = Some tm" "body = Some q" "it_Subject q \<noteq> []" "it_Role q \<in> set validRoles"
    and l: "(if it_TTLHours q \<le> 0 then 8 else it_TTLHours q) \<le> 720"
    by (auto simp: handleIssueToken_def Let_def split: option.splits if_splits prod.splits sum.splits)
  let ?ttl = "if it_TTLHours q \<le> 0 then 8 else it_TTLHours q" and ?cn = "TrimSpace (it_BindToCertCN q)"
  obtain x tm' where g: "GenerateTokenWithCN ops J now jti (it_Subject q) (it_Role q) ?cn (?ttl * 3600 * second) tm = (x, tm')" by fastforce
  have "x = Inr tok \<and> sub = it_Subject q \<and> role = it_Role q \<and> ttl = ?ttl \<and> cn = ?cn"
    using assms t l g by (auto simp: handleIssueToken_def Let_def split: option.splits if_splits sum.splits)
  with GenerateTokenWithCN_Inr [of ops J now jti "it_Subject q" "it_Role q" ?cn "?ttl * 3600 * second" tm tok tm'] t g l that show thesis by (auto split: if_splits)
qed

lemma signed_claims: "jwt_law J \<Longrightarrow> jw_Parse J k' t (jw_Sign J k c) = Some c' \<Longrightarrow> c' = c"
proof -
  assume J: "jwt_law J" and p: "jw_Parse J k' t (jw_Sign J k c) = Some c'"
  from J have "jw_Parse J k (cl_ExpiresAt c - 1) (jw_Sign J k c) = Some c" by (simp add: jwt_law_def)
  with J p show ?thesis unfolding jwt_law_def by blast
qed

text \<open>A token minted by the token endpoint is no substitute for a WebAuthn login: where WebAuthn is enforced, a
  request that presents it reaches no administrative handler outside the ceremonies, on any later state of
  the server and at any time; and a token minted for a node or a job reaches none under any tier.\<close>

theorem minted_token_no_shortcut:
  assumes "jwt_law J" and "handleIssueToken ops J now jti allowed body r0 cx0 s0 = (Served (AdmToken tok sub role ttl cn), s1)"
    and "hr_Authorization r = ''Bearer '' @ tok" and "hs_tokenManager s \<noteq> None"
    and "role \<noteq> ''admin'' \<or> (hs_webauthnTier s = TierOn \<and> \<not> isWebAuthnBootstrapPath (hr_Path r))"
  shows "admin_route ops J t errText lookup probe r s \<noteq> (Served cx, s')"
proof
  assume "admin_route ops J t errText lookup probe r s = (Served cx, s')"
  moreover obtain tm where tm: "hs_tokenManager s = Some tm" using assms(4) by blast
  ultimately obtain c tm' where v: "ValidateToken ops J t tok tm = (Inr c, tm')" and c: "cl_Role c = ''admin''"
      "hs_webauthnTier s = TierOn \<longrightarrow> isWebAuthnBootstrapPath (hr_Path r) \<or> cl_AuthMethod c = ''webauthn''"
    using admin_route_served [OF tm, of ops J t errText lookup r] assms(3) by auto
  obtain k where tok: "tok = jw_Sign J k (claims_of now jti \<lparr>tc_Subject = sub, tc_Role = role, tc_RequiredCN = cn, tc_AuthMethod = [], tc_TTL = ttl * 3600 * second\<rparr>)"
    using handleIssueToken_served [OF assms(2)] by metis
  have "c = claims_of now jti \<lparr>tc_Subject = sub, tc_Role = role, tc_RequiredCN = cn, tc_AuthMethod = [], tc_TTL = ttl * 3600 * second\<rparr>"
    using ValidateToken_Inr [OF v] signed_claims [OF assms(1)] tok by metis
  with c assms(5) show False by (auto simp: claims_of_def)
qed

definition demo_issue :: issue_token_request where
  "demo_issue = \<lparr>it_Subject = ''ci'', it_Role = ''admin'', it_TTLHours = 0, it_BindToCertCN = []\<rparr>"

lemma demo_issue_served:
  "\<exists>s1. handleIssueToken NewStoreAdapter demo_jwt 0 ''t9'' True (Some demo_issue) (demo_http_request []) empty_ctx demo_http =
     (Served (AdmToken (demo_sign ''k'' (claims_of 0 ''t9'' \<lparr>tc_Subject = ''ci'', tc_Role = ''admin'', tc_RequiredCN = [], tc_AuthMethod = [], tc_TTL = 8 * 3600 * second\<rparr>))
       ''ci'' ''admin'' 8 []), s1)"
proof -
  have "TrimSpace [] = []" by code_simp
  then show ?thesis
    by (simp add: handleIssueToken_def demo_http_def demo_issue_def empty_ctx_def validRoles_def GenerateTokenWithCN_def GenerateTokenWithClaims_def adapter_simps kv_calm demo_jwt_def Let_def)
qed

theorem minted_token_no_shortcut_witness:
  "\<exists>tok s1. handleIssueToken NewStoreAdapter demo_jwt 0 ''t9'' True (Some demo_issue) (demo_http_request []) empty_ctx demo_http = (Served (AdmToken tok ''ci'' ''admin'' 8 []), s1) \<and>
     (\<nexists>cx s'. admin_route NewStoreAdapter demo_jwt 5 (\<lambda>_. []) None probe (demo_http_request (''Bearer '' @ tok)) demo_http = (Served cx, s'))"
proof -
  obtain tok s1 where m: "handleIssueToken NewStoreAdapter demo_jwt 0 ''t9'' True (Some demo_issue) (demo_http_request []) empty_ctx demo_http = (Served (AdmToken tok ''ci'' ''admin'' 8 []), s1)"
    using demo_issue_served by blast
  have "\<not> isWebAuthnBootstrapPath ''/admin/tokens''" by code_simp
  then have "admin_route NewStoreAdapter demo_jwt 5 (\<lambda>_. []) None probe (demo_http_request (''Bearer '' @ tok)) demo_http \<noteq> (Served cx, s')" for cx s'
    by (intro minted_token_no_shortcut [OF demo_jwt_law m]) (simp_all add: demo_http_request_def demo_http_def)
  with m show ?thesis by blast
qed

section \<open>Revocation takes effect at the gates\<close>

text \<open>C12. A revocation through the endpoint locks the token out: once it has answered that the token is revoked, no
  request is authenticated with claims of that ID, whatever tokens are issued, validated, revoked or rotated
  in between and however the store fails, unless the ID is issued again.\<close>

theorem revoked_token_locked_out:
  assumes "handleRevokeToken NewStoreAdapter path r0 cx0 s0 = (Served (AdmTokenRevoked jti), s1)"
    and "hs_tokenManager s = map_option (token_run NewStoreAdapter J xs) (hs_tokenManager s1)" and "\<forall>x \<in> set xs. \<not> issues jti x"
    and "authMiddleware NewStoreAdapter J t errText lookup probe r empty_ctx s = (Served cx, s')"
  shows "\<exists>c. cx_claims cx = Some c \<and> cl_ID c \<noteq> jti"
proof -
  from assms(1) obtain tm0 tm1 where r: "RevokeToken NewStoreAdapter jti tm0 = (True, tm1)" "hs_tokenManager s1 = Some tm1"
    by (auto simp: handleRevokeToken_def Let_def split: option.splits if_splits prod.splits bool.splits)
  define tm where "tm = token_run NewStoreAdapter J xs tm1"
  have s: "hs_tokenManager s = Some tm" using assms(2) r(2) by (simp add: tm_def)
  obtain x tm' where v: "ValidateToken NewStoreAdapter J t (drop 7 (hr_Authorization r)) tm = (x, tm')" by fastforce
  from assms(4) s v obtain c where c: "x = Inr c" "cx_claims cx = Some c"
    by (auto simp: authMiddleware_def bind_and_serve_def probe_def Let_def split: if_splits sum.splits)
  have "badger_tokens.dead jti tm" unfolding tm_def by (rule badger_tokens.dead_run [OF badger_tokens.RevokeToken_dead [OF r(1)] assms(3)])
  with v c show ?thesis using badger_tokens.dead_rejected by blast
qed

theorem revoked_token_locked_out_witness:
  "\<exists>s1 cx s'. handleRevokeToken NewStoreAdapter ''t8'' (demo_http_request []) empty_ctx demo_http = (Served (AdmTokenRevoked ''t8''), s1) \<and>
     authMiddleware NewStoreAdapter demo_jwt 5 (\<lambda>_. []) None probe (demo_http_request (''Bearer '' @ demo_sign ''k'' demo_admin_claims)) empty_ctx s1 = (Served cx, s') \<and>
     (\<exists>c. cx_claims cx = Some c \<and> cl_ID c \<noteq> ''t8'')"
proof -
  obtain s1 where r: "handleRevokeToken NewStoreAdapter ''t8'' (demo_http_request []) empty_ctx demo_http = (Served (AdmTokenRevoked ''t8''), s1)"
    and tm: "hs_tokenManager s1 = Some \<lparr>tm_secret = ''k'', tm_store = \<lparr>kb_entries = [JTIPrefix @ ''t1'' \<mapsto> \<lparr>en_value = ''root'', en_expires = None\<rparr>](JTIPrefix @ ''t8'' := None), kb_faults = []\<rparr>\<rparr>"
    by (auto simp: handleRevokeToken_def demo_http_def RevokeToken_def adapter_simps kv_calm Let_def)
  let ?tm = "the (hs_tokenManager s1)"
  have "ValidateToken NewStoreAdapter demo_jwt 5 (demo_sign ''k'' demo_admin_claims) ?tm = (Inr demo_admin_claims, ?tm)"
    using stored_token_valid [OF demo_jwt_law, of 5 demo_admin_claims ?tm "''root''"] by (simp add: demo_admin_claims_def tm kv_look_def live_def demo_jwt_def)
  then obtain cx s' where a: "authMiddleware NewStoreAdapter demo_jwt 5 (\<lambda>_. []) None probe (demo_http_request (''Bearer '' @ demo_sign ''k'' demo_admin_claims)) empty_ctx s1 = (Served cx, s')"
    by (auto simp: authMiddleware_def demo_http_request_def bind_and_serve_def probe_def tm demo_admin_claims_def Let_def)
  have "hs_tokenManager s1 = map_option (token_run NewStoreAdapter demo_jwt []) (hs_tokenManager s1)" by (simp add: token_run_def tm)
  from revoked_token_locked_out [OF r this _ a] r a show ?thesis by auto
qed

lemma Revoke_cached: "Revoke C now f r s = (RevokeOk x b, s') \<Longrightarrow> \<exists>n. NormalizeSerialHex (rc_SerialHex r) = Some n \<and> rs_cache s' n = Some x"
  by (auto simp: Revoke_def fill_cache_def Let_def split: option.splits prod.splits bool.splits)


definition demo_revoking :: "badger_kv http_server" where
  "demo_revoking = demo_http\<lparr>hs_revocationStore := Some empty_rev_store, hs_clientCertTier := clientCertWarn\<rparr>"

definition demo_revoke_body :: revoke_cert_request where
  "demo_revoke_body = \<lparr>rq_Reason = ''lost'', rq_CommonName = ''alice''\<rparr>"

lemma demo_handle_revoke:
  "\<exists>rec s1 rs1. handleRevokeOperatorCert demo_codec 1 (\<lambda>s. s) '' aB'' (Some demo_revoke_body) (demo_http_request []) empty_ctx demo_revoking =
     (Served (AdmCertRevoked 201 rec False), s1) \<and> hs_revocationStore s1 = Some rs1 \<and> hs_clientCertTier s1 = clientCertWarn"
proof -
  have "TrimSpace ''lost'' = ''lost''" "NormalizeSerialHex ''ab'' = Some ''ab''" by code_simp+
  then show ?thesis
    by (simp add: handleRevokeOperatorCert_def demo_revoking_def demo_http_def demo_normal demo_revoke_body_def Revoke_def empty_rev_store_def demo_codec_def kv_Put_def kv_write_def
        next_fault_def fill_cache_def http_audit_def Let_def del: list.map concat.simps)
qed


section \<open>Operator certificates are accounted for\<close>

text \<open>A certificate and its key are in an answer only after the audit log, where there is one, has recorded the
  issue; the request was well formed; and the certificate asked of the authority ends at most ten
  years after the last reading of the clock and outlives the authority by no more than the time that
  passed since the first.\<close>

lemma issued_cert_audited:
  assumes "handleIssueOperatorCert L cao env (t1, t2, t3, t4) unixNano allowed msgText body r cx s = (Served (AdmOperatorCert resp), s')"
  shows "\<exists>q ca. body = Some q \<and> cao = Some ca \<and> validateIssueOperatorCertRequest q = None \<and> oc_CommonName resp = iq_CommonName q \<and>
    (\<forall>k. hs_audit s = Some k \<longrightarrow> (\<exists>k'. hs_audit s' = Some k' \<and> hk_log k' = hk_log k @ [(claims_actor ''unknown'' cx,
       HevOperatorCertIssued (iq_CommonName q) (oc_SerialHex resp) (oc_FingerprintHex resp) (oc_NotBefore resp) (oc_NotAfter resp) (cx_operatorCN cx))]))"
  using assms
  by (auto simp: handleIssueOperatorCert_def http_audit_def Let_def split: option.splits if_splits prod.splits bool.splits)

lemma issued_cert_lifetime:
  assumes "IssueOperatorCert L ca env (t1, t2, t3, t4) unixNano cn ttl = Some (certPEM, keyPEM)" and "0 < ttl"
  shows "\<exists>na der. xl_create L \<lparr>ot_SerialNumber = unixNano t2, ot_CommonName = cn, ot_NotBefore = t3, ot_NotAfter = na\<rparr> = Some der \<and>
    certPEM = xl_pemEncode L ''CERTIFICATE'' der \<and> t4 < na \<and> na \<le> t4 + ttl \<and> na \<le> t4 + time_sub (ca_NotAfter ca) t1"
  using assms by (intro exI [of _ "t4 + min ttl (time_sub (ca_NotAfter ca) t1)"])
    (auto simp: IssueOperatorCert_def Let_def min_def split: option.splits if_splits)

end
