(* ===== verification/Webauthn_Store.thy ===== *)
theory Webauthn_Store
  imports Go_Strings Job_Store
begin

text \<open>
  Credentials of hardware authenticators (\<open>internal/webauthn\<close>): the base64url form of an ID, the in-memory and
  the BadgerDB store with its index by user handle, the replay rule of \<open>verifyNotReplay\<close>, and the session
  store of the begin and finish halves of a ceremony. A credential of the library is the fields the code
  reads and one for the rest; a BadgerDB value is a record or the empty marker of the index; \<open>commit\<close> says
  whether a transaction commits. SHA-256 is the argument \<open>sha\<close>.

  The lemmas show that decoding inverts encoding, that both stores implement one directory of
  credentials, that a signature counter is never accepted twice, and that a session is used once.
\<close>

section \<open>Base64 in its URL alphabet\<close>

definition b64_alphabet :: string where
  "b64_alphabet = ''ABCDEFGHIJKLMNOPQRSTUVWXYZabcdefghijklmnopqrstuvwxyz0123456789-_''"

definition b64_char :: "nat \<Rightarrow> char" where
  "b64_char k = b64_alphabet ! k"

definition b64_value :: "char \<Rightarrow> nat option" where
  "b64_value c = (let i = IndexByte b64_alphabet c in if i < 0 then None else Some (nat i))"

fun EncodeCredentialID :: "string \<Rightarrow> string" where
  "EncodeCredentialID [] = []"
| "EncodeCredentialID [a] = (let n = of_char a in [b64_char (n div 4), b64_char (n mod 4 * 16)])"
| "EncodeCredentialID [a, b] = (let n = of_char a * 256 + of_char b in [b64_char (n div 1024), b64_char (n div 16 mod 64), b64_char (n mod 16 * 4)])"
| "EncodeCredentialID (a # b # c # r) = (let n = of_char a * 65536 + of_char b * 256 + of_char c in
     [b64_char (n div 262144), b64_char (n div 4096 mod 64), b64_char (n div 64 mod 64), b64_char (n mod 64)] @ EncodeCredentialID r)"

definition b64_two :: "char \<Rightarrow> char \<Rightarrow> string option" where
  "b64_two a b = (case (b64_value a, b64_value b) of (Some x, Some y) \<Rightarrow> Some [char_of ((x * 64 + y) div 16)] | _ \<Rightarrow> None)"

definition b64_three :: "char \<Rightarrow> char \<Rightarrow> char \<Rightarrow> string option" where
  "b64_three a b c = (case (b64_value a, b64_value b, b64_value c) of
      (Some x, Some y, Some z) \<Rightarrow> (let n = (x * 4096 + y * 64 + z) div 4 in Some [char_of (n div 256), char_of (n mod 256)]) | _ \<Rightarrow> None)"

definition b64_four :: "char \<Rightarrow> char \<Rightarrow> char \<Rightarrow> char \<Rightarrow> string option" where
  "b64_four a b c d = (case (b64_value a, b64_value b, b64_value c, b64_value d) of
      (Some x, Some y, Some z, Some w) \<Rightarrow> (let n = x * 262144 + y * 4096 + z * 64 + w in
         Some [char_of (n div 65536), char_of (n div 256 mod 256), char_of (n mod 256)]) | _ \<Rightarrow> None)"

text \<open>The decoder on groups of four, with padding (\<open>pad\<close>) or without; the last group may be short.\<close>

fun b64_groups :: "bool \<Rightarrow> string \<Rightarrow> string option" where
  "b64_groups pad [] = Some []"
| "b64_groups pad [a] = None"
| "b64_groups pad [a, b] = (if pad then None else b64_two a b)"
| "b64_groups pad [a, b, c] = (if pad then None else b64_three a b c)"
| "b64_groups pad (a # b # c # d # r) =
     (if pad \<and> d = CHR ''='' \<and> r = [] then (if c = CHR ''='' then b64_two a b else b64_three a b c)
      else case b64_four a b c d of None \<Rightarrow> None | Some x \<Rightarrow> map_option (append x) (b64_groups pad r))"

text \<open>Carriage returns and line feeds are skipped.\<close>

definition b64_decode :: "bool \<Rightarrow> string \<Rightarrow> string option" where
  "b64_decode pad s = b64_groups pad (filter (\<lambda>c. c \<noteq> CHR 0x0D \<and> c \<noteq> CHR 0x0A) s)"

definition DecodeCredentialID :: "string \<Rightarrow> string option" where
  "DecodeCredentialID s = (case b64_decode False s of Some x \<Rightarrow> Some x | None \<Rightarrow> b64_decode True s)"

lemma b64_char_value: "k < 64 \<Longrightarrow> b64_value (b64_char k) = Some k"
proof -
  have "list_all (\<lambda>k. b64_value (b64_char k) = Some k) [0..<64]" by code_simp
  then show "k < 64 \<Longrightarrow> b64_value (b64_char k) = Some k" by (simp add: list_all_iff)
qed

lemma b64_char_plain: "k < 64 \<Longrightarrow> b64_char k \<noteq> CHR 0x0D \<and> b64_char k \<noteq> CHR 0x0A \<and> b64_char k \<noteq> CHR 0x1F"
proof -
  have "list_all (\<lambda>k. b64_char k \<noteq> CHR 0x0D \<and> b64_char k \<noteq> CHR 0x0A \<and> b64_char k \<noteq> CHR 0x1F) [0..<64]" by code_simp
  then show "k < 64 \<Longrightarrow> b64_char k \<noteq> CHR 0x0D \<and> b64_char k \<noteq> CHR 0x0A \<and> b64_char k \<noteq> CHR 0x1F" by (simp add: list_all_iff)
qed

lemma byte_less: "(of_char c :: nat) < 256"
  by simp

lemma byte_bounds:
  "of_char a div 4 < (64 :: nat)" "of_char a mod 4 * 16 < (64 :: nat)"
  "(of_char a * 256 + of_char b) div 1024 < (64 :: nat)" "(of_char a * 256 + of_char b) mod 16 * 4 < (64 :: nat)"
  "(of_char a * 65536 + of_char b * 256 + of_char c) div 262144 < (64 :: nat)"
proof -
  note l = byte_less [of a] byte_less [of b] byte_less [of c]
  show "of_char a div 4 < (64 :: nat)" by (rule less_mult_imp_div_less) (use l in linarith)
  show "of_char a mod 4 * 16 < (64 :: nat)" by (simp add: mult.commute)
  show "(of_char a * 256 + of_char b) div 1024 < (64 :: nat)" by (rule less_mult_imp_div_less) (use l in linarith)
  show "(of_char a * 256 + of_char b) mod 16 * 4 < (64 :: nat)" using mod_less_divisor [of 16 "of_char a * 256 + of_char b"] by linarith
  show "(of_char a * 65536 + of_char b * 256 + of_char c) div 262144 < (64 :: nat)" by (rule less_mult_imp_div_less) (use l in linarith)
qed

text \<open>A number is put together again from its digits.\<close>

lemma digits_two: "(n div 4 * 64 + n mod 4 * 16) div 16 = (n :: nat)"
proof -
  have "n div 4 * 64 + n mod 4 * 16 = 16 * n" using mult_div_mod_eq [of 4 n] by linarith
  then show ?thesis by simp
qed

lemma digits_three: "(n div 1024 * 4096 + n div 16 mod 64 * 64 + n mod 16 * 4) div 4 = (n :: nat)"
proof -
  have "n div 1024 = n div 16 div 64" by (simp flip: div_mult2_eq)
  then have "n div 1024 * 4096 + n div 16 mod 64 * 64 + n mod 16 * 4 = 4 * n"
    using mult_div_mod_eq [of 16 n] mult_div_mod_eq [of 64 "n div 16"] by linarith
  then show ?thesis by simp
qed

lemma digits_four: "n div 262144 * 262144 + n div 4096 mod 64 * 4096 + n div 64 mod 64 * 64 + n mod 64 = (n :: nat)"
proof -
  have "n div 4096 = n div 64 div 64" "n div 262144 = n div 64 div 64 div 64" by (simp_all flip: div_mult2_eq)
  moreover have "q3 * 262144 + r3 * 4096 + r2 * 64 + r1 = n" if "64 * q1 + r1 = n" "64 * q2 + r2 = q1" "64 * q3 + r3 = q2" for q1 q2 q3 r1 r2 r3
    using that by linarith
  from this [OF mult_div_mod_eq mult_div_mod_eq mult_div_mod_eq] have "n div 64 div 64 div 64 * 262144 + n div 64 div 64 mod 64 * 4096 + n div 64 mod 64 * 64 + n mod 64 = n" .
  ultimately show ?thesis by metis
qed

lemma bytes_of:
  "b < 256 \<Longrightarrow> (a * 256 + b) div 256 = (a :: nat)" "b < 256 \<Longrightarrow> (a * 256 + b) mod 256 = b"
  by simp_all

lemma b64_two_Encode: "b64_two (b64_char (of_char a div 4)) (b64_char (of_char a mod 4 * 16)) = Some [a]"
  using byte_bounds(1,2) [of a] by (simp add: b64_two_def b64_char_value digits_two)

lemma b64_three_Encode:
  "n = of_char a * 256 + of_char b \<Longrightarrow> b64_three (b64_char (n div 1024)) (b64_char (n div 16 mod 64)) (b64_char (n mod 16 * 4)) = Some [a, b]"
proof -
  assume n: "n = of_char a * 256 + (of_char b :: nat)"
  have "n div 1024 < 64" "n mod 16 * 4 < 64" unfolding n by (rule byte_bounds)+
  moreover have "n div 256 = of_char a" "n mod 256 = of_char b" unfolding n by (rule bytes_of, rule byte_less)+
  ultimately show ?thesis by (simp add: b64_three_def b64_char_value digits_three Let_def del: char_of_mod_256)
qed

lemma b64_four_Encode:
  "n = of_char a * 65536 + of_char b * 256 + of_char c \<Longrightarrow>
   b64_four (b64_char (n div 262144)) (b64_char (n div 4096 mod 64)) (b64_char (n div 64 mod 64)) (b64_char (n mod 64)) = Some [a, b, c]"
proof -
  assume n: "n = of_char a * 65536 + of_char b * 256 + (of_char c :: nat)"
  then have n': "n = (of_char a * 256 + of_char b) * 256 + of_char c" by simp
  have "n div 262144 < 64" unfolding n by (rule byte_bounds)
  moreover have d: "n div 256 = of_char a * 256 + of_char b" "n mod 256 = of_char c" unfolding n' by (rule bytes_of, rule byte_less)+
  moreover have "n div 65536 = n div 256 div 256" by (simp flip: div_mult2_eq)
  then have "n div 65536 = of_char a" unfolding d by (simp only: bytes_of(1) [OF byte_less])
  moreover have "n div 256 mod 256 = of_char b" unfolding d by (rule bytes_of, rule byte_less)
  ultimately show ?thesis by (simp add: b64_four_def b64_char_value digits_four Let_def del: char_of_mod_256)
qed

lemma Encode_plain: "c \<in> set (EncodeCredentialID x) \<Longrightarrow> c \<noteq> CHR 0x0D \<and> c \<noteq> CHR 0x0A \<and> c \<noteq> CHR 0x1F"
proof (induction x rule: EncodeCredentialID.induct)
  case (2 a)
  with b64_char_plain byte_bounds(1,2) [of a] show ?case by (auto simp: Let_def)
next
  case (3 a b)
  with b64_char_plain byte_bounds(3,4) [of a b] show ?case by (auto simp: Let_def)
next
  case (4 a b c r)
  with b64_char_plain byte_bounds(5) [of a b c] show ?case by (auto simp: Let_def)
qed simp

text \<open>Decoding inverts encoding.\<close>

lemma Decode_Encode: "DecodeCredentialID (EncodeCredentialID x) = Some x"
proof -
  have "filter (\<lambda>c. c \<noteq> CHR 0x0D \<and> c \<noteq> CHR 0x0A) (EncodeCredentialID x) = EncodeCredentialID x"
    using Encode_plain by (auto intro: filter_True)
  moreover have "b64_groups False (EncodeCredentialID x) = Some x"
    by (induction x rule: EncodeCredentialID.induct) (simp_all add: Let_def b64_two_Encode b64_three_Encode b64_four_Encode)
  ultimately show ?thesis by (simp add: DecodeCredentialID_def b64_decode_def)
qed

lemma Encode_inject [simp]: "EncodeCredentialID x = EncodeCredentialID y \<longleftrightarrow> x = y"
  by (metis Decode_Encode option.inject)

section \<open>Credentials\<close>

datatype cred_error = ErrCredentialNotFound | ErrReplay | ErrNilCredential | ErrEmptyCredentialID | ErrCredentialExists | ErrCredentialTxn

record credential =
  wc_ID :: string
  wc_SignCount :: "32 word"
  wc_AAGUID :: string
  wc_Rest :: string

record credential_record =
  cr_Credential :: credential
  cr_UserHandle :: string
  cr_OperatorCN :: string
  cr_Label :: string
  cr_BoundCertCN :: string
  cr_RegisteredAt :: time
  cr_RegisteredBy :: string
  cr_LastUsedAt :: time

abbreviation cred_id :: "credential_record \<Rightarrow> string" where
  "cred_id r \<equiv> wc_ID (cr_Credential r)"

definition UserHandleFor :: "(string \<Rightarrow> string) \<Rightarrow> string \<Rightarrow> string" where
  "UserHandleFor sha subject = sha (''helion-webauthn-user-handle-v1:'' @ subject)"

definition SortByRegistered :: "credential_record list \<Rightarrow> credential_record list" where
  "SortByRegistered rs = sort_Slice (\<lambda>a b. cr_RegisteredAt b < cr_RegisteredAt a) rs"

definition verifyNotReplay :: "32 word \<Rightarrow> 32 word \<Rightarrow> cred_error option" where
  "verifyNotReplay stored observed =
     (if stored = 0 \<and> observed = 0 then None else if observed \<le> stored then Some ErrReplay else None)"

definition set_sign_count :: "32 word \<Rightarrow> credential_record \<Rightarrow> credential_record" where
  "set_sign_count n r = r\<lparr>cr_Credential := (cr_Credential r)\<lparr>wc_SignCount := n\<rparr>\<rparr>"

section \<open>In-memory store\<close>

type_synonym cred_mem = "string \<rightharpoonup> credential_record"

definition wm_Create :: "credential_record option \<Rightarrow> cred_mem \<Rightarrow> cred_error option \<times> cred_mem" where
  "wm_Create rec m = (case rec of None \<Rightarrow> (Some ErrNilCredential, m)
     | Some r \<Rightarrow> if cred_id r = [] then (Some ErrEmptyCredentialID, m)
         else let k = EncodeCredentialID (cred_id r) in
           if m k \<noteq> None then (Some ErrCredentialExists, m) else (None, m(k \<mapsto> r)))"

definition wm_Get :: "string \<Rightarrow> cred_mem \<Rightarrow> cred_error + credential_record" where
  "wm_Get i m = (case m (EncodeCredentialID i) of None \<Rightarrow> Inl ErrCredentialNotFound | Some r \<Rightarrow> Inr r)"

definition wm_ListByOperator :: "string list \<Rightarrow> string \<Rightarrow> cred_mem \<Rightarrow> cred_error + credential_record list" where
  "wm_ListByOperator ord h m = Inr (SortByRegistered (filter (\<lambda>r. cr_UserHandle r = h) (range_values ord m)))"

definition wm_List :: "string list \<Rightarrow> cred_mem \<Rightarrow> cred_error + credential_record list" where
  "wm_List ord m = Inr (SortByRegistered (range_values ord m))"

definition wm_Delete :: "string \<Rightarrow> cred_mem \<Rightarrow> cred_error option \<times> cred_mem" where
  "wm_Delete i m = (None, m(EncodeCredentialID i := None))"

definition wm_UpdateSignCount :: "string \<Rightarrow> 32 word \<Rightarrow> cred_mem \<Rightarrow> cred_error option \<times> cred_mem" where
  "wm_UpdateSignCount i n m = (case m (EncodeCredentialID i) of None \<Rightarrow> (Some ErrCredentialNotFound, m)
     | Some r \<Rightarrow> (case verifyNotReplay (wc_SignCount (cr_Credential r)) n of Some e \<Rightarrow> (Some e, m)
        | None \<Rightarrow> (None, m(EncodeCredentialID i \<mapsto> set_sign_count n r))))"

section \<open>BadgerDB store\<close>

datatype cred_value = VCredential credential_record | VMarker

type_synonym cred_kv = "string \<rightharpoonup> cred_value"

definition credentialKeyPrefix :: string where
  "credentialKeyPrefix = ''webauthn/credentials/''"

definition byOperatorKeyPrefix :: string where
  "byOperatorKeyPrefix = ''webauthn/by-operator/''"

definition credentialKey :: "string \<Rightarrow> string" where
  "credentialKey i = credentialKeyPrefix @ EncodeCredentialID i"

definition byOperatorPrefix :: "string \<Rightarrow> string" where
  "byOperatorPrefix h = byOperatorKeyPrefix @ EncodeCredentialID h @ [CHR 0x1F]"

definition byOperatorKey :: "string \<Rightarrow> string \<Rightarrow> string" where
  "byOperatorKey h i = byOperatorPrefix h @ EncodeCredentialID i"

definition cred_txn :: "bool \<Rightarrow> (cred_kv \<Rightarrow> cred_error option \<times> cred_kv) \<Rightarrow> cred_kv \<Rightarrow> cred_error option \<times> cred_kv" where
  "cred_txn commit body kv = (case body kv of (Some e, _) \<Rightarrow> (Some e, kv)
     | (None, kv') \<Rightarrow> if commit then (None, kv') else (Some ErrCredentialTxn, kv))"

text \<open>A read of a record; a value of another kind does not decode.\<close>

definition read_cred :: "string \<Rightarrow> cred_kv \<Rightarrow> cred_error + credential_record" where
  "read_cred i kv = (case kv (credentialKey i) of None \<Rightarrow> Inl ErrCredentialNotFound
     | Some (VCredential r) \<Rightarrow> Inr r | Some VMarker \<Rightarrow> Inl ErrCredentialTxn)"

definition wb_Create :: "bool \<Rightarrow> credential_record option \<Rightarrow> cred_kv \<Rightarrow> cred_error option \<times> cred_kv" where
  "wb_Create commit rec kv = (case rec of None \<Rightarrow> (Some ErrNilCredential, kv)
     | Some r \<Rightarrow> if cred_id r = [] then (Some ErrEmptyCredentialID, kv)
         else cred_txn commit (\<lambda>kv. if kv (credentialKey (cred_id r)) \<noteq> None then (Some ErrCredentialExists, kv)
            else (None, kv(credentialKey (cred_id r) \<mapsto> VCredential r, byOperatorKey (cr_UserHandle r) (cred_id r) \<mapsto> VMarker))) kv)"

definition wb_Get :: "string \<Rightarrow> cred_kv \<Rightarrow> cred_error + credential_record" where
  "wb_Get i kv = read_cred i kv"

text \<open>The loop over the index: keys that do not decode and records that are gone are skipped.\<close>

fun wb_collect :: "nat \<Rightarrow> string list \<Rightarrow> cred_kv \<Rightarrow> cred_error + credential_record list" where
  "wb_collect sep [] kv = Inr []"
| "wb_collect sep (k # ks) kv = (case DecodeCredentialID (drop sep k) of None \<Rightarrow> wb_collect sep ks kv
     | Some i \<Rightarrow> (case read_cred i kv of
          Inl e \<Rightarrow> if e = ErrCredentialNotFound then wb_collect sep ks kv else Inl e
        | Inr r \<Rightarrow> map_sum id (Cons r) (wb_collect sep ks kv)))"

definition wb_ListByOperator :: "string list \<Rightarrow> string \<Rightarrow> cred_kv \<Rightarrow> cred_error + credential_record list" where
  "wb_ListByOperator ord h kv =
     map_sum id SortByRegistered (wb_collect (length (byOperatorPrefix h)) (filter (\<lambda>k. HasPrefix k (byOperatorPrefix h)) ord) kv)"

fun wb_records :: "string list \<Rightarrow> cred_kv \<Rightarrow> cred_error + credential_record list" where
  "wb_records [] kv = Inr []"
| "wb_records (k # ks) kv = (case kv k of Some (VCredential r) \<Rightarrow> map_sum id (Cons r) (wb_records ks kv) | _ \<Rightarrow> Inl ErrCredentialTxn)"

definition wb_List :: "string list \<Rightarrow> cred_kv \<Rightarrow> cred_error + credential_record list" where
  "wb_List ord kv = map_sum id SortByRegistered (wb_records (filter (\<lambda>k. HasPrefix k credentialKeyPrefix) ord) kv)"

definition wb_Delete :: "bool \<Rightarrow> string \<Rightarrow> cred_kv \<Rightarrow> cred_error option \<times> cred_kv" where
  "wb_Delete commit i kv = cred_txn commit (\<lambda>kv. case read_cred i kv of
       Inl e \<Rightarrow> if e = ErrCredentialNotFound then (None, kv) else (Some e, kv)
     | Inr r \<Rightarrow> let kv' = kv(credentialKey i := None) in
         (None, if cr_UserHandle r = [] then kv' else kv'(byOperatorKey (cr_UserHandle r) i := None))) kv"

definition wb_UpdateSignCount :: "bool \<Rightarrow> string \<Rightarrow> 32 word \<Rightarrow> cred_kv \<Rightarrow> cred_error option \<times> cred_kv" where
  "wb_UpdateSignCount commit i n kv = cred_txn commit (\<lambda>kv. case read_cred i kv of Inl e \<Rightarrow> (Some e, kv)
     | Inr r \<Rightarrow> (case verifyNotReplay (wc_SignCount (cr_Credential r)) n of Some e \<Rightarrow> (Some e, kv)
        | None \<Rightarrow> (None, kv(credentialKey i \<mapsto> VCredential (set_sign_count n r))))) kv"

section \<open>Sessions\<close>

datatype session_purpose = PurposeRegister | PurposeLogin

fun purpose_string :: "session_purpose \<Rightarrow> string" where
  "purpose_string PurposeRegister = ''register''"
| "purpose_string PurposeLogin = ''login''"

text \<open>The library's session data is opaque.\<close>

record session_store =
  st_data :: "string \<rightharpoonup> string \<times> time"
  st_ttl :: duration

definition NewSessionStore :: "duration \<Rightarrow> session_store" where
  "NewSessionStore ttl = \<lparr>st_data = Map.empty, st_ttl = (if ttl \<le> 0 then 5 * minute else ttl)\<rparr>"

definition sessionKey :: "string \<Rightarrow> session_purpose \<Rightarrow> string" where
  "sessionKey subject purpose = purpose_string purpose @ '':'' @ subject"

definition sess_Put :: "time \<Rightarrow> string \<Rightarrow> session_purpose \<Rightarrow> string \<Rightarrow> session_store \<Rightarrow> session_store" where
  "sess_Put now subject purpose d st = st\<lparr>st_data := (st_data st)(sessionKey subject purpose \<mapsto> (d, now + st_ttl st))\<rparr>"

definition sess_Pop :: "time \<Rightarrow> string \<Rightarrow> session_purpose \<Rightarrow> session_store \<Rightarrow> string option \<times> session_store" where
  "sess_Pop now subject purpose st =
     (let key = sessionKey subject purpose in
      case st_data st key of None \<Rightarrow> (None, st)
      | Some (d, expires) \<Rightarrow>
         let st = st\<lparr>st_data := (st_data st)(key := None)\<rparr> in
         if expires < now then (None, st) else (Some d, st))"

definition sess_Sweep :: "time \<Rightarrow> session_store \<Rightarrow> session_store" where
  "sess_Sweep now st = st\<lparr>st_data := (\<lambda>k. case st_data st k of None \<Rightarrow> None | Some (d, expires) \<Rightarrow> if expires < now then None else Some (d, expires))\<rparr>"

section \<open>The contract of a credential store\<close>

datatype cred_op = CredCreate "credential_record option" | CredDelete string | CredUpdate string "32 word"

record 's cred_ops =
  co_Create :: "bool \<Rightarrow> credential_record option \<Rightarrow> 's \<Rightarrow> cred_error option \<times> 's"
  co_Delete :: "bool \<Rightarrow> string \<Rightarrow> 's \<Rightarrow> cred_error option \<times> 's"
  co_Update :: "bool \<Rightarrow> string \<Rightarrow> 32 word \<Rightarrow> 's \<Rightarrow> cred_error option \<times> 's"

fun cred_exec :: "'s cred_ops \<Rightarrow> bool \<Rightarrow> cred_op \<Rightarrow> 's \<Rightarrow> cred_error option \<times> 's" where
  "cred_exec ops commit (CredCreate r) s = co_Create ops commit r s"
| "cred_exec ops commit (CredDelete i) s = co_Delete ops commit i s"
| "cred_exec ops commit (CredUpdate i n) s = co_Update ops commit i n s"

fun cred_run :: "'s cred_ops \<Rightarrow> (bool \<times> cred_op) list \<Rightarrow> 's \<Rightarrow> cred_error option list \<times> 's" where
  "cred_run ops [] s = ([], s)"
| "cred_run ops ((b, c) # cs) s = (let (e, s') = cred_exec ops b c s; (es, s'') = cred_run ops cs s' in (e # es, s''))"

text \<open>The directory: credentials by their ID. A call that is not committed changes nothing.\<close>

type_synonym cred_dir = "string \<rightharpoonup> credential_record"

definition dir_step :: "bool \<Rightarrow> cred_error option \<times> cred_dir \<Rightarrow> cred_dir \<Rightarrow> cred_error option \<times> cred_dir" where
  "dir_step commit x A = (case x of (Some e, _) \<Rightarrow> (Some e, A) | (None, A') \<Rightarrow> if commit then (None, A') else (Some ErrCredentialTxn, A))"

definition dir_Create :: "bool \<Rightarrow> credential_record option \<Rightarrow> cred_dir \<Rightarrow> cred_error option \<times> cred_dir" where
  "dir_Create commit rec A = dir_step commit (case rec of None \<Rightarrow> (Some ErrNilCredential, A)
     | Some r \<Rightarrow> if cred_id r = [] then (Some ErrEmptyCredentialID, A)
         else if A (cred_id r) \<noteq> None then (Some ErrCredentialExists, A) else (None, A(cred_id r \<mapsto> r))) A"

definition dir_Delete :: "bool \<Rightarrow> string \<Rightarrow> cred_dir \<Rightarrow> cred_error option \<times> cred_dir" where
  "dir_Delete commit i A = dir_step commit (None, A(i := None)) A"

definition dir_Update :: "bool \<Rightarrow> string \<Rightarrow> 32 word \<Rightarrow> cred_dir \<Rightarrow> cred_error option \<times> cred_dir" where
  "dir_Update commit i n A = dir_step commit (case A i of None \<Rightarrow> (Some ErrCredentialNotFound, A)
     | Some r \<Rightarrow> (case verifyNotReplay (wc_SignCount (cr_Credential r)) n of Some e \<Rightarrow> (Some e, A) | None \<Rightarrow> (None, A(i \<mapsto> set_sign_count n r)))) A"

definition dir_ops :: "cred_dir cred_ops" where
  "dir_ops = \<lparr>co_Create = dir_Create, co_Delete = dir_Delete, co_Update = dir_Update\<rparr>"

lemmas dir_defs = dir_step_def dir_Create_def dir_Delete_def dir_Update_def dir_ops_def

text \<open>Registration derives a user handle, which is not empty.\<close>

fun cred_op_ok :: "cred_op \<Rightarrow> bool" where
  "cred_op_ok (CredCreate (Some r)) \<longleftrightarrow> cr_UserHandle r \<noteq> []"
| "cred_op_ok _ \<longleftrightarrow> True"

definition newest_registered :: "credential_record list \<Rightarrow> bool" where
  "newest_registered rs \<longleftrightarrow> sorted_wrt (\<lambda>a b. cr_RegisteredAt b \<le> cr_RegisteredAt a) rs"

locale credential_store =
  fixes ops :: "'s cred_ops"
    and get :: "string \<Rightarrow> 's \<Rightarrow> cred_error + credential_record"
    and listBy :: "string list \<Rightarrow> string \<Rightarrow> 's \<Rightarrow> cred_error + credential_record list"
    and empty :: 's
    and abs :: "'s \<Rightarrow> cred_dir"
    and inv :: "'s \<Rightarrow> bool"
    and visits :: "string list \<Rightarrow> 's \<Rightarrow> bool"
    and fallible :: bool
  assumes empty_ref: "inv empty" "abs empty = Map.empty"
    and exec_ref: "inv s \<Longrightarrow> cred_op_ok c \<Longrightarrow> b \<or> fallible \<Longrightarrow> cred_exec ops b c s = (e, s') \<Longrightarrow> inv s' \<and> (e, abs s') = cred_exec dir_ops b c (abs s)"
    and get_ref: "inv s \<Longrightarrow> get i s = (case abs s i of None \<Rightarrow> Inl ErrCredentialNotFound | Some r \<Rightarrow> Inr r)"
    and list_ref: "inv s \<Longrightarrow> visits ord s \<Longrightarrow> \<exists>rs. listBy ord h s = Inr rs \<and> newest_registered rs \<and> distinct (map cred_id rs) \<and>
        set rs = {r. \<exists>i. abs s i = Some r \<and> cr_UserHandle r = h}"
begin

lemma run_ref:
  "inv s \<Longrightarrow> list_all (\<lambda>(b, c). cred_op_ok c \<and> (b \<or> fallible)) cs \<Longrightarrow> cred_run ops cs s = (es, s') \<Longrightarrow> inv s' \<and> (es, abs s') = cred_run dir_ops cs (abs s)"
proof (induction cs arbitrary: s es s')
  case (Cons bc cs)
  obtain b c where bc: "bc = (b, c)" by fastforce
  obtain e s1 where e: "cred_exec ops b c s = (e, s1)" by fastforce
  obtain es1 s2 where r: "cred_run ops cs s1 = (es1, s2)" by fastforce
  from exec_ref [OF Cons.prems(1) _ _ e] Cons.prems(2) bc have "inv s1" "cred_exec dir_ops b c (abs s) = (e, abs s1)" by auto
  with Cons.IH [OF _ _ r] Cons.prems(2,3) e r bc show ?case by (auto simp: Let_def split: prod.splits)
qed simp

end

text \<open>The counter of a credential in the directory, and how it moves.\<close>

definition dir_count :: "string \<Rightarrow> cred_dir \<Rightarrow> 32 word option" where
  "dir_count i A = map_option (\<lambda>r. wc_SignCount (cr_Credential r)) (A i)"

lemma set_sign_count_simps [simp]:
  "wc_SignCount (cr_Credential (set_sign_count n r)) = n" "cred_id (set_sign_count n r) = cred_id r" "cr_UserHandle (set_sign_count n r) = cr_UserHandle r"
  "cr_RegisteredAt (set_sign_count n r) = cr_RegisteredAt r"
  by (simp_all add: set_sign_count_def)

lemma dir_exec_count:
  assumes "dir_count i A = Some n" and "c \<noteq> CredDelete i" and "cred_exec dir_ops b c A = (e, A')"
  shows "\<exists>m. dir_count i A' = Some m \<and> n \<le> m"
  using assms
  by (cases c) (auto simp: dir_defs dir_count_def verifyNotReplay_def split: option.splits if_splits)

lemma dir_run_count:
  "dir_count i A = Some n \<Longrightarrow> \<forall>(b, c) \<in> set cs. c \<noteq> CredDelete i \<Longrightarrow> cred_run dir_ops cs A = (es, A') \<Longrightarrow> \<exists>m. dir_count i A' = Some m \<and> n \<le> m"
proof (induction cs arbitrary: A n es)
  case (Cons bc cs)
  obtain b c where bc: "bc = (b, c)" by fastforce
  obtain e A1 where e: "cred_exec dir_ops b c A = (e, A1)" by fastforce
  obtain es1 where r: "cred_run dir_ops cs A1 = (es1, A')" using Cons.prems(3) e bc by (auto simp: Let_def split: prod.splits)
  obtain k where k: "dir_count i A1 = Some k" "n \<le> k" using dir_exec_count [OF Cons.prems(1) _ e] Cons.prems(2) bc by auto
  have "\<forall>(b, c) \<in> set cs. c \<noteq> CredDelete i" using Cons.prems(2) by auto
  from Cons.IH [OF k(1) this r] k(2) show ?case by force
qed simp

lemma dir_replay:
  assumes "cred_exec dir_ops b (CredUpdate i n) A = (None, A1)" and "n \<noteq> 0" and "\<forall>(b, c) \<in> set cs. c \<noteq> CredDelete i"
    and "cred_run dir_ops cs A1 = (es, A2)" and "k \<le> n"
  shows "\<exists>e. cred_exec dir_ops b' (CredUpdate i k) A2 = (Some e, A2)"
proof -
  have "dir_count i A1 = Some n" using assms(1) by (auto simp: dir_defs dir_count_def split: option.splits if_splits)
  from dir_run_count [OF this assms(3,4)] obtain m where m: "dir_count i A2 = Some m" "n \<le> m" by blast
  then obtain r where r: "A2 i = Some r" "wc_SignCount (cr_Credential r) = m" by (auto simp: dir_count_def)
  have "m \<noteq> 0" using m(2) assms(2) by auto
  moreover have "k \<le> m" using m(2) assms(5) by (rule order_trans [rotated])
  ultimately show ?thesis using r by (simp add: dir_defs verifyNotReplay_def)
qed

section \<open>Both stores keep the contract\<close>

lemma mset_SortByRegistered: "mset (SortByRegistered rs) = mset rs"
  by (simp add: SortByRegistered_def mset_sort_Slice)

lemma SortByRegistered_ok: "newest_registered (SortByRegistered rs) \<and> set (SortByRegistered rs) = set rs \<and> (distinct (map cred_id rs) \<longrightarrow> distinct (map cred_id (SortByRegistered rs)))"
proof (intro conjI impI)
  have "sorted (map (\<lambda>r. - cr_RegisteredAt r) (SortByRegistered rs))"
    unfolding SortByRegistered_def sort_Slice_def by (induction rs) (simp_all add: sorted_insert_by)
  then show "newest_registered (SortByRegistered rs)" by (simp add: newest_registered_def sorted_wrt_map)
  show "set (SortByRegistered rs) = set rs" using mset_SortByRegistered by (metis set_mset_mset)
  show "distinct (map cred_id (SortByRegistered rs))" if "distinct (map cred_id rs)"
    using that mset_SortByRegistered [of rs] by (metis mset_map mset_eq_imp_distinct_iff)
qed

definition wm_ops :: "cred_mem cred_ops" where
  "wm_ops = \<lparr>co_Create = (\<lambda>_. wm_Create), co_Delete = (\<lambda>_. wm_Delete), co_Update = (\<lambda>_. wm_UpdateSignCount)\<rparr>"

definition wm_abs :: "cred_mem \<Rightarrow> cred_dir" where
  "wm_abs m i = m (EncodeCredentialID i)"

definition wm_inv :: "cred_mem \<Rightarrow> bool" where
  "wm_inv m \<longleftrightarrow> (\<forall>k r. m k = Some r \<longrightarrow> k = EncodeCredentialID (cred_id r))"

lemma wm_abs_upd [simp]: "wm_abs (m(EncodeCredentialID i := v)) = (wm_abs m)(i := v)"
  by (rule ext) (simp add: wm_abs_def)

lemma wm_invD: "wm_inv m \<Longrightarrow> m (EncodeCredentialID i) = Some r \<Longrightarrow> cred_id r = i"
  unfolding wm_inv_def using Encode_inject by metis

lemma wm_exec_ref:
  assumes "wm_inv m" and "cred_exec wm_ops True c m = (e, m')"
  shows "wm_inv m' \<and> (e, wm_abs m') = cred_exec dir_ops True c (wm_abs m)"
proof (cases c)
  case (CredCreate ro)
  with assms show ?thesis
    by (cases ro) (auto simp: wm_ops_def wm_Create_def dir_defs wm_inv_def wm_abs_def [of m] Let_def split: if_splits)
next
  case (CredDelete i)
  with assms show ?thesis by (auto simp: wm_ops_def wm_Delete_def dir_defs wm_inv_def split: if_splits)
next
  case (CredUpdate i n)
  have "wm_inv (m(EncodeCredentialID i \<mapsto> set_sign_count n r))" if "m (EncodeCredentialID i) = Some r" for r
    using assms(1) wm_invD [OF assms(1) that] by (simp add: wm_inv_def)
  with CredUpdate assms show ?thesis
    by (auto simp: wm_ops_def wm_UpdateSignCount_def dir_defs wm_abs_def [of m] split: option.splits)
qed

interpretation wm: credential_store wm_ops wm_Get wm_ListByOperator Map.empty wm_abs wm_inv "\<lambda>ord m. enumerates ord m" False
proof
  show "wm_inv Map.empty" "wm_abs Map.empty = Map.empty" by (simp_all add: wm_inv_def wm_abs_def fun_eq_iff)
  show "wm_inv m' \<and> (e, wm_abs m') = cred_exec dir_ops b c (wm_abs m)" if "wm_inv m" "cred_op_ok c" "b \<or> False" "cred_exec wm_ops b c m = (e, m')" for m c b e m'
    using wm_exec_ref [OF that(1)] that(3,4) by auto
  show "wm_Get i m = (case wm_abs m i of None \<Rightarrow> Inl ErrCredentialNotFound | Some r \<Rightarrow> Inr r)" for i m by (simp add: wm_Get_def wm_abs_def)
  fix ord h m assume i: "wm_inv m" and v: "enumerates ord m"
  let ?rs = "filter (\<lambda>r. cr_UserHandle r = h) (range_values ord m)"
  have "EncodeCredentialID (cred_id (the (m k))) = k" if "k \<in> set ord" for k
    using i that v unfolding wm_inv_def enumerates_def by (metis domIff option.collapse)
  then have "inj_on (\<lambda>k. cred_id (the (m k))) (set ord)" by (intro inj_onI) metis
  then have "distinct (map cred_id (range_values ord m))" using v by (simp add: range_values_def enumerates_def distinct_map o_def)
  then have "distinct (map cred_id ?rs)" by (rule distinct_map_filter)
  moreover have "set ?rs = {r. \<exists>i. wm_abs m i = Some r \<and> cr_UserHandle r = h}"
    using i by (auto simp: set_range_values [OF v] ran_def wm_abs_def wm_inv_def)
  ultimately show "\<exists>rs. wm_ListByOperator ord h m = Inr rs \<and> newest_registered rs \<and> distinct (map cred_id rs) \<and>
      set rs = {r. \<exists>i. wm_abs m i = Some r \<and> cr_UserHandle r = h}"
    using SortByRegistered_ok [of ?rs] by (simp add: wm_ListByOperator_def)
qed

text \<open>In BadgerDB the index has an entry for every record, under its user handle and ID, and no other.\<close>

definition wb_ops :: "cred_kv cred_ops" where
  "wb_ops = \<lparr>co_Create = wb_Create, co_Delete = wb_Delete, co_Update = wb_UpdateSignCount\<rparr>"

definition wb_abs :: "cred_kv \<Rightarrow> cred_dir" where
  "wb_abs kv i = (case kv (credentialKey i) of Some (VCredential r) \<Rightarrow> Some r | _ \<Rightarrow> None)"

definition wb_inv :: "cred_kv \<Rightarrow> bool" where
  "wb_inv kv \<longleftrightarrow>
     (\<forall>i v. kv (credentialKey i) = Some v \<longrightarrow> (\<exists>r. v = VCredential r \<and> cred_id r = i \<and> cr_UserHandle r \<noteq> [])) \<and>
     (\<forall>k. HasPrefix k byOperatorKeyPrefix \<longrightarrow> kv k \<noteq> None \<longrightarrow> (\<exists>h i r. k = byOperatorKey h i \<and> kv (credentialKey i) = Some (VCredential r) \<and> cr_UserHandle r = h)) \<and>
     (\<forall>i r. kv (credentialKey i) = Some (VCredential r) \<longrightarrow> kv (byOperatorKey (cr_UserHandle r) i) \<noteq> None)"

lemma separator_free: "CHR 0x1F \<notin> set (EncodeCredentialID x)"
  using Encode_plain by blast

lemma sep_append: "c \<notin> set a \<Longrightarrow> c \<notin> set b \<Longrightarrow> a @ c # x = b @ c # y \<longleftrightarrow> a = b \<and> x = y"
proof (induction a arbitrary: b)
  case Nil
  then show ?case by (cases b) auto
next
  case (Cons z a)
  then show ?case by (cases b) auto
qed

lemma byOperatorKey_shape: "byOperatorKey h i = byOperatorKeyPrefix @ EncodeCredentialID h @ CHR 0x1F # EncodeCredentialID i"
  by (simp add: byOperatorKey_def byOperatorPrefix_def)

lemma byOperatorKey_eq [simp]: "byOperatorKey h i = byOperatorKey h' j \<longleftrightarrow> h = h' \<and> i = j"
  by (simp only: byOperatorKey_shape same_append_eq sep_append [OF separator_free separator_free] Encode_inject)

lemma cred_keys [simp]:
  "credentialKey i = credentialKey j \<longleftrightarrow> i = j" "credentialKey i \<noteq> byOperatorKey h j" "byOperatorKey h j \<noteq> credentialKey i"
  "HasPrefix (byOperatorKey h i) byOperatorKeyPrefix" "\<not> HasPrefix (credentialKey i) byOperatorKeyPrefix"
  by (simp_all add: credentialKey_def byOperatorKey_def byOperatorPrefix_def credentialKeyPrefix_def byOperatorKeyPrefix_def HasPrefix_iff)

lemma byOperatorPrefix_iff: "HasPrefix (byOperatorKey h' i) (byOperatorPrefix h) \<longleftrightarrow> h = h'"
  by (auto simp: byOperatorKey_shape byOperatorPrefix_def HasPrefix_iff sep_append [OF separator_free separator_free])

lemma byOperatorKey_rest: "drop (length (byOperatorPrefix h)) (byOperatorKey h i) = EncodeCredentialID i"
  by (simp add: byOperatorKey_def)

lemma wb_abs_upd [simp]:
  "wb_abs (kv(credentialKey i \<mapsto> VCredential r)) = (wb_abs kv)(i \<mapsto> r)" "wb_abs (kv(credentialKey i := None)) = (wb_abs kv)(i := None)"
  "wb_abs (kv(byOperatorKey h i := v)) = wb_abs kv"
  by (rule ext, simp add: wb_abs_def)+

lemma read_cred_abs: "wb_inv kv \<Longrightarrow> read_cred i kv = (case wb_abs kv i of None \<Rightarrow> Inl ErrCredentialNotFound | Some r \<Rightarrow> Inr r)"
  unfolding wb_inv_def by (fastforce simp: read_cred_def wb_abs_def split: option.splits cred_value.splits)

lemma wb_absD: "wb_abs kv i = Some r \<longleftrightarrow> kv (credentialKey i) = Some (VCredential r)"
  by (simp add: wb_abs_def split: option.splits cred_value.splits)

lemma wb_abs_None: "wb_inv kv \<Longrightarrow> wb_abs kv i = None \<longleftrightarrow> kv (credentialKey i) = None"
  unfolding wb_inv_def by (fastforce simp: wb_abs_def split: option.splits cred_value.splits)

lemma wb_inv_create:
  assumes "wb_inv kv" and "kv (credentialKey (cred_id r)) = None" and "cr_UserHandle r \<noteq> []"
  shows "wb_inv (kv(credentialKey (cred_id r) \<mapsto> VCredential r, byOperatorKey (cr_UserHandle r) (cred_id r) \<mapsto> VMarker))"
  using assms unfolding wb_inv_def by (auto split: if_splits) (metis option.distinct(1))+

lemma wb_inv_delete:
  assumes "wb_inv kv" and "kv (credentialKey i) = Some (VCredential r)"
  shows "wb_inv (kv(credentialKey i := None, byOperatorKey (cr_UserHandle r) i := None))"
  using assms unfolding wb_inv_def by (auto split: if_splits) (metis cred_value.inject option.inject)+

lemma wb_inv_update:
  assumes "wb_inv kv" and "kv (credentialKey i) = Some (VCredential r)"
  shows "wb_inv (kv(credentialKey i \<mapsto> VCredential (set_sign_count n r)))"
  using assms unfolding wb_inv_def by (auto split: if_splits) (metis set_sign_count_simps(3) cred_value.inject option.inject)+

lemma wb_exec_ref:
  assumes "wb_inv kv" and "cred_op_ok c" and "cred_exec wb_ops b c kv = (e, kv')"
  shows "wb_inv kv' \<and> (e, wb_abs kv') = cred_exec dir_ops b c (wb_abs kv)"
proof (cases c)
  case (CredCreate ro)
  show ?thesis
  proof (cases "\<exists>r. ro = Some r \<and> cred_id r \<noteq> []")
    case True
    then obtain r where r: "ro = Some r" "cred_id r \<noteq> []" by blast
    show ?thesis
    proof (cases "kv (credentialKey (cred_id r))")
      case None
      with assms(3) CredCreate r have "(e, kv') = (if b then (None, kv(credentialKey (cred_id r) \<mapsto> VCredential r, byOperatorKey (cr_UserHandle r) (cred_id r) \<mapsto> VMarker))
          else (Some ErrCredentialTxn, kv))"
        by (simp add: wb_ops_def wb_Create_def cred_txn_def split: if_splits)
      with wb_inv_create [OF assms(1) None] assms(1,2) CredCreate r None wb_abs_None [OF assms(1), of "cred_id r"]
      show ?thesis by (auto simp: dir_defs split: if_splits)
    next
      case (Some v)
      with assms CredCreate r wb_abs_None [OF assms(1), of "cred_id r"] show ?thesis
        by (auto simp: wb_ops_def wb_Create_def cred_txn_def dir_defs)
    qed
  next
    case False
    with assms CredCreate show ?thesis by (auto simp: wb_ops_def wb_Create_def dir_defs split: option.splits)
  qed
next
  case (CredDelete i)
  show ?thesis
  proof (cases "wb_abs kv i")
    case None
    with assms CredDelete have "cred_txn b (\<lambda>kv. (None, kv)) kv = (e, kv')"
      by (simp add: wb_ops_def wb_Delete_def cred_txn_def read_cred_abs)
    with assms(1) None CredDelete show ?thesis by (auto simp: cred_txn_def dir_defs fun_upd_idem split: if_splits)
  next
    case (Some r)
    then have k: "kv (credentialKey i) = Some (VCredential r)" by (simp add: wb_absD)
    then have h: "cr_UserHandle r \<noteq> []" using assms(1) unfolding wb_inv_def by blast
    with assms CredDelete Some have "(e, kv') = (if b then (None, kv(credentialKey i := None, byOperatorKey (cr_UserHandle r) i := None)) else (Some ErrCredentialTxn, kv))"
      by (simp add: wb_ops_def wb_Delete_def cred_txn_def read_cred_abs Let_def split: if_splits)
    with wb_inv_delete [OF assms(1) k] assms(1) CredDelete show ?thesis by (auto simp: dir_defs split: if_splits)
  qed
next
  case (CredUpdate i n)
  show ?thesis
  proof (cases "wb_abs kv i")
    case None
    with assms CredUpdate show ?thesis by (auto simp: wb_ops_def wb_UpdateSignCount_def cred_txn_def read_cred_abs dir_defs)
  next
    case (Some r)
    then have k: "kv (credentialKey i) = Some (VCredential r)" by (simp add: wb_absD)
    show ?thesis
    proof (cases "verifyNotReplay (wc_SignCount (cr_Credential r)) n")
      case v: None
      with assms CredUpdate Some have "(e, kv') = (if b then (None, kv(credentialKey i \<mapsto> VCredential (set_sign_count n r))) else (Some ErrCredentialTxn, kv))"
        by (simp add: wb_ops_def wb_UpdateSignCount_def cred_txn_def read_cred_abs split: if_splits)
      with wb_inv_update [OF assms(1) k, of n] assms(1) CredUpdate Some v show ?thesis by (auto simp: dir_defs split: if_splits)
    next
      case v: (Some x)
      with assms CredUpdate Some have "(e, kv') = (Some x, kv)" by (simp add: wb_ops_def wb_UpdateSignCount_def cred_txn_def read_cred_abs)
      with assms(1) CredUpdate Some v show ?thesis by (simp add: dir_defs)
    qed
  qed
qed

text \<open>Over entries of the index, the loop reads exactly the records they name.\<close>

lemma wb_collect_index:
  "wb_inv kv \<Longrightarrow> \<forall>k \<in> set ks. \<exists>i r. k = byOperatorKey h i \<and> wb_abs kv i = Some r \<Longrightarrow>
   wb_collect (length (byOperatorPrefix h)) ks kv = Inr (map (\<lambda>k. the (wb_abs kv (the (DecodeCredentialID (drop (length (byOperatorPrefix h)) k))))) ks)"
  by (induction ks) (auto simp: byOperatorKey_rest Decode_Encode read_cred_abs)

lemma wb_list_ref:
  assumes "wb_inv kv" and "enumerates ord kv"
  shows "\<exists>rs. wb_ListByOperator ord h kv = Inr rs \<and> newest_registered rs \<and> distinct (map cred_id rs) \<and>
      set rs = {r. \<exists>i. wb_abs kv i = Some r \<and> cr_UserHandle r = h}"
proof -
  let ?p = "byOperatorPrefix h" and ?n = "length (byOperatorPrefix h)"
  let ?ks = "filter (\<lambda>k. HasPrefix k ?p) ord"
  let ?f = "\<lambda>k. the (wb_abs kv (the (DecodeCredentialID (drop ?n k))))"
  have key: "\<exists>i r. k = byOperatorKey h i \<and> wb_abs kv i = Some r \<and> cr_UserHandle r = h" if "k \<in> set ?ks" for k
  proof -
    from that assms(2) have k: "HasPrefix k ?p" "kv k \<noteq> None" by (auto simp: enumerates_def)
    then have "HasPrefix k byOperatorKeyPrefix" by (auto simp: byOperatorPrefix_def HasPrefix_iff)
    with assms(1) k(2) obtain h' i r where "k = byOperatorKey h' i" "kv (credentialKey i) = Some (VCredential r)" "cr_UserHandle r = h'" unfolding wb_inv_def by blast
    with k(1) show ?thesis by (auto simp: byOperatorPrefix_iff wb_absD)
  qed
  have f: "?f (byOperatorKey h i) = the (wb_abs kv i)" for i by (simp add: byOperatorKey_rest Decode_Encode)
  have id: "cred_id r = i" if "wb_abs kv i = Some r" for i r using assms(1) that unfolding wb_inv_def wb_absD by blast
  have all: "\<forall>k \<in> set ?ks. \<exists>i r. k = byOperatorKey h i \<and> wb_abs kv i = Some r" using key by blast
  have "inj_on (\<lambda>k. cred_id (?f k)) (set ?ks)"
  proof (rule inj_onI)
    fix k k' assume m: "k \<in> set ?ks" "k' \<in> set ?ks" and e: "cred_id (?f k) = cred_id (?f k')"
    obtain i r where i: "k = byOperatorKey h i" "wb_abs kv i = Some r" using key [OF m(1)] by blast
    obtain j r' where j: "k' = byOperatorKey h j" "wb_abs kv j = Some r'" using key [OF m(2)] by blast
    have "cred_id r = cred_id r'" using e i j by (simp only: f option.sel)
    then show "k = k'" using id [OF i(2)] id [OF j(2)] i j by simp
  qed
  then have "distinct (map cred_id (map ?f ?ks))" using assms(2) by (simp add: enumerates_def distinct_map o_def)
  moreover have "set (map ?f ?ks) = {r. \<exists>i. wb_abs kv i = Some r \<and> cr_UserHandle r = h}"
  proof (intro equalityI subsetI)
    fix r assume "r \<in> set (map ?f ?ks)"
    then obtain k where "k \<in> set ?ks" "r = ?f k" by auto
    with key f show "r \<in> {r. \<exists>i. wb_abs kv i = Some r \<and> cr_UserHandle r = h}" by fastforce
  next
    fix r assume "r \<in> {r. \<exists>i. wb_abs kv i = Some r \<and> cr_UserHandle r = h}"
    then obtain i where i: "wb_abs kv i = Some r" "cr_UserHandle r = h" by blast
    then have "byOperatorKey h i \<in> set ?ks" using assms unfolding wb_inv_def enumerates_def wb_absD by (auto simp: byOperatorPrefix_iff)
    then have "?f (byOperatorKey h i) \<in> ?f ` set ?ks" by (rule imageI)
    then show "r \<in> set (map ?f ?ks)" by (simp only: f i option.sel set_map)
  qed
  ultimately show ?thesis using SortByRegistered_ok [of "map ?f ?ks"] wb_collect_index [OF assms(1) all] by (simp add: wb_ListByOperator_def)
qed

interpretation wb: credential_store wb_ops wb_Get wb_ListByOperator Map.empty wb_abs wb_inv "\<lambda>ord kv. enumerates ord kv" True
proof
  show "wb_inv Map.empty" "wb_abs Map.empty = Map.empty" by (simp_all add: wb_inv_def wb_abs_def fun_eq_iff)
  show "wb_Get i kv = (case wb_abs kv i of None \<Rightarrow> Inl ErrCredentialNotFound | Some r \<Rightarrow> Inr r)" if "wb_inv kv" for i kv
    using read_cred_abs [OF that] by (simp add: wb_Get_def)
qed (rule wb_exec_ref, assumption+, rule wb_list_ref)

section \<open>Properties\<close>

text \<open>The two stores agree: over every history of calls that register under a user handle, the in-memory store and the
  BadgerDB store answer alike, and then hold the same credentials.\<close>

theorem credential_stores_agree:
  assumes "list_all cred_op_ok cs" and "cred_run wm_ops (map (Pair True) cs) Map.empty = (es, m)" and "cred_run wb_ops (map (Pair True) cs) Map.empty = (es', kv)"
  shows "es = es' \<and> wm_Get i m = wb_Get i kv"
proof -
  have ok: "list_all (\<lambda>(b, c). cred_op_ok c \<and> (b \<or> f)) (map (Pair True) cs)" for f using assms(1) by (simp add: list_all_iff)
  have "wm_inv m \<and> (es, wm_abs m) = cred_run dir_ops (map (Pair True) cs) Map.empty" using wm.run_ref [OF wm.empty_ref(1) ok assms(2)] by (simp add: wm.empty_ref)
  moreover have "wb_inv kv \<and> (es', wb_abs kv) = cred_run dir_ops (map (Pair True) cs) Map.empty" using wb.run_ref [OF wb.empty_ref(1) ok assms(3)] by (simp add: wb.empty_ref)
  ultimately show ?thesis by (simp add: wm.get_ref wb.get_ref) (metis prod.inject)
qed

definition demo_cred :: credential_record where
  "demo_cred = \<lparr>cr_Credential = \<lparr>wc_ID = ''id1'', wc_SignCount = 4, wc_AAGUID = [], wc_Rest = ''pk''\<rparr>, cr_UserHandle = ''h'', cr_OperatorCN = ''alice'',
     cr_Label = [], cr_BoundCertCN = [], cr_RegisteredAt = 1, cr_RegisteredBy = ''user:alice'', cr_LastUsedAt = 0\<rparr>"

theorem credential_stores_agree_witness:
  "\<exists>es m kv. cred_run wm_ops [(True, CredCreate (Some demo_cred)), (True, CredUpdate ''id1'' 4)] Map.empty = (es, m) \<and>
     cred_run wb_ops [(True, CredCreate (Some demo_cred)), (True, CredUpdate ''id1'' 4)] Map.empty = (es, kv) \<and> wm_Get ''id1'' m = wb_Get ''id1'' kv"
proof -
  let ?cs = "[CredCreate (Some demo_cred), CredUpdate ''id1'' 4]"
  obtain es m where m: "cred_run wm_ops (map (Pair True) ?cs) Map.empty = (es, m)" by fastforce
  obtain es' kv where kv: "cred_run wb_ops (map (Pair True) ?cs) Map.empty = (es', kv)" by fastforce
  have "list_all cred_op_ok ?cs" by (simp add: demo_cred_def)
  from credential_stores_agree [OF this m kv, of "''id1''"] m kv show ?thesis by (intro exI [of _ es] exI [of _ m] exI [of _ kv]) simp
qed



text \<open>Sessions: keys of different subjects or purposes differ, a popped session is gone, and a late one is not returned.\<close>

lemma sessionKey_eq [simp]: "sessionKey u p = sessionKey v q \<longleftrightarrow> u = v \<and> p = q"
  by (cases p; cases q) (auto simp: sessionKey_def)

lemma sess_Pop_once: "sess_Pop now u p st = (r, st') \<Longrightarrow> fst (sess_Pop now' u p st') = None"
  by (auto simp: sess_Pop_def Let_def split: option.splits prod.splits if_splits)

lemma sess_Pop_Put: "fst (sess_Pop t u p (sess_Put now u p d st)) = (if now + st_ttl st < t then None else Some d)"
  by (simp add: sess_Pop_def sess_Put_def Let_def)

lemma sess_Pop_other: "(u, p) \<noteq> (v, q) \<Longrightarrow> fst (sess_Pop t u p (sess_Put now v q d st)) = fst (sess_Pop t u p st)"
  by (auto simp: sess_Pop_def sess_Put_def Let_def split: option.splits prod.splits)

text \<open>The sweep changes no answer.\<close>

lemma sess_Sweep_silent: "now \<le> t \<Longrightarrow> fst (sess_Pop t u p (sess_Sweep now st)) = fst (sess_Pop t u p st)"
  by (auto simp: sess_Pop_def sess_Sweep_def Let_def split: option.splits prod.splits)

end
