(* ===== verification/Webauthn_Api.thy ===== *)
theory Webauthn_Api
  imports Admin_Api Webauthn_Store
begin

text \<open>
  The WebAuthn endpoints (\<open>internal/api/handlers_webauthn.go\<close>) over the credential and session stores and the
  token manager. The server of \<open>Http_Auth\<close> is extended by the two stores and the metadata that the first half
  of a registration leaves for the second. The go-webauthn library is the four functions of \<open>webauthn_lib\<close>;
  times, the order of index scans, the new token ID and whether a transaction commits are arguments.

  The lemmas show what a login must have passed before a token is minted, that a session serves one
  attempt, and that where WebAuthn is enforced every administrative request rests on such a login.
\<close>

section \<open>State and library\<close>

record wa_user =
  wu_handle :: string
  wu_name :: string
  wu_displayName :: string
  wu_credentials :: "credential list"

definition NewUser :: "(string \<Rightarrow> string) \<Rightarrow> string \<Rightarrow> credential list \<Rightarrow> wa_user" where
  "NewUser sha subject creds = \<lparr>wu_handle = UserHandleFor sha subject, wu_name = subject, wu_displayName = subject, wu_credentials = creds\<rparr>"

record webauthn_lib =
  wl_BeginRegistration :: "wa_user \<Rightarrow> string list \<Rightarrow> (string \<times> string) option"
  wl_FinishRegistration :: "wa_user \<Rightarrow> string \<Rightarrow> string \<Rightarrow> credential option"
  wl_BeginLogin :: "wa_user \<Rightarrow> (string \<times> string) option"
  wl_FinishLogin :: "wa_user \<Rightarrow> string \<Rightarrow> string \<Rightarrow> credential option"

record register_metadata =
  rm_label :: string
  rm_boundCertCN :: string
  rm_expires :: time

record 't wa_server = "'t http_server" +
  wa_configured :: bool
  wa_store :: cred_kv
  wa_sessions :: session_store
  wa_regMeta :: "string \<rightharpoonup> register_metadata"

datatype wa_message = WmNotConfigured | WmNoSubject | WmBody | WmList | WmBegin | WmSession | WmVerify | WmStore | WmNoCredentials
  | WmRead | WmReplay | WmLoad | WmMint | WmCredentialID | WmNotFound | WmGet | WmDelete

record credential_item =
  it_CredentialID :: string
  it_Label :: string
  it_OperatorCN :: string
  it_BoundCertCN :: string
  it_RegisteredAt :: time
  it_RegisteredBy :: string
  it_LastUsedAt :: time
  it_AAGUID :: string

datatype wa_response = WaError nat wa_message | WaOptions string | WaRegistered string string | WaToken string string string int string
  | WaCredentials "credential_item list" nat | WaNoContent | WaPanic

definition subjectFromContext :: "http_ctx \<Rightarrow> string" where
  "subjectFromContext cx = (case cx_claims cx of None \<Rightarrow> [] | Some c \<Rightarrow> cl_Subject c)"

definition auditWebAuthn :: "http_ctx \<Rightarrow> http_event \<Rightarrow> ('t, 'm) http_server_scheme \<Rightarrow> ('t, 'm) http_server_scheme" where
  "auditWebAuthn cx e s = snd (http_audit (p_ID (FromContext (cx_principal cx))) e s)"

section \<open>Registration\<close>

record register_begin_request =
  rb_Label :: string
  rb_BoundCertCN :: string

definition stashRegisterMetadata :: "time \<Rightarrow> string \<Rightarrow> register_begin_request \<Rightarrow> 't wa_server \<Rightarrow> 't wa_server" where
  "stashRegisterMetadata now subject q s = s\<lparr>wa_regMeta := (wa_regMeta s)(subject \<mapsto>
     \<lparr>rm_label = TrimSpace (rb_Label q), rm_boundCertCN = TrimSpace (rb_BoundCertCN q), rm_expires = now + 5 * minute\<rparr>)\<rparr>"

definition popRegisterMetadata :: "time \<Rightarrow> string \<Rightarrow> 't wa_server \<Rightarrow> register_metadata option \<times> 't wa_server" where
  "popRegisterMetadata now subject s = (case wa_regMeta s subject of None \<Rightarrow> (None, s)
     | Some meta \<Rightarrow> (if rm_expires meta < now then None else Some meta, s\<lparr>wa_regMeta := (wa_regMeta s)(subject := None)\<rparr>))"

text \<open>\<open>body\<close> is \<open>None\<close> for a request without a body, and holds the decoded request or the failure to decode it.\<close>

definition handleWebAuthnRegisterBegin :: "webauthn_lib \<Rightarrow> (string \<Rightarrow> string) \<Rightarrow> string list \<Rightarrow> time \<Rightarrow> register_begin_request option option \<Rightarrow> http_request \<Rightarrow> http_ctx
    \<Rightarrow> 't wa_server \<Rightarrow> wa_response outcome \<times> 't wa_server" where
  "handleWebAuthnRegisterBegin L sha ord now body r cx s =
     (if \<not> wa_configured s then (Served (WaError 503 WmNotConfigured), s)
      else let subject = subjectFromContext cx in
      if subject = [] then (Served (WaError 401 WmNoSubject), s)
      else (case (case body of None \<Rightarrow> Some \<lparr>rb_Label = [], rb_BoundCertCN = []\<rparr> | Some q \<Rightarrow> q) of
          None \<Rightarrow> (Served (WaError 400 WmBody), s)
        | Some q \<Rightarrow> (case wb_ListByOperator ord (UserHandleFor sha subject) (wa_store s) of
            Inl e \<Rightarrow> (Served (WaError 500 WmList), s)
          | Inr existing \<Rightarrow>
             let creds = map cr_Credential existing in
             (case wl_BeginRegistration L (NewUser sha subject creds) (map wc_ID creds) of
                None \<Rightarrow> (Served (WaError 500 WmBegin), auditWebAuthn cx (HevWebAuthnRegisterReject subject ''begin_registration'') s)
              | Some (options, session) \<Rightarrow>
                  (Served (WaOptions options),
                   stashRegisterMetadata now subject q (s\<lparr>wa_sessions := sess_Put now subject PurposeRegister session (wa_sessions s)\<rparr>))))))"

definition handleWebAuthnRegisterFinish :: "webauthn_lib \<Rightarrow> (string \<Rightarrow> string) \<Rightarrow> bool \<Rightarrow> time \<Rightarrow> string \<Rightarrow> http_request \<Rightarrow> http_ctx
    \<Rightarrow> 't wa_server \<Rightarrow> wa_response outcome \<times> 't wa_server" where
  "handleWebAuthnRegisterFinish L sha commit now body r cx s =
     (if \<not> wa_configured s then (Served (WaError 503 WmNotConfigured), s)
      else let subject = subjectFromContext cx in
      if subject = [] then (Served (WaError 401 WmNoSubject), s)
      else (case sess_Pop now subject PurposeRegister (wa_sessions s) of
          (None, st) \<Rightarrow> (Served (WaError 400 WmSession), auditWebAuthn cx (HevWebAuthnRegisterReject subject ''session_expired'') (s\<lparr>wa_sessions := st\<rparr>))
        | (Some session, st) \<Rightarrow>
           let s = s\<lparr>wa_sessions := st\<rparr> in
           (case wl_FinishRegistration L (NewUser sha subject []) session body of
              None \<Rightarrow> (Served (WaError 400 WmVerify), auditWebAuthn cx (HevWebAuthnRegisterReject subject ''finish_registration'') s)
            | Some credential \<Rightarrow> (case popRegisterMetadata now subject s of (metao, s) \<Rightarrow>
                let meta = (case metao of None \<Rightarrow> \<lparr>rm_label = [], rm_boundCertCN = [], rm_expires = 0\<rparr> | Some m \<Rightarrow> m);
                    rec = \<lparr>cr_Credential = credential, cr_UserHandle = UserHandleFor sha subject, cr_OperatorCN = subject, cr_Label = rm_label meta,
                           cr_BoundCertCN = rm_boundCertCN meta, cr_RegisteredAt = now, cr_RegisteredBy = p_ID (FromContext (cx_principal cx)), cr_LastUsedAt = 0\<rparr> in
                (case wb_Create commit (Some rec) (wa_store s) of
                   (Some e, kv) \<Rightarrow> (Served (WaError 500 WmStore), auditWebAuthn cx (HevWebAuthnRegisterReject subject ''store_create'') (s\<lparr>wa_store := kv\<rparr>))
                 | (None, kv) \<Rightarrow> (Served (WaRegistered (EncodeCredentialID (wc_ID credential)) (cr_Label rec)),
                     auditWebAuthn cx (HevWebAuthnRegistered subject (EncodeCredentialID (wc_ID credential)) (cr_Label rec) (cr_BoundCertCN rec) (cr_RegisteredBy rec))
                       (s\<lparr>wa_store := kv\<rparr>)))))))"

section \<open>Login\<close>

definition handleWebAuthnLoginBegin :: "webauthn_lib \<Rightarrow> (string \<Rightarrow> string) \<Rightarrow> string list \<Rightarrow> time \<Rightarrow> http_request \<Rightarrow> http_ctx
    \<Rightarrow> 't wa_server \<Rightarrow> wa_response outcome \<times> 't wa_server" where
  "handleWebAuthnLoginBegin L sha ord now r cx s =
     (if \<not> wa_configured s then (Served (WaError 503 WmNotConfigured), s)
      else let subject = subjectFromContext cx in
      if subject = [] then (Served (WaError 401 WmNoSubject), s)
      else (case wb_ListByOperator ord (UserHandleFor sha subject) (wa_store s) of
          Inl e \<Rightarrow> (Served (WaError 500 WmList), s)
        | Inr existing \<Rightarrow>
           if existing = [] then (Served (WaError 400 WmNoCredentials), s)
           else (case wl_BeginLogin L (NewUser sha subject (map cr_Credential existing)) of
              None \<Rightarrow> (Served (WaError 500 WmBegin), s)
            | Some (assertion, session) \<Rightarrow>
                (Served (WaOptions assertion), s\<lparr>wa_sessions := sess_Put now subject PurposeLogin session (wa_sessions s)\<rparr>))))"

definition webauthnTTL :: duration where
  "webauthnTTL = 15 * minute"

text \<open>The claims of a WebAuthn token: the caller's role and the certificate that the credential is bound to.\<close>

definition login_claims :: "string \<Rightarrow> http_ctx \<Rightarrow> credential_record \<Rightarrow> token_claims" where
  "login_claims subject cx stored = \<lparr>tc_Subject = subject, tc_Role = (case cx_claims cx of Some c \<Rightarrow> cl_Role c | None \<Rightarrow> ''user''),
     tc_RequiredCN = cr_BoundCertCN stored, tc_AuthMethod = ''webauthn'', tc_TTL = webauthnTTL\<rparr>"

text \<open>From a verified assertion on. A missing token manager would be dereferenced.\<close>

definition mint_login :: "'t token_store \<Rightarrow> jwt \<Rightarrow> bool \<Rightarrow> time \<Rightarrow> time \<Rightarrow> string \<Rightarrow> string \<Rightarrow> credential \<Rightarrow> http_ctx
    \<Rightarrow> 't wa_server \<Rightarrow> wa_response outcome \<times> 't wa_server" where
  "mint_login ops J commit now now' jti subject credential cx s =
     (case wb_UpdateSignCount commit (wc_ID credential) (wc_SignCount credential) (wa_store s) of
        (Some e, kv) \<Rightarrow> (Served (WaError 401 WmReplay), auditWebAuthn cx (HevWebAuthnLoginReject subject ''sign_count'') (s\<lparr>wa_store := kv\<rparr>))
      | (None, kv) \<Rightarrow>
         let s = s\<lparr>wa_store := kv\<rparr> in
         (case wb_Get (wc_ID credential) (wa_store s) of
            Inl e \<Rightarrow> (Served (WaError 500 WmLoad), s)
          | Inr stored \<Rightarrow> (case hs_tokenManager s of None \<Rightarrow> (Served WaPanic, s)
             | Some tm \<Rightarrow> (case GenerateTokenWithClaims ops J now jti (login_claims subject cx stored) tm of
                  (Inl e, tm) \<Rightarrow> (Served (WaError 500 WmMint), s\<lparr>hs_tokenManager := Some tm\<rparr>)
                | (Inr token, tm) \<Rightarrow> (case ValidateToken ops J now' token tm of (v, tm) \<Rightarrow>
                     (Served (WaToken token subject (tc_Role (login_claims subject cx stored)) (webauthnTTL div second) (EncodeCredentialID (wc_ID credential))),
                      auditWebAuthn cx (HevWebAuthnAuthenticated subject (EncodeCredentialID (wc_ID credential)) (case v of Inl _ \<Rightarrow> [] | Inr c \<Rightarrow> cl_ID c))
                        (s\<lparr>hs_tokenManager := Some tm\<rparr>)))))))"

definition handleWebAuthnLoginFinish :: "webauthn_lib \<Rightarrow> (string \<Rightarrow> string) \<Rightarrow> 't token_store \<Rightarrow> jwt \<Rightarrow> string list \<Rightarrow> bool \<Rightarrow> time \<Rightarrow> time \<Rightarrow> string
    \<Rightarrow> string option \<Rightarrow> http_request \<Rightarrow> http_ctx \<Rightarrow> 't wa_server \<Rightarrow> wa_response outcome \<times> 't wa_server" where
  "handleWebAuthnLoginFinish L sha ops J ord commit now now' jti bodyo r cx s =
     (if \<not> wa_configured s then (Served (WaError 503 WmNotConfigured), s)
      else let subject = subjectFromContext cx in
      if subject = [] then (Served (WaError 401 WmNoSubject), s)
      else (case sess_Pop now subject PurposeLogin (wa_sessions s) of
          (None, st) \<Rightarrow> (Served (WaError 400 WmSession), auditWebAuthn cx (HevWebAuthnLoginReject subject ''session_expired'') (s\<lparr>wa_sessions := st\<rparr>))
        | (Some session, st) \<Rightarrow>
           let s = s\<lparr>wa_sessions := st\<rparr> in
           (case bodyo of None \<Rightarrow> (Served (WaError 400 WmRead), s)
            | Some body \<Rightarrow> (case wb_ListByOperator ord (UserHandleFor sha subject) (wa_store s) of
                Inl e \<Rightarrow> (Served (WaError 500 WmList), s)
              | Inr existing \<Rightarrow> (case wl_FinishLogin L (NewUser sha subject (map cr_Credential existing)) session body of
                   None \<Rightarrow> (Served (WaError 401 WmVerify), auditWebAuthn cx (HevWebAuthnLoginReject subject ''finish_login'') s)
                 | Some credential \<Rightarrow> mint_login ops J commit now now' jti subject credential cx s)))))"

section \<open>Administration of credentials\<close>

definition item_of :: "credential_record \<Rightarrow> credential_item" where
  "item_of rec = \<lparr>it_CredentialID = EncodeCredentialID (cred_id rec), it_Label = cr_Label rec, it_OperatorCN = cr_OperatorCN rec, it_BoundCertCN = cr_BoundCertCN rec,
     it_RegisteredAt = cr_RegisteredAt rec, it_RegisteredBy = cr_RegisteredBy rec, it_LastUsedAt = cr_LastUsedAt rec, it_AAGUID = wc_AAGUID (cr_Credential rec)\<rparr>"

definition handleWebAuthnListCredentials :: "string list \<Rightarrow> http_request \<Rightarrow> http_ctx \<Rightarrow> 't wa_server \<Rightarrow> wa_response outcome \<times> 't wa_server" where
  "handleWebAuthnListCredentials ord r cx s =
     (if \<not> wa_configured s then (Served (WaError 503 WmNotConfigured), s)
      else case wb_List ord (wa_store s) of Inl e \<Rightarrow> (Served (WaError 500 WmList), s)
      | Inr all \<Rightarrow> (Served (WaCredentials (map item_of all) (length all)), s))"

definition handleWebAuthnRevokeCredential :: "bool \<Rightarrow> string \<Rightarrow> string \<Rightarrow> http_request \<Rightarrow> http_ctx \<Rightarrow> 't wa_server \<Rightarrow> wa_response outcome \<times> 't wa_server" where
  "handleWebAuthnRevokeCredential commit idStr reason r cx s =
     (if \<not> wa_configured s then (Served (WaError 503 WmNotConfigured), s)
      else case DecodeCredentialID idStr of None \<Rightarrow> (Served (WaError 400 WmCredentialID), s)
      | Some credID \<Rightarrow> (case wb_Get credID (wa_store s) of
           Inl e \<Rightarrow> (Served (if e = ErrCredentialNotFound then WaError 404 WmNotFound else WaError 500 WmGet), s)
         | Inr existing \<Rightarrow> (case wb_Delete commit credID (wa_store s) of
              (Some e, kv) \<Rightarrow> (Served (WaError 500 WmDelete), s\<lparr>wa_store := kv\<rparr>)
            | (None, kv) \<Rightarrow> (Served WaNoContent,
                auditWebAuthn cx (HevWebAuthnRevoked (EncodeCredentialID (cred_id existing)) (cr_OperatorCN existing) (p_ID (FromContext (cx_principal cx))) (TrimSpace reason))
                  (s\<lparr>wa_store := kv\<rparr>)))))"

section \<open>What a login must have passed\<close>

lemma mint_login_token:
  assumes "mint_login ops J commit now now' jti subject credential cx s = (Served (WaToken tok u role ttl cid), s')"
  obtains tm kv stored where "hs_tokenManager s = Some tm" "wb_UpdateSignCount commit (wc_ID credential) (wc_SignCount credential) (wa_store s) = (None, kv)"
    "wb_Get (wc_ID credential) kv = Inr stored" "tok = jw_Sign J (tm_secret tm) (claims_of now jti (login_claims subject cx stored))" "u = subject"
proof -
  obtain e kv where u: "wb_UpdateSignCount commit (wc_ID credential) (wc_SignCount credential) (wa_store s) = (e, kv)" by fastforce
  have e: "e = None" using assms u by (cases e) (simp_all add: mint_login_def)
  obtain stored where g: "wb_Get (wc_ID credential) kv = Inr stored" using assms u e by (cases "wb_Get (wc_ID credential) kv") (simp_all add: mint_login_def)
  obtain tm where tm: "hs_tokenManager s = Some tm" using assms u e g by (cases "hs_tokenManager s") (simp_all add: mint_login_def)
  obtain x tm' where x: "GenerateTokenWithClaims ops J now jti (login_claims subject cx stored) tm = (x, tm')" by fastforce
  have "x = Inr tok \<and> u = subject" using assms u e g tm x by (cases x) (simp_all add: mint_login_def split: prod.splits)
  moreover from this x have "tok = jw_Sign J (tm_secret tm) (claims_of now jti (login_claims subject cx stored))"
    by (simp add: GenerateTokenWithClaims_def Let_def split: prod.splits bool.splits)
  ultimately show thesis using that u e g tm by blast
qed

lemma mint_login_sessions: "mint_login ops J commit now now' jti subject credential cx s = (x, s') \<Longrightarrow> wa_sessions s' = wa_sessions s"
  by (auto simp: mint_login_def auditWebAuthn_def http_audit_def Let_def split: prod.splits option.splits sum.splits)

text \<open>A token leaves the second half of a login only if an unexpired session of the caller was taken, the
  library verified the assertion against it and the caller's credentials, and the signature counter
  advanced. The token names the caller and binds the certificate of the stored credential.\<close>

lemma login_token:
  assumes "handleWebAuthnLoginFinish L sha ops J ord commit now now' jti bodyo r cx s = (Served (WaToken tok u role ttl cid), s')"
  obtains session st body existing credential kv stored tm where
    "u = subjectFromContext cx" "sess_Pop now u PurposeLogin (wa_sessions s) = (Some session, st)" "bodyo = Some body"
    "wb_ListByOperator ord (UserHandleFor sha u) (wa_store s) = Inr existing"
    "wl_FinishLogin L (NewUser sha u (map cr_Credential existing)) session body = Some credential"
    "wb_UpdateSignCount commit (wc_ID credential) (wc_SignCount credential) (wa_store s) = (None, kv)" "wb_Get (wc_ID credential) kv = Inr stored"
    "hs_tokenManager s = Some tm" "tok = jw_Sign J (tm_secret tm) (claims_of now jti (login_claims u cx stored))" "wa_sessions s' = st"
proof -
  let ?u = "subjectFromContext cx"
  obtain p st where p: "sess_Pop now ?u PurposeLogin (wa_sessions s) = (p, st)" by fastforce
  let ?s = "s\<lparr>wa_sessions := st\<rparr>"
  from assms p obtain session body existing credential where h: "p = Some session" "bodyo = Some body"
      "wb_ListByOperator ord (UserHandleFor sha ?u) (wa_store s) = Inr existing"
      "wl_FinishLogin L (NewUser sha ?u (map cr_Credential existing)) session body = Some credential"
      "mint_login ops J commit now now' jti ?u credential cx ?s = (Served (WaToken tok u role ttl cid), s')"
    by (auto simp: handleWebAuthnLoginFinish_def Let_def split: if_splits option.splits sum.splits)
  from mint_login_token [OF h(5)] obtain tm kv stored where m: "hs_tokenManager s = Some tm"
      "wb_UpdateSignCount commit (wc_ID credential) (wc_SignCount credential) (wa_store s) = (None, kv)" "wb_Get (wc_ID credential) kv = Inr stored"
      "tok = jw_Sign J (tm_secret tm) (claims_of now jti (login_claims ?u cx stored))" "u = ?u"
    by auto
  have "wa_sessions s' = st" using mint_login_sessions [OF h(5)] by simp
  with that p h m show thesis by metis
qed

text \<open>A session serves one attempt: whatever the outcome of a login that found one, a further attempt of the
  same caller finds none.\<close>

lemma login_session_once:
  assumes "handleWebAuthnLoginFinish L sha ops J ord commit now now' jti bodyo r cx s = (x, s')" and "wa_configured s" and "subjectFromContext cx = u" and "u \<noteq> []"
  shows "fst (sess_Pop t u PurposeLogin (wa_sessions s')) = None"
proof -
  obtain p st where p: "sess_Pop now u PurposeLogin (wa_sessions s) = (p, st)" by fastforce
  have "wa_sessions s' = st"
    using assms p
    by (auto simp: handleWebAuthnLoginFinish_def auditWebAuthn_def http_audit_def Let_def dest: mint_login_sessions split: if_splits option.splits sum.splits)
  with sess_Pop_once [OF p] show ?thesis by simp
qed

section \<open>Histories\<close>

text \<open>A history of the server, with the claims of every token it has handed out and, for those of a login, the login: the
  time, the subject and the assertion. Tokens leave the server through the token endpoint, the rotation of the root
  token at start-up and the second half of a login; a step of any other kind changes anything but
  the sessions.\<close>

record login =
  lg_time :: time
  lg_subject :: string
  lg_body :: string

inductive wa_hist :: "webauthn_lib \<Rightarrow> (string \<Rightarrow> string) \<Rightarrow> 't token_store \<Rightarrow> jwt \<Rightarrow> 't wa_server \<Rightarrow> (claims \<times> login option) list \<Rightarrow> bool"
  for L sha ops J where
  wh_start: "st_data (wa_sessions s) = Map.empty \<Longrightarrow> wa_hist L sha ops J s []"
| wh_other: "wa_hist L sha ops J s h \<Longrightarrow> wa_sessions s' = wa_sessions s \<Longrightarrow> wa_hist L sha ops J s' h"
| wh_sweep: "wa_hist L sha ops J s h \<Longrightarrow> wa_hist L sha ops J (s\<lparr>wa_sessions := sess_Sweep now (wa_sessions s)\<rparr>) h"
| wh_issue: "wa_hist L sha ops J s h \<Longrightarrow> handleIssueToken ops J now jti allowed bodyq r cx s = (Served (AdmToken tok sub role ttl cn), s') \<Longrightarrow>
    tok = jw_Sign J k c \<Longrightarrow> wa_sessions s' = wa_sessions s \<Longrightarrow> wa_hist L sha ops J s' ((c, None) # h)"
| wh_rotate: "wa_hist L sha ops J s h \<Longrightarrow> hs_tokenManager s = Some tm \<Longrightarrow> RotateRootToken ops J now jti tm = (Inr tok, tm') \<Longrightarrow>
    tok = jw_Sign J k c \<Longrightarrow> wa_hist L sha ops J (s\<lparr>hs_tokenManager := Some tm'\<rparr>) ((c, None) # h)"
| wh_register_begin: "wa_hist L sha ops J s h \<Longrightarrow> handleWebAuthnRegisterBegin L sha ord now bodyr r cx s = (x, s') \<Longrightarrow> wa_hist L sha ops J s' h"
| wh_register_finish: "wa_hist L sha ops J s h \<Longrightarrow> handleWebAuthnRegisterFinish L sha commit now body r cx s = (x, s') \<Longrightarrow> wa_hist L sha ops J s' h"
| wh_login_begin: "wa_hist L sha ops J s h \<Longrightarrow> handleWebAuthnLoginBegin L sha ord now r cx s = (x, s') \<Longrightarrow> wa_hist L sha ops J s' h"
| wh_login_refused: "wa_hist L sha ops J s h \<Longrightarrow> handleWebAuthnLoginFinish L sha ops J ord commit now now' jti bodyo r cx s = (x, s') \<Longrightarrow>
    (\<nexists>tok u role ttl cid. x = Served (WaToken tok u role ttl cid)) \<Longrightarrow> wa_hist L sha ops J s' h"
| wh_login: "wa_hist L sha ops J s h \<Longrightarrow>
    handleWebAuthnLoginFinish L sha ops J ord commit now now' jti (Some body) r cx s = (Served (WaToken tok u role ttl cid), s') \<Longrightarrow>
    tok = jw_Sign J k c \<Longrightarrow> wa_hist L sha ops J s' ((c, Some \<lparr>lg_time = now, lg_subject = u, lg_body = body\<rparr>) # h)"

text \<open>The challenge of a session was made by the library for that subject; the login was verified against such a challenge.\<close>

definition begun :: "webauthn_lib \<Rightarrow> (string \<Rightarrow> string) \<Rightarrow> string \<Rightarrow> string \<Rightarrow> bool" where
  "begun L sha u d \<longleftrightarrow> (\<exists>creds a. creds \<noteq> [] \<and> wl_BeginLogin L (NewUser sha u creds) = Some (a, d))"

definition earned :: "webauthn_lib \<Rightarrow> (string \<Rightarrow> string) \<Rightarrow> claims \<Rightarrow> login \<Rightarrow> bool" where
  "earned L sha c l \<longleftrightarrow> cl_Subject c = lg_subject l \<and> cl_ExpiresAt c \<le> lg_time l + webauthnTTL \<and>
     (\<exists>creds session credential. begun L sha (lg_subject l) session \<and>
        wl_FinishLogin L (NewUser sha (lg_subject l) creds) session (lg_body l) = Some credential)"

definition wa_inv :: "webauthn_lib \<Rightarrow> (string \<Rightarrow> string) \<Rightarrow> 't wa_server \<Rightarrow> (claims \<times> login option) list \<Rightarrow> bool" where
  "wa_inv L sha s h \<longleftrightarrow> (\<forall>u d e. st_data (wa_sessions s) (sessionKey u PurposeLogin) = Some (d, e) \<longrightarrow> begun L sha u d) \<and>
     (\<forall>(c, lo) \<in> set h. case lo of None \<Rightarrow> cl_AuthMethod c = [] | Some l \<Rightarrow> earned L sha c l)"

text \<open>A change of the sessions that only removes logins keeps the invariant.\<close>

definition fewer :: "session_store \<Rightarrow> session_store \<Rightarrow> bool" where
  "fewer st' st \<longleftrightarrow> (\<forall>u. st_data st' (sessionKey u PurposeLogin) = None \<or> st_data st' (sessionKey u PurposeLogin) = st_data st (sessionKey u PurposeLogin))"

lemma fewer_refl [simp]: "fewer st st"
  by (simp add: fewer_def)

lemma fewer_Pop: "sess_Pop now u p st = (x, st') \<Longrightarrow> fewer st' st"
  by (auto simp: fewer_def sess_Pop_def Let_def split: option.splits prod.splits if_splits)

lemma fewer_Put_register: "fewer (sess_Put now u PurposeRegister d st) st"
  by (simp add: fewer_def sess_Put_def)

lemma fewer_Sweep: "fewer (sess_Sweep now st) st"
  by (auto simp: fewer_def sess_Sweep_def split: option.splits)

lemma wa_inv_fewer: "wa_inv L sha s h \<Longrightarrow> fewer (wa_sessions s') (wa_sessions s) \<Longrightarrow> wa_inv L sha s' h"
  unfolding wa_inv_def fewer_def by (metis option.distinct(1))

lemma wa_inv_mint: "wa_inv L sha s h \<Longrightarrow> (case lo of None \<Rightarrow> cl_AuthMethod c = [] | Some l \<Rightarrow> earned L sha c l) \<Longrightarrow> wa_inv L sha s ((c, lo) # h)"
  by (simp add: wa_inv_def)

lemma auditWebAuthn_sessions [simp]: "wa_sessions (auditWebAuthn cx e s) = wa_sessions s"
  by (simp add: auditWebAuthn_def http_audit_def split: option.splits)

lemma register_begin_fewer:
  assumes "handleWebAuthnRegisterBegin L sha ord now bodyr r cx s = (x, s')"
  shows "fewer (wa_sessions s') (wa_sessions s)"
  using assms by (auto simp: handleWebAuthnRegisterBegin_def stashRegisterMetadata_def fewer_Put_register Let_def split: if_splits option.splits sum.splits prod.splits)

lemma popRegisterMetadata_sessions: "popRegisterMetadata now u s = (m, s') \<Longrightarrow> wa_sessions s' = wa_sessions s"
  by (auto simp: popRegisterMetadata_def split: option.splits)

lemma register_finish_fewer:
  assumes "handleWebAuthnRegisterFinish L sha commit now body r cx s = (x, s')"
  shows "fewer (wa_sessions s') (wa_sessions s)"
proof -
  obtain p st where p: "sess_Pop now (subjectFromContext cx) PurposeRegister (wa_sessions s) = (p, st)" by fastforce
  have "wa_sessions s' = st \<or> wa_sessions s' = wa_sessions s"
    using assms p
    by (auto simp: handleWebAuthnRegisterFinish_def Let_def dest!: popRegisterMetadata_sessions split: if_splits option.splits sum.splits prod.splits)
  with fewer_Pop [OF p] show ?thesis by auto
qed

lemma login_finish_fewer:
  assumes "handleWebAuthnLoginFinish L sha ops J ord commit now now' jti bodyo r cx s = (x, s')"
  shows "fewer (wa_sessions s') (wa_sessions s)"
proof -
  obtain p st where p: "sess_Pop now (subjectFromContext cx) PurposeLogin (wa_sessions s) = (p, st)" by fastforce
  have "wa_sessions s' = st \<or> wa_sessions s' = wa_sessions s"
    using assms p by (auto simp: handleWebAuthnLoginFinish_def Let_def dest: mint_login_sessions split: if_splits option.splits sum.splits)
  with fewer_Pop [OF p] show ?thesis by auto
qed

lemma login_begin_inv:
  assumes "handleWebAuthnLoginBegin L sha ord now r cx s = (x, s')" and "wa_inv L sha s h"
  shows "wa_inv L sha s' h"
proof (cases "wa_sessions s' = wa_sessions s")
  case False
  let ?u = "subjectFromContext cx"
  from False assms(1) obtain existing where e: "wb_ListByOperator ord (UserHandleFor sha ?u) (wa_store s) = Inr existing" "existing \<noteq> []"
    by (auto simp: handleWebAuthnLoginBegin_def Let_def split: if_splits sum.splits)
  with False assms(1) obtain a d where b: "wl_BeginLogin L (NewUser sha ?u (map cr_Credential existing)) = Some (a, d)"
      "wa_sessions s' = sess_Put now ?u PurposeLogin d (wa_sessions s)"
    by (auto simp: handleWebAuthnLoginBegin_def Let_def split: if_splits option.splits)
  from e(2) b(1) have "begun L sha ?u d" unfolding begun_def by (metis map_is_Nil_conv)
  with assms(2) b(2) show ?thesis by (auto simp: wa_inv_def sess_Put_def)
qed (use wa_inv_fewer [OF assms(2), of s'] in simp)

lemma RotateRootToken_signs:
  assumes "RotateRootToken ops J now jti tm = (Inr tok, tm')"
  shows "\<exists>k. tok = jw_Sign J k (claims_of now jti \<lparr>tc_Subject = ''root'', tc_Role = ''admin'', tc_RequiredCN = [], tc_AuthMethod = [], tc_TTL = RootTokenExpiry\<rparr>)"
  using assms by (auto simp: RotateRootToken_def GenerateToken_def dest: GenerateTokenWithCN_Inr split: prod.splits sum.splits bool.splits)

lemma jw_Sign_inject: "jwt_law J \<Longrightarrow> jw_Sign J k c = jw_Sign J k' c' \<Longrightarrow> c = c'"
  using signed_claims [of J k "cl_ExpiresAt c - 1" k' c' c] unfolding jwt_law_def by (metis diff_less zless_add1_eq int_one_le_iff_zero_less zle_diff1_eq order_refl)

lemma NewNumericDate_le: "NewNumericDate t \<le> t"
  by (simp add: NewNumericDate_def minus_mod_eq_div_mult [symmetric])

lemma wa_hist_inv:
  assumes "wa_hist L sha ops J s h" and "jwt_law J"
  shows "wa_inv L sha s h"
  using assms(1)
proof (induction rule: wa_hist.induct)
  case (wh_start s)
  then show ?case by (simp add: wa_inv_def)
next
  case (wh_other s h s')
  then show ?case using wa_inv_fewer [OF wh_other.IH, of s'] by simp
next
  case (wh_sweep s h now)
  then show ?case by (intro wa_inv_fewer [OF wh_sweep.IH]) (simp add: fewer_Sweep)
next
  case (wh_issue s h now jti allowed bodyq r cx tok sub role ttl cn s' k c)
  have "cl_AuthMethod c = []" using handleIssueToken_served [OF wh_issue.hyps(2)] jw_Sign_inject [OF assms(2)] wh_issue.hyps(3) by (metis claims_of_def claims.select_convs(7) token_claims.select_convs(4))
  then show ?case using wa_inv_fewer [OF wh_issue.IH, of s'] wh_issue.hyps(4) by (intro wa_inv_mint) simp_all
next
  case (wh_rotate s h tm now jti tok tm' k c)
  have "cl_AuthMethod c = []" using RotateRootToken_signs [OF wh_rotate.hyps(3)] jw_Sign_inject [OF assms(2)] wh_rotate.hyps(4) by (fastforce simp: claims_of_def)
  then show ?case using wa_inv_fewer [OF wh_rotate.IH, of "s\<lparr>hs_tokenManager := Some tm'\<rparr>"] by (intro wa_inv_mint) simp_all
next
  case (wh_login s h ord commit now now' jti body r cx tok u role ttl cid s' k c)
  show ?case
  proof (rule login_token [OF wh_login.hyps(2)])
    fix session st body' existing credential kv stored tm
    assume b: "Some body = Some body'" and l: "sess_Pop now u PurposeLogin (wa_sessions s) = (Some session, st)"
      "wl_FinishLogin L (NewUser sha u (map cr_Credential existing)) session body' = Some credential"
      "tok = jw_Sign J (tm_secret tm) (claims_of now jti (login_claims u cx stored))"
    have c: "c = claims_of now jti (login_claims u cx stored)" using jw_Sign_inject [OF assms(2)] l(3) wh_login.hyps(3) by metis
    have "begun L sha u session" using wh_login.IH l(1) by (auto simp: wa_inv_def sess_Pop_def Let_def split: option.splits prod.splits if_splits)
    moreover have "cl_Subject c = u" "cl_ExpiresAt c \<le> now + webauthnTTL" by (simp_all add: c claims_of_def login_claims_def NewNumericDate_le)
    ultimately have "earned L sha c \<lparr>lg_time = now, lg_subject = u, lg_body = body\<rparr>" using l(2) b unfolding earned_def by auto
    then show ?thesis using wa_inv_fewer [OF wh_login.IH login_finish_fewer [OF wh_login.hyps(2)]] by (intro wa_inv_mint) simp_all
  qed
qed (blast intro: wa_inv_fewer register_begin_fewer register_finish_fewer login_finish_fewer login_begin_inv)+

section \<open>Administrators behind a security key\<close>

lemma admin_route_claims:
  assumes "hs_tokenManager s = Some tm" and "admin_route ops J now errText lookup probe r s = (Served cx, s')"
  shows "\<exists>c tm'. cx_claims cx = Some c \<and> ValidateToken ops J now (drop 7 (hr_Authorization r)) tm = (Inr c, tm')"
proof -
  have auth: "\<exists>c tm'. cx_claims cx = Some c \<and> ValidateToken ops J now (drop 7 (hr_Authorization r)) tm = (Inr c, tm')"
    if "hs_tokenManager s1 = Some tm" and "authMiddleware ops J now errText lookup (adminMiddleware probe) r cx1 s1 = (Served cx, s')" for cx1 s1
  proof -
    obtain x tm' where v: "ValidateToken ops J now (drop 7 (hr_Authorization r)) tm = (x, tm')" by fastforce
    have adm: "adminMiddleware probe r cx2 s2 = (Served cx, s3) \<Longrightarrow> cx = cx2" for cx2 s2 s3
      by (auto simp: adminMiddleware_def probe_def Let_def split: prod.splits option.splits if_splits)
    from that v show ?thesis by (cases x) (auto simp: authMiddleware_def bind_and_serve_def Let_def dest!: adm split: if_splits)
  qed
  show ?thesis
  proof (cases rule: Handler_cases [of "authMiddleware ops J now errText lookup (adminMiddleware probe)" r s])
    case (refused m s1)
    with assms(2) show ?thesis by (simp add: admin_route_def)
  next
    case (plain s1)
    with assms auth [of s1 empty_ctx] show ?thesis by (simp add: admin_route_def)
  next
    case (operator cn serial)
    with assms auth [of s "operator_ctx cn"] show ?thesis by (simp add: admin_route_def)
  qed
qed

text \<open>C9. Where WebAuthn is enforced, every administrative request outside the ceremonies rests on a recent login with a
  security key: after any history of the server, if a token that nobody forged is served, it was handed out by the
  login endpoint to the subject it names, less than fifteen minutes before, after the library had verified an
  assertion of that subject's credentials against a challenge it had made for that subject.\<close>

theorem admin_rests_on_login:
  assumes "jwt_law J" and "wa_hist L sha ops J s h" and "hs_tokenManager s = Some tm" and "hs_webauthnTier s = TierOn"
    and "\<not> isWebAuthnBootstrapPath (hr_Path r)"
    and "\<forall>t c. jw_Parse J (tm_secret tm) t (drop 7 (hr_Authorization r)) = Some c \<longrightarrow> c \<in> fst ` set h"
    and "admin_route ops J now errText lookup probe r s = (Served cx, s')"
  shows "\<exists>c l. cx_claims cx = Some c \<and> (c, Some l) \<in> set h \<and> cl_Subject c = lg_subject l \<and> cl_Role c = ''admin'' \<and> now < lg_time l + 15 * minute \<and>
    (\<exists>creds session credential. begun L sha (lg_subject l) session \<and>
       wl_FinishLogin L (NewUser sha (lg_subject l) creds) session (lg_body l) = Some credential)"
proof -
  obtain c tm' where c: "cx_claims cx = Some c" "ValidateToken ops J now (drop 7 (hr_Authorization r)) tm = (Inr c, tm')"
    using admin_route_claims [OF assms(3,7)] by blast
  have a: "cl_Role c = ''admin''" "cl_AuthMethod c = ''webauthn''"
    using admin_route_served [OF assms(3), of ops J now errText lookup r] assms(4,5,7) c(2) by auto
  have p: "jw_Parse J (tm_secret tm) now (drop 7 (hr_Authorization r)) = Some c" using ValidateToken_Inr [OF c(2)] by metis
  then have "now < cl_ExpiresAt c" using assms(1) unfolding jwt_law_def by blast
  moreover obtain lo where lo: "(c, lo) \<in> set h" using p assms(6) by force
  moreover from wa_hist_inv [OF assms(2,1)] lo have o: "case lo of None \<Rightarrow> cl_AuthMethod c = [] | Some l \<Rightarrow> earned L sha c l" by (auto simp: wa_inv_def)
  moreover obtain l where "lo = Some l" using o a(2) by (cases lo) auto
  ultimately show ?thesis using c(1) a(1) unfolding earned_def webauthnTTL_def by fastforce
qed

text \<open>A login at time 0 with one registered key, and a request five nanoseconds later.\<close>

definition demo_wl :: webauthn_lib where
  "demo_wl = \<lparr>wl_BeginRegistration = (\<lambda>_ _. None), wl_FinishRegistration = (\<lambda>_ _ _. None),
     wl_BeginLogin = (\<lambda>u. if wu_credentials u = [] then None else Some (''options'', ''challenge'')),
     wl_FinishLogin = (\<lambda>u d b. if d = ''challenge'' \<and> b = ''assertion'' then Some ((cr_Credential demo_cred)\<lparr>wc_SignCount := 9\<rparr>) else None)\<rparr>"

definition demo_wa_store :: cred_kv where
  "demo_wa_store = [credentialKey ''id1'' \<mapsto> VCredential demo_cred, byOperatorKey ''h'' ''id1'' \<mapsto> VMarker]"

definition demo_wa_base :: "badger_kv token_manager \<Rightarrow> cred_kv \<Rightarrow> session_store \<Rightarrow> http_sink \<Rightarrow> badger_kv wa_server" where
  "demo_wa_base tm kv st k = \<lparr>hs_tokenManager = Some tm, hs_disableAuth = False, hs_clientCertTier = clientCertOff, hs_webauthnTier = TierOn, hs_revocationStore = None,
     hs_audit = Some k, hs_eventBus = None, wa_configured = True, wa_store = kv, wa_sessions = st, wa_regMeta = Map.empty\<rparr>"

lemma demo_wa_base_simps:
  "wa_configured (demo_wa_base tm kv st k)" "wa_sessions (demo_wa_base tm kv st k) = st" "wa_store (demo_wa_base tm kv st k) = kv"
  "(demo_wa_base tm kv st k)\<lparr>wa_sessions := st'\<rparr> = demo_wa_base tm kv st' k"
  by (simp_all add: demo_wa_base_def)

definition demo_wa_ctx :: http_ctx where
  "demo_wa_ctx = empty_ctx\<lparr>cx_claims := Some demo_admin_claims\<rparr>"

definition demo_wa_claims :: claims where
  "demo_wa_claims = claims_of 0 ''t9'' (login_claims ''root'' demo_wa_ctx demo_cred)"

definition demo_wa_tm :: "badger_kv token_manager" where
  "demo_wa_tm = \<lparr>tm_secret = ''k'', tm_store = \<lparr>kb_entries = [JTIPrefix @ ''t9'' \<mapsto> \<lparr>en_value = ''root'', en_expires = Some 900\<rparr>], kb_faults = []\<rparr>\<rparr>"

lemma demo_wa_list: "wb_ListByOperator [byOperatorKey ''h'' ''id1''] ''h'' demo_wa_store = Inr [demo_cred]"
  by (simp add: wb_ListByOperator_def byOperatorPrefix_iff byOperatorKey_rest Decode_Encode read_cred_def demo_wa_store_def SortByRegistered_def sort_Slice_def del: EncodeCredentialID.simps)

lemma demo_wa_begin:
  "handleWebAuthnLoginBegin demo_wl (\<lambda>_. ''h'') [byOperatorKey ''h'' ''id1''] 0 r demo_wa_ctx (demo_wa_base demo_manager demo_wa_store (NewSessionStore 0) k) =
   (Served (WaOptions ''options''), demo_wa_base demo_manager demo_wa_store (sess_Put 0 ''root'' PurposeLogin ''challenge'' (NewSessionStore 0)) k)"
  by (simp add: handleWebAuthnLoginBegin_def demo_wa_base_def demo_wa_ctx_def subjectFromContext_def demo_admin_claims_def UserHandleFor_def demo_wa_list
      demo_wl_def NewUser_def)

lemma demo_wa_finish:
  "\<exists>kv st k. handleWebAuthnLoginFinish demo_wl (\<lambda>_. ''h'') NewStoreAdapter demo_jwt [byOperatorKey ''h'' ''id1''] True 0 0 ''t9'' (Some ''assertion'') r demo_wa_ctx
     (demo_wa_base demo_manager demo_wa_store (sess_Put 0 ''root'' PurposeLogin ''challenge'' (NewSessionStore 0)) \<lparr>hk_log = [], hk_faults = []\<rparr>) =
   (Served (WaToken (demo_sign ''k'' demo_wa_claims) ''root'' ''admin'' 900 (EncodeCredentialID ''id1'')), demo_wa_base demo_wa_tm kv st k)"
proof -
  let ?st = "sess_Put 0 ''root'' PurposeLogin ''challenge'' (NewSessionStore 0)"
  have p: "fst (sess_Pop 0 ''root'' PurposeLogin ?st) = Some ''challenge''" by (simp add: sess_Pop_Put NewSessionStore_def)
  obtain st where st: "sess_Pop 0 ''root'' PurposeLogin ?st = (Some ''challenge'', st)" using p by (metis prod.collapse)
  have e: "cl_ExpiresAt demo_wa_claims = webauthnTTL" by (simp add: demo_wa_claims_def claims_of_def login_claims_def webauthnTTL_def NewNumericDate_def)
  have "ValidateToken NewStoreAdapter demo_jwt 0 (demo_sign ''k'' demo_wa_claims) demo_wa_tm = (Inr demo_wa_claims, demo_wa_tm)"
    using stored_token_valid [OF demo_jwt_law, of 0 demo_wa_claims demo_wa_tm "''root''"] e
    by (simp add: demo_wa_tm_def kv_look_def live_def demo_jwt_def webauthnTTL_def demo_wa_claims_def claims_of_def)
  moreover have "GenerateTokenWithClaims NewStoreAdapter demo_jwt 0 ''t9'' (login_claims ''root'' demo_wa_ctx demo_cred) demo_manager = (Inr (demo_sign ''k'' demo_wa_claims), demo_wa_tm)"
    by (simp add: GenerateTokenWithClaims_def demo_manager_def demo_wa_tm_def adapter_simps kv_calm demo_jwt_def demo_wa_claims_def login_claims_def webauthnTTL_def Let_def)
  moreover have "login_claims ''root'' demo_wa_ctx (set_sign_count 9 demo_cred) = login_claims ''root'' demo_wa_ctx demo_cred" by (simp add: login_claims_def set_sign_count_def)
  moreover have "wb_UpdateSignCount True ''id1'' 9 demo_wa_store = (None, demo_wa_store(credentialKey ''id1'' \<mapsto> VCredential (set_sign_count 9 demo_cred)))"
    by (simp add: wb_UpdateSignCount_def cred_txn_def read_cred_def demo_wa_store_def verifyNotReplay_def demo_cred_def)
  moreover have c: "wc_ID (cr_Credential demo_cred) = ''id1''" by (simp add: demo_cred_def)
  ultimately have m: "\<exists>kv k. mint_login NewStoreAdapter demo_jwt True 0 0 ''t9'' ''root'' ((cr_Credential demo_cred)\<lparr>wc_SignCount := 9\<rparr>) demo_wa_ctx
      (demo_wa_base demo_manager demo_wa_store st \<lparr>hk_log = [], hk_faults = []\<rparr>) =
      (Served (WaToken (demo_sign ''k'' demo_wa_claims) ''root'' ''admin'' 900 (EncodeCredentialID ''id1'')), demo_wa_base demo_wa_tm kv st k)"
    by (simp add: mint_login_def demo_wa_base_def wb_Get_def read_cred_def auditWebAuthn_def http_audit_def webauthnTTL_def del: EncodeCredentialID.simps)
      (simp add: login_claims_def demo_wa_ctx_def demo_admin_claims_def)
  have "subjectFromContext demo_wa_ctx = ''root''" by (simp add: subjectFromContext_def demo_wa_ctx_def demo_admin_claims_def)
  with st demo_wa_list m show ?thesis
    by (simp add: handleWebAuthnLoginFinish_def UserHandleFor_def demo_wl_def demo_wa_base_simps del: EncodeCredentialID.simps) blast
qed

theorem admin_rests_on_login_witness:
  "\<exists>s h cx s'. wa_hist demo_wl (\<lambda>_. ''h'') NewStoreAdapter demo_jwt s h \<and> hs_webauthnTier s = TierOn \<and>
     admin_route NewStoreAdapter demo_jwt 5 (\<lambda>_. []) None probe (demo_http_request (''Bearer '' @ demo_sign ''k'' demo_wa_claims)) s = (Served cx, s') \<and>
     (\<exists>c l. cx_claims cx = Some c \<and> (c, Some l) \<in> set h \<and> cl_Subject c = lg_subject l \<and> 5 < lg_time l + 15 * minute)"
proof -
  let ?k = "\<lparr>hk_log = [], hk_faults = []\<rparr>" and ?x = "demo_sign ''k'' demo_wa_claims" and ?h = "[(demo_wa_claims, Some \<lparr>lg_time = 0, lg_subject = ''root'', lg_body = ''assertion''\<rparr>)]"
  let ?r = "demo_http_request (''Bearer '' @ ?x)"
  have h0: "wa_hist demo_wl (\<lambda>_. ''h'') NewStoreAdapter demo_jwt (demo_wa_base demo_manager demo_wa_store (NewSessionStore 0) ?k) []"
    by (rule wh_start) (simp add: demo_wa_base_def NewSessionStore_def)
  obtain kv st k where f: "handleWebAuthnLoginFinish demo_wl (\<lambda>_. ''h'') NewStoreAdapter demo_jwt [byOperatorKey ''h'' ''id1''] True 0 0 ''t9'' (Some ''assertion'') ?r demo_wa_ctx
     (demo_wa_base demo_manager demo_wa_store (sess_Put 0 ''root'' PurposeLogin ''challenge'' (NewSessionStore 0)) ?k) =
     (Served (WaToken ?x ''root'' ''admin'' 900 (EncodeCredentialID ''id1'')), demo_wa_base demo_wa_tm kv st k)"
    using demo_wa_finish by blast
  let ?s = "demo_wa_base demo_wa_tm kv st k"
  have "?x = jw_Sign demo_jwt ''k'' demo_wa_claims" by (simp add: demo_jwt_def)
  then have h: "wa_hist demo_wl (\<lambda>_. ''h'') NewStoreAdapter demo_jwt ?s ?h" by (rule wh_login [OF wh_login_begin [OF h0 demo_wa_begin] f])
  have tm: "hs_tokenManager ?s = Some demo_wa_tm" and tier: "hs_webauthnTier ?s = TierOn" by (simp_all add: demo_wa_base_def)
  have c: "cl_ExpiresAt demo_wa_claims = 900 * second" "cl_ID demo_wa_claims = ''t9''" "cl_Role demo_wa_claims = ''admin''" "cl_RequiredCN demo_wa_claims = []" "cl_AuthMethod demo_wa_claims = ''webauthn''"
    by (simp_all add: demo_wa_claims_def claims_of_def login_claims_def webauthnTTL_def NewNumericDate_def demo_wa_ctx_def demo_admin_claims_def demo_cred_def)
  have auth: "drop 7 (hr_Authorization ?r) = ?x" "HasPrefix (hr_Authorization ?r) ''Bearer ''" "\<not> isWebAuthnBootstrapPath (hr_Path ?r)"
    by (simp_all add: demo_http_request_def isWebAuthnBootstrapPath_def)
  have "ValidateToken NewStoreAdapter demo_jwt 5 ?x demo_wa_tm = (Inr demo_wa_claims, demo_wa_tm)"
    using stored_token_valid [OF demo_jwt_law, of 5 demo_wa_claims demo_wa_tm "''root''"] c by (simp add: demo_wa_tm_def kv_look_def live_def demo_jwt_def)
  then obtain cx s' where served: "admin_route NewStoreAdapter demo_jwt 5 (\<lambda>_. []) None probe ?r ?s = (Served cx, s')"
    using admin_route_served [OF tm, of NewStoreAdapter demo_jwt 5 "\<lambda>_. []" None ?r] auth c by (auto simp: certless_def demo_wa_base_def)
  have "\<forall>t c. jw_Parse demo_jwt (tm_secret demo_wa_tm) t (drop 7 (hr_Authorization ?r)) = Some c \<longrightarrow> c \<in> fst ` set ?h"
    using signed_claims [OF demo_jwt_law, of "''k''" _ "''k''" demo_wa_claims] auth by (auto simp: demo_wa_tm_def demo_jwt_def)
  from admin_rests_on_login [OF demo_jwt_law h tm tier auth(3) this served] h tier served show ?thesis by blast
qed

end
