(* ===== verification/Crash_Recovery.thy ===== *)
theory Crash_Recovery
  imports Job_Store
begin

text \<open>
  Crash recovery (\<open>internal/cluster/recovery.go\<close>): after a restart the manager collects the jobs that are not
  terminal, waits for the grace period, and offers each of them to the dispatcher. The dispatcher's answer is an argument;
  so is what other goroutines do to the store between two critical sections of a recovery.

  The lemmas show that recovery moves the store by its own steps only, and that an undisturbed run leaves no job
  behind: each is on the node that took it or recorded as lost.
\<close>

section \<open>One job\<close>

datatype recover_error = RecRefetch job_error | RecMarkLost job_error | RecReset job_error | RecTransition job_error

text \<open>What happens around one job: the clock, the dispatcher's answer to the current record (the error's text or the
  node), and the interference during the call of the dispatcher and between the last two sections.\<close>

record 'p recovery_env =
  rv_now :: time
  rv_dispatch :: "job \<Rightarrow> string + string"
  rv_during :: "'p job_store \<Rightarrow> 'p job_store"
  rv_between :: "'p job_store \<Rightarrow> 'p job_store"

definition redispatch :: "'p saver \<Rightarrow> 'p recovery_env \<Rightarrow> string \<Rightarrow> string \<Rightarrow> 'p job_store \<Rightarrow> recover_error option \<times> 'p job_store" where
  "redispatch save E jobID nodeID st = (case Transition save (rv_now E) jobID JobStatusDispatching (no_opts\<lparr>t_NodeID := nodeID\<rparr>) st of
      (Some e, st) \<Rightarrow> (Some (RecTransition e), st)
    | (None, st) \<Rightarrow> (None, st))"

definition recoverOne :: "'p saver \<Rightarrow> 'p recovery_env \<Rightarrow> string \<Rightarrow> 'p job_store \<Rightarrow> recover_error option \<times> 'p job_store" where
  "recoverOne save E jobID st = (case Get jobID st of
      Inl e \<Rightarrow> (Some (RecRefetch e), st)
    | Inr current \<Rightarrow>
       if IsTerminal (j_Status current) then (None, st)
       else (case rv_dispatch E current of
          Inl err \<Rightarrow> (case MarkLost save (rv_now E) jobID (''crash recovery dispatch failed: '' @ err) (rv_during E st) of
              (Some e, st) \<Rightarrow> (Some (RecMarkLost e), st)
            | (None, st) \<Rightarrow> (None, st))
        | Inr nodeID \<Rightarrow>
            if j_Status current \<noteq> JobStatusPending then
              (case resetToPending save jobID (rv_during E st) of
                 (Some e, st) \<Rightarrow> (Some (RecReset e), st)
               | (None, st) \<Rightarrow> redispatch save E jobID nodeID (rv_between E st))
            else redispatch save E jobID nodeID (rv_during E st)))"

section \<open>The run\<close>

text \<open>\<open>budget\<close> is the number of jobs after which the context is found cancelled. The counters are the log's.\<close>

fun recover_all :: "'p saver \<Rightarrow> (string \<Rightarrow> 'p recovery_env) \<Rightarrow> nat option \<Rightarrow> string list \<Rightarrow> nat \<times> nat \<Rightarrow> 'p job_store \<Rightarrow> (nat \<times> nat) \<times> 'p job_store" where
  "recover_all save E budget [] c st = (c, st)"
| "recover_all save E budget (i # is) (dispatched, lost) st =
     (if budget = Some 0 then ((dispatched, lost), st)
      else (case recoverOne save (E i) i st of
          (Some e, st) \<Rightarrow> recover_all save E (map_option (\<lambda>n. n - 1) budget) is (dispatched, lost + 1) st
        | (None, st) \<Rightarrow> recover_all save E (map_option (\<lambda>n. n - 1) budget) is (dispatched + 1, lost) st))"

text \<open>\<open>grace\<close> is what happens to the store in the grace period, \<open>None\<close> if the context is cancelled in it.\<close>

definition recovery_Run :: "'p saver \<Rightarrow> (string \<Rightarrow> 'p recovery_env) \<Rightarrow> ('p job_store \<Rightarrow> 'p job_store) option \<Rightarrow> nat option \<Rightarrow> string list
    \<Rightarrow> 'p job_store \<Rightarrow> (nat \<times> nat) option \<times> 'p job_store" where
  "recovery_Run save E grace budget ord st =
     (let toRecover = map j_ID (NonTerminal ord st) in
      if toRecover = [] then (None, st)
      else (case grace of None \<Rightarrow> (None, st)
        | Some f \<Rightarrow> (case recover_all save E budget toRecover (0, 0) (f st) of (c, st) \<Rightarrow> (Some c, st))))"

section \<open>Steps\<close>

definition only_steps :: "'p saver \<Rightarrow> (string list \<Rightarrow> 'p \<Rightarrow> persist_error + job list) \<Rightarrow> ('p \<Rightarrow> (string \<rightharpoonup> job)) \<Rightarrow> ('p job_store \<Rightarrow> 'p job_store) \<Rightarrow> bool" where
  "only_steps save load disk f \<longleftrightarrow> (\<forall>st. (js_step save load disk)\<^sup>*\<^sup>* st (f st))"

definition env_steps :: "'p saver \<Rightarrow> (string list \<Rightarrow> 'p \<Rightarrow> persist_error + job list) \<Rightarrow> ('p \<Rightarrow> (string \<rightharpoonup> job)) \<Rightarrow> 'p recovery_env \<Rightarrow> bool" where
  "env_steps save load disk E \<longleftrightarrow> only_steps save load disk (rv_during E) \<and> only_steps save load disk (rv_between E)"

lemma redispatch_steps: "(js_step save load disk)\<^sup>*\<^sup>* st (snd (redispatch save E i n st))"
  by (auto simp: redispatch_def intro: js_step.transition split: prod.splits option.splits)

lemma recoverOne_steps:
  assumes "env_steps save load disk E"
  shows "(js_step save load disk)\<^sup>*\<^sup>* st (snd (recoverOne save E i st))"
proof -
  let ?S = "(js_step save load disk)\<^sup>*\<^sup>*"
  have f: "?S st (rv_during E st)" "?S st1 (rv_between E st1)" for st1 using assms by (simp_all add: env_steps_def only_steps_def)
  have lost: "?S st (snd (MarkLost save now i rs (rv_during E st)))" for now rs
    using f(1) js_step.mark_lost by (metis prod.collapse rtranclp.rtrancl_into_rtrancl)
  have reset: "?S st (snd (resetToPending save i (rv_during E st)))"
    using f(1) js_step.reset by (metis prod.collapse rtranclp.rtrancl_into_rtrancl)
  have re: "?S st (snd (redispatch save E i n st1))" if "?S st st1" for n st1 using redispatch_steps that by (rule rtranclp_trans [rotated])
  have re': "?S st (snd (redispatch save E i n (rv_between E (snd (resetToPending save i (rv_during E st))))))" for n
    by (rule re) (use reset f(2) in \<open>rule rtranclp_trans\<close>)
  show ?thesis
  proof (cases "Get i st")
    case (Inr j)
    show ?thesis
    proof (cases "rv_dispatch E j")
      case (Inl err)
      with Inr lost show ?thesis by (auto simp: recoverOne_def split: prod.splits option.splits) (metis snd_conv)+
    next
      case n: (Inr n)
      show ?thesis using Inr n re [OF f(1)] reset re' [of n]
        by (auto simp: recoverOne_def split: prod.splits option.splits)
    qed
  qed (simp add: recoverOne_def)
qed

lemma recover_all_steps:
  assumes "\<And>i. env_steps save load disk (E i)"
  shows "(js_step save load disk)\<^sup>*\<^sup>* st (snd (recover_all save E budget is c st))"
proof (induction "is" arbitrary: budget c st)
  case (Cons i "is")
  obtain d l where c: "c = (d, l)" by fastforce
  obtain r st1 where r: "recoverOne save (E i) i st = (r, st1)" by fastforce
  have "(js_step save load disk)\<^sup>*\<^sup>* st st1" using recoverOne_steps [OF assms, of st i] r by (metis snd_conv)
  with Cons.IH show ?case by (cases r) (auto simp: c r intro: rtranclp_trans)
qed simp

lemma js_reachable_steps: "(js_step save load disk)\<^sup>*\<^sup>* st st' \<Longrightarrow> js_reachable save load disk st \<Longrightarrow> js_reachable save load disk st'"
  by (induction rule: rtranclp_induct) (auto intro: js_reachable.step)

text \<open>Whatever interferes by steps of the store, and wherever the run is cancelled or fails, the store stays reachable.\<close>

lemma recovery_reachable:
  assumes "js_reachable save load disk st" and "\<And>i. env_steps save load disk (E i)" and "\<And>f. grace = Some f \<Longrightarrow> only_steps save load disk f"
  shows "js_reachable save load disk (snd (recovery_Run save E grace budget ord st))"
proof (cases grace)
  case (Some f)
  then have "js_reachable save load disk (f st)" using assms(1,3) js_reachable_steps by (fastforce simp: only_steps_def)
  then have "js_reachable save load disk (snd (recover_all save E budget (map j_ID (NonTerminal ord st)) (0, 0) (f st)))"
    by (rule js_reachable_steps [OF recover_all_steps [of save load disk E, OF assms(2)]])
  with assms(1) Some show ?thesis by (auto simp: recovery_Run_def Let_def split: prod.split)
qed (use assms(1) in \<open>simp add: recovery_Run_def Let_def\<close>)

section \<open>An undisturbed run\<close>

definition saves_ok :: "'p saver \<Rightarrow> bool" where
  "saves_ok save \<longleftrightarrow> (\<forall>p j. fst (save p j) = None)"

lemma saves_okE: "saves_ok save \<Longrightarrow> (\<And>p'. save p j = (None, p') \<Longrightarrow> thesis) \<Longrightarrow> thesis"
  by (metis prod.collapse saves_ok_def)

definition undisturbed :: "'p recovery_env \<Rightarrow> bool" where
  "undisturbed E \<longleftrightarrow> (\<forall>st. rv_during E st = st) \<and> (\<forall>st. rv_between E st = st)"

text \<open>Where recovery leaves a job that it finds unfinished.\<close>

definition recovered :: "'p recovery_env \<Rightarrow> job \<Rightarrow> job" where
  "recovered E j = (case rv_dispatch E j of
      Inl err \<Rightarrow> j\<lparr>j_Status := JobStatusLost, j_FinishedAt := rv_now E, j_Error := ''crash recovery dispatch failed: '' @ err\<rparr>
    | Inr n \<Rightarrow> j\<lparr>j_Status := JobStatusDispatching, j_DispatchedAt := rv_now E, j_NodeID := (if n = [] then j_NodeID j else n)\<rparr>)"

lemma redispatch_ok:
  assumes "saves_ok save" and "js_jobs st i = Some j" and "j_Status j = JobStatusPending" and "redispatch save E i n st = (r, st')"
  shows "r = None \<and> js_jobs st' = (js_jobs st)(i \<mapsto> j\<lparr>j_Status := JobStatusDispatching, j_DispatchedAt := rv_now E, j_NodeID := (if n = [] then j_NodeID j else n)\<rparr>)"
proof -
  let ?j = "apply_transition (rv_now E) JobStatusDispatching (no_opts\<lparr>t_NodeID := n\<rparr>) j"
  obtain p where "save (js_persister st) ?j = (None, p)" using assms(1) by (rule saves_okE)
  with assms(2-4) show ?thesis
    by (auto simp: redispatch_def Transition_def isAllowed_def allowedTransitions_def apply_transition_def Let_def split: prod.splits option.splits)
qed

lemma recoverOne_ok:
  assumes "saves_ok save" and "undisturbed E" and "js_jobs st i = Some j" and "\<not> IsTerminal (j_Status j)" and "recoverOne save E i st = (r, st')"
  shows "r = None \<and> js_jobs st' = (js_jobs st)(i \<mapsto> recovered E j)"
proof (cases "rv_dispatch E j")
  case (Inl err)
  let ?j = "j\<lparr>j_Status := JobStatusLost, j_FinishedAt := rv_now E, j_Error := ''crash recovery dispatch failed: '' @ err\<rparr>"
  obtain p where "save (js_persister st) ?j = (None, p)" using assms(1) by (rule saves_okE)
  with assms(2-5) Inl show ?thesis by (auto simp: recoverOne_def Get_def MarkLost_def undisturbed_def recovered_def Let_def)
next
  case (Inr n)
  show ?thesis
  proof (cases "j_Status j = JobStatusPending")
    case True
    with assms Inr redispatch_ok [of save st i j E n r st'] show ?thesis by (auto simp: recoverOne_def Get_def undisturbed_def recovered_def)
  next
    case False
    obtain p where p: "save (js_persister st) (j\<lparr>j_Status := JobStatusPending\<rparr>) = (None, p)" using assms(1) by (rule saves_okE)
    let ?st = "put_job st i (j\<lparr>j_Status := JobStatusPending\<rparr>) p"
    have "redispatch save E i n ?st = (r, st')"
      using assms(2-5) Inr False p by (simp add: recoverOne_def Get_def resetToPending_def undisturbed_def Let_def)
    from redispatch_ok [OF assms(1) _ _ this, of "j\<lparr>j_Status := JobStatusPending\<rparr>"] Inr show ?thesis by (simp add: recovered_def)
  qed
qed

lemma recover_all_ok:
  assumes "saves_ok save" and "\<forall>i. undisturbed (E i)" and "distinct is" and "\<forall>i \<in> set is. \<exists>j. js_jobs st i = Some j \<and> \<not> IsTerminal (j_Status j)"
    and "recover_all save E None is (d, l) st = (c, st')"
  shows "c = (d + length is, l) \<and> (\<forall>i. js_jobs st' i = (if i \<in> set is then map_option (recovered (E i)) (js_jobs st i) else js_jobs st i))"
  using assms(3-)
proof (induction "is" arbitrary: d st)
  case (Cons i "is")
  then obtain j where j: "js_jobs st i = Some j" "\<not> IsTerminal (j_Status j)" by auto
  obtain r st1 where r: "recoverOne save (E i) i st = (r, st1)" by fastforce
  have one: "r = None" "js_jobs st1 = (js_jobs st)(i \<mapsto> recovered (E i) j)" using recoverOne_ok [OF assms(1) _ j r] assms(2) by auto
  have "recover_all save E None is (d + 1, l) st1 = (c, st')" using Cons.prems(3) r one(1) by simp
  from Cons.IH [OF _ _ this] Cons.prems(1,2) one(2) show ?case by (auto simp: j)
qed simp

lemma NonTerminal_IDs:
  assumes "enumerates ord (js_jobs st)" and "\<forall>i j. js_jobs st i = Some j \<longrightarrow> j_ID j = i"
  shows "map j_ID (NonTerminal ord st) = filter (\<lambda>i. \<not> IsTerminal (j_Status (the (js_jobs st i)))) ord"
proof -
  have "map j_ID (filter (\<lambda>j. \<not> IsTerminal (j_Status j)) (map (\<lambda>i. the (js_jobs st i)) xs)) = filter (\<lambda>i. \<not> IsTerminal (j_Status (the (js_jobs st i)))) xs"
    if "set xs \<subseteq> dom (js_jobs st)" for xs
    using that assms(2) by (induction xs) auto
  with assms(1) show ?thesis by (simp add: NonTerminal_def range_values_def enumerates_def)
qed

text \<open>C33. Recovery leaves no job behind: when no save fails and nothing interferes, an uncancelled run counts no job as
  failed, and afterwards every job that was not terminal is dispatching on the node that the dispatcher named, or lost with the
  dispatcher's reason where it named none; every other job is as before.\<close>

theorem recovery_leaves_none_behind:
  assumes "saves_ok save" and "\<forall>i. undisturbed (E i)" and "enumerates ord (js_jobs st)" and "\<forall>i j. js_jobs st i = Some j \<longrightarrow> j_ID j = i"
    and "recovery_Run save E (Some (\<lambda>st. st)) None ord st = (c, st')"
  shows "(case c of None \<Rightarrow> NonTerminal ord st = [] | Some (d, l) \<Rightarrow> d = length (NonTerminal ord st) \<and> l = 0) \<and>
    (\<forall>i. js_jobs st' i = (case js_jobs st i of None \<Rightarrow> None | Some j \<Rightarrow> Some (if IsTerminal (j_Status j) then j else recovered (E i) j)))"
proof -
  let ?is = "filter (\<lambda>i. \<not> IsTerminal (j_Status (the (js_jobs st i)))) ord"
  note ids = NonTerminal_IDs [OF assms(3,4)]
  have ord: "set ord = dom (js_jobs st)" "distinct ord" using assms(3) by (auto simp: enumerates_def)
  have len: "length (NonTerminal ord st) = length ?is" using ids by (metis length_map)
  show ?thesis
  proof (cases "?is = []")
    case True
    then have "NonTerminal ord st = []" using ids by simp
    moreover from this have "c = None" "st' = st" using assms(5) by (simp_all add: recovery_Run_def Let_def)
    moreover have "IsTerminal (j_Status j)" if "js_jobs st i = Some j" for i j using True ord(1) that by (force simp: filter_empty_conv)
    ultimately show ?thesis by (auto split: option.splits)
  next
    case False
    then obtain d l where r: "recover_all save E None ?is (0, 0) st = ((d, l), st')" "c = Some (d, l)"
      using assms(5) ids by (auto simp: recovery_Run_def Let_def split: prod.splits)
    have "\<forall>i \<in> set ?is. \<exists>j. js_jobs st i = Some j \<and> \<not> IsTerminal (j_Status j)" using ord(1) by auto
    from recover_all_ok [OF assms(1,2) _ this r(1)] ord(2) have "d = length ?is" "l = 0"
      and *: "js_jobs st' i = (if i \<in> set ?is then map_option (recovered (E i)) (js_jobs st i) else js_jobs st i)" for i by auto
    then show ?thesis using r(2) len ord(1) by (auto simp: * split: option.splits)
  qed
qed

definition demo_recovery :: "string \<Rightarrow> mem_persister recovery_env" where
  "demo_recovery i = \<lparr>rv_now = 9, rv_dispatch = (\<lambda>j. if j_ID j = ''a'' then Inr ''n1'' else Inl ''no healthy nodes''), rv_during = (\<lambda>st. st), rv_between = (\<lambda>st. st)\<rparr>"

definition demo_crashed :: "mem_persister job_store" where
  "demo_crashed = \<lparr>js_jobs = [''a'' \<mapsto> demo_job\<lparr>j_ID := ''a'', j_Status := JobStatusRunning\<rparr>, ''b'' \<mapsto> demo_job\<lparr>j_ID := ''b'', j_Status := JobStatusDispatching\<rparr>],
     js_persister = \<lparr>mp_Jobs = Map.empty\<rparr>, js_events = [], js_audit = []\<rparr>"

theorem recovery_leaves_none_behind_witness:
  "\<exists>st'. recovery_Run mem_SaveJob demo_recovery (Some (\<lambda>st. st)) None [''a'', ''b''] demo_crashed = (Some (2, 0), st') \<and>
     map_option j_Status (js_jobs st' ''a'') = Some JobStatusDispatching \<and> map_option j_NodeID (js_jobs st' ''a'') = Some ''n1'' \<and>
     map_option j_Status (js_jobs st' ''b'') = Some JobStatusLost"
proof -
  let ?st = demo_crashed
  obtain c st' where r: "recovery_Run mem_SaveJob demo_recovery (Some (\<lambda>st. st)) None [''a'', ''b''] ?st = (c, st')" by fastforce
  have "saves_ok mem_SaveJob" by (simp add: saves_ok_def mem_SaveJob_def)
  moreover have "\<forall>i. undisturbed (demo_recovery i)" by (simp add: undisturbed_def demo_recovery_def)
  moreover have "enumerates [''a'', ''b''] (js_jobs ?st)" by (auto simp: enumerates_def demo_crashed_def)
  moreover have "\<forall>i j. js_jobs ?st i = Some j \<longrightarrow> j_ID j = i" by (simp add: demo_crashed_def)
  ultimately have *: "(case c of None \<Rightarrow> NonTerminal [''a'', ''b''] ?st = [] | Some (d, l) \<Rightarrow> d = length (NonTerminal [''a'', ''b''] ?st) \<and> l = 0) \<and>
    (\<forall>i. js_jobs st' i = (case js_jobs ?st i of None \<Rightarrow> None | Some j \<Rightarrow> Some (if IsTerminal (j_Status j) then j else recovered (demo_recovery i) j)))"
    using r by (rule recovery_leaves_none_behind)
  have n: "length (NonTerminal [''a'', ''b''] ?st) = 2" by (simp add: NonTerminal_def range_values_def demo_crashed_def)
  then have "c = Some (2, 0)" using * by (auto split: option.splits)
  with r * show ?thesis by (simp add: demo_crashed_def recovered_def demo_recovery_def)
qed

end
