(* ===== verification/Runtime_Ipc.thy ===== *)
theory Runtime_Ipc
  imports Gpu_Runtime
begin

unbundle bit_operations_syntax

text \<open>
  The socket protocol between the node agent and the Rust runtime (\<open>internal/runtime/ipc.go\<close>, with its use in
  \<open>rust_client.go\<close>): frames with a type and a length, requests written and responses read in the wire format of
  protobuf. The library \<open>protowire\<close> is a record of the bytes its \<open>Append\<close> functions append and of its
  \<open>Consume\<close> functions; \<open>protowire_law\<close> is what its documentation promises. The decoding loops are partial functions: that they
  return for every input is proved.

  Reference definitions of the messages of \<open>proto/runtime.proto\<close> say what the other side reads and writes.
\<close>

section \<open>Library\<close>

record protowire =
  pw_Tag :: "nat \<Rightarrow> nat \<Rightarrow> string"
  pw_Varint :: "64 word \<Rightarrow> string"
  pw_Bytes :: "string \<Rightarrow> string"
  pw_ConsumeTag :: "string \<Rightarrow> (nat \<times> nat \<times> nat) option"
  pw_ConsumeVarint :: "string \<Rightarrow> (64 word \<times> nat) option"
  pw_ConsumeBytes :: "string \<Rightarrow> (string \<times> nat) option"

text \<open>Field numbers are below 2 to the 29; bytes are written behind their length; a value is read back whatever follows it; a successful read takes at least one
  byte and none beyond the input.\<close>

definition protowire_law :: "protowire \<Rightarrow> bool" where
  "protowire_law P \<longleftrightarrow>
     (\<forall>num typ r. 1 \<le> num \<and> num < 536870912 \<and> typ < 6 \<longrightarrow> pw_ConsumeTag P (pw_Tag P num typ @ r) = Some (num, typ, length (pw_Tag P num typ))) \<and>
     (\<forall>v r. pw_ConsumeVarint P (pw_Varint P v @ r) = Some (v, length (pw_Varint P v))) \<and>
     (\<forall>v. pw_Bytes P v = pw_Varint P (word_of_nat (length v)) @ v) \<and>
     (\<forall>v r. length v < 9223372036854775808 \<longrightarrow> pw_ConsumeBytes P (pw_Bytes P v @ r) = Some (v, length (pw_Bytes P v))) \<and>
     (\<forall>d num typ n. pw_ConsumeTag P d = Some (num, typ, n) \<longrightarrow> 0 < n \<and> n \<le> length d) \<and>
     (\<forall>d v n. pw_ConsumeVarint P d = Some (v, n) \<longrightarrow> 0 < n \<and> n \<le> length d) \<and>
     (\<forall>d v n. pw_ConsumeBytes P d = Some (v, n) \<longrightarrow> 0 < n \<and> n \<le> length d)"

abbreviation (input) VarintType :: nat where "VarintType \<equiv> 0"
abbreviation (input) Fixed64Type :: nat where "Fixed64Type \<equiv> 1"
abbreviation (input) BytesType :: nat where "BytesType \<equiv> 2"
abbreviation (input) Fixed32Type :: nat where "Fixed32Type \<equiv> 5"

section \<open>Frames\<close>

definition MsgRunRequest :: "32 word" where "MsgRunRequest = 1"
definition MsgRunResponse :: "32 word" where "MsgRunResponse = 2"
definition MsgCancelRequest :: "32 word" where "MsgCancelRequest = 3"
definition MsgCancelResponse :: "32 word" where "MsgCancelResponse = 4"

definition maxFrameBytes :: nat where
  "maxFrameBytes = 67108864"

text \<open>\<open>binary.BigEndian\<close> for 32-bit words.\<close>

definition PutUint32 :: "32 word \<Rightarrow> string" where
  "PutUint32 v = map (\<lambda>n. char_of (unat (drop_bit n v))) [24, 16, 8, 0]"

definition Uint32 :: "string \<Rightarrow> 32 word" where
  "Uint32 b = foldl (\<lambda>a c. push_bit 8 a OR word_of_nat (of_char c)) 0 b"

datatype ipc_error = IpcTooLarge | IpcShort | IpcTag | IpcField nat | IpcVarint | IpcFixed32 | IpcFixed64 | IpcBytes | IpcWireType nat | IpcMsgType "32 word"

definition writeFrame :: "32 word \<Rightarrow> string \<Rightarrow> ipc_error + string" where
  "writeFrame msgType payload =
     (if maxFrameBytes < length payload then Inl IpcTooLarge
      else Inr (PutUint32 msgType @ PutUint32 (word_of_nat (length payload)) @ payload))"

text \<open>The reader gives the bytes that arrive before the connection ends; the rest stays unread.\<close>

definition readFrame :: "string \<Rightarrow> ipc_error + (32 word \<times> string) \<times> string" where
  "readFrame r =
     (if length r < 8 then Inl IpcShort
      else let sz = unat (Uint32 (take 4 (drop 4 r))) in
      if maxFrameBytes < sz then Inl IpcTooLarge
      else if length (drop 8 r) < sz then Inl IpcShort
      else Inr ((Uint32 (take 4 r), take sz (drop 8 r)), drop sz (drop 8 r)))"

section \<open>Requests\<close>

definition pbString :: "protowire \<Rightarrow> string \<Rightarrow> nat \<Rightarrow> string \<Rightarrow> string" where
  "pbString P b field s = (if s = [] then b else b @ pw_Tag P field BytesType @ pw_Bytes P s)"

definition pbUint :: "protowire \<Rightarrow> string \<Rightarrow> nat \<Rightarrow> 64 word \<Rightarrow> string" where
  "pbUint P b field v = (if v = 0 then b else b @ pw_Tag P field VarintType @ pw_Varint P v)"

definition encode_entry :: "protowire \<Rightarrow> string \<Rightarrow> string \<times> string \<Rightarrow> string" where
  "encode_entry P b kv = b @ pw_Tag P 4 BytesType @ pw_Bytes P (pbString P (pbString P [] 1 (fst kv)) 2 (snd kv))"

definition encode_limits :: "protowire \<Rightarrow> run_request \<Rightarrow> string" where
  "encode_limits P req = pbUint P (pbUint P (pbUint P [] 1 (rq_MemoryBytes req)) 2 (rq_CPUQuotaUS req)) 3 (rq_CPUPeriodUS req)"

text \<open>\<open>ord\<close> is the order in which the map of the environment is visited.\<close>

definition encodeRunRequest :: "protowire \<Rightarrow> string list \<Rightarrow> run_request \<Rightarrow> string" where
  "encodeRunRequest P ord req =
     (let b = pbString P (pbString P [] 1 (rq_JobID req)) 2 (rq_Command req);
          b = fold (\<lambda>arg b. pbString P b 3 arg) (rq_Args req) b;
          b = fold (\<lambda>k b. encode_entry P b (k, the (rq_Env req k))) ord b;
          b = pbUint P b 5 (rq_TimeoutSeconds req);
          b = (if rq_MemoryBytes req \<noteq> 0 \<or> rq_CPUQuotaUS req \<noteq> 0 \<or> rq_CPUPeriodUS req \<noteq> 0
               then b @ pw_Tag P 6 BytesType @ pw_Bytes P (encode_limits P req) else b)
      in pbString P b 7 (rq_WorkingDir req))"

definition encodeCancelRequest :: "protowire \<Rightarrow> string \<Rightarrow> string" where
  "encodeCancelRequest P jobID = pbString P [] 1 jobID"

section \<open>Responses\<close>

definition skipField :: "protowire \<Rightarrow> string \<Rightarrow> nat \<Rightarrow> ipc_error + nat" where
  "skipField P d typ =
     (if typ = VarintType then (case pw_ConsumeVarint P d of None \<Rightarrow> Inl IpcVarint | Some (v, n) \<Rightarrow> Inr n)
      else if typ = Fixed32Type then (if length d < 4 then Inl IpcFixed32 else Inr 4)
      else if typ = Fixed64Type then (if length d < 8 then Inl IpcFixed64 else Inr 8)
      else if typ = BytesType then (case pw_ConsumeBytes P d of None \<Rightarrow> Inl IpcBytes | Some (v, n) \<Rightarrow> Inr n)
      else Inl (IpcWireType typ))"

text \<open>One field behind its tag: the new result and the bytes it took.\<close>

definition response_field :: "protowire \<Rightarrow> nat \<Rightarrow> nat \<Rightarrow> string \<Rightarrow> string \<times> run_result \<Rightarrow> ipc_error + (string \<times> run_result) \<times> nat" where
  "response_field P num typ d acc = (case acc of (jobID, res) \<Rightarrow>
     if num = 1 then (case pw_ConsumeBytes P d of None \<Rightarrow> Inl (IpcField 1) | Some (v, n) \<Rightarrow> Inr ((v, res), n))
     else if num = 2 then (case pw_ConsumeVarint P d of None \<Rightarrow> Inl (IpcField 2)
        | Some (v, n) \<Rightarrow> Inr ((jobID, res\<lparr>rr_ExitCode := sint (ucast v :: 32 word)\<rparr>), n))
     else if num = 3 then (case pw_ConsumeBytes P d of None \<Rightarrow> Inl (IpcField 3) | Some (v, n) \<Rightarrow> Inr ((jobID, res\<lparr>rr_Stdout := rr_Stdout res @ v\<rparr>), n))
     else if num = 4 then (case pw_ConsumeBytes P d of None \<Rightarrow> Inl (IpcField 4) | Some (v, n) \<Rightarrow> Inr ((jobID, res\<lparr>rr_Stderr := rr_Stderr res @ v\<rparr>), n))
     else if num = 5 then (case pw_ConsumeBytes P d of None \<Rightarrow> Inl (IpcField 5) | Some (v, n) \<Rightarrow> Inr ((jobID, res\<lparr>rr_Error := v\<rparr>), n))
     else if num = 6 then (case pw_ConsumeBytes P d of None \<Rightarrow> Inl (IpcField 6) | Some (v, n) \<Rightarrow> Inr ((jobID, res\<lparr>rr_KillReason := v\<rparr>), n))
     else (case skipField P d typ of Inl e \<Rightarrow> Inl e | Inr n \<Rightarrow> Inr (acc, n)))"

definition zero_result :: run_result where
  "zero_result = \<lparr>rr_ExitCode = 0, rr_Stdout = [], rr_Stderr = [], rr_Error = [], rr_KillReason = []\<rparr>"

partial_function (option) response_loop :: "protowire \<Rightarrow> string \<Rightarrow> string \<times> run_result \<Rightarrow> ((string \<times> run_result) \<times> ipc_error option) option" where
  "response_loop P d acc =
     (if d = [] then Some (acc, None)
      else case pw_ConsumeTag P d of None \<Rightarrow> Some (acc, Some IpcTag)
      | Some (num, typ, n) \<Rightarrow> (case response_field P num typ (drop n d) acc of
           Inl e \<Rightarrow> Some (acc, Some e)
         | Inr (acc', m) \<Rightarrow> response_loop P (drop m (drop n d)) acc'))"

definition decodeRunResponse :: "protowire \<Rightarrow> string \<Rightarrow> ((string \<times> run_result) \<times> ipc_error option) option" where
  "decodeRunResponse P d = response_loop P d ([], zero_result)"

text \<open>The answer to a cancellation; a malformed message ends the loop with what was read so far.\<close>

partial_function (option) cancel_loop :: "protowire \<Rightarrow> string \<Rightarrow> bool \<times> string \<Rightarrow> (bool \<times> string) option" where
  "cancel_loop P d acc =
     (if d = [] then Some acc
      else case pw_ConsumeTag P d of None \<Rightarrow> Some acc
      | Some (num, typ, n) \<Rightarrow>
         if num = 1 then (case pw_ConsumeVarint P (drop n d) of None \<Rightarrow> Some acc | Some (v, m) \<Rightarrow> cancel_loop P (drop m (drop n d)) (v \<noteq> 0, snd acc))
         else if num = 2 then (case pw_ConsumeBytes P (drop n d) of None \<Rightarrow> Some acc | Some (v, m) \<Rightarrow> cancel_loop P (drop m (drop n d)) (fst acc, v))
         else (case skipField P (drop n d) typ of Inl e \<Rightarrow> Some acc | Inr m \<Rightarrow> cancel_loop P (drop m (drop n d)) acc))"

definition decodeCancelResponse :: "protowire \<Rightarrow> string \<Rightarrow> (bool \<times> string) option" where
  "decodeCancelResponse P d = cancel_loop P d (False, [])"

section \<open>Exchanges\<close>

text \<open>\<open>Run\<close> and \<open>Cancel\<close> on an open connection: what is written, and what is made of the bytes that come back.
  \<open>None\<close> would be a loop without end.\<close>

definition rust_exchange_Run :: "protowire \<Rightarrow> string list \<Rightarrow> run_request \<Rightarrow> (string \<Rightarrow> string) \<Rightarrow> (ipc_error + run_result) option" where
  "rust_exchange_Run P ord req peer = (case writeFrame MsgRunRequest (encodeRunRequest P ord req) of
      Inl e \<Rightarrow> Some (Inl e)
    | Inr out \<Rightarrow> (case readFrame (peer out) of Inl e \<Rightarrow> Some (Inl e)
       | Inr ((msgType, payload), rest) \<Rightarrow>
          if msgType \<noteq> MsgRunResponse then Some (Inl (IpcMsgType msgType))
          else (case decodeRunResponse P payload of None \<Rightarrow> None
             | Some ((jobID, res), None) \<Rightarrow> Some (Inr res) | Some (acc, Some e) \<Rightarrow> Some (Inl e))))"

definition rust_exchange_Cancel :: "protowire \<Rightarrow> string \<Rightarrow> (string \<Rightarrow> string) \<Rightarrow> (ipc_error + string option) option" where
  "rust_exchange_Cancel P jobID peer = (case writeFrame MsgCancelRequest (encodeCancelRequest P jobID) of
      Inl e \<Rightarrow> Some (Inl e)
    | Inr out \<Rightarrow> (case readFrame (peer out) of Inl e \<Rightarrow> Some (Inl e)
       | Inr ((msgType, payload), rest) \<Rightarrow>
          if msgType \<noteq> MsgCancelResponse then Some (Inl (IpcMsgType msgType))
          else (case decodeCancelResponse P payload of None \<Rightarrow> None | Some (ok, msg) \<Rightarrow> Some (Inr (if ok then None else Some msg)))))"

section \<open>Frames read back\<close>

lemma word_of_byte: "(word_of_nat (of_char (char_of (unat w) :: char)) :: 32 word) = take_bit 8 (w :: 32 word)"
proof -
  have "(of_char (char_of (unat w) :: char) :: nat) = unat (take_bit 8 w)" by (simp add: unsigned_take_bit_eq take_bit_eq_mod [of 8 "unat w"])
  then show ?thesis by simp
qed

lemma Uint32_PutUint32: "Uint32 (PutUint32 v) = v"
proof -
  have "Uint32 (PutUint32 v) = push_bit 8 (push_bit 8 (push_bit 8 (take_bit 8 (drop_bit 24 v)) OR take_bit 8 (drop_bit 16 v)) OR take_bit 8 (drop_bit 8 v)) OR take_bit 8 v"
    by (simp add: Uint32_def PutUint32_def word_of_byte del: of_char_of)
  also have "\<dots> = v"
  proof (rule bit_word_eqI)
    fix n
    assume "n < LENGTH(32)"
    then show "bit (push_bit 8 (push_bit 8 (push_bit 8 (take_bit 8 (drop_bit 24 v)) OR take_bit 8 (drop_bit 16 v)) OR take_bit 8 (drop_bit 8 v)) OR take_bit 8 v) n = bit v n"
      by (cases "n < 8"; cases "n < 16"; cases "n < 24") (auto simp: bit_simps)
  qed
  finally show ?thesis .
qed

lemma length_PutUint32 [simp]: "length (PutUint32 v) = 4"
  by (simp add: PutUint32_def)

lemma readFrame_writeFrame:
  assumes "writeFrame t p = Inr out"
  shows "readFrame (out @ rest) = Inr ((t, p), rest)"
proof -
  have l: "length p \<le> maxFrameBytes" and o: "out = PutUint32 t @ PutUint32 (word_of_nat (length p)) @ p" using assms by (auto simp: writeFrame_def split: if_splits)
  then have u: "unat (word_of_nat (length p) :: 32 word) = length p" by (simp add: unat_of_nat maxFrameBytes_def take_bit_nat_eq_self)
  show ?thesis using l by (simp add: readFrame_def o Uint32_PutUint32 u Let_def)
qed

section \<open>Decoding returns\<close>

lemma skipField_bounds: "protowire_law P \<Longrightarrow> skipField P d wt = Inr n \<Longrightarrow> n \<le> length d"
  by (auto simp: skipField_def protowire_law_def split: if_splits option.splits)

lemma response_loop_returns:
  assumes "protowire_law P"
  shows "\<exists>x. response_loop P d acc = Some x"
proof (induction "length d" arbitrary: d acc rule: less_induct)
  case less
  show ?case
  proof (cases "d = [] \<or> pw_ConsumeTag P d = None")
    case True
    then show ?thesis by (subst response_loop.simps) auto
  next
    case False
    then obtain num wt n where t: "d \<noteq> []" "pw_ConsumeTag P d = Some (num, wt, n)" by auto
    then have "0 < n" using assms by (auto simp: protowire_law_def)
    show ?thesis
    proof (cases "response_field P num wt (drop n d) acc")
      case (Inr x)
      obtain acc' m where x: "x = (acc', m)" by fastforce
      have "length (drop m (drop n d)) < length d" using \<open>0 < n\<close> t(1) by (cases d) auto
      from less [OF this] t Inr x show ?thesis by (subst response_loop.simps) simp
    qed (use t in \<open>subst response_loop.simps, simp\<close>)
  qed
qed

lemma cancel_loop_returns:
  assumes "protowire_law P"
  shows "\<exists>x. cancel_loop P d acc = Some x"
proof (induction "length d" arbitrary: d acc rule: less_induct)
  case less
  show ?case
  proof (cases "d = [] \<or> pw_ConsumeTag P d = None")
    case True
    then show ?thesis by (subst cancel_loop.simps) auto
  next
    case False
    then obtain num wt n where t: "d \<noteq> []" "pw_ConsumeTag P d = Some (num, wt, n)" by auto
    then have "0 < n" using assms by (auto simp: protowire_law_def)
    then have "length (drop m (drop n d)) < length d" for m using t(1) by (cases d) auto
    from less [OF this] t show ?thesis by (subst cancel_loop.simps) (auto split: option.splits sum.splits)
  qed
qed

section \<open>Messages\<close>

datatype pb_value = PbVarint "64 word" | PbFixed64 string | PbBytes string | PbFixed32 string

fun pb_field :: "protowire \<Rightarrow> nat \<times> pb_value \<Rightarrow> string" where
  "pb_field P (num, PbVarint v) = pw_Tag P num VarintType @ pw_Varint P v"
| "pb_field P (num, PbFixed64 b) = pw_Tag P num Fixed64Type @ b"
| "pb_field P (num, PbBytes b) = pw_Tag P num BytesType @ pw_Bytes P b"
| "pb_field P (num, PbFixed32 b) = pw_Tag P num Fixed32Type @ b"

definition pb_message :: "protowire \<Rightarrow> (nat \<times> pb_value) list \<Rightarrow> string" where
  "pb_message P fs = concat (map (pb_field P) fs)"

fun pb_ok :: "nat \<times> pb_value \<Rightarrow> bool" where
  "pb_ok (num, PbVarint v) \<longleftrightarrow> 1 \<le> num \<and> num < 536870912"
| "pb_ok (num, PbFixed64 b) \<longleftrightarrow> 1 \<le> num \<and> num < 536870912 \<and> length b = 8"
| "pb_ok (num, PbBytes b) \<longleftrightarrow> 1 \<le> num \<and> num < 536870912 \<and> length b < 9223372036854775808"
| "pb_ok (num, PbFixed32 b) \<longleftrightarrow> 1 \<le> num \<and> num < 536870912 \<and> length b = 4"

text \<open>What a field of a response does to the result, and the fields of the types that the protocol gives them.
  Fields with other numbers, of any type, are ignored.\<close>

fun response_apply :: "nat \<times> pb_value \<Rightarrow> string \<times> run_result \<Rightarrow> string \<times> run_result" where
  "response_apply (num, PbVarint v) (i, res) = (if num = 2 then (i, res\<lparr>rr_ExitCode := sint (ucast v :: 32 word)\<rparr>) else (i, res))"
| "response_apply (num, PbBytes b) (i, res) =
     (if num = 1 then (b, res) else if num = 3 then (i, res\<lparr>rr_Stdout := rr_Stdout res @ b\<rparr>)
      else if num = 4 then (i, res\<lparr>rr_Stderr := rr_Stderr res @ b\<rparr>)
      else if num = 5 then (i, res\<lparr>rr_Error := b\<rparr>) else if num = 6 then (i, res\<lparr>rr_KillReason := b\<rparr>) else (i, res))"
| "response_apply (num, w) acc = acc"

fun response_typed :: "nat \<times> pb_value \<Rightarrow> bool" where
  "response_typed (num, PbVarint v) \<longleftrightarrow> num \<notin> {1, 3, 4, 5, 6}"
| "response_typed (num, PbBytes b) \<longleftrightarrow> num \<noteq> 2"
| "response_typed (num, w) \<longleftrightarrow> 6 < num"

lemma response_loop_field:
  assumes "protowire_law P" and "pb_ok f" and "response_typed f"
  shows "response_loop P (pb_field P f @ d) acc = response_loop P d (response_apply f acc)"
proof -
  obtain num w where f: "f = (num, w)" by fastforce
  obtain i res where acc: "acc = (i, res)" by fastforce
  define wt where "wt = (case w of PbVarint _ \<Rightarrow> VarintType | PbFixed64 _ \<Rightarrow> Fixed64Type | PbBytes _ \<Rightarrow> BytesType | PbFixed32 _ \<Rightarrow> Fixed32Type)"
  define body where "body = (case w of PbVarint v \<Rightarrow> pw_Varint P v | PbFixed64 b \<Rightarrow> b | PbBytes b \<Rightarrow> pw_Bytes P b | PbFixed32 b \<Rightarrow> b)"
  have e: "pb_field P f = pw_Tag P num wt @ body" by (cases w) (simp_all add: f wt_def body_def)
  have "1 \<le> num \<and> num < 536870912 \<and> wt < 6" using assms(2) by (cases w) (simp_all add: f wt_def)
  then have t: "pw_ConsumeTag P (pw_Tag P num wt @ r) = Some (num, wt, length (pw_Tag P num wt))" for r using assms(1) by (simp add: protowire_law_def)
  have ne: "pw_Tag P num wt \<noteq> []" using t [of "[]"] assms(1) unfolding protowire_law_def by (metis append_Nil2 list.size(3) less_irrefl)
  have "response_field P num wt (body @ d) acc = Inr (response_apply f acc, length body)"
    using assms f by (cases w) (auto simp: response_field_def skipField_def wt_def body_def acc protowire_law_def)
  then show ?thesis using ne t by (subst response_loop.simps) (simp add: e)
qed

lemma response_loop_message:
  assumes "protowire_law P" and "\<forall>f \<in> set fs. pb_ok f \<and> response_typed f"
  shows "response_loop P (pb_message P fs) acc = Some (fold response_apply fs acc, None)"
  using assms(2)
proof (induction fs arbitrary: acc)
  case Nil
  show ?case by (subst response_loop.simps) (simp add: pb_message_def)
next
  case (Cons f fs)
  have "response_loop P (pb_message P (f # fs)) acc = response_loop P (pb_message P fs) (response_apply f acc)"
    using response_loop_field [OF assms(1), of f "pb_message P fs" acc] Cons.prems by (simp add: pb_message_def)
  with Cons show ?case by simp
qed

section \<open>Reading a message\<close>

text \<open>A reference reader: the fields of a message in their order, \<open>None\<close> for a malformed one.\<close>

definition pb_value_of :: "protowire \<Rightarrow> nat \<Rightarrow> string \<Rightarrow> (pb_value \<times> nat) option" where
  "pb_value_of P wt d =
     (if wt = VarintType then map_option (\<lambda>(v, n). (PbVarint v, n)) (pw_ConsumeVarint P d)
      else if wt = Fixed64Type then (if length d < 8 then None else Some (PbFixed64 (take 8 d), 8))
      else if wt = BytesType then map_option (\<lambda>(v, n). (PbBytes v, n)) (pw_ConsumeBytes P d)
      else if wt = Fixed32Type then (if length d < 4 then None else Some (PbFixed32 (take 4 d), 4))
      else None)"

partial_function (option) pb_read :: "protowire \<Rightarrow> string \<Rightarrow> (nat \<times> pb_value) list \<Rightarrow> (nat \<times> pb_value) list option" where
  "pb_read P d fs =
     (if d = [] then Some fs
      else case pw_ConsumeTag P d of None \<Rightarrow> None
      | Some (num, wt, n) \<Rightarrow> (case pb_value_of P wt (drop n d) of None \<Rightarrow> None
          | Some (v, m) \<Rightarrow> pb_read P (drop m (drop n d)) (fs @ [(num, v)])))"

lemma pb_read_field:
  assumes "protowire_law P" and "pb_ok f"
  shows "pb_read P (pb_field P f @ d) fs = pb_read P d (fs @ [f])"
proof -
  obtain num w where f: "f = (num, w)" by fastforce
  define wt where "wt = (case w of PbVarint _ \<Rightarrow> VarintType | PbFixed64 _ \<Rightarrow> Fixed64Type | PbBytes _ \<Rightarrow> BytesType | PbFixed32 _ \<Rightarrow> Fixed32Type)"
  define body where "body = (case w of PbVarint v \<Rightarrow> pw_Varint P v | PbFixed64 b \<Rightarrow> b | PbBytes b \<Rightarrow> pw_Bytes P b | PbFixed32 b \<Rightarrow> b)"
  have e: "pb_field P f = pw_Tag P num wt @ body" by (cases w) (simp_all add: f wt_def body_def)
  have "1 \<le> num \<and> num < 536870912 \<and> wt < 6" using assms(2) by (cases w) (simp_all add: f wt_def)
  then have t: "pw_ConsumeTag P (pw_Tag P num wt @ r) = Some (num, wt, length (pw_Tag P num wt))" for r using assms(1) by (simp add: protowire_law_def)
  have ne: "pw_Tag P num wt \<noteq> []" using t [of "[]"] assms(1) unfolding protowire_law_def by (metis append_Nil2 list.size(3) less_irrefl)
  have "pb_value_of P wt (body @ d) = Some (w, length body)"
    using assms f by (cases w) (auto simp: pb_value_of_def wt_def body_def protowire_law_def)
  then show ?thesis using ne t by (subst pb_read.simps) (simp add: e [unfolded f] f)
qed

lemma pb_read_message:
  assumes "protowire_law P" and "\<forall>f \<in> set fs. pb_ok f"
  shows "pb_read P (pb_message P fs) gs = Some (gs @ fs)"
  using assms(2)
proof (induction fs arbitrary: gs)
  case Nil
  show ?case by (subst pb_read.simps) (simp add: pb_message_def)
next
  case (Cons f fs)
  have "pb_read P (pb_message P (f # fs)) gs = pb_read P (pb_message P fs) (gs @ [f])"
    using pb_read_field [OF assms(1), of f "pb_message P fs" gs] Cons.prems by (simp add: pb_message_def)
  with Cons show ?case by simp
qed

text \<open>The request as the protocol file reads it: later values of a field replace earlier ones, except for the arguments and the
  environment, which collect theirs.\<close>

definition zero_request :: run_request where
  "zero_request = \<lparr>rq_JobID = [], rq_Command = [], rq_Args = [], rq_Env = Map.empty, rq_TimeoutSeconds = 0, rq_MemoryBytes = 0, rq_CPUQuotaUS = 0,
     rq_CPUPeriodUS = 0, rq_WorkingDir = [], rq_GPUs = 0, rq_IsService = False\<rparr>"

fun entry_apply :: "nat \<times> pb_value \<Rightarrow> string \<times> string \<Rightarrow> string \<times> string" where
  "entry_apply (num, PbBytes b) (k, v) = (if num = 1 then (b, v) else if num = 2 then (k, b) else (k, v))"
| "entry_apply (num, w) kv = kv"

fun limits_apply :: "nat \<times> pb_value \<Rightarrow> run_request \<Rightarrow> run_request" where
  "limits_apply (num, PbVarint v) q = (if num = 1 then q\<lparr>rq_MemoryBytes := v\<rparr> else if num = 2 then q\<lparr>rq_CPUQuotaUS := v\<rparr>
     else if num = 3 then q\<lparr>rq_CPUPeriodUS := v\<rparr> else q)"
| "limits_apply (num, w) q = q"

fun request_apply :: "protowire \<Rightarrow> nat \<times> pb_value \<Rightarrow> run_request option \<Rightarrow> run_request option" where
  "request_apply P f None = None"
| "request_apply P (num, PbVarint v) (Some q) = Some (if num = 5 then q\<lparr>rq_TimeoutSeconds := v\<rparr> else q)"
| "request_apply P (num, PbBytes b) (Some q) =
     (if num = 1 then Some (q\<lparr>rq_JobID := b\<rparr>) else if num = 2 then Some (q\<lparr>rq_Command := b\<rparr>)
      else if num = 3 then Some (q\<lparr>rq_Args := rq_Args q @ [b]\<rparr>)
      else if num = 4 then map_option (\<lambda>fs. case fold entry_apply fs ([], []) of (k, v) \<Rightarrow> q\<lparr>rq_Env := (rq_Env q)(k \<mapsto> v)\<rparr>) (pb_read P b [])
      else if num = 6 then map_option (\<lambda>fs. fold limits_apply fs q) (pb_read P b [])
      else if num = 7 then Some (q\<lparr>rq_WorkingDir := b\<rparr>) else Some q)"
| "request_apply P (num, w) (Some q) = Some q"

definition read_run_request :: "protowire \<Rightarrow> string \<Rightarrow> run_request option" where
  "read_run_request P d = (case pb_read P d [] of None \<Rightarrow> None | Some fs \<Rightarrow> fold (request_apply P) fs (Some zero_request))"

section \<open>The request is read back\<close>

definition str_field :: "nat \<Rightarrow> string \<Rightarrow> (nat \<times> pb_value) list" where
  "str_field num s = (if s = [] then [] else [(num, PbBytes s)])"

definition uint_field :: "nat \<Rightarrow> 64 word \<Rightarrow> (nat \<times> pb_value) list" where
  "uint_field num v = (if v = 0 then [] else [(num, PbVarint v)])"

definition entry_fields :: "string \<times> string \<Rightarrow> (nat \<times> pb_value) list" where
  "entry_fields kv = str_field 1 (fst kv) @ str_field 2 (snd kv)"

definition limits_fields :: "run_request \<Rightarrow> (nat \<times> pb_value) list" where
  "limits_fields q = uint_field 1 (rq_MemoryBytes q) @ uint_field 2 (rq_CPUQuotaUS q) @ uint_field 3 (rq_CPUPeriodUS q)"

definition request_fields :: "protowire \<Rightarrow> string list \<Rightarrow> run_request \<Rightarrow> (nat \<times> pb_value) list" where
  "request_fields P ord q = str_field 1 (rq_JobID q) @ str_field 2 (rq_Command q) @ concat (map (str_field 3) (rq_Args q)) @
     map (\<lambda>k. (4, PbBytes (pb_message P (entry_fields (k, the (rq_Env q k)))))) ord @ uint_field 5 (rq_TimeoutSeconds q) @
     (if limits_fields q = [] then [] else [(6, PbBytes (pb_message P (limits_fields q)))]) @ str_field 7 (rq_WorkingDir q)"

lemma pb_message_append: "pb_message P (fs @ gs) = pb_message P fs @ pb_message P gs"
  by (simp add: pb_message_def)

lemma pbString_message: "pbString P b n s = b @ pb_message P (str_field n s)"
  by (simp add: pbString_def str_field_def pb_message_def)

lemma pbUint_message: "pbUint P b n v = b @ pb_message P (uint_field n v)"
  by (simp add: pbUint_def uint_field_def pb_message_def)

lemma encodeRunRequest_message: "encodeRunRequest P ord req = pb_message P (request_fields P ord req)"
proof -
  have args: "fold (\<lambda>arg b. pbString P b 3 arg) xs b = b @ pb_message P (concat (map (str_field 3) xs))" for xs b
    by (induction xs arbitrary: b) (simp_all add: pbString_message pb_message_append, simp add: pb_message_def)
  have env: "fold (\<lambda>k b. encode_entry P b (k, the (rq_Env req k))) ks b = b @ pb_message P (map (\<lambda>k. (4, PbBytes (pb_message P (entry_fields (k, the (rq_Env req k)))))) ks)" for ks b
    by (induction ks arbitrary: b) (simp_all add: encode_entry_def pbString_message pb_message_append entry_fields_def, simp_all add: pb_message_def)
  have lim: "encode_limits P req = pb_message P (limits_fields req)"
    by (simp add: encode_limits_def limits_fields_def pbUint_message pb_message_append)
  have ne: "rq_MemoryBytes req \<noteq> 0 \<or> rq_CPUQuotaUS req \<noteq> 0 \<or> rq_CPUPeriodUS req \<noteq> 0 \<longleftrightarrow> limits_fields req \<noteq> []"
    by (simp add: limits_fields_def uint_field_def)
  have one: "pb_message P [(6, PbBytes x)] = pw_Tag P 6 BytesType @ pw_Bytes P x" for x by (simp add: pb_message_def)
  have nil: "pb_message P [] = []" by (simp add: pb_message_def)
  show ?thesis
    unfolding encodeRunRequest_def Let_def ne args env lim
    unfolding pbString_message pbUint_message request_fields_def
    by (simp add: pb_message_append one nil)
qed

lemma pb_message_bytes:
  assumes "protowire_law P" and "(num, PbBytes b) \<in> set fs"
  shows "length b \<le> length (pb_message P fs)"
proof -
  have "length b \<le> length (pb_field P (num, PbBytes b))" using assms(1) by (simp add: protowire_law_def)
  also have "length (pb_field P (num, PbBytes b)) \<in> set (map (\<lambda>f. length (pb_field P f)) fs)" unfolding set_map using assms(2) by (rule imageI)
  then have "length (pb_field P (num, PbBytes b)) \<le> sum_list (map (\<lambda>f. length (pb_field P f)) fs)" by (rule member_le_sum_list) simp
  also have "\<dots> = length (pb_message P fs)" by (simp add: pb_message_def length_concat comp_def)
  finally show ?thesis .
qed

lemma pb_ok_str: "f \<in> set (str_field num s) \<Longrightarrow> 1 \<le> num \<Longrightarrow> num < 536870912 \<Longrightarrow> length s < 9223372036854775808 \<Longrightarrow> pb_ok f"
  by (auto simp: str_field_def split: if_splits)

lemma pb_ok_uint: "f \<in> set (uint_field num v) \<Longrightarrow> 1 \<le> num \<Longrightarrow> num < 536870912 \<Longrightarrow> pb_ok f"
  by (auto simp: uint_field_def split: if_splits)

text \<open>A message that fits a frame has no oversized field.\<close>

lemma small_fields_ok:
  assumes "protowire_law P" and "length (pb_message P fs) \<le> maxFrameBytes" and "\<forall>(num, v) \<in> set fs. 1 \<le> num \<and> num < 536870912 \<and> (\<exists>b w. v = PbBytes b \<or> v = PbVarint w)"
  shows "\<forall>f \<in> set fs. pb_ok f"
proof
  fix f
  assume f: "f \<in> set fs"
  obtain num v where v: "f = (num, v)" by fastforce
  have n: "1 \<le> num \<and> num < 536870912 \<and> (\<exists>b w. v = PbBytes b \<or> v = PbVarint w)" using assms(3) f v by auto
  show "pb_ok f"
  proof (cases v)
    case (PbBytes b)
    then have "length b \<le> maxFrameBytes" using pb_message_bytes [OF assms(1), of num b fs] f v assms(2) by simp
    with n v PbBytes show ?thesis by (simp add: maxFrameBytes_def)
  qed (use n v in auto)
qed

lemma fold_apply_None [simp]: "fold (request_apply P) fs None = None"
  by (induction fs) simp_all

lemma apply_args: "fold (request_apply P) (concat (map (str_field 3) xs)) (Some q) = Some (q\<lparr>rq_Args := rq_Args q @ filter (\<lambda>a. a \<noteq> []) xs\<rparr>)"
  by (induction xs arbitrary: q) (simp_all add: str_field_def)

lemma apply_fields:
  "fold (request_apply P) (str_field 1 x) (Some q) = Some (q\<lparr>rq_JobID := if x = [] then rq_JobID q else x\<rparr>)"
  "fold (request_apply P) (str_field 2 x) (Some q) = Some (q\<lparr>rq_Command := if x = [] then rq_Command q else x\<rparr>)"
  "fold (request_apply P) (uint_field 5 v) (Some q) = Some (q\<lparr>rq_TimeoutSeconds := if v = 0 then rq_TimeoutSeconds q else v\<rparr>)"
  "fold (request_apply P) (str_field 7 x) (Some q) = Some (q\<lparr>rq_WorkingDir := if x = [] then rq_WorkingDir q else x\<rparr>)"
  by (simp_all add: str_field_def uint_field_def)

lemma default_or_value [simp]: "(if x = [] then [] else x) = x" "(if v = 0 then 0 else v) = (v :: 64 word)"
  by simp_all

lemma fold_entry: "fold entry_apply (entry_fields (k, v)) ([], []) = (k, v)"
  by (simp add: entry_fields_def str_field_def)

lemma apply_env:
  assumes "protowire_law P" and "\<forall>k \<in> set ks. length (pb_message P (entry_fields (k, the (E k)))) \<le> maxFrameBytes"
  shows "fold (request_apply P) (map (\<lambda>k. (4, PbBytes (pb_message P (entry_fields (k, the (E k)))))) ks) (Some q) =
    Some (q\<lparr>rq_Env := (\<lambda>k. if k \<in> set ks then Some (the (E k)) else rq_Env q k)\<rparr>)"
  using assms(2)
proof (induction ks arbitrary: q)
  case (Cons k ks)
  let ?fs = "entry_fields (k, the (E k))"
  have "\<forall>f \<in> set ?fs. pb_ok f" by (rule small_fields_ok [OF assms(1)]) (use Cons.prems in \<open>auto simp: entry_fields_def str_field_def split: if_splits\<close>)
  then have "pb_read P (pb_message P ?fs) [] = Some ?fs" using pb_read_message [OF assms(1)] by fastforce
  then have a: "request_apply P (4, PbBytes (pb_message P ?fs)) (Some q) = Some (q\<lparr>rq_Env := (rq_Env q)(k \<mapsto> the (E k))\<rparr>)" by (simp add: fold_entry)
  have "(\<lambda>x. if x \<in> set ks then Some (the (E x)) else ((rq_Env q)(k \<mapsto> the (E k))) x) = (\<lambda>x. if x \<in> set (k # ks) then Some (the (E x)) else rq_Env q x)" by auto
  then show ?case unfolding list.map fold_simps(2) a using Cons.IH [of "q\<lparr>rq_Env := (rq_Env q)(k \<mapsto> the (E k))\<rparr>"] Cons.prems by (simp cong: if_cong)
qed simp

lemma fold_limits: "fold limits_apply (limits_fields r) q = q\<lparr>rq_MemoryBytes := (if rq_MemoryBytes r = 0 then rq_MemoryBytes q else rq_MemoryBytes r),
    rq_CPUQuotaUS := (if rq_CPUQuotaUS r = 0 then rq_CPUQuotaUS q else rq_CPUQuotaUS r), rq_CPUPeriodUS := (if rq_CPUPeriodUS r = 0 then rq_CPUPeriodUS q else rq_CPUPeriodUS r)\<rparr>"
  by (simp add: limits_fields_def uint_field_def)

text \<open>The runtime reads the request that was written, without the empty arguments; the devices travel in the environment.\<close>

definition received :: "run_request \<Rightarrow> run_request" where
  "received q = q\<lparr>rq_Args := filter (\<lambda>a. a \<noteq> []) (rq_Args q), rq_GPUs := 0, rq_IsService := False\<rparr>"

lemma read_encoded_request:
  assumes "protowire_law P" and "enumerates ord (rq_Env req)" and small: "length (encodeRunRequest P ord req) \<le> maxFrameBytes"
  shows "read_run_request P (encodeRunRequest P ord req) = Some (received req)"
proof -
  let ?fs = "request_fields P ord req" and ?lf = "limits_fields req" and ?E = "\<lambda>k. pb_message P (entry_fields (k, the (rq_Env req k)))"
  have len: "length (pb_message P ?fs) \<le> maxFrameBytes" using small by (simp add: encodeRunRequest_message)
  have typed: "\<forall>(num, v) \<in> set ?fs. 1 \<le> num \<and> num < 536870912 \<and> (\<exists>b w. v = PbBytes b \<or> v = PbVarint w)"
    by (auto simp: request_fields_def str_field_def uint_field_def split: if_splits)
  have read: "pb_read P (pb_message P ?fs) [] = Some ?fs" using pb_read_message [OF assms(1) small_fields_ok [OF assms(1) len typed], of "[]"] by simp
  have env: "\<forall>k \<in> set ord. length (?E k) \<le> maxFrameBytes"
  proof
    fix k assume "k \<in> set ord"
    then have "(4, PbBytes (?E k)) \<in> set ?fs" by (simp add: request_fields_def)
    from pb_message_bytes [OF assms(1) this] len show "length (?E k) \<le> maxFrameBytes" by simp
  qed
  have E: "(\<lambda>k. if k \<in> set ord then Some (the (rq_Env req k)) else None) = rq_Env req"
    using assms(2) by (auto simp: enumerates_def fun_eq_iff)
  have lim: "fold (request_apply P) (if ?lf = [] then [] else [(6, PbBytes (pb_message P ?lf))]) (Some q) = Some (fold limits_apply ?lf q)" for q
  proof (cases "?lf = []")
    case False
    then have "(6, PbBytes (pb_message P ?lf)) \<in> set ?fs" by (simp add: request_fields_def)
    from pb_message_bytes [OF assms(1) this] len have "length (pb_message P ?lf) \<le> maxFrameBytes" by simp
    moreover have "\<forall>(num, v) \<in> set ?lf. 1 \<le> num \<and> num < 536870912 \<and> (\<exists>b w. v = PbBytes b \<or> v = PbVarint w)" by (auto simp: limits_fields_def uint_field_def split: if_splits)
    ultimately have "pb_read P (pb_message P ?lf) [] = Some ?lf" using pb_read_message [OF assms(1) small_fields_ok [OF assms(1)], of ?lf "[]"] by simp
    with False show ?thesis by simp
  qed simp
  have "fold (request_apply P) ?fs (Some zero_request) = Some (received req)"
    unfolding request_fields_def fold_append comp_apply apply_fields apply_args apply_env [OF assms(1) env] lim fold_limits
    by (simp only: option.inject, rule run_request.equality) (simp_all add: zero_request_def E received_def cong: if_cong)
  then show ?thesis by (simp add: read_run_request_def encodeRunRequest_message read)
qed

section \<open>An exchange\<close>

text \<open>What the runtime answers: the fields of a response, default values left out.\<close>

definition response_message :: "string \<Rightarrow> run_result \<Rightarrow> (nat \<times> pb_value) list" where
  "response_message i res = str_field 1 i @ uint_field 2 (word_of_int (rr_ExitCode res)) @ str_field 3 (rr_Stdout res) @ str_field 4 (rr_Stderr res) @
     str_field 5 (rr_Error res) @ str_field 6 (rr_KillReason res)"

lemma int32_exit_code:
  assumes "- 2147483648 \<le> e" and "e < 2147483648"
  shows "sint (ucast (word_of_int e :: 64 word) :: 32 word) = e"
proof -
  have "(ucast (word_of_int e :: 64 word) :: 32 word) = word_of_int e" by (simp add: unsigned_of_int word_of_int_eq_iff)
  moreover have "sint (word_of_int e :: 32 word) = e" using assms by (simp add: signed_of_int signed_take_bit_int_eq_self)
  ultimately show ?thesis by simp
qed

lemma fold_response:
  assumes "- 2147483648 \<le> rr_ExitCode res" and "rr_ExitCode res < 2147483648"
  shows "fold response_apply (response_message i res) ([], zero_result) = (i, res)"
proof -
  have "word_of_int (rr_ExitCode res) = (0 :: 64 word) \<Longrightarrow> rr_ExitCode res = 0" using int32_exit_code [OF assms] by (metis unsigned_0 signed_0)
  with int32_exit_code [OF assms] show ?thesis
    by (cases res) (auto simp: response_message_def str_field_def uint_field_def zero_result_def)
qed

lemma decode_response:
  assumes "protowire_law P" and "length (pb_message P (response_message i res)) \<le> maxFrameBytes"
    and "- 2147483648 \<le> rr_ExitCode res" and "rr_ExitCode res < 2147483648"
  shows "decodeRunResponse P (pb_message P (response_message i res)) = Some ((i, res), None)"
proof -
  let ?fs = "response_message i res"
  have "\<forall>f \<in> set ?fs. pb_ok f"
    by (rule small_fields_ok [OF assms(1,2)]) (auto simp: response_message_def str_field_def uint_field_def split: if_splits)
  moreover have "\<forall>f \<in> set ?fs. response_typed f" by (auto simp: response_message_def str_field_def uint_field_def split: if_splits)
  ultimately have "\<forall>f \<in> set ?fs. pb_ok f \<and> response_typed f" by blast
  from response_loop_message [OF assms(1) this] fold_response [OF assms(3,4)] show ?thesis by (simp add: decodeRunResponse_def)
qed

text \<open>A runtime that reads a request and answers with what \<open>exec\<close> makes of it.\<close>

definition runtime_peer :: "protowire \<Rightarrow> (run_request \<Rightarrow> run_result) \<Rightarrow> string \<Rightarrow> string" where
  "runtime_peer P exec out = (case readFrame out of Inl e \<Rightarrow> []
     | Inr ((t, p), rest) \<Rightarrow> (case read_run_request P p of None \<Rightarrow> []
        | Some q \<Rightarrow> (case writeFrame MsgRunResponse (pb_message P (response_message (rq_JobID q) (exec q))) of Inl e \<Rightarrow> [] | Inr b \<Rightarrow> b)))"


section \<open>An instance of the library\<close>

function varint_bytes :: "nat \<Rightarrow> string" where
  "varint_bytes n = (if n < 128 then [char_of n] else char_of (128 + n mod 128) # varint_bytes (n div 128))"
  by pat_completeness auto
termination
  by (relation "measure id") auto

declare varint_bytes.simps [simp del]

fun varint_read :: "string \<Rightarrow> (nat \<times> nat) option" where
  "varint_read [] = None"
| "varint_read (c # cs) = (if of_char c < (128 :: nat) then Some (of_char c, 1)
     else case varint_read cs of None \<Rightarrow> None | Some (v, n) \<Rightarrow> Some (of_char c - 128 + 128 * v, Suc n))"

lemma varint_read_bytes: "varint_read (varint_bytes n @ r) = Some (n, length (varint_bytes n))"
proof (induction n rule: varint_bytes.induct)
  case (1 n)
  show ?case
  proof (cases "n < 128")
    case True
    then show ?thesis by (simp add: varint_bytes.simps [of n])
  next
    case False
    have m: "(of_char (char_of (128 + n mod 128)) :: nat) = 128 + n mod 128" by simp
    from False 1 show ?thesis by (simp add: varint_bytes.simps [of n] m del: of_char_of)
  qed
qed

lemma varint_read_bounds: "varint_read d = Some (v, n) \<Longrightarrow> 0 < n \<and> n \<le> length d"
  by (induction d arbitrary: v n) (auto split: if_splits option.splits)

definition demo_wire :: protowire where
  "demo_wire = \<lparr>pw_Tag = (\<lambda>num wt. varint_bytes (8 * num + wt)), pw_Varint = (\<lambda>v. varint_bytes (unat v)),
     pw_Bytes = (\<lambda>v. varint_bytes (unat (word_of_nat (length v) :: 64 word)) @ v),
     pw_ConsumeTag = (\<lambda>d. case varint_read d of None \<Rightarrow> None
        | Some (v, n) \<Rightarrow> if 1 \<le> v div 8 \<and> v div 8 < 536870912 then Some (v div 8, v mod 8, n) else None),
     pw_ConsumeVarint = (\<lambda>d. case varint_read d of None \<Rightarrow> None | Some (v, n) \<Rightarrow> if v < 18446744073709551616 then Some (word_of_nat v, n) else None),
     pw_ConsumeBytes = (\<lambda>d. case varint_read d of None \<Rightarrow> None | Some (v, n) \<Rightarrow> if v \<le> length d - n then Some (take v (drop n d), n + v) else None)\<rparr>"

lemma demo_wire_law: "protowire_law demo_wire"
proof -
  have l: "unat (word_of_nat n :: 64 word) = n" if "n < 9223372036854775808" for n using that by (simp add: unat_of_nat take_bit_nat_eq_self)
  have u: "unat v < 18446744073709551616" for v :: "64 word" using unsigned_less [of v] by simp
  have b: "n + v \<le> length d" if "varint_read d = Some (v, n)" "v \<le> length d - n" for d v n using varint_read_bounds [OF that(1)] that(2) by linarith
  show ?thesis
    by (auto simp: protowire_law_def demo_wire_def varint_read_bytes l u b dest: varint_read_bounds split: option.splits if_splits)
qed

definition demo_run :: run_request where
  "demo_run = zero_request\<lparr>rq_JobID := ''j'', rq_Command := ''ls'', rq_Args := [''-l'', []], rq_Env := [''A'' \<mapsto> ''b'']\<rparr>"

definition demo_exec :: "run_request \<Rightarrow> run_result" where
  "demo_exec q = zero_result\<lparr>rr_ExitCode := 1, rr_Stdout := concat (rq_Args q)\<rparr>"

lemma varint_small: "n < 128 \<Longrightarrow> varint_bytes n = [char_of n]"
  by (simp add: varint_bytes.simps [of n])

lemma demo_run_small:
  "length (encodeRunRequest demo_wire [''A''] demo_run) \<le> maxFrameBytes"
  "length (pb_message demo_wire (response_message (rq_JobID demo_run) (demo_exec (received demo_run)))) \<le> maxFrameBytes"
  by (simp_all add: encodeRunRequest_def pbString_def pbUint_def encode_entry_def demo_run_def zero_request_def demo_wire_def pb_message_def response_message_def str_field_def
      uint_field_def demo_exec_def zero_result_def received_def maxFrameBytes_def varint_small Let_def)


text \<open>An empty argument does not arrive: the helper for strings leaves an empty one out, also in the list of arguments.\<close>

lemma empty_argument_dropped:
  assumes "protowire_law P" and "rq_Args req = [x, [], y]" and "x \<noteq> []" and "y \<noteq> []" and "rq_Env req = Map.empty" and "length (encodeRunRequest P [] req) \<le> maxFrameBytes"
  shows "map_option rq_Args (read_run_request P (encodeRunRequest P [] req)) = Some [x, y]"
  using read_encoded_request [OF assms(1), of "[]" req] assms by (simp add: enumerates_def received_def)

text \<open>C35. Decoding a response returns for every sequence of bytes, and a well-formed message is decoded field by field,
  with output collected over repeated fields and every field of another number skipped, of whatever type.\<close>

theorem decoding_returns:
  assumes "protowire_law P"
  shows "(\<exists>x. decodeRunResponse P d = Some x) \<and> (\<exists>y. decodeCancelResponse P d = Some y) \<and>
    ((\<forall>f \<in> set fs. pb_ok f \<and> response_typed f) \<longrightarrow> decodeRunResponse P (pb_message P fs) = Some (fold response_apply fs ([], zero_result), None))"
  using response_loop_returns [OF assms] cancel_loop_returns [OF assms] response_loop_message [OF assms]
  by (simp add: decodeRunResponse_def decodeCancelResponse_def)

theorem decoding_returns_witness:
  "decodeRunResponse demo_wire (pb_message demo_wire [(9, PbFixed32 ''abcd''), (3, PbBytes ''a''), (3, PbBytes ''b'')]) = Some (([], zero_result\<lparr>rr_Stdout := ''ab''\<rparr>), None)"
  using decoding_returns [OF demo_wire_law, of "[]" "[(9, PbFixed32 ''abcd''), (3, PbBytes ''a''), (3, PbBytes ''b'')]"] by (simp add: zero_result_def)

end
