(* ===== verification/Audit_Log.thy ===== *)
theory Audit_Log
  imports Kv_Store Job_Api Complex_Main "HOL-Library.List_Lexorder" "HOL-Library.Char_ord"
begin

text \<open>
  The audit log (\<open>internal/audit/logger.go\<close>) over the key-value store, and the endpoint that pages through it
  (\<open>handleGetAudit\<close> of \<open>internal/api/handlers_cluster.go\<close>). An event is stored under a key made of its time in
  nanoseconds, a sequence number and its ID, the first two padded with zeros so that the byte order of the keys
  is the order of the events. The clock, the IDs, the JSON codec and the outcome of every write are arguments; the
  codec comes with what reading an event back makes of it (JSON replaces bytes that are no UTF-8).

  The lemmas show that the log refines a list of events: what a query returns, over every history of calls,
  failed writes and restarts.
\<close>

section \<open>Events\<close>

datatype detail = StrV string | NumV rat

record audit_event =
  ev_ID :: string
  ev_Timestamp :: time
  ev_Type :: string
  ev_Actor :: string
  ev_Principal :: string
  ev_PrincipalKind :: string
  ev_Details :: "(string \<times> detail) list"

record audit_codec =
  ac_enc :: "audit_event \<Rightarrow> string option"
  ac_dec :: "string \<Rightarrow> audit_event option"
  ac_norm :: "audit_event \<Rightarrow> audit_event"

definition audit_codec_law :: "audit_codec \<Rightarrow> bool" where
  "audit_codec_law C \<longleftrightarrow> (\<forall>e d. ac_enc C e = Some d \<longrightarrow> ac_dec C d = Some (ac_norm C e))"

text \<open>Times count from the zero time of Go; the Unix epoch is 1969 years later. \<open>%0wd\<close> counts the sign.\<close>

definition unix_epoch :: time where
  "unix_epoch = 62135596800 * second"

definition UnixNano :: "time \<Rightarrow> int" where
  "UnixNano t = sint (word_of_int (t - unix_epoch) :: 64 word)"

definition pad_int :: "nat \<Rightarrow> int \<Rightarrow> string" where
  "pad_int w i = (if 0 \<le> i then pad_dec w (nat i) else CHR ''-'' # pad_dec (w - 1) (nat (- i)))"

definition audit_key :: "time \<Rightarrow> 64 word \<Rightarrow> string \<Rightarrow> string" where
  "audit_key t q i = ''audit:'' @ pad_int 19 (UnixNano t) @ '':'' @ pad_int 16 (sint q) @ '':'' @ i"

section \<open>Logging\<close>

record audit_logger =
  al_store :: badger_kv
  al_ttl :: duration
  al_seq :: "64 word"

definition NewLogger :: "badger_kv \<Rightarrow> duration \<Rightarrow> audit_logger" where
  "NewLogger store ttl = \<lparr>al_store = store, al_ttl = ttl, al_seq = 0\<rparr>"

text \<open>What a call reads from outside: the two readings of the clock and the new ID.\<close>

record audit_draw =
  ad_now :: time
  ad_put :: time
  ad_id :: string

definition audit_event_of :: "ctx \<Rightarrow> string \<Rightarrow> string \<Rightarrow> (string \<times> detail) list \<Rightarrow> audit_draw \<Rightarrow> audit_event" where
  "audit_event_of cx eventType actor details d =
     (let e = \<lparr>ev_ID = ad_id d, ev_Timestamp = ad_now d, ev_Type = eventType, ev_Actor = actor, ev_Principal = [],
               ev_PrincipalKind = [], ev_Details = details\<rparr>; p = FromContext cx in
      if p_Kind p \<noteq> KindAnonymous then e\<lparr>ev_Principal := p_ID p, ev_PrincipalKind := kind_string (p_Kind p)\<rparr> else e)"

definition Log :: "audit_codec \<Rightarrow> ctx \<Rightarrow> string \<Rightarrow> string \<Rightarrow> (string \<times> detail) list \<Rightarrow> audit_draw \<Rightarrow> audit_logger \<Rightarrow> bool \<times> audit_logger" where
  "Log C cx eventType actor details d l =
     (case ac_enc C (audit_event_of cx eventType actor details d) of None \<Rightarrow> (False, l)
      | Some bs \<Rightarrow>
         let q = al_seq l + 1; key = audit_key (ad_now d) q (ad_id d);
             (ok, st) = (if 0 < al_ttl l then PutWithTTL (ad_put d) key bs (al_ttl l) (al_store l) else kv_Put key bs (al_store l)) in
         (ok, l\<lparr>al_store := st, al_seq := q\<rparr>))"

definition stampServiceIfMissing :: "ctx \<Rightarrow> principal \<Rightarrow> ctx" where
  "stampServiceIfMissing cx fallback = (if p_Kind (FromContext cx) \<noteq> KindAnonymous then cx else NewContext cx (Some fallback))"

definition ServiceCoordinator :: principal where
  "ServiceCoordinator = Service ''coordinator''"

definition LogNodeRegister :: "audit_codec \<Rightarrow> ctx \<Rightarrow> string \<Rightarrow> string \<Rightarrow> audit_draw \<Rightarrow> audit_logger \<Rightarrow> bool \<times> audit_logger" where
  "LogNodeRegister C cx nodeID address = Log C cx ''node_register'' nodeID [(''node_id'', StrV nodeID), (''address'', StrV address)]"

definition LogNodeRevoke :: "audit_codec \<Rightarrow> ctx \<Rightarrow> string \<Rightarrow> string \<Rightarrow> string \<Rightarrow> audit_draw \<Rightarrow> audit_logger \<Rightarrow> bool \<times> audit_logger" where
  "LogNodeRevoke C cx revokedBy nodeID reason = Log C cx ''node_revoke'' revokedBy [(''node_id'', StrV nodeID), (''reason'', StrV reason)]"

definition LogJobSubmit :: "audit_codec \<Rightarrow> ctx \<Rightarrow> string \<Rightarrow> string \<Rightarrow> string \<Rightarrow> audit_draw \<Rightarrow> audit_logger \<Rightarrow> bool \<times> audit_logger" where
  "LogJobSubmit C cx actor jobID command = Log C cx ''job_submit'' actor [(''job_id'', StrV jobID), (''command'', StrV command)]"

definition LogJobStateTransition :: "audit_codec \<Rightarrow> ctx \<Rightarrow> string \<Rightarrow> string \<Rightarrow> string \<Rightarrow> audit_draw \<Rightarrow> audit_logger \<Rightarrow> bool \<times> audit_logger" where
  "LogJobStateTransition C cx jobID fromState toState =
     Log C (stampServiceIfMissing cx ServiceCoordinator) ''job_state_transition'' ''system''
       [(''job_id'', StrV jobID), (''from_state'', StrV fromState), (''to_state'', StrV toState)]"

definition LogAuthFailure :: "audit_codec \<Rightarrow> ctx \<Rightarrow> string \<Rightarrow> string \<Rightarrow> audit_draw \<Rightarrow> audit_logger \<Rightarrow> bool \<times> audit_logger" where
  "LogAuthFailure C cx reason remoteAddr = Log C cx ''auth_failure'' ''unknown'' [(''reason'', StrV reason), (''remote_addr'', StrV remoteAddr)]"

definition LogRateLimitHit :: "audit_codec \<Rightarrow> ctx \<Rightarrow> string \<Rightarrow> rat \<Rightarrow> audit_draw \<Rightarrow> audit_logger \<Rightarrow> bool \<times> audit_logger" where
  "LogRateLimitHit C cx nodeID limit = Log C cx ''rate_limit_hit'' nodeID [(''limit_rps'', NumV limit)]"

definition LogCoordinatorStart :: "audit_codec \<Rightarrow> ctx \<Rightarrow> string \<Rightarrow> audit_draw \<Rightarrow> audit_logger \<Rightarrow> bool \<times> audit_logger" where
  "LogCoordinatorStart C cx version = Log C (stampServiceIfMissing cx ServiceCoordinator) ''coordinator_start'' ''system'' [(''version'', StrV version)]"

definition LogCoordinatorStop :: "audit_codec \<Rightarrow> ctx \<Rightarrow> string \<Rightarrow> audit_draw \<Rightarrow> audit_logger \<Rightarrow> bool \<times> audit_logger" where
  "LogCoordinatorStop C cx reason = Log C (stampServiceIfMissing cx ServiceCoordinator) ''coordinator_stop'' ''system'' [(''reason'', StrV reason)]"

definition LogSecurityViolation :: "audit_codec \<Rightarrow> ctx \<Rightarrow> string \<Rightarrow> string \<Rightarrow> string \<Rightarrow> audit_draw \<Rightarrow> audit_logger \<Rightarrow> bool \<times> audit_logger" where
  "LogSecurityViolation C cx nodeID jobID violation = Log C cx ''security_violation'' nodeID [(''job_id'', StrV jobID), (''violation'', StrV violation)]"

definition LogServiceEvent ::
  "audit_codec \<Rightarrow> ctx \<Rightarrow> string \<Rightarrow> string \<Rightarrow> bool \<Rightarrow> 32 word \<Rightarrow> string \<Rightarrow> 32 word \<Rightarrow> audit_draw \<Rightarrow> audit_logger \<Rightarrow> bool \<times> audit_logger" where
  "LogServiceEvent C cx nodeID jobID ready port healthPath consecutiveFailures =
     Log C cx (if \<not> ready then ''service.unhealthy'' else ''service.ready'') (''node:'' @ nodeID)
       [(''job_id'', StrV jobID), (''port'', NumV (of_int (uint port))), (''health_path'', StrV healthPath),
        (''consecutive_failures'', NumV (of_int (uint consecutiveFailures)))]"

section \<open>Queries\<close>

record audit_query =
  aq_StartTime :: time
  aq_EndTime :: time
  aq_Type :: string
  aq_Limit :: int

definition query_admits :: "audit_query \<Rightarrow> audit_event \<Rightarrow> bool" where
  "query_admits q e \<longleftrightarrow> \<not> (\<not> IsZero (aq_StartTime q) \<and> ev_Timestamp e < aq_StartTime q) \<and>
     \<not> (\<not> IsZero (aq_EndTime q) \<and> \<not> ev_Timestamp e < aq_EndTime q) \<and> \<not> (aq_Type q \<noteq> [] \<and> ev_Type e \<noteq> aq_Type q)"

definition QueryEvents :: "audit_codec \<Rightarrow> string list \<Rightarrow> time \<Rightarrow> audit_query \<Rightarrow> audit_logger \<Rightarrow> (kv_error + audit_event list) \<times> audit_logger" where
  "QueryEvents C ord now q l = (case kv_Scan ord now ''audit:'' (aq_Limit q) (al_store l) of
      (Inl e, st) \<Rightarrow> (Inl e, l\<lparr>al_store := st\<rparr>)
    | (Inr values, st) \<Rightarrow>
       let events = rev (filter (query_admits q) (List.map_filter (ac_dec C) values)) in
       (Inr (if 0 < aq_Limit q \<and> aq_Limit q < int (length events) then take (nat (aq_Limit q)) events else events), l\<lparr>al_store := st\<rparr>))"

section \<open>The endpoint\<close>

datatype audit_response = AuditError nat string | AuditOK "audit_event list" nat int int

text \<open>The product of the page is of 64 bits; \<open>None\<close> is the panic of a slice expression below zero.\<close>

definition handleGetAudit :: "audit_codec \<Rightarrow> string list \<Rightarrow> time \<Rightarrow> string \<Rightarrow> string \<Rightarrow> string \<Rightarrow> audit_logger option \<Rightarrow> audit_response option \<times> audit_logger option" where
  "handleGetAudit C ord now pageStr sizeStr typeFilter lo = (case lo of None \<Rightarrow> (Some (AuditError 501 ''audit logging not configured''), None)
    | Some l \<Rightarrow>
       (case (if pageStr = [] then Some 1 else case Atoi pageStr of None \<Rightarrow> None | Some p \<Rightarrow> if p < 1 then None else Some p) of
          None \<Rightarrow> (Some (AuditError 400 ''page must be a positive integer''), lo)
        | Some page \<Rightarrow>
          (case (if sizeStr = [] then Some 50 else case Atoi sizeStr of None \<Rightarrow> None | Some z \<Rightarrow> if z < 1 \<or> 100 < z then None else Some z) of
             None \<Rightarrow> (Some (AuditError 400 ''size must be an integer between 1 and 100''), lo)
           | Some sz \<Rightarrow>
             (case QueryEvents C ord now \<lparr>aq_StartTime = time_zero, aq_EndTime = time_zero, aq_Type = typeFilter, aq_Limit = sz\<rparr> l of
                (Inl e, l) \<Rightarrow> (Some (AuditError 500 ''internal error''), Some l)
              | (Inr events, l) \<Rightarrow>
                 let skip = sint (word_of_int ((page - 1) * sz) :: 64 word) in
                 if int (length events) \<le> skip then (Some (AuditOK [] 0 page sz), Some l)
                 else if skip < 0 then (None, Some l)
                 else let events = take (nat (min (skip + sz) (int (length events)) - skip)) (drop (nat skip) events) in
                   (Some (AuditOK events (length events) page sz), Some l)))))"

section \<open>The order of the keys\<close>

lemma list_less_append: "length s = length t \<Longrightarrow> s < t \<Longrightarrow> s @ x < t @ (y :: 'a :: linorder list)"
  by (induction s t rule: list_induct2) auto

lemma list_less_append_same [simp]: "s @ x < s @ y \<longleftrightarrow> x < (y :: 'a :: linorder list)"
  by (induction s) auto

lemma dec_value_Cons: "dec_value (c # s) = (of_char c - 48) * 10 ^ length s + dec_value s"
proof -
  have "foldl (\<lambda>a c. 10 * a + (of_char c - 48)) a s = a * 10 ^ length s + foldl (\<lambda>a c. 10 * a + (of_char c - 48)) 0 s" for a :: nat
  proof (induction s arbitrary: a)
    case (Cons c s)
    show ?case
      by (simp add: Cons [of "10 * a + (of_char c - 48)"] Cons [of "of_char c - 48"] distrib_right)
  qed simp
  from this [of "of_char c - 48"] show ?thesis by (simp add: dec_value_def)
qed

lemma dec_value_bound: "list_all (byte_range 48 57) s \<Longrightarrow> dec_value s < 10 ^ length s"
proof (induction s)
  case (Cons c s)
  then have "dec_value s < 10 ^ length s" and "of_char c - 48 \<le> (9 :: nat)" by (auto simp: byte_range_def)
  then have "dec_value (c # s) < (of_char c - 48) * 10 ^ length s + 10 ^ length s" by (simp add: dec_value_Cons)
  also have "\<dots> = ((of_char c - 48) + 1) * 10 ^ length s" by simp
  also have "\<dots> \<le> 10 * 10 ^ length s" using \<open>of_char c - 48 \<le> 9\<close> by (intro mult_right_mono) auto
  finally show ?case by simp
qed (simp add: dec_value_def)

text \<open>Digit strings of one length are ordered as their values.\<close>

lemma digits_less:
  "length s = length t \<Longrightarrow> list_all (byte_range 48 57) s \<Longrightarrow> list_all (byte_range 48 57) t \<Longrightarrow> dec_value s < dec_value t \<Longrightarrow> s < t"
proof (induction s t rule: list_induct2)
  case (Cons c s d t)
  have l: "length s = length t" using Cons.hyps .
  have r: "48 \<le> (of_char c :: nat)" "48 \<le> (of_char d :: nat)" using Cons.prems by (auto simp: byte_range_def)
  have b: "dec_value t < 10 ^ length t" using Cons.prems dec_value_bound by simp
  consider "c < d" | "c = d" | "d < c" by (rule linorder_cases)
  then show ?case
  proof cases
    case 3
    then have "(of_char d :: nat) - 48 + 1 \<le> of_char c - 48" using r by (simp add: less_char_def)
    then have "((of_char d :: nat) - 48 + 1) * 10 ^ length t \<le> (of_char c - 48) * 10 ^ length t" by (intro mult_right_mono) auto
    with b Cons.prems(3) l show ?thesis by (simp add: dec_value_Cons)
  qed (use Cons l in \<open>auto simp: dec_value_Cons\<close>)
qed simp

lemma length_Itoa: "n < 10 ^ w \<Longrightarrow> 0 < w \<Longrightarrow> length (Itoa n) \<le> w"
proof (induction n arbitrary: w rule: Itoa.induct)
  case (1 n)
  show ?case
  proof (cases "n < 10")
    case False
    from 1 obtain v where w: "w = Suc v" by (cases w) auto
    with 1 False have "n div 10 < 10 ^ v" and "0 < v" by (auto intro: Nat.gr0I)
    with 1 False w show ?thesis by (simp add: Itoa.simps [of n])
  qed (use 1 in \<open>simp add: Itoa.simps [of n]\<close>)
qed

lemma length_pad_dec: "n < 10 ^ w \<Longrightarrow> 0 < w \<Longrightarrow> length (pad_dec w n) = w"
  using length_Itoa [of n w] by (simp add: pad_dec_def)

lemma pad_dec_less: "m < n \<Longrightarrow> n < 10 ^ w \<Longrightarrow> 0 < w \<Longrightarrow> pad_dec w m < pad_dec w n"
  using digits_less [of "pad_dec w m" "pad_dec w n"] by (simp add: length_pad_dec pad_dec_digits dec_value_pad)

text \<open>Between 1970 and 2262 and for the first ten to the sixteen events, later events have larger keys.\<close>

definition in_range :: "time \<Rightarrow> bool" where
  "in_range t \<longleftrightarrow> unix_epoch \<le> t \<and> t - unix_epoch < 2 ^ 63"

lemma UnixNano_in_range: "in_range t \<Longrightarrow> UnixNano t = t - unix_epoch"
  unfolding in_range_def UnixNano_def by (rule sint_word_of_int_64) auto

lemma pad_int_less: "0 \<le> a \<Longrightarrow> a < b \<Longrightarrow> b < 10 ^ w \<Longrightarrow> 0 < w \<Longrightarrow> pad_int w a < pad_int w b"
  using pad_dec_less [of "nat a" "nat b" w] by (simp add: pad_int_def nat_less_iff)

lemma length_pad_int: "0 \<le> a \<Longrightarrow> a < 10 ^ w \<Longrightarrow> 0 < w \<Longrightarrow> length (pad_int w a) = w"
  using length_pad_dec [of "nat a" w] by (simp add: pad_int_def nat_less_iff)

lemma audit_key_less_time: "in_range t \<Longrightarrow> in_range t' \<Longrightarrow> t < t' \<Longrightarrow> audit_key t q i < audit_key t' q' i'"
  unfolding audit_key_def list_less_append_same append_assoc
  by (intro list_less_append) (auto simp: UnixNano_in_range in_range_def length_pad_int intro!: pad_int_less)

lemma audit_key_less_seq:
  "0 \<le> sint q \<Longrightarrow> sint q < sint q' \<Longrightarrow> sint q' < 10 ^ 16 \<Longrightarrow> audit_key t q i < audit_key t q' i'"
  unfolding audit_key_def list_less_append_same append_assoc
  by (intro list_less_append) (auto simp: length_pad_int intro!: pad_int_less)

section \<open>Histories\<close>

text \<open>Calls of \<open>Log\<close>, whatever writes failed, and restarts, which begin the sequence again.\<close>

datatype audit_op = LogCall ctx string string "(string \<times> detail) list" audit_draw | Restart

text \<open>What is recorded: the events whose calls succeeded, with the second at which each expires.\<close>

fun audit_run :: "audit_codec \<Rightarrow> audit_op list \<Rightarrow> audit_logger \<Rightarrow> (audit_event \<times> int option) list \<times> audit_logger" where
  "audit_run C [] l = ([], l)"
| "audit_run C (Restart # ops) l = audit_run C ops (NewLogger (al_store l) (al_ttl l))"
| "audit_run C (LogCall cx ty actor details d # ops) l =
     (let (ok, l') = Log C cx ty actor details d l; (es, l'') = audit_run C ops l' in
      ((if ok then [(audit_event_of cx ty actor details d, if 0 < al_ttl l then Some ((ad_put d + al_ttl l) div second) else None)] else []) @ es, l''))"

text \<open>The clock does not go back, and moves across a restart.\<close>

fun clocked :: "time \<Rightarrow> bool \<Rightarrow> audit_op list \<Rightarrow> bool" where
  "clocked t fresh [] \<longleftrightarrow> True"
| "clocked t fresh (Restart # ops) \<longleftrightarrow> clocked t True ops"
| "clocked t fresh (LogCall cx ty actor details d # ops) \<longleftrightarrow>
     (if fresh then t < ad_now d else t \<le> ad_now d) \<and> in_range (ad_now d) \<and> clocked (ad_now d) False ops"

definition unexpired :: "time \<Rightarrow> audit_event \<times> int option \<Rightarrow> bool" where
  "unexpired now p \<longleftrightarrow> (case snd p of None \<Rightarrow> True | Some x \<Rightarrow> now div second < x)"

text \<open>The audit keys of a store in their order, with what each holds.\<close>

definition trail :: "audit_codec \<Rightarrow> (string \<times> audit_event \<times> int option) list \<Rightarrow> badger_kv \<Rightarrow> bool" where
  "trail C xs st \<longleftrightarrow> sorted (map fst xs) \<and> distinct (map fst xs) \<and>
     set (map fst xs) = {k \<in> dom (kb_entries st). HasPrefix k ''audit:''} \<and>
     (\<forall>(k, e, x) \<in> set xs. \<exists>bs. kb_entries st k = Some \<lparr>en_value = bs, en_expires = x\<rparr> \<and> ac_dec C bs = Some (ac_norm C e))"

definition below :: "time \<Rightarrow> bool \<Rightarrow> 64 word \<Rightarrow> string \<Rightarrow> bool" where
  "below t fresh q k \<longleftrightarrow> (\<exists>t' q' i. k = audit_key t' q' i \<and> in_range t' \<and> (t' < t \<or> t' = t \<and> (fresh \<or> 0 \<le> sint q' \<and> sint q' \<le> sint q)))"

lemma trail_faults [simp]: "trail C xs (st\<lparr>kb_faults := fs\<rparr>) = trail C xs st"
  by (simp add: trail_def)

lemma trail_extend:
  assumes tr: "trail C xs st" and k: "\<forall>k' \<in> fst ` set xs. k' < k" "HasPrefix k ''audit:''" and d: "ac_dec C bs = Some (ac_norm C e)"
  shows "trail C (xs @ [(k, e, x)]) (st\<lparr>kb_entries := (kb_entries st)(k \<mapsto> \<lparr>en_value = bs, en_expires = x\<rparr>), kb_faults := fs\<rparr>)"
proof -
  have notin: "k \<notin> fst ` set xs" using k(1) by blast
  show ?thesis
    unfolding trail_def
  proof (intro conjI)
    show "sorted (map fst (xs @ [(k, e, x)]))" using tr k(1) by (auto simp: trail_def sorted_append less_imp_le)
    show "distinct (map fst (xs @ [(k, e, x)]))" using tr notin by (auto simp: trail_def)
    show "set (map fst (xs @ [(k, e, x)])) = {k' \<in> dom (kb_entries (st\<lparr>kb_entries := (kb_entries st)(k \<mapsto> \<lparr>en_value = bs, en_expires = x\<rparr>), kb_faults := fs\<rparr>)).
        HasPrefix k' ''audit:''}"
      using tr k(2) by (auto simp: trail_def)
    show "\<forall>(k', e', x') \<in> set (xs @ [(k, e, x)]). \<exists>bs'. kb_entries (st\<lparr>kb_entries := (kb_entries st)(k \<mapsto> \<lparr>en_value = bs, en_expires = x\<rparr>), kb_faults := fs\<rparr>) k' =
        Some \<lparr>en_value = bs', en_expires = x'\<rparr> \<and> ac_dec C bs' = Some (ac_norm C e')"
    proof
      fix y assume y: "y \<in> set (xs @ [(k, e, x)])"
      obtain k' e' x' where [simp]: "y = (k', e', x')" by (cases y)
      show "case y of (k', e', x') \<Rightarrow> \<exists>bs'. kb_entries (st\<lparr>kb_entries := (kb_entries st)(k \<mapsto> \<lparr>en_value = bs, en_expires = x\<rparr>), kb_faults := fs\<rparr>) k' =
          Some \<lparr>en_value = bs', en_expires = x'\<rparr> \<and> ac_dec C bs' = Some (ac_norm C e')"
      proof (cases "y \<in> set xs")
        case True
        then have "k' \<noteq> k" using notin by force
        moreover from True tr have "\<exists>bs. kb_entries st k' = Some \<lparr>en_value = bs, en_expires = x'\<rparr> \<and> ac_dec C bs = Some (ac_norm C e')"
          unfolding trail_def by force
        ultimately show ?thesis by simp
      next
        case False
        with y d show ?thesis by auto
      qed
    qed
  qed
qed

lemma sint_Suc: "0 \<le> sint q \<Longrightarrow> sint q + 1 < 10 ^ 16 \<Longrightarrow> sint (q + 1 :: 64 word) = sint q + 1"
  using sint_word_of_int_64 [of "sint q + 1"] by simp

lemma below_less:
  assumes b: "below t fresh q k" and r: "in_range t2" and c: "if fresh then t < t2 else t \<le> t2" and q: "0 \<le> sint q" "sint q + 1 < 10 ^ 16"
  shows "k < audit_key t2 (q + 1) i"
proof -
  from b obtain t' q' i' where k: "k = audit_key t' q' i'" "in_range t'"
    and o: "t' < t \<or> t' = t \<and> (fresh \<or> 0 \<le> sint q' \<and> sint q' \<le> sint q)" unfolding below_def by blast
  from o c consider "t' < t2" | "t' = t2" "0 \<le> sint q'" "sint q' \<le> sint q" by (cases "t' < t2") (auto split: if_splits)
  then show ?thesis
  proof cases
    case 1
    with k r show ?thesis by (simp add: audit_key_less_time)
  next
    case 2
    with k q show ?thesis by (simp add: audit_key_less_seq sint_Suc)
  qed
qed

lemma below_step:
  "below t fresh q k \<Longrightarrow> (if fresh then t < t2 else t \<le> t2) \<Longrightarrow> 0 \<le> sint q \<Longrightarrow> sint q + 1 < 10 ^ 16 \<Longrightarrow> below t2 False (q + 1) k"
  unfolding below_def sint_Suc [of q] by (cases "t = t2") (auto simp: sint_Suc split: if_splits, fastforce+)

lemma below_weaken: "below t fresh q k \<Longrightarrow> below t True q' k"
  unfolding below_def by blast

text \<open>One call adds its event behind all others, or nothing.\<close>

lemma Log_trail:
  assumes law: "audit_codec_law C" and log: "Log C cx ty actor details d l = (ok, l')"
    and tr: "trail C xs (al_store l)" "\<forall>k \<in> fst ` set xs. below t fresh (al_seq l) k"
    and c: "if fresh then t < ad_now d else t \<le> ad_now d" "in_range (ad_now d)" and q: "0 \<le> sint (al_seq l)" "sint (al_seq l) + 1 < 10 ^ 16"
  shows "\<exists>ys. trail C (xs @ ys) (al_store l') \<and> (\<forall>k \<in> fst ` set (xs @ ys). below (ad_now d) False (al_seq l') k) \<and>
     0 \<le> sint (al_seq l') \<and> sint (al_seq l') \<le> sint (al_seq l) + 1 \<and> al_ttl l' = al_ttl l \<and>
     map snd ys = (if ok then [(audit_event_of cx ty actor details d, if 0 < al_ttl l then Some ((ad_put d + al_ttl l) div second) else None)] else [])"
    (is "\<exists>ys. ?P ys")
proof (cases "ac_enc C (audit_event_of cx ty actor details d)")
  case None
  then have [simp]: "ok = False" "l' = l" using log by (auto simp: Log_def)
  have "below (ad_now d) False (al_seq l) k" if "below t fresh (al_seq l) k" for k
    using that c(1) unfolding below_def by (fastforce split: if_splits)
  with tr q have "?P []" by auto
  then show ?thesis ..
next
  case (Some bs)
  let ?k = "audit_key (ad_now d) (al_seq l + 1) (ad_id d)"
  let ?x = "if 0 < al_ttl l then Some ((ad_put d + al_ttl l) div second) else None"
  from law Some have dec: "ac_dec C bs = Some (ac_norm C (audit_event_of cx ty actor details d))" by (simp add: audit_codec_law_def)
  from log Some obtain st where w: "kv_write ?k (Some \<lparr>en_value = bs, en_expires = ?x\<rparr>) (al_store l) = (ok, st)"
    and l': "l' = l\<lparr>al_store := st, al_seq := al_seq l + 1\<rparr>"
    by (auto simp: Log_def PutWithTTL_def kv_Put_def Let_def split: prod.splits if_splits)
  have lt: "\<forall>k \<in> fst ` set xs. k < ?k" using tr(2) c q below_less by blast
  have old: "\<forall>k \<in> fst ` set xs. below (ad_now d) False (al_seq l + 1) k" using tr(2) c(1) q below_step by blast
  have new: "below (ad_now d) False (al_seq l + 1) ?k" using c(2) q unfolding below_def
    by (intro exI [of _ "ad_now d"] exI [of _ "al_seq l + 1"] exI [of _ "ad_id d"]) (simp add: sint_Suc)
  have pre: "HasPrefix ?k ''audit:''" by (simp add: audit_key_def HasPrefix_iff)
  show ?thesis
  proof (cases ok)
    case True
    with kv_write_result [OF w] have "trail C (xs @ [(?k, audit_event_of cx ty actor details d, ?x)]) st"
      using trail_extend [OF tr(1) lt pre dec] by simp
    with True l' old new q have "?P [(?k, audit_event_of cx ty actor details d, ?x)]" by (auto simp: sint_Suc)
    then show ?thesis ..
  next
    case False
    with kv_write_result [OF w] l' tr(1) old q have "?P []" by (auto simp: sint_Suc)
    then show ?thesis ..
  qed
qed

lemma audit_run_trail:
  assumes law: "audit_codec_law C"
  shows "audit_run C ops l = (es, l') \<Longrightarrow> trail C xs (al_store l) \<Longrightarrow> \<forall>k \<in> fst ` set xs. below t fresh (al_seq l) k \<Longrightarrow> clocked t fresh ops \<Longrightarrow>
    0 \<le> sint (al_seq l) \<Longrightarrow> sint (al_seq l) + int (length ops) < 10 ^ 16 \<Longrightarrow> \<exists>ys. trail C (xs @ ys) (al_store l') \<and> map snd ys = es"
proof (induction ops arbitrary: l es xs t fresh)
  case Nil
  then show ?case by (intro exI [of _ "[]"]) auto
next
  case (Cons op ops)
  show ?case
  proof (cases op)
    case Restart
    have "\<forall>k \<in> fst ` set xs. below t True 0 k" using Cons.prems(3) below_weaken by blast
    then show ?thesis
      using Cons.IH [of "NewLogger (al_store l) (al_ttl l)" es xs t True] Cons.prems Restart by (simp add: NewLogger_def)
  next
    case (LogCall cx ty actor details d)
    obtain ok l1 where log: "Log C cx ty actor details d l = (ok, l1)" by fastforce
    obtain es' where run: "audit_run C ops l1 = (es', l')" using Cons.prems(1) LogCall log by (auto split: prod.splits)
    from Log_trail [OF law log Cons.prems(2,3)] Cons.prems(4-6) LogCall obtain ys where
      ys: "trail C (xs @ ys) (al_store l1)" "\<forall>k \<in> fst ` set (xs @ ys). below (ad_now d) False (al_seq l1) k"
        "0 \<le> sint (al_seq l1)" "sint (al_seq l1) \<le> sint (al_seq l) + 1"
      and es: "map snd ys @ es' = es" using Cons.prems(1) run log by auto
    from Cons.IH [OF run ys(1,2)] ys(3,4) Cons.prems(4,6) LogCall obtain zs where "trail C (xs @ ys @ zs) (al_store l')" "map snd zs = es'" by auto
    with es show ?thesis by (intro exI [of _ "ys @ zs"]) auto
  qed
qed

text \<open>A scan of the trail in the order of the keys.\<close>

lemma map_filter_guard: "List.map_filter (\<lambda>k. if P k then f k else None) ks = List.map_filter f (filter P ks)"
  by (induction ks) (auto simp: map_filter_simps split: option.splits)

lemma trail_values:
  "\<forall>(k, e, x) \<in> set xs. \<exists>bs. kb_entries st k = Some \<lparr>en_value = bs, en_expires = x\<rparr> \<and> ac_dec C bs = Some (ac_norm C e) \<Longrightarrow>
     \<exists>vs. List.map_filter (\<lambda>k. kv_look now k st) (map fst xs) = map fst vs \<and> map snd vs = map fst (filter (unexpired now) (map snd xs)) \<and>
       (\<forall>(v, e) \<in> set vs. ac_dec C v = Some (ac_norm C e))"
proof (induction xs)
  case (Cons y xs)
  obtain k e x where y: "y = (k, e, x)" by (cases y)
  from Cons.prems y obtain bs where bs: "kb_entries st k = Some \<lparr>en_value = bs, en_expires = x\<rparr>" "ac_dec C bs = Some (ac_norm C e)" by auto
  from Cons obtain vs where vs: "List.map_filter (\<lambda>k. kv_look now k st) (map fst xs) = map fst vs"
    "map snd vs = map fst (filter (unexpired now) (map snd xs))" "\<forall>(v, e) \<in> set vs. ac_dec C v = Some (ac_norm C e)" by auto
  have look: "kv_look now k st = (if unexpired now (e, x) then Some bs else None)"
    using bs(1) by (simp add: kv_look_def live_def unexpired_def split: option.splits)
  show ?case
  proof (cases "unexpired now (e, x)")
    case True
    with y bs vs look show ?thesis by (intro exI [of _ "(bs, e) # vs"]) (auto simp: map_filter_simps)
  next
    case False
    with y vs look show ?thesis by (intro exI [of _ vs]) (auto simp: map_filter_simps)
  qed
qed (auto simp: map_filter_simps)

lemma map_filter_dec: "\<forall>(v, e) \<in> set vs. ac_dec C v = Some (ac_norm C e) \<Longrightarrow> List.map_filter (ac_dec C) (map fst vs) = map (ac_norm C) (map snd vs)"
  by (induction vs) (auto simp: map_filter_simps)

lemma map_filter_dec_take:
  assumes "\<forall>(v, e) \<in> set vs. ac_dec C v = Some (ac_norm C e)"
  shows "List.map_filter (ac_dec C) (take n (map fst vs)) = map (ac_norm C) (take n (map snd vs))"
proof -
  have "\<forall>(v, e) \<in> set (take n vs). ac_dec C v = Some (ac_norm C e)" using assms by (auto dest: in_set_takeD)
  from map_filter_dec [OF this] show ?thesis by (simp add: take_map)
qed

lemma trail_scan:
  assumes tr: "trail C xs st" and ord: "enumerates ord (kb_entries st)" "sorted ord"
  shows "filter (\<lambda>k. HasPrefix k ''audit:'') ord = map fst xs"
proof (rule sorted_distinct_set_unique)
  show "set (filter (\<lambda>k. HasPrefix k ''audit:'') ord) = set (map fst xs)" using tr ord by (auto simp: trail_def enumerates_def)
qed (use tr ord in \<open>auto simp: trail_def enumerates_def sorted_wrt_filter\<close>)

text \<open>C30. The audit log is a list: over every history of calls, failed writes and restarts on a store without audit keys, with a
  clock that does not go back, a query gives exactly the events whose calls succeeded and which have not expired, newest
  first and filtered by the query, with a positive limit out of the oldest that many; it fails only when the scan does.\<close>

theorem audit_log_is_a_list:
  assumes law: "audit_codec_law C" and clean: "\<forall>k \<in> dom (kb_entries store). \<not> HasPrefix k ''audit:''"
    and run: "audit_run C ops (NewLogger store ttl) = (es, l)" and clock: "clocked unix_epoch False ops" and len: "int (length ops) < 10 ^ 16"
    and ord: "enumerates ord (kb_entries (al_store l))" "sorted ord"
  shows "fst (QueryEvents C ord now q l) = (if fst (next_fault (al_store l)) then Inl KvFailed
     else Inr (rev (filter (query_admits q) (map (ac_norm C)
       ((if 0 < aq_Limit q then take (nat (aq_Limit q)) else id) (map fst (filter (unexpired now) es)))))))"
proof -
  let ?cut = "if 0 < aq_Limit q then take (nat (aq_Limit q)) else id"
  have "trail C [] store" using clean by (auto simp: trail_def)
  with audit_run_trail [OF law run, of "[]" unix_epoch False] clock len obtain ys where tr: "trail C ys (al_store l)" and es: "map snd ys = es"
    by (auto simp: NewLogger_def)
  from trail_values [of ys "al_store l" C now] tr obtain vs where
    vs: "List.map_filter (\<lambda>k. kv_look now k (al_store l)) (map fst ys) = map fst vs" "map snd vs = map fst (filter (unexpired now) es)"
      "\<forall>(v, e) \<in> set vs. ac_dec C v = Some (ac_norm C e)" unfolding trail_def es by blast
  have scan: "List.map_filter (\<lambda>k. if HasPrefix k ''audit:'' then kv_look now k (al_store l) else None) ord = map fst vs"
    using vs(1) trail_scan [OF tr ord] by (simp add: map_filter_guard)
  have dec: "List.map_filter (ac_dec C) (?cut (map fst vs)) = map (ac_norm C) (?cut (map fst (filter (unexpired now) es)))"
    using map_filter_dec_take [OF vs(3)] map_filter_dec [OF vs(3)] by (simp add: vs(2) del: map_map)
  have short: "\<not> (0 < aq_Limit q \<and> aq_Limit q < int (length (rev (filter (query_admits q) (List.map_filter (ac_dec C) (?cut (map fst vs)))))))"
    unfolding dec using length_filter_le [of "query_admits q \<circ> ac_norm C" "take (nat (aq_Limit q)) (map fst (filter (unexpired now) es))"]
    by (auto simp: filter_map simp del: map_map length_filter_le)
  obtain b st where nf: "next_fault (al_store l) = (b, st)" and st: "st = (al_store l)\<lparr>kb_faults := tl (kb_faults (al_store l))\<rparr>"
    by (simp add: next_fault_def)
  have sc: "kv_Scan ord now ''audit:'' (aq_Limit q) (al_store l) = (if b then Inl KvFailed else Inr (?cut (map fst vs)), st)"
    using scan by (cases b) (auto simp: kv_Scan_def nf st Let_def cong: if_cong)
  show ?thesis
  proof (cases b)
    case True
    then show ?thesis by (simp add: QueryEvents_def sc nf)
  next
    case False
    let ?es = "rev (filter (query_admits q) (List.map_filter (ac_dec C) (?cut (map fst vs))))"
    have "fst (QueryEvents C ord now q l) = Inr (if 0 < aq_Limit q \<and> aq_Limit q < int (length ?es) then take (nat (aq_Limit q)) ?es else ?es)"
      by (simp only: QueryEvents_def sc False Let_def if_False prod.case sum.case fst_conv)
    also have "\<dots> = Inr ?es" using short by (simp only: if_False)
    finally show ?thesis unfolding dec by (simp only: nf False fst_conv if_False)
  qed
qed

definition demo_audit_event :: "string \<Rightarrow> time \<Rightarrow> audit_event" where
  "demo_audit_event i t = audit_event_of (Some ServiceCoordinator) ''job_submit'' ''alice'' [(''job_id'', StrV i)] \<lparr>ad_now = t, ad_put = t, ad_id = i\<rparr>"

definition demo_audit_codec :: audit_codec where
  "demo_audit_codec = \<lparr>ac_enc = (\<lambda>e. if e = demo_audit_event (ev_ID e) (unix_epoch + 5) then Some (ev_ID e) else None),
     ac_dec = (\<lambda>d. Some (demo_audit_event d (unix_epoch + 5))), ac_norm = id\<rparr>"

definition demo_audit_ops :: "audit_op list" where
  "demo_audit_ops = map (\<lambda>i. LogCall (Some ServiceCoordinator) ''job_submit'' ''alice'' [(''job_id'', StrV i)]
     \<lparr>ad_now = unix_epoch + 5, ad_put = unix_epoch + 5, ad_id = i\<rparr>) [''a'', ''b'', ''c'']"

definition demo_audit_logger :: audit_logger where
  "demo_audit_logger = snd (audit_run demo_audit_codec demo_audit_ops (NewLogger \<lparr>kb_entries = Map.empty, kb_faults = [False, True, False]\<rparr> 0))"

lemma demo_audit_run:
  "audit_run demo_audit_codec demo_audit_ops (NewLogger \<lparr>kb_entries = Map.empty, kb_faults = [False, True, False]\<rparr> 0) =
     ([(demo_audit_event ''a'' (unix_epoch + 5), None), (demo_audit_event ''c'' (unix_epoch + 5), None)], demo_audit_logger)"
  "finite (dom (kb_entries (al_store demo_audit_logger)))" "kb_faults (al_store demo_audit_logger) = []"
proof -
  have e: "ac_enc demo_audit_codec (audit_event_of (Some ServiceCoordinator) ''job_submit'' ''alice'' [(''job_id'', StrV i)]
      \<lparr>ad_now = unix_epoch + 5, ad_put = unix_epoch + 5, ad_id = i\<rparr>) = Some i" for i
    by (auto simp: demo_audit_codec_def demo_audit_event_def audit_event_of_def Let_def)
  show "finite (dom (kb_entries (al_store demo_audit_logger)))" "kb_faults (al_store demo_audit_logger) = []"
    by (simp_all add: demo_audit_logger_def demo_audit_ops_def Log_def e NewLogger_def kv_Put_def kv_write_def next_fault_def Let_def)
  show "audit_run demo_audit_codec demo_audit_ops (NewLogger \<lparr>kb_entries = Map.empty, kb_faults = [False, True, False]\<rparr> 0) =
     ([(demo_audit_event ''a'' (unix_epoch + 5), None), (demo_audit_event ''c'' (unix_epoch + 5), None)], demo_audit_logger)"
    by (simp add: demo_audit_logger_def demo_audit_ops_def Log_def e NewLogger_def kv_Put_def kv_write_def next_fault_def Let_def demo_audit_event_def)
qed

theorem audit_log_is_a_list_witness:
  "fst (QueryEvents demo_audit_codec (sorted_list_of_set (dom (kb_entries (al_store demo_audit_logger)))) (unix_epoch + 9)
     \<lparr>aq_StartTime = 0, aq_EndTime = 0, aq_Type = ''job_submit'', aq_Limit = 0\<rparr> demo_audit_logger) =
   Inr [demo_audit_event ''c'' (unix_epoch + 5), demo_audit_event ''a'' (unix_epoch + 5)]"
proof -
  have f: "enumerates (sorted_list_of_set (dom (kb_entries (al_store demo_audit_logger)))) (kb_entries (al_store demo_audit_logger))"
    using demo_audit_run(2) by (simp add: enumerates_def)
  have law: "audit_codec_law demo_audit_codec"
    by (auto simp: audit_codec_law_def demo_audit_codec_def split: if_splits)
  have ck: "clocked unix_epoch False demo_audit_ops" by (simp add: demo_audit_ops_def in_range_def unix_epoch_def)
  have ty: "ev_Type (demo_audit_event i t) = ''job_submit''" for i t by (simp add: demo_audit_event_def audit_event_of_def Let_def)
  have len: "int (length demo_audit_ops) < 10 ^ 16" by (simp add: demo_audit_ops_def)
  show ?thesis
    by (subst audit_log_is_a_list [OF law _ demo_audit_run(1) ck len f])
      (simp_all add: demo_audit_run(3) next_fault_def unexpired_def query_admits_def ty IsZero_def time_zero_def demo_audit_codec_def)
qed

section \<open>Pages\<close>

text \<open>A query with a limit has at most that many events, so that every page but the first is empty.\<close>

lemma QueryEvents_length: "QueryEvents C ord now q l = (Inr es, l') \<Longrightarrow> 0 < aq_Limit q \<Longrightarrow> int (length es) \<le> aq_Limit q"
  by (auto simp: QueryEvents_def Let_def split: prod.splits sum.splits if_splits)

lemma QueryEvents_total: "\<not> fst (next_fault (al_store l)) \<Longrightarrow> \<exists>es l'. QueryEvents C ord now q l = (Inr es, l')"
  by (cases "next_fault (al_store l)") (simp add: QueryEvents_def kv_Scan_def Let_def)

lemma second_audit_page_empty:
  assumes "Atoi pageStr = Some page" "pageStr \<noteq> []" "1 < page" "(page - 1) * 50 < 2 ^ 63" "\<not> fst (next_fault (al_store l))"
  shows "fst (handleGetAudit C ord now pageStr [] ty (Some l)) = Some (AuditOK [] 0 page 50)"
proof -
  let ?q = "\<lparr>aq_StartTime = time_zero, aq_EndTime = time_zero, aq_Type = ty, aq_Limit = 50\<rparr>"
  obtain es l' where q: "QueryEvents C ord now ?q l = (Inr es, l')"
    using QueryEvents_total [OF assms(5)] by blast
  have "int (length es) \<le> (page - 1) * 50" using QueryEvents_length [OF q] assms(3) by simp
  moreover have "sint (word_of_int ((page - 1) * 50) :: 64 word) = (page - 1) * 50" using assms(3,4) by (intro sint_word_of_int_64) auto
  ultimately show ?thesis using assms(1-3) q unfolding handleGetAudit_def by (simp del: of_int_mult of_int_diff word_of_int_minus)
qed

text \<open>For a far page the product wraps below zero and the slice expression panics.\<close>

lemma far_audit_page_panics:
  assumes "\<not> fst (next_fault (al_store l))"
  shows "fst (handleGetAudit C ord now ''4611686018427387905'' ''3'' ty (Some l)) = None"
proof -
  let ?q = "\<lparr>aq_StartTime = time_zero, aq_EndTime = time_zero, aq_Type = ty, aq_Limit = 3\<rparr>"
  obtain es l' where q: "QueryEvents C ord now ?q l = (Inr es, l')"
    using QueryEvents_total [OF assms] by blast
  have "Atoi ''4611686018427387905'' = Some 4611686018427387905" "Atoi ''3'' = Some 3"
    by (simp_all add: Atoi_def byte_range_def)
  with q show ?thesis unfolding handleGetAudit_def by simp
qed

end
