(* ===== verification/Event_Bus.thy ===== *)
theory Event_Bus
  imports Job_Store Go_Strings "HOL-Library.Sublist"
begin

text \<open>
  The event bus (\<open>internal/events/bus.go\<close>) and the events of \<open>internal/events/topics.go\<close>. A subscriber has a
  buffered channel and a list of patterns; an event is put into the channel of every subscriber with a matching
  pattern that has room, and dropped for the others. The order in which a publication visits the subscribers does not
  matter, since each is touched once.

  The lemmas show that a subscriber gets matching events in the order of their publication, never more than
  its buffer holds, and all of them as long as it keeps up.
\<close>

section \<open>Events\<close>

datatype any_val = AStr string | AInt int | ABool bool | AMap strmap | ARows "strmap list"

record bus_event =
  be_ID :: string
  be_Type :: string
  be_Timestamp :: time
  be_Data :: "(string \<times> any_val) list"

text \<open>What \<open>NewEvent\<close> draws: an ID and the time.\<close>

type_synonym event_draw = "string \<times> time"

definition NewEvent :: "string \<Rightarrow> (string \<times> any_val) list \<Rightarrow> event_draw \<Rightarrow> bus_event" where
  "NewEvent topic data d = \<lparr>be_ID = fst d, be_Type = topic, be_Timestamp = snd d, be_Data = data\<rparr>"

definition bev_JobSubmitted :: "string \<Rightarrow> string \<Rightarrow> 32 word \<Rightarrow> event_draw \<Rightarrow> bus_event" where
  "bev_JobSubmitted jobID command priority = NewEvent ''job.submitted''
     [(''job_id'', AStr jobID), (''command'', AStr command), (''priority'', AInt (uint priority))]"

definition bev_JobTransition :: "string \<Rightarrow> string \<Rightarrow> string \<Rightarrow> string \<Rightarrow> event_draw \<Rightarrow> bus_event" where
  "bev_JobTransition jobID from to nodeID = NewEvent ''job.transition''
     [(''job_id'', AStr jobID), (''from_status'', AStr from), (''to_status'', AStr to), (''node_id'', AStr nodeID)]"

definition bev_JobCompleted :: "string \<Rightarrow> string \<Rightarrow> int \<Rightarrow> event_draw \<Rightarrow> bus_event" where
  "bev_JobCompleted jobID nodeID durationMs = NewEvent ''job.completed''
     [(''job_id'', AStr jobID), (''node_id'', AStr nodeID), (''duration_ms'', AInt durationMs)]"

definition bev_JobCompletedWithOutputs :: "string \<Rightarrow> string \<Rightarrow> int \<Rightarrow> (string \<times> string \<times> string) list \<Rightarrow> event_draw \<Rightarrow> bus_event" where
  "bev_JobCompletedWithOutputs jobID nodeID durationMs outputs = NewEvent ''job.completed''
     ([(''job_id'', AStr jobID), (''node_id'', AStr nodeID), (''duration_ms'', AInt durationMs)] @
      (if outputs \<noteq> [] then [(''outputs'', ARows (map (\<lambda>(name, uri, sha).
         [(''name'', name), (''uri'', uri)] @ (if sha \<noteq> [] then [(''sha256'', sha)] else [])) outputs))] else []))"

definition bev_JobFailed :: "string \<Rightarrow> string \<Rightarrow> int \<Rightarrow> 32 word \<Rightarrow> event_draw \<Rightarrow> bus_event" where
  "bev_JobFailed jobID errMsg exitCode attempt = NewEvent ''job.failed''
     [(''job_id'', AStr jobID), (''error'', AStr errMsg), (''exit_code'', AInt exitCode), (''attempt'', AInt (uint attempt))]"

text \<open>\<open>next\<close> is the formatted time.\<close>

definition bev_JobRetrying :: "string \<Rightarrow> 32 word \<Rightarrow> string \<Rightarrow> event_draw \<Rightarrow> bus_event" where
  "bev_JobRetrying jobID attempt next = NewEvent ''job.retrying''
     [(''job_id'', AStr jobID), (''attempt'', AInt (uint attempt)), (''next_retry_at'', AStr next)]"

definition bev_NodeRegisteredWithLabels :: "string \<Rightarrow> string \<Rightarrow> strmap \<Rightarrow> event_draw \<Rightarrow> bus_event" where
  "bev_NodeRegisteredWithLabels nodeID address labels = NewEvent ''node.registered''
     ([(''node_id'', AStr nodeID), (''address'', AStr address)] @ (if labels \<noteq> [] then [(''labels'', AMap labels)] else []))"

definition bev_NodeStale :: "string \<Rightarrow> event_draw \<Rightarrow> bus_event" where
  "bev_NodeStale nodeID = NewEvent ''node.stale'' [(''node_id'', AStr nodeID)]"

definition bev_NodeRevoked :: "string \<Rightarrow> string \<Rightarrow> event_draw \<Rightarrow> bus_event" where
  "bev_NodeRevoked nodeID reason = NewEvent ''node.revoked'' [(''node_id'', AStr nodeID), (''reason'', AStr reason)]"

text \<open>The counts of a finished workflow; \<open>fmt\<close> prints a time. The two constructors differ in the failed job.\<close>

definition workflow_data :: "(time \<Rightarrow> string) \<Rightarrow> string \<Rightarrow> string option \<Rightarrow> string \<Rightarrow> int \<Rightarrow> int \<Rightarrow> int \<Rightarrow> strmap \<Rightarrow> time \<Rightarrow> time \<Rightarrow> (string \<times> any_val) list" where
  "workflow_data fmt workflowID failedJob ownerPrincipal jobCount successCount failedCount tags startedAt finishedAt =
     [(''workflow_id'', AStr workflowID)] @ (case failedJob of None \<Rightarrow> [] | Some j \<Rightarrow> [(''failed_job'', AStr j)]) @
     [(''job_count'', AInt jobCount), (''success_count'', AInt successCount), (''failed_count'', AInt failedCount)] @
     (if ownerPrincipal \<noteq> [] then [(''owner_principal'', AStr ownerPrincipal)] else []) @
     (if tags \<noteq> [] then [(''tags'', AMap tags)] else []) @
     (if \<not> IsZero startedAt then [(''started_at'', AStr (fmt startedAt))] else []) @
     (if \<not> IsZero finishedAt then (''finished_at'', AStr (fmt finishedAt)) #
        (if \<not> IsZero startedAt \<and> \<not> finishedAt < startedAt
         then [(''duration_ms'', AInt (trunc_div (time_sub finishedAt startedAt) millisecond))] else []) else [])"

definition bev_WorkflowCompletedWithCounts :: "(time \<Rightarrow> string) \<Rightarrow> string \<Rightarrow> string \<Rightarrow> int \<Rightarrow> int \<Rightarrow> int \<Rightarrow> strmap \<Rightarrow> time \<Rightarrow> time \<Rightarrow> event_draw \<Rightarrow> bus_event" where
  "bev_WorkflowCompletedWithCounts fmt workflowID ownerPrincipal jobCount successCount failedCount tags startedAt finishedAt =
     NewEvent ''workflow.completed'' (workflow_data fmt workflowID None ownerPrincipal jobCount successCount failedCount tags startedAt finishedAt)"

definition bev_WorkflowFailedWithCounts :: "(time \<Rightarrow> string) \<Rightarrow> string \<Rightarrow> string \<Rightarrow> string \<Rightarrow> int \<Rightarrow> int \<Rightarrow> int \<Rightarrow> strmap \<Rightarrow> time \<Rightarrow> time \<Rightarrow> event_draw \<Rightarrow> bus_event" where
  "bev_WorkflowFailedWithCounts fmt workflowID failedJob ownerPrincipal jobCount successCount failedCount tags startedAt finishedAt =
     NewEvent ''workflow.failed'' (workflow_data fmt workflowID (Some failedJob) ownerPrincipal jobCount successCount failedCount tags startedAt finishedAt)"

definition bev_JobUnschedulable :: "string \<Rightarrow> strmap \<Rightarrow> string \<Rightarrow> event_draw \<Rightarrow> bus_event" where
  "bev_JobUnschedulable jobID selector reason = NewEvent ''job.unschedulable''
     [(''job_id'', AStr jobID), (''unsatisfied_selector'', AMap selector), (''reason'', AStr reason)]"

definition bev_MLResolveFailed :: "string \<Rightarrow> string \<Rightarrow> string \<Rightarrow> string \<Rightarrow> string \<Rightarrow> event_draw \<Rightarrow> bus_event" where
  "bev_MLResolveFailed jobID workflowID upstream outputName reason = NewEvent ''ml.resolve_failed''
     [(''job_id'', AStr jobID), (''workflow_id'', AStr workflowID), (''upstream'', AStr upstream), (''output_name'', AStr outputName), (''reason'', AStr reason)]"

definition bev_DatasetRegistered :: "string \<Rightarrow> string \<Rightarrow> string \<Rightarrow> string \<Rightarrow> int \<Rightarrow> event_draw \<Rightarrow> bus_event" where
  "bev_DatasetRegistered name version uri actor sz = NewEvent ''dataset.registered''
     [(''name'', AStr name), (''version'', AStr version), (''uri'', AStr uri), (''actor'', AStr actor), (''size_bytes'', AInt sz)]"

definition bev_DatasetDeleted :: "string \<Rightarrow> string \<Rightarrow> string \<Rightarrow> event_draw \<Rightarrow> bus_event" where
  "bev_DatasetDeleted name version actor = NewEvent ''dataset.deleted'' [(''name'', AStr name), (''version'', AStr version), (''actor'', AStr actor)]"

definition bev_ModelRegistered :: "string \<Rightarrow> string \<Rightarrow> string \<Rightarrow> string \<Rightarrow> string \<Rightarrow> string \<Rightarrow> string \<Rightarrow> event_draw \<Rightarrow> bus_event" where
  "bev_ModelRegistered name version uri actor sourceJobID sourceDatasetName sourceDatasetVersion = NewEvent ''model.registered''
     ([(''name'', AStr name), (''version'', AStr version), (''uri'', AStr uri), (''actor'', AStr actor)] @
      (if sourceJobID \<noteq> [] then [(''source_job_id'', AStr sourceJobID)] else []) @
      (if sourceDatasetName \<noteq> [] then [(''source_dataset'', AMap [(''name'', sourceDatasetName), (''version'', sourceDatasetVersion)])] else []))"

definition bev_ModelDeleted :: "string \<Rightarrow> string \<Rightarrow> string \<Rightarrow> event_draw \<Rightarrow> bus_event" where
  "bev_ModelDeleted name version actor = NewEvent ''model.deleted'' [(''name'', AStr name), (''version'', AStr version), (''actor'', AStr actor)]"

definition bev_SubmissionRecorded :: "string \<Rightarrow> string \<Rightarrow> string \<Rightarrow> string \<Rightarrow> string \<Rightarrow> bool \<Rightarrow> bool \<Rightarrow> string \<Rightarrow> string \<Rightarrow> event_draw \<Rightarrow> bus_event" where
  "bev_SubmissionRecorded actor operatorCN source kind resourceID dryRun accepted rejectReason userAgent = NewEvent ''submission.recorded''
     [(''actor'', AStr actor), (''operator_cn'', AStr operatorCN), (''source'', AStr source), (''kind'', AStr kind), (''resource_id'', AStr resourceID),
      (''dry_run'', ABool dryRun), (''accepted'', ABool accepted), (''reject_reason'', AStr rejectReason), (''user_agent'', AStr userAgent)]"

definition bev_AuthOK :: "string \<Rightarrow> string \<Rightarrow> string \<Rightarrow> event_draw \<Rightarrow> bus_event" where
  "bev_AuthOK actor remoteIP userAgent = NewEvent ''auth.ok'' [(''actor'', AStr actor), (''remote_ip'', AStr remoteIP), (''user_agent'', AStr userAgent)]"

definition bev_AuthFail :: "string \<Rightarrow> string \<Rightarrow> string \<Rightarrow> string \<Rightarrow> event_draw \<Rightarrow> bus_event" where
  "bev_AuthFail reason actor remoteIP userAgent = NewEvent ''auth.fail''
     [(''reason'', AStr reason), (''actor'', AStr actor), (''remote_ip'', AStr remoteIP), (''user_agent'', AStr userAgent)]"

definition bev_AuthRateLimit :: "string \<Rightarrow> string \<Rightarrow> string \<Rightarrow> event_draw \<Rightarrow> bus_event" where
  "bev_AuthRateLimit actor path remoteIP = NewEvent ''auth.rate_limit'' [(''actor'', AStr actor), (''path'', AStr path), (''remote_ip'', AStr remoteIP)]"

definition bev_AuthTokenMint :: "string \<Rightarrow> string \<Rightarrow> string \<Rightarrow> int \<Rightarrow> event_draw \<Rightarrow> bus_event" where
  "bev_AuthTokenMint issuedBy subject role ttlHours = NewEvent ''auth.token_mint''
     [(''actor'', AStr issuedBy), (''subject'', AStr subject), (''role'', AStr role), (''ttl_hours'', AInt ttlHours)]"

definition bev_ArtifactUploaded :: "string \<Rightarrow> string \<Rightarrow> int \<Rightarrow> int \<Rightarrow> event_draw \<Rightarrow> bus_event" where
  "bev_ArtifactUploaded jobID uri bytes durationMs = NewEvent ''artifact.uploaded''
     [(''job_id'', AStr jobID), (''uri'', AStr uri), (''bytes'', AInt bytes), (''duration_ms'', AInt durationMs)]"

definition bev_ArtifactDownloaded :: "string \<Rightarrow> string \<Rightarrow> int \<Rightarrow> int \<Rightarrow> bool option \<Rightarrow> event_draw \<Rightarrow> bus_event" where
  "bev_ArtifactDownloaded jobID uri bytes durationMs sha256OK = NewEvent ''artifact.downloaded''
     ([(''job_id'', AStr jobID), (''uri'', AStr uri), (''bytes'', AInt bytes), (''duration_ms'', AInt durationMs)] @
      (case sha256OK of None \<Rightarrow> [] | Some b \<Rightarrow> [(''sha256_ok'', ABool b)]))"

definition bev_ServiceProbeTransition :: "string \<Rightarrow> string \<Rightarrow> 32 word \<Rightarrow> event_draw \<Rightarrow> bus_event" where
  "bev_ServiceProbeTransition jobID newState consecutiveFails = NewEvent ''service.probe_transition''
     [(''job_id'', AStr jobID), (''new_state'', AStr newState), (''consecutive_fails'', AInt (uint consecutiveFails))]"

definition bev_JobLog :: "string \<Rightarrow> int \<Rightarrow> string \<Rightarrow> event_draw \<Rightarrow> bus_event" where
  "bev_JobLog jobID sq data = NewEvent ''job.log'' [(''job_id'', AStr jobID), (''seq'', AInt sq), (''data'', AStr data)]"

text \<open>The events that the job store publishes.\<close>

fun bus_of_job :: "job_event \<Rightarrow> event_draw \<Rightarrow> bus_event" where
  "bus_of_job (EvJobSubmitted i c p) = bev_JobSubmitted i c p"
| "bus_of_job (EvJobTransition i from to n) = bev_JobTransition i (JobStatus_String from) (JobStatus_String to) n"
| "bus_of_job (EvJobCompleted i n dur) = bev_JobCompleted i n dur"
| "bus_of_job (EvJobCompletedWithOutputs i n dur outs) = bev_JobCompletedWithOutputs i n dur outs"
| "bus_of_job (EvJobFailed i e x a) = bev_JobFailed i e x a"
| "bus_of_job (EvJobUnschedulable i sel r) = bev_JobUnschedulable i sel r"
| "bus_of_job (EvMLResolveFailed i w u nm r) = bev_MLResolveFailed i w u nm r"
| "bus_of_job (EvArtifactDownloaded i uri) = bev_ArtifactDownloaded i uri 0 0 None"
| "bus_of_job (EvArtifactUploaded i uri sz) = bev_ArtifactUploaded i uri sz 0"

section \<open>The bus\<close>

record subscriber =
  sb_ch :: "bus_event list"
  sb_topics :: "string list"

record bus =
  bu_subs :: "64 word \<rightharpoonup> subscriber"
  bu_nextID :: "64 word"
  bu_bufferSize :: int

definition NewBus :: "int \<Rightarrow> bus" where
  "NewBus bufferSize = \<lparr>bu_subs = Map.empty, bu_nextID = 0, bu_bufferSize = (if bufferSize \<le> 0 then 256 else bufferSize)\<rparr>"

definition TrimSuffix :: "string \<Rightarrow> string \<Rightarrow> string" where
  "TrimSuffix s x = (if HasSuffix s x then take (length s - length x) s else s)"

definition matchGlob :: "string \<Rightarrow> string \<Rightarrow> bool" where
  "matchGlob pattern s =
     (if pattern = ''*'' then True
      else if HasSuffix pattern ''.*'' then HasPrefix s (TrimSuffix pattern ''.*'' @ ''.'')
      else pattern = s)"

definition matchesAny :: "string \<Rightarrow> string list \<Rightarrow> bool" where
  "matchesAny eventType patterns \<longleftrightarrow> list_ex (\<lambda>p. matchGlob p eventType) patterns"

definition deliver :: "int \<Rightarrow> bus_event \<Rightarrow> subscriber \<Rightarrow> subscriber" where
  "deliver cap e s = (if matchesAny (be_Type e) (sb_topics s) \<and> int (length (sb_ch s)) < cap then s\<lparr>sb_ch := sb_ch s @ [e]\<rparr> else s)"

definition Publish :: "bus_event \<Rightarrow> bus \<Rightarrow> bus" where
  "Publish e b = b\<lparr>bu_subs := (\<lambda>i. map_option (deliver (bu_bufferSize b) e) (bu_subs b i))\<rparr>"

definition Subscribe :: "string list \<Rightarrow> bus \<Rightarrow> 64 word \<times> bus" where
  "Subscribe topics b = (bu_nextID b, b\<lparr>bu_subs := (bu_subs b)(bu_nextID b \<mapsto> \<lparr>sb_ch = [], sb_topics = topics\<rparr>), bu_nextID := bu_nextID b + 1\<rparr>)"

definition bus_Cancel :: "64 word \<Rightarrow> bus \<Rightarrow> bus" where
  "bus_Cancel i b = b\<lparr>bu_subs := (bu_subs b)(i := None)\<rparr>"

definition SubscriberCount :: "bus \<Rightarrow> nat" where
  "SubscriberCount b = card (dom (bu_subs b))"

text \<open>The subscriber takes the next event out of its channel.\<close>

definition bus_recv :: "64 word \<Rightarrow> bus \<Rightarrow> bus_event option \<times> bus" where
  "bus_recv i b = (case bu_subs b i of None \<Rightarrow> (None, b) | Some s \<Rightarrow>
     (case sb_ch s of [] \<Rightarrow> (None, b) | e # es \<Rightarrow> (Some e, b\<lparr>bu_subs := (bu_subs b)(i \<mapsto> s\<lparr>sb_ch := es\<rparr>)\<rparr>)))"

section \<open>Histories of a subscription\<close>

datatype bus_op = PubOp bus_event | SubOp "string list" | CancelOp "64 word" | RecvOp "64 word"

fun bus_exec :: "bus_op \<Rightarrow> bus \<Rightarrow> bus_event option \<times> bus" where
  "bus_exec (PubOp e) b = (None, Publish e b)"
| "bus_exec (SubOp ts) b = (None, snd (Subscribe ts b))"
| "bus_exec (CancelOp i) b = (None, bus_Cancel i b)"
| "bus_exec (RecvOp i) b = bus_recv i b"

text \<open>What subscriber \<open>i\<close> takes out, and the bus in the end.\<close>

fun bus_run :: "64 word \<Rightarrow> bus_op list \<Rightarrow> bus \<Rightarrow> bus_event list \<times> bus" where
  "bus_run i [] b = ([], b)"
| "bus_run i (op # ops) b = (let (r, b) = bus_exec op b; (got, b) = bus_run i ops b in
     ((if op = RecvOp i then (case r of None \<Rightarrow> [] | Some e \<Rightarrow> [e]) else []) @ got, b))"

fun published :: "bus_op list \<Rightarrow> bus_event list" where
  "published [] = []"
| "published (PubOp e # ops) = e # published ops"
| "published (_ # ops) = published ops"

definition has_room :: "64 word \<Rightarrow> bus \<Rightarrow> bool" where
  "has_room i b \<longleftrightarrow> (case bu_subs b i of None \<Rightarrow> False | Some s \<Rightarrow> int (length (sb_ch s)) < bu_bufferSize b)"

text \<open>The subscriber keeps up: its channel has room at every publication.\<close>

fun keeps_up :: "64 word \<Rightarrow> bus_op list \<Rightarrow> bus \<Rightarrow> bool" where
  "keeps_up i [] b \<longleftrightarrow> True"
| "keeps_up i (op # ops) b \<longleftrightarrow> (case op of PubOp e \<Rightarrow> has_room i b | _ \<Rightarrow> True) \<and> keeps_up i ops (snd (bus_exec op b))"

lemma recv_frame: "j \<noteq> i \<Longrightarrow> bu_subs (snd (bus_recv j b)) i = bu_subs b i"
  by (auto simp: bus_recv_def split: option.splits list.splits)

lemma recv_config [simp]: "bu_nextID (snd (bus_recv j b)) = bu_nextID b" "bu_bufferSize (snd (bus_recv j b)) = bu_bufferSize b"
  by (auto simp: bus_recv_def split: option.splits list.splits)

text \<open>New subscriptions do not take the number again before all numbers are used.\<close>

lemma next_id_differs: "bu_nextID b = i + 1 + of_nat k \<Longrightarrow> Suc k < 2 ^ 64 \<Longrightarrow> bu_nextID b \<noteq> (i :: 64 word)"
proof
  assume a: "bu_nextID b = i + 1 + of_nat k" "Suc k < 2 ^ 64" "bu_nextID b = i"
  then have "(of_nat (Suc k) :: 64 word) = 0" by simp
  then have "unat (of_nat (Suc k) :: 64 word) = 0" by simp
  then have "Suc k mod 2 ^ 64 = 0" by (simp only: unat_of_nat) simp
  with a(2) show False by simp
qed

lemma bus_run_channel:
  assumes "bu_subs b i = Some s" and "bu_nextID b = i + 1 + of_nat k" and "CancelOp i \<notin> set ops" and "k + length ops < 2 ^ 64 - 1"
  shows "bus_run i ops b = (got, b') \<Longrightarrow> \<exists>s' zs. bu_subs b' i = Some s' \<and> got @ sb_ch s' = sb_ch s @ zs \<and>
     subseq zs (filter (\<lambda>e. matchesAny (be_Type e) (sb_topics s)) (published ops)) \<and>
     (keeps_up i ops b \<longrightarrow> zs = filter (\<lambda>e. matchesAny (be_Type e) (sb_topics s)) (published ops)) \<and>
     (int (length (sb_ch s)) \<le> bu_bufferSize b \<longrightarrow> int (length (sb_ch s')) \<le> bu_bufferSize b)"
  using assms
proof (induction ops arbitrary: b s k got)
  case Nil
  then show ?case by (intro exI [of _ s] exI [of _ "[]"]) auto
next
  case (Cons op ops)
  obtain r b1 where ex: "bus_exec op b = (r, b1)" by fastforce
  obtain got' where run: "bus_run i ops b1 = (got', b')" and got: "got = (if op = RecvOp i then (case r of None \<Rightarrow> [] | Some e \<Rightarrow> [e]) else []) @ got'"
    using Cons.prems(1) ex by (auto split: prod.splits)
  have nc: "CancelOp i \<notin> set ops" using Cons.prems(4) by simp
  show ?case
  proof (cases op)
    case (PubOp e)
    let ?s = "deliver (bu_bufferSize b) e s"
    from ex PubOp Cons.prems(2,3) have b1: "bu_subs b1 i = Some ?s" "bu_nextID b1 = i + 1 + of_nat k" "bu_bufferSize b1 = bu_bufferSize b"
      by (auto simp: Publish_def)
    have t: "sb_topics ?s = sb_topics s" by (simp add: deliver_def)
    from Cons.IH [OF run b1(1,2) nc] Cons.prems(5) obtain s' zs where ih: "bu_subs b' i = Some s'" "got' @ sb_ch s' = sb_ch ?s @ zs"
      "subseq zs (filter (\<lambda>e. matchesAny (be_Type e) (sb_topics s)) (published ops))"
      "keeps_up i ops b1 \<longrightarrow> zs = filter (\<lambda>e. matchesAny (be_Type e) (sb_topics s)) (published ops)"
      "int (length (sb_ch ?s)) \<le> bu_bufferSize b \<longrightarrow> int (length (sb_ch s')) \<le> bu_bufferSize b" unfolding t b1(3) by auto
    let ?new = "if matchesAny (be_Type e) (sb_topics s) \<and> int (length (sb_ch s)) < bu_bufferSize b then [e] else []"
    have ch: "sb_ch ?s = sb_ch s @ ?new" by (simp add: deliver_def)
    show ?thesis
    proof (intro exI [of _ s'] exI [of _ "?new @ zs"] conjI)
      show "bu_subs b' i = Some s'" by (rule ih)
      show "got @ sb_ch s' = sb_ch s @ ?new @ zs" using got ih(2) ch PubOp by simp
      show "subseq (?new @ zs) (filter (\<lambda>e. matchesAny (be_Type e) (sb_topics s)) (published (op # ops)))"
        using ih(3) PubOp by auto
      show "keeps_up i (op # ops) b \<longrightarrow> ?new @ zs = filter (\<lambda>e. matchesAny (be_Type e) (sb_topics s)) (published (op # ops))"
        using ih(4) PubOp ex Cons.prems(2) by (auto simp: has_room_def)
      show "int (length (sb_ch s)) \<le> bu_bufferSize b \<longrightarrow> int (length (sb_ch s')) \<le> bu_bufferSize b"
        using ih(5) ch by (auto split: if_splits)
    qed
  next
    case (SubOp ts)
    have "bu_nextID b \<noteq> i" using next_id_differs [OF Cons.prems(3)] Cons.prems(5) by simp
    with ex SubOp Cons.prems(2,3) have "bu_subs b1 i = Some s" "bu_nextID b1 = i + 1 + of_nat (Suc k)" "bu_bufferSize b1 = bu_bufferSize b"
      by (auto simp: Subscribe_def)
    from Cons.IH [OF run this(1,2) nc] this(3) Cons.prems(5) got SubOp ex show ?thesis by auto
  next
    case (CancelOp j)
    with ex Cons.prems(2-4) have "bu_subs b1 i = Some s" "bu_nextID b1 = i + 1 + of_nat k" "bu_bufferSize b1 = bu_bufferSize b"
      by (auto simp: bus_Cancel_def)
    from Cons.IH [OF run this(1,2) nc] this(3) Cons.prems(5) got CancelOp ex show ?thesis by auto
  next
    case (RecvOp j)
    have cfg: "bu_nextID b1 = i + 1 + of_nat k" "bu_bufferSize b1 = bu_bufferSize b" using ex RecvOp Cons.prems(3) recv_config [of j b] by auto
    show ?thesis
    proof (cases "j = i \<and> sb_ch s \<noteq> []")
      case False
      then have "bu_subs b1 i = Some s" and "got = got'" using ex RecvOp Cons.prems(2) recv_frame [of j i b] got
        by (auto simp: bus_recv_def split: option.splits list.splits)
      from Cons.IH [OF run this(1) cfg(1) nc] cfg(2) this(2) Cons.prems(5) RecvOp ex show ?thesis by auto
    next
      case True
      then obtain e es where ch: "sb_ch s = e # es" by (cases "sb_ch s") auto
      with True ex RecvOp Cons.prems(2) have r: "r = Some e" and b1: "bu_subs b1 i = Some (s\<lparr>sb_ch := es\<rparr>)" by (auto simp: bus_recv_def)
      from Cons.IH [OF run b1 cfg(1) nc] cfg(2) Cons.prems(5) obtain s' zs where ih: "bu_subs b' i = Some s'" "got' @ sb_ch s' = es @ zs"
        "subseq zs (filter (\<lambda>e. matchesAny (be_Type e) (sb_topics s)) (published ops))"
        "keeps_up i ops b1 \<longrightarrow> zs = filter (\<lambda>e. matchesAny (be_Type e) (sb_topics s)) (published ops)"
        "int (length es) \<le> bu_bufferSize b \<longrightarrow> int (length (sb_ch s')) \<le> bu_bufferSize b" by auto
      with True got r ch RecvOp ex show ?thesis by (intro exI [of _ s'] exI [of _ zs]) auto
    qed
  qed
qed

text \<open>C32. A subscriber gets its events in order: whatever else happens on the bus, what it has taken out is a subsequence of the
  events published since it subscribed that match one of its patterns, and as long as it keeps up it misses none: what it has
  taken out and the rest, which fits its buffer, are exactly those events.\<close>

theorem subscriber_gets_events_in_order:
  assumes sub: "Subscribe topics b = (i, b1)" and nc: "CancelOp i \<notin> set ops" and len: "length ops < 2 ^ 64 - 1" and cap: "0 \<le> bu_bufferSize b"
    and run: "bus_run i ops b1 = (got, b')"
  shows "subseq got (filter (\<lambda>e. matchesAny (be_Type e) topics) (published ops)) \<and>
     (keeps_up i ops b1 \<longrightarrow> (\<exists>rest. got @ rest = filter (\<lambda>e. matchesAny (be_Type e) topics) (published ops) \<and> int (length rest) \<le> bu_bufferSize b))"
proof -
  from sub have b1: "bu_subs b1 i = Some \<lparr>sb_ch = [], sb_topics = topics\<rparr>" "bu_nextID b1 = i + 1 + of_nat 0" "bu_bufferSize b1 = bu_bufferSize b"
    by (auto simp: Subscribe_def)
  have "0 + length ops < 2 ^ 64 - 1" using len by simp
  from bus_run_channel [OF b1(1,2) nc this run, unfolded subscriber.simps] obtain s' :: subscriber and zs where z: "got @ sb_ch s' = [] @ zs"
    and ch: "subseq zs (filter (\<lambda>e. matchesAny (be_Type e) topics) (published ops))"
      "keeps_up i ops b1 \<longrightarrow> zs = filter (\<lambda>e. matchesAny (be_Type e) topics) (published ops)" "int (length ([] :: bus_event list)) \<le> bu_bufferSize b1 \<longrightarrow> int (length (sb_ch s')) \<le> bu_bufferSize b1"
    by blast
  have "subseq got (got @ sb_ch s')" by (rule prefix_imp_subseq) simp
  then have "subseq got zs" unfolding z by simp
  with ch z cap b1(3) show ?thesis by (auto intro: subseq_order.order_trans)
qed

definition demo_bus_ops :: "bus_op list" where
  "demo_bus_ops = [PubOp (bev_JobSubmitted ''j'' ''true'' 5 (''1'', 1)), PubOp (bev_NodeStale ''n'' (''2'', 2)), RecvOp 0, PubOp (bev_JobFailed ''j'' [] 1 1 (''3'', 3))]"

theorem subscriber_gets_events_in_order_witness:
  "fst (bus_run 0 demo_bus_ops (snd (Subscribe [''job.*''] (NewBus 1)))) = [bev_JobSubmitted ''j'' ''true'' 5 (''1'', 1)] \<and>
   subseq [bev_JobSubmitted ''j'' ''true'' 5 (''1'', 1)] (filter (\<lambda>e. matchesAny (be_Type e) [''job.*'']) (published demo_bus_ops))"
proof -
  let ?b1 = "snd (Subscribe [''job.*''] (NewBus 1))"
  have sub: "Subscribe [''job.*''] (NewBus 1) = (0, ?b1)" by (simp add: Subscribe_def NewBus_def)
  have m: "matchesAny ''job.submitted'' [''job.*'']" "\<not> matchesAny ''node.stale'' [''job.*'']" "matchesAny ''job.failed'' [''job.*'']"
    by code_simp+
  have got: "fst (bus_run 0 demo_bus_ops ?b1) = [bev_JobSubmitted ''j'' ''true'' 5 (''1'', 1)]"
    by (simp add: demo_bus_ops_def Subscribe_def NewBus_def Publish_def deliver_def bus_recv_def bev_JobSubmitted_def bev_NodeStale_def bev_JobFailed_def
        NewEvent_def m)
  show ?thesis
    using subscriber_gets_events_in_order [OF sub, of demo_bus_ops "fst (bus_run 0 demo_bus_ops ?b1)" "snd (bus_run 0 demo_bus_ops ?b1)"] got
    by (simp add: demo_bus_ops_def NewBus_def)
qed

end
