(* ===== verification/Log_Store.thy ===== *)
theory Log_Store
  imports Kv_Store Job_Api
begin

text \<open>
  Job logs: the two log stores and the scrubbing decorator (\<open>internal/logstore/store.go\<close>, \<open>scrub.go\<close>), the
  reconciler that frees entries which PostgreSQL has (\<open>reconciler.go\<close>), the stream handler that receives chunks from
  the nodes (\<open>StreamLogs\<close> of \<open>internal/grpcserver/handlers.go\<close>) and the endpoint that reads them
  (\<open>internal/api/handlers_logs.go\<close>). The JSON codec, the clock, the points where a context is found cancelled and
  the confirmations of the analytics database are arguments.

  Two locales state what the decorator and the reconciler rely on, interpreted on both stores. The lemmas show
  that a secret of a job is not in what is stored, mirrored or served, and that a sweep deletes no entry
  that the database has not confirmed.
\<close>

section \<open>Entries and the BadgerDB store\<close>

record log_entry =
  le_JobID :: string
  le_Seq :: "64 word"
  le_Data :: string
  le_Timestamp :: time

record log_codec =
  lc_enc :: "log_entry \<Rightarrow> string option"
  lc_dec :: "string \<Rightarrow> log_entry option"

definition log_key :: "string \<Rightarrow> 64 word \<Rightarrow> string" where
  "log_key jobID q = ''log:'' @ jobID @ '':'' @ pad_dec 10 (unat q)"

definition bl_Append :: "log_codec \<Rightarrow> log_entry \<Rightarrow> badger_kv \<Rightarrow> bool \<times> badger_kv" where
  "bl_Append C e db = (case lc_enc C e of None \<Rightarrow> (False, db) | Some d \<Rightarrow> kv_Put (log_key (le_JobID e) (le_Seq e)) d db)"

definition bl_Get :: "log_codec \<Rightarrow> string list \<Rightarrow> time \<Rightarrow> string \<Rightarrow> badger_kv \<Rightarrow> (kv_error + log_entry list) \<times> badger_kv" where
  "bl_Get C ord now jobID db = (case kv_Scan ord now (''log:'' @ jobID @ '':'') 0 db of
      (Inl e, db) \<Rightarrow> (Inl e, db)
    | (Inr raw, db) \<Rightarrow> (Inr (List.map_filter (lc_dec C) raw), db))"

text \<open>A confirmation function may keep state; \<open>None\<close> is its error. The counters are of deleted and scanned entries.\<close>

type_synonym log_id = "string \<times> 64 word"
type_synonym 'a confirm_fn = "string \<Rightarrow> 64 word \<Rightarrow> 'a \<Rightarrow> bool option \<times> 'a"

record reconcile_result =
  rr_deleted :: nat
  rr_scanned :: nat
  rr_err :: bool

fun bl_reconcile :: "log_codec \<Rightarrow> time \<Rightarrow> 'a confirm_fn \<Rightarrow> nat option \<Rightarrow> string list \<Rightarrow> reconcile_result \<Rightarrow> 'a \<Rightarrow> badger_kv
    \<Rightarrow> reconcile_result \<times> 'a \<times> badger_kv" where
  "bl_reconcile C ageCutoff fn cancel [] r a db = (r, a, db)"
| "bl_reconcile C ageCutoff fn cancel (d # raw) r a db =
     (if cancel = Some 0 then (r\<lparr>rr_err := True\<rparr>, a, db)
      else let cancel = map_option (\<lambda>n. n - 1) cancel; r = r\<lparr>rr_scanned := rr_scanned r + 1\<rparr> in
      (case lc_dec C d of None \<Rightarrow> bl_reconcile C ageCutoff fn cancel raw r a db
       | Some e \<Rightarrow>
          if ageCutoff < le_Timestamp e then bl_reconcile C ageCutoff fn cancel raw r a db
          else (case fn (le_JobID e) (le_Seq e) a of
              (None, a) \<Rightarrow> bl_reconcile C ageCutoff fn cancel raw (r\<lparr>rr_err := True\<rparr>) a db
            | (Some False, a) \<Rightarrow> bl_reconcile C ageCutoff fn cancel raw r a db
            | (Some True, a) \<Rightarrow> (case kv_Delete (log_key (le_JobID e) (le_Seq e)) db of
                 (False, db) \<Rightarrow> bl_reconcile C ageCutoff fn cancel raw (r\<lparr>rr_err := True\<rparr>) a db
               | (True, db) \<Rightarrow> bl_reconcile C ageCutoff fn cancel raw (r\<lparr>rr_deleted := rr_deleted r + 1\<rparr>) a db))))"

definition bl_ReconcileConfirmed :: "log_codec \<Rightarrow> string list \<Rightarrow> time \<Rightarrow> nat option \<Rightarrow> duration \<Rightarrow> 'a confirm_fn option \<Rightarrow> 'a \<Rightarrow> badger_kv
    \<Rightarrow> reconcile_result \<times> 'a \<times> badger_kv" where
  "bl_ReconcileConfirmed C ord now cancel minAge confirmedFn a db = (case confirmedFn of
      None \<Rightarrow> (\<lparr>rr_deleted = 0, rr_scanned = 0, rr_err = True\<rparr>, a, db)
    | Some fn \<Rightarrow> (case kv_Scan ord now ''log:'' 0 db of
         (Inl e, db) \<Rightarrow> (\<lparr>rr_deleted = 0, rr_scanned = 0, rr_err = True\<rparr>, a, db)
       | (Inr raw, db) \<Rightarrow> bl_reconcile C (now - minAge) fn cancel raw \<lparr>rr_deleted = 0, rr_scanned = 0, rr_err = False\<rparr> a db))"

section \<open>The in-memory store\<close>

type_synonym log_mem = "string \<Rightarrow> log_entry list"

definition ml_Append :: "log_entry \<Rightarrow> log_mem \<Rightarrow> bool \<times> log_mem" where
  "ml_Append e m = (True, m(le_JobID e := m (le_JobID e) @ [e]))"

definition ml_Get :: "string \<Rightarrow> log_mem \<Rightarrow> log_entry list" where
  "ml_Get jobID m = m jobID"

text \<open>The kept entries are collected in the array of the list itself. The result tells whether the loop was
  cancelled, and how many entries the further loops may look at.\<close>

fun ml_keep :: "time \<Rightarrow> 'a confirm_fn \<Rightarrow> nat option \<Rightarrow> log_entry list \<Rightarrow> log_entry list \<Rightarrow> reconcile_result \<Rightarrow> 'a
    \<Rightarrow> bool \<times> nat option \<times> log_entry list \<times> reconcile_result \<times> 'a" where
  "ml_keep ageCutoff fn cancel ks [] r a = (False, cancel, ks, r, a)"
| "ml_keep ageCutoff fn cancel ks (e # es) r a =
     (if cancel = Some 0 then (True, cancel, ks, r\<lparr>rr_err := True\<rparr>, a)
      else let cancel = map_option (\<lambda>n. n - 1) cancel; r = r\<lparr>rr_scanned := rr_scanned r + 1\<rparr> in
      if ageCutoff < le_Timestamp e then ml_keep ageCutoff fn cancel (ks @ [e]) es r a
      else (case fn (le_JobID e) (le_Seq e) a of
          (None, a) \<Rightarrow> ml_keep ageCutoff fn cancel (ks @ [e]) es (r\<lparr>rr_err := True\<rparr>) a
        | (Some False, a) \<Rightarrow> ml_keep ageCutoff fn cancel (ks @ [e]) es r a
        | (Some True, a) \<Rightarrow> ml_keep ageCutoff fn cancel ks es (r\<lparr>rr_deleted := rr_deleted r + 1\<rparr>) a))"

fun ml_reconcile :: "time \<Rightarrow> 'a confirm_fn \<Rightarrow> nat option \<Rightarrow> string list \<Rightarrow> reconcile_result \<Rightarrow> 'a \<Rightarrow> log_mem \<Rightarrow> reconcile_result \<times> 'a \<times> log_mem" where
  "ml_reconcile ageCutoff fn cancel [] r a m = (r, a, m)"
| "ml_reconcile ageCutoff fn cancel (i # is) r a m = (case ml_keep ageCutoff fn cancel [] (m i) r a of
      (True, cancel', ks, r, a) \<Rightarrow> (r, a, m(i := ks @ drop (length ks) (m i)))
    | (False, cancel', ks, r, a) \<Rightarrow> ml_reconcile ageCutoff fn cancel' is r a (m(i := ks)))"

definition ml_ReconcileConfirmed :: "string list \<Rightarrow> time \<Rightarrow> nat option \<Rightarrow> duration \<Rightarrow> 'a confirm_fn option \<Rightarrow> 'a \<Rightarrow> log_mem
    \<Rightarrow> reconcile_result \<times> 'a \<times> log_mem" where
  "ml_ReconcileConfirmed ord now cancel minAge confirmedFn a m = (case confirmedFn of
      None \<Rightarrow> (\<lparr>rr_deleted = 0, rr_scanned = 0, rr_err = True\<rparr>, a, m)
    | Some fn \<Rightarrow> ml_reconcile (now - minAge) fn cancel ord \<lparr>rr_deleted = 0, rr_scanned = 0, rr_err = False\<rparr> a m)"

section \<open>Scrubbing\<close>

definition redactedSentinel :: string where
  "redactedSentinel = ''[REDACTED]''"

definition scrub_one :: "string \<Rightarrow> string \<Rightarrow> string" where
  "scrub_one v out = (if v = [] then out else if \<not> str_Contains out v then out else ReplaceAll out v redactedSentinel)"

definition Scrub :: "string \<Rightarrow> string list \<Rightarrow> string" where
  "Scrub chunk secrets = (if chunk = [] \<or> secrets = [] then chunk else fold scrub_one secrets chunk)"

definition scrub_Append :: "(log_entry \<Rightarrow> 's \<Rightarrow> bool \<times> 's) \<Rightarrow> (string \<Rightarrow> string list option) option \<Rightarrow> log_entry \<Rightarrow> 's \<Rightarrow> bool \<times> 's" where
  "scrub_Append ap lookup e s = (case lookup of None \<Rightarrow> ap e s
     | Some f \<Rightarrow> (case f (le_JobID e) of None \<Rightarrow> ap e s
        | Some secrets \<Rightarrow> if secrets = [] then ap e s else ap (e\<lparr>le_Data := Scrub (le_Data e) secrets\<rparr>) s))"

definition collectSecretValues :: "strmap \<Rightarrow> string list \<Rightarrow> string list" where
  "collectSecretValues env secretKeys = List.map_filter (\<lambda>k. case map_of env k of Some v \<Rightarrow> if v \<noteq> [] then Some v else None | None \<Rightarrow> None) secretKeys"

text \<open>The lookup that the coordinator hands to the decorator and to the stream handler.\<close>

definition secretsLookup :: "'p job_store \<Rightarrow> string \<Rightarrow> string list option" where
  "secretsLookup jobs jobID = (case Get jobID jobs of Inl e \<Rightarrow> None
     | Inr j \<Rightarrow>
        if j_SecretKeys j = [] then None
        else let out = collectSecretValues (j_Env j) (j_SecretKeys j) in if out = [] then None else Some out)"

section \<open>The stream of a node\<close>

record log_chunk =
  ck_JobId :: string
  ck_Seq :: "64 word"
  ck_Data :: string

record 's log_server =
  ls_store :: "'s option"
  ls_bus :: "(string \<times> 64 word \<times> string) list option"

text \<open>The loop over the chunks, each with the lookup at its time; an error of the store is only logged.\<close>

definition stream_chunk :: "(log_entry \<Rightarrow> 's \<Rightarrow> bool \<times> 's) \<Rightarrow> (string \<Rightarrow> string list option) option \<Rightarrow> log_chunk \<Rightarrow> 's log_server \<Rightarrow> 's log_server" where
  "stream_chunk ap lookup ch sv = (case ls_store sv of None \<Rightarrow> sv
     | Some st \<Rightarrow>
        if ck_Data ch = [] then sv
        else let d = (case lookup of None \<Rightarrow> ck_Data ch
                 | Some f \<Rightarrow> (case f (ck_JobId ch) of None \<Rightarrow> ck_Data ch
                    | Some secrets \<Rightarrow> if secrets = [] then ck_Data ch else Scrub (ck_Data ch) secrets));
               e = \<lparr>le_JobID = ck_JobId ch, le_Seq = ck_Seq ch, le_Data = d, le_Timestamp = time_zero\<rparr>
             in sv\<lparr>ls_store := Some (snd (scrub_Append ap lookup e st)), ls_bus := map_option (\<lambda>b. b @ [(ck_JobId ch, ck_Seq ch, d)]) (ls_bus sv)\<rparr>)"

definition StreamLogs :: "(log_entry \<Rightarrow> 's \<Rightarrow> bool \<times> 's) \<Rightarrow> ((string \<Rightarrow> string list option) option \<times> log_chunk) list \<Rightarrow> 's log_server \<Rightarrow> 's log_server" where
  "StreamLogs ap chunks sv = fold (\<lambda>(lookup, ch). stream_chunk ap lookup ch) chunks sv"

section \<open>The endpoint\<close>

datatype logs_response = LogsError response | LogsOK string "log_entry list" nat

definition parse_tail :: "string \<Rightarrow> nat" where
  "parse_tail t = (if t = [] then 0 else case Atoi t of Some n \<Rightarrow> if 0 < n then nat n else 0 | None \<Rightarrow> 0)"

definition handleGetJobLogs :: "(string \<Rightarrow> kv_error + log_entry list) \<Rightarrow> api_request \<Rightarrow> string \<Rightarrow> string \<Rightarrow> 'p api \<Rightarrow> logs_response \<times> 'p api" where
  "handleGetJobLogs logs r i tailParam s =
     (let tail = parse_tail tailParam in
      case Get i (ap_jobs s) of Inl _ \<Rightarrow> (LogsError (RespError 404 MsgJobNotFound), s)
      | Inr job \<Rightarrow> (case authzCheck r ActionRead (job_resource job) s of
           (Some resp, s) \<Rightarrow> (LogsError resp, s)
         | (None, s) \<Rightarrow> (case logs i of Inl e \<Rightarrow> (LogsError (RespError 500 MsgInternal), s)
            | Inr entries \<Rightarrow>
               let entries = (if 0 < tail \<and> tail < length entries then drop (length entries - tail) entries else entries);
                   entries = (if j_SecretKeys job = [] then entries
                     else map (\<lambda>e. e\<lparr>le_Data := Scrub (le_Data e) (collectSecretValues (j_Env job) (j_SecretKeys job))\<rparr>) entries) in
               (LogsOK i entries (length entries), s))))"

section \<open>The reconciler\<close>

record reconciler_config =
  rc_Interval :: duration
  rc_MinAge :: duration
  rc_BatchSize :: int

definition NewReconciler :: "reconciler_config \<Rightarrow> reconciler_config" where
  "NewReconciler cfg = \<lparr>rc_Interval = (if rc_Interval cfg \<le> 0 then 10 * minute else rc_Interval cfg),
     rc_MinAge = (if rc_MinAge cfg \<le> 0 then 5 * minute else rc_MinAge cfg),
     rc_BatchSize = (if rc_BatchSize cfg \<le> 0 then 200 else rc_BatchSize cfg)\<rparr>"

text \<open>\<open>confirm\<close> is the answer of the database to one batch, \<open>None\<close> an error.\<close>

function runConfirmBatches :: "nat \<Rightarrow> (log_id list \<Rightarrow> (log_id \<rightharpoonup> bool) option) \<Rightarrow> log_id list \<Rightarrow> log_id set \<Rightarrow> log_id set option" where
  "runConfirmBatches n confirm cands out =
     (if cands = [] \<or> n = 0 then Some out
      else case confirm (take n cands) of None \<Rightarrow> None
      | Some conf \<Rightarrow> runConfirmBatches n confirm (drop n cands) (out \<union> {k. conf k = Some True}))"
  by pat_completeness auto
termination
  by (relation "measure (\<lambda>(n, confirm, cands, out). length cands)") auto

declare runConfirmBatches.simps [simp del]

text \<open>\<open>rec1\<close> and \<open>rec2\<close> are the store's \<open>ReconcileConfirmed\<close> at the two passes.\<close>

definition reconciler_sweep :: "(duration \<Rightarrow> log_id list confirm_fn option \<Rightarrow> log_id list \<Rightarrow> 's \<Rightarrow> reconcile_result \<times> log_id list \<times> 's)
    \<Rightarrow> (duration \<Rightarrow> log_id list confirm_fn option \<Rightarrow> log_id list \<Rightarrow> 's \<Rightarrow> reconcile_result \<times> log_id list \<times> 's)
    \<Rightarrow> (log_id list \<Rightarrow> (log_id \<rightharpoonup> bool) option) \<Rightarrow> reconciler_config \<Rightarrow> 's \<Rightarrow> 's" where
  "reconciler_sweep rec1 rec2 confirm cfg s =
     (case rec1 (rc_MinAge cfg) (Some (\<lambda>j q cs. (Some False, cs @ [(j, q)]))) [] s of
        (r, candidates, s) \<Rightarrow>
          if rr_err r \<or> rr_scanned r = 0 \<or> candidates = [] then s
          else (case runConfirmBatches (nat (rc_BatchSize cfg)) confirm candidates {} of
             None \<Rightarrow> s
           | Some confirmed \<Rightarrow> snd (snd (rec2 (rc_MinAge cfg) (Some (\<lambda>j q cs. (Some ((j, q) \<in> confirmed), cs))) candidates s))))"

section \<open>What scrubbing removes\<close>

definition hides :: "string \<Rightarrow> string \<Rightarrow> bool" where
  "hides v d \<longleftrightarrow> \<not> str_Contains d v"

text \<open>A value that the sentinel cannot give back: without brackets, and not a part of its word.\<close>

definition plain_secret :: "string \<Rightarrow> bool" where
  "plain_secret v \<longleftrightarrow> v \<noteq> [] \<and> CHR ''['' \<notin> set v \<and> CHR '']'' \<notin> set v \<and> \<not> str_Contains ''REDACTED'' v"

lemma sentinel_prefix: "CHR ''['' \<notin> set w \<Longrightarrow> HasPrefix (redactedSentinel @ x) w \<Longrightarrow> w = []"
  by (cases w) (auto simp: redactedSentinel_def)

text \<open>A plain value in a text behind the sentinel is in that text.\<close>

lemma Contains_after_sentinel:
  assumes w: "plain_secret w" and c: "str_Contains (redactedSentinel @ x) w"
  shows "str_Contains x w"
proof -
  obtain u v where uv: "redactedSentinel @ x = u @ w @ v" using c by (auto simp: str_Contains_iff)
  then obtain us where "redactedSentinel = u @ us \<and> us @ x = w @ v \<or> redactedSentinel @ us = u \<and> x = us @ w @ v"
    by (auto simp: append_eq_append_conv2)
  then show ?thesis
  proof
    assume "redactedSentinel @ us = u \<and> x = us @ w @ v"
    then show ?thesis by (auto simp: str_Contains_iff)
  next
    assume a: "redactedSentinel = u @ us \<and> us @ x = w @ v"
    show ?thesis
    proof (cases "us = []")
      case True
      with a show ?thesis by (auto simp: str_Contains_iff)
    next
      case False
      have "''[REDACTED]'' = u @ us" using a by (simp add: redactedSentinel_def)
      from arg_cong [OF this, of last] False have "last us = CHR '']''" by simp
      then have l: "CHR '']'' \<in> set us" using False by (metis last_in_set)
      from a obtain ws where "us = w @ ws \<and> ws @ x = v \<or> us @ ws = w \<and> x = ws @ v" by (auto simp: append_eq_append_conv2)
      then show ?thesis
      proof
        assume "us @ ws = w \<and> x = ws @ v"
        with l w show ?thesis by (auto simp: plain_secret_def)
      next
        assume b: "us = w @ ws \<and> ws @ x = v"
        then have r: "''[REDACTED]'' = u @ w @ ws" using a by (simp add: redactedSentinel_def)
        have "u \<noteq> []" using r w by (cases w) (auto simp: plain_secret_def)
        then obtain u' where u: "u = CHR ''['' # u'" using r by (cases u) auto
        have "ws \<noteq> []" using b l w by (auto simp: plain_secret_def)
        moreover from this have "last ws = CHR '']''" using arg_cong [OF r, of last] by simp
        ultimately obtain ws' where ws: "ws = ws' @ [CHR '']'']" by (metis append_butlast_last_id)
        have "''REDACTED'' @ [CHR '']''] = (u' @ w @ ws') @ [CHR '']'']" using r u ws by simp
        then have "''REDACTED'' = u' @ w @ ws'" by (simp only: append_same_eq)
        then have "str_Contains ''REDACTED'' w" unfolding str_Contains_iff by blast
        with w show ?thesis by (simp add: plain_secret_def)
      qed
    qed
  qed
qed

lemma ReplaceAll_hit: "old \<noteq> [] \<and> HasPrefix (c # s) old \<Longrightarrow> ReplaceAll (c # s) old new = new @ ReplaceAll (drop (length old) (c # s)) old new"
  by (subst ReplaceAll.simps) (rule if_P)

lemma ReplaceAll_miss: "\<not> (old \<noteq> [] \<and> HasPrefix (c # s) old) \<Longrightarrow> ReplaceAll (c # s) old new = c # ReplaceAll s old new"
  by (subst ReplaceAll.simps) (rule if_not_P)

lemma ReplaceAll_prefix: "CHR ''['' \<notin> set w \<Longrightarrow> HasPrefix (ReplaceAll d v redactedSentinel) w \<Longrightarrow> HasPrefix d w"
proof (induction d v redactedSentinel arbitrary: w rule: ReplaceAll.induct)
  case (2 c s old)
  show ?case
  proof (cases "old \<noteq> [] \<and> HasPrefix (c # s) old")
    case True
    have "w = []" using 2(4) unfolding ReplaceAll_hit [OF True] by (rule sentinel_prefix [OF 2(3)])
    then show ?thesis by simp
  next
    case False
    have p: "HasPrefix (c # ReplaceAll s old redactedSentinel) w" using 2(4) unfolding ReplaceAll_miss [OF False] .
    show ?thesis
    proof (cases w)
      case (Cons x w')
      then show ?thesis using p 2(2) [OF False, of w'] 2(3) by simp
    qed simp
  qed
qed simp

lemma Contains_drop: "str_Contains (drop n d) w \<Longrightarrow> str_Contains d w"
  by (auto simp: str_Contains_iff) (metis append.assoc append_take_drop_id)

lemma ReplaceAll_contains:
  "plain_secret w \<Longrightarrow> str_Contains (ReplaceAll d v redactedSentinel) w \<Longrightarrow> str_Contains d w"
proof (induction d v redactedSentinel rule: ReplaceAll.induct)
  case (2 c s old)
  show ?case
  proof (cases "old \<noteq> [] \<and> HasPrefix (c # s) old")
    case True
    note ReplaceAll_hit [OF True, of redactedSentinel]
    then have "str_Contains (drop (length old) (c # s)) w" using 2(1) [OF True 2(3)] Contains_after_sentinel [OF 2(3)] 2(4) by metis
    then show ?thesis by (rule Contains_drop)
  next
    case False
    note r = ReplaceAll_miss [OF False, of redactedSentinel]
    have "HasPrefix (c # ReplaceAll s old redactedSentinel) w \<or> str_Contains (ReplaceAll s old redactedSentinel) w" using 2(4) unfolding r str_Contains.simps(2) .
    then show ?thesis
    proof
      assume "HasPrefix (c # ReplaceAll s old redactedSentinel) w"
      then have "HasPrefix (c # s) w" using ReplaceAll_prefix [of w "c # s" old] 2(3) unfolding r plain_secret_def by blast
      then show ?thesis unfolding str_Contains.simps(2) ..
    next
      assume "str_Contains (ReplaceAll s old redactedSentinel) w"
      from 2(2) [OF False 2(3) this] show ?thesis unfolding str_Contains.simps(2) ..
    qed
  qed
qed simp

lemma ReplaceAll_hides: "plain_secret v \<Longrightarrow> hides v (ReplaceAll d v redactedSentinel)"
proof (induction d v redactedSentinel rule: ReplaceAll.induct)
  case (2 c s old)
  show ?case
  proof (cases "old \<noteq> [] \<and> HasPrefix (c # s) old")
    case True
    note ReplaceAll_hit [OF True, of redactedSentinel]
    then show ?thesis using 2(1) [OF True 2(3)] Contains_after_sentinel [OF 2(3)] unfolding hides_def by metis
  next
    case False
    note r = ReplaceAll_miss [OF False, of redactedSentinel]
    have "\<not> HasPrefix (c # ReplaceAll s old redactedSentinel) old"
      using False 2(3) ReplaceAll_prefix [of old "c # s" old] unfolding r plain_secret_def by blast
    with 2(2) [OF False 2(3)] show ?thesis unfolding r hides_def str_Contains.simps(2) by blast
  qed
qed (simp add: hides_def plain_secret_def)

lemma scrub_one_hides: "plain_secret v \<Longrightarrow> hides v (scrub_one v d)" "plain_secret v \<Longrightarrow> hides v d \<Longrightarrow> hides v (scrub_one w d)"
  using ReplaceAll_hides [of v d] ReplaceAll_contains [of v d w] by (auto simp: scrub_one_def hides_def) (simp_all add: plain_secret_def)

text \<open>Every plain value of the list is gone, whatever the other values are and however they overlap.\<close>

lemma Scrub_hides:
  assumes "plain_secret v" and "v \<in> set secrets \<or> hides v d"
  shows "hides v (Scrub d secrets)"
proof -
  have "hides v (fold scrub_one vs d)" if "v \<in> set vs \<or> hides v d" for vs d
    using that
  proof (induction vs arbitrary: d)
    case (Cons w vs)
    have "v \<in> set vs \<or> hides v (scrub_one w d)" using Cons.prems scrub_one_hides [OF assms(1)] by auto
    with Cons.IH show ?case by simp
  qed simp
  moreover have "hides v []" using assms(1) by (simp add: hides_def plain_secret_def)
  ultimately show ?thesis using assms(2) by (auto simp: Scrub_def)
qed

text \<open>Outside that class a value can survive: the sentinel's last character completes it again.\<close>

lemma bracketed_secret_survives: "str_Contains (Scrub ''D]]]'' [''D]]'']) ''D]]''"
  by (simp add: Scrub_def scrub_one_def redactedSentinel_def)

section \<open>What the decorator and the reconciler rely on\<close>

text \<open>No entry of the job, stored or mirrored, shows the value; the lookup knows it.\<close>

definition safe :: "string \<Rightarrow> string \<Rightarrow> log_entry \<Rightarrow> bool" where
  "safe i v e \<longleftrightarrow> (le_JobID e = i \<longrightarrow> hides v (le_Data e))"

definition bus_safe :: "string \<Rightarrow> string \<Rightarrow> (string \<times> 64 word \<times> string) list \<Rightarrow> bool" where
  "bus_safe i v b \<longleftrightarrow> (\<forall>(j, q, d) \<in> set b. j = i \<longrightarrow> hides v d)"

definition knows :: "string \<Rightarrow> string \<Rightarrow> (string \<Rightarrow> string list option) option \<Rightarrow> bool" where
  "knows i v lookup \<longleftrightarrow> (\<exists>f vs. lookup = Some f \<and> f i = Some vs \<and> v \<in> set vs)"

text \<open>A backend holds the entries it was given and nothing else: what is true of all it holds stays true when an entry with
  that property is added.\<close>

locale log_backend =
  fixes ap :: "log_entry \<Rightarrow> 's \<Rightarrow> bool \<times> 's" and holds :: "(log_entry \<Rightarrow> bool) \<Rightarrow> 's \<Rightarrow> bool"
  assumes ap_holds: "holds P s \<Longrightarrow> P e \<Longrightarrow> ap e s = (b, s') \<Longrightarrow> holds P s'"
begin

lemma scrub_Append_safe:
  assumes "plain_secret v" and "holds (safe i v) s" and "scrub_Append ap (Some f) e s = (b, s')"
    and "le_JobID e = i \<Longrightarrow> \<exists>vs. f i = Some vs \<and> v \<in> set vs"
  shows "holds (safe i v) s'"
proof (cases "le_JobID e = i")
  case True
  then obtain vs where "f i = Some vs" "v \<in> set vs" using assms(4) by blast
  with assms(3) True have "ap (e\<lparr>le_Data := Scrub (le_Data e) vs\<rparr>) s = (b, s')" by (cases vs) (auto simp: scrub_Append_def)
  moreover have "safe i v (e\<lparr>le_Data := Scrub (le_Data e) vs\<rparr>)" using Scrub_hides [OF assms(1)] \<open>v \<in> set vs\<close> by (simp add: safe_def)
  ultimately show ?thesis using ap_holds assms(2) by blast
next
  case False
  then have "safe i v e" "safe i v (e\<lparr>le_Data := d\<rparr>)" for d by (simp_all add: safe_def)
  with assms(2,3) show ?thesis by (auto simp: scrub_Append_def intro: ap_holds split: option.splits if_splits)
qed

lemma stream_chunk_safe:
  assumes "plain_secret v" and "ck_JobId ch = i \<longrightarrow> knows i v lookup" and "lookup \<noteq> None"
    and "pred_option (holds (safe i v)) (ls_store sv) \<and> pred_option (bus_safe i v) (ls_bus sv)"
  shows "pred_option (holds (safe i v)) (ls_store (stream_chunk ap lookup ch sv)) \<and> pred_option (bus_safe i v) (ls_bus (stream_chunk ap lookup ch sv))"
proof (cases "ls_store sv = None \<or> ck_Data ch = []")
  case False
  then obtain st where st: "ls_store sv = Some st" "ck_Data ch \<noteq> []" by auto
  obtain f where f: "lookup = Some f" using assms(3) by blast
  define d where "d = (case f (ck_JobId ch) of None \<Rightarrow> ck_Data ch | Some vs \<Rightarrow> if vs = [] then ck_Data ch else Scrub (ck_Data ch) vs)"
  define e where "e = \<lparr>le_JobID = ck_JobId ch, le_Seq = ck_Seq ch, le_Data = d, le_Timestamp = time_zero\<rparr>"
  have hid: "ck_JobId ch = i \<Longrightarrow> hides v d" using assms(1,2) Scrub_hides [OF assms(1)] by (auto simp: d_def f knows_def)
  obtain b st' where a: "scrub_Append ap (Some f) e st = (b, st')" by fastforce
  have "holds (safe i v) st'"
    by (rule scrub_Append_safe [OF assms(1) _ a]) (use assms(2,4) st f in \<open>auto simp: e_def knows_def\<close>)
  moreover have "stream_chunk ap lookup ch sv = sv\<lparr>ls_store := Some st', ls_bus := map_option (\<lambda>b. b @ [(ck_JobId ch, ck_Seq ch, d)]) (ls_bus sv)\<rparr>"
    using st f a by (simp add: stream_chunk_def Let_def d_def e_def)
  ultimately show ?thesis using assms(4) hid by (cases "ls_bus sv") (auto simp: bus_safe_def)
next
  case True
  then have "stream_chunk ap lookup ch sv = sv" by (cases "ls_store sv") (auto simp: stream_chunk_def)
  with assms(4) show ?thesis by simp
qed

lemma StreamLogs_safe:
  assumes "plain_secret v" and "\<forall>(lookup, ch) \<in> set chunks. lookup \<noteq> None \<and> (ck_JobId ch = i \<longrightarrow> knows i v lookup)"
    and "pred_option (holds (safe i v)) (ls_store sv) \<and> pred_option (bus_safe i v) (ls_bus sv)"
  shows "pred_option (holds (safe i v)) (ls_store (StreamLogs ap chunks sv)) \<and> pred_option (bus_safe i v) (ls_bus (StreamLogs ap chunks sv))"
  using assms(2,3)
proof (induction chunks arbitrary: sv)
  case (Cons x chunks)
  obtain lookup ch where x: "x = (lookup, ch)" by fastforce
  have "pred_option (holds (safe i v)) (ls_store (stream_chunk ap lookup ch sv)) \<and> pred_option (bus_safe i v) (ls_bus (stream_chunk ap lookup ch sv))"
    by (rule stream_chunk_safe [OF assms(1)]) (use Cons.prems x in auto)
  from Cons.IH [OF _ this] Cons.prems(1) x show ?case by (simp add: StreamLogs_def)
qed (simp add: StreamLogs_def)

end

definition bl_holds :: "log_codec \<Rightarrow> (log_entry \<Rightarrow> bool) \<Rightarrow> badger_kv \<Rightarrow> bool" where
  "bl_holds C P db \<longleftrightarrow> (\<forall>k x. kb_entries db k = Some x \<and> HasPrefix k ''log:'' \<longrightarrow> (\<exists>e. P e \<and> lc_enc C e = Some (en_value x)))"

definition ml_holds :: "(log_entry \<Rightarrow> bool) \<Rightarrow> log_mem \<Rightarrow> bool" where
  "ml_holds P m \<longleftrightarrow> (\<forall>i. list_all P (m i))"

interpretation bl: log_backend "bl_Append C" "bl_holds C" for C
proof
  fix P e b and s s' :: badger_kv
  assume h: "bl_holds C P s" "P e" "bl_Append C e s = (b, s')"
  show "bl_holds C P s'"
  proof (cases "lc_enc C e")
    case (Some d)
    then have "kv_write (log_key (le_JobID e) (le_Seq e)) (Some \<lparr>en_value = d, en_expires = None\<rparr>) s = (b, s')" using h(3) by (simp add: bl_Append_def kv_Put_def)
    from kv_write_result [OF this] h(1,2) Some show ?thesis by (auto simp: bl_holds_def)
  qed (use h in \<open>simp add: bl_Append_def\<close>)
qed

interpretation ml: log_backend ml_Append ml_holds
  by unfold_locales (auto simp: ml_holds_def ml_Append_def)


definition demo_log_codec :: log_codec where
  "demo_log_codec = \<lparr>lc_enc = (\<lambda>e. Some (le_Data e)), lc_dec = (\<lambda>d. Some \<lparr>le_JobID = ''j1'', le_Seq = 1, le_Data = d, le_Timestamp = time_zero\<rparr>)\<rparr>"

definition demo_log_server :: "badger_kv log_server" where
  "demo_log_server = \<lparr>ls_store = Some \<lparr>kb_entries = Map.empty, kb_faults = []\<rparr>, ls_bus = Some []\<rparr>"

definition demo_chunk :: log_chunk where
  "demo_chunk = \<lparr>ck_JobId = ''j1'', ck_Seq = 1, ck_Data = ''token=hunter2''\<rparr>"

lemma demo_secret_plain: "plain_secret ''hunter2''"
  by (simp add: plain_secret_def)




section \<open>What a sweep deletes\<close>

lemma split_last: "c \<notin> set x \<Longrightarrow> c \<notin> set y \<Longrightarrow> a @ c # x = b @ c # y \<longleftrightarrow> a = b \<and> x = y"
proof
  assume c: "c \<notin> set x" "c \<notin> set y" and e: "a @ c # x = b @ c # y"
  have "takeWhile (\<lambda>z. z \<noteq> c) (rev (a @ c # x)) = rev x" "takeWhile (\<lambda>z. z \<noteq> c) (rev (b @ c # y)) = rev y" using c by (simp_all add: takeWhile_append)
  with e have "x = y" by (metis rev_rev_ident)
  with e show "a = b \<and> x = y" by simp
qed simp

lemma log_key_inject [simp]: "log_key i q = log_key j p \<longleftrightarrow> i = j \<and> q = p"
proof -
  have "CHR '':'' \<notin> set (pad_dec 10 n)" for n using pad_dec_digits [of 10 n] by (auto simp: list_all_iff byte_range_def)
  then show ?thesis using split_last [of "CHR '':''" "pad_dec 10 (unat q)" "pad_dec 10 (unat p)" i j] by (simp add: log_key_def word_unat_eq_iff)
qed

text \<open>\<open>ReconcileConfirmed\<close> removes only what the function answers true for; \<open>x\<close> is the time, the order and the
  cancellation of a call.\<close>

locale reconcilable =
  fixes rc :: "'x \<Rightarrow> duration \<Rightarrow> log_id list confirm_fn option \<Rightarrow> log_id list \<Rightarrow> 's \<Rightarrow> reconcile_result \<times> log_id list \<times> 's"
    and ids :: "'s \<Rightarrow> log_id set"
  assumes rc_ids: "rc x minAge (Some fn) a s = (r, a', s') \<Longrightarrow> (\<forall>j q a. fst (fn j q a) = Some True \<longrightarrow> (j, q) \<in> K) \<Longrightarrow> ids s' \<subseteq> ids s \<and> ids s - ids s' \<subseteq> K"
begin

lemma sweep_ids:
  assumes "reconciler_sweep (rc x) (rc y) confirm cfg s = s'"
  shows "ids s' \<subseteq> ids s \<and> (\<forall>k \<in> ids s - ids s'. \<exists>cands confirmed. runConfirmBatches (nat (rc_BatchSize cfg)) confirm cands {} = Some confirmed \<and> k \<in> confirmed)"
proof -
  obtain r cands s1 where p1: "rc x (rc_MinAge cfg) (Some (\<lambda>j q cs. (Some False, cs @ [(j, q)]))) [] s = (r, cands, s1)" using prod_cases3 by blast
  from rc_ids [OF this, of "{}"] have i1: "ids s1 = ids s" by auto
  show ?thesis
  proof (cases "rr_err r \<or> rr_scanned r = 0 \<or> cands = []")
    case True
    then have "s' = s1" using assms p1 by (auto simp: reconciler_sweep_def)
    with i1 show ?thesis by simp
  next
    case False
    show ?thesis
    proof (cases "runConfirmBatches (nat (rc_BatchSize cfg)) confirm cands {}")
      case None
      then have "s' = s1" using assms p1 False by (auto simp: reconciler_sweep_def)
      with i1 show ?thesis by simp
    next
      case (Some K)
      obtain r2 a2 where p2: "rc y (rc_MinAge cfg) (Some (\<lambda>j q cs. (Some ((j, q) \<in> K), cs))) cands s1 = (r2, a2, s')"
        using assms p1 False Some by (auto simp: reconciler_sweep_def) (metis prod.collapse)
      from rc_ids [OF p2, of K] i1 have "ids s' \<subseteq> ids s \<and> ids s - ids s' \<subseteq> K" by simp
      with Some show ?thesis by blast
    qed
  qed
qed

end

text \<open>What is confirmed in the end was confirmed in the answer to a batch.\<close>

lemma runConfirmBatches_sound:
  "runConfirmBatches n confirm cands out = Some K \<Longrightarrow> k \<in> K \<Longrightarrow> k \<in> out \<or> (\<exists>batch conf. confirm batch = Some conf \<and> conf k = Some True)"
proof (induction n confirm cands out rule: runConfirmBatches.induct)
  case (1 n confirm cands out)
  show ?case
  proof (cases "cands = [] \<or> n = 0")
    case True
    with 1(2,3) show ?thesis by (simp add: runConfirmBatches.simps [of n confirm cands])
  next
    case False
    with 1(2) obtain conf where c: "confirm (take n cands) = Some conf" "runConfirmBatches n confirm (drop n cands) (out \<union> {k. conf k = Some True}) = Some K"
      by (auto simp: runConfirmBatches.simps [of n confirm cands] split: option.splits)
    from 1(1) [OF False c(1,2) 1(3)] c(1) show ?thesis by blast
  qed
qed

definition bl_ids :: "badger_kv \<Rightarrow> log_id set" where
  "bl_ids db = {(j, q). kb_entries db (log_key j q) \<noteq> None}"

definition ml_ids :: "log_mem \<Rightarrow> log_id set" where
  "ml_ids m = {(le_JobID e, le_Seq e) | e i. e \<in> set (m i)}"

definition shrinks :: "log_id set \<Rightarrow> log_id set \<Rightarrow> log_id set \<Rightarrow> bool" where
  "shrinks K A B \<longleftrightarrow> B \<subseteq> A \<and> A - B \<subseteq> K"

lemma shrinks_refl [simp]: "shrinks K A A"
  by (simp add: shrinks_def)

lemma shrinks_trans: "shrinks K A B \<Longrightarrow> shrinks K B D \<Longrightarrow> shrinks K A D"
  by (auto simp: shrinks_def)

lemma kv_Delete_shrinks: "kv_Delete (log_key j q) db = (b, db') \<Longrightarrow> (j, q) \<in> K \<Longrightarrow> shrinks K (bl_ids db) (bl_ids db')"
  unfolding kv_Delete_def by (drule kv_write_result) (auto simp: shrinks_def bl_ids_def)

lemma bl_reconcile_shrinks:
  assumes K: "\<forall>j q a. fst (fn j q a) = Some True \<longrightarrow> (j, q) \<in> K"
  shows "bl_reconcile C cutoff fn cancel raw r a db = (r', a', db') \<Longrightarrow> shrinks K (bl_ids db) (bl_ids db')"
proof (induction raw arbitrary: cancel r a db)
  case (Cons d raw)
  show ?case
  proof (cases "cancel = Some 0 \<or> lc_dec C d = None \<or> cutoff < le_Timestamp (the (lc_dec C d))")
    case True
    with Cons show ?thesis by (cases "lc_dec C d") (auto simp: Let_def split: if_splits)
  next
    case False
    then obtain e where e: "cancel \<noteq> Some 0" "lc_dec C d = Some e" "\<not> cutoff < le_Timestamp e" by auto
    obtain ans a1 where f: "fn (le_JobID e) (le_Seq e) a = (ans, a1)" by fastforce
    show ?thesis
    proof (cases "ans = Some True")
      case True
      obtain b db1 where d1: "kv_Delete (log_key (le_JobID e) (le_Seq e)) db = (b, db1)" by fastforce
      have "shrinks K (bl_ids db) (bl_ids db1)" using kv_Delete_shrinks [OF d1] K f True by (metis fst_conv)
      moreover have "shrinks K (bl_ids db1) (bl_ids db')" using Cons e f True d1 by (cases b) (auto simp: Let_def)
      ultimately show ?thesis by (rule shrinks_trans)
    next
      case False
      with Cons e f show ?thesis by (auto simp: Let_def split: option.splits bool.splits)
    qed
  qed
qed simp

lemma ml_keep_split:
  assumes K: "\<forall>j q a. fst (fn j q a) = Some True \<longrightarrow> (j, q) \<in> K"
  shows "ml_keep cutoff fn cancel ks es r a = (c, cancel', ks', r', a') \<Longrightarrow>
    \<exists>pre rest. es = pre @ rest \<and> (\<not> c \<longrightarrow> rest = []) \<and> length ks' \<le> length ks + length pre \<and> set ks \<subseteq> set ks' \<and> set ks' \<subseteq> set ks \<union> set pre \<and>
      (\<forall>e \<in> set pre - set ks'. (le_JobID e, le_Seq e) \<in> K)"
proof (induction es arbitrary: cancel ks r a)
  case (Cons e es)
  obtain ans a1 where f: "fn (le_JobID e) (le_Seq e) a = (ans, a1)" by fastforce
  show ?case
  proof (cases "cancel = Some 0")
    case True
    with Cons.prems show ?thesis by (intro exI [of _ "[]"] exI [of _ "e # es"]) auto
  next
    case nc: False
    show ?thesis
    proof (cases "\<not> cutoff < le_Timestamp e \<and> ans = Some True")
      case True
      then obtain r1 where "ml_keep cutoff fn (map_option (\<lambda>n. n - 1) cancel) ks es r1 a1 = (c, cancel', ks', r', a')"
        using Cons.prems nc f by (auto simp: Let_def)
      from Cons.IH [OF this] obtain pre rest where "es = pre @ rest" "\<not> c \<longrightarrow> rest = []" "length ks' \<le> length ks + length pre" "set ks \<subseteq> set ks'"
        "set ks' \<subseteq> set ks \<union> set pre" "\<forall>e \<in> set pre - set ks'. (le_JobID e, le_Seq e) \<in> K" by blast
      moreover have "(le_JobID e, le_Seq e) \<in> K" using K f True by (metis fst_conv)
      ultimately show ?thesis by (intro exI [of _ "e # pre"] exI [of _ rest]) auto
    next
      case False
      then obtain r1 a2 where "ml_keep cutoff fn (map_option (\<lambda>n. n - 1) cancel) (ks @ [e]) es r1 a2 = (c, cancel', ks', r', a')"
        using Cons.prems nc f by (auto simp: Let_def split: if_splits option.splits bool.splits)
      from Cons.IH [OF this] obtain pre rest where "es = pre @ rest" "\<not> c \<longrightarrow> rest = []" "length ks' \<le> length (ks @ [e]) + length pre" "set (ks @ [e]) \<subseteq> set ks'"
        "set ks' \<subseteq> set (ks @ [e]) \<union> set pre" "\<forall>e \<in> set pre - set ks'. (le_JobID e, le_Seq e) \<in> K" by blast
      then show ?thesis by (intro exI [of _ "e # pre"] exI [of _ rest]) auto
    qed
  qed
qed auto

lemma ml_ids_upd:
  assumes "set L \<subseteq> set (m i)" and "\<forall>e \<in> set (m i) - set L. (le_JobID e, le_Seq e) \<in> K"
  shows "shrinks K (ml_ids m) (ml_ids (m(i := L)))"
proof -
  have "ml_ids (m(i := L)) \<subseteq> ml_ids m" using assms(1) by (auto simp: ml_ids_def split: if_splits)
  moreover have "x \<in> K" if x: "x \<in> ml_ids m" "x \<notin> ml_ids (m(i := L))" for x
  proof -
    from x(1) obtain e j where e: "x = (le_JobID e, le_Seq e)" "e \<in> set (m j)" by (auto simp: ml_ids_def)
    have "j = i" "e \<notin> set L" using x(2) e by (auto simp: ml_ids_def split: if_splits)
    with e assms(2) show ?thesis by auto
  qed
  ultimately show ?thesis by (auto simp: shrinks_def)
qed

lemma ml_reconcile_shrinks:
  assumes K: "\<forall>j q a. fst (fn j q a) = Some True \<longrightarrow> (j, q) \<in> K"
  shows "ml_reconcile cutoff fn cancel is r a m = (r', a', m') \<Longrightarrow> shrinks K (ml_ids m) (ml_ids m')"
proof (induction "is" arbitrary: cancel r a m)
  case (Cons i "is")
  obtain c cancel' ks r1 a1 where k: "ml_keep cutoff fn cancel [] (m i) r a = (c, cancel', ks, r1, a1)" by (metis prod_cases5)
  from ml_keep_split [OF K k] obtain pre rest where p: "m i = pre @ rest" "\<not> c \<longrightarrow> rest = []" "length ks \<le> length pre" "set ks \<subseteq> set pre"
      "\<forall>e \<in> set pre - set ks. (le_JobID e, le_Seq e) \<in> K" by auto
  show ?case
  proof (cases c)
    case True
    have "set rest \<subseteq> set (drop (length ks) (m i))" using p(1,3) by simp
    moreover have "set (drop (length ks) (m i)) \<subseteq> set (m i)" by (rule set_drop_subset)
    ultimately have "shrinks K (ml_ids m) (ml_ids (m(i := ks @ drop (length ks) (m i))))" using p by (intro ml_ids_upd) auto
    with Cons.prems k True show ?thesis by simp
  next
    case False
    then have "shrinks K (ml_ids m) (ml_ids (m(i := ks)))" using p by (intro ml_ids_upd) auto
    moreover have "shrinks K (ml_ids (m(i := ks))) (ml_ids m')" using Cons k False by simp
    ultimately show ?thesis by (rule shrinks_trans)
  qed
qed simp

interpretation bl_rec: reconcilable "\<lambda>(C, ord, now, cancel). bl_ReconcileConfirmed C ord now cancel" bl_ids
proof
  fix x :: "log_codec \<times> string list \<times> time \<times> nat option" and minAge fn a r a' K and s s' :: badger_kv
  assume rc: "(case x of (C, ord, now, cancel) \<Rightarrow> bl_ReconcileConfirmed C ord now cancel) minAge (Some fn) a s = (r, a', s')"
    and K: "\<forall>j q a. fst (fn j q a) = Some True \<longrightarrow> (j, q) \<in> K"
  obtain C ord now cancel where x: "x = (C, ord, now, cancel)" by (metis prod_cases4)
  obtain v s1 where sc: "kv_Scan ord now ''log:'' 0 s = (v, s1)" by fastforce
  have s1: "bl_ids s1 = bl_ids s" using sc by (auto simp: kv_Scan_def next_fault_def bl_ids_def Let_def split: bool.splits)
  show "bl_ids s' \<subseteq> bl_ids s \<and> bl_ids s - bl_ids s' \<subseteq> K"
  proof (cases v)
    case (Inl e)
    with rc x sc s1 show ?thesis by (simp add: bl_ReconcileConfirmed_def)
  next
    case (Inr raw)
    with rc x sc have "bl_reconcile C (now - minAge) fn cancel raw \<lparr>rr_deleted = 0, rr_scanned = 0, rr_err = False\<rparr> a s1 = (r, a', s')" by (simp add: bl_ReconcileConfirmed_def)
    from bl_reconcile_shrinks [OF K this] s1 show ?thesis by (simp add: shrinks_def)
  qed
qed

interpretation ml_rec: reconcilable "\<lambda>(ord, now, cancel). ml_ReconcileConfirmed ord now cancel" ml_ids
proof
  fix x :: "string list \<times> time \<times> nat option" and minAge fn a r a' K and s s' :: log_mem
  assume rc: "(case x of (ord, now, cancel) \<Rightarrow> ml_ReconcileConfirmed ord now cancel) minAge (Some fn) a s = (r, a', s')"
    and K: "\<forall>j q a. fst (fn j q a) = Some True \<longrightarrow> (j, q) \<in> K"
  obtain ord now cancel where x: "x = (ord, now, cancel)" by (metis prod_cases3)
  from rc x have "ml_reconcile (now - minAge) fn cancel ord \<lparr>rr_deleted = 0, rr_scanned = 0, rr_err = False\<rparr> a s = (r, a', s')" by (simp add: ml_ReconcileConfirmed_def)
  from ml_reconcile_shrinks [OF K this] show "ml_ids s' \<subseteq> ml_ids s \<and> ml_ids s - ml_ids s' \<subseteq> K" by (simp add: shrinks_def)
qed

text \<open>The reconciler frees nothing that only BadgerDB has: every log entry that a sweep removes was confirmed by the database in
  its answer to a batch of that sweep, whatever is stored, wherever the sweep is cancelled and
  whichever reads and deletions fail. A sweep adds nothing.\<close>

theorem sweep_deletes_confirmed_only:
  assumes "reconciler_sweep (bl_ReconcileConfirmed C ord now cancel) (bl_ReconcileConfirmed C ord' now' cancel') confirm cfg db = db'"
  shows "bl_ids db' \<subseteq> bl_ids db \<and> (\<forall>k \<in> bl_ids db - bl_ids db'. \<exists>batch conf. confirm batch = Some conf \<and> conf k = Some True)"
proof -
  have "bl_ids db' \<subseteq> bl_ids db \<and> (\<forall>k \<in> bl_ids db - bl_ids db'. \<exists>cands K. runConfirmBatches (nat (rc_BatchSize cfg)) confirm cands {} = Some K \<and> k \<in> K)"
    using bl_rec.sweep_ids [of "(C, ord, now, cancel)" "(C, ord', now', cancel')" confirm cfg db db'] assms by simp
  then show ?thesis using runConfirmBatches_sound by (metis empty_iff)
qed

theorem sweep_deletes_confirmed_only_witness:
  "bl_ids (reconciler_sweep (bl_ReconcileConfirmed demo_log_codec [log_key ''j1'' 1] 10 None) (bl_ReconcileConfirmed demo_log_codec [log_key ''j1'' 1] 20 None)
     (\<lambda>_. Some Map.empty) (NewReconciler \<lparr>rc_Interval = 0, rc_MinAge = 0, rc_BatchSize = 0\<rparr>)
     \<lparr>kb_entries = [log_key ''j1'' 1 \<mapsto> \<lparr>en_value = ''x'', en_expires = None\<rparr>], kb_faults = []\<rparr>) = {(''j1'', 1)}"
proof -
  let ?db = "\<lparr>kb_entries = [log_key ''j1'' 1 \<mapsto> \<lparr>en_value = ''x'', en_expires = None\<rparr>], kb_faults = []\<rparr>"
  have "bl_ids ?db = {(''j1'', 1)}" by (auto simp: bl_ids_def split: if_splits)
  with sweep_deletes_confirmed_only [OF refl, of demo_log_codec "[log_key ''j1'' 1]" 10 None "[log_key ''j1'' 1]" 20 None "\<lambda>_. Some Map.empty"
      "NewReconciler \<lparr>rc_Interval = 0, rc_MinAge = 0, rc_BatchSize = 0\<rparr>" ?db]
  show ?thesis by fastforce
qed

text \<open>The age limit does not hold young entries back: a streamed entry carries no time, and none is before the cutoff.\<close>

lemma streamed_entry_counts_as_old:
  assumes "time_zero \<le> now - minAge"
  shows "\<not> now - minAge < le_Timestamp \<lparr>le_JobID = j, le_Seq = q, le_Data = d, le_Timestamp = time_zero\<rparr>"
  using assms by simp

text \<open>A reader of job \<open>a\<close> also gets the log of job \<open>a:b\<close>, whose keys have the prefix that is scanned.\<close>

lemma colon_in_job_id_leaks:
  assumes "\<forall>e. lc_enc C e \<noteq> None \<and> lc_dec C (the (lc_enc C e)) = Some e" and "le_JobID e = ''a:b''"
  shows "\<exists>db. bl_Append C e \<lparr>kb_entries = Map.empty, kb_faults = []\<rparr> = (True, db) \<and>
    fst (bl_Get C [log_key (le_JobID e) (le_Seq e)] now ''a'' db) = Inr [e]"
proof -
  obtain d where d: "lc_enc C e = Some d" "lc_dec C d = Some e" using assms(1) by (metis option.collapse option.sel)
  have "HasPrefix (log_key (le_JobID e) (le_Seq e)) ''log:a:''" by (simp add: log_key_def assms(2))
  with d show ?thesis by (simp add: bl_Append_def kv_Put_def kv_write_def next_fault_def bl_Get_def kv_Scan_def kv_look_def live_def map_filter_simps)
qed

end
