(* ===== verification/Analytics_Sink.thy ===== *)
theory Analytics_Sink
  imports Event_Bus Go_Net Log_Store
begin

text \<open>
  The analytics sink (\<open>internal/analytics/sink.go\<close>, \<open>sink_unified.go\<close>) and the check of stored log entries
  (\<open>log_confirmer.go\<close>). The sink takes events from the bus into a bounded buffer and writes batches to PostgreSQL,
  each in one transaction: the event itself and, by its type, a row of a summary or history table. A table with a
  primary key is a map, and the statements of the source (insert, with update or with nothing on a conflict) are
  written out as functions on it; the outcome of every transaction is an argument. Hashing and the printing of
  times are parameters.

  The lemmas show that every event is written exactly once as long as the buffer does not overflow, whatever
  transactions fail; that the job summaries follow the job store; and that log entries are freed only when
  the table has them.
\<close>

section \<open>Extraction\<close>

definition extractString :: "(string \<times> any_val) list \<Rightarrow> string \<Rightarrow> string" where
  "extractString data key = (case map_of data key of Some (AStr s) \<Rightarrow> s | _ \<Rightarrow> [])"

definition extractInt :: "(string \<times> any_val) list \<Rightarrow> string \<Rightarrow> int" where
  "extractInt data key = (case map_of data key of Some (AInt n) \<Rightarrow> n | _ \<Rightarrow> 0)"

definition extractInt64 :: "(string \<times> any_val) list \<Rightarrow> string \<Rightarrow> int" where
  "extractInt64 data key = (case map_of data key of Some (AInt n) \<Rightarrow> n | _ \<Rightarrow> 0)"

definition extractBool :: "(string \<times> any_val) list \<Rightarrow> string \<Rightarrow> bool" where
  "extractBool data key = (case map_of data key of Some (ABool b) \<Rightarrow> b | Some (AStr s) \<Rightarrow> s = ''true'' | Some (AInt n) \<Rightarrow> n \<noteq> 0 | _ \<Rightarrow> False)"

definition nilIfEmpty :: "string \<Rightarrow> string option" where
  "nilIfEmpty s = (if s = [] then None else Some s)"

definition nullIfZero :: "int \<Rightarrow> int option" where
  "nullIfZero n = (if n = 0 then None else Some n)"

definition ua_truncate :: "string \<Rightarrow> nat \<Rightarrow> string" where
  "ua_truncate s mx = (if length s \<le> mx then s else take mx s)"

definition sanitiseIP :: "string \<Rightarrow> string" where
  "sanitiseIP raw =
     (if raw = [] then []
      else let host = (case SplitHostPort raw of Some h \<Rightarrow> h
             | None \<Rightarrow> if HasPrefix raw ''['' \<and> HasSuffix raw '']'' then take (length raw - 2) (drop 1 raw) else raw) in
        if ParseIP host \<noteq> None then host else [])"

text \<open>COALESCE of two columns.\<close>

definition coalesce :: "'a option \<Rightarrow> 'a option \<Rightarrow> 'a option" where
  "coalesce x y = (case x of None \<Rightarrow> y | Some v \<Rightarrow> Some v)"

section \<open>Tables\<close>

record event_row =
  er_event :: bus_event
  er_job_id :: string
  er_node_id :: string
  er_workflow_id :: string

record job_summary =
  sm_command :: "string option"
  sm_priority :: "int option"
  sm_node_id :: "string option"
  sm_final_status :: "string option"
  sm_submitted_at :: "time option"
  sm_started_at :: "time option"
  sm_completed_at :: "time option"
  sm_duration_ms :: "int option"
  sm_attempts :: "int option"
  sm_last_error :: "string option"
  sm_last_exit_code :: "int option"

definition blank_summary :: job_summary where
  "blank_summary = \<lparr>sm_command = None, sm_priority = None, sm_node_id = None, sm_final_status = None, sm_submitted_at = None, sm_started_at = None,
     sm_completed_at = None, sm_duration_ms = None, sm_attempts = Some 1, sm_last_error = None, sm_last_exit_code = None\<rparr>"

record node_summary =
  ns_address :: "string option"
  ns_first_seen :: time
  ns_last_seen :: time
  ns_times_stale :: int
  ns_times_revoked :: int
  ns_jobs_completed :: int
  ns_jobs_failed :: int

definition blank_node :: "time \<Rightarrow> node_summary" where
  "blank_node t = \<lparr>ns_address = None, ns_first_seen = t, ns_last_seen = t, ns_times_stale = 0, ns_times_revoked = 0, ns_jobs_completed = 0, ns_jobs_failed = 0\<rparr>"

record workflow_outcome =
  wo_status :: string
  wo_completed_at :: time
  wo_counts :: "int \<times> int \<times> int"
  wo_failed_job :: "string option"
  wo_owner_principal :: "string option"
  wo_tags :: any_val
  wo_started_at :: "time option"
  wo_duration_ms :: "int option"

record submission_row =
  sr_submitted_at :: time
  sr_actor :: string
  sr_operator_cn :: "string option"
  sr_source :: string
  sr_kind :: string
  sr_resource_id :: string
  sr_dry_run :: bool
  sr_accepted :: bool
  sr_reject_reason :: "string option"
  sr_user_agent :: "string option"

record auth_row =
  au_occurred_at :: time
  au_event_type :: string
  au_actor :: "string option"
  au_remote_ip :: "string option"
  au_user_agent :: "string option"
  au_reason :: "string option"

record pg =
  pg_events :: "event_row list"
  pg_jobs :: "string \<rightharpoonup> job_summary"
  pg_nodes :: "string \<rightharpoonup> node_summary"
  pg_workflows :: "string \<rightharpoonup> workflow_outcome"
  pg_unschedulable :: "string \<times> time \<rightharpoonup> any_val \<times> string"
  pg_registry :: "string \<times> string \<times> string \<times> string \<times> time \<rightharpoonup> string option \<times> string option \<times> int option"
  pg_submissions :: "string \<rightharpoonup> submission_row"
  pg_auth :: "auth_row list"
  pg_transfers :: "time \<times> string \<times> string \<times> string \<rightharpoonup> int \<times> bool option \<times> int option"
  pg_probes :: "string \<times> time \<rightharpoonup> string \<times> int option"
  pg_logs :: "string \<times> int \<rightharpoonup> time \<times> string"

definition empty_pg :: pg where
  "empty_pg = \<lparr>pg_events = [], pg_jobs = Map.empty, pg_nodes = Map.empty, pg_workflows = Map.empty, pg_unschedulable = Map.empty, pg_registry = Map.empty,
     pg_submissions = Map.empty, pg_auth = [], pg_transfers = Map.empty, pg_probes = Map.empty, pg_logs = Map.empty\<rparr>"

text \<open>An insert that does nothing on a conflict, and one that updates the row.\<close>

definition insert_new :: "'k \<Rightarrow> 'v \<Rightarrow> ('k \<rightharpoonup> 'v) \<Rightarrow> ('k \<rightharpoonup> 'v)" where
  "insert_new k v m = (if m k = None then m(k \<mapsto> v) else m)"

definition upsert_row :: "'k \<Rightarrow> 'v \<Rightarrow> ('v \<Rightarrow> 'v) \<Rightarrow> ('k \<rightharpoonup> 'v) \<Rightarrow> ('k \<rightharpoonup> 'v)" where
  "upsert_row k new upd m = m(k \<mapsto> (case m k of None \<Rightarrow> new | Some old \<Rightarrow> upd old))"

section \<open>Configuration\<close>

record sink_config =
  sc_BatchSize :: int
  sc_FlushInterval :: duration
  sc_BufferLimit :: int
  sc_PIIMode :: string
  sc_PIISalt :: string

definition sink_withDefaults :: "sink_config \<Rightarrow> sink_config" where
  "sink_withDefaults c = c\<lparr>sc_BatchSize := (if sc_BatchSize c \<le> 0 then 100 else sc_BatchSize c),
     sc_FlushInterval := (if sc_FlushInterval c \<le> 0 then 500 * millisecond else sc_FlushInterval c),
     sc_BufferLimit := (if sc_BufferLimit c \<le> 0 then 10000 else sc_BufferLimit c)\<rparr>"

text \<open>\<open>pl_sha256\<close> is the hex digest, \<open>pl_parse\<close> parses a time.\<close>

record pg_lib =
  pl_sha256 :: "string \<Rightarrow> string"
  pl_parse :: "string \<Rightarrow> time option"

definition hashActorIfEnabled :: "pg_lib \<Rightarrow> sink_config \<Rightarrow> string \<Rightarrow> string" where
  "hashActorIfEnabled L c raw = (if raw = [] \<or> sc_PIIMode c \<noteq> ''hash_actor'' then raw else pl_sha256 L (sc_PIISalt c @ raw))"

section \<open>Summaries of jobs and nodes\<close>

definition upsertJobSubmitted :: "bus_event \<Rightarrow> pg \<Rightarrow> pg" where
  "upsertJobSubmitted e db = (let jobID = extractString (be_Data e) ''job_id'' in
     if jobID = [] then db
     else let command = Some (extractString (be_Data e) ''command''); priority = Some (extractInt (be_Data e) ''priority'') in
       db\<lparr>pg_jobs := upsert_row jobID
         (blank_summary\<lparr>sm_command := command, sm_priority := priority, sm_submitted_at := Some (be_Timestamp e), sm_final_status := Some ''pending''\<rparr>)
         (\<lambda>r. r\<lparr>sm_command := coalesce command (sm_command r), sm_priority := coalesce priority (sm_priority r),
                sm_submitted_at := coalesce (Some (be_Timestamp e)) (sm_submitted_at r)\<rparr>) (pg_jobs db)\<rparr>)"

definition upsertJobTransition :: "bus_event \<Rightarrow> pg \<Rightarrow> pg" where
  "upsertJobTransition e db = (let jobID = extractString (be_Data e) ''job_id'' in
     if jobID = [] then db
     else let toStatus = extractString (be_Data e) ''to_status''; node = nilIfEmpty (extractString (be_Data e) ''node_id'') in
       if toStatus = ''running'' then
         db\<lparr>pg_jobs := upsert_row jobID (blank_summary\<lparr>sm_final_status := Some toStatus, sm_node_id := node, sm_started_at := Some (be_Timestamp e)\<rparr>)
           (\<lambda>r. r\<lparr>sm_final_status := Some toStatus, sm_node_id := coalesce node (sm_node_id r),
                  sm_started_at := coalesce (sm_started_at r) (Some (be_Timestamp e))\<rparr>) (pg_jobs db)\<rparr>
       else
         db\<lparr>pg_jobs := upsert_row jobID (blank_summary\<lparr>sm_final_status := Some toStatus, sm_node_id := node\<rparr>)
           (\<lambda>r. r\<lparr>sm_final_status := Some toStatus, sm_node_id := coalesce node (sm_node_id r)\<rparr>) (pg_jobs db)\<rparr>)"

definition upsertJobCompleted :: "bus_event \<Rightarrow> pg \<Rightarrow> pg" where
  "upsertJobCompleted e db = (let jobID = extractString (be_Data e) ''job_id'' in
     if jobID = [] then db
     else let nodeID = extractString (be_Data e) ''node_id''; t = be_Timestamp e; dur = Some (extractInt64 (be_Data e) ''duration_ms'');
         db = db\<lparr>pg_jobs := upsert_row jobID
           (blank_summary\<lparr>sm_final_status := Some ''completed'', sm_node_id := nilIfEmpty nodeID, sm_completed_at := Some t, sm_duration_ms := dur\<rparr>)
           (\<lambda>r. r\<lparr>sm_final_status := Some ''completed'', sm_node_id := coalesce (nilIfEmpty nodeID) (sm_node_id r), sm_completed_at := Some t,
                  sm_duration_ms := dur\<rparr>) (pg_jobs db)\<rparr> in
       if nodeID \<noteq> [] then
         db\<lparr>pg_nodes := upsert_row nodeID ((blank_node t)\<lparr>ns_jobs_completed := 1\<rparr>)
           (\<lambda>r. r\<lparr>ns_last_seen := t, ns_jobs_completed := ns_jobs_completed r + 1\<rparr>) (pg_nodes db)\<rparr>
       else db)"

definition upsertJobFailed :: "bus_event \<Rightarrow> pg \<Rightarrow> pg" where
  "upsertJobFailed e db = (let jobID = extractString (be_Data e) ''job_id'' in
     if jobID = [] then db
     else let nodeID = extractString (be_Data e) ''node_id''; t = be_Timestamp e;
         set_failed = (\<lambda>r. r\<lparr>sm_final_status := Some ''failed'', sm_completed_at := Some t, sm_last_error := Some (extractString (be_Data e) ''error''),
           sm_last_exit_code := Some (extractInt (be_Data e) ''exit_code''), sm_attempts := Some (extractInt (be_Data e) ''attempt'')\<rparr>);
         db = db\<lparr>pg_jobs := upsert_row jobID (set_failed blank_summary) set_failed (pg_jobs db)\<rparr> in
       if nodeID \<noteq> [] then
         db\<lparr>pg_nodes := upsert_row nodeID ((blank_node t)\<lparr>ns_jobs_failed := 1\<rparr>)
           (\<lambda>r. r\<lparr>ns_last_seen := t, ns_jobs_failed := ns_jobs_failed r + 1\<rparr>) (pg_nodes db)\<rparr>
       else db)"

definition upsertJobRetrying :: "bus_event \<Rightarrow> pg \<Rightarrow> pg" where
  "upsertJobRetrying e db = (let jobID = extractString (be_Data e) ''job_id'' in
     if jobID = [] then db
     else let set_retrying = (\<lambda>r. r\<lparr>sm_final_status := Some ''retrying'', sm_attempts := Some (extractInt (be_Data e) ''attempt'')\<rparr>) in
       db\<lparr>pg_jobs := upsert_row jobID (set_retrying blank_summary) set_retrying (pg_jobs db)\<rparr>)"

definition upsertNodeRegistered :: "bus_event \<Rightarrow> pg \<Rightarrow> pg" where
  "upsertNodeRegistered e db = (let nodeID = extractString (be_Data e) ''node_id'' in
     if nodeID = [] then db
     else let address = Some (extractString (be_Data e) ''address'') in
       db\<lparr>pg_nodes := upsert_row nodeID ((blank_node (be_Timestamp e))\<lparr>ns_address := address\<rparr>)
         (\<lambda>r. r\<lparr>ns_address := coalesce address (ns_address r), ns_last_seen := be_Timestamp e\<rparr>) (pg_nodes db)\<rparr>)"

definition upsertNodeStale :: "bus_event \<Rightarrow> pg \<Rightarrow> pg" where
  "upsertNodeStale e db = (let nodeID = extractString (be_Data e) ''node_id'' in
     if nodeID = [] then db
     else db\<lparr>pg_nodes := upsert_row nodeID ((blank_node (be_Timestamp e))\<lparr>ns_times_stale := 1\<rparr>)
         (\<lambda>r. r\<lparr>ns_last_seen := be_Timestamp e, ns_times_stale := ns_times_stale r + 1\<rparr>) (pg_nodes db)\<rparr>)"

definition upsertNodeRevoked :: "bus_event \<Rightarrow> pg \<Rightarrow> pg" where
  "upsertNodeRevoked e db = (let nodeID = extractString (be_Data e) ''node_id'' in
     if nodeID = [] then db
     else db\<lparr>pg_nodes := upsert_row nodeID ((blank_node (be_Timestamp e))\<lparr>ns_times_revoked := 1\<rparr>)
         (\<lambda>r. r\<lparr>ns_last_seen := be_Timestamp e, ns_times_revoked := ns_times_revoked r + 1\<rparr>) (pg_nodes db)\<rparr>)"

section \<open>Histories\<close>

definition upsertWorkflowOutcome :: "pg_lib \<Rightarrow> string \<Rightarrow> bus_event \<Rightarrow> pg \<Rightarrow> pg" where
  "upsertWorkflowOutcome L outcome e db = (let d = be_Data e; workflowID = extractString d ''workflow_id'' in
     if workflowID = [] then db
     else let startedRaw = extractString d ''started_at''; durationMs = extractInt64 d ''duration_ms'';
         row = \<lparr>wo_status = outcome, wo_completed_at = be_Timestamp e,
           wo_counts = (extractInt d ''job_count'', extractInt d ''success_count'', extractInt d ''failed_count''),
           wo_failed_job = nilIfEmpty (extractString d ''failed_job''), wo_owner_principal = nilIfEmpty (extractString d ''owner_principal''),
           wo_tags = (case map_of d ''tags'' of None \<Rightarrow> AMap [] | Some v \<Rightarrow> v),
           wo_started_at = (if startedRaw \<noteq> [] then pl_parse L startedRaw else None),
           wo_duration_ms = (if 0 < durationMs then Some durationMs else None)\<rparr> in
       db\<lparr>pg_workflows := upsert_row workflowID row (\<lambda>_. row) (pg_workflows db)\<rparr>)"

definition upsertUnschedulable :: "bus_event \<Rightarrow> pg \<Rightarrow> pg" where
  "upsertUnschedulable e db = (let d = be_Data e; jobID = extractString d ''job_id'' in
     if jobID = [] then db
     else let selector = (case map_of d ''unsatisfied_selector'' of Some v \<Rightarrow> v | None \<Rightarrow> (case map_of d ''selector'' of Some v \<Rightarrow> v | None \<Rightarrow> AMap [])) in
       db\<lparr>pg_unschedulable := insert_new (jobID, be_Timestamp e) (selector, extractString d ''reason'') (pg_unschedulable db)\<rparr>)"

definition upsertRegistryMutation :: "pg_lib \<Rightarrow> sink_config \<Rightarrow> string \<Rightarrow> string \<Rightarrow> bus_event \<Rightarrow> pg \<Rightarrow> pg" where
  "upsertRegistryMutation L c kind action e db = (let d = be_Data e; name = extractString d ''name''; version = extractString d ''version'' in
     if name = [] \<or> version = [] then db
     else db\<lparr>pg_registry := insert_new (kind, name, version, action, be_Timestamp e)
         (nilIfEmpty (extractString d ''uri''), nilIfEmpty (hashActorIfEnabled L c (extractString d ''actor'')), nullIfZero (extractInt64 d ''size_bytes''))
         (pg_registry db)\<rparr>)"

definition upsertSubmissionHistory :: "pg_lib \<Rightarrow> sink_config \<Rightarrow> bus_event \<Rightarrow> pg \<Rightarrow> pg" where
  "upsertSubmissionHistory L c e db = (let d = be_Data e; resourceID = extractString d ''resource_id''; kind = extractString d ''kind'' in
     if resourceID = [] \<or> kind = [] then db
     else let source = extractString d ''source'' in
       db\<lparr>pg_submissions := insert_new (be_ID e)
         \<lparr>sr_submitted_at = be_Timestamp e, sr_actor = hashActorIfEnabled L c (extractString d ''actor''),
          sr_operator_cn = nilIfEmpty (hashActorIfEnabled L c (extractString d ''operator_cn'')),
          sr_source = (if source = [] then ''unknown'' else source), sr_kind = kind, sr_resource_id = resourceID,
          sr_dry_run = extractBool d ''dry_run'', sr_accepted = extractBool d ''accepted'',
          sr_reject_reason = nilIfEmpty (extractString d ''reject_reason''),
          sr_user_agent = nilIfEmpty (ua_truncate (extractString d ''user_agent'') 256)\<rparr> (pg_submissions db)\<rparr>)"

definition upsertAuthEvent :: "pg_lib \<Rightarrow> sink_config \<Rightarrow> string \<Rightarrow> bus_event \<Rightarrow> pg \<Rightarrow> pg" where
  "upsertAuthEvent L c eventType e db = (let d = be_Data e in
     db\<lparr>pg_auth := pg_auth db @ [\<lparr>au_occurred_at = be_Timestamp e, au_event_type = eventType,
       au_actor = nilIfEmpty (hashActorIfEnabled L c (extractString d ''actor'')),
       au_remote_ip = nilIfEmpty (sanitiseIP (extractString d ''remote_ip'')),
       au_user_agent = nilIfEmpty (ua_truncate (extractString d ''user_agent'') 256),
       au_reason = nilIfEmpty (extractString d ''reason'')\<rparr>]\<rparr>)"

text \<open>The job is part of the primary key and cannot be null: the statement fails for an event without one, which the outcome
  of the transaction covers.\<close>

definition upsertArtifactTransfer :: "string \<Rightarrow> bus_event \<Rightarrow> pg \<Rightarrow> pg" where
  "upsertArtifactTransfer direction e db = (let d = be_Data e; uri = extractString d ''uri'' in
     if uri = [] then db
     else db\<lparr>pg_transfers := insert_new (be_Timestamp e, extractString d ''job_id'', direction, uri)
         (extractInt64 d ''bytes'', case map_of d ''sha256_ok'' of Some (ABool b) \<Rightarrow> Some b | _ \<Rightarrow> None, nullIfZero (extractInt d ''duration_ms''))
         (pg_transfers db)\<rparr>)"

definition upsertServiceProbeEvent :: "bus_event \<Rightarrow> pg \<Rightarrow> pg" where
  "upsertServiceProbeEvent e db = (let d = be_Data e; jobID = extractString d ''job_id''; newState = extractString d ''new_state'' in
     if jobID = [] \<or> newState = [] then db
     else db\<lparr>pg_probes := insert_new (jobID, be_Timestamp e) (newState, nullIfZero (extractInt d ''consecutive_fails'')) (pg_probes db)\<rparr>)"

definition upsertJobLog :: "bus_event \<Rightarrow> pg \<Rightarrow> pg" where
  "upsertJobLog e db = (let d = be_Data e; jobID = extractString d ''job_id'' in
     if jobID = [] then db
     else db\<lparr>pg_logs := insert_new (jobID, extractInt64 d ''seq'') (be_Timestamp e, extractString d ''data'') (pg_logs db)\<rparr>)"

section \<open>One transaction\<close>

definition upsert_summary :: "pg_lib \<Rightarrow> sink_config \<Rightarrow> bus_event \<Rightarrow> pg \<Rightarrow> pg" where
  "upsert_summary L c e = (let ty = be_Type e in
     if ty = ''job.submitted'' then upsertJobSubmitted e
     else if ty = ''job.transition'' then upsertJobTransition e
     else if ty = ''job.completed'' then upsertJobCompleted e
     else if ty = ''job.failed'' then upsertJobFailed e
     else if ty = ''job.retrying'' then upsertJobRetrying e
     else if ty = ''node.registered'' then upsertNodeRegistered e
     else if ty = ''node.stale'' then upsertNodeStale e
     else if ty = ''node.revoked'' then upsertNodeRevoked e
     else if ty = ''workflow.completed'' then upsertWorkflowOutcome L ''completed'' e
     else if ty = ''workflow.failed'' then upsertWorkflowOutcome L ''failed'' e
     else if ty = ''job.unschedulable'' then upsertUnschedulable e
     else if ty = ''ml.resolve_failed'' then id
     else if ty = ''dataset.registered'' then upsertRegistryMutation L c ''dataset'' ''registered'' e
     else if ty = ''dataset.deleted'' then upsertRegistryMutation L c ''dataset'' ''deleted'' e
     else if ty = ''model.registered'' then upsertRegistryMutation L c ''model'' ''registered'' e
     else if ty = ''model.deleted'' then upsertRegistryMutation L c ''model'' ''deleted'' e
     else if ty = ''submission.recorded'' then upsertSubmissionHistory L c e
     else if ty = ''auth.ok'' then upsertAuthEvent L c ''login'' e
     else if ty = ''auth.fail'' then upsertAuthEvent L c ''auth_fail'' e
     else if ty = ''auth.rate_limit'' then upsertAuthEvent L c ''rate_limit'' e
     else if ty = ''auth.token_mint'' then upsertAuthEvent L c ''token_mint'' e
     else if ty = ''artifact.uploaded'' then upsertArtifactTransfer ''upload'' e
     else if ty = ''artifact.downloaded'' then upsertArtifactTransfer ''download'' e
     else if ty = ''service.probe_transition'' then upsertServiceProbeEvent e
     else if ty = ''job.log'' then upsertJobLog e
     else id)"

definition insert_event :: "bus_event \<Rightarrow> pg \<Rightarrow> pg" where
  "insert_event e db = (if list_ex (\<lambda>r. be_ID (er_event r) = be_ID e) (pg_events db) then db
     else db\<lparr>pg_events := pg_events db @ [\<lparr>er_event = e, er_job_id = extractString (be_Data e) ''job_id'',
       er_node_id = extractString (be_Data e) ''node_id'', er_workflow_id = extractString (be_Data e) ''workflow_id''\<rparr>]\<rparr>)"

definition insertEvents :: "bus_event list \<Rightarrow> pg \<Rightarrow> pg" where
  "insertEvents batch db = fold insert_event batch db"

definition upsertSummaries :: "pg_lib \<Rightarrow> sink_config \<Rightarrow> bus_event list \<Rightarrow> pg \<Rightarrow> pg" where
  "upsertSummaries L c batch db = fold (upsert_summary L c) batch db"

text \<open>A transaction fails and leaves the tables alone, or commits, or commits while the sink sees an error. The flag is the error.\<close>

datatype tx_outcome = TxFails | TxCommits | TxCommitsUnseen

definition sink_flush :: "pg_lib \<Rightarrow> sink_config \<Rightarrow> tx_outcome \<Rightarrow> bus_event list \<Rightarrow> pg \<Rightarrow> bool \<times> pg" where
  "sink_flush L c tx batch db = (case tx of TxFails \<Rightarrow> (True, db)
     | TxCommits \<Rightarrow> (False, upsertSummaries L c batch (insertEvents batch db))
     | TxCommitsUnseen \<Rightarrow> (True, upsertSummaries L c batch (insertEvents batch db)))"

section \<open>The loop\<close>

record sink =
  sk_buf :: "bus_event list"
  sk_db :: pg

definition sink_append :: "sink_config \<Rightarrow> bus_event \<Rightarrow> sink \<Rightarrow> sink" where
  "sink_append c e s = (if sc_BufferLimit c \<le> int (length (sk_buf s)) then s\<lparr>sk_buf := tl (sk_buf s) @ [e]\<rparr> else s\<lparr>sk_buf := sk_buf s @ [e]\<rparr>)"

definition sink_rebuffer :: "sink_config \<Rightarrow> bus_event list \<Rightarrow> sink \<Rightarrow> sink" where
  "sink_rebuffer c batch s = (let space = sc_BufferLimit c - int (length (sk_buf s)) in
     if space \<le> 0 then s
     else s\<lparr>sk_buf := (if space < int (length batch) then take (nat space) batch else batch) @ sk_buf s\<rparr>)"

definition flush_all :: "pg_lib \<Rightarrow> sink_config \<Rightarrow> tx_outcome \<Rightarrow> sink \<Rightarrow> sink" where
  "flush_all L c tx s = (let batch = sk_buf s; s = s\<lparr>sk_buf := []\<rparr> in
     case sink_flush L c tx batch (sk_db s) of
       (False, db) \<Rightarrow> s\<lparr>sk_db := db\<rparr>
     | (True, db) \<Rightarrow> sink_rebuffer c batch (s\<lparr>sk_db := db\<rparr>))"

datatype sink_input = Arrives bus_event tx_outcome | Tick tx_outcome

fun sink_loop1 :: "pg_lib \<Rightarrow> sink_config \<Rightarrow> sink_input \<Rightarrow> sink \<Rightarrow> sink" where
  "sink_loop1 L c (Arrives e tx) s =
     (let s = sink_append c e s in if sc_BatchSize c \<le> int (length (sk_buf s)) then flush_all L c tx s else s)"
| "sink_loop1 L c (Tick tx) s = (if sk_buf s = [] then s else flush_all L c tx s)"

definition sink_loop :: "pg_lib \<Rightarrow> sink_config \<Rightarrow> sink_input list \<Rightarrow> sink \<Rightarrow> sink" where
  "sink_loop L c = fold (sink_loop1 L c)"

text \<open>The last flush of \<open>Stop\<close>; an error is only logged.\<close>

definition sink_Stop :: "pg_lib \<Rightarrow> sink_config \<Rightarrow> tx_outcome \<Rightarrow> sink \<Rightarrow> sink" where
  "sink_Stop L c tx s = (let remaining = sk_buf s; s = s\<lparr>sk_buf := []\<rparr> in
     if remaining \<noteq> [] then s\<lparr>sk_db := snd (sink_flush L c tx remaining (sk_db s))\<rparr> else s)"

section \<open>Confirming log entries\<close>

text \<open>The query is the join of the candidates with the table; \<open>up\<close> is false when it fails.\<close>

definition ConfirmLogBatch :: "bool \<Rightarrow> pg \<Rightarrow> log_id list \<Rightarrow> (log_id \<rightharpoonup> bool) option" where
  "ConfirmLogBatch up db candidates =
     (if candidates = [] then Some Map.empty
      else if \<not> up then None
      else Some (map_of (map (\<lambda>(j, q). ((j, word_of_int q), True))
        (filter (\<lambda>(j, q). pg_logs db (j, q) \<noteq> None) (map (\<lambda>(j, q). (j, sint q)) candidates)))))"

text \<open>The chunks a node sends for a run, numbered from one.\<close>

definition client_StreamLogs :: "string \<Rightarrow> string \<Rightarrow> string \<Rightarrow> log_chunk list" where
  "client_StreamLogs jobID out err = (let ds = filter (\<lambda>d. d \<noteq> []) [out, err] in
     map (\<lambda>(n, d). \<lparr>ck_JobId = jobID, ck_Seq = of_nat n, ck_Data = d\<rparr>) (zip [1..<Suc (length ds)] ds))"

section \<open>Every event exactly once\<close>

lemmas upsert_defs = upsertJobSubmitted_def upsertJobTransition_def upsertJobCompleted_def upsertJobFailed_def upsertJobRetrying_def
  upsertNodeRegistered_def upsertNodeStale_def upsertNodeRevoked_def upsertWorkflowOutcome_def upsertUnschedulable_def upsertRegistryMutation_def
  upsertSubmissionHistory_def upsertAuthEvent_def upsertArtifactTransfer_def upsertServiceProbeEvent_def upsertJobLog_def

lemma upsert_events1 [simp]:
  "pg_events (upsertJobSubmitted e db) = pg_events db" "pg_events (upsertJobTransition e db) = pg_events db"
  "pg_events (upsertJobCompleted e db) = pg_events db" "pg_events (upsertJobFailed e db) = pg_events db"
  "pg_events (upsertJobRetrying e db) = pg_events db" "pg_events (upsertNodeRegistered e db) = pg_events db"
  "pg_events (upsertNodeStale e db) = pg_events db" "pg_events (upsertNodeRevoked e db) = pg_events db"
  "pg_events (upsertWorkflowOutcome L o1 e db) = pg_events db" "pg_events (upsertUnschedulable e db) = pg_events db"
  "pg_events (upsertRegistryMutation L c k a e db) = pg_events db" "pg_events (upsertSubmissionHistory L c e db) = pg_events db"
  "pg_events (upsertAuthEvent L c ty e db) = pg_events db" "pg_events (upsertArtifactTransfer d e db) = pg_events db"
  "pg_events (upsertServiceProbeEvent e db) = pg_events db" "pg_events (upsertJobLog e db) = pg_events db"
  by (simp_all add: upsert_defs Let_def)

lemma upsert_events [simp]: "pg_events (upsert_summary L c e db) = pg_events db"
proof -
  have split: "pg_events ((if b then f else g) db) = (if b then pg_events (f db) else pg_events (g db))" for b and f g :: "pg \<Rightarrow> pg" by simp
  show ?thesis unfolding upsert_summary_def Let_def split by (simp only: upsert_events1 id_apply if_cancel)
qed

lemma upsertSummaries_events [simp]: "pg_events (upsertSummaries L c batch db) = pg_events db"
  unfolding upsertSummaries_def by (induction batch arbitrary: db) simp_all

definition rows :: "pg \<Rightarrow> bus_event list" where
  "rows db = map er_event (pg_events db)"

definition unwritten :: "pg \<Rightarrow> bus_event list \<Rightarrow> bus_event list" where
  "unwritten db es = filter (\<lambda>e. be_ID e \<notin> be_ID ` set (rows db)) es"

lemma rows_insert: "rows (insert_event e db) = rows db @ (if be_ID e \<in> be_ID ` set (rows db) then [] else [e])"
proof -
  have "list_ex (\<lambda>r. be_ID (er_event r) = be_ID e) xs \<longleftrightarrow> be_ID e \<in> be_ID ` er_event ` set xs" for xs :: "event_row list" by (induction xs) auto
  then show ?thesis by (simp add: insert_event_def rows_def)
qed

lemma rows_insertEvents: "distinct (map be_ID batch) \<Longrightarrow> rows (insertEvents batch db) = rows db @ unwritten db batch"
proof (induction batch arbitrary: db)
  case (Cons e batch)
  have "unwritten (insert_event e db) batch = unwritten db batch"
    unfolding unwritten_def by (rule filter_cong) (use Cons.prems in \<open>auto simp: rows_insert image_iff\<close>)
  moreover have "rows (insertEvents batch (insert_event e db)) = rows (insert_event e db) @ unwritten (insert_event e db) batch"
    using Cons by simp
  ultimately show ?case by (simp add: insertEvents_def rows_insert) (simp add: unwritten_def)
qed (simp add: insertEvents_def unwritten_def)

fun arrivals :: "sink_input list \<Rightarrow> bus_event list" where
  "arrivals [] = []"
| "arrivals (Arrives e tx # ins) = e # arrivals ins"
| "arrivals (Tick tx # ins) = arrivals ins"

fun no_overflow :: "pg_lib \<Rightarrow> sink_config \<Rightarrow> sink_input list \<Rightarrow> sink \<Rightarrow> bool" where
  "no_overflow L c [] s \<longleftrightarrow> True"
| "no_overflow L c (i # ins) s \<longleftrightarrow> (case i of Arrives e tx \<Rightarrow> int (length (sk_buf s)) < sc_BufferLimit c | Tick tx \<Rightarrow> True) \<and> no_overflow L c ins (sink_loop1 L c i s)"

text \<open>What is in the table and what is still to come of the buffer are the events so far, in their order.\<close>

definition sink_inv :: "sink_config \<Rightarrow> bus_event list \<Rightarrow> sink \<Rightarrow> bool" where
  "sink_inv c past s \<longleftrightarrow> rows (sk_db s) @ unwritten (sk_db s) (sk_buf s) = past \<and> distinct (map be_ID (sk_buf s)) \<and> set (sk_buf s) \<subseteq> set past \<and>
     int (length (sk_buf s)) \<le> sc_BufferLimit c"

lemma unwritten_rows: "set es \<subseteq> set (rows db) \<Longrightarrow> unwritten db es = []"
  by (auto simp: unwritten_def filter_empty_conv)

lemma flush_inv:
  assumes inv: "sink_inv c past s"
  shows "sink_inv c past (flush_all L c tx s)"
proof -
  let ?b = "sk_buf s"
  let ?db = "upsertSummaries L c ?b (insertEvents ?b (sk_db s))"
  have r: "rows ?db = past" using inv rows_insertEvents [of ?b "sk_db s"] by (simp add: sink_inv_def rows_def)
  have u: "unwritten ?db ?b = []" using inv r by (intro unwritten_rows) (simp add: sink_inv_def)
  have pos: "?b \<noteq> [] \<Longrightarrow> 0 < sc_BufferLimit c" using inv by (cases ?b) (auto simp: sink_inv_def)
  have re: "sink_rebuffer c ?b (s\<lparr>sk_buf := [], sk_db := d\<rparr>) = s\<lparr>sk_db := d\<rparr>" for d
    using inv pos by (cases "?b = []") (auto simp: sink_rebuffer_def Let_def sink_inv_def)
  show ?thesis
  proof (cases tx)
    case TxFails
    then show ?thesis using inv re [of "sk_db s"] by (simp add: flush_all_def sink_flush_def Let_def)
  next
    case TxCommits
    then show ?thesis using inv r by (simp add: flush_all_def sink_flush_def Let_def sink_inv_def unwritten_def)
  next
    case TxCommitsUnseen
    then show ?thesis using inv r u re [of ?db] by (simp add: flush_all_def sink_flush_def Let_def sink_inv_def)
  qed
qed

lemma append_inv:
  assumes inv: "sink_inv c past s" and room: "int (length (sk_buf s)) < sc_BufferLimit c" and new: "be_ID e \<notin> be_ID ` set past"
  shows "sink_inv c (past @ [e]) (sink_append c e s)"
proof -
  have "be_ID e \<notin> be_ID ` set (sk_buf s)" using inv new by (auto simp: sink_inv_def)
  moreover have "be_ID e \<notin> be_ID ` set (rows (sk_db s))" using inv new by (auto simp: sink_inv_def)
  ultimately show ?thesis using inv room by (auto simp: sink_inv_def sink_append_def unwritten_def)
qed

lemma sink_loop_inv:
  "sink_inv c past s \<Longrightarrow> no_overflow L c ins s \<Longrightarrow> distinct (map be_ID (past @ arrivals ins)) \<Longrightarrow> sink_inv c (past @ arrivals ins) (sink_loop L c ins s)"
proof (induction ins arbitrary: past s)
  case (Cons i ins)
  have step: "sink_inv c (past @ arrivals [i]) (sink_loop1 L c i s)"
  proof (cases i)
    case (Arrives e tx)
    with Cons.prems have "sink_inv c (past @ [e]) (sink_append c e s)" by (intro append_inv) auto
    with Arrives flush_inv show ?thesis by (simp add: Let_def)
  next
    case (Tick tx)
    with Cons.prems(1) flush_inv show ?thesis by simp
  qed
  have "past @ arrivals (i # ins) = (past @ arrivals [i]) @ arrivals ins" by (cases i) simp_all
  with Cons.IH [OF step] Cons.prems show ?case by (simp add: sink_loop_def)
qed (simp add: sink_loop_def)


definition demo_sink_config :: sink_config where
  "demo_sink_config = sink_withDefaults \<lparr>sc_BatchSize = 2, sc_FlushInterval = 0, sc_BufferLimit = 0, sc_PIIMode = [], sc_PIISalt = []\<rparr>"

definition demo_pg_lib :: pg_lib where
  "demo_pg_lib = \<lparr>pl_sha256 = id, pl_parse = (\<lambda>_. None)\<rparr>"

text \<open>A batch whose commit is not seen is written again, and its event is not doubled; the counter of the node is.\<close>

definition demo_sink_inputs :: "sink_input list" where
  "demo_sink_inputs = [Arrives (bev_JobSubmitted ''j'' ''true'' 5 (''1'', 1)) TxFails, Arrives (bev_JobCompleted ''j'' ''n'' 7 (''2'', 2)) TxCommitsUnseen, Tick TxCommits]"

lemma demo_sink_run:
  "sink_loop demo_pg_lib demo_sink_config demo_sink_inputs \<lparr>sk_buf = [], sk_db = empty_pg\<rparr> =
     flush_all demo_pg_lib demo_sink_config TxCommits (flush_all demo_pg_lib demo_sink_config TxCommitsUnseen
       \<lparr>sk_buf = [bev_JobSubmitted ''j'' ''true'' 5 (''1'', 1), bev_JobCompleted ''j'' ''n'' 7 (''2'', 2)], sk_db = empty_pg\<rparr>)"
  by (simp add: sink_loop_def demo_sink_inputs_def sink_append_def demo_sink_config_def sink_withDefaults_def flush_all_def sink_flush_def sink_rebuffer_def Let_def)


text \<open>The counter of the node has counted the one completion of that history twice.\<close>

lemma unseen_commit_counted_twice:
  "map_option ns_jobs_completed (pg_nodes (sk_db (sink_loop demo_pg_lib demo_sink_config demo_sink_inputs \<lparr>sk_buf = [], sk_db = empty_pg\<rparr>)) ''n'') = Some 2"
proof -
  let ?e = "bev_JobCompleted ''j'' ''n'' 7 (''2'', 2)"
  let ?b = "[bev_JobSubmitted ''j'' ''true'' 5 (''1'', 1), ?e]"
  have t: "upsert_summary L c ?e = upsertJobCompleted ?e" "upsert_summary L c (hd ?b) = upsertJobSubmitted (hd ?b)" for L c
    by (simp_all add: upsert_summary_def bev_JobCompleted_def bev_JobSubmitted_def NewEvent_def)
  have ie: "pg_nodes (insertEvents b db) = pg_nodes db" for b db by (induction b arbitrary: db) (simp_all add: insertEvents_def insert_event_def)
  have sub: "pg_nodes (upsertJobSubmitted e db) = pg_nodes db" for e db by (simp add: upsertJobSubmitted_def Let_def)
  have x: "extractString (be_Data ?e) ''job_id'' = ''j''" "extractString (be_Data ?e) ''node_id'' = ''n''" "be_Timestamp ?e = 2"
    by (simp_all add: extractString_def bev_JobCompleted_def NewEvent_def)
  have n: "pg_nodes (upsertSummaries L c ?b (insertEvents ?b db)) ''n'' = Some (case pg_nodes db ''n'' of None \<Rightarrow> (blank_node 2)\<lparr>ns_jobs_completed := 1\<rparr>
      | Some r \<Rightarrow> r\<lparr>ns_last_seen := 2, ns_jobs_completed := ns_jobs_completed r + 1\<rparr>)" for L c db
    using t by (simp add: upsertSummaries_def upsertJobCompleted_def Let_def upsert_row_def ie sub x)
  show ?thesis unfolding demo_sink_run
    by (simp add: flush_all_def sink_flush_def sink_rebuffer_def Let_def demo_sink_config_def sink_withDefaults_def n)
      (simp add: empty_pg_def blank_node_def)
qed

section \<open>Freed log entries\<close>

lemma ConfirmLogBatch_sound:
  assumes "ConfirmLogBatch up db cs = Some conf" and "conf (j, q) = Some True"
  shows "pg_logs db (j, sint q) \<noteq> None"
proof -
  let ?keys = "map (\<lambda>(j, q). ((j, word_of_int q), True)) (filter (\<lambda>(j, q). pg_logs db (j, q) \<noteq> None) (map (\<lambda>(j, q). (j, sint q)) cs))"
  from assms have "((j, q), True) \<in> set ?keys" by (auto simp: ConfirmLogBatch_def split: if_splits dest: map_of_SomeD)
  then show ?thesis by auto
qed



text \<open>A second run of a job numbers its chunks from one again: the table keeps the chunk of the first run and confirms the key, and
  with it BadgerDB frees the chunk of the second, which is nowhere else.\<close>

lemma retried_log_confirmed_unstored:
  assumes "out1 \<noteq> []" "out2 \<noteq> []" "j \<noteq> []" "pg_logs db (j, 1) = None"
    and "db1 = upsertJobLog (bev_JobLog j 1 out1 d1) db" "db2 = upsertJobLog (bev_JobLog j 1 out2 d2) db1"
  shows "map ck_Seq (client_StreamLogs j out1 []) = [1]" "map ck_Seq (client_StreamLogs j out2 []) = [1]"
    "map_option snd (pg_logs db2 (j, 1)) = Some out1" "\<exists>conf. ConfirmLogBatch True db2 [(j, 1)] = Some conf \<and> conf (j, 1) = Some True"
proof -
  show "map ck_Seq (client_StreamLogs j out1 []) = [1]" "map ck_Seq (client_StreamLogs j out2 []) = [1]"
    using assms(1,2) by (simp_all add: client_StreamLogs_def)
  have x: "extractString (be_Data (bev_JobLog j 1 o1 d)) ''job_id'' = j" "extractInt64 (be_Data (bev_JobLog j 1 o1 d)) ''seq'' = 1"
    "extractString (be_Data (bev_JobLog j 1 o1 d)) ''data'' = o1" for o1 d
    by (simp_all add: extractString_def extractInt64_def bev_JobLog_def NewEvent_def)
  show l: "map_option snd (pg_logs db2 (j, 1)) = Some out1"
    using assms(3-6) by (simp add: upsertJobLog_def insert_new_def x Let_def)
  then show "\<exists>conf. ConfirmLogBatch True db2 [(j, 1)] = Some conf \<and> conf (j, 1) = Some True"
    by (auto simp: ConfirmLogBatch_def)
qed

end
