(* ===== verification/Job_Summaries.thy ===== *)
theory Job_Summaries
  imports Analytics_Sink
begin

text \<open>
  The job summaries of the analytics database against the job store: the events that the store publishes, written
  by the sink, keep the row of a job at the status of the job. The proof goes over the disk, since a restart brings
  back what the disk has.
\<close>

section \<open>The job summaries follow the job store\<close>

text \<open>The statuses that a job reaches by a published transition only.\<close>

definition published_status :: "job_status \<Rightarrow> bool" where
  "published_status s \<longleftrightarrow> s \<in> {JobStatusRunning, JobStatusCompleted, JobStatusFailed, JobStatusTimeout, JobStatusCancelled, JobStatusSkipped}"

text \<open>The job store, step by step, with the sink writing what each step publishes; \<open>ds\<close> are the IDs and times of the events. Other
  parts of the coordinator publish events of other types in between. A restart empties the store's own list of events.\<close>

inductive tracked :: "'p saver \<Rightarrow> (string list \<Rightarrow> 'p \<Rightarrow> persist_error + job list) \<Rightarrow> ('p \<Rightarrow> (string \<rightharpoonup> job)) \<Rightarrow> pg_lib \<Rightarrow> sink_config
    \<Rightarrow> 'p job_store \<Rightarrow> pg \<Rightarrow> bool"
  for save load disk L c where
  start: "disk p = Map.empty \<Longrightarrow> tracked save load disk L c (NewJobStore p) empty_pg"
| store: "tracked save load disk L c st db \<Longrightarrow> js_step save load disk st st' \<Longrightarrow> es = drop (length (js_events st)) (js_events st') \<Longrightarrow>
    length ds = length es \<Longrightarrow> tracked save load disk L c st' (upsertSummaries L c (map2 bus_of_job es ds) db)"
| other: "tracked save load disk L c st db \<Longrightarrow>
    be_Type e \<notin> {''job.submitted'', ''job.transition'', ''job.completed'', ''job.failed'', ''job.retrying''} \<Longrightarrow> tracked save load disk L c st (upsert_summary L c e db)"

lemma tracked_reachable: "tracked save load disk L c st db \<Longrightarrow> js_reachable save load disk st"
  by (induction rule: tracked.induct) (auto intro: js_reachable.intros)

text \<open>What a step writes to disk and publishes: nothing or a status that is not published, or the status of its transition.\<close>

context job_persister
begin

definition step_writes :: "'p job_store \<Rightarrow> 'p job_store \<Rightarrow> string \<Rightarrow> job_event list \<Rightarrow> bool" where
  "step_writes st st' k es \<longleftrightarrow> (\<forall>i. i \<noteq> k \<longrightarrow> disk (js_persister st') i = disk (js_persister st) i) \<and>
     (es = [] \<and> (\<forall>d. disk (js_persister st') k = Some d \<longrightarrow> published_status (j_Status d) \<longrightarrow> disk (js_persister st) k = Some d \<or>
         (\<exists>j. js_jobs st k = Some j \<and> j_Status j = j_Status d))
      \<or> (\<exists>cmd p. es = [EvJobSubmitted k cmd p] \<and> (\<forall>d. disk (js_persister st') k = Some d \<longrightarrow> \<not> published_status (j_Status d)))
      \<or> (\<exists>from s snap. es = transition_events k from s snap \<and> (\<forall>d. disk (js_persister st') k = Some d \<longrightarrow> j_Status d = s)))"

lemma step_writes_idle: "js_persister st' = js_persister st \<Longrightarrow> step_writes st st' k []"
  by (simp add: step_writes_def)

lemma step_writes_save:
  assumes "save (js_persister st) j = (r, p)" and "js_persister st' = p" and "j_ID j = k"
    and "\<not> published_status (j_Status j) \<or> (\<exists>m. js_jobs st k = Some m \<and> j_Status m = j_Status j)"
  shows "step_writes st st' k []"
  using assms(1)
proof (cases rule: save_cases)
  case ok
  with assms(2-4) show ?thesis by (auto simp: step_writes_def)
next
  case (err e)
  with assms(2) show ?thesis by (simp add: step_writes_def)
qed

lemma step_writes_transition:
  "\<forall>i. i \<noteq> k \<longrightarrow> disk (js_persister st') i = disk (js_persister st) i \<Longrightarrow> \<forall>d. disk (js_persister st') k = Some d \<longrightarrow> j_Status d = s \<Longrightarrow>
     step_writes st st' k (transition_events k from s snap)"
  unfolding step_writes_def by blast

lemma Submit_writes:
  assumes "Submit save now j st = (r, st')"
  shows "step_writes st st' (j_ID j) (drop (length (js_events st)) (js_events st'))"
proof -
  let ?j = "j\<lparr>j_Status := JobStatusPending, j_CreatedAt := now, j_Attempt := (if j_Attempt j = 0 then 1 else j_Attempt j),
     j_Priority := (if j_Priority j = 0 then 50 else j_Priority j)\<rparr>"
  obtain r' p where sv: "save (js_persister st) ?j = (r', p)" by fastforce
  then show ?thesis
  proof (cases rule: save_cases)
    case ok
    with assms sv show ?thesis
      by (auto simp: Submit_def Let_def publishEvent_def appendAuditAsync_def step_writes_def published_status_def split: if_splits)
  next
    case (err e)
    with assms sv show ?thesis by (auto simp: Submit_def Let_def step_writes_def split: if_splits)
  qed
qed

lemma Transition_writes:
  assumes "coh st" and "Transition save now i to opts st = (r, st')"
  shows "step_writes st st' i (drop (length (js_events st)) (js_events st'))"
proof (cases "js_jobs st i")
  case None
  with assms show ?thesis by (simp add: Transition_def step_writes_idle)
next
  case (Some j)
  let ?j = "apply_transition now to opts j"
  have id: "j_ID ?j = i" using coherent_attempt [OF assms(1) Some] by simp
  obtain r' p where sv: "save (js_persister st) ?j = (r', p)" by fastforce
  show ?thesis
  proof (cases "IsTerminal (j_Status j) \<or> \<not> isAllowed (j_Status j) to")
    case True
    with assms Some have "st' = st" by (auto simp: Transition_def Let_def split: if_splits)
    then show ?thesis by (simp add: step_writes_idle)
  next
    case False
    from sv show ?thesis
    proof (cases rule: save_cases)
      case ok
      let ?es = "transition_events i (j_Status j) to ?j"
      from ok sv False Some assms(2) have st': "js_persister st' = p" "js_events st' = js_events st @ ?es"
        by (auto simp: Transition_def Let_def fold_publishEvent_events appendAuditAsync_def)
      have "disk p i = Some (core ?j)" "\<forall>k. k \<noteq> i \<longrightarrow> disk p k = disk (js_persister st) k" using ok(2) id by auto
      then have "step_writes st st' i ?es" by (intro step_writes_transition) (auto simp: st')
      then show ?thesis by (simp add: st')
    next
      case (err e)
      with sv False Some assms(2) show ?thesis by (auto simp: Transition_def Let_def step_writes_def)
    qed
  qed
qed

lemma quiet_writes:
  assumes "coh st"
  shows "MarkLost save now i reason st = (r, st') \<Longrightarrow> step_writes st st' i (drop (length (js_events st)) (js_events st'))"
    and "resetToPending save i st = (r, st') \<Longrightarrow> step_writes st st' i (drop (length (js_events st)) (js_events st'))"
    and "UpdateResolvedInputs save i ins st = (r, st') \<Longrightarrow> step_writes st st' i (drop (length (js_events st)) (js_events st'))"
    and "UpdateShares save i shs st = (r, st') \<Longrightarrow> step_writes st st' i (drop (length (js_events st)) (js_events st'))"
proof -
  have id: "js_jobs st i = Some j \<Longrightarrow> j_ID j = i" for j using coherent_attempt [OF assms] by blast
  note w = step_writes_save step_writes_idle
  show "MarkLost save now i reason st = (r, st') \<Longrightarrow> step_writes st st' i (drop (length (js_events st)) (js_events st'))"
    by (auto simp: MarkLost_def Let_def appendAuditAsync_def published_status_def id split: option.splits if_splits prod.splits intro: step_writes_idle elim!: step_writes_save)
  show "resetToPending save i st = (r, st') \<Longrightarrow> step_writes st st' i (drop (length (js_events st)) (js_events st'))"
    by (auto simp: resetToPending_def Let_def published_status_def id split: option.splits if_splits prod.splits intro: step_writes_idle elim!: step_writes_save)
  show "UpdateResolvedInputs save i ins st = (r, st') \<Longrightarrow> step_writes st st' i (drop (length (js_events st)) (js_events st'))"
    by (auto simp: UpdateResolvedInputs_def id split: option.splits prod.splits intro: step_writes_idle elim!: step_writes_save)
  show "UpdateShares save i shs st = (r, st') \<Longrightarrow> step_writes st st' i (drop (length (js_events st)) (js_events st'))"
    by (auto simp: UpdateShares_def Let_def id split: option.splits prod.splits intro: step_writes_idle elim!: step_writes_save)
qed

lemma step_writes_unpublished:
  "\<forall>i. i \<noteq> k \<longrightarrow> disk (js_persister st') i = disk (js_persister st) i \<Longrightarrow>
     (\<forall>d. disk (js_persister st') k = Some d \<longrightarrow> published_status (j_Status d) \<longrightarrow> disk (js_persister st) k = Some d) \<Longrightarrow> step_writes st st' k []"
  unfolding step_writes_def by blast

lemma Retry_writes:
  assumes "coh st" and retry: "RetryIfEligible save now rnd i st = (b, st')"
  shows "step_writes st st' i (drop (length (js_events st)) (js_events st'))"
proof (cases "\<exists>j. js_jobs st i = Some j \<and> isRetryable (j_Status j) \<and> ShouldRetry j")
  case False
  then have "st' = st" using retry by (auto simp: RetryIfEligible_def split: option.splits if_splits)
  then show ?thesis by (simp add: step_writes_idle)
next
  case True
  then obtain j where j: "js_jobs st i = Some j" "isRetryable (j_Status j)" "ShouldRetry j" by blast
  have id: "j_ID j = i" using coherent_attempt [OF assms(1) j(1)] by simp
  let ?j1 = "j\<lparr>j_Status := JobStatusRetrying\<rparr>"
  obtain r1 p1 where sv1: "save (js_persister st) ?j1 = (r1, p1)" by fastforce
  have un: "\<not> published_status JobStatusRetrying" "\<not> published_status JobStatusPending" by (simp_all add: published_status_def)
  have ev: "js_events st' = js_events st"
    using retry j sv1 by (auto simp: RetryIfEligible_def Let_def appendAuditAsync_def split: option.splits prod.splits)
  from sv1 have "step_writes st st' i []"
  proof (cases rule: save_cases)
    case (err e)
    with retry j sv1 have "js_persister st' = p1" by (auto simp: RetryIfEligible_def Let_def)
    with err show ?thesis by (intro step_writes_unpublished) auto
  next
    case ok
    show ?thesis
    proof (cases "NextRetryDelay rnd (j_RetryPolicy j) (j_Attempt j + 1)")
      case None
      with retry j sv1 ok(1) have "js_persister st' = p1" by (auto simp: RetryIfEligible_def Let_def)
      with ok(2) id un show ?thesis by (intro step_writes_unpublished) auto
    next
      case (Some delay)
      let ?j2 = "?j1\<lparr>j_Attempt := j_Attempt j + 1, j_RetryAfter := now + sint delay, j_Status := JobStatusPending, j_NodeID := [],
         j_DispatchedAt := time_zero, j_FinishedAt := time_zero, j_Error := []\<rparr>"
      obtain r2 p2 where sv2: "save p1 ?j2 = (r2, p2)" by fastforce
      have st': "js_persister st' = p2" using retry j sv1 ok(1) Some sv2
        by (cases r2) (auto simp: RetryIfEligible_def Let_def)
      from sv2 show ?thesis
        by (cases rule: save_cases) (use ok(2) id un st' in \<open>auto intro!: step_writes_unpublished\<close>)
    qed
  qed
  with ev show ?thesis by simp
qed

lemma step_writes_step:
  assumes "js_step save load disk st st'" and "coh st"
  shows "\<exists>k. step_writes st st' k (drop (length (js_events st)) (js_events st'))"
  using assms
proof (cases rule: js_step.cases)
  case (restart ord)
  then have "js_persister st' = js_persister st" "js_events st' = []" by (auto simp: Restore_def NewJobStore_def split: sum.splits)
  then show ?thesis by (auto intro: step_writes_idle)
qed (use assms(2) in \<open>blast intro: Submit_writes Transition_writes quiet_writes Retry_writes\<close>)+

end

section \<open>What the events do to the summaries\<close>

lemma jobs_other_upsert:
  assumes "be_Type e \<notin> {''job.submitted'', ''job.transition'', ''job.completed'', ''job.failed'', ''job.retrying''}"
  shows "pg_jobs (upsert_summary L c e db) = pg_jobs db"
proof -
  have split: "pg_jobs ((if b then f else g) db) = (if b then pg_jobs (f db) else pg_jobs (g db))" for b and f g :: "pg \<Rightarrow> pg" by simp
  have "pg_jobs (upsertNodeRegistered e db) = pg_jobs db" "pg_jobs (upsertNodeStale e db) = pg_jobs db" "pg_jobs (upsertNodeRevoked e db) = pg_jobs db"
    "pg_jobs (upsertWorkflowOutcome L w e db) = pg_jobs db" "pg_jobs (upsertUnschedulable e db) = pg_jobs db"
    "pg_jobs (upsertRegistryMutation L c k a e db) = pg_jobs db" "pg_jobs (upsertSubmissionHistory L c e db) = pg_jobs db"
    "pg_jobs (upsertAuthEvent L c ty e db) = pg_jobs db" "pg_jobs (upsertArtifactTransfer d e db) = pg_jobs db"
    "pg_jobs (upsertServiceProbeEvent e db) = pg_jobs db" "pg_jobs (upsertJobLog e db) = pg_jobs db" for w k a ty d
    by (simp_all add: upsert_defs Let_def)
  then show ?thesis using assms unfolding upsert_summary_def Let_def split by (simp only: id_apply if_cancel) simp
qed

lemma extract_job_id [simp]:
  "extractString (be_Data (bev_JobSubmitted k cmd p d)) ''job_id'' = k" "extractString (be_Data (bev_JobTransition k f t n d)) ''job_id'' = k"
  "extractString (be_Data (bev_JobCompleted k n u d)) ''job_id'' = k" "extractString (be_Data (bev_JobCompletedWithOutputs k n u os d)) ''job_id'' = k"
  "extractString (be_Data (bev_JobFailed k er x a d)) ''job_id'' = k" "extractString (be_Data (bev_JobTransition k f t n d)) ''to_status'' = t"
  by (simp_all add: extractString_def bev_JobSubmitted_def bev_JobTransition_def bev_JobCompleted_def bev_JobCompletedWithOutputs_def bev_JobFailed_def NewEvent_def)

lemma bev_types [simp]:
  "be_Type (bev_JobSubmitted k cmd p d) = ''job.submitted''" "be_Type (bev_JobTransition k f t n d) = ''job.transition''"
  "be_Type (bev_JobCompleted k n u d) = ''job.completed''" "be_Type (bev_JobCompletedWithOutputs k n u os d) = ''job.completed''"
  "be_Type (bev_JobFailed k er x a d) = ''job.failed''"
  by (simp_all add: bev_JobSubmitted_def bev_JobTransition_def bev_JobCompleted_def bev_JobCompletedWithOutputs_def bev_JobFailed_def NewEvent_def)

definition shows_status :: "pg \<Rightarrow> string \<Rightarrow> job_status \<Rightarrow> bool" where
  "shows_status db i s \<longleftrightarrow> map_option sm_final_status (pg_jobs db i) = Some (Some (JobStatus_String s))"

lemma summary_cases:
  "be_Type e = ''job.submitted'' \<Longrightarrow> upsert_summary L c e = upsertJobSubmitted e" "be_Type e = ''job.transition'' \<Longrightarrow> upsert_summary L c e = upsertJobTransition e"
  "be_Type e = ''job.completed'' \<Longrightarrow> upsert_summary L c e = upsertJobCompleted e" "be_Type e = ''job.failed'' \<Longrightarrow> upsert_summary L c e = upsertJobFailed e"
  by (simp_all add: upsert_summary_def)

lemma upsert_row_cases: "upsert_row k new upd m i = (if i = k then Some (case m k of None \<Rightarrow> new | Some old \<Rightarrow> upd old) else m i)"
  by (simp add: upsert_row_def)

text \<open>An event of a job leaves the rows of other jobs alone and sets the status of its own.\<close>

lemma job_event_other:
  assumes "extractString (be_Data e) ''job_id'' = k" and "i \<noteq> k"
  shows "pg_jobs (upsertJobSubmitted e db) i = pg_jobs db i" "pg_jobs (upsertJobTransition e db) i = pg_jobs db i"
    "pg_jobs (upsertJobCompleted e db) i = pg_jobs db i" "pg_jobs (upsertJobFailed e db) i = pg_jobs db i"
  using assms by (simp_all add: upsertJobSubmitted_def upsertJobTransition_def upsertJobCompleted_def upsertJobFailed_def upsert_row_cases Let_def)

lemma job_event_status:
  assumes "extractString (be_Data e) ''job_id'' = k" and "k \<noteq> []"
  shows "map_option sm_final_status (pg_jobs (upsertJobTransition e db) k) = Some (Some (extractString (be_Data e) ''to_status''))"
    "map_option sm_final_status (pg_jobs (upsertJobCompleted e db) k) = Some (Some ''completed'')"
    "map_option sm_final_status (pg_jobs (upsertJobFailed e db) k) = Some (Some ''failed'')"
  using assms by (simp_all add: upsertJobTransition_def upsertJobCompleted_def upsertJobFailed_def upsert_row_cases Let_def split: option.split)

lemma transition_events_effect:
  assumes len: "length ds = length (transition_events k from s snap)"
  shows "i \<noteq> k \<longrightarrow> pg_jobs (upsertSummaries L c (map2 bus_of_job (transition_events k from s snap) ds) db) i = pg_jobs db i" (is ?thesis1)
    and "k \<noteq> [] \<longrightarrow> shows_status (upsertSummaries L c (map2 bus_of_job (transition_events k from s snap) ds) db) k s" (is ?thesis2)
proof -
  let ?t = "\<lambda>d. bev_JobTransition k (JobStatus_String from) (JobStatus_String s) (j_NodeID snap) d"
  have two: ?thesis1 ?thesis2
    if es: "transition_events k from s snap = [EvJobTransition k from s (j_NodeID snap), e2]" and id: "\<forall>d. extractString (be_Data (bus_of_job e2 d)) ''job_id'' = k"
      and ty: "(\<forall>d. be_Type (bus_of_job e2 d) = ''job.completed'') \<and> s = JobStatusCompleted \<or> (\<forall>d. be_Type (bus_of_job e2 d) = ''job.failed'') \<and> s = JobStatusFailed" for e2
  proof -
    from len es obtain d1 d2 where d: "ds = [d1, d2]" by (cases ds; cases "tl ds") auto
    have m: "map2 bus_of_job (transition_events k from s snap) ds = [?t d1, bus_of_job e2 d2]" by (simp add: es d)
    have id2: "extractString (be_Data (bus_of_job e2 d2)) ''job_id'' = k" using id by blast
    have ty2: "be_Type (bus_of_job e2 d2) = ''job.completed'' \<and> s = JobStatusCompleted \<or> be_Type (bus_of_job e2 d2) = ''job.failed'' \<and> s = JobStatusFailed"
      using ty by blast
    show ?thesis1 unfolding m using ty2 job_event_other [OF id2, of i] by (auto simp: upsertSummaries_def summary_cases job_event_other)
    show ?thesis2 unfolding m using ty2 job_event_status [OF id2] by (auto simp: upsertSummaries_def summary_cases shows_status_def)
  qed
  have one: ?thesis1 ?thesis2 if es: "transition_events k from s snap = [EvJobTransition k from s (j_NodeID snap)]"
  proof -
    from len es obtain d1 where d: "ds = [d1]" by (cases ds) auto
    have m: "map2 bus_of_job (transition_events k from s snap) ds = [?t d1]" by (simp add: es d)
    show ?thesis1 unfolding m by (auto simp: upsertSummaries_def summary_cases job_event_other)
    show ?thesis2 unfolding m by (auto simp: upsertSummaries_def summary_cases shows_status_def job_event_status)
  qed
  consider "s = JobStatusCompleted" | "s = JobStatusFailed" | "s \<noteq> JobStatusCompleted" "s \<noteq> JobStatusFailed" by blast
  then have both: "?thesis1 \<and> ?thesis2"
  proof cases
    case 1
    let ?dur = "trunc_div (time_sub (j_FinishedAt snap) (j_CreatedAt snap)) millisecond"
    let ?outs = "map (\<lambda>a. (o_Name a, o_URI a, o_SHA256 a)) (j_ResolvedOutputs snap)"
    show ?thesis
    proof (cases "j_ResolvedOutputs snap = []")
      case True
      with 1 two [of "EvJobCompleted k (j_NodeID snap) ?dur"] show ?thesis by (simp add: transition_events_def Let_def)
    next
      case False
      with 1 two [of "EvJobCompletedWithOutputs k (j_NodeID snap) ?dur ?outs"] show ?thesis by (simp add: transition_events_def Let_def)
    qed
  next
    case 2
    with two [of "EvJobFailed k (j_Error snap) (j_ExitCode snap) (j_Attempt snap)"] show ?thesis by (simp add: transition_events_def)
  next
    case 3
    with one show ?thesis by (simp add: transition_events_def)
  qed
  then show ?thesis1 ?thesis2 by blast+
qed

context job_loader
begin

definition summaries_ok :: "'p job_store \<Rightarrow> pg \<Rightarrow> bool" where
  "summaries_ok st db \<longleftrightarrow> (\<forall>i d. i \<noteq> [] \<longrightarrow> disk (js_persister st) i = Some d \<longrightarrow> published_status (j_Status d) \<longrightarrow> shows_status db i (j_Status d))"

text \<open>In memory a published status is that of the disk.\<close>

lemma published_on_disk:
  assumes "coh st" and "js_jobs st i = Some j" and "published_status (j_Status j)"
  shows "\<exists>d. disk (js_persister st) i = Some d \<and> j_Status d = j_Status j"
proof -
  have "agree i (Some j) (disk (js_persister st) i)" using assms(1,2) by (metis coherent_def)
  then obtain d where "disk (js_persister st) i = Some d" "agree i (Some j) (Some d)" by (rule agree_SomeE)
  then show ?thesis using assms(3) by (auto simp: status_agrees_def published_status_def)
qed

lemma summaries_step:
  assumes ok: "summaries_ok st db" and coh: "coh st" and w: "step_writes st st' k es" and len: "length ds = length es"
  shows "summaries_ok st' (upsertSummaries L c (map2 bus_of_job es ds) db)" (is "summaries_ok st' ?db")
  unfolding summaries_ok_def
proof (intro allI impI)
  fix i d assume i: "i \<noteq> []" "disk (js_persister st') i = Some d" "published_status (j_Status d)"
  consider (quiet) "es = []" "\<forall>d. disk (js_persister st') k = Some d \<longrightarrow> published_status (j_Status d) \<longrightarrow> disk (js_persister st) k = Some d \<or>
         (\<exists>j. js_jobs st k = Some j \<and> j_Status j = j_Status d)"
    | (submitted) cmd p where "es = [EvJobSubmitted k cmd p]" "\<forall>d. disk (js_persister st') k = Some d \<longrightarrow> \<not> published_status (j_Status d)"
    | (transition) frm s snap where "es = transition_events k frm s snap" "\<forall>d. disk (js_persister st') k = Some d \<longrightarrow> j_Status d = s"
    using w unfolding step_writes_def by blast
  note c = this
  show "shows_status ?db i (j_Status d)"
  proof (cases "i = k")
    case True
    from c show ?thesis
    proof cases
      case quiet
      have "\<exists>d0. disk (js_persister st) k = Some d0 \<and> j_Status d0 = j_Status d"
        using quiet(2) i True published_on_disk [OF coh] by metis
      with ok i True quiet(1) show ?thesis unfolding summaries_ok_def by (metis fold_simps(1) list.map(1) upsertSummaries_def zip_Nil)
    next
      case submitted
      with i True show ?thesis by auto
    next
      case transition
      with i True len transition_events_effect(2) [of ds k _ _ _ L c db] show ?thesis by auto
    qed
  next
    case False
    then have "disk (js_persister st) i = Some d" using w i unfolding step_writes_def by auto
    then have old: "shows_status db i (j_Status d)" using ok i unfolding summaries_ok_def by blast
    have "pg_jobs ?db i = pg_jobs db i"
      using c
    proof cases
      case quiet
      then show ?thesis by (simp add: upsertSummaries_def)
    next
      case submitted
      with len False show ?thesis by (cases ds) (auto simp: upsertSummaries_def summary_cases job_event_other)
    next
      case transition
      with len False transition_events_effect(1) show ?thesis by blast
    qed
    with old show ?thesis by (simp add: shows_status_def)
  qed
qed

lemma tracked_summaries: "tracked save load disk L c st db \<Longrightarrow> summaries_ok st db"
proof (induction rule: tracked.induct)
  case (start p)
  then show ?case by (simp add: summaries_ok_def NewJobStore_def)
next
  case (store st db st' es ds)
  have coh: "coh st" using tracked_reachable [OF store(1)] by (rule coherent_reachable)
  with store(2) obtain k where "step_writes st st' k (drop (length (js_events st)) (js_events st'))" using step_writes_step by blast
  with store summaries_step coh show ?case by blast
next
  case (other st db e)
  then show ?case using jobs_other_upsert [of e L c db] by (simp add: summaries_ok_def shows_status_def)
qed

end

text \<open>C28. The analytics database tells the truth about jobs: over every history of the job store with failed saves and restarts, with the sink
  writing the events that the store publishes between any events of other parts, the summary of a job that the store has as running,
  completed, failed, timed out, cancelled or skipped shows that status.\<close>

theorem summaries_follow_jobs:
  assumes "tracked bd_SaveJob bd_LoadAllJobs bd_disk L c st db" and "js_jobs st i = Some j" and "i \<noteq> []" and "published_status (j_Status j)"
  shows "shows_status db i (j_Status j)"
proof -
  have "js_reachable bd_SaveJob bd_LoadAllJobs bd_disk st" using assms(1) by (rule tracked_reachable)
  from bd.published_on_disk [OF bd_coherent [OF this] assms(2,4)] bd.tracked_summaries [OF assms(1)] assms(3,4)
  show ?thesis unfolding bd.summaries_ok_def by metis
qed

definition demo_write :: "badger job_store \<Rightarrow> badger job_store \<Rightarrow> pg \<Rightarrow> pg" where
  "demo_write st st' db = (let es = drop (length (js_events st)) (js_events st') in
     upsertSummaries demo_pg_lib demo_sink_config (map2 bus_of_job es (replicate (length es) (''e'', 0))) db)"

theorem summaries_follow_jobs_witness:
  "js_jobs demo_cancelled ''j1'' \<noteq> None \<and>
   shows_status (demo_write (demo_pending []) demo_cancelled (demo_write (demo_start [False]) (demo_pending []) empty_pg)) ''j1'' JobStatusCancelled"
proof -
  have "tracked bd_SaveJob bd_LoadAllJobs bd_disk demo_pg_lib demo_sink_config (demo_start [False]) empty_pg"
    unfolding demo_start_def by (rule tracked.start) (simp add: bd_disk_def)
  moreover have "bd_step (demo_start [False]) (demo_pending [])" unfolding demo_pending_def
    by (rule js_step.submit [where j = demo_job and now = 10, OF _ prod.collapse [symmetric]]) (simp add: fresh_job_def demo_job_def zero_job_def)
  ultimately have "tracked bd_SaveJob bd_LoadAllJobs bd_disk demo_pg_lib demo_sink_config (demo_pending []) (demo_write (demo_start [False]) (demo_pending []) empty_pg)"
    unfolding demo_write_def Let_def by (rule tracked.store [OF _ _ refl]) simp
  from tracked.store [OF this demo_cancelled_step refl, of "replicate (length (drop (length (js_events (demo_pending []))) (js_events demo_cancelled))) (''e'', 0)"]
  have "tracked bd_SaveJob bd_LoadAllJobs bd_disk demo_pg_lib demo_sink_config demo_cancelled
      (demo_write (demo_pending []) demo_cancelled (demo_write (demo_start [False]) (demo_pending []) empty_pg))"
    by (simp add: demo_write_def Let_def)
  from summaries_follow_jobs [OF this, of "''j1''"] show ?thesis by (simp add: demo_cancelled_jobs published_status_def)
qed

text \<open>The event of a failed job names no node, so that no failure is ever counted for a node.\<close>

lemma failed_job_not_counted: "pg_nodes (upsert_summary L c (bev_JobFailed k er x a d) db) = pg_nodes db"
  by (simp add: summary_cases upsertJobFailed_def Let_def) (simp add: extractString_def bev_JobFailed_def NewEvent_def)

end
