(* ===== verification/Spec2Isabelle.thy ===== *)
theory Spec2Isabelle
  imports Authz Retry_Policy Workflow_Store Node_Registry Dispatch Node_Reports Principal_Groups Secret_Store Share_Api Cert_Revocation Node_Agent
    Webauthn_Api Crash_Recovery Runtime_Ipc Audit_Log Job_Summaries
begin

text \<open>
  \<^bold>\<open>Helion: a verified model of the coordinator.\<close>

  Helion is a job orchestrator: a coordinator accepts jobs and workflows over HTTP, keeps them in memory
  and in BadgerDB, picks nodes for them, sends them out over gRPC, and takes the nodes' reports back.
  A node stages the inputs of a job, runs it with the devices it was granted, uploads its outputs and
  reports. This development models the logic of both (package paths are under \<open>src/internal\<close>).

  \<^bold>\<open>Parts and theories.\<close>

  \<^item> \<open>Helion_Prelude\<close>: Go time, durations and string functions, visiting orders of maps, fact collections.
  \<^item> \<open>Principals\<close>: \<open>principal/principal.go\<close>; typed identities and their ID strings.
  \<^item> \<open>Authz\<close>: \<open>authz/authz.go\<close>, \<open>rules.go\<close>, \<open>share.go\<close>; \<open>Allow\<close> as a function with its denial codes,
    characterised by the grounds on which it grants.
  \<^item> \<open>Job_Types\<close>: the records and enumerations of \<open>proto/coordinatorpb/types.go\<close>.
  \<^item> \<open>Job_Persistence\<close>: \<open>cluster/persistence_encrypt.go\<close>, \<open>persistence_jobs.go\<close>, \<open>mem_job_persister.go\<close>; the
    persister interface is the locale \<open>job_persister\<close> (what a save does to the disk) extended by
    \<open>job_loader\<close>, interpreted on the in-memory and on the BadgerDB persister. A BadgerDB persister
    carries a list of outcomes for its transactions, so that every pattern of failing saves is covered.
  \<^item> \<open>Retry_Policy\<close>: \<open>cluster/retry.go\<close>; delays on 64-bit words.
  \<^item> \<open>Job_Store\<close>: \<open>cluster/job*.go\<close>, \<open>shares.go\<close>, \<open>priority.go\<close>; every operation of \<open>JobStore\<close>, the step
    relation \<open>js_step\<close> that interleaves them with restarts, and the invariants of its reachable states.
  \<^item> \<open>Dag\<close>: \<open>cluster/dag.go\<close>; Kahn's sort, descendants, reference validation, against the dependency relation.
  \<^item> \<open>Workflow_Store\<close>: \<open>cluster/workflow*.go\<close>; start, eligibility, completion cascade, cancellation,
    resolution of artifact references.
  \<^item> \<open>Scheduler\<close>: \<open>cluster/scheduler.go\<close>, \<open>policy*.go\<close>; the policy interface is the locale \<open>policy\<close>,
    interpreted on the three policies.
  \<^item> \<open>Node_Registry\<close>: \<open>cluster/registry*.go\<close>, \<open>certpin.go\<close>; registration, heartbeats, pruning,
    revocation, pins; interprets the scheduler's node source.
  \<^item> \<open>Dispatch\<close>: \<open>cluster/dispatch.go\<close>, \<open>node_dispatcher.go\<close>; one tick of the loop over the job store, the
    workflow store and a scheduler.
  \<^item> \<open>Node_Reports\<close>: \<open>grpcserver/handlers.go\<close>, \<open>interceptors.go\<close>, \<open>cluster/service_registry.go\<close>; result
    reports, output attestation, service events.
  \<^item> \<open>Kv_Store\<close>: \<open>cluster/persistence_kv.go\<close>; keys with a lifetime, under failing transactions.
  \<^item> \<open>Go_Strings\<close>: the functions of \<open>strings\<close>, \<open>path\<close>, \<open>strconv\<close> and \<open>hex\<close> that the parts below call.
  \<^item> \<open>Principal_Groups\<close>: \<open>groups/*.go\<close>; both group stores refine one directory of groups.
  \<^item> \<open>Secret_Store\<close>: \<open>secretstore/secretstore.go\<close>, \<open>cluster/persistence_rotate.go\<close>; key ring and rewrap sweep
    over an abstract cipher.
  \<^item> \<open>Submit_Validation\<close>, \<open>Job_Api\<close>, \<open>Workflow_Api\<close>: \<open>api/handlers_jobs.go\<close>, \<open>handlers_workflows.go\<close>,
    \<open>env_denylist.go\<close>, \<open>secret_env.go\<close>, \<open>dry_run.go\<close>; the handlers from the decoded request on.
  \<^item> \<open>Artifact_Registry\<close>, \<open>Registry_Api\<close>: \<open>registry/*.go\<close>, \<open>api/handlers_registry.go\<close>; datasets and models.
  \<^item> \<open>Share_Api\<close>: \<open>api/handlers_shares.go\<close>.
  \<^item> \<open>Auth_Tokens\<close>: \<open>auth/jwt.go\<close>, \<open>badger_store.go\<close>; issue, validation, revocation, root rotation, over an
    abstract signature scheme.
  \<^item> \<open>Cert_Revocation\<close>: \<open>pqcrypto/revocation.go\<close>; the set of revoked serials and its reload from disk.
  \<^item> \<open>Go_Net\<close>, \<open>Http_Auth\<close>: \<open>api/operator_cert.go\<close>, \<open>middleware.go\<close>, \<open>webauthn/tier.go\<close>; the certificate, token and
    administrator gates in front of a handler, and exactly which requests pass them. A gate takes the
    handler behind it as an argument; the server's record is extended by the theories that follow.
  \<^item> \<open>Admin_Api\<close>: \<open>api/handlers_admin.go\<close>, \<open>handlers_revocation.go\<close>, \<open>operator_cert.go\<close>; tokens, revocations and
    operator certificates behind those gates.
  \<^item> \<open>Webauthn_Store\<close>, \<open>Webauthn_Api\<close>: \<open>webauthn/*.go\<close>, \<open>api/handlers_webauthn.go\<close>; credentials and sessions (the
    locale \<open>credential_store\<close>, interpreted on both stores), the two ceremonies over an abstract library,
    and the histories \<open>wa_hist\<close> that follow every token the server hands out.
  \<^item> \<open>Gpu_Runtime\<close>: \<open>runtime/gpu_alloc.go\<close>, \<open>go_runtime.go\<close>, \<open>rust_client.go\<close>; device allocation and the runs
    around an abstract process; the locale \<open>device_runtime\<close> is interpreted on both runtimes.
  \<^item> \<open>Artifact_Files\<close>, \<open>Staging\<close>: \<open>artifacts/local.go\<close>, \<open>store.go\<close>, \<open>staging/*.go\<close>; a file system of
    directories and files, the local store on it, preparation and finalisation of a job.
  \<^item> \<open>Node_Agent\<close>: \<open>nodeserver/server.go\<close>, \<open>service_prober.go\<close>; a dispatched job from request to report, joined
    with the coordinator's attestation.
  \<^item> \<open>Runtime_Ipc\<close>: \<open>runtime/ipc.go\<close>; frames and messages of the Rust runtime's socket over an abstract wire encoding.
  \<^item> \<open>Crash_Recovery\<close>: \<open>cluster/recovery.go\<close>; what a restarted coordinator does with unfinished jobs.
  \<^item> \<open>Log_Store\<close>: \<open>logstore/*.go\<close>, \<open>api/handlers_logs.go\<close>, the log stream of \<open>grpcserver/handlers.go\<close>; secrets are
    scrubbed on the way in and out (the locale \<open>log_backend\<close>) and entries freed once confirmed (the locale
    \<open>reconcilable\<close>), both interpreted on the two log stores.
  \<^item> \<open>Audit_Log\<close>: \<open>audit/logger.go\<close>, \<open>handleGetAudit\<close> of \<open>api/handlers_cluster.go\<close>; the audit log as a list of events.
  \<^item> \<open>Event_Bus\<close>, \<open>Analytics_Sink\<close>, \<open>Job_Summaries\<close>: \<open>events/*.go\<close>, \<open>analytics/sink.go\<close>, \<open>sink_unified.go\<close>, \<open>log_confirmer.go\<close>;
    events from the stores over bounded channels and a bounded buffer into the tables of the analytics database, with the
    statements of the source as functions on maps, and the job summaries as a refinement of the job store.

  \<^bold>\<open>Conventions.\<close> A critical section of the code is one function from state to state; a concurrent
  history is a sequence of them, and where an operation releases its lock between two sections the
  interference is an argument. The clock, random draws, map iteration orders, rendered error
  messages and the outcome of disk transactions are arguments. Errors are values. Unsigned and
  64-bit arithmetic that can wrap is on words.

  \<^bold>\<open>Termination.\<close> Most loops are structural recursions; the work lists of \<open>Dag\<close> and a few string
  functions terminate by a measure. The device allocator's scan of 32-bit indices and the two
  decoding loops of the runtime's socket are partial functions, and they are proved to return for every
  input. No definition uses fuel.

  \<^bold>\<open>Not modelled.\<close> HTTP routing and JSON decoding, websocket and gRPC transport, TLS and the encoding of
  certificates, the go-webauthn library, the Rust runtime's own process, the S3 client, the migrations and
  queries of the analytics database,
  metrics, process start-up, the dashboard, and the third-party stores and ciphers behind the
  interfaces above.
\<close>

end
